(* ===== verification/Prelude.thy ===== *)
theory Prelude
  imports Complex_Main "HOL-Library.Char_ord" "HOL-Library.List_Lexorder" "HOL-Library.Sublist"
begin

text \<open>
  The vocabulary every component of the development shares: Python exceptions as values,
  timezone-aware and naive datetimes, insertion-ordered dictionaries, JSON-like argument
  values, \<open>str.strip\<close>, \<open>round\<close>, and the collections of rules the component proofs use.
\<close>

section \<open>Rule collections\<close>

text \<open>
  \<open>exn_simps\<close> turns "this sequence of guards returned normally" into the conjunction of the
  negated guards; \<open>dict_simps\<close> evaluates lookups after updates; \<open>wf_intros\<close> collects the
  preservation lemmas of the components' invariants.
\<close>

named_theorems exn_simps "results of guarded computations"
named_theorems dict_simps "lookups in ordered dictionaries"
named_theorems wf_intros "preservation of well-formedness"

section \<open>Exceptions as values\<close>

datatype exn =
    ValueError string
  | TypeError string
  | PermissionError string
  | KeyError string
  | RuntimeError string
  | ImportError string
  | AttributeError string
  | TimeoutError string
  | OtherError string string

text \<open>
  \<open>OtherError\<close>: an exception of a class the sources do not name, as a callback may raise;
  \<open>exn_class\<close> is \<open>type(e).__name__\<close>.
\<close>

fun exn_class :: "exn \<Rightarrow> string" where
  "exn_class (ValueError _) = ''ValueError''"
| "exn_class (TypeError _) = ''TypeError''"
| "exn_class (PermissionError _) = ''PermissionError''"
| "exn_class (KeyError _) = ''KeyError''"
| "exn_class (RuntimeError _) = ''RuntimeError''"
| "exn_class (ImportError _) = ''ImportError''"
| "exn_class (AttributeError _) = ''AttributeError''"
| "exn_class (TimeoutError _) = ''TimeoutError''"
| "exn_class (OtherError c _) = c"

fun exn_text :: "exn \<Rightarrow> string" where
  "exn_text (ValueError s) = s"
| "exn_text (TypeError s) = s"
| "exn_text (PermissionError s) = s"
| "exn_text (KeyError s) = [CHR 39] @ s @ [CHR 39]"
| "exn_text (RuntimeError s) = s"
| "exn_text (ImportError s) = s"
| "exn_text (AttributeError s) = s"
| "exn_text (TimeoutError s) = s"
| "exn_text (OtherError _ s) = s"

lemma if_Inl_eq_Inr [exn_simps]:
  "((if b then Inl e else r) = Inr v) \<longleftrightarrow> (\<not> b \<and> r = Inr v)"
  by simp

lemma if_Inl_eq_Inr' [exn_simps]:
  "(Inr v = (if b then Inl e else r)) \<longleftrightarrow> (\<not> b \<and> r = Inr v)"
  by auto

lemma case_sum_Inl_eq_Inr [exn_simps]:
  "((case r of Inl e \<Rightarrow> Inl (g e) | Inr x \<Rightarrow> f x) = Inr v) \<longleftrightarrow> (\<exists>x. r = Inr x \<and> f x = Inr v)"
  by (auto split: sum.splits)

lemma case_option_Inl_eq_Inr [exn_simps]:
  "((case r of None \<Rightarrow> Inl e | Some x \<Rightarrow> f x) = Inr v) \<longleftrightarrow> (\<exists>x. r = Some x \<and> f x = Inr v)"
  by (auto split: option.splits)

text \<open>A list of guards, each with the exception it raises, tried in order.\<close>

fun first_error :: "(bool \<times> 'e) list \<Rightarrow> 'e option" where
  "first_error [] = None"
| "first_error ((bad, e) # gs) = (if bad then Some e else first_error gs)"

lemma first_error_None [simp]: "first_error gs = None \<longleftrightarrow> (\<forall>g \<in> set gs. \<not> fst g)"
  by (induction gs rule: first_error.induct) auto

section \<open>Datetimes\<close>

text \<open>
  A \<open>datetime\<close> is an instant in microseconds, with or without a timezone. Comparing an aware
  with a naive one raises in Python; the code tests \<open>_aware\<close> first, and the model compares
  instants only after those tests.
\<close>

datatype datetime = Aware (instant: int) | Naive (instant: int)

fun aware :: "datetime \<Rightarrow> bool" where
  "aware (Aware _) = True"
| "aware (Naive _) = False"

text \<open>\<open>now if now is not None else datetime.now(timezone.utc)\<close>, the clock being \<open>utc\<close>.\<close>

definition resolve_now :: "datetime option \<Rightarrow> int \<Rightarrow> datetime" where
  "resolve_now now utc = (case now of Some t \<Rightarrow> t | None \<Rightarrow> Aware utc)"

lemma aware_resolve_now [simp]:
  "aware (resolve_now now utc) \<longleftrightarrow> (\<forall>t. now = Some t \<longrightarrow> aware t)"
  by (simp add: resolve_now_def split: option.splits)

section \<open>Insertion-ordered dictionaries\<close>

text \<open>
  A Python \<open>dict\<close> keeps insertion order, and assigning to a present key keeps its place. The
  model is an association list with lookup \<open>map_of\<close>.
\<close>

type_synonym ('k, 'v) dict = "('k \<times> 'v) list"

fun dict_set :: "'k \<Rightarrow> 'v \<Rightarrow> ('k, 'v) dict \<Rightarrow> ('k, 'v) dict" where
  "dict_set k v [] = [(k, v)]"
| "dict_set k v ((k', v') # d) = (if k = k' then (k, v) # d else (k', v') # dict_set k v d)"

definition dict_del :: "'k \<Rightarrow> ('k, 'v) dict \<Rightarrow> ('k, 'v) dict" where
  "dict_del k d = filter (\<lambda>p. fst p \<noteq> k) d"

abbreviation dict_keys :: "('k, 'v) dict \<Rightarrow> 'k list" where
  "dict_keys d \<equiv> map fst d"

abbreviation dict_ok :: "('k, 'v) dict \<Rightarrow> bool" where
  "dict_ok d \<equiv> distinct (dict_keys d)"

lemma map_of_dict_set [simp, dict_simps]: "map_of (dict_set k v d) = (map_of d)(k \<mapsto> v)"
  by (induction k v d rule: dict_set.induct) auto

lemma keys_dict_set:
  "dict_keys (dict_set k v d) = (if k \<in> set (dict_keys d) then dict_keys d else dict_keys d @ [k])"
  by (induction k v d rule: dict_set.induct) auto

lemma set_keys_dict_set [simp, dict_simps]:
  "fst ` set (dict_set k v d) = insert k (fst ` set d)"
  by (induction k v d rule: dict_set.induct) auto

lemma dict_ok_set [simp, wf_intros]: "dict_ok d \<Longrightarrow> dict_ok (dict_set k v d)"
  by (auto simp: keys_dict_set)

lemma dict_set_fresh: "k \<notin> fst ` set d \<Longrightarrow> dict_set k v d = d @ [(k, v)]"
  by (induction k v d rule: dict_set.induct) auto

lemma map_of_dict_del [simp, dict_simps]: "map_of (dict_del k d) = (map_of d)(k := None)"
  by (induction d) (auto simp: dict_del_def fun_eq_iff)

lemma dict_ok_del [simp, wf_intros]: "dict_ok d \<Longrightarrow> dict_ok (dict_del k d)"
  by (induction d) (auto simp: dict_del_def)

lemma keys_dict_del [simp, dict_simps]: "fst ` set (dict_del k d) = fst ` set d - {k}"
  by (auto simp: dict_del_def)

lemma map_of_None_iff [dict_simps]: "map_of d k = None \<longleftrightarrow> k \<notin> fst ` set d"
  by (rule map_of_eq_None_iff)

lemma length_dict_del:
  assumes "dict_ok d" and "k \<in> fst ` set d"
  shows "Suc (length (dict_del k d)) = length d"
  using assms
proof (induction d)
  case (Cons p d)
  show ?case
  proof (cases "fst p = k")
    case True
    with Cons.prems(1) have "\<forall>q \<in> set d. fst q \<noteq> k" by (auto simp: rev_image_eqI)
    then have "filter (\<lambda>q. fst q \<noteq> k) d = d" by simp
    with True show ?thesis by (simp add: dict_del_def)
  next
    case False
    with Cons show ?thesis by (auto simp: dict_del_def)
  qed
qed simp

section \<open>JSON-like values\<close>

text \<open>
  Tool arguments, event payloads and record payloads are JSON-like. A float is an exact
  rational: the model does not round to 53 bits.
\<close>

datatype json =
    JNull
  | JBool bool
  | JInt int
  | JFloat rat
  | JStr string
  | JArr "json list"
  | JObj "(string \<times> json) list"

type_synonym args = "(string, json) dict"

text \<open>Python truthiness of such a value.\<close>

fun truthy :: "json \<Rightarrow> bool" where
  "truthy JNull = False"
| "truthy (JBool b) = b"
| "truthy (JInt i) = (i \<noteq> 0)"
| "truthy (JFloat r) = (r \<noteq> 0)"
| "truthy (JStr s) = (s \<noteq> [])"
| "truthy (JArr xs) = (xs \<noteq> [])"
| "truthy (JObj d) = (d \<noteq> [])"

fun as_dict :: "json \<Rightarrow> args" where
  "as_dict (JObj d) = d"
| "as_dict _ = []"

definition json_opt :: "('a \<Rightarrow> json) \<Rightarrow> 'a option \<Rightarrow> json" where
  "json_opt f v = (case v of None \<Rightarrow> JNull | Some x \<Rightarrow> f x)"

lemma json_opt_simps [simp]: "json_opt f None = JNull" "json_opt f (Some x) = f x"
  by (simp_all add: json_opt_def)

section \<open>Strings\<close>

text \<open>
  A \<open>str\<close> is a list of characters (code points below 256). \<open>is_space\<close> is what \<open>str.strip\<close>
  removes in that range.
\<close>

definition is_space :: "char \<Rightarrow> bool" where
  "is_space c = (of_char c \<in> {9, 10, 11, 12, 13, 28, 29, 30, 31, 32, 133, 160 :: nat})"

definition nonblank :: "string \<Rightarrow> bool" where
  "nonblank s = (\<exists>c \<in> set s. \<not> is_space c)"

definition strip :: "string \<Rightarrow> string" where
  "strip s = rev (dropWhile is_space (rev (dropWhile is_space s)))"

lemma nonblank_not_Nil: "nonblank s \<Longrightarrow> s \<noteq> []"
  by (auto simp: nonblank_def)

lemma dropWhile_Nil_iff: "dropWhile P xs = [] \<longleftrightarrow> (\<forall>x \<in> set xs. P x)"
  by (induction xs) auto

lemma ex_dropWhile: "(\<exists>x \<in> set (dropWhile P xs). \<not> P x) \<longleftrightarrow> (\<exists>x \<in> set xs. \<not> P x)"
  by (induction xs) auto

lemma nonblank_iff_strip: "nonblank s \<longleftrightarrow> strip s \<noteq> []"
  using ex_dropWhile [of is_space s] by (auto simp: strip_def dropWhile_Nil_iff nonblank_def)

fun lower_char :: "char \<Rightarrow> char" where
  "lower_char c = (let n = of_char c in if 65 \<le> n \<and> n \<le> (90::nat) then char_of (n + 32) else c)"

definition lower :: "string \<Rightarrow> string" where
  "lower s = map lower_char s"

text \<open>\<open>sub in s\<close> on strings, \<open>s.split(sep, 1)\<close> at a character, \<open>sorted\<close> of a set.\<close>

definition contains :: "string \<Rightarrow> string \<Rightarrow> bool" where
  "contains sub s = sublist sub s"

definition split1 :: "char \<Rightarrow> string \<Rightarrow> string \<times> string" where
  "split1 c s = (takeWhile (\<lambda>x. x \<noteq> c) s, tl (dropWhile (\<lambda>x. x \<noteq> c) s))"

lemma split1_append:
  "c \<notin> set p \<Longrightarrow> split1 c (p @ c # r) = (p, r)"
  by (induction p) (auto simp: split1_def)

section \<open>Rounding\<close>

text \<open>\<open>round(x, n)\<close>: to the nearest multiple of \<open>10 ^ -n\<close>, ties to even.\<close>

definition round_half_even :: "rat \<Rightarrow> int" where
  "round_half_even x =
     (let f = \<lfloor>x\<rfloor>; d = x - of_int f
      in if d < 1 / 2 then f else if d > 1 / 2 then f + 1 else if even f then f else f + 1)"

definition round_to :: "nat \<Rightarrow> rat \<Rightarrow> rat" where
  "round_to n x = of_int (round_half_even (x * 10 ^ n)) / 10 ^ n"

lemma round_half_even_bounds:
  "of_int (round_half_even x) - 1 / 2 \<le> x" "x \<le> of_int (round_half_even x) + 1 / 2"
  by (auto simp: round_half_even_def Let_def) linarith+

lemma round_half_even_of_int [simp]: "round_half_even (of_int i) = i"
  by (simp add: round_half_even_def)

lemma round_half_even_mono_int:
  assumes "of_int a \<le> x" and "x \<le> of_int b"
  shows "a \<le> round_half_even x" and "round_half_even x \<le> b"
proof -
  have "of_int a \<le> (of_int (round_half_even x) + 1 / 2 :: rat)"
    using assms(1) round_half_even_bounds(2) [of x] by linarith
  then show "a \<le> round_half_even x" by linarith
  have "of_int (round_half_even x) \<le> (of_int b + 1 / 2 :: rat)"
    using assms(2) round_half_even_bounds(1) [of x] by linarith
  then show "round_half_even x \<le> b" by linarith
qed

lemma round_to_unit_interval:
  assumes "0 \<le> x" and "x \<le> 1"
  shows "0 \<le> round_to n x" and "round_to n x \<le> 1"
proof -
  have lo: "of_int 0 \<le> x * 10 ^ n" using assms(1) by simp
  have "x * 10 ^ n \<le> 1 * 10 ^ n" using assms(2) by (intro mult_right_mono) simp_all
  then have hi: "x * 10 ^ n \<le> of_int (10 ^ n)" by simp
  note r = round_half_even_mono_int [OF lo hi]
  from r(1) show "0 \<le> round_to n x" by (simp add: round_to_def)
  from r(2) have "(of_int (round_half_even (x * 10 ^ n)) :: rat) \<le> of_int (10 ^ n)"
    by (simp only: of_int_le_iff)
  then show "round_to n x \<le> 1" by (simp add: round_to_def divide_le_eq)
qed

end
