(* ===== verification/Trust_Boundaries.thy ===== *)
theory Trust_Boundaries
  imports Prelude "HOL-Library.FSet"
begin

text \<open>
  Provenance checks on authority-bearing tool arguments (core/trust_boundaries.py): the source
  labels and their validation, the frozen provenance of an action, the policy's constructor
  and \<open>evaluate\<close>. A \<open>frozenset\<close> is an \<open>fset\<close>. The interface \<open>boundary_policy\<close> states what the
  execution gate relies on; the policy's model is its interpretation.
\<close>

section \<open>Labels and provenance\<close>

datatype source_trust = AUTHORITY | DATA_ONLY

datatype source_channel =
  OPERATOR_POLICY | VERIFIED_USER_REQUEST | RETRIEVAL | TOOL_RESPONSE | PEER_AGENT | MEMORY

record source_label =
  sl_source_id :: string
  sl_trust :: source_trust
  sl_channel :: source_channel

definition low_trust_channels :: "source_channel set" where
  "low_trust_channels = {RETRIEVAL, TOOL_RESPONSE, PEER_AGENT, MEMORY}"

text \<open>\<open>SourceLabel(...)\<close> with its \<open>__post_init__\<close> checks.\<close>

definition make_source_label ::
  "string \<Rightarrow> source_trust \<Rightarrow> source_channel \<Rightarrow> exn + source_label" where
  "make_source_label sid trust channel =
     (if \<not> nonblank sid then Inl (ValueError ''source_id must be nonempty'')
      else if channel \<in> low_trust_channels \<and> trust = AUTHORITY
      then Inl (ValueError ''low-trust channels cannot grant action authority'')
      else Inr \<lparr>sl_source_id = sid, sl_trust = trust, sl_channel = channel\<rparr>)"

definition label_ok :: "source_label \<Rightarrow> bool" where
  "label_ok l \<longleftrightarrow> nonblank (sl_source_id l) \<and>
     \<not> (sl_channel l \<in> low_trust_channels \<and> sl_trust l = AUTHORITY)"

lemma make_source_label_ok [wf_intros]: "make_source_label sid t c = Inr l \<Longrightarrow> label_ok l"
  by (auto simp: make_source_label_def label_ok_def exn_simps)

text \<open>\<open>_freeze_origins\<close>: field names and source references must be nonblank.\<close>

type_synonym origins = "(string, string fset) dict"

fun freeze_origins :: "origins \<Rightarrow> exn + origins" where
  "freeze_origins [] = Inr []"
| "freeze_origins ((field, srcs) # rest) =
     (if \<not> nonblank field then Inl (ValueError ''provenance field name must be nonempty'')
      else if \<not> fBall srcs nonblank
      then Inl (ValueError ''source references must be nonempty strings'')
      else case freeze_origins rest of
        Inl e \<Rightarrow> Inl e
      | Inr frozen \<Rightarrow> Inr ((field, srcs) # frozen))"

lemma freeze_origins_id: "freeze_origins groups = Inr frozen \<Longrightarrow> frozen = groups"
  by (induction groups arbitrary: frozen rule: freeze_origins.induct) (auto simp: exn_simps)

record action_provenance =
  control_origins :: origins
  data_origins :: origins

definition make_provenance :: "origins \<Rightarrow> origins \<Rightarrow> exn + action_provenance" where
  "make_provenance controls datas =
     (case freeze_origins controls of
        Inl e \<Rightarrow> Inl e
      | Inr cs \<Rightarrow>
          (case freeze_origins datas of
             Inl e \<Rightarrow> Inl e
           | Inr ds \<Rightarrow> Inr \<lparr>control_origins = cs, data_origins = ds\<rparr>))"

record boundary_verdict =
  bv_allowed :: bool
  bv_reason :: string
  bv_field :: "string option"

section \<open>The policy\<close>

record trust_policy =
  tp_sources :: "(string, source_label) dict"
  tp_protected :: "(string, string fset) dict"

fun snapshot_sources ::
  "(string, source_label) dict \<Rightarrow> exn + (string, source_label) dict" where
  "snapshot_sources [] = Inr []"
| "snapshot_sources ((key, label) # rest) =
     (if key \<noteq> sl_source_id label
      then Inl (ValueError ''source registry IDs must match SourceLabel.source_id'')
      else case snapshot_sources rest of
        Inl e \<Rightarrow> Inl e
      | Inr snap \<Rightarrow> Inr ((key, label) # snap))"

fun snapshot_fields :: "(string, string fset) dict \<Rightarrow> exn + (string, string fset) dict" where
  "snapshot_fields [] = Inr []"
| "snapshot_fields ((tool, names) # rest) =
     (if \<not> nonblank tool then Inl (ValueError ''tool names must be nonempty'')
      else if \<not> fBall names nonblank
      then Inl (ValueError ''protected argument names must be nonempty'')
      else case snapshot_fields rest of
        Inl e \<Rightarrow> Inl e
      | Inr snap \<Rightarrow> Inr ((tool, names) # snap))"

text \<open>\<open>TrustBoundaryPolicy.__init__\<close>.\<close>

definition make_policy ::
  "(string, source_label) dict \<Rightarrow> (string, string fset) dict \<Rightarrow> exn + trust_policy" where
  "make_policy sources protected_fields =
     (case snapshot_sources sources of
        Inl e \<Rightarrow> Inl e
      | Inr ss \<Rightarrow>
          (case snapshot_fields protected_fields of
             Inl e \<Rightarrow> Inl e
           | Inr fs \<Rightarrow> Inr \<lparr>tp_sources = ss, tp_protected = fs\<rparr>))"

abbreviation bv_deny :: "string \<Rightarrow> string option \<Rightarrow> boundary_verdict" where
  "bv_deny reason f \<equiv> \<lparr>bv_allowed = False, bv_reason = reason, bv_field = f\<rparr>"

abbreviation bv_allow :: boundary_verdict where
  "bv_allow \<equiv> \<lparr>bv_allowed = True, bv_reason = ''allowed'', bv_field = None\<rparr>"

text \<open>
  The inner loop over \<open>sorted(controls | data_sources)\<close> and the outer loop over
  \<open>sorted(protected)\<close>; the result is the verdict an iteration returned, if one did.
\<close>

fun source_loop ::
  "trust_policy \<Rightarrow> string fset \<Rightarrow> string \<Rightarrow> string list \<Rightarrow> boundary_verdict option" where
  "source_loop p datas field [] = None"
| "source_loop p datas field (sid # rest) =
     (case map_of (tp_sources p) sid of
        None \<Rightarrow> Some (bv_deny ''unknown_control_source'' (Some field))
      | Some label \<Rightarrow>
          if sl_trust label \<noteq> AUTHORITY
          then Some (bv_deny (if sid |\<in>| datas then ''data_promoted_to_control''
                              else ''untrusted_control_source'') (Some field))
          else source_loop p datas field rest)"

definition origins_of :: "origins \<Rightarrow> string \<Rightarrow> string fset" where
  "origins_of d field = (case map_of d field of None \<Rightarrow> {||} | Some s \<Rightarrow> s)"

definition field_check ::
  "trust_policy \<Rightarrow> args \<Rightarrow> action_provenance \<Rightarrow> string \<Rightarrow> boundary_verdict option" where
  "field_check p arguments prov field =
     (if map_of arguments field = None
      then Some (bv_deny ''protected_field_missing'' (Some field))
      else let controls = origins_of (control_origins prov) field;
               datas = origins_of (data_origins prov) field
           in if controls = {||}
              then Some (bv_deny ''missing_control_provenance'' (Some field))
              else source_loop p datas field (sorted_list_of_set (fset (controls |\<union>| datas))))"

fun field_loop ::
  "trust_policy \<Rightarrow> args \<Rightarrow> action_provenance \<Rightarrow> string list \<Rightarrow> boundary_verdict option" where
  "field_loop p arguments prov [] = None"
| "field_loop p arguments prov (f # fs) =
     (case field_check p arguments prov f of
        Some v \<Rightarrow> Some v
      | None \<Rightarrow> field_loop p arguments prov fs)"

definition evaluate_boundary ::
  "trust_policy \<Rightarrow> string \<Rightarrow> args \<Rightarrow> action_provenance option \<Rightarrow> boundary_verdict" where
  "evaluate_boundary p tool arguments provenance =
     (case map_of (tp_protected p) tool of
        None \<Rightarrow> bv_deny ''tool_boundary_unregistered'' None
      | Some protected \<Rightarrow>
          if protected = {||} then bv_allow
          else case provenance of
            None \<Rightarrow> bv_deny ''missing_control_provenance'' None
          | Some prov \<Rightarrow>
              (case field_loop p arguments prov (sorted_list_of_set (fset protected)) of
                 Some v \<Rightarrow> v
               | None \<Rightarrow> bv_allow))"

section \<open>What the policy decides\<close>

text \<open>
  The abstract policy: every protected field is present, has a control origin, and every origin
  of it, control or data, is a registered source of trust \<open>AUTHORITY\<close>.
\<close>

definition authority_source :: "trust_policy \<Rightarrow> string \<Rightarrow> bool" where
  "authority_source p sid \<longleftrightarrow>
     (case map_of (tp_sources p) sid of None \<Rightarrow> False | Some l \<Rightarrow> sl_trust l = AUTHORITY)"

definition field_authorised :: "trust_policy \<Rightarrow> args \<Rightarrow> action_provenance \<Rightarrow> string \<Rightarrow> bool" where
  "field_authorised p arguments prov f \<longleftrightarrow>
     map_of arguments f \<noteq> None \<and> origins_of (control_origins prov) f \<noteq> {||} \<and>
     (\<forall>sid. sid |\<in>| origins_of (control_origins prov) f |\<union>| origins_of (data_origins prov) f
        \<longrightarrow> authority_source p sid)"

lemma source_loop_None:
  "source_loop p datas f sids = None \<longleftrightarrow> (\<forall>sid \<in> set sids. authority_source p sid)"
  by (induction sids) (auto simp: authority_source_def split: option.splits)

lemma source_loop_denies:
  "source_loop p datas f sids = Some v \<Longrightarrow> \<not> bv_allowed v \<and> bv_reason v \<noteq> ''allowed''"
  by (induction sids) (auto split: option.splits if_splits)

lemma field_check_None:
  "field_check p arguments prov f = None \<longleftrightarrow> field_authorised p arguments prov f"
  by (auto simp: field_check_def field_authorised_def Let_def source_loop_None
        simp flip: fempty_iff split: if_splits)

lemma field_check_denies:
  "field_check p arguments prov f = Some v \<Longrightarrow> \<not> bv_allowed v \<and> bv_reason v \<noteq> ''allowed''"
  by (auto simp: field_check_def Let_def dest: source_loop_denies split: if_splits)

lemma field_loop_None:
  "field_loop p arguments prov fs = None \<longleftrightarrow> (\<forall>f \<in> set fs. field_authorised p arguments prov f)"
  by (induction fs) (auto simp flip: field_check_None split: option.splits)

lemma field_loop_sorted:
  "(\<forall>f. f |\<in>| P \<longrightarrow> field_authorised p arguments prov f) \<longleftrightarrow>
     field_loop p arguments prov (sorted_list_of_set (fset P)) = None"
  by (auto simp: field_loop_None)

lemma field_loop_denies:
  "field_loop p arguments prov fs = Some v \<Longrightarrow> \<not> bv_allowed v \<and> bv_reason v \<noteq> ''allowed''"
  by (induction fs) (auto dest: field_check_denies split: option.splits)

lemma evaluate_allowed_cases:
  "bv_allowed (evaluate_boundary p tool arguments provenance) \<longleftrightarrow>
     (\<exists>protected. map_of (tp_protected p) tool = Some protected \<and>
        (protected = {||} \<or>
         (\<exists>prov. provenance = Some prov \<and>
            (\<forall>f. f |\<in>| protected \<longrightarrow> field_authorised p arguments prov f))))"
  unfolding field_loop_sorted
  by (auto simp: evaluate_boundary_def dest: field_loop_denies split: option.splits)

lemma evaluate_reason_iff_allowed:
  "bv_reason (evaluate_boundary p tool arguments provenance) = ''allowed'' \<longleftrightarrow>
     bv_allowed (evaluate_boundary p tool arguments provenance)"
  by (auto simp: evaluate_boundary_def dest: field_loop_denies split: option.splits)

section \<open>The interface the gate uses\<close>

text \<open>
  The gate turns a boundary denial into its own by copying the reason and then tests
  \<open>reason = ''allowed''\<close>: it is sound only if no denial carries that reason. That is the law.
\<close>

locale boundary_policy =
  fixes evaluate :: "'p \<Rightarrow> string \<Rightarrow> args \<Rightarrow> action_provenance option \<Rightarrow> boundary_verdict"
  assumes denial_reason:
    "\<not> bv_allowed (evaluate p tool arguments prov) \<Longrightarrow>
       bv_reason (evaluate p tool arguments prov) \<noteq> ''allowed''"
begin

lemma copied_reason_allowed:
  "(case po of None \<Rightarrow> ''allowed''
    | Some p \<Rightarrow> if \<not> bv_allowed (evaluate p tool arguments prov)
                then bv_reason (evaluate p tool arguments prov) else ''allowed'') = ''allowed''
   \<longleftrightarrow> (\<forall>p. po = Some p \<longrightarrow> bv_allowed (evaluate p tool arguments prov))"
  using denial_reason by (auto split: option.splits)

end

interpretation tb: boundary_policy evaluate_boundary
  by unfold_locales (simp add: evaluate_reason_iff_allowed)

end
