(* ===== verification/Action_Gate.thy ===== *)
theory Action_Gate
  imports Trust_Boundaries
begin

text \<open>
  Task-bound tool authorization (core/action_security.py): tool declarations, mandates, the
  gate's state, the pre-execution check, revocation and delegation. Gates refer to their parent
  gate by reference, and a revocation of a parent is seen by every child, so gates live in an
  explicit store: a list of gates, a gate being named by its position. The lock makes each
  method one atomic step. The effect accounting of the same file is in \<open>Effect_Receipts\<close>.
\<close>

section \<open>Data\<close>

datatype effect_type =
  READ | WRITE | EXTERNAL_SEND | FINANCIAL_WRITE | CODE_EXECUTION | UNKNOWN_EFFECT

datatype effect_status = PENDING | CONFIRMED | UNKNOWN | FAILED | CONFLICTED

fun effect_value :: "effect_type \<Rightarrow> string" where
  "effect_value READ = ''read''"
| "effect_value WRITE = ''write''"
| "effect_value EXTERNAL_SEND = ''external_send''"
| "effect_value FINANCIAL_WRITE = ''financial_write''"
| "effect_value CODE_EXECUTION = ''code_execution''"
| "effect_value UNKNOWN_EFFECT = ''unknown''"

text \<open>Truthiness of an optional string: \<open>None\<close> and the empty string are false.\<close>

definition str_set :: "string option \<Rightarrow> bool" where
  "str_set s = (case s of None \<Rightarrow> False | Some x \<Rightarrow> x \<noteq> [])"

record tool_authority =
  ta_effect :: effect_type
  ta_resource_argument :: "string option"
  ta_fixed_resource :: "string option"
  ta_credential_id :: "string option"

definition make_tool_authority ::
  "effect_type \<Rightarrow> string option \<Rightarrow> string option \<Rightarrow> string option \<Rightarrow> exn + tool_authority" where
  "make_tool_authority eff arg fixed cred =
     (if str_set arg = str_set fixed
      then Inl (ValueError ''declare exactly one resource_argument or fixed_resource'')
      else if eff = UNKNOWN_EFFECT
      then Inl (ValueError ''unknown effects cannot be explicitly authorized'')
      else Inr \<lparr>ta_effect = eff, ta_resource_argument = arg, ta_fixed_resource = fixed,
                ta_credential_id = cred\<rparr>)"

record task_mandate =
  tm_mandate_id :: string
  tm_principal_id :: string
  tm_agent_id :: string
  tm_expires_at :: datetime
  tm_allowed_tools :: "string fset"
  tm_allowed_resources :: "string fset"
  tm_allowed_effects :: "effect_type fset"
  tm_allowed_credentials :: "string fset"
  tm_credential_expires_at :: "datetime option"
  tm_run_id :: "string option"
  tm_not_before :: "datetime option"

definition opt_aware :: "datetime option \<Rightarrow> bool" where
  "opt_aware t = (case t of None \<Rightarrow> True | Some d \<Rightarrow> aware d)"

text \<open>\<open>TaskMandate(...)\<close> with its \<open>__post_init__\<close> checks.\<close>

definition make_task_mandate :: "task_mandate \<Rightarrow> exn + task_mandate" where
  "make_task_mandate m =
     (case first_error
        [(tm_mandate_id m = [] \<or> tm_principal_id m = [] \<or> tm_agent_id m = [],
          ValueError ''mandate, principal and agent identities are required''),
         (\<not> aware (tm_expires_at m), ValueError ''expires_at must be timezone-aware''),
         (\<not> opt_aware (tm_not_before m), ValueError ''not_before must be timezone-aware''),
         (\<not> opt_aware (tm_credential_expires_at m),
          ValueError ''credential_expires_at must be timezone-aware''),
         (''*'' |\<in>| tm_allowed_tools m \<or> ''*'' |\<in>| tm_allowed_resources m
            \<or> ''*'' |\<in>| tm_allowed_credentials m,
          ValueError ''wildcard grants are not supported''),
         (UNKNOWN_EFFECT |\<in>| tm_allowed_effects m,
          ValueError ''unknown effects cannot be authorized'')]
      of Some e \<Rightarrow> Inl e | None \<Rightarrow> Inr m)"

definition mandate_ok :: "task_mandate \<Rightarrow> bool" where
  "mandate_ok m \<longleftrightarrow> make_task_mandate m = Inr m"

lemma make_task_mandate_Inr [exn_simps]:
  "make_task_mandate m = Inr m' \<longleftrightarrow> m' = m \<and> mandate_ok m"
  by (auto simp: mandate_ok_def make_task_mandate_def split: option.splits)

lemma mandate_ok_no_unknown: "mandate_ok m \<Longrightarrow> UNKNOWN_EFFECT |\<notin>| tm_allowed_effects m"
  by (auto simp: mandate_ok_def make_task_mandate_def split: option.splits if_splits)

record action_intent =
  ai_action_id :: string
  ai_run_id :: string
  ai_agent_id :: string
  ai_tool_name :: string
  ai_resource :: string
  ai_effect :: effect_type
  ai_credential_id :: "string option"

record authorization_verdict =
  v_intent :: action_intent
  v_allowed :: bool
  v_reason :: string
  v_mandate_id :: string

definition verdict_to_dict :: "authorization_verdict \<Rightarrow> json" where
  "verdict_to_dict v = JObj
     [(''action_id'', JStr (ai_action_id (v_intent v))),
      (''run_id'', JStr (ai_run_id (v_intent v))),
      (''agent_id'', JStr (ai_agent_id (v_intent v))),
      (''tool_name'', JStr (ai_tool_name (v_intent v))),
      (''resource'', JStr (ai_resource (v_intent v))),
      (''effect'', JStr (effect_value (ai_effect (v_intent v)))),
      (''credential_id'', json_opt JStr (ai_credential_id (v_intent v))),
      (''mandate_id'', JStr (v_mandate_id v)),
      (''allowed'', JBool (v_allowed v)),
      (''reason'', JStr (v_reason v))]"

record effect_receipt =
  er_action_id :: string
  er_status :: effect_status
  er_evidence_source :: string
  er_evidence_reference :: "string option"
  er_independently_verified :: bool

definition assurance :: "effect_receipt \<Rightarrow> string" where
  "assurance r =
     (if er_status r = CONFIRMED \<and> er_independently_verified r then ''verified''
      else ''unverified'')"

record effect_observation =
  eo_action_id :: string
  eo_previous_status :: "effect_status option"
  eo_status :: effect_status
  eo_reason :: string
  eo_observed_at :: datetime
  eo_evidence_source :: string
  eo_evidence_reference :: "string option"
  eo_independently_verified :: bool

datatype gate_exn = Raised exn | AuthorizationDenied authorization_verdict | ExecutorRaised string

section \<open>Gates and their store\<close>

record gate =
  mandate :: task_mandate
  tools :: "(string, tool_authority) dict"
  trust_boundary :: "trust_policy option"
  parent_gate :: "nat option"
  delegation_depth :: int
  max_delegation_depth :: int
  evidence_timeout :: "int option"
  revoked :: bool
  decisions :: "(string, authorization_verdict) dict"
  receipts :: "(string, effect_receipt) dict"
  receipt_started_at :: "(string, datetime) dict"
  effect_observations :: "effect_observation list"
  verified_evidence :: "(string, (string \<times> string, effect_status) dict) dict"

type_synonym heap = "gate list"

text \<open>\<open>ActionSecurityGate.__init__\<close>: the guards on its numbers, then a fresh state.\<close>

definition make_gate ::
  "heap \<Rightarrow> task_mandate \<Rightarrow> (string, tool_authority) dict \<Rightarrow> trust_policy option \<Rightarrow> int
     \<Rightarrow> int option \<Rightarrow> nat option \<Rightarrow> exn + gate" where
  "make_gate h m ts tbp max_depth timeout parent =
     (if \<not> (0 \<le> max_depth \<and> max_depth \<le> 8)
      then Inl (ValueError ''max_delegation_depth must be between 0 and 8'')
      else if (case timeout of None \<Rightarrow> False | Some d \<Rightarrow> d \<le> 0)
      then Inl (ValueError ''evidence_timeout must be a positive timedelta'')
      else Inr \<lparr>mandate = m, tools = ts, trust_boundary = tbp, parent_gate = parent,
        delegation_depth = (case parent of None \<Rightarrow> 0 | Some p \<Rightarrow> delegation_depth (h ! p) + 1),
        max_delegation_depth = max_depth, evidence_timeout = timeout, revoked = False,
        decisions = [], receipts = [], receipt_started_at = [], effect_observations = [],
        verified_evidence = []\<rparr>)"

definition new_root_gate ::
  "heap \<Rightarrow> task_mandate \<Rightarrow> (string, tool_authority) dict \<Rightarrow> trust_policy option \<Rightarrow> int
     \<Rightarrow> int option \<Rightarrow> exn + nat \<times> heap" where
  "new_root_gate h m ts tbp max_depth timeout =
     (case make_gate h m ts tbp max_depth timeout None of
        Inl e \<Rightarrow> Inl e
      | Inr g \<Rightarrow> Inr (length h, h @ [g]))"

text \<open>
  The chain of gates from a gate to its root: the walks of \<open>delegation_lineage\<close>,
  \<open>_delegation_denial\<close> and \<open>delegate\<close>. A parent is always created before its child, so the
  positions decrease.
\<close>

function ancestry :: "heap \<Rightarrow> nat \<Rightarrow> nat list" where
  "ancestry h i = i # (case parent_gate (h ! i) of
       None \<Rightarrow> []
     | Some p \<Rightarrow> if p < i then ancestry h p else [])"
  by pat_completeness auto
termination
  by (relation "measure snd") auto

declare ancestry.simps [simp del]

definition delegation_lineage :: "heap \<Rightarrow> nat \<Rightarrow> string list" where
  "delegation_lineage h i = rev (map (\<lambda>j. tm_mandate_id (mandate (h ! j))) (ancestry h i))"

definition revoke :: "heap \<Rightarrow> nat \<Rightarrow> heap" where
  "revoke h i = h[i := (h ! i)\<lparr>revoked := True\<rparr>]"

definition before_start :: "task_mandate \<Rightarrow> datetime \<Rightarrow> bool" where
  "before_start m t = (case tm_not_before m of None \<Rightarrow> False | Some s \<Rightarrow> instant t < instant s)"

definition expired :: "task_mandate \<Rightarrow> datetime \<Rightarrow> bool" where
  "expired m t \<longleftrightarrow> instant (tm_expires_at m) \<le> instant t"

definition credential_lapsed :: "task_mandate \<Rightarrow> datetime \<Rightarrow> bool" where
  "credential_lapsed m t =
     (case tm_credential_expires_at m of None \<Rightarrow> False | Some s \<Rightarrow> instant s \<le> instant t)"

fun denial_loop :: "heap \<Rightarrow> nat \<Rightarrow> datetime option \<Rightarrow> nat list \<Rightarrow> string option" where
  "denial_loop h self when [] = None"
| "denial_loop h self when (j # js) =
     (if revoked (h ! j) then Some ''delegation_revoked''
      else case (if j = self then None else when) of
        None \<Rightarrow> denial_loop h self when js
      | Some t \<Rightarrow>
          if before_start (mandate (h ! j)) t then Some ''ancestor_mandate_not_yet_valid''
          else if expired (mandate (h ! j)) t then Some ''ancestor_mandate_expired''
          else denial_loop h self when js)"

definition delegation_denial :: "heap \<Rightarrow> nat \<Rightarrow> datetime option \<Rightarrow> string option" where
  "delegation_denial h i when = denial_loop h i when (ancestry h i)"

section \<open>The check\<close>

text \<open>The keyword arguments of \<open>check\<close>, and what the host's clock and \<open>uuid4\<close> return.\<close>

record request =
  rq_agent_id :: string
  rq_run_id :: string
  rq_tool_name :: string
  rq_arguments :: args
  rq_action_id :: "string option"
  rq_now :: "datetime option"
  rq_provenance :: "action_provenance option"

record host =
  utc :: int
  fresh :: string

definition request_id :: "request \<Rightarrow> host \<Rightarrow> string" where
  "request_id rq hs = (if str_set (rq_action_id rq) then the (rq_action_id rq) else fresh hs)"

definition unresolved :: string where
  "unresolved = ''<unresolved>''"

definition resolve_resource :: "tool_authority \<Rightarrow> args \<Rightarrow> string" where
  "resolve_resource ta arguments =
     (let value = (if str_set (ta_resource_argument ta)
                   then map_of arguments (the (ta_resource_argument ta))
                   else map_option JStr (ta_fixed_resource ta))
      in case value of
           Some (JStr s) \<Rightarrow> if nonblank s then s else unresolved
         | _ \<Rightarrow> unresolved)"

definition make_intent :: "gate \<Rightarrow> request \<Rightarrow> string \<Rightarrow> action_intent" where
  "make_intent g rq identifier =
     (case map_of (tools g) (rq_tool_name rq) of
        None \<Rightarrow> \<lparr>ai_action_id = identifier, ai_run_id = rq_run_id rq, ai_agent_id = rq_agent_id rq,
                 ai_tool_name = rq_tool_name rq, ai_resource = unresolved,
                 ai_effect = UNKNOWN_EFFECT, ai_credential_id = None\<rparr>
      | Some ta \<Rightarrow> \<lparr>ai_action_id = identifier, ai_run_id = rq_run_id rq,
                 ai_agent_id = rq_agent_id rq, ai_tool_name = rq_tool_name rq,
                 ai_resource = resolve_resource ta (rq_arguments rq),
                 ai_effect = ta_effect ta, ai_credential_id = ta_credential_id ta\<rparr>)"

definition boundary_reason :: "gate \<Rightarrow> request \<Rightarrow> string" where
  "boundary_reason g rq =
     (case trust_boundary g of
        None \<Rightarrow> ''allowed''
      | Some p \<Rightarrow>
          if \<not> bv_allowed (evaluate_boundary p (rq_tool_name rq) (rq_arguments rq) (rq_provenance rq))
          then bv_reason (evaluate_boundary p (rq_tool_name rq) (rq_arguments rq) (rq_provenance rq))
          else ''allowed'')"

definition check_reason :: "heap \<Rightarrow> nat \<Rightarrow> request \<Rightarrow> datetime \<Rightarrow> action_intent \<Rightarrow> string" where
  "check_reason h i rq when intent =
     (let g = h ! i; m = mandate g in
      if map_of (decisions g) (ai_action_id intent) \<noteq> None then ''duplicate_action_id''
      else case delegation_denial h i (Some when) of
        Some denial \<Rightarrow> denial
      | None \<Rightarrow>
      if rq_agent_id rq \<noteq> tm_agent_id m then ''agent_identity_mismatch''
      else if tm_run_id m \<noteq> None \<and> tm_run_id m \<noteq> Some (rq_run_id rq) then ''run_identity_mismatch''
      else if before_start m when then ''mandate_not_yet_valid''
      else if expired m when then ''mandate_expired''
      else if map_of (tools g) (rq_tool_name rq) = None
              \<or> rq_tool_name rq |\<notin>| tm_allowed_tools m then ''tool_not_authorized''
      else if ai_resource intent = unresolved
              \<or> ai_resource intent |\<notin>| tm_allowed_resources m then ''resource_not_authorized''
      else if ai_effect intent |\<notin>| tm_allowed_effects m then ''effect_not_authorized''
      else if ai_credential_id intent \<noteq> None
              \<and> the (ai_credential_id intent) |\<notin>| tm_allowed_credentials m
      then ''credential_not_authorized''
      else if ai_credential_id intent \<noteq> None \<and> credential_lapsed m when
      then ''credential_expired''
      else boundary_reason g rq)"

definition check_verdict :: "heap \<Rightarrow> nat \<Rightarrow> request \<Rightarrow> host \<Rightarrow> authorization_verdict" where
  "check_verdict h i rq hs =
     (let intent = make_intent (h ! i) rq (request_id rq hs);
          reason = check_reason h i rq (resolve_now (rq_now rq) (utc hs)) intent
      in \<lparr>v_intent = intent, v_allowed = (reason = ''allowed''), v_reason = reason,
          v_mandate_id = tm_mandate_id (mandate (h ! i))\<rparr>)"

definition check ::
  "heap \<Rightarrow> nat \<Rightarrow> request \<Rightarrow> host \<Rightarrow> exn + authorization_verdict \<times> heap" where
  "check h i rq hs =
     (if \<not> aware (resolve_now (rq_now rq) (utc hs))
      then Inl (ValueError ''now must be timezone-aware'')
      else
        let g = h ! i; identifier = request_id rq hs; verdict = check_verdict h i rq hs
        in Inr (verdict,
             if map_of (decisions g) identifier = None
             then h[i := g\<lparr>decisions := dict_set identifier verdict (decisions g)\<rparr>]
             else h))"

section \<open>Delegation\<close>

record delegation =
  dl_agent_id :: string
  dl_run_id :: string
  dl_tools :: "string fset"
  dl_resources :: "string fset"
  dl_effects :: "effect_type fset"
  dl_expires_at :: datetime
  dl_credentials :: "string fset"
  dl_not_before :: "datetime option"
  dl_credential_expires_at :: "datetime option"
  dl_now :: "datetime option"

definition option_or :: "'a option \<Rightarrow> 'a option \<Rightarrow> 'a option" where
  "option_or a b = (case a of Some x \<Rightarrow> Some x | None \<Rightarrow> b)"

definition child_start :: "task_mandate \<Rightarrow> delegation \<Rightarrow> datetime option" where
  "child_start m d = option_or (dl_not_before d) (tm_not_before m)"

definition child_credential_end :: "task_mandate \<Rightarrow> delegation \<Rightarrow> datetime option" where
  "child_credential_end m d = option_or (dl_credential_expires_at d) (tm_credential_expires_at m)"

definition delegation_guards :: "heap \<Rightarrow> nat \<Rightarrow> delegation \<Rightarrow> datetime \<Rightarrow> (bool \<times> exn) list" where
  "delegation_guards h i d when =
     (let g = h ! i; m = mandate g; start = child_start m d; cend = child_credential_end m d in
      [(\<not> aware when \<or> \<not> aware (dl_expires_at d),
        ValueError ''delegation times must be timezone-aware''),
       (delegation_depth g \<ge> max_delegation_depth g,
        ValueError ''delegation depth exceeded or disabled''),
       (tm_run_id m = None, ValueError ''parent delegation requires run-bound mandate''),
       (delegation_denial h i (Some when) \<noteq> None \<or> expired m when \<or> before_start m when,
        PermissionError ''parent mandate is not currently valid''),
       (\<not> nonblank (dl_agent_id d), ValueError ''child agent_id must be nonempty''),
       (\<not> nonblank (dl_run_id d), ValueError ''child run_id must be nonempty''),
       (list_ex (\<lambda>j. dl_agent_id d = tm_agent_id (mandate (h ! j))
                    \<or> Some (dl_run_id d) = tm_run_id (mandate (h ! j))) (ancestry h i),
        ValueError ''child must have distinct agent_id and run_id''),
       (\<not> dl_tools d |\<subseteq>| tm_allowed_tools m, ValueError ''delegated tools must be a parent subset''),
       (\<not> dl_resources d |\<subseteq>| tm_allowed_resources m,
        ValueError ''delegated resources must be a parent subset''),
       (\<not> dl_effects d |\<subseteq>| tm_allowed_effects m,
        ValueError ''delegated effects must be a parent subset''),
       (\<not> dl_credentials d |\<subseteq>| tm_allowed_credentials m,
        ValueError ''delegated credentials must be a parent subset''),
       (\<not> fset (dl_tools d) \<subseteq> set (dict_keys (tools g)),
        ValueError ''delegated tools must be registered''),
       (instant (dl_expires_at d) \<le> instant when
          \<or> instant (tm_expires_at m) < instant (dl_expires_at d),
        ValueError ''child expiration must be within active parent lifetime''),
       ((case start of None \<Rightarrow> False
           | Some s \<Rightarrow> \<not> aware s \<or> instant (dl_expires_at d) \<le> instant s),
        ValueError ''invalid child not_before''),
       ((case (start, tm_not_before m) of
           (Some s, Some p) \<Rightarrow> instant s < instant p | _ \<Rightarrow> False),
        ValueError ''child cannot begin before parent''),
       (\<not> opt_aware cend, ValueError ''child credential expiry must be timezone-aware''),
       ((case (tm_credential_expires_at m, cend) of
           (Some p, Some c) \<Rightarrow> instant p < instant c | _ \<Rightarrow> False),
        ValueError ''child cannot extend parent credential lifetime'')])"

definition child_mandate :: "task_mandate \<Rightarrow> delegation \<Rightarrow> host \<Rightarrow> task_mandate" where
  "child_mandate m d hs =
     \<lparr>tm_mandate_id = ''delegation-'' @ fresh hs, tm_principal_id = tm_principal_id m,
      tm_agent_id = dl_agent_id d, tm_expires_at = dl_expires_at d,
      tm_allowed_tools = dl_tools d, tm_allowed_resources = dl_resources d,
      tm_allowed_effects = dl_effects d, tm_allowed_credentials = dl_credentials d,
      tm_credential_expires_at = child_credential_end m d, tm_run_id = Some (dl_run_id d),
      tm_not_before = child_start m d\<rparr>"

definition delegate :: "heap \<Rightarrow> nat \<Rightarrow> delegation \<Rightarrow> host \<Rightarrow> exn + nat \<times> heap" where
  "delegate h i d hs =
     (let g = h ! i; when = resolve_now (dl_now d) (utc hs) in
      case first_error (delegation_guards h i d when) of
        Some e \<Rightarrow> Inl e
      | None \<Rightarrow>
          (case make_task_mandate (child_mandate (mandate g) d hs) of
             Inl e \<Rightarrow> Inl e
           | Inr m \<Rightarrow>
               (case make_gate h m (filter (\<lambda>p. fst p |\<in>| dl_tools d) (tools g))
                       (trust_boundary g) (max_delegation_depth g) (evidence_timeout g) (Some i) of
                  Inl e \<Rightarrow> Inl e
                | Inr child \<Rightarrow> Inr (length h, h @ [child]))))"

end
