(* ===== verification/Gate_Authority.thy ===== *)
theory Gate_Authority
  imports Action_Gate
begin

text \<open>
  What the authorization gate guarantees: the check decides exactly the abstract authority
  \<open>authorised\<close>, every delegation chain is attenuated, bounded and of distinct agents, and an
  authority held by a child is held by each of its ancestors.
\<close>

section \<open>Ancestry\<close>

lemma ancestry_Cons:
  "ancestry h i = i # (case parent_gate (h ! i) of
       None \<Rightarrow> [] | Some p \<Rightarrow> if p < i then ancestry h p else [])"
  by (rule ancestry.simps)

lemma ancestry_self [simp]: "i \<in> set (ancestry h i)" "ancestry h i \<noteq> []" "hd (ancestry h i) = i"
  by (simp_all add: ancestry_Cons [of h i])

lemma ancestry_le: "j \<in> set (ancestry h i) \<Longrightarrow> j \<le> i"
proof (induction h i arbitrary: j rule: ancestry.induct)
  case (1 h i)
  then show ?case
    by (subst (asm) (2) ancestry_Cons) (force split: option.splits if_splits)
qed

lemma ancestry_tl_less: "j \<in> set (tl (ancestry h i)) \<Longrightarrow> j < i"
  by (subst (asm) ancestry_Cons) (auto dest: ancestry_le split: option.splits if_splits)

lemma ancestry_cong:
  "(\<And>j. j \<le> i \<Longrightarrow> parent_gate (h ! j) = parent_gate (h' ! j)) \<Longrightarrow> ancestry h i = ancestry h' i"
proof (induction i rule: less_induct)
  case (less i)
  show ?case
    using less.IH less.prems
    by (subst (1 2) ancestry_Cons) (auto split: option.splits)
qed

lemma ancestry_append: "i < length h \<Longrightarrow> ancestry (h @ xs) i = ancestry h i"
  by (rule ancestry_cong) (simp add: nth_append)

lemma ancestry_update:
  "parent_gate g = parent_gate (h ! k) \<Longrightarrow> ancestry (h[k := g]) i = ancestry h i"
  by (rule ancestry_cong) (cases "k < length h"; simp add: nth_list_update list_update_beyond)

section \<open>The authority a mandate grants\<close>

definition live :: "gate \<Rightarrow> datetime \<Rightarrow> bool" where
  "live g t \<longleftrightarrow> \<not> revoked g \<and> \<not> before_start (mandate g) t \<and> \<not> expired (mandate g) t"

definition grants ::
  "task_mandate \<Rightarrow> datetime \<Rightarrow> string \<Rightarrow> string \<Rightarrow> effect_type \<Rightarrow> string option \<Rightarrow> bool" where
  "grants m t tool resource eff cred \<longleftrightarrow>
     tool |\<in>| tm_allowed_tools m \<and> resource |\<in>| tm_allowed_resources m \<and>
     eff |\<in>| tm_allowed_effects m \<and>
     (\<forall>c. cred = Some c \<longrightarrow> c |\<in>| tm_allowed_credentials m \<and> \<not> credential_lapsed m t)"

definition boundary_permits :: "gate \<Rightarrow> request \<Rightarrow> bool" where
  "boundary_permits g rq \<longleftrightarrow>
     (\<forall>p. trust_boundary g = Some p \<longrightarrow>
        bv_allowed (evaluate_boundary p (rq_tool_name rq) (rq_arguments rq) (rq_provenance rq)))"

definition authorised :: "heap \<Rightarrow> nat \<Rightarrow> request \<Rightarrow> datetime \<Rightarrow> string \<Rightarrow> bool" where
  "authorised h i rq t identifier \<longleftrightarrow>
     map_of (decisions (h ! i)) identifier = None \<and>
     (\<forall>j \<in> set (ancestry h i). live (h ! j) t) \<and>
     rq_agent_id rq = tm_agent_id (mandate (h ! i)) \<and>
     (\<forall>r. tm_run_id (mandate (h ! i)) = Some r \<longrightarrow> rq_run_id rq = r) \<and>
     (\<exists>ta. map_of (tools (h ! i)) (rq_tool_name rq) = Some ta \<and>
        resolve_resource ta (rq_arguments rq) \<noteq> unresolved \<and>
        grants (mandate (h ! i)) t (rq_tool_name rq) (resolve_resource ta (rq_arguments rq))
          (ta_effect ta) (ta_credential_id ta)) \<and>
     boundary_permits (h ! i) rq"

lemma denial_loop_None:
  "self \<notin> set js \<Longrightarrow>
     denial_loop h self (Some t) js = None \<longleftrightarrow> (\<forall>j \<in> set js. live (h ! j) t)"
  by (induction js) (auto simp: live_def)

lemma denial_loop_reasons:
  "denial_loop h self when js = Some r \<Longrightarrow>
     r \<in> {''delegation_revoked'', ''ancestor_mandate_not_yet_valid'', ''ancestor_mandate_expired''}"
  by (induction js) (auto split: if_splits option.splits)

lemma ancestry_split: "ancestry h i = i # tl (ancestry h i)"
  by (metis ancestry_self(2,3) list.collapse)

lemma delegation_denial_None:
  "delegation_denial h i (Some t) = None \<longleftrightarrow>
     \<not> revoked (h ! i) \<and> (\<forall>j \<in> set (tl (ancestry h i)). live (h ! j) t)"
proof -
  have "i \<notin> set (tl (ancestry h i))" using ancestry_tl_less by blast
  then show ?thesis
    unfolding delegation_denial_def
    by (subst ancestry_split) (simp add: denial_loop_None)
qed

lemma all_live_split:
  "(\<forall>j \<in> set (ancestry h i). live (h ! j) t) \<longleftrightarrow>
     live (h ! i) t \<and> (\<forall>j \<in> set (tl (ancestry h i)). live (h ! j) t)"
  by (subst ancestry_split) simp

lemma delegation_denial_reasons:
  "delegation_denial h i when = Some r \<Longrightarrow>
     r \<in> {''delegation_revoked'', ''ancestor_mandate_not_yet_valid'', ''ancestor_mandate_expired''}"
  unfolding delegation_denial_def by (rule denial_loop_reasons)

lemma boundary_reason_allowed:
  "boundary_reason g rq = ''allowed'' \<longleftrightarrow> boundary_permits g rq"
  unfolding boundary_reason_def boundary_permits_def by (rule tb.copied_reason_allowed)

lemma make_intent_simps [simp]:
  "ai_action_id (make_intent g rq identifier) = identifier"
  "ai_tool_name (make_intent g rq identifier) = rq_tool_name rq"
  "ai_agent_id (make_intent g rq identifier) = rq_agent_id rq"
  "ai_run_id (make_intent g rq identifier) = rq_run_id rq"
  by (simp_all add: make_intent_def split: option.splits)

lemma make_intent_declared:
  "map_of (tools g) (rq_tool_name rq) = Some ta \<Longrightarrow>
     ai_resource (make_intent g rq identifier) = resolve_resource ta (rq_arguments rq) \<and>
     ai_effect (make_intent g rq identifier) = ta_effect ta \<and>
     ai_credential_id (make_intent g rq identifier) = ta_credential_id ta"
  by (simp add: make_intent_def)

lemma reason_guard:
  "a \<noteq> ''allowed'' \<Longrightarrow>
     ((if c then a else r) = ''allowed'') \<longleftrightarrow> (\<not> c \<and> r = ''allowed'')"
  by simp

lemma check_reason_allowed_iff:
  "check_reason h i rq t (make_intent (h ! i) rq identifier) = ''allowed'' \<longleftrightarrow>
     authorised h i rq t identifier"
proof (cases "map_of (tools (h ! i)) (rq_tool_name rq)")
  case None
  then show ?thesis
    by (auto simp: check_reason_def authorised_def Let_def dest: delegation_denial_reasons
        split: option.splits if_splits)
next
  case (Some ta)
  note intent = make_intent_declared [OF Some]
  show ?thesis
  proof (cases "delegation_denial h i (Some t)")
    case None
    then have live: "\<not> revoked (h ! i) \<and> (\<forall>j \<in> set (tl (ancestry h i)). live (h ! j) t)"
      by (simp add: delegation_denial_None)
    from None Some intent show ?thesis
      unfolding check_reason_def Let_def authorised_def all_live_split grants_def
      by (cases "tm_run_id (mandate (h ! i))"; cases "ta_credential_id ta")
        (auto simp: reason_guard boundary_reason_allowed live live_def [of "h ! i"]
          simp del: if_split)
  next
    case (Some r)
    then have "r \<noteq> ''allowed''" by (auto dest: delegation_denial_reasons)
    moreover from Some have "\<not> (\<forall>j \<in> set (ancestry h i). live (h ! j) t)"
      unfolding all_live_split using delegation_denial_None [of h i t]
      by (auto simp: live_def [of "h ! i"])
    ultimately show ?thesis
      using Some by (simp add: check_reason_def authorised_def Let_def)
  qed
qed

lemma check_verdict_simps [simp]:
  "v_allowed (check_verdict h i rq hs) \<longleftrightarrow>
     authorised h i rq (resolve_now (rq_now rq) (utc hs)) (request_id rq hs)"
  "v_intent (check_verdict h i rq hs) = make_intent (h ! i) rq (request_id rq hs)"
  "v_mandate_id (check_verdict h i rq hs) = tm_mandate_id (mandate (h ! i))"
  by (simp_all add: check_verdict_def Let_def check_reason_allowed_iff)

lemma check_Inr [exn_simps]:
  "check h i rq hs = Inr (v, h') \<longleftrightarrow>
     aware (resolve_now (rq_now rq) (utc hs)) \<and> v = check_verdict h i rq hs \<and>
     h' = (if map_of (decisions (h ! i)) (request_id rq hs) = None
           then h[i := (h ! i)\<lparr>decisions := dict_set (request_id rq hs) v (decisions (h ! i))\<rparr>]
           else h)"
  by (auto simp: check_def Let_def)

section \<open>Delegation chains\<close>

definition attenuated :: "task_mandate \<Rightarrow> task_mandate \<Rightarrow> bool" where
  "attenuated c p \<longleftrightarrow>
     tm_principal_id c = tm_principal_id p \<and>
     tm_allowed_tools c |\<subseteq>| tm_allowed_tools p \<and>
     tm_allowed_resources c |\<subseteq>| tm_allowed_resources p \<and>
     tm_allowed_effects c |\<subseteq>| tm_allowed_effects p \<and>
     tm_allowed_credentials c |\<subseteq>| tm_allowed_credentials p \<and>
     instant (tm_expires_at c) \<le> instant (tm_expires_at p) \<and>
     (\<forall>s. tm_not_before p = Some s \<longrightarrow>
        (\<exists>s'. tm_not_before c = Some s' \<and> instant s \<le> instant s')) \<and>
     (\<forall>e. tm_credential_expires_at p = Some e \<longrightarrow>
        (\<exists>e'. tm_credential_expires_at c = Some e' \<and> instant e' \<le> instant e))"

lemma attenuated_refl [simp]: "attenuated m m"
  by (simp add: attenuated_def)

lemma attenuated_trans: "attenuated a b \<Longrightarrow> attenuated b c \<Longrightarrow> attenuated a c"
  unfolding attenuated_def by (intro conjI allI impI; fastforce)

lemma attenuated_grants:
  "attenuated c p \<Longrightarrow> grants c t tool resource eff cred \<Longrightarrow> grants p t tool resource eff cred"
  unfolding attenuated_def grants_def credential_lapsed_def
  by (intro conjI allI impI; fastforce split: option.splits)

text \<open>The fields of a gate that no operation writes after its construction.\<close>

definition fixed_part ::
  "gate \<Rightarrow> task_mandate \<times> (string, tool_authority) dict \<times> trust_policy option \<times> nat option
     \<times> int \<times> int \<times> int option" where
  "fixed_part g = (mandate g, tools g, trust_boundary g, parent_gate g, delegation_depth g,
     max_delegation_depth g, evidence_timeout g)"

definition child_ok :: "heap \<Rightarrow> gate \<Rightarrow> nat \<Rightarrow> bool" where
  "child_ok h c p \<longleftrightarrow>
     delegation_depth c = delegation_depth (h ! p) + 1 \<and>
     max_delegation_depth c = max_delegation_depth (h ! p) \<and>
     trust_boundary c = trust_boundary (h ! p) \<and>
     evidence_timeout c = evidence_timeout (h ! p) \<and>
     attenuated (mandate c) (mandate (h ! p)) \<and>
     map_of (tools c) \<subseteq>\<^sub>m map_of (tools (h ! p)) \<and>
     (\<forall>j \<in> set (ancestry h p). tm_agent_id (mandate c) \<noteq> tm_agent_id (mandate (h ! j)))"

definition gate_ok :: "heap \<Rightarrow> nat \<Rightarrow> bool" where
  "gate_ok h i \<longleftrightarrow>
     mandate_ok (mandate (h ! i)) \<and>
     0 \<le> delegation_depth (h ! i) \<and> delegation_depth (h ! i) \<le> max_delegation_depth (h ! i) \<and>
     max_delegation_depth (h ! i) \<le> 8 \<and>
     (case parent_gate (h ! i) of
        None \<Rightarrow> delegation_depth (h ! i) = 0
      | Some p \<Rightarrow> p < i \<and> child_ok h (h ! i) p)"

definition wf_heap :: "heap \<Rightarrow> bool" where
  "wf_heap h \<longleftrightarrow> (\<forall>i < length h. gate_ok h i)"

lemma wf_heap_parent:
  "wf_heap h \<Longrightarrow> i < length h \<Longrightarrow> parent_gate (h ! i) = Some p \<Longrightarrow>
     p < i \<and> p < length h \<and> child_ok h (h ! i) p"
  by (auto simp: wf_heap_def gate_ok_def)

text \<open>Induction along a delegation chain, from a gate to its root.\<close>

lemma chain_induct [consumes 2, case_names root child]:
  assumes "wf_heap h" and "i < length h"
    and "\<And>i. i < length h \<Longrightarrow> parent_gate (h ! i) = None \<Longrightarrow> P i"
    and "\<And>i p. i < length h \<Longrightarrow> parent_gate (h ! i) = Some p \<Longrightarrow> p < i \<Longrightarrow>
           child_ok h (h ! i) p \<Longrightarrow> P p \<Longrightarrow> P i"
  shows "P i"
  using assms(2)
proof (induction i rule: less_induct)
  case (less i)
  then show ?case
    using assms(3,4) wf_heap_parent [OF assms(1)]
    by (metis not_None_eq)
qed

lemma ancestry_parent:
  "parent_gate (h ! i) = Some p \<Longrightarrow> p < i \<Longrightarrow> ancestry h i = i # ancestry h p"
  by (simp add: ancestry_Cons [of h i])

lemma ancestry_root: "parent_gate (h ! i) = None \<Longrightarrow> ancestry h i = [i]"
  by (simp add: ancestry_Cons [of h i])

lemma chain_attenuated:
  assumes "wf_heap h" and "i < length h" and "j \<in> set (ancestry h i)"
  shows "attenuated (mandate (h ! i)) (mandate (h ! j))"
  using assms
proof (induction i rule: chain_induct)
  case (root i)
  then show ?case by (simp add: ancestry_root)
next
  case (child i p)
  then show ?case
    by (auto simp: ancestry_parent child_ok_def intro: attenuated_trans)
qed

lemma chain_depth:
  assumes "wf_heap h" and "i < length h"
  shows "int (length (ancestry h i)) = delegation_depth (h ! i) + 1"
  using assms
proof (induction i rule: chain_induct)
  case (root i)
  with assms(1) show ?case by (auto simp: ancestry_root wf_heap_def gate_ok_def)
next
  case (child i p)
  then show ?case by (simp add: ancestry_parent child_ok_def)
qed

lemma chain_distinct_agents:
  assumes "wf_heap h" and "i < length h"
  shows "distinct (map (\<lambda>j. tm_agent_id (mandate (h ! j))) (ancestry h i))"
  using assms
proof (induction i rule: chain_induct)
  case (root i)
  then show ?case by (simp add: ancestry_root)
next
  case (child i p)
  then show ?case by (auto simp: ancestry_parent child_ok_def)
qed

section \<open>The operations keep the store well formed\<close>

text \<open>An update that leaves every gate's fixed part alone.\<close>

definition same_fixed :: "heap \<Rightarrow> heap \<Rightarrow> bool" where
  "same_fixed h h' \<longleftrightarrow> length h' = length h \<and> (\<forall>i. fixed_part (h' ! i) = fixed_part (h ! i))"

lemma same_fixed_refl [simp]: "same_fixed h h"
  by (simp add: same_fixed_def)

lemma same_fixed_trans: "same_fixed a b \<Longrightarrow> same_fixed b c \<Longrightarrow> same_fixed a c"
  by (simp add: same_fixed_def)

lemma same_fixed_update: "fixed_part g = fixed_part (h ! i) \<Longrightarrow> same_fixed h (h[i := g])"
  by (cases "i < length h") (auto simp: same_fixed_def nth_list_update list_update_beyond)

lemma same_fixed_fields:
  assumes "same_fixed h h'"
  shows "mandate (h' ! i) = mandate (h ! i)" "tools (h' ! i) = tools (h ! i)"
    "trust_boundary (h' ! i) = trust_boundary (h ! i)" "parent_gate (h' ! i) = parent_gate (h ! i)"
    "delegation_depth (h' ! i) = delegation_depth (h ! i)"
    "max_delegation_depth (h' ! i) = max_delegation_depth (h ! i)"
    "evidence_timeout (h' ! i) = evidence_timeout (h ! i)" "length h' = length h"
  using assms by (auto simp: same_fixed_def fixed_part_def)

lemma same_fixed_ancestry: "same_fixed h h' \<Longrightarrow> ancestry h' i = ancestry h i"
  by (rule ancestry_cong) (simp add: same_fixed_fields)

lemma same_fixed_gate_ok: "same_fixed h h' \<Longrightarrow> gate_ok h' i \<longleftrightarrow> gate_ok h i"
  by (auto simp: gate_ok_def child_ok_def same_fixed_fields same_fixed_ancestry split: option.splits)

lemma same_fixed_wf: "same_fixed h h' \<Longrightarrow> wf_heap h' \<longleftrightarrow> wf_heap h"
  by (simp add: wf_heap_def same_fixed_gate_ok same_fixed_fields)

lemma check_same_fixed: "check h i rq hs = Inr (v, h') \<Longrightarrow> same_fixed h h'"
  by (auto simp: exn_simps fixed_part_def intro!: same_fixed_update)

lemma revoke_same_fixed [simp]: "same_fixed h (revoke h i)"
  unfolding revoke_def by (rule same_fixed_update) (simp add: fixed_part_def)

lemma child_ok_append:
  assumes "p < length h"
  shows "child_ok (h @ [g]) c p \<longleftrightarrow> child_ok h c p"
proof -
  have "(h @ [g]) ! j = h ! j" if "j \<in> set (ancestry h p)" for j
    using ancestry_le [OF that] assms by (simp add: nth_append)
  with assms show ?thesis
    by (simp add: child_ok_def ancestry_append nth_append)
qed

lemma gate_ok_append: "i < length h \<Longrightarrow> gate_ok (h @ [g]) i \<longleftrightarrow> gate_ok h i"
  by (auto simp: gate_ok_def child_ok_append nth_append split: option.splits)

lemma wf_heap_append: "wf_heap h \<Longrightarrow> gate_ok (h @ [g]) (length h) \<Longrightarrow> wf_heap (h @ [g])"
  by (auto simp: wf_heap_def gate_ok_append less_Suc_eq)

lemma make_gate_Inr [exn_simps]:
  "make_gate h m ts tbp d timeout parent = Inr g \<longleftrightarrow>
     0 \<le> d \<and> d \<le> 8 \<and> \<not> (case timeout of None \<Rightarrow> False | Some x \<Rightarrow> x \<le> 0) \<and>
     g = \<lparr>mandate = m, tools = ts, trust_boundary = tbp, parent_gate = parent,
        delegation_depth = (case parent of None \<Rightarrow> 0 | Some p \<Rightarrow> delegation_depth (h ! p) + 1),
        max_delegation_depth = d, evidence_timeout = timeout, revoked = False,
        decisions = [], receipts = [], receipt_started_at = [], effect_observations = [],
        verified_evidence = []\<rparr>"
  by (auto simp: make_gate_def)

lemma new_root_gate_wf:
  "new_root_gate h m ts tbp d timeout = Inr (i, h') \<Longrightarrow> mandate_ok m \<Longrightarrow> wf_heap h \<Longrightarrow>
     wf_heap h' \<and> i = length h"
  by (auto simp: new_root_gate_def exn_simps gate_ok_def intro!: wf_heap_append)

section \<open>Delegating\<close>

lemma map_of_filter_keys:
  "map_of (filter (\<lambda>p. P (fst p)) d) k = (if P k then map_of d k else None)"
  by (induction d) auto

lemma delegation_guards_None:
  fixes hs :: host
  assumes "first_error (delegation_guards h i d when) = None"
  shows "delegation_depth (h ! i) < max_delegation_depth (h ! i)"
    and "\<forall>j \<in> set (ancestry h i). live (h ! j) when"
    and "\<forall>j \<in> set (ancestry h i). dl_agent_id d \<noteq> tm_agent_id (mandate (h ! j))
           \<and> tm_run_id (mandate (h ! j)) \<noteq> Some (dl_run_id d)"
    and "attenuated (child_mandate (mandate (h ! i)) d hs) (mandate (h ! i))"
    and "instant when < instant (dl_expires_at d)"
proof -
  let ?g = "h ! i"
  let ?m = "mandate ?g"
  have all: "list_all (\<lambda>gd. \<not> fst gd) (delegation_guards h i d when)"
    using assms by (simp add: list_all_iff)
  note facts = all [unfolded delegation_guards_def Let_def list.pred_inject fst_conv
      not_not de_Morgan_disj]
  show "delegation_depth ?g < max_delegation_depth ?g" using facts by linarith
  show "instant when < instant (dl_expires_at d)" using facts by linarith
  have "live ?g when"
    using facts delegation_denial_None [of h i "when"] by (simp add: live_def)
  then show "\<forall>j \<in> set (ancestry h i). live (h ! j) when"
    using facts delegation_denial_None [of h i "when"] by (simp add: all_live_split)
  show "\<forall>j \<in> set (ancestry h i). dl_agent_id d \<noteq> tm_agent_id (mandate (h ! j))
      \<and> tm_run_id (mandate (h ! j)) \<noteq> Some (dl_run_id d)"
    using facts by (auto simp: list_ex_iff)
  have scopes: "dl_tools d |\<subseteq>| tm_allowed_tools ?m" "dl_resources d |\<subseteq>| tm_allowed_resources ?m"
      "dl_effects d |\<subseteq>| tm_allowed_effects ?m" "dl_credentials d |\<subseteq>| tm_allowed_credentials ?m"
      "instant (dl_expires_at d) \<le> instant (tm_expires_at ?m)"
    using facts by simp_all
  have start: "\<exists>s'. child_start ?m d = Some s' \<and> instant s \<le> instant s'"
    if "tm_not_before ?m = Some s" for s
    using facts that by (cases "dl_not_before d") (auto simp: child_start_def option_or_def)
  have cend: "\<exists>e'. child_credential_end ?m d = Some e' \<and> instant e' \<le> instant e"
    if "tm_credential_expires_at ?m = Some e" for e
    using facts that
    by (cases "dl_credential_expires_at d") (auto simp: child_credential_end_def option_or_def)
  from scopes start cend show "attenuated (child_mandate ?m d hs) ?m"
    by (simp add: attenuated_def child_mandate_def)
qed

lemma delegate_Inr:
  assumes "delegate h i d hs = Inr (c, h')" and "wf_heap h" and "i < length h"
  obtains g where "c = length h" and "h' = h @ [g]" and "parent_gate g = Some i"
    and "mandate g = child_mandate (mandate (h ! i)) d hs"
    and "attenuated (mandate g) (mandate (h ! i))"
    and "\<forall>j \<in> set (ancestry h i). live (h ! j) (resolve_now (dl_now d) (utc hs))"
    and "decisions g = []" and "receipts g = []" and "\<not> revoked g" and "wf_heap h'"
proof -
  let ?when = "resolve_now (dl_now d) (utc hs)"
  from assms(1) obtain g where ok: "first_error (delegation_guards h i d ?when) = None"
    and m: "mandate_ok (child_mandate (mandate (h ! i)) d hs)"
    and g: "make_gate h (child_mandate (mandate (h ! i)) d hs)
              (filter (\<lambda>p. fst p |\<in>| dl_tools d) (tools (h ! i)))
              (trust_boundary (h ! i)) (max_delegation_depth (h ! i))
              (evidence_timeout (h ! i)) (Some i) = Inr g"
    and c: "c = length h" and h': "h' = h @ [g]"
    by (auto simp: delegate_def Let_def make_task_mandate_Inr
        split: option.splits sum.splits)
  note guards = delegation_guards_None [OF ok]
  note fields = g [unfolded make_gate_Inr, simplified]
  have pi: "gate_ok h i" using assms(2,3) by (simp add: wf_heap_def)
  have "child_ok h g i"
    using guards fields
    by (auto simp: child_ok_def child_mandate_def map_le_def
        map_of_filter_keys [where P = "\<lambda>k. k |\<in>| dl_tools d"] split: if_splits)
  then have "gate_ok (h @ [g]) (length h)"
    using pi m guards(1) fields assms(3)
    by (auto simp: gate_ok_def child_ok_append nth_append)
  then have "wf_heap h'" using assms(2) h' by (simp add: wf_heap_append)
  with guards fields c h' show thesis by (intro that) auto
qed

end
