(* ===== verification/Effect_Receipts.thy ===== *)
theory Effect_Receipts
  imports Gate_Authority
begin

text \<open>
  Downstream-effect accounting of core/action_security.py: beginning an execution, marking an
  effect uncertain, the deadline sweep, reconciling evidence, \<open>effects_verified\<close>, and the
  execution wrappers \<open>invoke\<close> and \<open>ainvoke\<close>. The executor and the verifier are supplied by the
  host: the executor is a transformer of the world and of the gate store (it may call back into
  gates, or other threads may, while it runs), the verifier a function of the receipt.
\<close>

section \<open>Receipts\<close>

definition append_observation ::
  "gate \<Rightarrow> string \<Rightarrow> effect_status option \<Rightarrow> effect_receipt \<Rightarrow> string \<Rightarrow> datetime \<Rightarrow> gate" where
  "append_observation g aid prev r reason when = g\<lparr>effect_observations := effect_observations g @
     [\<lparr>eo_action_id = aid, eo_previous_status = prev, eo_status = er_status r, eo_reason = reason,
       eo_observed_at = when, eo_evidence_source = er_evidence_source r,
       eo_evidence_reference = er_evidence_reference r,
       eo_independently_verified = er_independently_verified r\<rparr>]\<rparr>"

definition sdk_receipt :: "string \<Rightarrow> effect_status \<Rightarrow> effect_receipt" where
  "sdk_receipt aid s = \<lparr>er_action_id = aid, er_status = s, er_evidence_source = ''sdk'',
     er_evidence_reference = None, er_independently_verified = False\<rparr>"

text \<open>Storing a receipt and logging the transition, as every writer of receipts does.\<close>

definition put_receipt ::
  "gate \<Rightarrow> string \<Rightarrow> effect_status option \<Rightarrow> effect_receipt \<Rightarrow> string \<Rightarrow> datetime \<Rightarrow> gate" where
  "put_receipt g aid prev r reason when =
     append_observation (g\<lparr>receipts := dict_set aid r (receipts g)\<rparr>) aid prev r reason when"

definition lapse_reason :: "heap \<Rightarrow> nat \<Rightarrow> authorization_verdict \<Rightarrow> datetime \<Rightarrow> string option" where
  "lapse_reason h i v when =
     (let m = mandate (h ! i) in
      case delegation_denial h i (Some when) of
        Some r \<Rightarrow> Some r
      | None \<Rightarrow>
          if before_start m when then Some ''mandate_not_yet_valid''
          else if expired m when then Some ''mandate_expired''
          else if ai_credential_id (v_intent v) \<noteq> None \<and> credential_lapsed m when
          then Some ''credential_expired''
          else None)"

definition begin_execution ::
  "heap \<Rightarrow> nat \<Rightarrow> authorization_verdict \<Rightarrow> datetime option \<Rightarrow> int \<Rightarrow> gate_exn + effect_receipt \<times> heap"
  where
  "begin_execution h i v now clock =
     (let when = resolve_now now clock; g = h ! i; identifier = ai_action_id (v_intent v) in
      if \<not> aware when then Inl (Raised (ValueError ''now must be timezone-aware''))
      else if \<not> v_allowed v \<or> map_of (decisions g) identifier \<noteq> Some v
      then Inl (Raised (ValueError ''execution requires an authorized decision''))
      else case lapse_reason h i v when of
        Some r \<Rightarrow> Inl (AuthorizationDenied (v\<lparr>v_allowed := False, v_reason := r\<rparr>))
      | None \<Rightarrow>
          if map_of (receipts g) identifier \<noteq> None
          then Inl (Raised (ValueError ''action execution already started''))
          else let receipt = sdk_receipt identifier PENDING;
                   g' = g\<lparr>receipt_started_at := dict_set identifier when (receipt_started_at g)\<rparr>
               in Inr (receipt,
                    h[i := put_receipt g' identifier None receipt ''execution_started'' when]))"

definition receipt_for :: "gate \<Rightarrow> string \<Rightarrow> effect_receipt option" where
  "receipt_for g aid = map_of (receipts g) aid"

definition effects_verified :: "gate \<Rightarrow> string list \<Rightarrow> bool" where
  "effects_verified g requested =
     (if requested = [] then False
      else list_all (\<lambda>aid. case map_of (receipts g) aid of
             None \<Rightarrow> False
           | Some r \<Rightarrow> er_status r = CONFIRMED \<and> er_independently_verified r) requested)"

definition mark_uncertain ::
  "gate \<Rightarrow> string \<Rightarrow> datetime option \<Rightarrow> int \<Rightarrow> exn + effect_receipt \<times> gate" where
  "mark_uncertain g aid when clock =
     (let observed = resolve_now when clock in
      if \<not> aware observed then Inl (ValueError ''now must be timezone-aware'')
      else case map_of (receipts g) aid of
        None \<Rightarrow> Inl (ValueError ''missing pending effect receipt'')
      | Some previous \<Rightarrow>
          if er_independently_verified previous \<or> er_status previous = CONFLICTED
          then Inr (previous, g)
          else if er_status previous = UNKNOWN then Inr (previous, g)
          else let uncertain = sdk_receipt aid UNKNOWN
               in Inr (uncertain, put_receipt g aid (Some (er_status previous)) uncertain
                         ''effect_uncertain'' observed))"

fun expire_loop ::
  "datetime \<Rightarrow> int \<Rightarrow> (string \<times> datetime) list \<Rightarrow> gate \<Rightarrow> exn + effect_receipt list \<times> gate" where
  "expire_loop when timeout [] g = Inr ([], g)"
| "expire_loop when timeout ((aid, began) # rest) g =
     (case map_of (receipts g) aid of
        None \<Rightarrow> Inl (KeyError aid)
      | Some previous \<Rightarrow>
          if er_status previous = PENDING \<and> instant began + timeout \<le> instant when
          then let uncertain = sdk_receipt aid UNKNOWN in
               (case expire_loop when timeout rest
                       (put_receipt g aid (Some (er_status previous)) uncertain
                          ''evidence_timeout'' when) of
                  Inl e \<Rightarrow> Inl e
                | Inr (rs, g') \<Rightarrow> Inr (uncertain # rs, g'))
          else expire_loop when timeout rest g)"

definition expire_unresolved_effects ::
  "gate \<Rightarrow> datetime option \<Rightarrow> int \<Rightarrow> exn + effect_receipt list \<times> gate" where
  "expire_unresolved_effects g now clock =
     (let when = resolve_now now clock in
      if \<not> aware when then Inl (ValueError ''now must be timezone-aware'')
      else case evidence_timeout g of
        None \<Rightarrow> Inr ([], g)
      | Some timeout \<Rightarrow> expire_loop when timeout (receipt_started_at g) g)"

section \<open>Evidence\<close>

text \<open>
  A verifier returns \<open>Some True\<close> for the value \<open>True\<close>, \<open>Some False\<close> for any other value and
  \<open>None\<close> when it raises.
\<close>

type_synonym verifier = "effect_receipt \<Rightarrow> bool option"

definition valid_reference :: "effect_receipt \<Rightarrow> bool" where
  "valid_reference r \<longleftrightarrow>
     nonblank (er_evidence_source r) \<and> er_evidence_source r \<noteq> ''sdk'' \<and>
     (case er_evidence_reference r of None \<Rightarrow> False | Some s \<Rightarrow> nonblank s)"

definition evidence_accepted :: "effect_receipt \<Rightarrow> verifier option \<Rightarrow> bool" where
  "evidence_accepted r vf =
     (case vf of None \<Rightarrow> False | Some f \<Rightarrow> valid_reference r \<and> f r = Some True)"

definition evidence_for :: "gate \<Rightarrow> string \<Rightarrow> (string \<times> string, effect_status) dict" where
  "evidence_for g aid = (case map_of (verified_evidence g) aid of None \<Rightarrow> [] | Some d \<Rightarrow> d)"

definition reconciled :: "effect_receipt \<Rightarrow> effect_status \<Rightarrow> effect_receipt" where
  "reconciled r s = \<lparr>er_action_id = er_action_id r, er_status = s,
     er_evidence_source = er_evidence_source r, er_evidence_reference = er_evidence_reference r,
     er_independently_verified = True\<rparr>"

text \<open>The tail of \<open>record_effect\<close>, once the verifier has accepted the evidence.\<close>

definition reconcile ::
  "gate \<Rightarrow> effect_receipt \<Rightarrow> effect_receipt \<Rightarrow> datetime \<Rightarrow> effect_receipt \<times> gate" where
  "reconcile g previous r when =
     (let aid = er_action_id r;
          key = (er_evidence_source r, the (er_evidence_reference r));
          seen = evidence_for g aid;
          g1 = g\<lparr>verified_evidence := dict_set aid seen (verified_evidence g)\<rparr>
      in if map_of seen key = Some (er_status r) then (previous, g1)
         else let g2 = g1\<lparr>verified_evidence :=
                       dict_set aid (dict_set key (er_status r) seen) (verified_evidence g1)\<rparr>
              in if er_status previous = CONFLICTED then (previous, g2)
                 else if er_independently_verified previous \<and> er_status previous \<noteq> er_status r
                 then (reconciled r CONFLICTED,
                       put_receipt g2 aid (Some (er_status previous)) (reconciled r CONFLICTED)
                         ''conflicting_verified_evidence'' when)
                 else (reconciled r (er_status r),
                       put_receipt g2 aid (Some (er_status previous)) (reconciled r (er_status r))
                         ''verified_evidence'' when))"

definition record_effect ::
  "gate \<Rightarrow> effect_receipt \<Rightarrow> verifier option \<Rightarrow> datetime option \<Rightarrow> int
     \<Rightarrow> exn + effect_receipt \<times> gate" where
  "record_effect g r vf now clock =
     (let when = resolve_now now clock; aid = er_action_id r in
      if \<not> aware when then Inl (ValueError ''now must be timezone-aware'')
      else if (case map_of (decisions g) aid of None \<Rightarrow> True | Some v \<Rightarrow> \<not> v_allowed v)
      then Inl (ValueError ''effect receipt has no authorized action'')
      else case map_of (receipts g) aid of
        None \<Rightarrow> Inl (ValueError ''missing pending effect receipt'')
      | Some previous \<Rightarrow>
          if er_status r = UNKNOWN
          then if er_independently_verified previous \<or> er_status previous = CONFLICTED
               then Inl (ValueError ''verified effect receipt cannot be overwritten'')
               else mark_uncertain g aid (Some when) clock
          else if er_status r \<notin> {CONFIRMED, FAILED}
          then Inl (ValueError ''evidence cannot assert pending or conflicted state'')
          else if \<not> evidence_accepted r vf
          then if er_independently_verified previous
               then Inl (ValueError ''verified effect receipt cannot be overwritten'')
               else Inr (previous, g)
          else Inr (reconcile g previous r when))"

section \<open>Execution\<close>

text \<open>
  What calling a tool does: it returns a plain value, returns an awaitable, or raises. The
  synchronous wrapper closes an awaitable and raises; the asynchronous one awaits it
  (\<open>ex_await\<close>: the exception raised, or the value), and awaiting a plain value raises.
\<close>

datatype 'r outcome = Returned 'r | ReturnedAwaitable | Threw string

record ('w, 'r) executor =
  ex_coroutine :: bool
  ex_run :: "args \<Rightarrow> 'w \<times> heap \<Rightarrow> ('w \<times> heap) \<times> 'r outcome"
  ex_await :: "'w \<times> heap \<Rightarrow> ('w \<times> heap) \<times> (string + 'r)"

record 'r action_execution =
  ae_verdict :: authorization_verdict
  ae_result :: 'r
  ae_receipt :: effect_receipt

type_synonym ('w, 'r) run_result = "(gate_exn + 'r action_execution) \<times> heap \<times> 'w"

text \<open>The \<open>except BaseException\<close> branch: mark the effect uncertain, then re-raise.\<close>

definition fail_uncertain ::
  "heap \<Rightarrow> 'w \<Rightarrow> nat \<Rightarrow> string \<Rightarrow> gate_exn \<Rightarrow> int \<Rightarrow> ('w, 'r) run_result" where
  "fail_uncertain h w i aid e clock =
     (case mark_uncertain (h ! i) aid None clock of
        Inl e' \<Rightarrow> (Inl (Raised e'), h, w)
      | Inr (_, g) \<Rightarrow> (Inl e, h[i := g], w))"

definition awaitable_error :: gate_exn where
  "awaitable_error =
     Raised (TypeError ''awaitable executor result requires ActionSecurityGate.ainvoke()'')"

definition run_executor ::
  "heap \<Rightarrow> 'w \<Rightarrow> nat \<Rightarrow> authorization_verdict \<Rightarrow> effect_receipt \<Rightarrow> args \<Rightarrow> ('w, 'r) executor
     \<Rightarrow> int \<Rightarrow> ('w, 'r) run_result" where
  "run_executor h w i v receipt arguments ex clock =
     (case ex_run ex arguments (w, h) of
        ((w', h'), Returned x) \<Rightarrow>
          (Inr \<lparr>ae_verdict = v, ae_result = x, ae_receipt = receipt\<rparr>, h', w')
      | ((w', h'), ReturnedAwaitable) \<Rightarrow>
          fail_uncertain h' w' i (ai_action_id (v_intent v)) awaitable_error clock
      | ((w', h'), Threw msg) \<Rightarrow>
          fail_uncertain h' w' i (ai_action_id (v_intent v)) (ExecutorRaised msg) clock)"

text \<open>The clock is read by the check, by \<open>_begin_execution\<close> and by \<open>_mark_uncertain\<close>.\<close>

record clocks =
  ck_check :: int
  ck_begin :: int
  ck_mark :: int

definition invoke ::
  "heap \<Rightarrow> 'w \<Rightarrow> nat \<Rightarrow> request \<Rightarrow> ('w, 'r) executor \<Rightarrow> clocks \<Rightarrow> string \<Rightarrow> ('w, 'r) run_result" where
  "invoke h w i rq ex ck uuid =
     (case check h i rq \<lparr>utc = ck_check ck, fresh = uuid\<rparr> of
        Inl e \<Rightarrow> (Inl (Raised e), h, w)
      | Inr (v, h1) \<Rightarrow>
          if \<not> v_allowed v then (Inl (AuthorizationDenied v), h1, w)
          else if ex_coroutine ex
          then (Inl (Raised (TypeError ''async executor requires ActionSecurityGate.ainvoke()'')),
                h1, w)
          else case begin_execution h1 i v (rq_now rq) (ck_begin ck) of
            Inl e \<Rightarrow> (Inl e, h1, w)
          | Inr (receipt, h2) \<Rightarrow>
              run_executor h2 w i v receipt (rq_arguments rq) ex (ck_mark ck))"

definition await_executor ::
  "heap \<Rightarrow> 'w \<Rightarrow> nat \<Rightarrow> authorization_verdict \<Rightarrow> effect_receipt \<Rightarrow> args \<Rightarrow> ('w, 'r) executor
     \<Rightarrow> int \<Rightarrow> ('w, 'r) run_result" where
  "await_executor h w i v receipt arguments ex clock =
     (let aid = ai_action_id (v_intent v) in
      case ex_run ex arguments (w, h) of
        ((w', h'), Returned _) \<Rightarrow>
          fail_uncertain h' w' i aid (ExecutorRaised ''object cannot be awaited'') clock
      | ((w', h'), Threw msg) \<Rightarrow> fail_uncertain h' w' i aid (ExecutorRaised msg) clock
      | ((w', h'), ReturnedAwaitable) \<Rightarrow>
          (case ex_await ex (w', h') of
             ((w2, h2), Inl msg) \<Rightarrow> fail_uncertain h2 w2 i aid (ExecutorRaised msg) clock
           | ((w2, h2), Inr x) \<Rightarrow>
               (Inr \<lparr>ae_verdict = v, ae_result = x, ae_receipt = receipt\<rparr>, h2, w2)))"

definition ainvoke ::
  "heap \<Rightarrow> 'w \<Rightarrow> nat \<Rightarrow> request \<Rightarrow> ('w, 'r) executor \<Rightarrow> clocks \<Rightarrow> string \<Rightarrow> ('w, 'r) run_result" where
  "ainvoke h w i rq ex ck uuid =
     (case check h i rq \<lparr>utc = ck_check ck, fresh = uuid\<rparr> of
        Inl e \<Rightarrow> (Inl (Raised e), h, w)
      | Inr (v, h1) \<Rightarrow>
          if \<not> v_allowed v then (Inl (AuthorizationDenied v), h1, w)
          else case begin_execution h1 i v (rq_now rq) (ck_begin ck) of
            Inl e \<Rightarrow> (Inl e, h1, w)
          | Inr (receipt, h2) \<Rightarrow>
              await_executor h2 w i v receipt (rq_arguments rq) ex (ck_mark ck))"

end
