(* ===== verification/Receipt_Invariants.thy ===== *)
theory Receipt_Invariants
  imports Effect_Receipts
begin

text \<open>
  The receipts as a state machine: the steps the gate store can take, with the verified evidence
  each accepts as its label; the invariant that ties receipts, decisions, deadlines, evidence and
  the observation log together; progress of a receipt's status; and the specification of a
  status by the evidence accepted so far.
\<close>

section \<open>Steps\<close>

type_synonym label = "(nat \<times> string \<times> effect_status) option"

definition accepted_label :: "nat \<Rightarrow> effect_receipt \<Rightarrow> verifier option \<Rightarrow> label" where
  "accepted_label i r vf =
     (if er_status r \<in> {CONFIRMED, FAILED} \<and> evidence_accepted r vf
      then Some (i, er_action_id r, er_status r) else None)"

inductive gate_step :: "heap \<Rightarrow> label \<Rightarrow> heap \<Rightarrow> bool" where
  create: "new_root_gate h m ts tbp d timeout = Inr (i, h') \<Longrightarrow> mandate_ok m \<Longrightarrow> gate_step h None h'"
| delegate: "i < length h \<Longrightarrow> delegate h i d hs = Inr (c, h') \<Longrightarrow> gate_step h None h'"
| revoke: "i < length h \<Longrightarrow> gate_step h None (revoke h i)"
| check: "i < length h \<Longrightarrow> check h i rq hs = Inr (v, h') \<Longrightarrow> gate_step h None h'"
| begin_exec: "i < length h \<Longrightarrow> begin_execution h i v now clock = Inr (r, h') \<Longrightarrow> gate_step h None h'"
| uncertain: "i < length h \<Longrightarrow> mark_uncertain (h ! i) aid now clock = Inr (r, g) \<Longrightarrow>
    gate_step h None (h[i := g])"
| sweep: "i < length h \<Longrightarrow> expire_unresolved_effects (h ! i) now clock = Inr (rs, g) \<Longrightarrow>
    gate_step h None (h[i := g])"
| evidence: "i < length h \<Longrightarrow> record_effect (h ! i) r vf now clock = Inr (r', g) \<Longrightarrow>
    l = accepted_label i r vf \<Longrightarrow>
    gate_step h l (h[i := g])"

inductive gate_trace :: "heap \<Rightarrow> label list \<Rightarrow> heap \<Rightarrow> bool" where
  start: "gate_trace h [] h"
| more: "gate_trace h ls h1 \<Longrightarrow> gate_step h1 l h2 \<Longrightarrow> gate_trace h (ls @ [l]) h2"

text \<open>The outcomes accepted for an action of a gate, in a list of labels.\<close>

definition outcomes :: "label list \<Rightarrow> nat \<Rightarrow> string \<Rightarrow> effect_status set" where
  "outcomes ls i aid = {s. Some (i, aid, s) \<in> set ls}"

lemma outcomes_simps [simp]:
  "outcomes [] i aid = {}"
  "outcomes (ls @ [None]) i aid = outcomes ls i aid"
  "outcomes (ls @ [Some (j, a, s)]) i aid =
     (if j = i \<and> a = aid then insert s (outcomes ls i aid) else outcomes ls i aid)"
  by (auto simp: outcomes_def)

lemma outcomes_fun:
  "outcomes [] i = (\<lambda>_. {})"
  "outcomes (ls @ [None]) i = outcomes ls i"
  "outcomes (ls @ [Some (j, a, s)]) i =
     (if j = i then (outcomes ls i)(a := insert s (outcomes ls i a)) else outcomes ls i)"
  by (auto simp: fun_eq_iff)

section \<open>The invariant\<close>

definition verified_status :: "effect_status \<Rightarrow> bool" where
  "verified_status s \<longleftrightarrow> s \<in> {CONFIRMED, FAILED, CONFLICTED}"

definition receipt_ok :: "string \<Rightarrow> effect_receipt \<Rightarrow> bool" where
  "receipt_ok aid r \<longleftrightarrow>
     er_action_id r = aid \<and> (er_independently_verified r \<longleftrightarrow> verified_status (er_status r)) \<and>
     (if verified_status (er_status r) then valid_reference r
      else er_evidence_source r = ''sdk'' \<and> er_evidence_reference r = None)"

text \<open>Replaying the observation log gives the status of every receipt.\<close>

fun replay :: "effect_observation list \<Rightarrow> string \<rightharpoonup> effect_status" where
  "replay [] = Map.empty"
| "replay (ob # obs) = (replay obs)(eo_action_id ob \<mapsto> eo_status ob)"

definition log_status :: "gate \<Rightarrow> string \<rightharpoonup> effect_status" where
  "log_status g = replay (rev (effect_observations g))"

definition receipts_ok :: "gate \<Rightarrow> bool" where
  "receipts_ok g \<longleftrightarrow>
     (\<forall>aid v. map_of (decisions g) aid = Some v \<longrightarrow> ai_action_id (v_intent v) = aid) \<and>
     (\<forall>aid r. map_of (receipts g) aid = Some r \<longrightarrow>
        receipt_ok aid r \<and> (\<exists>v. map_of (decisions g) aid = Some v \<and> v_allowed v)) \<and>
     fst ` set (receipt_started_at g) = fst ` set (receipts g) \<and>
     log_status g = map_option er_status \<circ> map_of (receipts g)"

text \<open>The status of a receipt, given the outcomes accepted for its action.\<close>

definition status_spec :: "effect_status set \<Rightarrow> effect_status \<Rightarrow> bool" where
  "status_spec out s \<longleftrightarrow> out \<subseteq> {CONFIRMED, FAILED} \<and>
     (if CONFIRMED \<in> out \<and> FAILED \<in> out then s = CONFLICTED
      else if CONFIRMED \<in> out then s = CONFIRMED
      else if FAILED \<in> out then s = FAILED
      else s \<in> {PENDING, UNKNOWN})"

definition gate_spec :: "gate \<Rightarrow> (string \<Rightarrow> effect_status set) \<Rightarrow> bool" where
  "gate_spec g out \<longleftrightarrow>
     (\<forall>aid. map_of (receipts g) aid = None \<longrightarrow> out aid = {} \<and> evidence_for g aid = []) \<and>
     (\<forall>aid r. map_of (receipts g) aid = Some r \<longrightarrow> status_spec (out aid) (er_status r)) \<and>
     (\<forall>aid key s. map_of (evidence_for g aid) key = Some s \<longrightarrow> s \<in> out aid)"

section \<open>How each operation changes one gate\<close>

text \<open>Progress of a status: uncertainty may be resolved, a verified outcome may only conflict.\<close>

fun status_rank :: "effect_status \<Rightarrow> nat" where
  "status_rank PENDING = 0"
| "status_rank UNKNOWN = 1"
| "status_rank CONFIRMED = 2"
| "status_rank FAILED = 2"
| "status_rank CONFLICTED = 3"

definition progress :: "effect_status \<Rightarrow> effect_status \<Rightarrow> bool" where
  "progress s s' \<longleftrightarrow> s = s' \<or> status_rank s < status_rank s'"

lemma progress_refl [simp]: "progress s s"
  by (simp add: progress_def)

lemma progress_trans: "progress a b \<Longrightarrow> progress b c \<Longrightarrow> progress a c"
  by (auto simp: progress_def)

text \<open>
  What every operation on a started gate does: decisions and receipts only grow, a decision
  never changes, a receipt's status only progresses, a revocation stays.
\<close>

definition gate_le :: "gate \<Rightarrow> gate \<Rightarrow> bool" where
  "gate_le g g' \<longleftrightarrow>
     fixed_part g' = fixed_part g \<and> (revoked g \<longrightarrow> revoked g') \<and>
     map_of (decisions g) \<subseteq>\<^sub>m map_of (decisions g') \<and>
     (\<forall>aid r. map_of (receipts g) aid = Some r \<longrightarrow>
        (\<exists>r'. map_of (receipts g') aid = Some r' \<and> progress (er_status r) (er_status r')))"

lemma gate_le_refl [simp]: "gate_le g g"
  by (simp add: gate_le_def)

lemma gate_le_trans:
  assumes "gate_le a b" and "gate_le b c"
  shows "gate_le a c"
proof -
  have "map_of (decisions a) \<subseteq>\<^sub>m map_of (decisions c)"
    using assms unfolding gate_le_def by (blast intro: map_le_trans)
  moreover have "fixed_part c = fixed_part a" "revoked a \<longrightarrow> revoked c"
    using assms unfolding gate_le_def by simp_all
  moreover have "\<exists>r''. map_of (receipts c) aid = Some r'' \<and> progress (er_status r) (er_status r'')"
    if r: "map_of (receipts a) aid = Some r" for aid r
  proof -
    from assms(1) r obtain r' where "map_of (receipts b) aid = Some r'"
      "progress (er_status r) (er_status r')" by (auto simp: gate_le_def)
    with assms(2) show ?thesis unfolding gate_le_def by (blast intro: progress_trans)
  qed
  ultimately show ?thesis by (simp add: gate_le_def)
qed

lemma put_receipt_simps [simp]:
  "receipts (put_receipt g aid prev r reason t) = dict_set aid r (receipts g)"
  "decisions (put_receipt g aid prev r reason t) = decisions g"
  "receipt_started_at (put_receipt g aid prev r reason t) = receipt_started_at g"
  "verified_evidence (put_receipt g aid prev r reason t) = verified_evidence g"
  "revoked (put_receipt g aid prev r reason t) = revoked g"
  "fixed_part (put_receipt g aid prev r reason t) = fixed_part g"
  "log_status (put_receipt g aid prev r reason t) = (log_status g)(aid \<mapsto> er_status r)"
  "evidence_for (put_receipt g aid prev r reason t) = evidence_for g"
  by (simp_all add: put_receipt_def append_observation_def fixed_part_def log_status_def
      evidence_for_def fun_eq_iff)

lemma sdk_receipt_simps [simp]:
  "er_action_id (sdk_receipt aid s) = aid" "er_status (sdk_receipt aid s) = s"
  "receipt_ok aid (sdk_receipt aid s) \<longleftrightarrow> \<not> verified_status s"
  "er_independently_verified (sdk_receipt aid s) = False"
  by (auto simp: sdk_receipt_def receipt_ok_def)

lemma verified_status_simps [simp]:
  "\<not> verified_status PENDING" "\<not> verified_status UNKNOWN" "verified_status CONFIRMED"
  "verified_status FAILED" "verified_status CONFLICTED"
  by (simp_all add: verified_status_def)

text \<open>A gate that is sound for the outcomes accepted so far.\<close>

definition gate_good :: "gate \<Rightarrow> (string \<Rightarrow> effect_status set) \<Rightarrow> bool" where
  "gate_good g out \<longleftrightarrow> receipts_ok g \<and> gate_spec g out"

lemma receipts_ok_lookup:
  assumes "receipts_ok g" and "map_of (receipts g) aid = Some r"
  shows "er_action_id r = aid" "er_independently_verified r \<longleftrightarrow> verified_status (er_status r)"
  using assms by (auto simp: receipts_ok_def receipt_ok_def)

lemma gate_good_lookup:
  assumes "gate_good g out" and "map_of (receipts g) aid = Some r"
  shows "er_action_id r = aid" "er_independently_verified r \<longleftrightarrow> verified_status (er_status r)"
    "status_spec (out aid) (er_status r)" "fst ` set (receipts g) = fst ` set (receipt_started_at g)"
proof -
  have ok: "receipts_ok g" and spec: "gate_spec g out" using assms(1) by (simp_all add: gate_good_def)
  from receipts_ok_lookup [OF ok assms(2)]
  show "er_action_id r = aid" "er_independently_verified r \<longleftrightarrow> verified_status (er_status r)"
    by blast+
  from spec assms(2) show "status_spec (out aid) (er_status r)"
    by (fastforce simp: gate_spec_def split: option.splits)
  from ok show "fst ` set (receipts g) = fst ` set (receipt_started_at g)"
    by (simp add: receipts_ok_def)
qed

text \<open>Replacing the receipt of a started action keeps the invariant.\<close>

lemma put_receipt_ok:
  assumes "receipts_ok g" and "map_of (receipts g) aid = Some prev" and "receipt_ok aid r"
  shows "receipts_ok (put_receipt g aid p r reason t)"
proof -
  have "aid \<in> fst ` set (receipts g)" using assms(2) by (metis map_of_eq_None_iff option.distinct(1))
  with assms show ?thesis by (auto simp: receipts_ok_def fun_eq_iff)
qed

lemma put_receipt_good:
  assumes "gate_good g out" and "map_of (receipts g) aid = Some prev" and "receipt_ok aid r"
    and "status_spec (out aid) (er_status r)"
  shows "gate_good (put_receipt g aid p r reason t) out"
proof -
  have "gate_spec (put_receipt g aid p r reason t) out"
    using assms unfolding gate_good_def gate_spec_def by (auto split: if_splits)
  with put_receipt_ok [of g aid prev r] assms show ?thesis by (simp add: gate_good_def)
qed

lemma put_receipt_le:
  assumes "map_of (receipts g) aid = Some prev" and "progress (er_status prev) (er_status r)"
  shows "gate_le g (put_receipt g aid p r reason t)"
  using assms by (auto simp: gate_le_def)

lemma status_spec_unverified:
  "status_spec out s \<Longrightarrow> \<not> verified_status s \<Longrightarrow> out = {} \<and> s \<in> {PENDING, UNKNOWN}"
  by (cases s) (auto simp: status_spec_def split: if_splits)

lemma mark_uncertain_good:
  assumes "mark_uncertain g aid t clock = Inr (r, g')" and "gate_good g out"
  shows "gate_good g' out \<and> gate_le g g' \<and>
     (\<exists>prev. map_of (receipts g) aid = Some prev) \<and> map_of (receipts g') aid = Some r \<and>
     er_status r \<noteq> PENDING"
proof (cases "map_of (receipts g) aid")
  case None
  with assms(1) show ?thesis by (simp add: mark_uncertain_def Let_def split: if_splits)
next
  case (Some prev)
  note look = gate_good_lookup [OF assms(2) Some]
  show ?thesis
  proof (cases "verified_status (er_status prev) \<or> er_status prev = UNKNOWN")
    case True
    with assms Some look show ?thesis
      by (auto simp: mark_uncertain_def Let_def verified_status_def split: if_splits)
  next
    case False
    with status_spec_unverified look(3) have out: "out aid = {}" "er_status prev = PENDING" by auto
    with assms Some look False have
      "g' = put_receipt g aid (Some PENDING) (sdk_receipt aid UNKNOWN) ''effect_uncertain''
              (resolve_now t clock) \<and> r = sdk_receipt aid UNKNOWN"
      by (auto simp: mark_uncertain_def Let_def split: if_splits)
    moreover have "status_spec (out aid) UNKNOWN" using out by (simp add: status_spec_def)
    ultimately show ?thesis
      using Some put_receipt_good [OF assms(2) Some, of "sdk_receipt aid UNKNOWN"]
        put_receipt_le [OF Some, of "sdk_receipt aid UNKNOWN"] out
      by (auto simp: progress_def)
  qed
qed

lemma expire_loop_good:
  assumes "expire_loop t timeout items g = Inr (rs, g')" and "gate_good g out"
  shows "gate_good g' out \<and> gate_le g g'"
  using assms
proof (induction t timeout items g arbitrary: rs g' rule: expire_loop.induct)
  case (2 t timeout aid began rest g)
  from "2.prems"(1) obtain prev where prev: "map_of (receipts g) aid = Some prev"
    by (auto split: option.splits)
  note look = gate_good_lookup [OF "2.prems"(2) prev]
  show ?case
  proof (cases "er_status prev = PENDING \<and> instant began + timeout \<le> instant t")
    case True
    then have "status_spec (out aid) UNKNOWN"
      using look(3) by (auto simp: status_spec_def split: if_splits)
    let ?r = "sdk_receipt aid UNKNOWN"
    let ?g = "put_receipt g aid (Some (er_status prev)) ?r ''evidence_timeout'' t"
    have good: "gate_good ?g out" "gate_le g ?g"
      using put_receipt_good [OF "2.prems"(2) prev, of ?r] put_receipt_le [OF prev, of ?r] True
        \<open>status_spec (out aid) UNKNOWN\<close> by (auto simp: progress_def)
    from True prev "2.prems"(1) obtain rs1 where "expire_loop t timeout rest ?g = Inr (rs1, g')"
      by (auto simp: Let_def split: sum.splits)
    with "2.IH"(1) [OF prev True refl] good show ?thesis by (blast intro: gate_le_trans)
  next
    case False
    with prev "2.prems" "2.IH"(2) [OF prev False] show ?thesis by simp
  qed
qed simp

lemma sweep_good:
  assumes "expire_unresolved_effects g t clock = Inr (rs, g')" and "gate_good g out"
  shows "gate_good g' out \<and> gate_le g g'"
  using assms expire_loop_good
  by (auto simp: expire_unresolved_effects_def Let_def split: if_splits option.splits)

text \<open>Recording evidence: the accepted outcome joins the outcomes of its action.\<close>

lemma evidence_update_good:
  assumes "gate_good g out" and "map_of (receipts g) aid = Some prev"
    and "\<And>key s. map_of d key = Some s \<Longrightarrow> s \<in> out aid"
  shows "gate_good (g\<lparr>verified_evidence := dict_set aid d (verified_evidence g)\<rparr>) out"
proof -
  let ?g = "g\<lparr>verified_evidence := dict_set aid d (verified_evidence g)\<rparr>"
  have ev: "evidence_for ?g a = (if a = aid then d else evidence_for g a)" for a
    by (simp add: evidence_for_def)
  show ?thesis
    using assms
    unfolding gate_good_def receipts_ok_def gate_spec_def log_status_def
    by (auto simp: ev split: if_splits)
qed

lemma gate_le_evidence: "gate_le g (g\<lparr>verified_evidence := e\<rparr>)"
  by (simp add: gate_le_def fixed_part_def)

lemma gate_good_mono:
  assumes "gate_good g out" and "map_of (receipts g) aid = Some prev"
    and "status_spec (insert s (out aid)) (er_status prev)"
  shows "gate_good g (out(aid := insert s (out aid)))"
  using assms unfolding gate_good_def gate_spec_def by (auto split: if_splits)

lemma reconciled_ok:
  "valid_reference r \<Longrightarrow> er_action_id r = aid \<Longrightarrow> verified_status s \<Longrightarrow>
     receipt_ok aid (reconciled r s) \<and> er_status (reconciled r s) = s"
  by (simp add: reconciled_def receipt_ok_def valid_reference_def)

lemma put_reconciled:
  assumes "receipts_ok g" and "map_of (receipts g) aid = Some prev" and "receipt_ok aid r"
    and "\<And>a. a \<noteq> aid \<Longrightarrow> map_of (receipts g) a = None \<Longrightarrow> out a = {} \<and> evidence_for g a = []"
    and "\<And>a r'. a \<noteq> aid \<Longrightarrow> map_of (receipts g) a = Some r' \<Longrightarrow> status_spec (out a) (er_status r')"
    and "status_spec (out aid) (er_status r)"
    and "\<And>a key s. map_of (evidence_for g a) key = Some s \<Longrightarrow> s \<in> out a"
  shows "gate_good (put_receipt g aid p r reason t) out"
  using put_receipt_ok [OF assms(1-3)] assms(2-)
  unfolding gate_good_def gate_spec_def by (auto split: if_splits)

lemma status_spec_cases:
  assumes "status_spec out s" and "s' \<in> {CONFIRMED, FAILED}"
  shows "s = CONFLICTED \<Longrightarrow> status_spec (insert s' out) s"
    and "verified_status s \<Longrightarrow> s \<noteq> s' \<Longrightarrow> s \<noteq> CONFLICTED \<Longrightarrow>
           status_spec (insert s' out) CONFLICTED"
    and "\<not> verified_status s \<or> s = s' \<Longrightarrow> status_spec (insert s' out) s'"
  using assms by (auto simp: status_spec_def verified_status_def split: if_splits)

text \<open>The gate once the accepted outcome is in its evidence table.\<close>

definition with_evidence :: "gate \<Rightarrow> effect_receipt \<Rightarrow> gate" where
  "with_evidence g r = (let aid = er_action_id r in
     g\<lparr>verified_evidence := dict_set aid
         (dict_set (er_evidence_source r, the (er_evidence_reference r)) (er_status r)
            (evidence_for g aid))
         (dict_set aid (evidence_for g aid) (verified_evidence g))\<rparr>)"

lemma with_evidence_simps [simp]:
  "receipts (with_evidence g r) = receipts g" "decisions (with_evidence g r) = decisions g"
  "receipt_started_at (with_evidence g r) = receipt_started_at g"
  "log_status (with_evidence g r) = log_status g"
  "evidence_for (with_evidence g r) a = (if a = er_action_id r
     then dict_set (er_evidence_source r, the (er_evidence_reference r)) (er_status r)
            (evidence_for g a)
     else evidence_for g a)"
  by (simp_all add: with_evidence_def Let_def log_status_def evidence_for_def)

lemma with_evidence_le: "gate_le g (with_evidence g r)"
  by (simp add: with_evidence_def Let_def gate_le_evidence)

lemma gate_good_evidence:
  "gate_good g out \<Longrightarrow> map_of (evidence_for g a) key = Some x \<Longrightarrow> x \<in> out a"
  unfolding gate_good_def gate_spec_def by blast

lemma with_evidence_entry:
  assumes "gate_good g out" and "map_of (evidence_for (with_evidence g r) a) key = Some x"
  shows "x \<in> (out(er_action_id r := insert (er_status r) (out (er_action_id r)))) a"
  using assms(2) gate_good_evidence [OF assms(1)] by (auto split: if_splits)

lemma put_with_evidence:
  assumes good: "gate_good g out" and prev: "map_of (receipts g) aid = Some prev"
    and aid: "aid = er_action_id r" and ref: "valid_reference r" and s': "verified_status s'"
    and spec: "status_spec (insert (er_status r) (out aid)) s'"
  shows "gate_good (put_receipt (with_evidence g r) aid p (reconciled r s') reason t)
           (out(aid := insert (er_status r) (out aid)))"
proof (rule put_reconciled)
  show "receipts_ok (with_evidence g r)"
    using good by (simp add: gate_good_def receipts_ok_def)
  show "map_of (receipts (with_evidence g r)) aid = Some prev" using prev by simp
  show "receipt_ok aid (reconciled r s')" using reconciled_ok [OF ref] s' aid by simp
  show "status_spec ((out(aid := insert (er_status r) (out aid))) aid)
          (er_status (reconciled r s'))"
    using spec reconciled_ok [OF ref] aid s' by simp
qed (use good aid with_evidence_entry [OF good] in
      \<open>simp_all add: gate_good_def gate_spec_def\<close>)

lemma reconcile_eq:
  "reconcile g prev r t =
     (let aid = er_action_id r; g2 = with_evidence g r;
          seen = map_of (evidence_for g aid) (er_evidence_source r, the (er_evidence_reference r))
      in if seen = Some (er_status r)
         then (prev, g\<lparr>verified_evidence :=
                 dict_set aid (evidence_for g aid) (verified_evidence g)\<rparr>)
         else if er_status prev = CONFLICTED then (prev, g2)
         else if er_independently_verified prev \<and> er_status prev \<noteq> er_status r
         then (reconciled r CONFLICTED, put_receipt g2 aid (Some (er_status prev))
                 (reconciled r CONFLICTED) ''conflicting_verified_evidence'' t)
         else (reconciled r (er_status r), put_receipt g2 aid (Some (er_status prev))
                 (reconciled r (er_status r)) ''verified_evidence'' t))"
  by (simp add: reconcile_def with_evidence_def Let_def)

text \<open>One reconciliation of accepted evidence, from a sound gate.\<close>

lemma reconcile_good:
  assumes good: "gate_good g out" and prev: "map_of (receipts g) aid = Some prev"
    and aid: "aid = er_action_id r" and s: "er_status r \<in> {CONFIRMED, FAILED}"
    and ref: "valid_reference r" and rec: "reconcile g prev r t = (r', g')"
  shows "gate_good g' (out(aid := insert (er_status r) (out aid))) \<and> gate_le g g'"
proof -
  let ?s = "er_status r"
  let ?out = "out(aid := insert ?s (out aid))"
  let ?key = "(er_evidence_source r, the (er_evidence_reference r))"
  let ?seen = "evidence_for g aid"
  let ?g1 = "g\<lparr>verified_evidence := dict_set aid ?seen (verified_evidence g)\<rparr>"
  let ?g2 = "with_evidence g r"
  note look = gate_good_lookup [OF good prev]
  note in_out = gate_good_evidence [OF good]
  note put = put_with_evidence [OF good prev aid ref]
  note le2 = with_evidence_le [of g r]
  have rec_prev: "map_of (receipts ?g2) aid = Some prev" using prev by simp
  note cases = status_spec_cases [OF look(3) s]
  consider (seen) "map_of ?seen ?key = Some ?s"
    | (sticky) "map_of ?seen ?key \<noteq> Some ?s" "er_status prev = CONFLICTED"
    | (conflict) "map_of ?seen ?key \<noteq> Some ?s" "er_status prev \<noteq> CONFLICTED"
        "verified_status (er_status prev)" "er_status prev \<noteq> ?s"
    | (accept) "map_of ?seen ?key \<noteq> Some ?s" "er_status prev \<noteq> CONFLICTED"
        "\<not> verified_status (er_status prev) \<or> er_status prev = ?s"
    by blast
  then show ?thesis
  proof cases
    case seen
    with rec aid have g': "g' = ?g1" by (auto simp: reconcile_eq Let_def)
    from in_out [OF seen] have "?out = out" by (simp add: insert_absorb)
    then show ?thesis
      unfolding g' using evidence_update_good [OF good prev in_out] gate_le_evidence by auto
  next
    case sticky
    with rec aid have g': "g' = ?g2" by (auto simp: reconcile_eq Let_def)
    have "gate_good g ?out" using gate_good_mono [OF good prev] cases(1) sticky by simp
    then have "gate_good ?g2 ?out"
      using with_evidence_entry [OF good, of r] aid
      by (auto simp: gate_good_def receipts_ok_def gate_spec_def)
    then show ?thesis unfolding g' using le2 by blast
  next
    case conflict
    with rec aid look have g': "g' = put_receipt ?g2 aid (Some (er_status prev))
        (reconciled r CONFLICTED) ''conflicting_verified_evidence'' t"
      by (auto simp: reconcile_eq Let_def)
    have "progress (er_status prev) CONFLICTED"
      using conflict by (cases "er_status prev") (auto simp: progress_def)
    then have "gate_le ?g2 g'"
      unfolding g' using put_receipt_le [OF rec_prev] reconciled_ok [OF ref] aid by simp
    then show ?thesis
      unfolding g' using put cases(2) conflict le2 gate_le_trans by auto
  next
    case accept
    with rec aid look have g': "g' = put_receipt ?g2 aid (Some (er_status prev))
        (reconciled r ?s) ''verified_evidence'' t"
      by (auto simp: reconcile_eq Let_def)
    have "progress (er_status prev) ?s"
      using accept s by (cases "er_status prev") (auto simp: progress_def)
    then have "gate_le ?g2 g'"
      unfolding g' using put_receipt_le [OF rec_prev] reconciled_ok [OF ref] aid s
      by (auto simp: reconciled_def)
    then show ?thesis
      unfolding g' using put cases(3) accept s le2 gate_le_trans by (auto simp: verified_status_def)
  qed
qed

section \<open>Steps preserve the invariant\<close>

lemma evidence_accepted_reference: "evidence_accepted r vf \<Longrightarrow> valid_reference r"
  by (auto simp: evidence_accepted_def split: option.splits)

text \<open>What \<open>record_effect\<close> does when it returns.\<close>

lemma record_effect_cases:
  assumes "record_effect g r vf now clock = Inr (r', g')"
  obtains (uncertain) "er_status r = UNKNOWN"
      "mark_uncertain g (er_action_id r) (Some (resolve_now now clock)) clock = Inr (r', g')"
    | (rejected) "er_status r \<in> {CONFIRMED, FAILED}" "\<not> evidence_accepted r vf" "g' = g"
    | (accepted) prev where "er_status r \<in> {CONFIRMED, FAILED}" "evidence_accepted r vf"
        "map_of (receipts g) (er_action_id r) = Some prev"
        "reconcile g prev r (resolve_now now clock) = (r', g')"
  using assms
  by (cases "er_status r \<in> {CONFIRMED, FAILED}")
    (auto simp: record_effect_def Let_def split: if_splits option.splits)

lemma record_effect_good:
  assumes "record_effect g r vf now clock = Inr (r', g')" and "gate_good g (outcomes ls i)"
  shows "gate_good g' (outcomes (ls @ [accepted_label i r vf]) i) \<and> gate_le g g'"
  using assms(1)
proof (cases rule: record_effect_cases)
  case uncertain
  with mark_uncertain_good [OF _ assms(2)] show ?thesis
    by (simp add: accepted_label_def outcomes_fun)
next
  case rejected
  with assms(2) show ?thesis by (auto simp: accepted_label_def outcomes_fun)
next
  case (accepted prev)
  with reconcile_good [OF assms(2) accepted(3) refl] evidence_accepted_reference
  show ?thesis by (auto simp: accepted_label_def outcomes_fun)
qed

lemma begin_execution_cases:
  assumes "begin_execution h i v now clock = Inr (r, h')"
  shows "let aid = ai_action_id (v_intent v); g = h ! i; t = resolve_now now clock in
     v_allowed v \<and> map_of (decisions g) aid = Some v \<and> map_of (receipts g) aid = None \<and>
     r = sdk_receipt aid PENDING \<and> aware t \<and> lapse_reason h i v t = None \<and>
     h' = h[i := put_receipt (g\<lparr>receipt_started_at := dict_set aid t (receipt_started_at g)\<rparr>)
                   aid None r ''execution_started'' t]"
  using assms by (auto simp: begin_execution_def Let_def split: if_splits option.splits)

lemma started_at_simps [simp]:
  "receipts (g\<lparr>receipt_started_at := d\<rparr>) = receipts g"
  "log_status (g\<lparr>receipt_started_at := d\<rparr>) = log_status g"
  "evidence_for (g\<lparr>receipt_started_at := d\<rparr>) = evidence_for g"
  "fixed_part (g\<lparr>receipt_started_at := d\<rparr>) = fixed_part g"
  by (simp_all add: log_status_def evidence_for_def fixed_part_def fun_eq_iff)

lemma begin_execution_good:
  assumes "begin_execution h i v now clock = Inr (r, h')" and "gate_good (h ! i) out"
    and "i < length h"
  shows "h' = h[i := h' ! i] \<and> gate_good (h' ! i) out \<and> gate_le (h ! i) (h' ! i) \<and>
     map_of (receipts (h' ! i)) (ai_action_id (v_intent v)) = Some r \<and> er_status r = PENDING"
proof -
  let ?aid = "ai_action_id (v_intent v)"
  note c = begin_execution_cases [OF assms(1), unfolded Let_def]
  from c assms(2) have "out ?aid = {}" "status_spec (out ?aid) PENDING"
    by (auto simp: gate_good_def gate_spec_def status_spec_def)
  with c assms(2,3) show ?thesis
    unfolding gate_good_def receipts_ok_def gate_spec_def gate_le_def
    by (auto split: if_splits)
qed

lemma check_good:
  assumes "check h i rq hs = Inr (v, h')" and "gate_good (h ! i) out" and "i < length h"
  shows "h' = h[i := h' ! i] \<and> gate_good (h' ! i) out \<and> gate_le (h ! i) (h' ! i)"
proof (cases "map_of (decisions (h ! i)) (request_id rq hs)")
  case None
  with assms have h': "h' = h[i := (h ! i)\<lparr>decisions :=
      dict_set (request_id rq hs) v (decisions (h ! i))\<rparr>]" and v: "v = check_verdict h i rq hs"
    by (auto simp: exn_simps)
  from None assms(2) have "map_of (receipts (h ! i)) (request_id rq hs) = None"
    unfolding gate_good_def receipts_ok_def by (metis not_None_eq)
  with None assms(2,3) show ?thesis
    unfolding h' gate_good_def receipts_ok_def gate_spec_def gate_le_def
    by (auto simp: v log_status_def evidence_for_def fixed_part_def map_le_def split: if_splits)
next
  case (Some d)
  with assms show ?thesis by (auto simp: exn_simps)
qed

lemma fresh_gate_good:
  "receipts g = [] \<Longrightarrow> decisions g = [] \<Longrightarrow> receipt_started_at g = [] \<Longrightarrow>
     effect_observations g = [] \<Longrightarrow> verified_evidence g = [] \<Longrightarrow> gate_good g (\<lambda>_. {})"
  by (simp add: gate_good_def receipts_ok_def gate_spec_def log_status_def evidence_for_def
      fun_eq_iff)

definition store_inv :: "heap \<Rightarrow> label list \<Rightarrow> bool" where
  "store_inv h ls \<longleftrightarrow> wf_heap h \<and> (\<forall>i < length h. gate_good (h ! i) (outcomes ls i)) \<and>
     (\<forall>i \<ge> length h. \<forall>aid. outcomes ls i aid = {})"

definition heap_le :: "heap \<Rightarrow> heap \<Rightarrow> bool" where
  "heap_le h h' \<longleftrightarrow> length h \<le> length h' \<and> (\<forall>i < length h. gate_le (h ! i) (h' ! i))"

lemma heap_le_refl [simp]: "heap_le h h"
  by (simp add: heap_le_def)

lemma heap_le_trans: "heap_le a b \<Longrightarrow> heap_le b c \<Longrightarrow> heap_le a c"
  unfolding heap_le_def by (meson gate_le_trans le_trans less_le_trans)

lemma store_inv_update:
  assumes "store_inv h ls" and "i < length h"
    and "gate_good g (outcomes (ls @ [l]) i) \<and> gate_le (h ! i) g"
    and "l = None \<or> (\<exists>aid s. l = Some (i, aid, s))"
  shows "store_inv (h[i := g]) (ls @ [l]) \<and> heap_le h (h[i := g])"
proof -
  have "same_fixed h (h[i := g])"
    using assms(3) by (intro same_fixed_update) (simp add: gate_le_def)
  moreover have "outcomes (ls @ [l]) j = outcomes ls j" if "j \<noteq> i" for j
    using assms(4) that by (auto simp: fun_eq_iff)
  ultimately show ?thesis
    using assms by (auto simp: store_inv_def heap_le_def nth_list_update same_fixed_wf)
qed

lemma store_inv_append:
  assumes "store_inv h ls" and "wf_heap (h @ [g])" and "gate_good g (\<lambda>_. {})"
  shows "store_inv (h @ [g]) (ls @ [None]) \<and> heap_le h (h @ [g])"
proof -
  have "outcomes ls (length h) = (\<lambda>_. {})"
    using assms(1) by (auto simp: store_inv_def fun_eq_iff)
  with assms show ?thesis
    by (auto simp: store_inv_def heap_le_def nth_append less_Suc_eq outcomes_fun)
qed

lemma revoke_good:
  "gate_good g out \<Longrightarrow> gate_good (g\<lparr>revoked := True\<rparr>) out \<and> gate_le g (g\<lparr>revoked := True\<rparr>)"
  unfolding gate_good_def receipts_ok_def gate_spec_def gate_le_def
  by (auto simp: log_status_def evidence_for_def fixed_part_def)

lemma store_inv_good: "store_inv h ls \<Longrightarrow> i < length h \<Longrightarrow> gate_good (h ! i) (outcomes ls i)"
  by (simp add: store_inv_def)

lemma store_inv_same:
  assumes "store_inv h ls" and "i < length h"
    and "h' = h[i := g] \<and> gate_good g (outcomes ls i) \<and> gate_le (h ! i) g"
  shows "store_inv h' (ls @ [None]) \<and> heap_le h h'"
  using store_inv_update [OF assms(1,2), of g None] assms(3) by (simp add: outcomes_fun)

text \<open>Every step keeps the invariant and lets every gate only progress.\<close>

lemma step_inv:
  assumes "gate_step h l h'" and "store_inv h ls"
  shows "store_inv h' (ls @ [l]) \<and> heap_le h h'"
  using assms(1)
proof cases
  case (create m ts tbp d timeout i)
  then obtain g where g: "h' = h @ [g]" "gate_good g (\<lambda>_. {})"
    by (auto simp: new_root_gate_def exn_simps fresh_gate_good)
  with create new_root_gate_wf assms(2) have "wf_heap (h @ [g])" by (auto simp: store_inv_def)
  with store_inv_append [OF assms(2)] g create show ?thesis by simp
next
  case (delegate i d hs c)
  with assms(2) have "wf_heap h" by (simp add: store_inv_def)
  from delegate_Inr [OF delegate(3) this delegate(2)] obtain g where g: "h' = h @ [g]" "wf_heap h'"
    by metis
  with delegate have "gate_good g (\<lambda>_. {})"
    by (auto simp: delegate_def Let_def exn_simps make_gate_def fresh_gate_good
        split: option.splits sum.splits if_splits)
  with store_inv_append [OF assms(2)] g delegate show ?thesis by simp
next
  case (revoke i)
  with store_inv_same [OF assms(2)] revoke_good [OF store_inv_good [OF assms(2)]]
  show ?thesis by (simp add: revoke_def)
next
  case (check i rq hs v)
  with store_inv_same [OF assms(2) check(2)]
    check_good [OF check(3) store_inv_good [OF assms(2) check(2)] check(2)]
  show ?thesis by blast
next
  case (begin_exec i v now clock r)
  with store_inv_same [OF assms(2) begin_exec(2)]
    begin_execution_good [OF begin_exec(3) store_inv_good [OF assms(2) begin_exec(2)]]
  show ?thesis by blast
next
  case (uncertain i aid now clock r g)
  with store_inv_same [OF assms(2) uncertain(3)]
    mark_uncertain_good [OF uncertain(4) store_inv_good [OF assms(2) uncertain(3)]]
  show ?thesis by blast
next
  case (sweep i now clock rs g)
  with store_inv_same [OF assms(2) sweep(3)]
    sweep_good [OF sweep(4) store_inv_good [OF assms(2) sweep(3)]]
  show ?thesis by blast
next
  case (evidence i r vf now clock r' g)
  with store_inv_update [OF assms(2) evidence(2), of g l]
    record_effect_good [OF evidence(3) store_inv_good [OF assms(2) evidence(2)]]
  show ?thesis by (auto simp: accepted_label_def)
qed

lemma trace_inv:
  assumes "gate_trace h ls h'" and "store_inv h ls0"
  shows "store_inv h' (ls0 @ ls) \<and> heap_le h h'"
  using assms
proof (induction arbitrary: ls0 rule: gate_trace.induct)
  case (more h ls h1 l h2)
  then have "store_inv h1 (ls0 @ ls) \<and> heap_le h h1" by blast
  with step_inv [OF more.hyps(2)] show ?case
    by (metis append_assoc heap_le_trans)
qed simp

lemma trace_step: "gate_step h l h' \<Longrightarrow> gate_trace h [l] h'"
  using gate_trace.more [OF gate_trace.start] by simp

lemma trace_append: "gate_trace b ms c \<Longrightarrow> gate_trace a ls b \<Longrightarrow> gate_trace a (ls @ ms) c"
proof (induction rule: gate_trace.induct)
  case (more h ms h1 l h2)
  then show ?case using gate_trace.more by (metis append_assoc)
qed simp

lemma store_inv_empty [simp]: "store_inv [] []"
  by (simp add: store_inv_def wf_heap_def outcomes_def)

end
