(* ===== verification/Gate_Properties.thy ===== *)
theory Gate_Properties
  imports Receipt_Invariants
begin

text \<open>
  The properties of the execution gate: what the check decides, what delegation and revocation
  guarantee, and what a receipt means. They are consequences of the invariants of
  \<open>Gate_Authority\<close> and \<open>Receipt_Invariants\<close>; each witness runs the model on a small store.
\<close>

section \<open>Shared lemmas\<close>

lemma heap_le_same_fixed:
  assumes "heap_le h h'" and "i < length h"
  shows "fixed_part (h' ! i) = fixed_part (h ! i)" "revoked (h ! i) \<Longrightarrow> revoked (h' ! i)"
  using assms by (auto simp: heap_le_def gate_le_def)

lemma store_inv_wf: "store_inv h ls \<Longrightarrow> wf_heap h"
  by (simp add: store_inv_def)

lemma revoked_not_live: "revoked g \<Longrightarrow> \<not> live g t"
  by (simp add: live_def)

lemma lapse_reason_None:
  "lapse_reason h i v t = None \<Longrightarrow> \<forall>j \<in> set (ancestry h i). live (h ! j) t"
  unfolding all_live_split lapse_reason_def Let_def
  by (simp add: delegation_denial_None live_def [of "h ! i"] split: option.splits if_splits)

lemma begin_execution_live:
  "begin_execution h i v now clock = Inr (r, h') \<Longrightarrow>
     \<forall>j \<in> set (ancestry h i). live (h ! j) (resolve_now now clock)"
  using begin_execution_cases [of h i v now clock r h'] lapse_reason_None [of h i v]
  by (simp add: Let_def)

lemma authorised_live:
  "authorised h i rq t aid \<Longrightarrow> j \<in> set (ancestry h i) \<Longrightarrow> live (h ! j) t"
  by (simp add: authorised_def)

text \<open>A chain keeps the boundary policy and the declarations of the tools it still has.\<close>

lemma chain_tools:
  assumes "wf_heap h" and "i < length h" and "j \<in> set (ancestry h i)"
  shows "map_of (tools (h ! i)) \<subseteq>\<^sub>m map_of (tools (h ! j)) \<and>
     trust_boundary (h ! i) = trust_boundary (h ! j)"
  using assms
proof (induction i rule: chain_induct)
  case (root i)
  then show ?case by (simp add: ancestry_root)
next
  case (child i p)
  then show ?case by (auto simp: ancestry_parent child_ok_def intro: map_le_trans)
qed

text \<open>Executors reach the gates only through the gates' own operations.\<close>

definition uses_gate_api :: "('w, 'r) executor \<Rightarrow> bool" where
  "uses_gate_api ex \<longleftrightarrow>
     (\<forall>arguments w h. \<exists>ls. gate_trace h ls (snd (fst (ex_run ex arguments (w, h))))) \<and>
     (\<forall>w h. \<exists>ls. gate_trace h ls (snd (fst (ex_await ex (w, h)))))"

lemma uses_gate_api_run:
  "uses_gate_api ex \<Longrightarrow> ex_run ex arguments (w, h) = ((w', h'), out) \<Longrightarrow> \<exists>ls. gate_trace h ls h'"
  unfolding uses_gate_api_def by (metis fst_conv snd_conv)

lemma uses_gate_api_await:
  "uses_gate_api ex \<Longrightarrow> ex_await ex (w, h) = ((w', h'), out) \<Longrightarrow> \<exists>ls. gate_trace h ls h'"
  unfolding uses_gate_api_def by (metis fst_conv snd_conv)

text \<open>The receipt of a gate's action after a failed execution.\<close>

definition settled :: "heap \<Rightarrow> nat \<Rightarrow> string \<Rightarrow> bool" where
  "settled h i aid \<longleftrightarrow> (\<exists>r. map_of (receipts (h ! i)) aid = Some r \<and> er_status r \<noteq> PENDING)"

lemma fail_uncertain_settles:
  assumes "fail_uncertain h w i aid e clock = (res, h', w')" and "store_inv h ls" and "i < length h"
    and "map_of (receipts (h ! i)) aid = Some r0"
  shows "res = Inl e \<and> settled h' i aid \<and> w' = w"
proof -
  have "gate_good (h ! i) (outcomes ls i)" using assms by (simp add: store_inv_def)
  note look = gate_good_lookup [OF this assms(4)]
  from assms(4) have "\<exists>r g. mark_uncertain (h ! i) aid None clock = Inr (r, g)"
    by (simp add: mark_uncertain_def Let_def)
  then obtain r g where m: "mark_uncertain (h ! i) aid None clock = Inr (r, g)" by blast
  from mark_uncertain_good [OF m \<open>gate_good _ _\<close>] m assms(1,3) show ?thesis
    by (auto simp: fail_uncertain_def settled_def)
qed

text \<open>After an execution has begun, its receipt is there in every later store.\<close>

lemma receipt_stays:
  assumes "gate_trace h ls h'" and "store_inv h ls0" and "i < length h"
    and "map_of (receipts (h ! i)) aid = Some r"
  shows "\<exists>r'. map_of (receipts (h' ! i)) aid = Some r' \<and> progress (er_status r) (er_status r')"
    and "store_inv h' (ls0 @ ls)" and "i < length h'"
  using trace_inv [OF assms(1,2)] assms(3,4) by (auto simp: heap_le_def gate_le_def)

lemma receipt_has_decision:
  assumes "store_inv h ls" and "i < length h" and "map_of (receipts (h ! i)) aid = Some r"
  shows "map_of (decisions (h ! i)) aid \<noteq> None"
  using assms unfolding store_inv_def gate_good_def receipts_ok_def by (metis option.distinct(1))

text \<open>The states \<open>invoke\<close> passes through: the check, the pending receipt, the executor.\<close>

lemma invoke_cases:
  assumes "invoke h w i rq ex ck uuid = (res, h', w')"
  obtains (raised) e where "res = Inl (Raised e)" "h' = h" "w' = w"
    | (denied) v where "check h i rq \<lparr>utc = ck_check ck, fresh = uuid\<rparr> = Inr (v, h')"
        "\<not> v_allowed v" "res = Inl (AuthorizationDenied v)" "w' = w"
    | (not_begun) v e where "check h i rq \<lparr>utc = ck_check ck, fresh = uuid\<rparr> = Inr (v, h')"
        "v_allowed v" "res = Inl e" "w' = w"
    | (run) v h1 r h2 where "check h i rq \<lparr>utc = ck_check ck, fresh = uuid\<rparr> = Inr (v, h1)"
        "v_allowed v" "begin_execution h1 i v (rq_now rq) (ck_begin ck) = Inr (r, h2)"
        "run_executor h2 w i v r (rq_arguments rq) ex (ck_mark ck) = (res, h', w')"
  using assms by (auto simp: invoke_def split: sum.splits if_splits)

lemma ainvoke_cases:
  assumes "ainvoke h w i rq ex ck uuid = (res, h', w')"
  obtains (raised) e where "res = Inl (Raised e)" "h' = h" "w' = w"
    | (denied) v where "check h i rq \<lparr>utc = ck_check ck, fresh = uuid\<rparr> = Inr (v, h')"
        "\<not> v_allowed v" "res = Inl (AuthorizationDenied v)" "w' = w"
    | (not_begun) v e where "check h i rq \<lparr>utc = ck_check ck, fresh = uuid\<rparr> = Inr (v, h')"
        "v_allowed v" "res = Inl e" "w' = w"
    | (run) v h1 r h2 where "check h i rq \<lparr>utc = ck_check ck, fresh = uuid\<rparr> = Inr (v, h1)"
        "v_allowed v" "begin_execution h1 i v (rq_now rq) (ck_begin ck) = Inr (r, h2)"
        "await_executor h2 w i v r (rq_arguments rq) ex (ck_mark ck) = (res, h', w')"
  using assms by (auto simp: ainvoke_def split: sum.splits if_splits)

text \<open>A started action's store, as the executor finds it.\<close>

lemma started:
  assumes "check h i rq hs = Inr (v, h1)" and "begin_execution h1 i v now clock = Inr (r, h2)"
    and "store_inv h ls" and "i < length h"
  shows "store_inv h2 (ls @ [None, None])" and "i < length h2"
    and "map_of (receipts (h2 ! i)) (ai_action_id (v_intent v)) = Some r"
proof -
  note c = step_inv [OF gate_step.check [OF assms(4,1)] assms(3)]
  then have i1: "i < length h1" using assms(4) by (simp add: heap_le_def)
  note b = step_inv [OF gate_step.begin_exec [OF i1 assms(2)] conjunct1 [OF c]]
  then show "store_inv h2 (ls @ [None, None])" "i < length h2"
    using i1 by (simp_all add: heap_le_def)
  from begin_execution_good [OF assms(2) store_inv_good [OF conjunct1 [OF c] i1] i1]
  show "map_of (receipts (h2 ! i)) (ai_action_id (v_intent v)) = Some r" by blast
qed

text \<open>Both executions that fail go through \<open>fail_uncertain\<close>, after a trace of gate operations.\<close>

lemma run_executor_fails:
  assumes "run_executor h w i v r arguments ex clock = (res, h', w')" and "res = Inl e"
    and "uses_gate_api ex"
  shows "\<exists>ls h3 w3 e3. gate_trace h ls h3 \<and>
     fail_uncertain h3 w3 i (ai_action_id (v_intent v)) e3 clock = (res, h', w')"
proof -
  obtain w3 h3 out where run: "ex_run ex arguments (w, h) = ((w3, h3), out)" by (metis prod.collapse)
  from uses_gate_api_run [OF assms(3) run] run assms(1,2) show ?thesis
    by (cases out) (auto simp: run_executor_def)
qed

lemma await_executor_fails:
  assumes "await_executor h w i v r arguments ex clock = (res, h', w')" and "res = Inl e"
    and "uses_gate_api ex"
  shows "\<exists>ls h3 w3 e3. gate_trace h ls h3 \<and>
     fail_uncertain h3 w3 i (ai_action_id (v_intent v)) e3 clock = (res, h', w')"
proof -
  obtain w2 h2 out where run: "ex_run ex arguments (w, h) = ((w2, h2), out)" by (metis prod.collapse)
  obtain w3 h3 fin where aw: "ex_await ex (w2, h2) = ((w3, h3), fin)" by (metis prod.collapse)
  from uses_gate_api_run [OF assms(3) run] uses_gate_api_await [OF assms(3) aw] trace_append
  have "\<exists>ls. gate_trace h ls h3" by blast
  with uses_gate_api_run [OF assms(3) run] run aw assms(1,2) show ?thesis
    by (cases out; cases fin) (auto simp: await_executor_def)
qed

section \<open>A small store for the witnesses\<close>

definition sample_mandate :: task_mandate where
  "sample_mandate = \<lparr>tm_mandate_id = ''m'', tm_principal_id = ''p'', tm_agent_id = ''a'',
     tm_expires_at = Aware 100, tm_allowed_tools = {|''t''|}, tm_allowed_resources = {|''db''|},
     tm_allowed_effects = {|WRITE|}, tm_allowed_credentials = {||},
     tm_credential_expires_at = None, tm_run_id = Some ''r'', tm_not_before = None\<rparr>"

definition sample_tools :: "(string, tool_authority) dict" where
  "sample_tools = [(''t'', \<lparr>ta_effect = WRITE, ta_resource_argument = None,
     ta_fixed_resource = Some ''db'', ta_credential_id = None\<rparr>)]"

definition sample_store :: heap where
  "sample_store = [\<lparr>mandate = sample_mandate, tools = sample_tools, trust_boundary = None,
     parent_gate = None, delegation_depth = 0, max_delegation_depth = 1,
     evidence_timeout = Some 10, revoked = False, decisions = [], receipts = [],
     receipt_started_at = [], effect_observations = [], verified_evidence = []\<rparr>]"

definition sample_request :: request where
  "sample_request = \<lparr>rq_agent_id = ''a'', rq_run_id = ''r'', rq_tool_name = ''t'',
     rq_arguments = [], rq_action_id = Some ''x'', rq_now = Some (Aware 5), rq_provenance = None\<rparr>"

definition sample_delegation :: delegation where
  "sample_delegation = \<lparr>dl_agent_id = ''b'', dl_run_id = ''s'', dl_tools = {|''t''|},
     dl_resources = {|''db''|}, dl_effects = {|WRITE|}, dl_expires_at = Aware 50,
     dl_credentials = {||}, dl_not_before = None, dl_credential_expires_at = None,
     dl_now = Some (Aware 5)\<rparr>"

definition sample_host :: host where
  "sample_host = \<lparr>utc = 5, fresh = ''f''\<rparr>"

lemmas sample_defs = sample_mandate_def sample_tools_def sample_store_def sample_request_def
  sample_delegation_def sample_host_def

lemma nonblank_samples [simp]:
  "nonblank ''db''" "nonblank ''b''" "nonblank ''s''" "''db'' \<noteq> unresolved" "unresolved \<noteq> ''db''"
  by (simp_all add: nonblank_def is_space_def unresolved_def)

lemma sample_created:
  "new_root_gate [] sample_mandate sample_tools None 1 (Some 10) = Inr (0, sample_store)"
  by (simp add: new_root_gate_def make_gate_def sample_store_def)

lemma sample_mandate_ok: "mandate_ok sample_mandate"
  by (simp add: mandate_ok_def make_task_mandate_def sample_mandate_def opt_aware_def)

lemma sample_inv: "store_inv sample_store [None]" "wf_heap sample_store" "length sample_store = 1"
proof -
  show "store_inv sample_store [None]"
    using step_inv [OF gate_step.create [OF sample_created sample_mandate_ok] store_inv_empty]
    by simp
  then show "wf_heap sample_store" by (rule store_inv_wf)
qed (simp add: sample_store_def)

lemma sample_reachable: "gate_trace [] [None] sample_store"
  by (rule trace_step [OF gate_step.create [OF sample_created sample_mandate_ok]])

lemma sample_ancestry: "ancestry sample_store 0 = [0]"
  by (rule ancestry_root) (simp add: sample_store_def)

lemma sample_authorised: "authorised sample_store 0 sample_request (Aware 5) ''x''"
  unfolding authorised_def sample_ancestry
  by (simp add: sample_defs live_def grants_def before_start_def expired_def boundary_permits_def
      resolve_resource_def str_set_def nonblank_def is_space_def unresolved_def)

lemma sample_mandate_at: "mandate (sample_store ! 0) = sample_mandate"
  by (simp add: sample_store_def)

lemma sample_checked:
  "\<exists>v h. check sample_store 0 sample_request sample_host = Inr (v, h) \<and> v_allowed v \<and>
     ai_action_id (v_intent v) = ''x''"
  using sample_authorised
  by (simp add: exn_simps resolve_now_def sample_host_def request_id_def str_set_def,
      simp add: sample_request_def)

text \<open>A live store with a delegated gate below the sample gate.\<close>

lemma sample_delegated:
  "\<exists>h. delegate sample_store 0 sample_delegation sample_host = Inr (1, h)"
  unfolding delegate_def Let_def delegation_guards_def delegation_denial_def sample_ancestry
  by (simp add: sample_defs resolve_now_def before_start_def expired_def child_start_def
      child_credential_end_def option_or_def opt_aware_def make_task_mandate_def
      child_mandate_def make_gate_def)

text \<open>The same store after the check, the start and a confirmation of action \<open>x\<close>.\<close>

definition sample_verdict :: authorization_verdict where
  "sample_verdict = check_verdict sample_store 0 sample_request sample_host"

definition sample_decided :: heap where
  "sample_decided = [(sample_store ! 0)\<lparr>decisions := [(''x'', sample_verdict)]\<rparr>]"

definition sample_started :: heap where
  "sample_started = [put_receipt ((sample_decided ! 0)\<lparr>receipt_started_at := [(''x'', Aware 6)]\<rparr>)
     ''x'' None (sdk_receipt ''x'' PENDING) ''execution_started'' (Aware 6)]"

definition sample_evidence :: effect_receipt where
  "sample_evidence = \<lparr>er_action_id = ''x'', er_status = CONFIRMED, er_evidence_source = ''s'',
     er_evidence_reference = Some ''b'', er_independently_verified = False\<rparr>"

lemma sample_request_simps:
  "request_id sample_request sample_host = ''x''"
  "resolve_now (rq_now sample_request) (utc sample_host) = Aware 5" "rq_now sample_request = Some (Aware 5)"
  "resolve_now (Some (Aware 5)) (utc sample_host) = Aware 5"
  by (simp_all add: request_id_def str_set_def resolve_now_def) (simp_all add: sample_request_def)

lemma sample_decided_eq:
  "check sample_store 0 sample_request sample_host = Inr (sample_verdict, sample_decided)"
  by (simp add: check_Inr sample_request_simps sample_verdict_def sample_decided_def)
    (simp add: sample_store_def)

lemma sample_verdict_simps:
  "v_allowed sample_verdict" "ai_action_id (v_intent sample_verdict) = ''x''"
  "ai_credential_id (v_intent sample_verdict) = None"
proof -
  show "ai_credential_id (v_intent sample_verdict) = None"
    by (simp add: sample_verdict_def sample_request_simps) (simp add: make_intent_def sample_defs)
qed (use sample_authorised in \<open>simp_all add: sample_verdict_def sample_request_simps\<close>)

lemma sample_lapse: "t < 100 \<Longrightarrow> lapse_reason sample_decided 0 sample_verdict (Aware t) = None"
proof -
  have a: "ancestry sample_decided 0 = [0]"
    by (rule ancestry_root) (simp add: sample_decided_def sample_store_def)
  show "t < 100 \<Longrightarrow> lapse_reason sample_decided 0 sample_verdict (Aware t) = None"
    unfolding lapse_reason_def delegation_denial_def a
    by (simp add: sample_decided_def sample_store_def sample_mandate_def sample_verdict_simps
        before_start_def expired_def)
qed

lemma sample_begins:
  "t < 100 \<Longrightarrow> \<exists>h. begin_execution sample_decided 0 sample_verdict (Some (Aware t)) clock =
     Inr (sdk_receipt ''x'' PENDING, h)"
  using sample_lapse [of t]
  by (simp add: begin_execution_def resolve_now_def sample_verdict_simps)
    (simp add: sample_decided_def sample_store_def Let_def)

lemma sample_started_eq:
  "begin_execution sample_decided 0 sample_verdict (Some (Aware 6)) 6 =
     Inr (sdk_receipt ''x'' PENDING, sample_started)"
  using sample_lapse [of 6]
  by (simp add: begin_execution_def resolve_now_def sample_verdict_simps)
    (simp add: sample_started_def sample_decided_def sample_store_def Let_def)

lemma sample_receipt: "map_of (receipts (sample_started ! 0)) ''x'' = Some (sdk_receipt ''x'' PENDING)"
  by (simp add: sample_started_def sample_decided_def sample_store_def)

lemma sample_started_inv: "store_inv sample_started [None, None, None]"
    "length sample_started = 1"
  using started(1) [OF sample_decided_eq sample_started_eq sample_inv(1)]
  by (simp_all add: sample_inv(3)) (simp add: sample_started_def)

lemma sample_confirmed:
  obtains g where
    "record_effect (sample_started ! 0) sample_evidence (Some (\<lambda>_. Some True)) (Some (Aware 7)) 7
       = Inr (reconciled sample_evidence CONFIRMED, g)"
    "map_of (receipts g) ''x'' = Some (reconciled sample_evidence CONFIRMED)"
proof -
  have "map_of (decisions (sample_started ! 0)) ''x'' = Some sample_verdict"
    "verified_evidence (sample_started ! 0) = []"
    by (simp_all add: sample_started_def sample_decided_def sample_store_def)
  moreover have "evidence_accepted sample_evidence (Some (\<lambda>_. Some True))"
    by (simp add: evidence_accepted_def valid_reference_def sample_evidence_def)
  ultimately show thesis
    using sample_receipt sample_verdict_simps(1) that
    by (simp add: record_effect_def resolve_now_def reconcile_def evidence_for_def
        sample_evidence_def Let_def)
qed

lemma sample_trace:
  obtains g where "gate_trace [] [None, None, None, Some (0, ''x'', CONFIRMED)] [g]"
    "map_of (receipts g) ''x'' = Some (reconciled sample_evidence CONFIRMED)"
proof -
  have n: "0 < length sample_store" "0 < length sample_decided" "0 < length sample_started"
    by (simp_all add: sample_store_def sample_decided_def sample_started_def)
  from sample_confirmed obtain g where g: "record_effect (sample_started ! 0) sample_evidence
      (Some (\<lambda>_. Some True)) (Some (Aware 7)) 7 = Inr (reconciled sample_evidence CONFIRMED, g)"
    "map_of (receipts g) ''x'' = Some (reconciled sample_evidence CONFIRMED)" by metis
  have l: "accepted_label 0 sample_evidence (Some (\<lambda>_. Some True)) = Some (0, ''x'', CONFIRMED)"
    by (simp add: accepted_label_def evidence_accepted_def valid_reference_def sample_evidence_def)
  have "gate_trace [] [None, None] sample_decided"
    using gate_trace.more [OF sample_reachable gate_step.check [OF n(1) sample_decided_eq]] by simp
  from gate_trace.more [OF this gate_step.begin_exec [OF n(2) sample_started_eq]]
  have "gate_trace [] [None, None, None] sample_started" by simp
  from gate_trace.more [OF this gate_step.evidence [OF n(3) g(1) refl]] g(2) l that
  show thesis by (simp add: sample_started_def)
qed

section \<open>Authorization\<close>

text \<open>
  C1: the pre-execution check allows an action exactly when it is authorised: the action id is
  fresh for the gate, the gate and all its ancestors are live at that time, the agent and run
  are the mandate's, the tool is registered and allowed, its resolved resource, effect and
  credential are allowed and current, and the trust boundary permits the arguments.
\<close>

theorem check_decides_authority:
  assumes "check h i rq hs = Inr (v, h')"
  shows "v_allowed v \<longleftrightarrow>
     authorised h i rq (resolve_now (rq_now rq) (utc hs)) (request_id rq hs)"
  using assms by (simp add: exn_simps)

lemma check_decides_authority_witness:
  "\<exists>v h. check sample_store 0 sample_request sample_host = Inr (v, h) \<and> v_allowed v \<and>
     authorised sample_store 0 sample_request (resolve_now (rq_now sample_request) (utc sample_host))
       (request_id sample_request sample_host)"
  using sample_checked check_decides_authority by blast

text \<open>
  what a delegated gate may do, each of its ancestors may do: if an action is authorised
  at a gate of a well-formed store, every ancestor is live, grants the same tool, resource,
  effect and credential, declares the same tool and applies the same trust boundary.
\<close>

theorem authority_attenuates:
  assumes "wf_heap h" and "i < length h" and "authorised h i rq t aid"
    and "j \<in> set (ancestry h i)"
  shows "live (h ! j) t \<and> boundary_permits (h ! j) rq \<and>
     (\<exists>ta. map_of (tools (h ! j)) (rq_tool_name rq) = Some ta \<and>
        grants (mandate (h ! j)) t (rq_tool_name rq) (resolve_resource ta (rq_arguments rq))
          (ta_effect ta) (ta_credential_id ta))"
proof -
  note tools = chain_tools [OF assms(1,2,4)]
  from assms(3) obtain ta where ta: "map_of (tools (h ! i)) (rq_tool_name rq) = Some ta"
    and g: "grants (mandate (h ! i)) t (rq_tool_name rq) (resolve_resource ta (rq_arguments rq))
          (ta_effect ta) (ta_credential_id ta)" and b: "boundary_permits (h ! i) rq"
    by (auto simp: authorised_def)
  from ta tools have "map_of (tools (h ! j)) (rq_tool_name rq) = Some ta"
    by (metis domI map_le_def)
  moreover from b tools have "boundary_permits (h ! j) rq" by (simp add: boundary_permits_def)
  ultimately show ?thesis
    using authorised_live [OF assms(3,4)] attenuated_grants [OF chain_attenuated [OF assms(1,2,4)] g]
    by blast
qed

lemma authority_attenuates_witness:
  "\<exists>ta. map_of (tools (sample_store ! 0)) ''t'' = Some ta \<and>
     grants (mandate (sample_store ! 0)) (Aware 5) ''t'' (resolve_resource ta [])
       (ta_effect ta) (ta_credential_id ta)"
  using authority_attenuates [OF sample_inv(2) _ sample_authorised, of 0] sample_inv(3)
  by (simp add: sample_ancestry sample_request_def)

lemma delegate_child:
  assumes "delegate h i d hs = Inr (c, h')" and "wf_heap h" and "i < length h"
  shows "\<exists>g. c = length h \<and> h' = h @ [g] \<and> child_ok h g i \<and> wf_heap h' \<and>
     (\<forall>j \<in> set (ancestry h i). live (h ! j) (resolve_now (dl_now d) (utc hs)))"
proof -
  from delegate_Inr [OF assms] obtain g where g: "c = length h" "h' = h @ [g]"
    "parent_gate g = Some i" "attenuated (mandate g) (mandate (h ! i))" "wf_heap h'"
    "\<forall>j \<in> set (ancestry h i). live (h ! j) (resolve_now (dl_now d) (utc hs))" by metis
  then have "child_ok h g i"
    using wf_heap_parent [of h' "length h" i] assms(3) by (auto simp: child_ok_append)
  with g show ?thesis by blast
qed

text \<open>
  C7: a delegation that succeeds creates one new gate, keeps the store well formed, was made by
  a gate all of whose ancestors were live, and gives the child a mandate that is attenuated
  with respect to every ancestor: no more tools, resources, effects or credentials, no longer
  lifetime, no earlier start, no longer credential lifetime.
\<close>

theorem delegation_attenuates:
  assumes "delegate h i d hs = Inr (c, h')" and "wf_heap h" and "i < length h"
  shows "wf_heap h' \<and> length h' = length h + 1 \<and> c = length h \<and> take c h' = h \<and>
     (\<forall>j \<in> set (ancestry h i). live (h ! j) (resolve_now (dl_now d) (utc hs)) \<and>
        attenuated (mandate (h' ! c)) (mandate (h ! j)) \<and>
        tm_agent_id (mandate (h' ! c)) \<noteq> tm_agent_id (mandate (h ! j)))"
proof -
  from delegate_child [OF assms] obtain g where "c = length h" "h' = h @ [g]" "child_ok h g i" "wf_heap h'"
    "\<forall>j \<in> set (ancestry h i). live (h ! j) (resolve_now (dl_now d) (utc hs))" by blast
  with chain_attenuated [OF assms(2,3)] show ?thesis
    by (auto simp: child_ok_def intro: attenuated_trans)
qed

lemma delegation_attenuates_witness:
  "\<exists>h'. delegate sample_store 0 sample_delegation sample_host = Inr (1, h') \<and> wf_heap h' \<and>
     attenuated (mandate (h' ! 1)) sample_mandate"
proof -
  from sample_delegated obtain h' where
    d: "delegate sample_store 0 sample_delegation sample_host = Inr (1, h')" by blast
  from delegation_attenuates [OF d sample_inv(2)] sample_inv(3) d show ?thesis
    by (simp add: sample_ancestry sample_mandate_at)
qed

text \<open>
  in every store the gate operations can reach, a delegation chain has at most nine gates
  (the root and eight delegations), its depth field counts it, and its agents are distinct.
\<close>

theorem delegation_chain_bounded:
  assumes "gate_trace [] ls h" and "i < length h"
  shows "length (ancestry h i) \<le> 9 \<and> int (length (ancestry h i)) = delegation_depth (h ! i) + 1 \<and>
     distinct (map (\<lambda>j. tm_agent_id (mandate (h ! j))) (ancestry h i)) \<and>
     length (delegation_lineage h i) = length (ancestry h i)"
proof -
  from trace_inv [OF assms(1) store_inv_empty] have wf: "wf_heap h" by (simp add: store_inv_def)
  with assms(2) have "gate_ok h i" by (simp add: wf_heap_def)
  then have "delegation_depth (h ! i) \<le> 8" by (simp add: gate_ok_def)
  with chain_depth [OF wf assms(2)] chain_distinct_agents [OF wf assms(2)] show ?thesis
    by (simp add: delegation_lineage_def)
qed

lemma delegation_chain_bounded_witness:
  "length (ancestry sample_store 0) \<le> 9 \<and> delegation_lineage sample_store 0 = [''m'']"
  using delegation_chain_bounded [OF sample_reachable, of 0] sample_inv(3)
  by (simp add: delegation_lineage_def sample_ancestry sample_mandate_at)
    (simp add: sample_mandate_def)

text \<open>
  C3: revoking a gate is final and reaches every descendant, however many steps later and even
  those delegated since: the check of a gate below it denies, no execution begins there, and no
  further delegation from it succeeds.
\<close>

theorem revocation_is_final:
  assumes "store_inv h ls0" and "j < length h" and "gate_trace (revoke h j) ls h'"
    and "i < length h'" and "j \<in> set (ancestry h' i)"
  shows "(\<forall>rq hs v h''. check h' i rq hs = Inr (v, h'') \<longrightarrow> \<not> v_allowed v) \<and>
     (\<forall>v now clock r h''. begin_execution h' i v now clock \<noteq> Inr (r, h'')) \<and>
     (\<forall>d hs c h''. delegate h' i d hs \<noteq> Inr (c, h''))"
proof -
  note r = step_inv [OF gate_step.revoke [OF assms(2)] assms(1)]
  note t = trace_inv [OF assms(3) conjunct1 [OF r]]
  have "revoked (revoke h j ! j)" "length (revoke h j) = length h"
    using assms(2) by (simp_all add: revoke_def)
  with t assms(2) have "revoked (h' ! j)" by (auto simp: heap_le_def gate_le_def)
  then have dead: "\<not> live (h' ! j) t" for t by (simp add: revoked_not_live)
  have wf: "wf_heap h'" using t store_inv_wf by blast
  from dead assms(5) authorised_live have "\<not> authorised h' i rq t aid" for rq t aid by blast
  moreover from dead assms(5) begin_execution_live
  have "begin_execution h' i v now clock \<noteq> Inr (r, h'')" for v now clock r h'' by blast
  moreover from dead assms(5) delegate_child [OF _ wf assms(4)]
  have "delegate h' i d hs \<noteq> Inr (c, h'')" for d hs c h'' by blast
  ultimately show ?thesis by (simp add: exn_simps)
qed

lemma revocation_is_final_witness:
  "\<exists>v h''. check (revoke sample_store 0) 0 sample_request sample_host = Inr (v, h'') \<and>
     \<not> v_allowed v"
proof -
  obtain v h'' where c: "check (revoke sample_store 0) 0 sample_request sample_host = Inr (v, h'')"
    by (auto simp: check_def Let_def sample_request_simps)
  with revocation_is_final [OF sample_inv(1) _ gate_trace.start, of 0 0] sample_inv(3)
  show ?thesis by (auto simp: revoke_def)
qed

section \<open>Effects\<close>

text \<open>
  C13: in every store the gate operations can reach, the status of a receipt is what the
  evidence accepted by a verifier says: PENDING or UNKNOWN if none was accepted, the outcome if
  all of it agrees, CONFLICTED if it disagrees; and the receipt is marked independently
  verified exactly when some evidence was accepted. An executor's own claim counts for nothing.
\<close>

theorem receipt_reflects_evidence:
  assumes "gate_trace [] ls h" and "i < length h" and "map_of (receipts (h ! i)) aid = Some r"
  shows "status_spec (outcomes ls i aid) (er_status r) \<and>
     (er_independently_verified r \<longleftrightarrow> outcomes ls i aid \<noteq> {}) \<and>
     (\<exists>v. map_of (decisions (h ! i)) aid = Some v \<and> v_allowed v)"
proof -
  from trace_inv [OF assms(1) store_inv_empty] assms(2)
  have good: "gate_good (h ! i) (outcomes ls i)" by (simp add: store_inv_def)
  note look = gate_good_lookup [OF good assms(3)]
  from look(3) have "verified_status (er_status r) \<longleftrightarrow> outcomes ls i aid \<noteq> {}"
    by (auto simp: status_spec_def verified_status_def split: if_splits)
  with look good assms(3) show ?thesis by (auto simp: gate_good_def receipts_ok_def)
qed

lemma receipt_reflects_evidence_witness:
  "\<exists>g. gate_trace [] [None, None, None, Some (0, ''x'', CONFIRMED)] [g] \<and>
     (\<exists>r. map_of (receipts g) ''x'' = Some r \<and> er_status r = CONFIRMED \<and>
        er_independently_verified r)"
proof -
  from sample_trace obtain g where t: "gate_trace [] [None, None, None, Some (0, ''x'', CONFIRMED)] [g]"
    and r: "map_of (receipts g) ''x'' = Some (reconciled sample_evidence CONFIRMED)" by metis
  have "outcomes [None, None, None, Some (0, ''x'', CONFIRMED)] 0 ''x'' = {CONFIRMED}"
    by (simp add: outcomes_def)
  with receipt_reflects_evidence [OF t, of 0 "''x''" "reconciled sample_evidence CONFIRMED"] t r
  show ?thesis by (auto simp: status_spec_def)
qed

text \<open>
  \<open>effects_verified\<close> holds for a list of action ids exactly when it is nonempty and for each
  id some verified evidence was accepted and all of it said CONFIRMED.
\<close>

theorem effects_verified_iff_confirmed:
  assumes "gate_trace [] ls h" and "i < length h"
  shows "effects_verified (h ! i) ids \<longleftrightarrow>
     ids \<noteq> [] \<and> (\<forall>aid \<in> set ids. outcomes ls i aid = {CONFIRMED})"
proof -
  from trace_inv [OF assms(1) store_inv_empty] assms(2)
  have good: "gate_good (h ! i) (outcomes ls i)" by (simp add: store_inv_def)
  have "(case map_of (receipts (h ! i)) aid of None \<Rightarrow> False
      | Some r \<Rightarrow> er_status r = CONFIRMED \<and> er_independently_verified r) \<longleftrightarrow>
      outcomes ls i aid = {CONFIRMED}" for aid
  proof (cases "map_of (receipts (h ! i)) aid")
    case None
    with good have "outcomes ls i aid = {}" by (simp add: gate_good_def gate_spec_def)
    with None show ?thesis by simp
  next
    case (Some r)
    from gate_good_lookup [OF good Some] Some show ?thesis
      by (auto simp: status_spec_def split: if_splits)
  qed
  then show ?thesis by (simp add: effects_verified_def list_all_iff)
qed

lemma effects_verified_iff_confirmed_witness:
  "\<exists>g. gate_trace [] [None, None, None, Some (0, ''x'', CONFIRMED)] [g] \<and>
     effects_verified g [''x''] \<and> \<not> effects_verified g [''x'', ''y'']"
proof -
  from sample_trace obtain g where
    t: "gate_trace [] [None, None, None, Some (0, ''x'', CONFIRMED)] [g]" by metis
  have "outcomes [None, None, None, Some (0, ''x'', CONFIRMED)] 0 a =
      (if a = ''x'' then {CONFIRMED} else {})" for a by (auto simp: outcomes_def)
  with effects_verified_iff_confirmed [OF t, of 0] t show ?thesis by (intro exI [of _ g]) simp
qed

text \<open>
  replaying a gate's observation log gives exactly the status of every receipt: no
  transition of a receipt escapes the audit log.
\<close>

theorem observation_log_complete:
  assumes "gate_trace [] ls h" and "i < length h"
  shows "log_status (h ! i) = map_option er_status \<circ> map_of (receipts (h ! i))"
  using trace_inv [OF assms(1) store_inv_empty] assms(2)
  by (simp add: store_inv_def gate_good_def receipts_ok_def)

lemma observation_log_complete_witness:
  "\<exists>g. log_status g ''x'' = Some CONFIRMED"
proof -
  from sample_trace obtain g where t: "gate_trace [] [None, None, None, Some (0, ''x'', CONFIRMED)] [g]"
    and r: "map_of (receipts g) ''x'' = Some (reconciled sample_evidence CONFIRMED)" by metis
  from observation_log_complete [OF t, of 0] r have "log_status g ''x'' = Some CONFIRMED"
    by (simp add: reconciled_def)
  then show ?thesis by blast
qed

text \<open>
  receipts only progress. From a sound store, after any further steps, an existing receipt
  is still there, its status is the same or of a higher rank (PENDING, UNKNOWN, a verified
  outcome, CONFLICTED), a conflict stays a conflict, and no decision has changed.
\<close>

theorem receipts_only_progress:
  assumes "gate_trace h ls h'" and "store_inv h ls0" and "i < length h"
    and "map_of (receipts (h ! i)) aid = Some r"
  shows "\<exists>r'. map_of (receipts (h' ! i)) aid = Some r' \<and>
     progress (er_status r) (er_status r') \<and>
     (er_status r = CONFLICTED \<longrightarrow> er_status r' = CONFLICTED) \<and>
     map_of (decisions (h ! i)) \<subseteq>\<^sub>m map_of (decisions (h' ! i))"
proof -
  from receipt_stays(1) [OF assms] obtain r' where
    r': "map_of (receipts (h' ! i)) aid = Some r'" "progress (er_status r) (er_status r')" by blast
  moreover have "er_status r = CONFLICTED \<longrightarrow> er_status r' = CONFLICTED"
    using r'(2) by (cases "er_status r'") (auto simp: progress_def)
  moreover have "map_of (decisions (h ! i)) \<subseteq>\<^sub>m map_of (decisions (h' ! i))"
    using trace_inv [OF assms(1,2)] assms(3) by (simp add: heap_le_def gate_le_def)
  ultimately show ?thesis by blast
qed

lemma receipts_only_progress_witness:
  "\<exists>g r. gate_trace sample_started [Some (0, ''x'', CONFIRMED)] [g] \<and>
     map_of (receipts g) ''x'' = Some r \<and> progress PENDING (er_status r)"
proof -
  from sample_confirmed obtain g where g: "record_effect (sample_started ! 0) sample_evidence
      (Some (\<lambda>_. Some True)) (Some (Aware 7)) 7 = Inr (reconciled sample_evidence CONFIRMED, g)"
    by metis
  have "accepted_label 0 sample_evidence (Some (\<lambda>_. Some True)) = Some (0, ''x'', CONFIRMED)"
    by (simp add: accepted_label_def evidence_accepted_def valid_reference_def sample_evidence_def)
  with trace_step [OF gate_step.evidence [OF _ g refl]] sample_started_inv(2)
  have t: "gate_trace sample_started [Some (0, ''x'', CONFIRMED)] (sample_started[0 := g])" by simp
  from receipts_only_progress [OF t sample_started_inv(1) _ sample_receipt] sample_started_inv(2) t
  show ?thesis by (auto simp: sample_started_def)
qed

text \<open>
  C6: at most one execution per action id. Once an action has started at a gate, then in every
  later store a request with that action id is refused by both wrappers without running the
  executor (the world is unchanged), and no execution can begin for a verdict with that id.
\<close>

theorem at_most_one_execution:
  assumes "gate_trace h ls h'" and "store_inv h ls0" and "i < length h"
    and "map_of (receipts (h ! i)) aid = Some r"
    and "rq_action_id rq = Some aid" and "aid \<noteq> []"
  shows "(\<exists>e h''. invoke h' w i rq ex ck uuid = (Inl e, h'', w)) \<and>
     (\<exists>e h''. ainvoke h' w i rq ex ck uuid = (Inl e, h'', w)) \<and>
     (\<forall>v now clock r' h''. ai_action_id (v_intent v) = aid \<longrightarrow>
        begin_execution h' i v now clock \<noteq> Inr (r', h''))"
proof -
  from receipt_stays [OF assms(1-4)] obtain r' where
    r': "map_of (receipts (h' ! i)) aid = Some r'" and inv: "store_inv h' (ls0 @ ls)" "i < length h'"
    by blast
  from receipt_has_decision [OF inv r'] have "\<not> authorised h' i rq t aid" for t
    by (simp add: authorised_def)
  then have denied: "\<not> v_allowed v"
    if "check h' i rq \<lparr>utc = ck_check ck, fresh = uuid\<rparr> = Inr (v, h'')" for v h''
    using that assms(5,6) by (auto simp: exn_simps request_id_def str_set_def)
  obtain res h1 w1 where "invoke h' w i rq ex ck uuid = (res, h1, w1)" by (metis prod_cases3)
  moreover from this have "\<exists>e. res = Inl e \<and> w1 = w"
    by (cases rule: invoke_cases) (use denied in auto)
  moreover obtain res' h2 w2 where "ainvoke h' w i rq ex ck uuid = (res', h2, w2)"
    by (metis prod_cases3)
  moreover from this have "\<exists>e. res' = Inl e \<and> w2 = w"
    by (cases rule: ainvoke_cases) (use denied in auto)
  moreover have "begin_execution h' i v now clock \<noteq> Inr (q, h'')"
    if "ai_action_id (v_intent v) = aid" for v now clock q h''
    using begin_execution_cases [of h' i v now clock q h''] r' that by (auto simp: Let_def)
  ultimately show ?thesis by blast
qed

lemma at_most_one_execution_witness:
  "\<forall>ex :: (unit, unit) executor. \<exists>e h. invoke sample_started () 0 sample_request ex
     \<lparr>ck_check = 7, ck_begin = 7, ck_mark = 7\<rparr> ''f'' = (Inl e, h, ())"
proof
  fix ex :: "(unit, unit) executor"
  show "\<exists>e h. invoke sample_started () 0 sample_request ex
     \<lparr>ck_check = 7, ck_begin = 7, ck_mark = 7\<rparr> ''f'' = (Inl e, h, ())"
    using at_most_one_execution [OF gate_trace.start sample_started_inv(1) _ sample_receipt,
        of sample_request "()" ex "\<lparr>ck_check = 7, ck_begin = 7, ck_mark = 7\<rparr>" "''f''"]
      sample_started_inv(2)
    by (simp add: sample_request_def)
qed

text \<open>
  C2: an action that is not authorised never reaches its executor. Both wrappers end in the same
  exception whatever the executor is, leave the world as it was and no receipt changed.
\<close>

theorem unauthorised_never_executes:
  assumes "\<not> authorised h i rq (resolve_now (rq_now rq) (ck_check ck))
             (request_id rq \<lparr>utc = ck_check ck, fresh = uuid\<rparr>)"
  shows "\<exists>e h'. (\<forall>ex. invoke h w i rq ex ck uuid = (Inl e, h', w) \<and>
       ainvoke h w i rq ex ck uuid = (Inl e, h', w)) \<and>
     (\<forall>j. receipts (h' ! j) = receipts (h ! j))"
proof (cases "check h i rq \<lparr>utc = ck_check ck, fresh = uuid\<rparr>")
  case (Inl e)
  then show ?thesis by (auto simp: invoke_def ainvoke_def)
next
  case (Inr vh)
  obtain v h1 where vh: "vh = (v, h1)" by (cases vh)
  with Inr assms have "\<not> v_allowed v" by (simp add: exn_simps)
  moreover have "receipts (h1 ! j) = receipts (h ! j)" for j
    using Inr vh by (cases "i < length h") (auto simp: exn_simps nth_list_update list_update_beyond)
  ultimately show ?thesis using Inr vh by (auto simp: invoke_def ainvoke_def)
qed

lemma unauthorised_never_executes_witness:
  "\<exists>e h'. \<forall>ex :: (unit, unit) executor.
     invoke (revoke sample_store 0) () 0 sample_request ex \<lparr>ck_check = 5, ck_begin = 5, ck_mark = 5\<rparr> ''f''
       = (Inl e, h', ())"
proof -
  have "\<not> authorised (revoke sample_store 0) 0 sample_request t aid" for t aid
    using authorised_live [of "revoke sample_store 0" 0 sample_request t aid 0]
    by (auto simp: revoke_def sample_store_def live_def)
  from unauthorised_never_executes [OF this, where w = "()" and uuid = "''f''"
      and ck = "\<lparr>ck_check = 5, ck_begin = 5, ck_mark = 5\<rparr>"]
  show ?thesis by blast
qed

text \<open>
  an execution that ends in an exception leaves nothing pending. If either wrapper ends in an
  exception, then either the executor never ran (the world and the gate's receipts are as
  before) or the action's receipt is no longer PENDING: it is UNKNOWN, unless evidence a
  verifier accepted meanwhile settled it. This holds for any executor that touches the gates
  only through their operations.
\<close>

theorem failed_execution_settles:
  fixes ex :: "('w, 'r) executor"
  assumes "store_inv h ls" and "i < length h" and "uses_gate_api ex"
    and "invoke h w i rq ex ck uuid = (Inl e, h', w') \<or>
         ainvoke h w i rq ex ck uuid = (Inl e, h', w')"
  shows "(w' = w \<and> receipts (h' ! i) = receipts (h ! i)) \<or>
     settled h' i (request_id rq \<lparr>utc = ck_check ck, fresh = uuid\<rparr>)"
proof -
  let ?hs = "\<lparr>utc = ck_check ck, fresh = uuid\<rparr>"
  have same: "receipts (h1 ! i) = receipts (h ! i)" "ai_action_id (v_intent v) = request_id rq ?hs"
    if "check h i rq ?hs = Inr (v, h1)" for v h1
    using that assms(2) by (auto simp: exn_simps)
  have settles: "settled h' i (ai_action_id (v_intent v))"
    if "check h i rq ?hs = Inr (v, h1)"
      "begin_execution h1 i v (rq_now rq) (ck_begin ck) = Inr (r, h2)"
      "gate_trace h2 ls2 h3"
      "fail_uncertain h3 w3 i (ai_action_id (v_intent v)) e3 (ck_mark ck) = (res, h', w')"
    for v h1 r h2 ls2 h3 w3 e3 and res :: "gate_exn + 'r action_execution"
  proof -
    note st = started [OF that(1,2) assms(1,2)]
    from receipt_stays [OF that(3) st] obtain r' where
      "map_of (receipts (h3 ! i)) (ai_action_id (v_intent v)) = Some r'" by blast
    from fail_uncertain_settles [OF that(4) receipt_stays(2,3) [OF that(3) st] this]
    show ?thesis by blast
  qed
  from assms(4) show ?thesis
  proof
    assume "invoke h w i rq ex ck uuid = (Inl e, h', w')"
    then show ?thesis
    proof (cases rule: invoke_cases)
      case (run v h1 r h2)
      then obtain ls2 h3 w3 e3 and res :: "gate_exn + 'r action_execution" where "gate_trace h2 ls2 h3"
        "fail_uncertain h3 w3 i (ai_action_id (v_intent v)) e3 (ck_mark ck) = (res, h', w')"
        using run_executor_fails [OF run(4) refl assms(3)] by blast
      with run settles same show ?thesis by metis
    qed (use same in auto)
  next
    assume "ainvoke h w i rq ex ck uuid = (Inl e, h', w')"
    then show ?thesis
    proof (cases rule: ainvoke_cases)
      case (run v h1 r h2)
      then obtain ls2 h3 w3 e3 and res :: "gate_exn + 'r action_execution" where "gate_trace h2 ls2 h3"
        "fail_uncertain h3 w3 i (ai_action_id (v_intent v)) e3 (ck_mark ck) = (res, h', w')"
        using await_executor_fails [OF run(4) refl assms(3)] by blast
      with run settles same show ?thesis by metis
    qed (use same in auto)
  qed
qed

definition failing_executor :: "(unit, unit) executor" where
  "failing_executor = \<lparr>ex_coroutine = False, ex_run = \<lambda>_ wh. (wh, Threw ''boom''),
     ex_await = \<lambda>wh. (wh, Inl ''boom'')\<rparr>"

lemma failing_executor_api: "uses_gate_api failing_executor"
  using gate_trace.start by (auto simp: uses_gate_api_def failing_executor_def)

lemma failed_execution_settles_witness:
  "\<exists>e h' w'. invoke sample_store () 0 sample_request failing_executor
       \<lparr>ck_check = 5, ck_begin = 6, ck_mark = 7\<rparr> ''f'' = (Inl e, h', w') \<and>
     (receipts (h' ! 0) = receipts (sample_store ! 0) \<or> settled h' 0 ''x'')"
proof -
  let ?ck = "\<lparr>ck_check = 5, ck_begin = 6, ck_mark = 7\<rparr>"
  obtain res h' w' where i: "invoke sample_store () 0 sample_request failing_executor ?ck ''f''
      = (res, h', w')" by (metis prod_cases3)
  have "\<exists>e. res = Inl e"
    using i
    by (cases rule: invoke_cases)
      (auto simp: run_executor_def failing_executor_def fail_uncertain_def split: sum.splits)
  then obtain e where "res = Inl e" by blast
  with i failed_execution_settles [OF sample_inv(1) _ failing_executor_api, where i = 0
      and rq = sample_request and w = "()" and ck = ?ck and uuid = "''f''" and e = e and h' = h'
      and w' = w'] sample_inv(3)
  show ?thesis by (auto simp: request_id_def str_set_def sample_request_def)
qed

text \<open>One round of the sweep.\<close>

definition sweep_one :: "datetime \<Rightarrow> int \<Rightarrow> string \<times> datetime \<Rightarrow> effect_receipt \<Rightarrow> gate \<Rightarrow> gate" where
  "sweep_one t timeout item prev g =
     (if er_status prev = PENDING \<and> instant (snd item) + timeout \<le> instant t
      then put_receipt g (fst item) (Some (er_status prev)) (sdk_receipt (fst item) UNKNOWN)
             ''evidence_timeout'' t
      else g)"

lemma expire_loop_Cons:
  assumes "expire_loop t timeout (item # rest) g = Inr (rs, g')"
  obtains prev rs1 where "map_of (receipts g) (fst item) = Some prev"
    "expire_loop t timeout rest (sweep_one t timeout item prev g) = Inr (rs1, g')"
  using assms
  by (cases item) (auto simp: sweep_one_def Let_def split: option.splits if_splits sum.splits)

lemma expire_loop_keeps:
  assumes "expire_loop t timeout items g = Inr (rs, g')" and "map_of (receipts g) a = Some r"
    and "er_status r \<noteq> PENDING"
  shows "map_of (receipts g') a = Some r"
  using assms
proof (induction items arbitrary: g rs)
  case (Cons item items)
  from expire_loop_Cons [OF Cons.prems(1)] obtain prev rs1 where
    p: "map_of (receipts g) (fst item) = Some prev"
    "expire_loop t timeout items (sweep_one t timeout item prev g) = Inr (rs1, g')" by metis
  then have "map_of (receipts (sweep_one t timeout item prev g)) a = Some r"
    using Cons.prems(2,3) by (auto simp: sweep_one_def)
  with Cons.IH [OF p(2)] Cons.prems(3) show ?case by blast
qed simp

lemma expire_loop_settles:
  assumes "expire_loop t timeout items g = Inr (rs, g')" and "(a, b) \<in> set items"
    and "instant b + timeout \<le> instant t"
  shows "\<exists>r. map_of (receipts g') a = Some r \<and> er_status r \<noteq> PENDING"
  using assms
proof (induction items arbitrary: g rs)
  case (Cons item items)
  from expire_loop_Cons [OF Cons.prems(1)] obtain prev rs1 where
    p: "map_of (receipts g) (fst item) = Some prev"
    "expire_loop t timeout items (sweep_one t timeout item prev g) = Inr (rs1, g')" by metis
  show ?case
  proof (cases "item = (a, b)")
    case True
    then have "\<exists>r. map_of (receipts (sweep_one t timeout item prev g)) a = Some r \<and>
        er_status r \<noteq> PENDING"
      using p(1) Cons.prems(3) by (auto simp: sweep_one_def)
    with expire_loop_keeps [OF p(2)] show ?thesis by blast
  next
    case False
    with Cons.IH [OF p(2)] Cons.prems(2,3) show ?thesis by auto
  qed
qed simp

lemma expire_loop_returns:
  "fst ` set items \<subseteq> fst ` set (receipts g) \<Longrightarrow> \<exists>rs g'. expire_loop t timeout items g = Inr (rs, g')"
proof (induction t timeout items g rule: expire_loop.induct)
  case (2 t timeout aid began rest g)
  then obtain prev where prev: "map_of (receipts g) aid = Some prev"
    by (metis fst_conv image_insert insert_subset list.simps(15) map_of_eq_None_iff not_None_eq)
  show ?case
  proof (cases "er_status prev = PENDING \<and> instant began + timeout \<le> instant t")
    case True
    let ?g = "put_receipt g aid (Some (er_status prev)) (sdk_receipt aid UNKNOWN)
                ''evidence_timeout'' t"
    have "fst ` set rest \<subseteq> fst ` set (receipts ?g)" using "2.prems" by auto
    from "2.IH"(1) [OF prev True refl this] True prev show ?thesis by (auto simp: Let_def)
  next
    case False
    have "fst ` set rest \<subseteq> fst ` set (receipts g)" using "2.prems" by simp
    from "2.IH"(2) [OF prev False this] False prev show ?thesis by auto
  qed
qed simp

text \<open>
  the deadline sweep is complete and never fails on a sound gate: with a deadline and an
  aware time it returns, afterwards no started action whose deadline has passed is PENDING, and
  every receipt that was not PENDING is as it was.
\<close>

theorem sweep_leaves_no_overdue_pending:
  assumes "receipts_ok g" and "evidence_timeout g = Some d" and "aware t"
  shows "\<exists>rs g'. expire_unresolved_effects g (Some t) clock = Inr (rs, g') \<and>
     (\<forall>aid began. map_of (receipt_started_at g) aid = Some began \<and>
        instant began + d \<le> instant t \<longrightarrow>
        (\<exists>r. map_of (receipts g') aid = Some r \<and> er_status r \<noteq> PENDING)) \<and>
     (\<forall>aid r. map_of (receipts g) aid = Some r \<and> er_status r \<noteq> PENDING \<longrightarrow>
        map_of (receipts g') aid = Some r)"
proof -
  have "fst ` set (receipt_started_at g) \<subseteq> fst ` set (receipts g)"
    using assms(1) by (simp add: receipts_ok_def)
  from expire_loop_returns [OF this] obtain rs g' where
    e: "expire_loop t d (receipt_started_at g) g = Inr (rs, g')" by blast
  then have "expire_unresolved_effects g (Some t) clock = Inr (rs, g')"
    using assms(2,3) by (simp add: expire_unresolved_effects_def resolve_now_def)
  with expire_loop_settles [OF e] expire_loop_keeps [OF e] show ?thesis
    by (metis map_of_SomeD)
qed

lemma sweep_leaves_no_overdue_pending_witness:
  "\<exists>rs g' r. expire_unresolved_effects (sample_started ! 0) (Some (Aware 20)) 20 = Inr (rs, g') \<and>
     map_of (receipts g') ''x'' = Some r \<and> er_status r \<noteq> PENDING"
proof -
  have g: "receipts_ok (sample_started ! 0)"
    using store_inv_good [OF sample_started_inv(1), of 0] sample_started_inv(2)
    by (simp add: gate_good_def)
  have f: "evidence_timeout (sample_started ! 0) = Some 10"
    "map_of (receipt_started_at (sample_started ! 0)) ''x'' = Some (Aware 6)"
    by (simp_all add: sample_started_def sample_decided_def sample_store_def put_receipt_def
        append_observation_def)
  from sweep_leaves_no_overdue_pending [OF g f(1), of "Aware 20" 20] f(2) show ?thesis by auto
qed

end
