(* ===== verification/Json_Text.thy ===== *)
theory Json_Text
  imports Prelude
begin

text \<open>
  The text the standard library's \<open>json.dumps\<close> writes (ASCII only, as \<open>ensure_ascii\<close> does), with
  the separators and the \<open>sort_keys\<close> option the sources use, and hexadecimal text of bytes. The
  text of a float is a parameter \<open>fr\<close>: \<open>float.__repr__\<close>.
\<close>

section \<open>Decimal and hexadecimal text\<close>

definition digit :: "nat \<Rightarrow> char" where
  "digit n = char_of (48 + n)"

fun nat_text :: "nat \<Rightarrow> string" where
  "nat_text n = (if n < 10 then [digit n] else nat_text (n div 10) @ [digit (n mod 10)])"

declare nat_text.simps [simp del]

definition int_text :: "int \<Rightarrow> string" where
  "int_text i = (if i < 0 then CHR ''-'' # nat_text (nat (- i)) else nat_text (nat i))"

definition hex_digit :: "nat \<Rightarrow> char" where
  "hex_digit n = (if n < 10 then char_of (48 + n) else char_of (87 + n))"

definition hex_value :: "char \<Rightarrow> nat option" where
  "hex_value c = (let n = of_char c in
     if 48 \<le> n \<and> n \<le> 57 then Some (n - 48)
     else if 97 \<le> n \<and> n \<le> (102::nat) then Some (n - 87)
     else if 65 \<le> n \<and> n \<le> 70 then Some (n - 55) else None)"

text \<open>\<open>bytes.hex\<close> and \<open>bytes.fromhex\<close>, which skips white space between bytes.\<close>

definition byte_hex :: "char \<Rightarrow> string" where
  "byte_hex c = [hex_digit (of_char c div 16), hex_digit (of_char c mod 16)]"

definition hex :: "string \<Rightarrow> string" where
  "hex bs = concat (map byte_hex bs)"

definition ascii_space :: "char \<Rightarrow> bool" where
  "ascii_space c = (of_char c \<in> {9, 10, 11, 12, 13, 32 :: nat})"

fun from_hex :: "string \<Rightarrow> string option" where
  "from_hex [] = Some []"
| "from_hex (c # cs) =
     (if ascii_space c then from_hex cs
      else case cs of
        [] \<Rightarrow> None
      | d # ds \<Rightarrow>
          (case (hex_value c, hex_value d) of
             (Some a, Some b) \<Rightarrow> map_option ((#) (char_of (16 * a + b))) (from_hex ds)
           | _ \<Rightarrow> None))"

lemma of_char_less_256 [simp]: "(of_char c :: nat) < 256"
  by (metis nat_of_char_less_256)

lemma hex_value_digit: "n < 16 \<Longrightarrow> hex_value (hex_digit n) = Some n"
  by (auto simp: hex_value_def hex_digit_def Let_def)

lemma hex_digit_not_space: "n < 16 \<Longrightarrow> \<not> ascii_space (hex_digit n)"
  by (auto simp: ascii_space_def hex_digit_def)

lemma from_hex_hex [simp]: "from_hex (hex bs) = Some bs"
proof (induction bs)
  case (Cons c cs)
  have b: "(of_char c :: nat) div 16 < 16" "(of_char c :: nat) mod 16 < 16"
    using of_char_less_256 [of c] by (simp_all add: less_mult_imp_div_less)
  have "hex (c # cs) = byte_hex c @ hex cs" by (simp add: hex_def)
  then show ?case
    using Cons b by (simp add: byte_hex_def hex_digit_not_space hex_value_digit)
qed (simp add: hex_def)

section \<open>Text of JSON values\<close>

text \<open>A character of a JSON string, escaped as \<open>ensure_ascii\<close> does.\<close>

definition escape_char :: "char \<Rightarrow> string" where
  "escape_char c =
     (let n = of_char c in
      if n = (34::nat) then [CHR 92, CHR 34]
      else if n = 92 then [CHR 92, CHR 92]
      else if n = 10 then [CHR 92, CHR ''n'']
      else if n = 13 then [CHR 92, CHR ''r'']
      else if n = 9 then [CHR 92, CHR ''t'']
      else if n = 12 then [CHR 92, CHR ''f'']
      else if n = 8 then [CHR 92, CHR ''b'']
      else if 32 \<le> n \<and> n \<le> 126 then [c]
      else [CHR 92, CHR ''u'', CHR ''0'', CHR ''0''] @ byte_hex c)"

definition quote :: "string \<Rightarrow> string" where
  "quote s = [CHR 34] @ concat (map escape_char s) @ [CHR 34]"

fun join :: "string \<Rightarrow> string list \<Rightarrow> string" where
  "join sep [] = []"
| "join sep [x] = x"
| "join sep (x # y # xs) = x @ sep @ join sep (y # xs)"

fun dumps :: "string \<Rightarrow> string \<Rightarrow> (rat \<Rightarrow> string) \<Rightarrow> json \<Rightarrow> string" where
  "dumps isep ksep fr JNull = ''null''"
| "dumps isep ksep fr (JBool b) = (if b then ''true'' else ''false'')"
| "dumps isep ksep fr (JInt i) = int_text i"
| "dumps isep ksep fr (JFloat r) = fr r"
| "dumps isep ksep fr (JStr s) = quote s"
| "dumps isep ksep fr (JArr xs) = ''['' @ join isep (map (dumps isep ksep fr) xs) @ '']''"
| "dumps isep ksep fr (JObj d) =
     ''{'' @ join isep (map (\<lambda>(k, v). quote k @ ksep @ dumps isep ksep fr v) d) @ ''}''"

text \<open>\<open>sort_keys\<close>: every object sorted by key (the keys of a \<open>dict\<close> are distinct).\<close>

fun sort_keys :: "json \<Rightarrow> json" where
  "sort_keys (JArr xs) = JArr (map sort_keys xs)"
| "sort_keys (JObj d) = JObj (sort_key fst (map (\<lambda>(k, v). (k, sort_keys v)) d))"
| "sort_keys j = j"

text \<open>The compact canonical text of the attestation layer.\<close>

definition canonical_text :: "(rat \<Rightarrow> string) \<Rightarrow> json \<Rightarrow> string" where
  "canonical_text fr j = dumps '','' '':'' fr (sort_keys j)"

section \<open>The text determines the value\<close>

text \<open>One character of a string literal, read back.\<close>

definition unescape :: "string \<Rightarrow> (char \<times> string) option" where
  "unescape s = (case s of
     [] \<Rightarrow> None
   | c # cs \<Rightarrow>
       if of_char c \<noteq> (92::nat) then Some (c, cs)
       else (case cs of
          [] \<Rightarrow> None
        | d # ds \<Rightarrow>
            let n = of_char d in
            if n = (34::nat) \<or> n = 92 then Some (d, ds)
            else if n = 110 then Some (char_of (10::nat), ds)
            else if n = 114 then Some (char_of (13::nat), ds)
            else if n = 116 then Some (char_of (9::nat), ds)
            else if n = 102 then Some (char_of (12::nat), ds)
            else if n = 98 then Some (char_of (8::nat), ds)
            else (case drop 2 ds of
                    a # b # rest \<Rightarrow>
                      (case (hex_value a, hex_value b) of
                         (Some x, Some y) \<Rightarrow> Some (char_of (16 * x + y), rest)
                       | _ \<Rightarrow> None)
                  | _ \<Rightarrow> None)))"

lemma char_eqI: "of_char c = n \<Longrightarrow> c = char_of (n::nat)"
  by auto

lemma hex_char: "hex_value (hex_digit (of_char c div 16)) = Some (of_char c div 16)"
    "hex_value (hex_digit (of_char c mod 16)) = Some (of_char c mod 16)"
  using of_char_less_256 [of c] by (simp_all add: hex_value_digit less_mult_imp_div_less)

lemma char_of_quotes: "char_of (34::nat) = CHR 34" "char_of (92::nat) = CHR 92"
  by code_simp+

lemma unescape_escape: "unescape (escape_char c @ s) = Some (c, s)"
  by (auto simp: escape_char_def unescape_def Let_def byte_hex_def hex_char char_of_quotes
      dest!: char_eqI)

lemma escape_char_start: "escape_char c \<noteq> [] \<and> of_char (hd (escape_char c)) \<noteq> (34::nat)"
  by (auto simp: escape_char_def Let_def)

lemma quoted_unique:
  "concat (map escape_char s) @ CHR 34 # x = concat (map escape_char t) @ CHR 34 # y \<Longrightarrow>
     s = t \<and> x = y"
proof (induction s arbitrary: t)
  case Nil
  show ?case
  proof (cases t)
    case (Cons d ds)
    then show ?thesis using Nil escape_char_start [of d] by (cases "escape_char d") auto
  qed (use Nil in simp)
next
  case (Cons c cs)
  show ?case
  proof (cases t)
    case Nil
    then show ?thesis using Cons.prems escape_char_start [of c] by (cases "escape_char c") auto
  next
    case (Cons d ds)
    let ?u = "concat (map escape_char cs) @ CHR 34 # x"
    let ?v = "concat (map escape_char ds) @ CHR 34 # y"
    from Cons Cons.prems have "escape_char c @ ?u = escape_char d @ ?v" by simp
    then have "Some (c, ?u) = Some (d, ?v)" using unescape_escape by metis
    with Cons.IH [of ds] Cons show ?thesis by simp
  qed
qed

lemma quote_unique: "quote s @ x = quote t @ y \<Longrightarrow> s = t \<and> x = y"
  using quoted_unique [of s x t y] by (simp add: quote_def)

text \<open>Numbers end at the first character that cannot be part of one.\<close>

definition number_char :: "char \<Rightarrow> bool" where
  "number_char c \<longleftrightarrow> c \<in> set ''0123456789+-.eE''"

definition delimited :: "string \<Rightarrow> bool" where
  "delimited x \<longleftrightarrow> (case x of [] \<Rightarrow> True | c # _ \<Rightarrow> c \<in> set '',]}'')"

definition float_text_ok :: "(rat \<Rightarrow> string) \<Rightarrow> bool" where
  "float_text_ok fr \<longleftrightarrow> inj fr \<and> (\<forall>r. fr r \<noteq> [] \<and> list_all number_char (fr r) \<and>
     (\<forall>i. fr r \<noteq> int_text i))"

lemma number_unique:
  assumes "list_all number_char s" and "list_all number_char t" and "delimited x" and "delimited y"
    and "s @ x = t @ y"
  shows "s = t \<and> x = y"
proof -
  have take: "takeWhile number_char (s @ x) = s"
    if "list_all number_char s" "delimited x" for s x
  proof -
    have "takeWhile number_char x = []"
      using that(2) by (cases x) (auto simp: delimited_def number_char_def)
    with that(1) show ?thesis by (simp add: takeWhile_append2 list_all_iff)
  qed
  from take [OF assms(1,3)] take [OF assms(2,4)] assms(5) have "s = t" by metis
  with assms(5) show ?thesis by simp
qed

lemma digit_number: "n < 10 \<Longrightarrow> number_char (digit n)"
proof -
  have "\<forall>n<10. number_char (digit n)" unfolding number_char_def digit_def by code_simp
  then show "n < 10 \<Longrightarrow> number_char (digit n)" by blast
qed

lemma digit_eq [simp]: "a < 10 \<Longrightarrow> b < 10 \<Longrightarrow> digit a = digit b \<longleftrightarrow> a = b"
  by (auto simp: digit_def dest: arg_cong [where f = of_char])

lemma nat_text_number: "list_all number_char (nat_text n) \<and> nat_text n \<noteq> []"
proof (induction n rule: nat_text.induct)
  case (1 n)
  then show ?case
    by (cases "n < 10"; subst (1 2) nat_text.simps) (auto simp: digit_number)
qed

lemma nat_text_inj: "nat_text m = nat_text n \<Longrightarrow> m = n"
proof (induction m arbitrary: n rule: nat_text.induct)
  case (1 m)
  note ne = nat_text_number [THEN conjunct2]
  show ?case
  proof (cases "m < 10")
    case True
    then show ?thesis
      using "1.prems" ne [of "n div 10"]
      by (subst (asm) (1 2) nat_text.simps) (auto split: if_splits)
  next
    case False
    then have "nat_text m = nat_text (m div 10) @ [digit (m mod 10)]"
      by (subst nat_text.simps) simp
    moreover have "\<not> n < 10"
      using "1.prems" False ne [of "m div 10"]
      by (subst (asm) (1 2) nat_text.simps) (auto split: if_splits)
    moreover from this have "nat_text n = nat_text (n div 10) @ [digit (n mod 10)]"
      by (subst nat_text.simps) simp
    ultimately have "nat_text (m div 10) = nat_text (n div 10)" "m mod 10 = n mod 10"
      using "1.prems" by auto
    with "1.IH" [OF False] show ?thesis by (metis div_mod_decomp)
  qed
qed

lemma nat_text_no_minus: "CHR ''-'' \<notin> set (nat_text n)"
proof (induction n rule: nat_text.induct)
  case (1 n)
  have d: "digit k \<noteq> CHR ''-''" if "k < 10" for k
  proof
    assume "digit k = CHR ''-''"
    then have "(of_char (digit k) :: nat) = of_char (CHR ''-'')" by simp
    with that show False by (simp add: digit_def)
  qed
  show ?case using 1 d [of n] d [of "n mod 10"] by (subst nat_text.simps) auto
qed

lemma int_text_number: "list_all number_char (int_text i) \<and> int_text i \<noteq> []"
  using nat_text_number by (auto simp: int_text_def number_char_def)

lemma int_text_inj: "int_text i = int_text j \<Longrightarrow> i = j"
proof -
  assume e: "int_text i = int_text j"
  have n: "nat_text k \<noteq> CHR ''-'' # s" for k s using nat_text_no_minus [of k] by auto
  from e n n [symmetric] show "i = j"
    by (auto simp: int_text_def dest!: nat_text_inj split: if_splits)
qed

text \<open>Comma-separated items with a closing bracket.\<close>

lemma join_Cons: "join sep (x # xs) = x @ (if xs = [] then [] else sep @ join sep xs)"
  by (cases xs) simp_all

definition reads :: "('a \<Rightarrow> string) \<Rightarrow> 'a \<Rightarrow> bool" where
  "reads f a \<longleftrightarrow> (\<forall>b x y. delimited x \<longrightarrow> delimited y \<longrightarrow> f a @ x = f b @ y \<longrightarrow> a = b \<and> x = y)"

lemma readsD:
  "reads f a \<Longrightarrow> f a @ x = f b @ y \<Longrightarrow> delimited x \<Longrightarrow> delimited y \<Longrightarrow> a = b \<and> x = y"
  unfolding reads_def by blast

lemma items_unique:
  assumes "\<forall>a \<in> set as. reads f a" and "\<forall>a. \<exists>c r. f a = c # r \<and> c \<noteq> e"
    and "e \<in> set '']}''" and "join '','' (map f as) @ e # x = join '','' (map f bs) @ e # y"
  shows "as = bs \<and> x = y"
  using assms(1,4)
proof (induction as arbitrary: bs)
  case Nil
  then show ?case
    using assms(2) by (cases bs) (auto simp: join_Cons, metis list.inject append_Cons)
next
  case (Cons a as)
  have e: "delimited (e # z)" "e \<noteq> CHR '',''" for z
    using assms(3) by (auto simp: delimited_def)
  have c: "delimited (CHR '','' # z)" for z by (simp add: delimited_def)
  show ?case
  proof (cases bs)
    case Nil
    then show ?thesis
      using Cons.prems(2) assms(2) by (auto simp: join_Cons) (metis list.inject append_Cons)+
  next
    case bs: (Cons b bs')
    define u where "u = (if as = [] then e # x else CHR '','' # join '','' (map f as) @ e # x)"
    define v where "v = (if bs' = [] then e # y else CHR '','' # join '','' (map f bs') @ e # y)"
    have "f a @ u = f b @ v"
      using Cons.prems(2) bs by (simp add: join_Cons u_def v_def split: if_splits)
    moreover have "delimited u" "delimited v" using e c by (simp_all add: u_def v_def)
    ultimately have ab: "a = b" "u = v"
      using readsD [of f a u b v] Cons.prems(1) by auto
    show ?thesis
    proof (cases "as = [] \<or> bs' = []")
      case True
      with ab(2) e(2) show ?thesis
        unfolding bs u_def v_def ab(1) by (auto split: if_splits)
    next
      case False
      with ab(2) have "join '','' (map f as) @ e # x = join '','' (map f bs') @ e # y"
        by (simp add: u_def v_def)
      with Cons.IH [of bs'] Cons.prems(1) ab(1) bs show ?thesis by simp
    qed
  qed
qed

abbreviation compact :: "(rat \<Rightarrow> string) \<Rightarrow> json \<Rightarrow> string" where
  "compact \<equiv> dumps '','' '':''"

abbreviation member_text :: "(rat \<Rightarrow> string) \<Rightarrow> string \<times> json \<Rightarrow> string" where
  "member_text fr \<equiv> (\<lambda>(k, v). quote k @ '':'' @ compact fr v)"

fun head_chars :: "json \<Rightarrow> char set" where
  "head_chars JNull = {CHR ''n''}"
| "head_chars (JBool b) = {if b then CHR ''t'' else CHR ''f''}"
| "head_chars (JStr s) = {CHR 34}"
| "head_chars (JArr xs) = {CHR ''[''}"
| "head_chars (JObj d) = {CHR ''{''}"
| "head_chars _ = set ''0123456789+-.eE''"

lemma number_head: "list_all number_char s \<Longrightarrow> s \<noteq> [] \<Longrightarrow> hd s \<in> set ''0123456789+-.eE''"
  by (cases s) (simp_all add: number_char_def)

lemma compact_head:
  assumes "float_text_ok fr"
  shows "compact fr j \<noteq> [] \<and> hd (compact fr j) \<in> head_chars j"
  using assms number_head [OF int_text_number [THEN conjunct1] int_text_number [THEN conjunct2]]
    int_text_number number_head
  by (cases j) (auto simp: float_text_ok_def quote_def)

lemma compact_head_eq:
  assumes "float_text_ok fr" and "compact fr a @ x = compact fr b @ y"
  shows "\<exists>c. c \<in> head_chars a \<and> c \<in> head_chars b"
  using compact_head [OF assms(1), of a] compact_head [OF assms(1), of b] assms(2)
  by (metis hd_append2)

lemma reads_number:
  assumes fr: "float_text_ok fr" and "a = JInt i \<or> a = JFloat r"
  shows "reads (compact fr) a"
  unfolding reads_def
proof (intro allI impI)
  fix b x y
  assume d: "delimited x" "delimited y" and e: "compact fr a @ x = compact fr b @ y"
  from compact_head_eq [OF fr e] assms(2) have "(\<exists>j. b = JInt j) \<or> (\<exists>q. b = JFloat q)"
    by (cases b) (auto split: if_splits)
  moreover have "list_all number_char (compact fr a)"
    using assms int_text_number by (auto simp: float_text_ok_def)
  moreover from calculation have "list_all number_char (compact fr b)"
    using fr int_text_number by (auto simp: float_text_ok_def)
  ultimately have "compact fr a = compact fr b \<and> x = y \<and> ((\<exists>j. b = JInt j) \<or> (\<exists>q. b = JFloat q))"
    using number_unique d e by blast
  with assms show "a = b \<and> x = y"
    by (auto simp: float_text_ok_def dest: int_text_inj injD) (metis)
qed

theorem compact_unique:
  assumes fr: "float_text_ok fr"
  shows "reads (compact fr) a"
proof (induction a)
  case (JArr xs)
  then have xs: "\<forall>a \<in> set xs. reads (compact fr) a" by simp
  have ne: "\<forall>a. \<exists>c r. compact fr a = c # r \<and> c \<noteq> CHR '']''"
  proof
    fix a show "\<exists>c r. compact fr a = c # r \<and> c \<noteq> CHR '']''"
      using compact_head [OF fr, of a] by (cases "compact fr a"; cases a) auto
  qed
  show ?case
    unfolding reads_def
  proof (intro allI impI)
    fix b x y assume e: "compact fr (JArr xs) @ x = compact fr b @ y"
    from compact_head_eq [OF fr e] obtain ys where b: "b = JArr ys"
      by (cases b) (auto split: if_splits)
    with items_unique [OF xs ne, of x ys y] e show "JArr xs = b \<and> x = y" by simp
  qed
next
  case (JObj d)
  have d: "\<forall>kv \<in> set d. reads (member_text fr) kv"
  proof
    fix kv assume "kv \<in> set d"
    moreover obtain k v where "kv = (k, v)" by (cases kv)
    ultimately have v: "reads (compact fr) (snd kv)" using JObj [of "(k, v)" v] by simp
    show "reads (member_text fr) kv"
      unfolding reads_def
    proof (intro allI impI)
      fix b x y
      assume dl: "delimited x" "delimited y" and e: "member_text fr kv @ x = member_text fr b @ y"
      from e have "quote (fst kv) @ '':'' @ compact fr (snd kv) @ x =
          quote (fst b) @ '':'' @ compact fr (snd b) @ y" by (simp add: case_prod_beta')
      from quote_unique [OF this] readsD [OF v _ dl, of "snd b"] show "kv = b \<and> x = y"
        by (simp add: prod_eq_iff)
    qed
  qed
  have ne: "\<forall>kv. \<exists>c r. member_text fr kv = c # r \<and> c \<noteq> CHR ''}''"
    by (simp add: quote_def case_prod_beta')
  show ?case
    unfolding reads_def
  proof (intro allI impI)
    fix b x y assume e: "compact fr (JObj d) @ x = compact fr b @ y"
    from compact_head_eq [OF fr e] obtain d' where b: "b = JObj d'"
      by (cases b) (auto split: if_splits)
    with items_unique [OF d ne, of x d' y] e show "JObj d = b \<and> x = y" by simp
  qed
next
  case (JStr s)
  show ?case
    unfolding reads_def
  proof (intro allI impI)
    fix b x y assume e: "compact fr (JStr s) @ x = compact fr b @ y"
    from compact_head_eq [OF fr e] obtain t where b: "b = JStr t"
      by (cases b) (auto split: if_splits)
    with quote_unique [of s x t y] e show "JStr s = b \<and> x = y" by simp
  qed
next
  case (JBool u)
  show ?case
    unfolding reads_def
  proof (intro allI impI)
    fix b x y assume e: "compact fr (JBool u) @ x = compact fr b @ y"
    from compact_head_eq [OF fr e] have b: "b = JBool u" by (cases b; cases u) (auto split: if_splits)
    with e show "JBool u = b \<and> x = y" by simp
  qed
next
  case JNull
  show ?case
    unfolding reads_def
  proof (intro allI impI)
    fix b x y assume e: "compact fr JNull @ x = compact fr b @ y"
    from compact_head_eq [OF fr e] have b: "b = JNull" by (cases b) (auto split: if_splits)
    with e show "JNull = b \<and> x = y" by simp
  qed
qed (use reads_number [OF fr] in blast)+

lemma canonical_text_unique:
  "float_text_ok fr \<Longrightarrow> canonical_text fr a = canonical_text fr b \<Longrightarrow> sort_keys a = sort_keys b"
  using readsD [OF compact_unique, of fr "sort_keys a" "[]" "sort_keys b" "[]"]
  by (simp add: canonical_text_def delimited_def)

text \<open>A float text with these properties exists: numerator, \<open>e\<close>, denominator.\<close>

definition fraction_text :: "rat \<Rightarrow> string" where
  "fraction_text r = (let (a, b) = quotient_of r in int_text a @ ''e'' @ int_text b)"

lemma e_not_in_nat_text: "CHR ''e'' \<notin> set (nat_text n)"
proof (induction n rule: nat_text.induct)
  case (1 n)
  have d: "digit k \<noteq> CHR ''e''" if "k < 10" for k
  proof
    assume "digit k = CHR ''e''"
    then have "(of_char (digit k) :: nat) = of_char (CHR ''e'')" by simp
    with that show False by (simp add: digit_def)
  qed
  show ?case using 1 d [of n] d [of "n mod 10"] by (subst nat_text.simps) auto
qed

lemma fraction_text_ok: "float_text_ok fraction_text"
proof -
  have no_e: "CHR ''e'' \<notin> set (int_text i)" for i
    using e_not_in_nat_text by (auto simp: int_text_def)
  have "inj fraction_text"
  proof (rule injI)
    fix r q assume "fraction_text r = fraction_text q"
    then have "int_text (fst (quotient_of r)) @ CHR ''e'' # int_text (snd (quotient_of r)) =
        int_text (fst (quotient_of q)) @ CHR ''e'' # int_text (snd (quotient_of q))"
      by (simp add: fraction_text_def Let_def case_prod_beta')
    then have "quotient_of r = quotient_of q"
      using split1_append [OF no_e] by (metis int_text_inj prod.inject prod_eq_iff)
    then show "r = q" by (metis quotient_of_inject)
  qed
  moreover have "fraction_text r \<noteq> int_text i" for r i
  proof
    assume "fraction_text r = int_text i"
    then have "CHR ''e'' \<in> set (int_text i)"
      unfolding fraction_text_def by (metis (no_types) append_Cons in_set_conv_decomp case_prod_beta' append_Nil)
    with no_e show False by blast
  qed
  moreover have "fraction_text r \<noteq> [] \<and> list_all number_char (fraction_text r)" for r
    using int_text_number by (auto simp: fraction_text_def Let_def case_prod_beta' number_char_def)
  ultimately show ?thesis by (simp add: float_text_ok_def)
qed

end
