(* ===== verification/Gateway.thy ===== *)
theory Gateway
  imports Gate_Properties Json_Text
begin

text \<open>
  The host-owned gateway (sdk/gateway.py) that binds the mandate's identity and a registry of
  executors to a gate, and the boundary for MCP tool calls (sdk/mcp_boundary.py). Arguments are
  Python values: the snapshot rejects everything that is not JSON.
\<close>

section \<open>Python arguments and their snapshot\<close>

datatype pykey = StrKey string | OtherKey

datatype pyval =
    PNone
  | PBool bool
  | PInt int
  | PFloat rat
  | PNonFinite
  | PStr string
  | PList "pyval list"
  | PDict "(pykey \<times> pyval) list"
  | PObject

text \<open>The keys \<open>isinstance(key, str) and key\<close> accepts.\<close>

fun good_key :: "pykey \<Rightarrow> bool" where
  "good_key (StrKey k) = (k \<noteq> [])"
| "good_key OtherKey = False"

text \<open>
  The walk of \<open>_snapshot_arguments\<close> over its \<open>pending\<close> stack (the head of the list is the top:
  \<open>extend\<close> pushes in order and \<open>pop\<close> takes the last). \<open>None\<close>: the loop ended.
\<close>

fun weight :: "pyval \<Rightarrow> nat" where
  "weight (PList xs) = Suc (sum_list (map weight xs))"
| "weight (PDict d) = Suc (sum_list (map (\<lambda>(k, v). weight v) d))"
| "weight _ = 1"

function walk :: "pyval list \<Rightarrow> exn option" where
  "walk [] = None"
| "walk (item # pending) =
     (case item of
        PDict d \<Rightarrow>
          if \<not> list_all (\<lambda>kv. good_key (fst kv)) d
          then Some (ValueError ''argument keys must be nonempty strings'')
          else walk (rev (map snd d) @ pending)
      | PList xs \<Rightarrow> walk (rev xs @ pending)
      | PObject \<Rightarrow> Some (ValueError ''tool arguments must be JSON objects, arrays or scalars'')
      | _ \<Rightarrow> walk pending)"
  by pat_completeness auto
termination
  by (relation "measure (\<lambda>s. sum_list (map weight s))")
    (auto simp: rev_map [symmetric] sum_list_rev case_prod_beta' comp_def)

text \<open>What \<open>json.dumps\<close> and \<open>json.loads\<close> make of a value: \<open>None\<close> if it cannot be encoded.\<close>

fun all_some :: "'a option list \<Rightarrow> 'a list option" where
  "all_some [] = Some []"
| "all_some (None # xs) = None"
| "all_some (Some x # xs) = map_option ((#) x) (all_some xs)"

fun key_text :: "pykey \<Rightarrow> string option" where
  "key_text (StrKey k) = Some k"
| "key_text OtherKey = None"

fun encode :: "pyval \<Rightarrow> json option" where
  "encode PNone = Some JNull"
| "encode (PBool b) = Some (JBool b)"
| "encode (PInt i) = Some (JInt i)"
| "encode (PFloat r) = Some (JFloat r)"
| "encode PNonFinite = None"
| "encode (PStr s) = Some (JStr s)"
| "encode (PList xs) = map_option JArr (all_some (map encode xs))"
| "encode (PDict d) = map_option JObj (all_some (map (\<lambda>(k, v).
     case (key_text k, encode v) of (Some t, Some j) \<Rightarrow> Some (t, j) | _ \<Rightarrow> None) d))"
| "encode PObject = None"

definition MAX_GATEWAY_ARGUMENT_BYTES :: nat where
  "MAX_GATEWAY_ARGUMENT_BYTES = 65536"

definition snapshot_arguments :: "(rat \<Rightarrow> string) \<Rightarrow> pyval \<Rightarrow> exn + args" where
  "snapshot_arguments fr arguments =
     (case arguments of
        PDict d \<Rightarrow>
          (case walk [arguments] of
             Some e \<Rightarrow> Inl e
           | None \<Rightarrow>
               (case encode arguments of
                  None \<Rightarrow> Inl (ValueError ''tool arguments must be finite JSON values'')
                | Some j \<Rightarrow>
                    if MAX_GATEWAY_ARGUMENT_BYTES < length (dumps '', '' '': '' fr j)
                    then Inl (ValueError ''tool arguments exceed gateway size limit'')
                    else (case j of
                            JObj decoded \<Rightarrow> Inr decoded
                          | _ \<Rightarrow> Inl (ValueError ''arguments must encode to a JSON object''))))
      | _ \<Rightarrow> Inl (TypeError ''arguments must be a mapping''))"

section \<open>The gateway\<close>

record ('w, 'r) gateway_tool =
  gt_authority :: tool_authority
  gt_executor :: "('w, 'r) executor"
  gt_async_call :: bool

record ('w, 'r) gateway =
  gw_gate :: nat
  gw_bindings :: "(string, ('w, 'r) gateway_tool) dict"

definition async_executor :: "('w, 'r) gateway_tool \<Rightarrow> bool" where
  "async_executor b \<longleftrightarrow> ex_coroutine (gt_executor b) \<or> gt_async_call b"

definition new_gateway ::
  "heap \<Rightarrow> task_mandate \<Rightarrow> (string, ('w, 'r) gateway_tool) dict \<Rightarrow> trust_policy option
     \<Rightarrow> int option \<Rightarrow> int \<Rightarrow> exn + ('w, 'r) gateway \<times> heap" where
  "new_gateway h m ts tbp timeout max_depth =
     (if \<not> str_set (tm_run_id m)
      then Inl (ValueError ''gateway requires a trusted run-bound TaskMandate'')
      else if \<not> list_all (\<lambda>p. nonblank (fst p)) ts
      then Inl (ValueError ''tool names must be nonempty'')
      else case new_root_gate h m (map (\<lambda>p. (fst p, gt_authority (snd p))) ts)
                  tbp max_depth timeout of
        Inl e \<Rightarrow> Inl e
      | Inr (i, h') \<Rightarrow> Inr (\<lparr>gw_gate = i, gw_bindings = ts\<rparr>, h'))"

definition delegate_gateway ::
  "heap \<Rightarrow> ('w, 'r) gateway \<Rightarrow> delegation \<Rightarrow> host \<Rightarrow> exn + ('w, 'r) gateway \<times> heap" where
  "delegate_gateway h gw d hs =
     (case delegate h (gw_gate gw) d hs of
        Inl e \<Rightarrow> Inl e
      | Inr (c, h') \<Rightarrow>
          let allowed = tm_allowed_tools (mandate (h' ! c)) in
          if \<not> fset allowed \<subseteq> set (dict_keys (gw_bindings gw))
          then Inl (KeyError ''allowed_tools'')
          else Inr (\<lparr>gw_gate = c,
                     gw_bindings = filter (\<lambda>p. fst p |\<in>| allowed) (gw_bindings gw)\<rparr>, h'))"

text \<open>The request the gateway builds: identity from the mandate, the rest from the caller.\<close>

definition gateway_request ::
  "heap \<Rightarrow> ('w, 'r) gateway \<Rightarrow> string \<Rightarrow> args \<Rightarrow> string option \<Rightarrow> datetime option
     \<Rightarrow> action_provenance option \<Rightarrow> request" where
  "gateway_request h gw tool arguments aid now prov =
     (let m = mandate (h ! gw_gate gw) in
      \<lparr>rq_agent_id = tm_agent_id m,
       rq_run_id = (case tm_run_id m of None \<Rightarrow> [] | Some r \<Rightarrow> r),
       rq_tool_name = tool, rq_arguments = arguments, rq_action_id = aid, rq_now = now,
       rq_provenance = prov\<rparr>)"

definition binding_or_deny ::
  "heap \<Rightarrow> ('w, 'r) gateway \<Rightarrow> request \<Rightarrow> host \<Rightarrow> gate_exn \<times> heap + ('w, 'r) gateway_tool" where
  "binding_or_deny h gw rq hs =
     (if \<not> nonblank (rq_tool_name rq)
      then Inl (Raised (ValueError ''tool_name must be nonempty''), h)
      else case map_of (gw_bindings gw) (rq_tool_name rq) of
        Some b \<Rightarrow> Inr b
      | None \<Rightarrow>
          (case check h (gw_gate gw) rq hs of
             Inl e \<Rightarrow> Inl (Raised e, h)
           | Inr (v, h') \<Rightarrow> Inl (AuthorizationDenied v, h')))"

text \<open>The keyword-only arguments of a call.\<close>

record call_options =
  co_action_id :: "string option"
  co_now :: "datetime option"
  co_provenance :: "action_provenance option"

definition options_request ::
  "heap \<Rightarrow> ('w, 'r) gateway \<Rightarrow> string \<Rightarrow> args \<Rightarrow> call_options \<Rightarrow> request" where
  "options_request h gw tool arguments co =
     gateway_request h gw tool arguments (co_action_id co) (co_now co) (co_provenance co)"

definition gateway_invoke ::
  "(rat \<Rightarrow> string) \<Rightarrow> heap \<Rightarrow> 'w \<Rightarrow> ('w, 'r) gateway \<Rightarrow> string \<Rightarrow> pyval \<Rightarrow> call_options
     \<Rightarrow> clocks \<Rightarrow> string \<Rightarrow> ('w, 'r) run_result" where
  "gateway_invoke fr h w gw tool arguments co ck uuid =
     (case snapshot_arguments fr arguments of
        Inl e \<Rightarrow> (Inl (Raised e), h, w)
      | Inr copied \<Rightarrow>
          let rq = options_request h gw tool copied co in
          (case binding_or_deny h gw rq \<lparr>utc = ck_check ck, fresh = uuid\<rparr> of
             Inl (e, h') \<Rightarrow> (Inl e, h', w)
           | Inr b \<Rightarrow>
               if async_executor b
               then (Inl (Raised (TypeError ''async executor requires ainvoke'')), h, w)
               else invoke h w (gw_gate gw) rq (gt_executor b) ck uuid))"

definition gateway_ainvoke ::
  "(rat \<Rightarrow> string) \<Rightarrow> heap \<Rightarrow> 'w \<Rightarrow> ('w, 'r) gateway \<Rightarrow> string \<Rightarrow> pyval \<Rightarrow> call_options
     \<Rightarrow> clocks \<Rightarrow> string \<Rightarrow> ('w, 'r) run_result" where
  "gateway_ainvoke fr h w gw tool arguments co ck uuid =
     (case snapshot_arguments fr arguments of
        Inl e \<Rightarrow> (Inl (Raised e), h, w)
      | Inr copied \<Rightarrow>
          let rq = options_request h gw tool copied co in
          (case binding_or_deny h gw rq \<lparr>utc = ck_check ck, fresh = uuid\<rparr> of
             Inl (e, h') \<Rightarrow> (Inl e, h', w)
           | Inr b \<Rightarrow> ainvoke h w (gw_gate gw) rq (gt_executor b) ck uuid))"

section \<open>The MCP boundary\<close>

text \<open>\<open>MCPToolBoundary.call_tool\<close>; \<open>MCPToolCallError\<close> is a \<open>ValueError\<close>.\<close>

definition param :: "string \<Rightarrow> (pykey \<times> pyval) list \<Rightarrow> pyval option" where
  "param k d = map_of d (StrKey k)"

definition call_tool ::
  "(rat \<Rightarrow> string) \<Rightarrow> heap \<Rightarrow> 'w \<Rightarrow> ('w, 'r) gateway \<Rightarrow> pyval \<Rightarrow> call_options \<Rightarrow> clocks \<Rightarrow> string
     \<Rightarrow> ('w, 'r) run_result" where
  "call_tool fr h w gw params co ck uuid =
     (case params of
        PDict d \<Rightarrow>
          if \<not> fst ` set d \<subseteq> {StrKey ''name'', StrKey ''arguments''}
          then (Inl (Raised (ValueError ''unexpected tools/call parameter'')), h, w)
          else (case param ''name'' d of
            Some (PStr name) \<Rightarrow>
              if \<not> nonblank name \<or> 256 < length name
              then (Inl (Raised (ValueError ''tools/call name must be a valid string'')), h, w)
              else let arguments = (case param ''arguments'' d of None \<Rightarrow> PDict [] | Some a \<Rightarrow> a) in
                (case arguments of
                   PDict _ \<Rightarrow> gateway_ainvoke fr h w gw name arguments co ck uuid
                 | _ \<Rightarrow> (Inl (Raised (ValueError ''tools/call arguments must be an object'')), h, w))
          | _ \<Rightarrow> (Inl (Raised (ValueError ''tools/call name must be a valid string'')), h, w))
      | _ \<Rightarrow> (Inl (Raised (ValueError ''tools/call params must be an object'')), h, w))"

section \<open>What the snapshot accepts\<close>

text \<open>A structural description of the values the walk and the encoder accept.\<close>

fun shape_ok :: "pyval \<Rightarrow> bool" where
  "shape_ok PObject = False"
| "shape_ok (PList xs) = list_all shape_ok xs"
| "shape_ok (PDict d) = list_all (\<lambda>(k, v). good_key k \<and> shape_ok v) d"
| "shape_ok _ = True"

fun finite_value :: "pyval \<Rightarrow> bool" where
  "finite_value PNonFinite = False"
| "finite_value (PList xs) = list_all finite_value xs"
| "finite_value (PDict d) = list_all (\<lambda>(k, v). finite_value v) d"
| "finite_value _ = True"

lemma walk_None_iff: "walk s = None \<longleftrightarrow> list_all shape_ok s"
proof (induction s rule: walk.induct)
  case (2 item pending)
  show ?case
  proof (cases item)
    case (PList xs)
    with "2.IH" show ?thesis by (simp add: list_all_append list_all_rev)
  next
    case (PDict d)
    have "list_all shape_ok (map snd d) \<longleftrightarrow> list_all (\<lambda>(k, v). shape_ok v) d"
      by (simp add: list.pred_map comp_def case_prod_beta')
    moreover have "list_all (\<lambda>(k, v). good_key k \<and> shape_ok v) d \<longleftrightarrow>
        list_all (\<lambda>kv. good_key (fst kv)) d \<and> list_all (\<lambda>(k, v). shape_ok v) d"
      by (induction d) auto
    ultimately show ?thesis
      using "2.IH" PDict by (simp add: list_all_append list_all_rev del: list.pred_map)
  qed (use "2.IH" in simp_all)
qed simp

lemma walk_error: "walk s = Some e \<Longrightarrow> \<exists>m. e = ValueError m"
  by (induction s rule: walk.induct) (auto split: pyval.splits if_splits)

lemma all_some_iff: "(\<exists>ys. all_some xs = Some ys) \<longleftrightarrow> None \<notin> set xs"
  by (induction xs rule: all_some.induct) auto

lemma good_key_text: "good_key k \<Longrightarrow> \<exists>t. k = StrKey t \<and> key_text k = Some t \<and> t \<noteq> []"
  by (cases k) auto

lemma encode_defined: "shape_ok v \<Longrightarrow> (\<exists>j. encode v = Some j) \<longleftrightarrow> finite_value v"
proof (induction v)
  case (PList xs)
  then have "None \<notin> set (map encode xs) \<longleftrightarrow> list_all finite_value xs"
    by (induction xs) (auto, (metis not_None_eq)+)
  with all_some_iff [of "map encode xs"] show ?case by auto
next
  case (PDict d)
  let ?f = "\<lambda>(k, v). case (key_text k, encode v) of (Some t, Some j) \<Rightarrow> Some (t, j) | _ \<Rightarrow> None"
  have "?f kv \<noteq> None \<longleftrightarrow> finite_value (snd kv)" if kv: "kv \<in> set d" for kv
  proof -
    obtain k v where v: "kv = (k, v)" by (cases kv)
    with kv PDict.prems have ok: "good_key k" "shape_ok v" by (auto simp: list_all_iff)
    with PDict.IH [of "(k, v)" v] kv v have "(\<exists>j. encode v = Some j) \<longleftrightarrow> finite_value v"
      by simp
    with good_key_text [OF ok(1)] v show ?thesis by (auto split: option.splits)
  qed
  then have "None \<notin> set (map ?f d) \<longleftrightarrow> list_all (\<lambda>(k, v). finite_value v) d"
    unfolding list_all_iff set_map by (metis (no_types, lifting) case_prod_beta' image_iff)
  with all_some_iff [of "map ?f d"] show ?case by auto
qed auto

lemma encode_PDict: "encode (PDict d) = Some j \<Longrightarrow> \<exists>ob. j = JObj ob"
  by auto

text \<open>
  the argument snapshot is exactly the JSON objects within the size limit: it returns for a
  mapping whose keys are all nonempty strings, that holds only JSON values, all finite, and
  whose text is at most the limit; it returns then the decoded object; otherwise it raises a
  \<open>ValueError\<close>, or a \<open>TypeError\<close> for something that is not a mapping.
\<close>

theorem snapshot_exactly_json:
  "(case snapshot_arguments fr v of
      Inr ob \<Rightarrow> (\<exists>d. v = PDict d) \<and> shape_ok v \<and> finite_value v \<and> encode v = Some (JObj ob) \<and>
        length (dumps '', '' '': '' fr (JObj ob)) \<le> MAX_GATEWAY_ARGUMENT_BYTES
    | Inl e \<Rightarrow>
        if \<exists>d. v = PDict d
        then (\<exists>m. e = ValueError m) \<and> \<not> (shape_ok v \<and> finite_value v \<and>
          (\<exists>j. encode v = Some j \<and>
             length (dumps '', '' '': '' fr j) \<le> MAX_GATEWAY_ARGUMENT_BYTES))
        else (\<exists>m. e = TypeError m))"
proof (cases v)
  case (PDict d)
  show ?thesis
  proof (cases "walk [v]")
    case None
    then have ok: "shape_ok v" using walk_None_iff [of "[v]"] by simp
    show ?thesis
    proof (cases "encode v")
      case None
      with \<open>walk [v] = None\<close> ok encode_defined [OF ok] PDict show ?thesis
        by (simp add: snapshot_arguments_def)
    next
      case (Some j)
      with encode_PDict PDict obtain o' where "j = JObj o'" by blast
      with Some \<open>walk [v] = None\<close> ok encode_defined [OF ok] PDict show ?thesis
        by (simp add: snapshot_arguments_def)
    qed
  next
    case (Some e)
    then have "\<not> shape_ok v" using walk_None_iff [of "[v]"] by auto
    with Some walk_error [OF Some] PDict show ?thesis by (auto simp: snapshot_arguments_def)
  qed
qed (simp_all add: snapshot_arguments_def)

section \<open>What the gateway executes\<close>

text \<open>
  The gateway's registry mirrors its gate: same names, and the gate's declarations are the
  registry's. The mandate is run-bound.
\<close>

definition gateway_ok :: "heap \<Rightarrow> ('w, 'r) gateway \<Rightarrow> bool" where
  "gateway_ok h gw \<longleftrightarrow> gw_gate gw < length h \<and>
     (\<forall>name. map_of (tools (h ! gw_gate gw)) name =
        map_option gt_authority (map_of (gw_bindings gw) name)) \<and>
     str_set (tm_run_id (mandate (h ! gw_gate gw)))"

lemma map_of_map_snd: "map_of (map (\<lambda>p. (fst p, f (snd p))) d) k = map_option f (map_of d k)"
  by (induction d) auto

lemma invoke_runs_authorised:
  assumes "invoke h w i rq ex ck uuid = (res, h', w')" and "w' \<noteq> w \<or> (\<exists>ae. res = Inr ae)"
  shows "authorised h i rq (resolve_now (rq_now rq) (ck_check ck))
           (request_id rq \<lparr>utc = ck_check ck, fresh = uuid\<rparr>)"
  using assms by (cases rule: invoke_cases) (auto simp: exn_simps)

lemma ainvoke_runs_authorised:
  assumes "ainvoke h w i rq ex ck uuid = (res, h', w')" and "w' \<noteq> w \<or> (\<exists>ae. res = Inr ae)"
  shows "authorised h i rq (resolve_now (rq_now rq) (ck_check ck))
           (request_id rq \<lparr>utc = ck_check ck, fresh = uuid\<rparr>)"
  using assms by (cases rule: ainvoke_cases) (auto simp: exn_simps)

lemma gateway_invoke_runs:
  assumes "gateway_invoke fr h w gw tool v co ck uuid = (res, h', w')"
    and "w' \<noteq> w \<or> (\<exists>ae. res = Inr ae)"
  obtains copied b where "snapshot_arguments fr v = Inr copied" "nonblank tool"
    "map_of (gw_bindings gw) tool = Some b" "\<not> async_executor b"
    "invoke h w (gw_gate gw) (options_request h gw tool copied co) (gt_executor b) ck uuid
       = (res, h', w')"
  using assms
  by (auto simp: gateway_invoke_def binding_or_deny_def Let_def options_request_def
      gateway_request_def split: sum.splits if_splits option.splits)

lemma gateway_ainvoke_runs:
  assumes "gateway_ainvoke fr h w gw tool v co ck uuid = (res, h', w')"
    and "w' \<noteq> w \<or> (\<exists>ae. res = Inr ae)"
  obtains copied b where "snapshot_arguments fr v = Inr copied" "nonblank tool"
    "map_of (gw_bindings gw) tool = Some b"
    "ainvoke h w (gw_gate gw) (options_request h gw tool copied co) (gt_executor b) ck uuid
       = (res, h', w')"
  using assms
  by (auto simp: gateway_ainvoke_def binding_or_deny_def Let_def options_request_def
      gateway_request_def split: sum.splits if_splits option.splits)

lemma call_tool_runs:
  assumes "call_tool fr h w gw params co ck uuid = (res, h', w')"
    and "w' \<noteq> w \<or> (\<exists>ae. res = Inr ae)"
  obtains d name a where "params = PDict d" "param ''name'' d = Some (PStr name)"
    "fst ` set d \<subseteq> {StrKey ''name'', StrKey ''arguments''}" "nonblank name" "length name \<le> 256"
    "(case param ''arguments'' d of None \<Rightarrow> PDict [] | Some v \<Rightarrow> v) = PDict a"
    "gateway_ainvoke fr h w gw name (PDict a) co ck uuid = (res, h', w')"
  using assms
  by (auto simp: call_tool_def Let_def split: pyval.splits if_splits option.splits)

text \<open>An executor enters a run only with the arguments of the request.\<close>

lemma ainvoke_same_executor:
  assumes "ex_await ex = ex_await ex'" and "ex_run ex (rq_arguments rq) = ex_run ex' (rq_arguments rq)"
  shows "ainvoke h w i rq ex ck uuid = ainvoke h w i rq ex' ck uuid"
proof -
  have same: "await_executor g w i v r (rq_arguments rq) ex clock = await_executor g w i v r (rq_arguments rq) ex' clock" for g v r clock
    unfolding await_executor_def assms(1,2) ..
  show ?thesis unfolding ainvoke_def same ..
qed

text \<open>
  C14: an MCP call that executes anything was authorised by the mandate alone, for exactly the call
  that is executed. If \<open>call_tool\<close> changes the world or returns a result, then the parameters were an
  object with only a name and arguments; the name is bound in the host's registry to \<open>b\<close>; \<open>copied\<close> is
  the JSON object of the argument parameter (the empty one where there is none); the action with this
  name and \<open>copied\<close>, under the agent and run of the mandate, was authorised at the gateway's gate; and
  the outcome is the run of the executor of \<open>b\<close> for that very request: any executor that behaves as it
  does on \<open>copied\<close> gives the same outcome, so none was run on other arguments. No field of the
  parameters names an identity, a credential or a provenance.
\<close>

theorem mcp_call_confined:
  assumes "gateway_ok h gw"
    and "call_tool fr h w gw params co ck uuid = (res, h', w')"
    and "w' \<noteq> w \<or> (\<exists>ae. res = Inr ae)"
  shows "\<exists>d name a copied b rq. params = PDict d \<and> param ''name'' d = Some (PStr name) \<and>
     fst ` set d \<subseteq> {StrKey ''name'', StrKey ''arguments''} \<and>
     (case param ''arguments'' d of None \<Rightarrow> PDict [] | Some v \<Rightarrow> v) = PDict a \<and>
     encode (PDict a) = Some (JObj copied) \<and>
     map_of (gw_bindings gw) name = Some b \<and>
     rq = \<lparr>rq_agent_id = tm_agent_id (mandate (h ! gw_gate gw)),
        rq_run_id = the (tm_run_id (mandate (h ! gw_gate gw))), rq_tool_name = name,
        rq_arguments = copied, rq_action_id = co_action_id co, rq_now = co_now co,
        rq_provenance = co_provenance co\<rparr> \<and>
     authorised h (gw_gate gw) rq (resolve_now (co_now co) (ck_check ck))
       (if str_set (co_action_id co) then the (co_action_id co) else uuid) \<and>
     (\<forall>ex. ex_await ex = ex_await (gt_executor b) \<and> ex_run ex copied = ex_run (gt_executor b) copied \<longrightarrow>
        ainvoke h w (gw_gate gw) rq ex ck uuid = (res, h', w'))"
proof -
  from call_tool_runs [OF assms(2,3)] obtain d name a where
    p: "params = PDict d" "param ''name'' d = Some (PStr name)"
      "fst ` set d \<subseteq> {StrKey ''name'', StrKey ''arguments''}"
      "(case param ''arguments'' d of None \<Rightarrow> PDict [] | Some v \<Rightarrow> v) = PDict a"
      "gateway_ainvoke fr h w gw name (PDict a) co ck uuid = (res, h', w')" by metis
  from gateway_ainvoke_runs [OF p(5) assms(3)] obtain copied b where
    q: "snapshot_arguments fr (PDict a) = Inr copied" "map_of (gw_bindings gw) name = Some b"
      "ainvoke h w (gw_gate gw) (options_request h gw name copied co) (gt_executor b) ck uuid
         = (res, h', w')" by metis
  let ?rq = "\<lparr>rq_agent_id = tm_agent_id (mandate (h ! gw_gate gw)),
        rq_run_id = the (tm_run_id (mandate (h ! gw_gate gw))), rq_tool_name = name,
        rq_arguments = copied, rq_action_id = co_action_id co, rq_now = co_now co,
        rq_provenance = co_provenance co\<rparr>"
  have e: "encode (PDict a) = Some (JObj copied)"
    using snapshot_exactly_json [where fr = fr and v = "PDict a"] q(1) by simp
  have "tm_run_id (mandate (h ! gw_gate gw)) \<noteq> None"
    using assms(1) by (auto simp: gateway_ok_def str_set_def split: option.splits)
  then have rq: "options_request h gw name copied co = ?rq"
    by (auto simp: options_request_def gateway_request_def Let_def)
  have au: "authorised h (gw_gate gw) ?rq (resolve_now (co_now co) (ck_check ck))
       (if str_set (co_action_id co) then the (co_action_id co) else uuid)"
    using ainvoke_runs_authorised [OF q(3) assms(3)] unfolding rq request_id_def
    by (simp only: request.simps host.simps)
  have ex: "ainvoke h w (gw_gate gw) ?rq ex ck uuid = (res, h', w')"
    if "ex_await ex = ex_await (gt_executor b)" "ex_run ex copied = ex_run (gt_executor b) copied" for ex
  proof -
    have "ainvoke h w (gw_gate gw) ?rq ex ck uuid = ainvoke h w (gw_gate gw) ?rq (gt_executor b) ck uuid"
      by (rule ainvoke_same_executor) (simp_all only: request.simps that)
    with q(3) show ?thesis unfolding rq by (simp only:)
  qed
  show ?thesis
    by (intro exI [of _ d] exI [of _ name] exI [of _ a] exI [of _ copied] exI [of _ b] exI [of _ ?rq])
      (intro conjI p e q(2) au refl allI impI ex; elim conjE; assumption)
qed

definition sample_gateway :: "(nat, unit) gateway" where
  "sample_gateway = \<lparr>gw_gate = 0, gw_bindings = [(''t'',
     \<lparr>gt_authority = snd (hd sample_tools),
      gt_executor = \<lparr>ex_coroutine = False, ex_run = \<lambda>_ (w, h). ((w, h), ReturnedAwaitable),
        ex_await = \<lambda>(w, h). ((Suc w, h), Inr ())\<rparr>, gt_async_call = False\<rparr>)]\<rparr>"

definition sample_clocks :: clocks where
  "sample_clocks = \<lparr>ck_check = 5, ck_begin = 6, ck_mark = 7\<rparr>"

definition sample_options :: call_options where
  "sample_options = \<lparr>co_action_id = Some ''x'', co_now = Some (Aware 5), co_provenance = None\<rparr>"

lemma sample_gateway_ok: "gateway_ok sample_store sample_gateway"
  by (auto simp: gateway_ok_def sample_gateway_def sample_store_def sample_tools_def
      sample_mandate_def str_set_def)

lemma nonblank_t [simp]: "nonblank ''t''"
  by (simp add: nonblank_def is_space_def)

lemma sample_call:
  "\<exists>ae h'. call_tool (\<lambda>_. []) sample_store 0 sample_gateway
     (PDict [(StrKey ''name'', PStr ''t'')]) sample_options sample_clocks ''f'' = (Inr ae, h', 1)"
proof -
  let ?ck = "sample_clocks"
  have s: "snapshot_arguments (\<lambda>_. []) (PDict []) = Inr []"
    by (simp add: snapshot_arguments_def MAX_GATEWAY_ARGUMENT_BYTES_def)
  have rq: "options_request sample_store sample_gateway ''t'' [] sample_options = sample_request"
    by (simp add: options_request_def gateway_request_def sample_gateway_def sample_store_def
        sample_mandate_def sample_options_def sample_request_def)
  have c: "check sample_store 0 sample_request \<lparr>utc = ck_check ?ck, fresh = ''f''\<rparr> =
      Inr (sample_verdict, sample_decided)"
    using sample_decided_eq by (simp add: sample_clocks_def sample_host_def)
  from sample_begins [of 5] obtain h where b:
    "begin_execution sample_decided 0 sample_verdict (Some (Aware 5)) (ck_begin ?ck) =
       Inr (sdk_receipt ''x'' PENDING, h)" by auto
  let ?b = "snd (hd (gw_bindings sample_gateway))"
  have g: "gw_gate sample_gateway = 0" "map_of (gw_bindings sample_gateway) ''t'' = Some ?b"
    "rq_tool_name sample_request = ''t''"
    by (simp_all add: sample_gateway_def sample_request_def)
  have "await_executor h 0 0 sample_verdict (sdk_receipt ''x'' PENDING) []
      (gt_executor ?b) (ck_mark ?ck) =
      (Inr \<lparr>ae_verdict = sample_verdict, ae_result = (), ae_receipt = sdk_receipt ''x'' PENDING\<rparr>, h, 1)"
    by (simp add: await_executor_def sample_gateway_def)
  moreover have "rq_arguments sample_request = []" by (simp add: sample_request_def)
  ultimately show ?thesis
    by (simp add: call_tool_def param_def gateway_ainvoke_def s rq binding_or_deny_def g
        ainvoke_def c b sample_verdict_simps sample_request_simps)
qed

lemma mcp_call_confined_witness:
  "\<exists>copied. encode (PDict []) = Some (JObj copied) \<and> authorised sample_store 0
       \<lparr>rq_agent_id = ''a'', rq_run_id = ''r'', rq_tool_name = ''t'', rq_arguments = copied,
        rq_action_id = Some ''x'', rq_now = Some (Aware 5), rq_provenance = None\<rparr> (Aware 5) ''x''"
proof -
  from sample_call obtain ae h' where c: "call_tool (\<lambda>_. []) sample_store 0 sample_gateway
     (PDict [(StrKey ''name'', PStr ''t'')]) sample_options sample_clocks ''f'' = (Inr ae, h', 1)"
    by blast
  have "(1 :: nat) \<noteq> 0 \<or> (\<exists>ax. Inr ae = (Inr ax :: gate_exn + unit action_execution))" by simp
  from mcp_call_confined [OF sample_gateway_ok c this] show ?thesis
    by (simp add: param_def sample_options_def sample_clocks_def resolve_now_def str_set_def
        sample_gateway_def sample_store_def sample_mandate_def)
qed

text \<open>What a successful delegation's gate looks like, besides its authority.\<close>

lemma delegate_tools:
  assumes "delegate h i d hs = Inr (c, h')"
  shows "h' = h @ [h' ! c]" and "c = length h"
    and "tools (h' ! c) = filter (\<lambda>p. fst p |\<in>| dl_tools d) (tools (h ! i))"
    and "tm_allowed_tools (mandate (h' ! c)) = dl_tools d"
    and "tm_run_id (mandate (h' ! c)) = Some (dl_run_id d)"
    and "fset (dl_tools d) \<subseteq> fst ` set (tools (h ! i))" and "nonblank (dl_run_id d)"
proof -
  let ?when = "resolve_now (dl_now d) (utc hs)"
  from assms obtain g where ok: "first_error (delegation_guards h i d ?when) = None"
    and g: "make_gate h (child_mandate (mandate (h ! i)) d hs)
              (filter (\<lambda>p. fst p |\<in>| dl_tools d) (tools (h ! i)))
              (trust_boundary (h ! i)) (max_delegation_depth (h ! i))
              (evidence_timeout (h ! i)) (Some i) = Inr g"
    and c: "c = length h" "h' = h @ [g]"
    by (auto simp: delegate_def Let_def make_task_mandate_Inr split: option.splits sum.splits)
  have all: "list_all (\<lambda>gd. \<not> fst gd) (delegation_guards h i d ?when)"
    using ok by (simp add: list_all_iff)
  note facts = all [unfolded delegation_guards_def Let_def list.pred_inject fst_conv
      not_not de_Morgan_disj]
  show "fset (dl_tools d) \<subseteq> fst ` set (tools (h ! i))" "nonblank (dl_run_id d)"
    using facts by simp_all
  from g c show "h' = h @ [h' ! c]" "c = length h"
    "tools (h' ! c) = filter (\<lambda>p. fst p |\<in>| dl_tools d) (tools (h ! i))"
    "tm_allowed_tools (mandate (h' ! c)) = dl_tools d"
    "tm_run_id (mandate (h' ! c)) = Some (dl_run_id d)"
    by (auto simp: make_gate_Inr child_mandate_def)
qed

text \<open>
  a delegated gateway never regains an executor. Whenever the gate's delegation succeeds the
  gateway's does (the registry lookup cannot fail), the child's registry mirrors its gate, binds
  exactly the delegated tools, each to the executor the parent bound, and the parent's gateway
  is as it was.
\<close>

theorem delegated_gateway_confined:
  assumes "gateway_ok h gw" and "delegate h (gw_gate gw) d hs = Inr (c, h')"
  shows "\<exists>gw'. delegate_gateway h gw d hs = Inr (gw', h') \<and> gateway_ok h' gw' \<and>
     gateway_ok h' gw \<and> gw_gate gw' = c \<and> c \<noteq> gw_gate gw \<and>
     dom (map_of (gw_bindings gw')) = fset (dl_tools d) \<and>
     map_of (gw_bindings gw') \<subseteq>\<^sub>m map_of (gw_bindings gw)"
proof -
  note t = delegate_tools [OF assms(2)]
  let ?bs = "filter (\<lambda>p. fst p |\<in>| dl_tools d) (gw_bindings gw)"
  let ?gw = "\<lparr>gw_gate = c, gw_bindings = ?bs\<rparr>"
  have names: "dom (map_of (tools (h ! gw_gate gw))) = dom (map_of (gw_bindings gw))"
    using assms(1) by (auto simp: gateway_ok_def dom_def)
  then have sub: "fset (dl_tools d) \<subseteq> fst ` set (gw_bindings gw)"
    using t(6) by (simp add: dom_map_of_conv_image_fst)
  then have "delegate_gateway h gw d hs = Inr (?gw, h')"
    using assms(2) t(4) by (simp add: delegate_gateway_def)
  moreover have bs: "map_of ?bs k = (if k |\<in>| dl_tools d then map_of (gw_bindings gw) k else None)"
    for k by (rule map_of_filter_keys)
  moreover have "gateway_ok h' ?gw"
    using assms(1) t(2,3,5,7) arg_cong [OF t(1), of length]
    by (auto simp: gateway_ok_def bs map_of_filter_keys [where P = "\<lambda>k. k |\<in>| dl_tools d"]
        str_set_def nonblank_def)
  moreover have "gw_gate gw < length h" using assms(1) by (simp add: gateway_ok_def)
  moreover from this have "h' ! gw_gate gw = h ! gw_gate gw"
    by (subst t(1)) (simp add: nth_append)
  moreover from this have "gateway_ok h' gw"
    using assms(1) t(2) arg_cong [OF t(1), of length] by (simp add: gateway_ok_def)
  moreover have "dom (map_of ?bs) = fset (dl_tools d)"
  proof -
    have "fset (dl_tools d) \<subseteq> dom (map_of (gw_bindings gw))"
      using sub by (simp add: dom_map_of_conv_image_fst)
    then show ?thesis by (auto simp: bs split: if_splits)
  qed
  ultimately show ?thesis using t(2) by (auto simp: map_le_def split: if_splits)
qed

lemma delegated_gateway_confined_witness:
  "\<exists>gw' h'. delegate_gateway sample_store sample_gateway sample_delegation sample_host = Inr (gw', h')
     \<and> dom (map_of (gw_bindings gw')) = {''t''}"
proof -
  from sample_delegated obtain h' where
    d: "delegate sample_store (gw_gate sample_gateway) sample_delegation sample_host = Inr (1, h')"
    by (auto simp: sample_gateway_def)
  from delegated_gateway_confined [OF sample_gateway_ok d] show ?thesis
    by (auto simp: sample_delegation_def)
qed

end
