(* ===== verification/Decoding.thy ===== *)
theory Decoding
  imports Json_Text
begin

text \<open>
  Reading \<open>to_dict\<close> dictionaries back. A missing required key is a \<open>KeyError\<close>; a value of
  another JSON type than the annotation is \<open>Ill_typed\<close>: Python's dataclasses would store it, the
  typed records of the model stop there. Also the primitives the records take from outside the
  sources: SHA-256, Ed25519, the text of floats and the parser of ISO timestamps.
\<close>

section \<open>Primitives\<close>

text \<open>
  \<open>l_key_ok\<close>: \<open>Ed25519PublicKey.from_public_bytes\<close> accepts the bytes (it raises a \<open>ValueError\<close>
  otherwise); \<open>l_check\<close>: the signature verifies; \<open>l_crypto\<close>: the package is installed. A
  \<open>datetime\<close> of a record is its \<open>isoformat\<close> text, which is all the records read of it;
  \<open>l_iso_ok\<close>: \<open>fromisoformat\<close> accepts the text.
\<close>

record 'k lib =
  l_float :: "rat \<Rightarrow> string"
  l_sha256 :: "string \<Rightarrow> string"
  l_crypto :: bool
  l_sign :: "'k \<Rightarrow> string \<Rightarrow> string"
  l_public :: "'k \<Rightarrow> string"
  l_key_ok :: "string \<Rightarrow> bool"
  l_check :: "string \<Rightarrow> string \<Rightarrow> string \<Rightarrow> bool"
  l_iso_ok :: "string \<Rightarrow> bool"

section \<open>Sequencing\<close>

datatype decode_error = Fails exn | Ill_typed string

definition bindS :: "'e + 'a \<Rightarrow> ('a \<Rightarrow> 'e + 'b) \<Rightarrow> 'e + 'b" where
  "bindS r f = (case r of Inl e \<Rightarrow> Inl e | Inr x \<Rightarrow> f x)"

lemma bindS_simps [simp]: "bindS (Inr x) f = f x" "bindS (Inl e) f = Inl e"
  by (simp_all add: bindS_def)

lemma bindS_Inr [exn_simps]: "bindS r f = Inr y \<longleftrightarrow> (\<exists>x. r = Inr x \<and> f x = Inr y)"
  by (cases r) auto

fun traverse :: "('a \<Rightarrow> 'e + 'b) \<Rightarrow> 'a list \<Rightarrow> 'e + 'b list" where
  "traverse f [] = Inr []"
| "traverse f (x # xs) = bindS (f x) (\<lambda>y. bindS (traverse f xs) (\<lambda>ys. Inr (y # ys)))"

lemma traverse_map_id: "(\<And>x. x \<in> set xs \<Longrightarrow> f (g x) = Inr x) \<Longrightarrow> traverse f (map g xs) = Inr xs"
  by (induction xs) auto

lemma traverse_Inr: "traverse f xs = Inr ys \<longleftrightarrow> list_all2 (\<lambda>x y. f x = Inr y) xs ys"
  by (induction xs arbitrary: ys) (auto simp: exn_simps list_all2_Cons1)

section \<open>Fields\<close>

definition field :: "string \<Rightarrow> args \<Rightarrow> decode_error + json" where
  "field k d = (case map_of d k of None \<Rightarrow> Inl (Fails (KeyError k)) | Some v \<Rightarrow> Inr v)"

definition field_or :: "string \<Rightarrow> json \<Rightarrow> args \<Rightarrow> json" where
  "field_or k v d = (case map_of d k of None \<Rightarrow> v | Some w \<Rightarrow> w)"

fun as_text :: "json \<Rightarrow> decode_error + string" where
  "as_text (JStr s) = Inr s"
| "as_text _ = Inl (Ill_typed ''str'')"

fun as_opt_text :: "json \<Rightarrow> decode_error + string option" where
  "as_opt_text JNull = Inr None"
| "as_opt_text (JStr s) = Inr (Some s)"
| "as_opt_text _ = Inl (Ill_typed ''str or None'')"

fun as_object :: "json \<Rightarrow> decode_error + args" where
  "as_object (JObj d) = Inr d"
| "as_object _ = Inl (Ill_typed ''dict'')"

fun as_items :: "json \<Rightarrow> decode_error + json list" where
  "as_items (JArr xs) = Inr xs"
| "as_items _ = Inl (Ill_typed ''list'')"

fun as_boolean :: "json \<Rightarrow> decode_error + bool" where
  "as_boolean (JBool b) = Inr b"
| "as_boolean _ = Inl (Ill_typed ''bool'')"

definition text_field :: "string \<Rightarrow> args \<Rightarrow> decode_error + string" where
  "text_field k d = bindS (field k d) as_text"

definition texts :: "json \<Rightarrow> decode_error + string list" where
  "texts j = bindS (as_items j) (traverse as_text)"

definition timestamp_field :: "'k lib \<Rightarrow> string \<Rightarrow> args \<Rightarrow> decode_error + string" where
  "timestamp_field L k d = bindS (text_field k d)
     (\<lambda>t. if l_iso_ok L t then Inr t else Inl (Fails (ValueError ''Invalid isoformat string'')))"

text \<open>\<open>bytes.fromhex(x) if x else None\<close>.\<close>

definition str_truthy :: "string option \<Rightarrow> bool" where
  "str_truthy v = (case v of None \<Rightarrow> False | Some s \<Rightarrow> s \<noteq> [])"

definition hex_decode :: "json \<Rightarrow> decode_error + string option" where
  "hex_decode j = bindS (as_opt_text j) (\<lambda>v.
     if str_truthy v
     then (case from_hex (the v) of
             None \<Rightarrow> Inl (Fails (ValueError ''non-hexadecimal number found in fromhex() arg''))
           | Some bs \<Rightarrow> Inr (Some bs))
     else Inr None)"

definition hex_field :: "string \<Rightarrow> args \<Rightarrow> decode_error + string option" where
  "hex_field k d = hex_decode (field_or k JNull d)"

text \<open>\<open>x.hex() if x else None\<close>.\<close>

definition hex_json :: "string option \<Rightarrow> json" where
  "hex_json b = (if str_truthy b then JStr (hex (the b)) else JNull)"

lemma hex_nonempty [simp]: "hex bs = [] \<longleftrightarrow> bs = []"
  by (auto simp: hex_def byte_hex_def)

lemma hex_decode_json: "b \<noteq> Some [] \<Longrightarrow> hex_decode (hex_json b) = Inr b"
  by (cases b) (auto simp: hex_decode_def hex_json_def str_truthy_def)

lemma texts_JArr [simp]: "texts (JArr (map JStr xs)) = Inr xs"
  by (simp add: texts_def traverse_map_id)

text \<open>
  Primitives for the witnesses: the digest is the text itself, a signature is the key before the
  message.
\<close>

definition sample_lib :: "string lib" where
  "sample_lib = \<lparr>l_float = fraction_text, l_sha256 = \<lambda>t. t, l_crypto = True,
     l_sign = \<lambda>k m. k @ m, l_public = \<lambda>k. k, l_key_ok = \<lambda>p. True,
     l_check = \<lambda>p s m. s = p @ m, l_iso_ok = \<lambda>t. True\<rparr>"

lemma sample_lib_simps [simp]:
  "l_float sample_lib = fraction_text" "l_sha256 sample_lib t = t" "l_crypto sample_lib"
  "l_sign sample_lib k m = k @ m" "l_public sample_lib k = k" "l_key_ok sample_lib p"
  "l_check sample_lib p s m \<longleftrightarrow> s = p @ m" "l_iso_ok sample_lib t"
  by (simp_all add: sample_lib_def)

lemma as_opt_text_json_opt [simp]: "as_opt_text (json_opt JStr v) = Inr v"
  by (cases v) simp_all

end
