(* ===== verification/Evaluator.thy ===== *)
theory Evaluator
  imports Decoding
begin

text \<open>
  The evaluation pipeline (core/evaluator.py): layer results, property scores and weights, the
  composite score, and the synchronous, asynchronous and concurrent evaluators. Floats are exact
  rationals; a layer is a function of the profile and the context that may raise and may change
  the world (its own baselines and histories), and the monotonic clock is read from the world.
\<close>

section \<open>Data\<close>

record layer_result =
  lr_name :: string
  lr_score :: rat
  lr_passed :: bool
  lr_action :: string
  lr_details :: args
  lr_latency :: rat

definition layer_result_to_dict :: "layer_result \<Rightarrow> json" where
  "layer_result_to_dict r = JObj
     [(''layer_name'', JStr (lr_name r)), (''score'', JFloat (lr_score r)),
      (''passed'', JBool (lr_passed r)), (''action'', JStr (lr_action r)),
      (''details'', JObj (lr_details r)), (''latency_ms'', JFloat (lr_latency r))]"

record property_scores =
  ps_adversarial :: rat
  ps_portability :: rat
  ps_assurance :: rat
  ps_recovery :: rat

definition property_scores_to_dict :: "property_scores \<Rightarrow> json" where
  "property_scores_to_dict p = JObj
     [(''adversarial_coherence'', JFloat (ps_adversarial p)),
      (''environmental_portability'', JFloat (ps_portability p)),
      (''verifiable_assurance'', JFloat (ps_assurance p)),
      (''recovery_integrity'', JFloat (ps_recovery p))]"

record integrity_score =
  is_composite :: rat
  is_properties :: property_scores
  is_layer_results :: "layer_result list"
  is_timestamp :: string
  is_confidence :: rat
  is_version :: string
  is_latency :: rat

definition score_passed :: "integrity_score \<Rightarrow> bool" where
  "score_passed s = list_all lr_passed (is_layer_results s)"

text \<open>\<open>severity.get(action, 0)\<close>; \<open>max\<close> keeps the first of the most severe results.\<close>

definition severity :: "string \<Rightarrow> nat" where
  "severity a = (if a = ''alert'' then 1 else if a = ''escalate'' then 2
     else if a = ''block'' then 3 else 0)"

fun most_severe :: "layer_result \<Rightarrow> layer_result list \<Rightarrow> layer_result" where
  "most_severe best [] = best"
| "most_severe best (r # rs) =
     most_severe (if severity (lr_action best) < severity (lr_action r) then r else best) rs"

definition overall_action :: "layer_result list \<Rightarrow> string" where
  "overall_action rs = (case rs of [] \<Rightarrow> ''pass'' | r # rest \<Rightarrow> lr_action (most_severe r rest))"

definition score_action :: "integrity_score \<Rightarrow> string" where
  "score_action s = overall_action (is_layer_results s)"

definition score_to_dict :: "integrity_score \<Rightarrow> args" where
  "score_to_dict s =
     [(''composite'', JFloat (is_composite s)),
      (''properties'', property_scores_to_dict (is_properties s)),
      (''layer_results'', JArr (map layer_result_to_dict (is_layer_results s))),
      (''timestamp'', JStr (is_timestamp s)), (''confidence'', JFloat (is_confidence s)),
      (''evaluator_version'', JStr (is_version s)), (''total_latency_ms'', JFloat (is_latency s)),
      (''passed'', JBool (score_passed s)), (''action'', JStr (score_action s))]"

record property_weights =
  pw_adversarial :: rat
  pw_portability :: rat
  pw_assurance :: rat
  pw_recovery :: rat

definition default_weights :: property_weights where
  "default_weights = \<lparr>pw_adversarial = 35 / 100, pw_portability = 20 / 100,
     pw_assurance = 30 / 100, pw_recovery = 15 / 100\<rparr>"

definition total_weight :: "property_weights \<Rightarrow> rat" where
  "total_weight w = pw_adversarial w + pw_portability w + pw_assurance w + pw_recovery w"

definition make_weights :: "property_weights \<Rightarrow> exn + property_weights" where
  "make_weights w =
     (if 1 / 1000 < \<bar>total_weight w - 1\<bar>
      then Inl (ValueError ''Property weights must sum to 1.0'') else Inr w)"

section \<open>Scoring\<close>

text \<open>A number found in the details; comparing anything else with a float is a \<open>TypeError\<close>.\<close>

fun number :: "json \<Rightarrow> exn + rat" where
  "number (JInt i) = Inr (of_int i)"
| "number (JFloat r) = Inr r"
| "number (JBool b) = Inr (if b then 1 else 0)"
| "number _ = Inl (TypeError ''not supported between instances'')"

definition best_of :: "string \<Rightarrow> args \<Rightarrow> rat \<Rightarrow> exn + rat" where
  "best_of key details current =
     (case map_of details key of
        None \<Rightarrow> Inr current
      | Some v \<Rightarrow> bindS (number v) (\<lambda>x. Inr (if current < x then x else current)))"

fun explicit_scores :: "layer_result list \<Rightarrow> property_scores \<Rightarrow> exn + property_scores" where
  "explicit_scores [] p = Inr p"
| "explicit_scores (r # rs) p =
     bindS (best_of ''coherence_score'' (lr_details r) (ps_adversarial p)) (\<lambda>a.
     bindS (best_of ''portability_score'' (lr_details r) (ps_portability p)) (\<lambda>e.
     bindS (best_of ''assurance_score'' (lr_details r) (ps_assurance p)) (\<lambda>v.
     bindS (best_of ''recovery_score'' (lr_details r) (ps_recovery p)) (\<lambda>i.
       explicit_scores rs \<lparr>ps_adversarial = a, ps_portability = e, ps_assurance = v,
         ps_recovery = i\<rparr>))))"

definition zero_scores :: property_scores where
  "zero_scores = \<lparr>ps_adversarial = 0, ps_portability = 0, ps_assurance = 0, ps_recovery = 0\<rparr>"

definition mean_score :: "layer_result list \<Rightarrow> rat" where
  "mean_score rs = sum_list (map lr_score rs) / of_nat (length rs)"

definition fallback_scores :: "layer_result list \<Rightarrow> property_scores \<Rightarrow> property_scores" where
  "fallback_scores rs p =
     (let a = (if ps_adversarial p = 0 \<and> rs \<noteq> []
               then (case filter (\<lambda>r. contains ''adversarial'' (lower (lr_name r))) rs of
                       [] \<Rightarrow> ps_adversarial p | r # _ \<Rightarrow> lr_score r)
               else ps_adversarial p);
          e = (if ps_portability p = 0 \<and> rs \<noteq> [] then Min (set (map lr_score rs))
               else ps_portability p);
          v = (if ps_assurance p = 0 \<and> rs \<noteq> [] then mean_score rs else ps_assurance p)
      in \<lparr>ps_adversarial = a, ps_portability = e, ps_assurance = v, ps_recovery = ps_recovery p\<rparr>)"

definition compute_property_scores :: "layer_result list \<Rightarrow> exn + property_scores" where
  "compute_property_scores rs =
     bindS (explicit_scores rs zero_scores) (\<lambda>p. Inr (fallback_scores rs p))"

definition compute_confidence :: "nat \<Rightarrow> layer_result list \<Rightarrow> rat" where
  "compute_confidence expected rs =
     (if rs = [] then 0
      else let coverage = (if 0 < expected then of_nat (length rs) / of_nat expected else 0);
               detail = sum_list (map (\<lambda>r. if lr_details r \<noteq> [] then 1 else 1 / 2) rs)
                          / of_nat (length rs)
           in round_to 4 (min coverage detail))"

definition raw_composite :: "property_weights \<Rightarrow> property_scores \<Rightarrow> rat" where
  "raw_composite w p = pw_adversarial w * ps_adversarial p + pw_portability w * ps_portability p
     + pw_assurance w * ps_assurance p + pw_recovery w * ps_recovery p"

section \<open>The evaluators\<close>

record ('w, 'p) layer =
  ly_name :: string
  ly_evaluate :: "'p \<Rightarrow> args \<Rightarrow> 'w \<Rightarrow> (exn + layer_result) \<times> 'w"
  ly_aevaluate :: "('p \<Rightarrow> args \<Rightarrow> 'w \<Rightarrow> (exn + layer_result) \<times> 'w) option"

text \<open>The clocks: \<open>perf_counter\<close> in seconds, and the text of \<open>datetime.now\<close>.\<close>

record 'w timer =
  tm_perf :: "'w \<Rightarrow> rat \<times> 'w"
  tm_now :: "'w \<Rightarrow> string \<times> 'w"

record ('w, 'p) evaluator =
  ev_layers :: "('w, 'p) layer list"
  ev_weights :: property_weights
  ev_fail_fast :: bool

text \<open>The call the synchronous and the asynchronous loop make on a layer.\<close>

definition call_sync :: "('w, 'p) layer \<Rightarrow> 'p \<Rightarrow> args \<Rightarrow> 'w \<Rightarrow> (exn + layer_result) \<times> 'w" where
  "call_sync l = ly_evaluate l"

definition call_async :: "('w, 'p) layer \<Rightarrow> 'p \<Rightarrow> args \<Rightarrow> 'w \<Rightarrow> (exn + layer_result) \<times> 'w" where
  "call_async l = (case ly_aevaluate l of None \<Rightarrow> ly_evaluate l | Some f \<Rightarrow> f)"

definition timed_layer ::
  "'w timer \<Rightarrow> ('p \<Rightarrow> args \<Rightarrow> 'w \<Rightarrow> (exn + layer_result) \<times> 'w) \<Rightarrow> 'p \<Rightarrow> args \<Rightarrow> 'w
     \<Rightarrow> (exn + layer_result) \<times> 'w" where
  "timed_layer tm f profile ctx w =
     (case tm_perf tm w of (t0, w1) \<Rightarrow>
       (case f profile ctx w1 of
          (Inl e, w2) \<Rightarrow> (Inl e, w2)
        | (Inr r, w2) \<Rightarrow>
            (case tm_perf tm w2 of (t1, w3) \<Rightarrow>
               (Inr (r\<lparr>lr_latency := (t1 - t0) * 1000\<rparr>), w3))))"

fun run_layers ::
  "'w timer \<Rightarrow> bool \<Rightarrow> (('w, 'p) layer \<Rightarrow> 'p \<Rightarrow> args \<Rightarrow> 'w \<Rightarrow> (exn + layer_result) \<times> 'w)
     \<Rightarrow> ('w, 'p) layer list \<Rightarrow> 'p \<Rightarrow> args \<Rightarrow> 'w \<Rightarrow> (exn + layer_result list) \<times> 'w" where
  "run_layers tm fast call [] profile ctx w = (Inr [], w)"
| "run_layers tm fast call (l # ls) profile ctx w =
     (case timed_layer tm (call l) profile ctx w of
        (Inl e, w1) \<Rightarrow> (Inl e, w1)
      | (Inr r, w1) \<Rightarrow>
          if fast \<and> lr_action r = ''block'' then (Inr [r], w1)
          else (case run_layers tm fast call ls profile ctx w1 of
                  (Inl e, w2) \<Rightarrow> (Inl e, w2)
                | (Inr rs, w2) \<Rightarrow> (Inr (r # rs), w2)))"

text \<open>
  \<open>_score\<close>, with the number of layers \<open>_compute_confidence\<close> counts: the evaluator's own for the
  synchronous one; the asynchronous evaluator scores with an inner evaluator built with
  \<open>layers=[]\<close>, so it passes 0.
\<close>

definition score_results ::
  "'w timer \<Rightarrow> property_weights \<Rightarrow> nat \<Rightarrow> string \<Rightarrow> rat \<Rightarrow> layer_result list \<Rightarrow> 'w
     \<Rightarrow> (exn + integrity_score) \<times> 'w" where
  "score_results tm w expected version start rs world =
     (case compute_property_scores rs of
        Inl e \<Rightarrow> (Inl e, world)
      | Inr p \<Rightarrow>
          (case tm_perf tm world of (t1, world1) \<Rightarrow>
            (case tm_now tm world1 of (now, world2) \<Rightarrow>
               (Inr \<lparr>is_composite = round_to 4 (raw_composite w p), is_properties = p,
                     is_layer_results = rs, is_timestamp = now,
                     is_confidence = compute_confidence expected rs, is_version = version,
                     is_latency = round_to 2 ((t1 - start) * 1000)\<rparr>, world2))))"

definition evaluate_with ::
  "'w timer \<Rightarrow> (('w, 'p) layer \<Rightarrow> 'p \<Rightarrow> args \<Rightarrow> 'w \<Rightarrow> (exn + layer_result) \<times> 'w) \<Rightarrow> nat \<Rightarrow> string
     \<Rightarrow> ('w, 'p) evaluator \<Rightarrow> 'p \<Rightarrow> args \<Rightarrow> 'w \<Rightarrow> (exn + integrity_score) \<times> 'w" where
  "evaluate_with tm call expected version ev profile ctx w =
     (case tm_perf tm w of (start, w1) \<Rightarrow>
       (case run_layers tm (ev_fail_fast ev) call (ev_layers ev) profile ctx w1 of
          (Inl e, w2) \<Rightarrow> (Inl e, w2)
        | (Inr rs, w2) \<Rightarrow> score_results tm (ev_weights ev) expected version start rs w2))"

definition evaluate ::
  "'w timer \<Rightarrow> ('w, 'p) evaluator \<Rightarrow> 'p \<Rightarrow> args \<Rightarrow> 'w \<Rightarrow> (exn + integrity_score) \<times> 'w" where
  "evaluate tm ev = evaluate_with tm call_sync (length (ev_layers ev)) ''1.0.0'' ev"

definition has_async_layers :: "('w, 'p) evaluator \<Rightarrow> bool" where
  "has_async_layers ev = list_ex (\<lambda>l. ly_aevaluate l \<noteq> None) (ev_layers ev)"

definition aevaluate ::
  "'w timer \<Rightarrow> ('w, 'p) evaluator \<Rightarrow> 'p \<Rightarrow> args \<Rightarrow> 'w \<Rightarrow> (exn + integrity_score) \<times> 'w" where
  "aevaluate tm ev = evaluate_with tm call_async (length (ev_layers ev)) ''1.0.0'' ev"

text \<open>
  \<open>AsyncIntegrityEvaluator.evaluate\<close>. Without \<open>fail_fast\<close> the layers are gathered: the results are
  in the order of the layers; the model runs them in that order, one of the schedules
  \<open>asyncio.gather\<close> allows.
\<close>

definition async_evaluate ::
  "'w timer \<Rightarrow> ('w, 'p) evaluator \<Rightarrow> 'p \<Rightarrow> args \<Rightarrow> 'w \<Rightarrow> (exn + integrity_score) \<times> 'w" where
  "async_evaluate tm ev = evaluate_with tm call_async 0 ''0.2.0'' ev"

section \<open>Severity\<close>

lemma most_severe_in: "most_severe r rs \<in> insert r (set rs)"
proof (induction rs arbitrary: r)
  case (Cons q rs)
  let ?b = "if severity (lr_action r) < severity (lr_action q) then q else r"
  have "most_severe ?b rs \<in> insert ?b (set rs)" by (rule Cons.IH)
  then show ?case by (auto split: if_splits)
qed simp

lemma most_severe_max:
  "\<forall>q \<in> insert r (set rs). severity (lr_action q) \<le> severity (lr_action (most_severe r rs))"
proof (induction rs arbitrary: r)
  case (Cons q rs)
  let ?b = "if severity (lr_action r) < severity (lr_action q) then q else r"
  have "\<forall>x \<in> insert ?b (set rs). severity (lr_action x) \<le> severity (lr_action (most_severe ?b rs))"
    by (rule Cons.IH)
  then show ?case by (auto split: if_splits)
qed simp

lemma severity_block: "severity a = 3 \<longleftrightarrow> a = ''block''" and severity_le: "severity a \<le> 3"
  by (auto simp: severity_def)

text \<open>
  the recommended action of a score is the most severe one: no layer's action is more severe,
  some layer recommended it (or it is \<open>pass\<close> when there are no layers), and it is \<open>block\<close> exactly
  when some layer blocks.
\<close>

theorem action_most_severe:
  "(\<forall>r. r \<in> set (is_layer_results s) \<longrightarrow>
       severity (lr_action r) \<le> severity (score_action s)) \<and>
     (score_action s = ''block'' \<longleftrightarrow> ''block'' \<in> lr_action ` set (is_layer_results s)) \<and>
     score_action s \<in> insert ''pass'' (lr_action ` set (is_layer_results s))"
proof (cases "is_layer_results s")
  case (Cons r rs)
  let ?m = "most_severe r rs"
  have a: "score_action s = lr_action ?m" using Cons by (simp add: score_action_def overall_action_def)
  have le: "\<forall>q \<in> insert r (set rs). severity (lr_action q) \<le> severity (lr_action ?m)"
    by (rule most_severe_max)
  have mem: "?m \<in> insert r (set rs)" by (rule most_severe_in)
  have "lr_action ?m = ''block''" if "q \<in> insert r (set rs)" "lr_action q = ''block''" for q
  proof -
    have "severity (lr_action q) \<le> severity (lr_action ?m)" using le that(1) by blast
    moreover have "severity (lr_action q) = 3" using that(2) by (simp add: severity_block)
    ultimately have "severity (lr_action ?m) = 3" using severity_le [of "lr_action ?m"] by simp
    then show ?thesis by (simp add: severity_block)
  qed
  note block = this
  have "lr_action ?m = ''block'' \<longleftrightarrow> ''block'' \<in> lr_action ` insert r (set rs)"
  proof
    assume "lr_action ?m = ''block''"
    with imageI [OF mem, of lr_action] show "''block'' \<in> lr_action ` insert r (set rs)" by simp
  next
    assume "''block'' \<in> lr_action ` insert r (set rs)"
    then obtain q where "q \<in> insert r (set rs)" "''block'' = lr_action q" by (rule imageE)
    with block show "lr_action ?m = ''block''" by simp
  qed
  moreover have "lr_action ?m \<in> insert ''pass'' (lr_action ` insert r (set rs))"
    using imageI [OF mem, of lr_action] by (rule insertI2)
  moreover have "\<forall>q. q \<in> insert r (set rs) \<longrightarrow> severity (lr_action q) \<le> severity (lr_action ?m)"
    using le by blast
  ultimately show ?thesis unfolding a Cons list.set by (intro conjI)
qed (simp add: score_action_def overall_action_def)

definition sample_result :: "string \<Rightarrow> rat \<Rightarrow> string \<Rightarrow> layer_result" where
  "sample_result name score action = \<lparr>lr_name = name, lr_score = score, lr_passed = True,
     lr_action = action, lr_details = [], lr_latency = 0\<rparr>"

definition sample_score :: integrity_score where
  "sample_score = \<lparr>is_composite = 1, is_properties = zero_scores,
     is_layer_results = [sample_result ''a'' 1 ''alert'', sample_result ''b'' 1 ''block''],
     is_timestamp = [], is_confidence = 1, is_version = [], is_latency = 0\<rparr>"

lemma action_most_severe_witness: "score_action sample_score = ''block''"
  using action_most_severe [of sample_score]
  by (simp add: sample_score_def sample_result_def)

section \<open>Fail fast\<close>

text \<open>
  The reference: run every layer of a list, with no early exit.
\<close>

fun run_all ::
  "'w timer \<Rightarrow> (('w, 'p) layer \<Rightarrow> 'p \<Rightarrow> args \<Rightarrow> 'w \<Rightarrow> (exn + layer_result) \<times> 'w)
     \<Rightarrow> ('w, 'p) layer list \<Rightarrow> 'p \<Rightarrow> args \<Rightarrow> 'w \<Rightarrow> (exn + layer_result list) \<times> 'w" where
  "run_all tm call [] profile ctx w = (Inr [], w)"
| "run_all tm call (l # ls) profile ctx w =
     (case timed_layer tm (call l) profile ctx w of
        (Inl e, w1) \<Rightarrow> (Inl e, w1)
      | (Inr r, w1) \<Rightarrow>
          (case run_all tm call ls profile ctx w1 of
             (Inl e, w2) \<Rightarrow> (Inl e, w2)
           | (Inr rs, w2) \<Rightarrow> (Inr (r # rs), w2)))"

lemma run_layers_no_fast: "run_layers tm False call ls p c w = run_all tm call ls p c w"
  by (induction ls arbitrary: w) (auto split: prod.splits sum.splits)

lemma run_layers_prefix:
  assumes "run_layers tm True call ls p c w = (Inr rs, w')"
  shows "\<exists>n \<le> length ls. run_all tm call (take n ls) p c w = (Inr rs, w') \<and> length rs = n \<and>
     (\<forall>r \<in> set (butlast rs). lr_action r \<noteq> ''block'') \<and>
     (n < length ls \<longrightarrow> rs \<noteq> [] \<and> lr_action (last rs) = ''block'')"
  using assms
proof (induction ls arbitrary: w rs)
  case (Cons l ls)
  from Cons.prems obtain r w1 where t: "timed_layer tm (call l) p c w = (Inr r, w1)"
    by (auto split: prod.splits sum.splits)
  show ?case
  proof (cases "lr_action r = ''block''")
    case True
    with Cons.prems t show ?thesis by (intro exI [of _ 1]) auto
  next
    case False
    with Cons.prems t obtain rs1 where
      rs: "rs = r # rs1" "run_layers tm True call ls p c w1 = (Inr rs1, w')"
      by (auto split: prod.splits sum.splits)
    from Cons.IH [OF rs(2)] obtain n where n: "n \<le> length ls"
      "run_all tm call (take n ls) p c w1 = (Inr rs1, w')" "length rs1 = n"
      "\<forall>r \<in> set (butlast rs1). lr_action r \<noteq> ''block''"
      "n < length ls \<longrightarrow> rs1 \<noteq> [] \<and> lr_action (last rs1) = ''block''" by blast
    with t rs(1) False show ?thesis
      by (intro exI [of _ "Suc n"]) (auto split: if_splits)
  qed
qed simp

text \<open>
  fail-fast evaluation stops at the first blocking layer. When it returns, exactly a prefix
  of the layers was run, each once and in order (the world is that of running just that prefix), no
  layer before the last one run blocked, and if a layer was left out, the last one run blocked;
  without fail-fast every layer is run.
\<close>

theorem fail_fast_stops_at_first_block:
  assumes "run_layers tm fast call ls p c w = (Inr rs, w')"
  shows "\<exists>n \<le> length ls. run_all tm call (take n ls) p c w = (Inr rs, w') \<and> length rs = n \<and>
     (if fast
      then (\<forall>r \<in> set (butlast rs). lr_action r \<noteq> ''block'') \<and>
        (n < length ls \<longrightarrow> rs \<noteq> [] \<and> lr_action (last rs) = ''block'')
      else n = length ls)"
proof (cases fast)
  case True
  with run_layers_prefix [of tm call ls p c w rs w'] assms show ?thesis by auto
next
  case False
  have len: "run_all tm call ls p c w = (Inr rs, w') \<Longrightarrow> length rs = length ls" for ls rs w
    by (induction ls arbitrary: w rs) (auto split: prod.splits sum.splits)
  from False assms len show ?thesis
    by (intro exI [of _ "length ls"]) (simp add: run_layers_no_fast)
qed

definition sample_timer :: "'w timer" where
  "sample_timer = \<lparr>tm_perf = \<lambda>w. (0, w), tm_now = \<lambda>w. (''now'', w)\<rparr>"

text \<open>A layer that gives a fixed result and counts its runs.\<close>

definition sample_layer :: "string \<Rightarrow> rat \<Rightarrow> string \<Rightarrow> (nat, unit) layer" where
  "sample_layer name score action = \<lparr>ly_name = name,
     ly_evaluate = \<lambda>_ _ n. (Inr (sample_result name score action), Suc n), ly_aevaluate = None\<rparr>"

lemma fail_fast_stops_at_first_block_witness:
  "\<exists>rs. run_layers sample_timer True call_sync
      [sample_layer ''a'' 1 ''block'', sample_layer ''b'' 1 ''pass''] () [] 0 = (Inr rs, 1) \<and>
     length rs = 1"
proof -
  have r: "run_layers sample_timer True call_sync
      [sample_layer ''a'' 1 ''block'', sample_layer ''b'' 1 ''pass''] () [] 0 =
      (Inr [sample_result ''a'' 1 ''block''], 1)"
    by (simp add: timed_layer_def call_sync_def sample_layer_def sample_timer_def sample_result_def)
  from fail_fast_stops_at_first_block [OF r] r show ?thesis by auto
qed

section \<open>Bounds\<close>

definition unit_score :: "rat \<Rightarrow> bool" where
  "unit_score x \<longleftrightarrow> 0 \<le> x \<and> x \<le> 1"

definition detail_scores_ok :: "args \<Rightarrow> bool" where
  "detail_scores_ok d \<longleftrightarrow>
     (\<forall>k \<in> {''coherence_score'', ''portability_score'', ''assurance_score'', ''recovery_score''}.
        \<forall>v. map_of d k = Some v \<longrightarrow> (\<exists>x. number v = Inr x \<and> unit_score x))"

definition result_ok :: "layer_result \<Rightarrow> bool" where
  "result_ok r \<longleftrightarrow> unit_score (lr_score r) \<and> detail_scores_ok (lr_details r)"

definition scores_ok :: "property_scores \<Rightarrow> bool" where
  "scores_ok p \<longleftrightarrow> unit_score (ps_adversarial p) \<and> unit_score (ps_portability p) \<and>
     unit_score (ps_assurance p) \<and> unit_score (ps_recovery p)"

lemma best_of_ok:
  assumes "detail_scores_ok d" and "unit_score x"
    and "k \<in> {''coherence_score'', ''portability_score'', ''assurance_score'', ''recovery_score''}"
  shows "\<exists>y. best_of k d x = Inr y \<and> unit_score y \<and> x \<le> y"
proof (cases "map_of d k")
  case None
  with assms(2) show ?thesis by (simp add: best_of_def)
next
  case (Some v)
  from assms(1) [unfolded detail_scores_ok_def, rule_format, OF assms(3) Some]
  obtain y where "number v = Inr y" "unit_score y" by blast
  with Some assms(2) show ?thesis by (simp add: best_of_def)
qed

lemma explicit_scores_ok:
  assumes "list_all result_ok rs" and "scores_ok p"
  shows "\<exists>q. explicit_scores rs p = Inr q \<and> scores_ok q"
  using assms
proof (induction rs arbitrary: p)
  case (Cons r rs)
  then have d: "detail_scores_ok (lr_details r)" by (simp add: result_ok_def)
  note b = best_of_ok [OF d]
  from Cons.prems(2) b [of "ps_adversarial p" "''coherence_score''"] obtain a where
    a: "best_of ''coherence_score'' (lr_details r) (ps_adversarial p) = Inr a" "unit_score a"
    by (auto simp: scores_ok_def)
  from Cons.prems(2) b [of "ps_portability p" "''portability_score''"] obtain e where
    e: "best_of ''portability_score'' (lr_details r) (ps_portability p) = Inr e" "unit_score e"
    by (auto simp: scores_ok_def)
  from Cons.prems(2) b [of "ps_assurance p" "''assurance_score''"] obtain v where
    v: "best_of ''assurance_score'' (lr_details r) (ps_assurance p) = Inr v" "unit_score v"
    by (auto simp: scores_ok_def)
  from Cons.prems(2) b [of "ps_recovery p" "''recovery_score''"] obtain i where
    i: "best_of ''recovery_score'' (lr_details r) (ps_recovery p) = Inr i" "unit_score i"
    by (auto simp: scores_ok_def)
  have "scores_ok \<lparr>ps_adversarial = a, ps_portability = e, ps_assurance = v, ps_recovery = i\<rparr>"
    using a e v i by (simp add: scores_ok_def)
  from Cons.IH [OF _ this] Cons.prems(1) a e v i show ?case by simp
qed simp

lemma mean_score_ok: "list_all result_ok rs \<Longrightarrow> rs \<noteq> [] \<Longrightarrow> unit_score (mean_score rs)"
proof -
  assume ok: "list_all result_ok rs" and ne: "rs \<noteq> []"
  have "0 \<le> sum_list (map lr_score rs) \<and> sum_list (map lr_score rs) \<le> of_nat (length rs)"
    using ok by (induction rs) (auto simp: result_ok_def unit_score_def)
  with ne show "unit_score (mean_score rs)"
    by (simp add: mean_score_def unit_score_def divide_le_eq)
qed

lemma min_score_ok:
  assumes "list_all result_ok rs" and "rs \<noteq> []"
  shows "unit_score (Min (set (map lr_score rs)))"
proof -
  have "Min (set (map lr_score rs)) \<in> set (map lr_score rs)"
    using assms(2) by (intro Min_in) auto
  with assms(1) show ?thesis by (auto simp: list_all_iff result_ok_def)
qed

lemma fallback_scores_ok:
  assumes "list_all result_ok rs" and "scores_ok p"
  shows "scores_ok (fallback_scores rs p)"
proof -
  have "unit_score (lr_score r)" if "filter P rs = r # qs" for P r qs
  proof -
    have "r \<in> set (filter P rs)" using that by simp
    with assms(1) show ?thesis by (auto simp: list_all_iff result_ok_def)
  qed
  then show ?thesis
    using assms mean_score_ok [OF assms(1)] min_score_ok [OF assms(1)]
    by (auto simp: fallback_scores_def scores_ok_def Let_def split: list.splits)
qed

lemma compute_property_scores_ok:
  assumes "list_all result_ok rs"
  shows "\<exists>p. compute_property_scores rs = Inr p \<and> scores_ok p"
proof -
  have "scores_ok zero_scores" by (simp add: scores_ok_def zero_scores_def unit_score_def)
  from explicit_scores_ok [OF assms this] fallback_scores_ok [OF assms] show ?thesis
    by (auto simp: compute_property_scores_def)
qed

definition weights_ok :: "property_weights \<Rightarrow> bool" where
  "weights_ok w \<longleftrightarrow> make_weights w = Inr w \<and> 0 \<le> pw_adversarial w \<and> 0 \<le> pw_portability w \<and>
     0 \<le> pw_assurance w \<and> 0 \<le> pw_recovery w"

lemma default_weights_ok: "weights_ok default_weights"
  by (simp add: weights_ok_def make_weights_def total_weight_def default_weights_def)

lemma scaled: "0 \<le> (a :: rat) \<Longrightarrow> unit_score x \<Longrightarrow> 0 \<le> a * x \<and> a * x \<le> a"
  by (auto simp: unit_score_def mult_left_le)

lemma raw_composite_bounds:
  assumes "weights_ok w" and "scores_ok p"
  shows "0 \<le> raw_composite w p" and "raw_composite w p \<le> total_weight w"
proof -
  note b = scaled [of "pw_adversarial w" "ps_adversarial p"]
    scaled [of "pw_portability w" "ps_portability p"]
    scaled [of "pw_assurance w" "ps_assurance p"] scaled [of "pw_recovery w" "ps_recovery p"]
  show "0 \<le> raw_composite w p" "raw_composite w p \<le> total_weight w"
    using assms b by (auto simp: weights_ok_def scores_ok_def raw_composite_def total_weight_def)
qed

lemma detail_bounds:
  assumes "rs \<noteq> []"
  shows "0 \<le> sum_list (map (\<lambda>r. if lr_details r \<noteq> [] then 1 else 1 / 2 :: rat) rs)
             / of_nat (length rs)"
    and "sum_list (map (\<lambda>r. if lr_details r \<noteq> [] then 1 else 1 / 2 :: rat) rs)
             / of_nat (length rs) \<le> 1"
proof -
  have "0 \<le> sum_list (map (\<lambda>r. if lr_details r \<noteq> [] then 1 else 1 / 2 :: rat) rs) \<and>
      sum_list (map (\<lambda>r. if lr_details r \<noteq> [] then 1 else 1 / 2 :: rat) rs) \<le> of_nat (length rs)"
    by (induction rs) auto
  with assms show "0 \<le> sum_list (map (\<lambda>r. if lr_details r \<noteq> [] then 1 else 1 / 2 :: rat) rs)
             / of_nat (length rs)"
    "sum_list (map (\<lambda>r. if lr_details r \<noteq> [] then 1 else 1 / 2 :: rat) rs)
             / of_nat (length rs) \<le> 1"
    by (simp_all add: divide_le_eq)
qed

lemma confidence_bounds: "unit_score (compute_confidence n rs)"
proof (cases "rs = []")
  case False
  note d = detail_bounds [OF False]
  have "0 \<le> (if 0 < n then of_nat (length rs) / of_nat n else 0 :: rat)" by simp
  with d False show ?thesis
    unfolding compute_confidence_def unit_score_def Let_def
    by (simp only: if_False) (intro conjI round_to_unit_interval; auto simp: min_le_iff_disj)
qed (simp add: compute_confidence_def unit_score_def)

text \<open>
  scoring is total and bounded. When every layer's score and explicit property scores are
  numbers between 0 and 1 and the weights are nonnegative and pass the constructor's test,
  scoring returns; its property scores and its confidence lie between 0 and 1 and its composite
  between 0 and 1.001, the constructor's tolerance.
\<close>

theorem score_bounded:
  assumes "list_all result_ok rs" and "weights_ok w"
  shows "\<exists>s w'. score_results tm w n v start rs world = (Inr s, w') \<and>
     scores_ok (is_properties s) \<and> unit_score (is_confidence s) \<and>
     0 \<le> is_composite s \<and> is_composite s \<le> 1001 / 1000 \<and> (total_weight w = 1 \<longrightarrow> is_composite s \<le> 1)
     \<and> is_layer_results s = rs"
proof -
  from compute_property_scores_ok [OF assms(1)] obtain p where
    p: "compute_property_scores rs = Inr p" "scores_ok p" by blast
  obtain t1 w1 now w2 where t: "tm_perf tm world = (t1, w1)" "tm_now tm w1 = (now, w2)"
    by (metis surj_pair)
  note b = raw_composite_bounds [OF assms(2) p(2)]
  have "total_weight w \<le> 1001 / 1000"
  proof -
    have "\<bar>total_weight w - 1\<bar> \<le> 1 / 1000"
      using assms(2) by (simp add: weights_ok_def make_weights_def split: if_splits)
    then show ?thesis by linarith
  qed
  with b(2) have hi: "raw_composite w p * 10 ^ 4 \<le> of_int 10010" by simp
  from b(1) have lo: "of_int 0 \<le> raw_composite w p * 10 ^ 4" by simp
  note r = round_half_even_mono_int [OF lo hi]
  then have "(of_int (round_half_even (raw_composite w p * 10 ^ 4)) :: rat) \<le> of_int 10010"
    by (simp only: of_int_le_iff)
  then have "0 \<le> round_to 4 (raw_composite w p)" "round_to 4 (raw_composite w p) \<le> 1001 / 1000"
    using r(1) by (simp_all add: round_to_def)
  moreover have "round_to 4 (raw_composite w p) \<le> 1" if "total_weight w = 1"
    using round_to_unit_interval [of "raw_composite w p" 4] b that by simp
  ultimately show ?thesis using p t confidence_bounds [of n rs] by (simp add: score_results_def)
qed

text \<open>Within that tolerance a composite above 1 is possible.\<close>

lemma composite_above_one:
  "(case fst (score_results sample_timer \<lparr>pw_adversarial = 351 / 1000, pw_portability = 20 / 100, pw_assurance = 30 / 100,
       pw_recovery = 15 / 100\<rparr> 2 ''1.0.0'' 0
       [sample_result ''adversarial'' 1 ''pass'',
        (sample_result ''recovery'' 1 ''pass'')\<lparr>lr_details := [(''recovery_score'', JFloat 1)]\<rparr>] w)
     of Inl e \<Rightarrow> False | Inr s \<Rightarrow> is_composite s = 1001 / 1000)"
  by code_simp

lemma score_bounded_witness:
  "\<exists>s. fst (score_results sample_timer default_weights 1 ''1.0.0'' 0 [sample_result ''a'' 1 ''pass''] ())
       = Inr s \<and> is_composite s \<le> 1001 / 1000"
proof -
  have "list_all result_ok [sample_result ''a'' 1 ''pass'']"
    by (simp add: result_ok_def sample_result_def unit_score_def detail_scores_ok_def)
  from score_bounded [OF this default_weights_ok, of sample_timer 1 "''1.0.0''" 0 "()"]
  show ?thesis by auto
qed

lemma round_half:
  assumes "1 / 2 \<le> x" and "x \<le> 1"
  shows "1 / 2 \<le> round_to 4 x"
proof -
  have "5000 \<le> round_half_even (x * 10 ^ 4)"
    using assms by (intro round_half_even_mono_int(1) [of _ _ 10000]) simp_all
  then have "of_int 5000 \<le> (of_int (round_half_even (x * 10 ^ 4)) :: rat)"
    by (simp only: of_int_le_iff)
  then show ?thesis by (simp add: round_to_def)
qed

text \<open>
  every score of the concurrent evaluator has confidence 0, whatever its layers report: its
  inner scorer was built without layers, so the coverage of a nonempty evaluation is computed
  as 0, while the synchronous evaluator with at least half of the layers run, each with
  details, has a confidence of at least one half.
\<close>

theorem async_confidence_zero:
  assumes "async_evaluate tm ev p c w = (Inr s, w')"
  shows "is_confidence s = 0 \<and>
     (\<forall>n. 0 < n \<and> length (is_layer_results s) \<le> n \<and> n \<le> 2 * length (is_layer_results s) \<and>
        list_all (\<lambda>r. lr_details r \<noteq> []) (is_layer_results s) \<longrightarrow>
        1 / 2 \<le> compute_confidence n (is_layer_results s))"
proof -
  have zero: "compute_confidence 0 rs = 0" for rs
    using detail_bounds(1) [of rs]
    by (simp add: compute_confidence_def Let_def round_to_def round_half_even_def min_def)
  have "is_confidence s = 0"
    using assms zero
    by (auto simp: async_evaluate_def evaluate_with_def score_results_def split: prod.splits sum.splits)
  moreover have "1 / 2 \<le> compute_confidence n rs"
    if n: "0 < n" "length rs \<le> n" "n \<le> 2 * length rs" and d: "list_all (\<lambda>r. lr_details r \<noteq> []) rs"
    for n and rs :: "layer_result list"
  proof -
    have ne: "rs \<noteq> []" using n by auto
    have "sum_list (map (\<lambda>r. if lr_details r \<noteq> [] then 1 else 1 / 2 :: rat) rs) = of_nat (length rs)"
      using d by (induction rs) auto
    with ne have det: "sum_list (map (\<lambda>r. if lr_details r \<noteq> [] then 1 else 1 / 2 :: rat) rs)
        / of_nat (length rs) = 1" by simp
    have "of_nat n \<le> (of_nat (2 * length rs) :: rat)" using n(3) by (simp only: of_nat_le_iff)
    then have half: "1 / 2 \<le> (of_nat (length rs) / of_nat n :: rat)" using n(1) by (simp add: le_divide_eq)
    have "of_nat (length rs) \<le> (of_nat n :: rat)" using n(2) by simp
    then have one: "(of_nat (length rs) / of_nat n :: rat) \<le> 1" using n(1) by (simp add: divide_le_eq)
    let ?x = "of_nat (length rs) / of_nat n :: rat"
    have "compute_confidence n rs = round_to 4 ?x"
      using ne n(1) one by (simp only: compute_confidence_def Let_def det if_True if_False min_def)
    with round_half [OF half one] show ?thesis by simp
  qed
  ultimately show ?thesis by blast
qed

definition sample_evaluator :: "(nat, unit) evaluator" where
  "sample_evaluator = \<lparr>ev_layers = [sample_layer ''a'' 1 ''pass''], ev_weights = default_weights,
     ev_fail_fast = True\<rparr>"

lemma sample_evaluates:
  "\<exists>s. async_evaluate sample_timer sample_evaluator () [] 0 = (Inr s, 1)"
proof -
  have "list_all result_ok [sample_result ''a'' 1 ''pass'']"
    by (simp add: result_ok_def sample_result_def unit_score_def detail_scores_ok_def)
  from compute_property_scores_ok [OF this] obtain p where
    p: "compute_property_scores [sample_result ''a'' 1 ''pass''] = Inr p" by blast
  have "run_layers sample_timer True call_async [sample_layer ''a'' 1 ''pass''] () [] 0 =
      (Inr [sample_result ''a'' 1 ''pass''], 1)"
    by (simp add: timed_layer_def call_async_def sample_layer_def sample_timer_def sample_result_def)
  moreover have "tm_perf sample_timer (n :: nat) = (0, n)" "tm_now sample_timer n = (''now'', n)" for n
    by (simp_all add: sample_timer_def)
  ultimately show ?thesis
    using p by (simp add: async_evaluate_def evaluate_with_def sample_evaluator_def
        score_results_def del: run_layers.simps)
qed

lemma async_confidence_zero_witness:
  "\<exists>s. async_evaluate sample_timer sample_evaluator () [] 0 = (Inr s, 1) \<and> is_confidence s = 0"
proof -
  from sample_evaluates obtain s where
    s: "async_evaluate sample_timer sample_evaluator () [] 0 = (Inr s, 1)" by (rule exE)
  from async_confidence_zero [OF s] s show ?thesis by (intro exI [of _ s] conjI) simp_all
qed

end
