(* ===== verification/Checkpoints.thy ===== *)
theory Checkpoints
  imports Evaluator
begin

text \<open>
  Recovery checkpoints (layers/checkpoint.py): snapshots, the guard on storage identifiers, the
  store interface with its laws, and the three backends: the in-memory dictionary, the directory
  of files with its atomic write, and the SQLite table.
\<close>

section \<open>Snapshots\<close>

record snapshot =
  cs_agent_id :: string
  cs_checkpoint_id :: string
  cs_created_at :: string
  cs_score_history :: "rat list"
  cs_chain_records :: "json list"
  cs_baseline :: "args option"
  cs_metadata :: args

definition snapshot_to_dict :: "snapshot \<Rightarrow> json" where
  "snapshot_to_dict s = JObj
     [(''agent_id'', JStr (cs_agent_id s)), (''checkpoint_id'', JStr (cs_checkpoint_id s)),
      (''created_at'', JStr (cs_created_at s)),
      (''score_history'', JArr (map JFloat (cs_score_history s))),
      (''chain_records'', JArr (cs_chain_records s)), (''baseline'', json_opt JObj (cs_baseline s)),
      (''metadata'', JObj (cs_metadata s))]"

fun as_number :: "json \<Rightarrow> decode_error + rat" where
  "as_number (JFloat r) = Inr r"
| "as_number (JInt i) = Inr (of_int i)"
| "as_number _ = Inl (Ill_typed ''float'')"

fun as_opt_object :: "json \<Rightarrow> decode_error + args option" where
  "as_opt_object JNull = Inr None"
| "as_opt_object (JObj d) = Inr (Some d)"
| "as_opt_object _ = Inl (Ill_typed ''dict or None'')"

definition snapshot_from_dict :: "args \<Rightarrow> decode_error + snapshot" where
  "snapshot_from_dict d =
     bindS (text_field ''agent_id'' d) (\<lambda>aid.
     bindS (text_field ''checkpoint_id'' d) (\<lambda>cid.
     bindS (text_field ''created_at'' d) (\<lambda>created.
     bindS (bindS (as_items (field_or ''score_history'' (JArr []) d)) (traverse as_number)) (\<lambda>scores.
     bindS (as_items (field_or ''chain_records'' (JArr []) d)) (\<lambda>records.
     bindS (as_opt_object (field_or ''baseline'' JNull d)) (\<lambda>base.
     bindS (as_object (field_or ''metadata'' (JObj []) d)) (\<lambda>meta.
       Inr \<lparr>cs_agent_id = aid, cs_checkpoint_id = cid, cs_created_at = created,
            cs_score_history = scores, cs_chain_records = records, cs_baseline = base,
            cs_metadata = meta\<rparr>)))))))"

text \<open>
  A persisted payload is the text of \<open>json.dumps(..., sort_keys=True)\<close>, and \<open>json.loads\<close> reads
  from it the same value with the keys of every object sorted. Python compares dictionaries
  without regard to their order, so two snapshots are value-equal when they agree once sorted.
\<close>

definition sorted_dict :: "args \<Rightarrow> args" where
  "sorted_dict d = as_dict (sort_keys (JObj d))"

definition stored :: "snapshot \<Rightarrow> args" where
  "stored s = as_dict (sort_keys (snapshot_to_dict s))"

definition snapshot_norm :: "snapshot \<Rightarrow> snapshot" where
  "snapshot_norm s = s\<lparr>cs_chain_records := map sort_keys (cs_chain_records s),
     cs_baseline := map_option sorted_dict (cs_baseline s),
     cs_metadata := sorted_dict (cs_metadata s)\<rparr>"

definition value_equal :: "snapshot \<Rightarrow> snapshot \<Rightarrow> bool" where
  "value_equal s t \<longleftrightarrow> snapshot_norm s = snapshot_norm t"

lemma sort_key_map_same_key:
  "(\<And>x. f (g x) = f x) \<Longrightarrow> sort_key f (map g xs) = map g (sort_key f xs)"
proof (induction xs)
  case (Cons x xs)
  have "insort_key f (g x) (map g ys) = map g (insort_key f x ys)" for ys
    by (induction ys) (simp_all add: Cons.prems)
  with Cons show ?case by simp
qed simp

lemma sort_keys_idem [simp]: "sort_keys (sort_keys j) = sort_keys j"
proof (induction j)
  case (JObj d)
  let ?g = "\<lambda>(k, v). (k, sort_keys v)"
  have g: "fst (?g x) = fst x" for x :: "string \<times> json" by (cases x) simp
  have gg: "map ?g (map ?g d) = map ?g d"
    unfolding map_map
  proof (rule map_cong [OF refl])
    fix x assume x: "x \<in> set d"
    obtain k v where kv: "x = (k, v)" by (cases x)
    with x JObj.IH [of "(k, v)" v] show "(?g \<circ> ?g) x = ?g x" by simp
  qed
  have "map ?g (sort_key fst (map ?g d)) = sort_key fst (map ?g (map ?g d))"
    by (rule sort_key_map_same_key [where f = fst and g = ?g, symmetric]) (rule g)
  then have "map ?g (sort_key fst (map ?g d)) = sort_key fst (map ?g d)" by (simp only: gg)
  moreover have "sort_key fst (sort_key fst (map ?g d)) = sort_key fst (map ?g d)"
    by (rule sort_key_id_if_sorted) simp
  ultimately show ?case by (simp only: sort_keys.simps)
qed (simp_all add: map_idI)

lemma map_of_sort_key: "dict_ok d \<Longrightarrow> map_of (sort_key fst d) = map_of d"
  by (subst map_of_inject_set) (simp_all add: distinct_map distinct_sort)

lemma map_of_map_values: "map_of (map (\<lambda>(k, v). (k, f v)) d) k = map_option f (map_of d k)"
  by (induction d) auto

lemma map_of_sorted_dict:
  "dict_ok d \<Longrightarrow> map_of (as_dict (sort_keys (JObj d))) k = map_option sort_keys (map_of d k)"
proof -
  assume "dict_ok d"
  then have "dict_ok (map (\<lambda>(k, v). (k, sort_keys v)) d)"
    by (simp add: comp_def case_prod_beta)
  then show ?thesis by (simp add: map_of_sort_key map_of_map_values)
qed

lemma sorted_dict_idem [simp]: "sorted_dict (sorted_dict d) = sorted_dict d"
proof -
  have "sort_keys (JObj (sorted_dict d)) = sort_keys (sort_keys (JObj d))"
    by (simp only: sorted_dict_def sort_keys.simps as_dict.simps)
  then show ?thesis by (simp only: sort_keys_idem) (simp add: sorted_dict_def)
qed

lemma snapshot_norm_idem [simp]: "snapshot_norm (snapshot_norm s) = snapshot_norm s"
  by (cases "cs_baseline s") (simp_all add: snapshot_norm_def comp_def)

lemma value_equal_norm [simp]: "value_equal (snapshot_norm s) s" and value_equal_refl [simp]: "value_equal s s"
  by (simp_all add: value_equal_def)

lemma load_stored: "snapshot_from_dict (stored s) = Inr (snapshot_norm s)"
proof -
  have "snapshot_to_dict s = JObj (as_dict (snapshot_to_dict s))"
    and ok: "dict_ok (as_dict (snapshot_to_dict s))" by (simp_all add: snapshot_to_dict_def)
  then have look: "map_of (stored s) k = map_option sort_keys (map_of (as_dict (snapshot_to_dict s)) k)" for k
    unfolding stored_def by (metis map_of_sorted_dict)
  have nums: "traverse as_number (map JFloat xs) = Inr xs" for xs by (rule traverse_map_id) simp
  have objs: "as_opt_object (sort_keys (json_opt JObj b)) = Inr (map_option sorted_dict b)" for b
    by (cases b) (simp_all add: sorted_dict_def)
  show ?thesis
    by (simp add: snapshot_from_dict_def text_field_def field_def field_or_def look)
      (simp add: snapshot_to_dict_def nums objs comp_def snapshot_norm_def sorted_dict_def)
qed

section \<open>Storage identifiers\<close>

text \<open>
  \<open>re.match\<close> with \<open>^[A-Za-z0-9_-]+$\<close>: the \<open>$\<close> of Python also matches before a newline that ends
  the text.
\<close>

definition identifier_char :: "char \<Rightarrow> bool" where
  "identifier_char c = (let n = of_char c in
     65 \<le> n \<and> n \<le> (90::nat) \<or> 97 \<le> n \<and> n \<le> 122 \<or> 48 \<le> n \<and> n \<le> 57 \<or> n = 95 \<or> n = 45)"

definition identifier_text :: "string \<Rightarrow> bool" where
  "identifier_text s = (s \<noteq> [] \<and> list_all identifier_char s)"

definition storage_identifier :: "string \<Rightarrow> bool" where
  "storage_identifier s = (identifier_text s \<or>
     (s \<noteq> [] \<and> of_char (last s) = (10::nat) \<and> identifier_text (butlast s)))"

definition validate_storage_identifier :: "string \<Rightarrow> string \<Rightarrow> exn + unit" where
  "validate_storage_identifier value kind =
     (if storage_identifier value then Inr () else Inl (ValueError (''invalid '' @ kind)))"

text \<open>An identifier it accepts has no path separator, no dot, no NUL, and is not empty.\<close>

lemma storage_identifier_safe:
  assumes "storage_identifier s"
  shows "s \<noteq> []" and "\<forall>c \<in> set s. identifier_char c \<or> of_char c = (10::nat)"
proof -
  show "s \<noteq> []" using assms by (auto simp: storage_identifier_def identifier_text_def)
  have "set s \<subseteq> insert (last s) (set (butlast s))"
    by (cases s rule: rev_cases) auto
  with assms show "\<forall>c \<in> set s. identifier_char c \<or> of_char c = (10::nat)"
    by (auto simp: storage_identifier_def identifier_text_def list_all_iff)
qed

text \<open>The documented alphabet is not enforced: a trailing newline gets through.\<close>

lemma newline_identifier_accepted:
  "validate_storage_identifier (''abc'' @ [CHR 10]) ''checkpoint id'' = Inr ()"
  by (simp add: validate_storage_identifier_def storage_identifier_def identifier_text_def
      identifier_char_def)

end
