(* ===== verification/Topology.thy ===== *)
theory Topology
  imports Decoding "HOL-Library.FSet"
begin

text \<open>
  Multi-agent topology snapshots (core/topology.py): members, snapshots and their content hash,
  the persistent updates, the diff of two snapshots, and (de)serialisation.
\<close>

datatype agent_role = LEADER | MEMBER | SUPERVISOR | WORKER | PEER

datatype topology_kind = HUB_SPOKE | HIERARCHICAL_DAG | PEER_TO_PEER | GROUP_CHAT

fun role_value :: "agent_role \<Rightarrow> string" where
  "role_value LEADER = ''leader''"
| "role_value MEMBER = ''member''"
| "role_value SUPERVISOR = ''supervisor''"
| "role_value WORKER = ''worker''"
| "role_value PEER = ''peer''"

fun kind_value :: "topology_kind \<Rightarrow> string" where
  "kind_value HUB_SPOKE = ''hub_spoke''"
| "kind_value HIERARCHICAL_DAG = ''hierarchical_dag''"
| "kind_value PEER_TO_PEER = ''peer_to_peer''"
| "kind_value GROUP_CHAT = ''group_chat''"

text \<open>\<open>AgentRole(value)\<close> and \<open>TopologyKind(value)\<close>.\<close>

definition enum_of :: "('a \<Rightarrow> string) \<Rightarrow> 'a list \<Rightarrow> string \<Rightarrow> decode_error + 'a" where
  "enum_of value members s =
     (case find (\<lambda>m. value m = s) members of
        None \<Rightarrow> Inl (Fails (ValueError ''not a valid member''))
      | Some m \<Rightarrow> Inr m)"

definition role_of :: "string \<Rightarrow> decode_error + agent_role" where
  "role_of = enum_of role_value [LEADER, MEMBER, SUPERVISOR, WORKER, PEER]"

definition kind_of :: "string \<Rightarrow> decode_error + topology_kind" where
  "kind_of = enum_of kind_value [HUB_SPOKE, HIERARCHICAL_DAG, PEER_TO_PEER, GROUP_CHAT]"

record agent_member =
  am_agent_id :: string
  am_name :: string
  am_role :: agent_role
  am_parent_id :: "string option"
  am_capabilities :: "string list"

definition member_to_dict :: "agent_member \<Rightarrow> json" where
  "member_to_dict m = JObj
     [(''agent_id'', JStr (am_agent_id m)), (''name'', JStr (am_name m)),
      (''role'', JStr (role_value (am_role m))), (''parent_id'', json_opt JStr (am_parent_id m)),
      (''capabilities'', JArr (map JStr (am_capabilities m)))]"

definition member_from_dict :: "args \<Rightarrow> decode_error + agent_member" where
  "member_from_dict d =
     bindS (text_field ''agent_id'' d) (\<lambda>aid.
     bindS (text_field ''name'' d) (\<lambda>name.
     bindS (bindS (text_field ''role'' d) role_of) (\<lambda>role.
     bindS (as_opt_text (field_or ''parent_id'' JNull d)) (\<lambda>parent.
     bindS (texts (field_or ''capabilities'' (JArr []) d)) (\<lambda>caps.
       Inr \<lparr>am_agent_id = aid, am_name = name, am_role = role, am_parent_id = parent,
            am_capabilities = caps\<rparr>)))))"

record agent_topology =
  at_kind :: topology_kind
  at_members :: "agent_member list"
  at_channels :: "string fset"
  at_topology_id :: string
  at_created_at :: string

definition sorted_channels :: "agent_topology \<Rightarrow> string list" where
  "sorted_channels t = sorted_list_of_set (fset (at_channels t))"

definition leader :: "agent_topology \<Rightarrow> agent_member option" where
  "leader t = find (\<lambda>m. am_role m \<in> {LEADER, SUPERVISOR}) (at_members t)"

definition children_of :: "agent_topology \<Rightarrow> string \<Rightarrow> agent_member list" where
  "children_of t aid = filter (\<lambda>m. am_parent_id m = Some aid) (at_members t)"

definition member_of :: "agent_topology \<Rightarrow> string \<Rightarrow> agent_member option" where
  "member_of t aid = find (\<lambda>m. am_agent_id m = aid) (at_members t)"

definition topology_payload :: "agent_topology \<Rightarrow> json" where
  "topology_payload t = JObj
     [(''kind'', JStr (kind_value (at_kind t))),
      (''members'', JArr (map member_to_dict (at_members t))),
      (''comm_channels'', JArr (map JStr (sorted_channels t)))]"

definition topology_hash :: "'k lib \<Rightarrow> agent_topology \<Rightarrow> string" where
  "topology_hash L t = l_sha256 L (canonical_text (l_float L) (topology_payload t))"

definition with_member :: "agent_topology \<Rightarrow> agent_member \<Rightarrow> agent_topology" where
  "with_member t m =
     t\<lparr>at_members := filter (\<lambda>x. am_agent_id x \<noteq> am_agent_id m) (at_members t) @ [m]\<rparr>"

definition without_member :: "agent_topology \<Rightarrow> string \<Rightarrow> agent_topology" where
  "without_member t aid = t\<lparr>at_members := filter (\<lambda>x. am_agent_id x \<noteq> aid) (at_members t)\<rparr>"

definition with_channels :: "agent_topology \<Rightarrow> string list \<Rightarrow> agent_topology" where
  "with_channels t cs = t\<lparr>at_channels := at_channels t |\<union>| fset_of_list cs\<rparr>"

definition topology_to_dict :: "'k lib \<Rightarrow> agent_topology \<Rightarrow> json" where
  "topology_to_dict L t = JObj
     [(''topology_id'', JStr (at_topology_id t)), (''kind'', JStr (kind_value (at_kind t))),
      (''members'', JArr (map member_to_dict (at_members t))),
      (''comm_channels'', JArr (map JStr (sorted_channels t))),
      (''created_at'', JStr (at_created_at t)), (''content_hash'', JStr (topology_hash L t))]"

text \<open>\<open>now\<close> and \<open>uuid\<close> are what the clock and \<open>uuid4\<close> return when the fields are absent.\<close>

definition topology_from_dict ::
  "'k lib \<Rightarrow> string \<Rightarrow> string \<Rightarrow> args \<Rightarrow> decode_error + agent_topology" where
  "topology_from_dict L now uuid d =
     bindS (if map_of d ''created_at'' = None then Inr now
            else timestamp_field L ''created_at'' d) (\<lambda>created.
     bindS (as_text (field_or ''topology_id'' (JStr uuid) d)) (\<lambda>tid.
     bindS (bindS (text_field ''kind'' d) kind_of) (\<lambda>kind.
     bindS (bindS (as_items (field_or ''members'' (JArr []) d))
              (traverse (\<lambda>j. bindS (as_object j) member_from_dict))) (\<lambda>members.
     bindS (texts (field_or ''comm_channels'' (JArr []) d)) (\<lambda>channels.
       Inr \<lparr>at_kind = kind, at_members = members, at_channels = fset_of_list channels,
            at_topology_id = tid, at_created_at = created\<rparr>)))))"

record topology_change =
  tc_previous_topology_id :: string
  tc_previous_content_hash :: string
  tc_new_topology_id :: string
  tc_new_content_hash :: string
  tc_added_members :: "agent_member list"
  tc_removed_member_ids :: "string list"

text \<open>
  \<open>TopologyChange.between\<close>. The removed ids come from a set difference; the order of that set
  is unspecified in Python, and sorted here.
\<close>

definition between :: "'k lib \<Rightarrow> agent_topology \<Rightarrow> agent_topology \<Rightarrow> topology_change" where
  "between L previous current =
     (let prev_ids = am_agent_id ` set (at_members previous);
          curr_ids = am_agent_id ` set (at_members current)
      in \<lparr>tc_previous_topology_id = at_topology_id previous,
          tc_previous_content_hash = topology_hash L previous,
          tc_new_topology_id = at_topology_id current,
          tc_new_content_hash = topology_hash L current,
          tc_added_members = filter (\<lambda>m. am_agent_id m \<notin> prev_ids) (at_members current),
          tc_removed_member_ids = sorted_list_of_set (prev_ids - curr_ids)\<rparr>)"

definition change_to_dict :: "topology_change \<Rightarrow> json" where
  "change_to_dict c = JObj
     [(''previous_topology_id'', JStr (tc_previous_topology_id c)),
      (''previous_content_hash'', JStr (tc_previous_content_hash c)),
      (''new_topology_id'', JStr (tc_new_topology_id c)),
      (''new_content_hash'', JStr (tc_new_content_hash c)),
      (''added_members'', JArr (map member_to_dict (tc_added_members c))),
      (''removed_member_ids'', JArr (map JStr (tc_removed_member_ids c)))]"

section \<open>Properties\<close>

lemma role_of_value [simp]: "role_of (role_value r) = Inr r"
  by (cases r) (simp_all add: role_of_def enum_of_def)

lemma kind_of_value [simp]: "kind_of (kind_value k) = Inr k"
  by (cases k) (simp_all add: kind_of_def enum_of_def)

lemma member_roundtrip [simp]:
  "bindS (as_object (member_to_dict m)) member_from_dict = Inr m"
  by (simp add: member_to_dict_def member_from_dict_def text_field_def field_def field_or_def)

lemma fset_of_sorted [simp]: "fset_of_list (sorted_list_of_set (fset s)) = s"
  by (simp add: fset_eq_iff fset_of_list_elem)

text \<open>A snapshot's members have distinct ids, and every update keeps that.\<close>

definition topology_ok :: "agent_topology \<Rightarrow> bool" where
  "topology_ok t \<longleftrightarrow> distinct (map am_agent_id (at_members t))"

lemma topology_ok_updates [wf_intros]:
  assumes "topology_ok t"
  shows "topology_ok (with_member t m)" "topology_ok (without_member t aid)"
    "topology_ok (with_channels t cs)"
  using assms
  by (auto simp: topology_ok_def with_member_def without_member_def with_channels_def
      distinct_map_filter)

lemma member_of_updates:
  "member_of (with_member t m) aid = (if aid = am_agent_id m then Some m else member_of t aid)"
  "member_of (without_member t a) aid = (if aid = a then None else member_of t aid)"
proof -
  have find_filter: "find (\<lambda>x. am_agent_id x = aid) (filter (\<lambda>x. am_agent_id x \<noteq> a) xs) =
      (if aid = a then None else find (\<lambda>x. am_agent_id x = aid) xs)" for a xs
    by (induction xs) auto
  have find_append: "find P (xs @ [y]) = (case find P xs of None \<Rightarrow> if P y then Some y else None
      | Some x \<Rightarrow> Some x)" for P and xs :: "agent_member list" and y
    by (induction xs) auto
  show "member_of (with_member t m) aid = (if aid = am_agent_id m then Some m else member_of t aid)"
    by (simp add: member_of_def with_member_def find_append find_filter split: option.splits)
  show "member_of (without_member t a) aid = (if aid = a then None else member_of t aid)"
    by (simp add: member_of_def without_member_def find_filter)
qed

text \<open>
  \<open>AgentTopology.from_dict\<close> rebuilds exactly the snapshot \<open>to_dict\<close> wrote, for every snapshot
  whose timestamp is an ISO text, whatever the clock and \<open>uuid4\<close> return.
\<close>

theorem topology_roundtrip:
  assumes "l_iso_ok L (at_created_at t)"
  shows "bindS (as_object (topology_to_dict L t)) (topology_from_dict L now uuid) = Inr t"
  using assms
  by (simp add: topology_to_dict_def topology_from_dict_def timestamp_field_def text_field_def
      field_def field_or_def sorted_channels_def traverse_map_id)

definition sample_topology :: agent_topology where
  "sample_topology = \<lparr>at_kind = HUB_SPOKE,
     at_members = [\<lparr>am_agent_id = ''a'', am_name = ''A'', am_role = LEADER, am_parent_id = None,
       am_capabilities = [''web'']\<rparr>],
     at_channels = {|''bus''|}, at_topology_id = ''t'', at_created_at = ''2026''\<rparr>"

lemma topology_roundtrip_witness:
  "bindS (as_object (topology_to_dict sample_lib sample_topology))
     (topology_from_dict sample_lib ''n'' ''u'') = Inr sample_topology"
  by (rule topology_roundtrip) simp

end
