(* ===== verification/Records.thy ===== *)
theory Records
  imports Topology
begin

text \<open>
  The two record kinds of an attestation chain: \<open>AttestationRecord\<close> (core/attestation.py) and
  \<open>DecisionRecord\<close> (core/decision.py), their canonical text, content hash, signature, and
  serialisation, and the coercion of arbitrary values to JSON. The structural type
  \<open>ChainedRecord\<close> is the datatype \<open>chained\<close>.
\<close>

section \<open>Attestation records\<close>

record evidence =
  ev_type :: string
  ev_source :: string
  ev_hash :: string
  ev_summary :: string
  ev_timestamp :: string

definition evidence_to_dict :: "evidence \<Rightarrow> json" where
  "evidence_to_dict e = JObj
     [(''evidence_type'', JStr (ev_type e)), (''source'', JStr (ev_source e)),
      (''content_hash'', JStr (ev_hash e)), (''summary'', JStr (ev_summary e)),
      (''timestamp'', JStr (ev_timestamp e))]"

record attestation_record =
  ar_agent_id :: string
  ar_integrity_score :: args
  ar_layer_states :: args
  ar_evidence :: "evidence list"
  ar_record_id :: string
  ar_timestamp :: string
  ar_previous :: "string option"
  ar_signature :: "string option"
  ar_public_key :: "string option"
  ar_kind :: string

definition attestation_payload :: "attestation_record \<Rightarrow> json" where
  "attestation_payload r = JObj
     [(''record_kind'', JStr (ar_kind r)), (''record_id'', JStr (ar_record_id r)),
      (''agent_id'', JStr (ar_agent_id r)), (''timestamp'', JStr (ar_timestamp r)),
      (''integrity_score'', JObj (ar_integrity_score r)),
      (''layer_states'', JObj (ar_layer_states r)),
      (''evidence'', JArr (map evidence_to_dict (ar_evidence r))),
      (''chain_previous'', json_opt JStr (ar_previous r))]"

definition evidence_from_dict :: "'k lib \<Rightarrow> args \<Rightarrow> decode_error + evidence" where
  "evidence_from_dict L d =
     bindS (text_field ''evidence_type'' d) (\<lambda>t.
     bindS (text_field ''source'' d) (\<lambda>s.
     bindS (text_field ''content_hash'' d) (\<lambda>h.
     bindS (text_field ''summary'' d) (\<lambda>m.
     bindS (timestamp_field L ''timestamp'' d) (\<lambda>w.
       Inr \<lparr>ev_type = t, ev_source = s, ev_hash = h, ev_summary = m, ev_timestamp = w\<rparr>)))))"

section \<open>Decision records\<close>

datatype capture_tier = MINIMAL | PARTIAL | FULL

fun tier_value :: "capture_tier \<Rightarrow> string" where
  "tier_value MINIMAL = ''minimal''"
| "tier_value PARTIAL = ''partial''"
| "tier_value FULL = ''full''"

definition tier_of :: "string \<Rightarrow> decode_error + capture_tier" where
  "tier_of = enum_of tier_value [MINIMAL, PARTIAL, FULL]"

record decision_input =
  di_channel :: string
  di_hash :: string
  di_summary :: string

record rejected_alternative =
  ra_action_summary :: string
  ra_rejection_reason :: string

text \<open>\<open>if xs\<close> on an optional list: \<open>None\<close> and \<open>[]\<close> are false.\<close>

definition infer_capture_tier ::
  "string list option \<Rightarrow> rejected_alternative list option \<Rightarrow> capture_tier" where
  "infer_capture_tier chain alts =
     (if alts \<noteq> None \<and> alts \<noteq> Some [] then FULL
      else if chain \<noteq> None \<and> chain \<noteq> Some [] then PARTIAL
      else MINIMAL)"

definition input_to_dict :: "decision_input \<Rightarrow> json" where
  "input_to_dict i = JObj [(''channel'', JStr (di_channel i)), (''content_hash'', JStr (di_hash i)),
     (''summary'', JStr (di_summary i))]"

definition input_from_dict :: "args \<Rightarrow> decode_error + decision_input" where
  "input_from_dict d =
     bindS (text_field ''channel'' d) (\<lambda>c.
     bindS (text_field ''content_hash'' d) (\<lambda>h.
     bindS (text_field ''summary'' d) (\<lambda>s.
       Inr \<lparr>di_channel = c, di_hash = h, di_summary = s\<rparr>)))"

definition alternative_to_dict :: "rejected_alternative \<Rightarrow> json" where
  "alternative_to_dict a = JObj [(''action_summary'', JStr (ra_action_summary a)),
     (''rejection_reason'', JStr (ra_rejection_reason a))]"

definition alternative_from_dict :: "args \<Rightarrow> decode_error + rejected_alternative" where
  "alternative_from_dict d =
     bindS (text_field ''action_summary'' d) (\<lambda>s.
     bindS (text_field ''rejection_reason'' d) (\<lambda>r.
       Inr \<lparr>ra_action_summary = s, ra_rejection_reason = r\<rparr>))"

text \<open>
  Values an adapter may pass as a candidate action. A dictionary has the \<open>str\<close> of its keys; a set
  is the list of its elements sorted by \<open>repr\<close>; a dataclass is the dictionary of \<open>asdict\<close>; any
  other object is its \<open>repr\<close>.
\<close>

datatype raw =
    RNull
  | RBool bool
  | RInt int
  | RFloat rat
  | RStr string
  | RDict "(string \<times> raw) list"
  | RList "raw list"
  | RTuple "raw list"
  | RSortedSet "raw list"
  | RBytes string
  | RDatetime string
  | RDataclass "(string \<times> raw) list"
  | ROther string

definition dict_of :: "(string \<times> 'v) list \<Rightarrow> (string, 'v) dict" where
  "dict_of kvs = fold (\<lambda>(k, v). dict_set k v) kvs []"

fun json_safe :: "raw \<Rightarrow> json" where
  "json_safe RNull = JNull"
| "json_safe (RBool b) = JBool b"
| "json_safe (RInt i) = JInt i"
| "json_safe (RFloat r) = JFloat r"
| "json_safe (RStr s) = JStr s"
| "json_safe (RDict d) = JObj (dict_of (map (\<lambda>(k, v). (k, json_safe v)) d))"
| "json_safe (RList xs) = JArr (map json_safe xs)"
| "json_safe (RTuple xs) = JArr (map json_safe xs)"
| "json_safe (RSortedSet xs) = JArr (map json_safe xs)"
| "json_safe (RBytes b) = JStr (hex b)"
| "json_safe (RDatetime t) = JStr t"
| "json_safe (RDataclass d) = JObj (dict_of (map (\<lambda>(k, v). (k, json_safe v)) d))"
| "json_safe (ROther r) = JObj [(''_coerced'', JBool True), (''repr'', JStr r)]"

text \<open>A JSON value as the Python value \<open>json.loads\<close> gives.\<close>

fun raw_of :: "json \<Rightarrow> raw" where
  "raw_of JNull = RNull"
| "raw_of (JBool b) = RBool b"
| "raw_of (JInt i) = RInt i"
| "raw_of (JFloat r) = RFloat r"
| "raw_of (JStr s) = RStr s"
| "raw_of (JArr xs) = RList (map raw_of xs)"
| "raw_of (JObj d) = RDict (map (\<lambda>(k, v). (k, raw_of v)) d)"

record decision_record =
  dr_agent_id :: string
  dr_decision_point :: string
  dr_candidate_action :: "(string \<times> raw) list"
  dr_decision_inputs :: "decision_input list"
  dr_reasoning_chain :: "string list"
  dr_rejected_alternatives :: "rejected_alternative list"
  dr_goal_state :: "string list"
  dr_capture_tier :: capture_tier
  dr_redacted :: bool
  dr_record_id :: string
  dr_timestamp :: string
  dr_previous :: "string option"
  dr_signature :: "string option"
  dr_public_key :: "string option"
  dr_kind :: string

definition decision_fields :: "decision_record \<Rightarrow> args" where
  "decision_fields r =
     [(''record_kind'', JStr (dr_kind r)), (''record_id'', JStr (dr_record_id r)),
      (''agent_id'', JStr (dr_agent_id r)), (''timestamp'', JStr (dr_timestamp r)),
      (''decision_point'', JStr (dr_decision_point r)),
      (''capture_tier'', JStr (tier_value (dr_capture_tier r))),
      (''candidate_action'', json_safe (RDict (dr_candidate_action r))),
      (''decision_inputs'', JArr (map input_to_dict (dr_decision_inputs r))),
      (''reasoning_chain'', JArr (map JStr (dr_reasoning_chain r))),
      (''rejected_alternatives'', JArr (map alternative_to_dict (dr_rejected_alternatives r))),
      (''goal_state'', JArr (map JStr (dr_goal_state r))),
      (''redacted'', JBool (dr_redacted r)),
      (''chain_previous'', json_opt JStr (dr_previous r))]"

definition decision_payload :: "decision_record \<Rightarrow> json" where
  "decision_payload r = JObj (decision_fields r)"

section \<open>Chained records\<close>

datatype chained = Att attestation_record | Dec decision_record

fun record_kind :: "chained \<Rightarrow> string" where
  "record_kind (Att r) = ar_kind r"
| "record_kind (Dec r) = dr_kind r"

fun record_id :: "chained \<Rightarrow> string" where
  "record_id (Att r) = ar_record_id r"
| "record_id (Dec r) = dr_record_id r"

fun chain_previous :: "chained \<Rightarrow> string option" where
  "chain_previous (Att r) = ar_previous r"
| "chain_previous (Dec r) = dr_previous r"

fun signature :: "chained \<Rightarrow> string option" where
  "signature (Att r) = ar_signature r"
| "signature (Dec r) = dr_signature r"

fun public_key :: "chained \<Rightarrow> string option" where
  "public_key (Att r) = ar_public_key r"
| "public_key (Dec r) = dr_public_key r"

fun set_previous :: "string option \<Rightarrow> chained \<Rightarrow> chained" where
  "set_previous p (Att r) = Att (r\<lparr>ar_previous := p\<rparr>)"
| "set_previous p (Dec r) = Dec (r\<lparr>dr_previous := p\<rparr>)"

fun payload :: "chained \<Rightarrow> json" where
  "payload (Att r) = attestation_payload r"
| "payload (Dec r) = decision_payload r"

definition canonical_payload :: "'k lib \<Rightarrow> chained \<Rightarrow> string" where
  "canonical_payload L r = canonical_text (l_float L) (payload r)"

definition content_hash :: "'k lib \<Rightarrow> chained \<Rightarrow> string" where
  "content_hash L r = l_sha256 L (canonical_payload L r)"

section \<open>Signatures\<close>

definition sign_canonical :: "'k lib \<Rightarrow> string \<Rightarrow> 'k \<Rightarrow> exn + string \<times> string" where
  "sign_canonical L text key =
     (if \<not> l_crypto L
      then Inl (ImportError ''Cryptographic signing requires the 'cryptography' package.'')
      else Inr (l_sign L key text, l_public L key))"

text \<open>\<open>pk\<close> is the optional key argument, as raw bytes; it is a key object, so it is valid.\<close>

definition verify_canonical ::
  "'k lib \<Rightarrow> string \<Rightarrow> string option \<Rightarrow> string option \<Rightarrow> string option \<Rightarrow> exn + bool" where
  "verify_canonical L text sig embedded pk =
     (if \<not> l_crypto L
      then Inl (ImportError ''Cryptographic verification requires the 'cryptography' package.'')
      else case sig of
        None \<Rightarrow> Inr False
      | Some s \<Rightarrow>
          (case pk of
             Some p \<Rightarrow> Inr (l_check L p s text)
           | None \<Rightarrow>
               (case embedded of
                  None \<Rightarrow> Inr False
                | Some p \<Rightarrow>
                    if \<not> l_key_ok L p
                    then Inl (ValueError ''An Ed25519 public key is 32 bytes long'')
                    else Inr (l_check L p s text))))"

fun set_signature :: "string \<Rightarrow> string \<Rightarrow> chained \<Rightarrow> chained" where
  "set_signature s p (Att r) = Att (r\<lparr>ar_signature := Some s, ar_public_key := Some p\<rparr>)"
| "set_signature s p (Dec r) = Dec (r\<lparr>dr_signature := Some s, dr_public_key := Some p\<rparr>)"

definition sign :: "'k lib \<Rightarrow> 'k \<Rightarrow> chained \<Rightarrow> exn + chained" where
  "sign L key r =
     (case sign_canonical L (canonical_payload L r) key of
        Inl e \<Rightarrow> Inl e
      | Inr (s, p) \<Rightarrow> Inr (set_signature s p r))"

definition verify :: "'k lib \<Rightarrow> chained \<Rightarrow> string option \<Rightarrow> exn + bool" where
  "verify L r pk = verify_canonical L (canonical_payload L r) (signature r) (public_key r) pk"

section \<open>Serialisation\<close>

definition attestation_to_dict :: "'k lib \<Rightarrow> attestation_record \<Rightarrow> json" where
  "attestation_to_dict L r = JObj
     [(''record_kind'', JStr (ar_kind r)), (''record_id'', JStr (ar_record_id r)),
      (''agent_id'', JStr (ar_agent_id r)), (''timestamp'', JStr (ar_timestamp r)),
      (''integrity_score'', JObj (ar_integrity_score r)),
      (''layer_states'', JObj (ar_layer_states r)),
      (''evidence'', JArr (map evidence_to_dict (ar_evidence r))),
      (''chain_previous'', json_opt JStr (ar_previous r)),
      (''content_hash'', JStr (content_hash L (Att r))),
      (''signature'', hex_json (ar_signature r)), (''public_key'', hex_json (ar_public_key r))]"

definition attestation_from_dict :: "'k lib \<Rightarrow> args \<Rightarrow> decode_error + attestation_record" where
  "attestation_from_dict L d =
     bindS (bindS (as_items (field_or ''evidence'' (JArr []) d))
              (traverse (\<lambda>j. bindS (as_object j) (evidence_from_dict L)))) (\<lambda>evs.
     bindS (text_field ''agent_id'' d) (\<lambda>aid.
     bindS (bindS (field ''integrity_score'' d) as_object) (\<lambda>score.
     bindS (as_object (field_or ''layer_states'' (JObj []) d)) (\<lambda>states.
     bindS (text_field ''record_id'' d) (\<lambda>rid.
     bindS (timestamp_field L ''timestamp'' d) (\<lambda>time.
     bindS (as_opt_text (field_or ''chain_previous'' JNull d)) (\<lambda>prev.
     bindS (hex_field ''signature'' d) (\<lambda>sig.
     bindS (hex_field ''public_key'' d) (\<lambda>pk.
     bindS (as_text (field_or ''record_kind'' (JStr ''attestation'') d)) (\<lambda>kind.
       Inr \<lparr>ar_agent_id = aid, ar_integrity_score = score, ar_layer_states = states,
            ar_evidence = evs, ar_record_id = rid, ar_timestamp = time, ar_previous = prev,
            ar_signature = sig, ar_public_key = pk, ar_kind = kind\<rparr>))))))))))"

definition decision_to_dict :: "'k lib \<Rightarrow> decision_record \<Rightarrow> json" where
  "decision_to_dict L r = JObj (decision_fields r @
     [(''content_hash'', JStr (content_hash L (Dec r))),
      (''signature'', hex_json (dr_signature r)), (''public_key'', hex_json (dr_public_key r))])"

definition objects :: "string \<Rightarrow> (args \<Rightarrow> decode_error + 'a) \<Rightarrow> args \<Rightarrow> decode_error + 'a list" where
  "objects k f d = bindS (as_items (field_or k (JArr []) d)) (traverse (\<lambda>j. bindS (as_object j) f))"

definition decision_from_dict :: "'k lib \<Rightarrow> args \<Rightarrow> decode_error + decision_record" where
  "decision_from_dict L d =
     bindS (text_field ''agent_id'' d) (\<lambda>aid.
     bindS (text_field ''decision_point'' d) (\<lambda>point.
     bindS (as_object (field_or ''candidate_action'' (JObj []) d)) (\<lambda>action.
     bindS (objects ''decision_inputs'' input_from_dict d) (\<lambda>inputs.
     bindS (texts (field_or ''reasoning_chain'' (JArr []) d)) (\<lambda>chain.
     bindS (objects ''rejected_alternatives'' alternative_from_dict d) (\<lambda>alts.
     bindS (texts (field_or ''goal_state'' (JArr []) d)) (\<lambda>goals.
     bindS (bindS (as_text (field_or ''capture_tier'' (JStr ''minimal'') d)) tier_of) (\<lambda>tier.
     bindS (as_boolean (field_or ''redacted'' (JBool True) d)) (\<lambda>red.
     bindS (text_field ''record_id'' d) (\<lambda>rid.
     bindS (timestamp_field L ''timestamp'' d) (\<lambda>time.
     bindS (as_opt_text (field_or ''chain_previous'' JNull d)) (\<lambda>prev.
     bindS (hex_field ''signature'' d) (\<lambda>sig.
     bindS (hex_field ''public_key'' d) (\<lambda>pk.
     bindS (as_text (field_or ''record_kind'' (JStr ''decision'') d)) (\<lambda>kind.
       Inr \<lparr>dr_agent_id = aid, dr_decision_point = point,
            dr_candidate_action = map (\<lambda>(k, v). (k, raw_of v)) action,
            dr_decision_inputs = inputs, dr_reasoning_chain = chain,
            dr_rejected_alternatives = alts, dr_goal_state = goals, dr_capture_tier = tier,
            dr_redacted = red, dr_record_id = rid, dr_timestamp = time, dr_previous = prev,
            dr_signature = sig, dr_public_key = pk, dr_kind = kind\<rparr>)))))))))))))))"

fun record_to_dict :: "'k lib \<Rightarrow> chained \<Rightarrow> json" where
  "record_to_dict L (Att r) = attestation_to_dict L r"
| "record_to_dict L (Dec r) = decision_to_dict L r"

definition build_decision_record ::
  "'k lib \<Rightarrow> string \<Rightarrow> string \<Rightarrow> string \<Rightarrow> string \<Rightarrow> (string \<times> raw) list \<Rightarrow> string list option
     \<Rightarrow> rejected_alternative list option \<Rightarrow> decision_input list option \<Rightarrow> string list option
     \<Rightarrow> string option \<Rightarrow> 'k option \<Rightarrow> exn + chained" where
  "build_decision_record L uuid now aid point action chain alts inputs goals prev key =
     (let r = Dec \<lparr>dr_agent_id = aid, dr_decision_point = point, dr_candidate_action = action,
            dr_decision_inputs = (case inputs of None \<Rightarrow> [] | Some x \<Rightarrow> x),
            dr_reasoning_chain = (case chain of None \<Rightarrow> [] | Some x \<Rightarrow> x),
            dr_rejected_alternatives = (case alts of None \<Rightarrow> [] | Some x \<Rightarrow> x),
            dr_goal_state = (case goals of None \<Rightarrow> [] | Some x \<Rightarrow> x),
            dr_capture_tier = infer_capture_tier chain alts, dr_redacted = True,
            dr_record_id = uuid, dr_timestamp = now, dr_previous = prev, dr_signature = None,
            dr_public_key = None, dr_kind = ''decision''\<rparr>
      in case key of None \<Rightarrow> Inr r | Some k \<Rightarrow> sign L k r)"

section \<open>Coercion to JSON\<close>

text \<open>Values all of whose objects have distinct keys, as every decoded value has.\<close>

fun json_wf :: "json \<Rightarrow> bool" where
  "json_wf (JArr xs) = list_all json_wf xs"
| "json_wf (JObj d) = (dict_ok d \<and> list_all (\<lambda>(k, v). json_wf v) d)"
| "json_wf _ = True"

lemma dict_of_props:
  "dict_ok acc \<Longrightarrow> (\<forall>kv \<in> set acc \<union> set kvs. P (snd kv)) \<Longrightarrow>
     dict_ok (fold (\<lambda>(k, v). dict_set k v) kvs acc) \<and>
     (\<forall>kv \<in> set (fold (\<lambda>(k, v). dict_set k v) kvs acc). P (snd kv))"
proof (induction kvs arbitrary: acc)
  case (Cons kv kvs)
  obtain k v where kv: "kv = (k, v)" by (cases kv)
  have "set (dict_set k v acc) \<subseteq> insert (k, v) (set acc)"
    by (induction k v acc rule: dict_set.induct) auto
  with Cons.prems kv have "\<forall>q \<in> set (dict_set k v acc) \<union> set kvs. P (snd q)" by auto
  with Cons.IH [of "dict_set k v acc"] Cons.prems kv show ?case by simp
qed simp

lemma dict_of_wf:
  "\<forall>kv \<in> set kvs. json_wf (snd kv) \<Longrightarrow> json_wf (JObj (dict_of kvs))"
  using dict_of_props [of "[]" kvs json_wf] by (auto simp: dict_of_def list_all_iff)

lemma dict_of_distinct: "dict_ok kvs \<Longrightarrow> dict_of kvs = kvs"
proof -
  have "dict_ok (acc @ kvs) \<Longrightarrow> fold (\<lambda>(k, v). dict_set k v) kvs acc = acc @ kvs" for acc
  proof (induction kvs arbitrary: acc)
    case (Cons kv kvs)
    obtain k v where kv: "kv = (k, v)" by (cases kv)
    with Cons.prems have "dict_set k v acc = acc @ [(k, v)]"
      by (intro dict_set_fresh) auto
    with Cons kv show ?case by simp
  qed simp
  from this [of "[]"] show "dict_ok kvs \<Longrightarrow> dict_of kvs = kvs" by (simp add: dict_of_def)
qed

lemma json_safe_wf: "json_wf (json_safe v)"
proof (induction v)
  case (RDict d)
  then have "\<forall>kv \<in> set (map (\<lambda>(k, v). (k, json_safe v)) d). json_wf (snd kv)" by fastforce
  from dict_of_wf [OF this] show ?case by simp
next
  case (RDataclass d)
  then have "\<forall>kv \<in> set (map (\<lambda>(k, v). (k, json_safe v)) d). json_wf (snd kv)" by fastforce
  from dict_of_wf [OF this] show ?case by simp
qed (simp_all add: list_all_iff)

lemma json_safe_raw_of: "json_wf j \<Longrightarrow> json_safe (raw_of j) = j"
proof (induction j)
  case (JObj d)
  have "map ((\<lambda>(k, v). (k, json_safe v)) \<circ> (\<lambda>(k, v). (k, raw_of v))) d = map (\<lambda>x. x) d"
  proof (rule map_cong [OF refl])
    fix x assume x: "x \<in> set d"
    obtain k v where kv: "x = (k, v)" by (cases x)
    with x JObj.prems have "json_wf v" by (auto simp: list_all_iff)
    with JObj.IH [of "(k, v)" v] x kv
    show "((\<lambda>(k, v). (k, json_safe v)) \<circ> (\<lambda>(k, v). (k, raw_of v))) x = x" by simp
  qed
  with JObj.prems show ?case by (simp add: dict_of_distinct)
qed (simp_all add: list_all_iff map_idI)

section \<open>Round trips\<close>

text \<open>A record whose timestamps are ISO texts and whose signature fields are not empty bytes.\<close>

fun record_ok :: "'k lib \<Rightarrow> chained \<Rightarrow> bool" where
  "record_ok L (Att r) \<longleftrightarrow> ar_kind r = ''attestation'' \<and> l_iso_ok L (ar_timestamp r) \<and>
     (\<forall>e \<in> set (ar_evidence r). l_iso_ok L (ev_timestamp e)) \<and>
     ar_signature r \<noteq> Some [] \<and> ar_public_key r \<noteq> Some []"
| "record_ok L (Dec r) \<longleftrightarrow> dr_kind r = ''decision'' \<and> l_iso_ok L (dr_timestamp r) \<and>
     dr_signature r \<noteq> Some [] \<and> dr_public_key r \<noteq> Some []"

text \<open>What serialisation keeps: everything, the candidate action in its JSON form.\<close>

fun normalised :: "chained \<Rightarrow> chained" where
  "normalised (Att r) = Att r"
| "normalised (Dec r) = Dec (r\<lparr>dr_candidate_action :=
     map (\<lambda>(k, v). (k, raw_of v)) (as_dict (json_safe (RDict (dr_candidate_action r))))\<rparr>)"

lemma evidence_roundtrip:
  "l_iso_ok L (ev_timestamp e) \<Longrightarrow>
     bindS (as_object (evidence_to_dict e)) (evidence_from_dict L) = Inr e"
  by (simp add: evidence_to_dict_def evidence_from_dict_def text_field_def timestamp_field_def
      field_def)

lemma attestation_roundtrip:
  assumes "record_ok L (Att r)"
  shows "bindS (as_object (attestation_to_dict L r)) (attestation_from_dict L) = Inr r"
  using assms
  by (simp add: attestation_to_dict_def attestation_from_dict_def text_field_def
      timestamp_field_def field_def field_or_def traverse_map_id evidence_roundtrip
      hex_field_def hex_decode_json)

lemma input_roundtrip: "bindS (as_object (input_to_dict i)) input_from_dict = Inr i"
  by (simp add: input_to_dict_def input_from_dict_def text_field_def field_def)

lemma alternative_roundtrip:
  "bindS (as_object (alternative_to_dict a)) alternative_from_dict = Inr a"
  by (simp add: alternative_to_dict_def alternative_from_dict_def text_field_def field_def)

lemma tier_of_value [simp]: "tier_of (tier_value t) = Inr t"
  by (cases t) (simp_all add: tier_of_def enum_of_def)

lemma json_safe_dict: "\<exists>d. json_safe (RDict kvs) = JObj d"
  by simp

lemma decision_roundtrip:
  assumes "record_ok L (Dec r)"
  shows "bindS (as_object (decision_to_dict L r)) (decision_from_dict L) =
     Inr (r\<lparr>dr_candidate_action :=
       map (\<lambda>(k, v). (k, raw_of v)) (as_dict (json_safe (RDict (dr_candidate_action r))))\<rparr>)"
  using assms
  by (simp add: decision_to_dict_def decision_fields_def decision_from_dict_def objects_def
      text_field_def timestamp_field_def field_def field_or_def traverse_map_id input_roundtrip
      alternative_roundtrip hex_field_def hex_decode_json)

lemma payload_normalised: "payload (normalised r) = payload r"
proof (cases r)
  case (Dec d)
  obtain o' where ob: "json_safe (RDict (dr_candidate_action d)) = JObj o'"
    using json_safe_dict by blast
  then have "json_safe (raw_of (JObj o')) = JObj o'"
    using json_safe_raw_of [OF json_safe_wf [of "RDict (dr_candidate_action d)"]] by simp
  then have "json_safe (RDict (map (\<lambda>(k, v). (k, raw_of v)) o')) = JObj o'"
    unfolding raw_of.simps .
  with ob Dec show ?thesis
    by (simp add: decision_payload_def decision_fields_def del: json_safe.simps)
qed simp

lemma hash_normalised [simp]:
  "content_hash L (normalised r) = content_hash L r" "chain_previous (normalised r) = chain_previous r"
  "canonical_payload L (normalised r) = canonical_payload L r"
proof -
  show "chain_previous (normalised r) = chain_previous r" by (cases r) simp_all
qed (simp_all add: content_hash_def canonical_payload_def payload_normalised)

section \<open>The canonical text determines the record's payload\<close>

lemma sort_key_map_of:
  assumes "distinct (map fst d)"
  shows "map_of (sort_key fst d) = map_of d"
proof -
  have "distinct d" "inj_on fst (set d)" using assms by (auto simp: distinct_map)
  then have "distinct (map fst (sort_key fst d))" unfolding distinct_map set_sort by simp
  from map_of_inject_set [OF this assms] show ?thesis by simp
qed

lemma sorted_lookup:
  assumes "sort_keys (JObj d) = sort_keys (JObj e)" and "dict_ok d" and "dict_ok e"
  shows "map_option sort_keys (map_of d k) = map_option sort_keys (map_of e k)"
proof -
  let ?f = "map (\<lambda>(k, v). (k, sort_keys v))"
  have keys: "map fst (?f x) = map fst x" for x :: "(string \<times> json) list"
    by (simp add: case_prod_beta')
  have "map_of (?f x) k = map_option sort_keys (map_of x k)" for x :: "(string \<times> json) list"
    by (induction x) auto
  moreover have "map_of (?f d) = map_of (?f e)"
  proof -
    have "distinct (map fst (?f d))" "distinct (map fst (?f e))"
      unfolding keys by (rule assms(2), rule assms(3))
    from this [THEN sort_key_map_of] assms(1) show ?thesis by simp
  qed
  ultimately show ?thesis by metis
qed

lemma payload_object: "\<exists>d. payload r = JObj d \<and> dict_ok d \<and>
    map_of d ''chain_previous'' = Some (json_opt JStr (chain_previous r)) \<and>
    map_of d ''record_id'' = Some (JStr (record_id r)) \<and>
    map_of d ''record_kind'' = Some (JStr (record_kind r))"
  by (cases r) (simp_all add: attestation_payload_def decision_payload_def decision_fields_def)

lemma same_payload_fields:
  assumes "sort_keys (payload r) = sort_keys (payload q)"
  shows "chain_previous r = chain_previous q" and "record_id r = record_id q"
    and "record_kind r = record_kind q"
proof -
  obtain d where d: "payload r = JObj d" "dict_ok d"
    "map_of d ''chain_previous'' = Some (json_opt JStr (chain_previous r))"
    "map_of d ''record_id'' = Some (JStr (record_id r))"
    "map_of d ''record_kind'' = Some (JStr (record_kind r))"
    using payload_object [of r] by blast
  obtain e where e: "payload q = JObj e" "dict_ok e"
    "map_of e ''chain_previous'' = Some (json_opt JStr (chain_previous q))"
    "map_of e ''record_id'' = Some (JStr (record_id q))"
    "map_of e ''record_kind'' = Some (JStr (record_kind q))"
    using payload_object [of q] by blast
  have look: "map_option sort_keys (map_of d k) = map_option sort_keys (map_of e k)" for k
    using sorted_lookup [of d e k] assms d(1,2) e(1,2) by simp
  from look [of "''chain_previous''"] d e show "chain_previous r = chain_previous q"
    by (cases "chain_previous r"; cases "chain_previous q") simp_all
  from look [of "''record_id''"] d e show "record_id r = record_id q" by simp
  from look [of "''record_kind''"] d e show "record_kind r = record_kind q" by simp
qed

lemma canonical_payload_unique:
  "float_text_ok (l_float L) \<Longrightarrow> canonical_payload L r = canonical_payload L q \<Longrightarrow>
     sort_keys (payload r) = sort_keys (payload q)"
  unfolding canonical_payload_def by (rule canonical_text_unique)

end
