(* ===== verification/Attestation_Chain.thy ===== *)
theory Attestation_Chain
  imports Records Evaluator
begin

text \<open>
  \<open>AttestationChain\<close> and \<open>build_attestation_record\<close> (core/attestation.py): appending, restarting
  from a verified prefix, the verifications of hash links, decision links, cross-agent links and
  signatures, and serialisation of a chain. A chain is the list of its records.
\<close>

type_synonym chain = "chained list"

section \<open>Operations\<close>

definition expected_previous :: "'k lib \<Rightarrow> chain \<Rightarrow> string option" where
  "expected_previous L c = (if c = [] then None else Some (content_hash L (last c)))"

definition chain_append :: "'k lib \<Rightarrow> chain \<Rightarrow> chained \<Rightarrow> exn + chain" where
  "chain_append L c r =
     (if chain_previous r = None then Inr (c @ [set_previous (expected_previous L c) r])
      else if chain_previous r \<noteq> expected_previous L c
      then Inl (ValueError ''chain_previous mismatch'')
      else Inr (c @ [r]))"

text \<open>The loop of \<open>verify_chain_detailed\<close> over the indices from \<open>i\<close>, \<open>p\<close> being the record before.\<close>

fun link_loop :: "'k lib \<Rightarrow> nat \<Rightarrow> chained \<Rightarrow> chain \<Rightarrow> bool \<times> nat option \<times> string option" where
  "link_loop L i p [] = (True, None, None)"
| "link_loop L i p (r # rs) =
     (if chain_previous r \<noteq> Some (content_hash L p) then (False, Some i, Some (record_kind r))
      else link_loop L (Suc i) r rs)"

definition verify_chain_detailed :: "'k lib \<Rightarrow> chain \<Rightarrow> bool \<times> nat option \<times> string option" where
  "verify_chain_detailed L c =
     (case c of
        [] \<Rightarrow> (True, None, None)
      | r # rs \<Rightarrow>
          if chain_previous r \<noteq> None then (False, Some 0, Some (record_kind r))
          else link_loop L 1 r rs)"

definition verify_chain :: "'k lib \<Rightarrow> chain \<Rightarrow> bool" where
  "verify_chain L c = fst (verify_chain_detailed L c)"

text \<open>\<open>restart_from\<close>: the removed records and the new chain.\<close>

definition restart_from :: "'k lib \<Rightarrow> chain \<Rightarrow> chain \<Rightarrow> exn + chain \<times> chain" where
  "restart_from L c rs =
     (if \<not> verify_chain L rs
      then Inl (ValueError ''restart_from needs records that verify as a chain'')
      else Inr (c, rs))"

section \<open>Decision links\<close>

text \<open>\<open>decisions_by_id\<close>: the position and the record of the last decision with an id.\<close>

fun decisions_by_id :: "nat \<Rightarrow> chain \<Rightarrow> (string, nat \<times> chained) dict \<Rightarrow> (string, nat \<times> chained) dict" where
  "decisions_by_id i [] d = d"
| "decisions_by_id i (r # rs) d =
     decisions_by_id (Suc i) rs
       (if record_kind r = ''decision'' then dict_set (record_id r) (i, r) d else d)"

fun evidence_of :: "chained \<Rightarrow> evidence list" where
  "evidence_of (Att r) = ar_evidence r"
| "evidence_of (Dec r) = []"

definition decision_link_ok :: "'k lib \<Rightarrow> (string, nat \<times> chained) dict \<Rightarrow> nat \<Rightarrow> evidence \<Rightarrow> bool" where
  "decision_link_ok L d i ev =
     (if ev_type ev \<noteq> ''decision'' then True
      else case map_of d (ev_source ev) of
        None \<Rightarrow> False
      | Some (j, r) \<Rightarrow> j < i \<and> content_hash L r = ev_hash ev)"

fun decision_loop :: "'k lib \<Rightarrow> (string, nat \<times> chained) dict \<Rightarrow> nat \<Rightarrow> chain \<Rightarrow> bool" where
  "decision_loop L d i [] = True"
| "decision_loop L d i (r # rs) =
     (if list_all (decision_link_ok L d i) (evidence_of r) then decision_loop L d (Suc i) rs else False)"

definition verify_decision_links :: "'k lib \<Rightarrow> chain \<Rightarrow> bool" where
  "verify_decision_links L c = decision_loop L (decisions_by_id 0 c []) 0 c"

section \<open>Cross-agent links\<close>

text \<open>A key provider may raise (the file provider does, on an invalid agent id).\<close>

type_synonym key_provider = "string \<Rightarrow> exn + string option"

definition cross_evidence :: "chain \<Rightarrow> evidence list" where
  "cross_evidence c = filter (\<lambda>ev. ev_type ev \<in> {''peer_message'', ''handoff''})
     (concat (map evidence_of c))"

definition cross_link ::
  "'k lib \<Rightarrow> (string, chain) dict \<Rightarrow> key_provider option \<Rightarrow> evidence \<Rightarrow> exn + bool" where
  "cross_link L peers kp ev =
     (if CHR '':'' \<notin> set (ev_source ev) then Inr False
      else case split1 (CHR '':'') (ev_source ev) of (peer_id, rid) \<Rightarrow>
        (case map_of peers peer_id of
           None \<Rightarrow> Inr False
         | Some peer \<Rightarrow>
             (case find (\<lambda>r. record_id r = rid) peer of
                None \<Rightarrow> Inr False
              | Some matched \<Rightarrow>
                  if content_hash L matched \<noteq> ev_hash ev then Inr False
                  else case kp of
                    None \<Rightarrow> Inr True
                  | Some provider \<Rightarrow>
                      bindS (provider peer_id) (\<lambda>pinned.
                        case pinned of
                          None \<Rightarrow> Inr False
                        | Some key \<Rightarrow>
                            if public_key matched \<noteq> Some key then Inr False
                            else verify L matched None))))"

fun all_true :: "('a \<Rightarrow> 'e + bool) \<Rightarrow> 'a list \<Rightarrow> 'e + bool" where
  "all_true f [] = Inr True"
| "all_true f (x # xs) = bindS (f x) (\<lambda>b. if b then all_true f xs else Inr False)"

definition verify_cross_agent_links ::
  "'k lib \<Rightarrow> chain \<Rightarrow> (string, chain) dict option \<Rightarrow> key_provider option \<Rightarrow> exn + bool" where
  "verify_cross_agent_links L c peers kp =
     (if cross_evidence c = [] then Inr True
      else case peers of
        None \<Rightarrow> Inr False
      | Some ps \<Rightarrow> all_true (cross_link L ps kp) (cross_evidence c))"

section \<open>Signatures\<close>

definition is_trusted :: "string set option \<Rightarrow> string option \<Rightarrow> bool" where
  "is_trusted trusted pk \<longleftrightarrow>
     (case trusted of None \<Rightarrow> True | Some keys \<Rightarrow> pk \<in> Some ` keys)"

fun signature_loop :: "'k lib \<Rightarrow> string set option \<Rightarrow> nat \<Rightarrow> chain \<Rightarrow> exn + bool \<times> nat option" where
  "signature_loop L trusted i [] = Inr (True, None)"
| "signature_loop L trusted i (r # rs) =
     (if signature r = None \<or> public_key r = None then Inr (False, Some i)
      else if \<not> is_trusted trusted (public_key r) then Inr (False, Some i)
      else bindS (verify L r None) (\<lambda>ok.
        if \<not> ok then Inr (False, Some i) else signature_loop L trusted (Suc i) rs))"

definition verify_signatures ::
  "'k lib \<Rightarrow> chain \<Rightarrow> string set option \<Rightarrow> exn + bool \<times> nat option" where
  "verify_signatures L c trusted = signature_loop L trusted 0 c"

text \<open>\<open>any(not r.verify() for r in signed)\<close>.\<close>

definition all_verify :: "'k lib \<Rightarrow> chain \<Rightarrow> exn + bool" where
  "all_verify L signed = all_true (\<lambda>r. verify L r None) signed"

definition signature_status :: "'k lib \<Rightarrow> chain \<Rightarrow> string set option \<Rightarrow> exn + string" where
  "signature_status L c trusted =
     (if c = [] then Inr ''none''
      else let signed = filter (\<lambda>r. signature r \<noteq> None) c in
        if signed = [] then Inr ''unsigned''
        else if list_ex (\<lambda>r. \<not> str_truthy (public_key r)) signed then Inr ''invalid''
        else (case all_verify L signed of
          Inl (ImportError _) \<Rightarrow> Inr ''unverifiable''
        | Inl e \<Rightarrow> Inl e
        | Inr ok \<Rightarrow>
            if \<not> ok then Inr ''invalid''
            else if length signed < length c then Inr ''partially_signed''
            else if trusted = None then Inr ''signed''
            else Inr (if list_all (\<lambda>r. is_trusted trusted (public_key r)) signed
                      then ''trusted'' else ''untrusted'')))"

section \<open>Serialisation\<close>

definition to_records_dict :: "'k lib \<Rightarrow> chain \<Rightarrow> json list" where
  "to_records_dict L c = map (record_to_dict L) c"

definition record_from_dict :: "'k lib \<Rightarrow> args \<Rightarrow> decode_error + chained" where
  "record_from_dict L d =
     (let kind = field_or ''record_kind'' (JStr ''attestation'') d in
      if kind = JStr ''attestation'' then bindS (attestation_from_dict L d) (\<lambda>r. Inr (Att r))
      else if kind = JStr ''decision'' then bindS (decision_from_dict L d) (\<lambda>r. Inr (Dec r))
      else Inl (Fails (ValueError ''Unknown record_kind'')))"

definition from_dict_list :: "'k lib \<Rightarrow> json list \<Rightarrow> decode_error + chain" where
  "from_dict_list L js = traverse (\<lambda>j. bindS (as_object j) (record_from_dict L)) js"

section \<open>Building an attestation\<close>

text \<open>\<open>f"{x:.3f}"\<close> for a nonnegative or negative number.\<close>

definition pad3 :: "nat \<Rightarrow> string" where
  "pad3 n = replicate (3 - length (nat_text n)) (CHR ''0'') @ nat_text n"

definition fixed3 :: "rat \<Rightarrow> string" where
  "fixed3 x = (let n = nat (round_half_even (\<bar>x\<bar> * 1000)) in
     (if x < 0 then ''-'' else []) @ nat_text (n div 1000) @ ''.'' @ pad3 (n mod 1000))"

record credential_ref =
  cr_provider :: string
  cr_label :: string
  cr_fingerprint :: string

definition layer_result_evidence :: "'k lib \<Rightarrow> string \<Rightarrow> layer_result \<Rightarrow> evidence" where
  "layer_result_evidence L now r =
     \<lparr>ev_type = ''layer_result'', ev_source = lr_name r,
      ev_hash = l_sha256 L (canonical_text (l_float L) (layer_result_to_dict r)),
      ev_summary = lr_name r @ '': '' @ fixed3 (lr_score r) @ '' ('' @ lr_action r @ '')'',
      ev_timestamp = now\<rparr>"

definition decision_evidence :: "'k lib \<Rightarrow> string \<Rightarrow> decision_record \<Rightarrow> evidence" where
  "decision_evidence L now d =
     \<lparr>ev_type = ''decision'', ev_source = dr_record_id d, ev_hash = content_hash L (Dec d),
      ev_summary = dr_decision_point d @ '': '' @ tier_value (dr_capture_tier d),
      ev_timestamp = now\<rparr>"

definition topology_evidence :: "'k lib \<Rightarrow> string \<Rightarrow> agent_topology \<Rightarrow> evidence" where
  "topology_evidence L now t =
     \<lparr>ev_type = ''topology'', ev_source = at_topology_id t, ev_hash = topology_hash L t,
      ev_summary = kind_value (at_kind t) @ '': '' @ nat_text (length (at_members t)) @ '' members'',
      ev_timestamp = now\<rparr>"

definition change_evidence :: "string \<Rightarrow> topology_change \<Rightarrow> evidence" where
  "change_evidence now c =
     \<lparr>ev_type = ''topology_change'', ev_source = tc_previous_topology_id c,
      ev_hash = tc_new_content_hash c,
      ev_summary = ''+'' @ nat_text (length (tc_added_members c)) @ '' -'' @
        nat_text (length (tc_removed_member_ids c)) @ '' members'',
      ev_timestamp = now\<rparr>"

definition credential_evidence :: "string \<Rightarrow> credential_ref \<Rightarrow> evidence" where
  "credential_evidence now c =
     \<lparr>ev_type = ''credential_use'', ev_source = cr_provider c, ev_hash = cr_fingerprint c,
      ev_summary = cr_label c, ev_timestamp = now\<rparr>"

text \<open>
  What an attestation is built from; \<open>now\<close> is the text of the clock while the record is built
  (the evidence entries and the record are stamped within one call), \<open>uuid\<close> what \<open>uuid4\<close> gives.
\<close>

record attestation_inputs =
  ai_profile_id :: string
  ai_score :: integrity_score
  ai_previous :: "string option"
  ai_decisions :: "decision_record list option"
  ai_topology :: "agent_topology option"
  ai_change :: "topology_change option"
  ai_credentials :: "credential_ref list option"

definition opt_list :: "'a list option \<Rightarrow> 'a list" where
  "opt_list xs = (case xs of None \<Rightarrow> [] | Some ys \<Rightarrow> ys)"

text \<open>\<open>layer_states\<close>: a dictionary by layer name; a later layer of the same name replaces.\<close>

definition layer_states :: "layer_result list \<Rightarrow> args" where
  "layer_states rs = dict_of (map (\<lambda>r. (lr_name r, layer_result_to_dict r)) rs)"

definition attestation_evidence :: "'k lib \<Rightarrow> string \<Rightarrow> attestation_inputs \<Rightarrow> evidence list" where
  "attestation_evidence L now b =
     map (layer_result_evidence L now) (is_layer_results (ai_score b)) @
     map (decision_evidence L now) (opt_list (ai_decisions b)) @
     (case ai_topology b of None \<Rightarrow> [] | Some t \<Rightarrow> [topology_evidence L now t]) @
     (case ai_change b of None \<Rightarrow> [] | Some c \<Rightarrow> [change_evidence now c]) @
     map (credential_evidence now) (opt_list (ai_credentials b))"

definition build_attestation_record ::
  "'k lib \<Rightarrow> string \<Rightarrow> string \<Rightarrow> attestation_inputs \<Rightarrow> 'k option \<Rightarrow> exn + chained" where
  "build_attestation_record L uuid now b key =
     (let r = Att \<lparr>ar_agent_id = ai_profile_id b, ar_integrity_score = score_to_dict (ai_score b),
            ar_layer_states = layer_states (is_layer_results (ai_score b)),
            ar_evidence = attestation_evidence L now b, ar_record_id = uuid, ar_timestamp = now,
            ar_previous = ai_previous b, ar_signature = None, ar_public_key = None,
            ar_kind = ''attestation''\<rparr>
      in case key of None \<Rightarrow> Inr r | Some k \<Rightarrow> sign L k r)"

end
