(* ===== verification/Keys.thy ===== *)
theory Keys
  imports Checkpoints Attestation_Chain
begin

text \<open>
  Key providers (core/keys.py): the interface as a locale, what cross-agent verification gains
  from it, and its interpretations on the in-memory and the file provider. Creating a signing key
  is file-system and PEM work and is not modelled.
\<close>

section \<open>The interface\<close>

text \<open>A provider that answers or refuses the identity itself with a \<open>ValueError\<close>.\<close>

locale key_provider =
  fixes get_public_key :: "string \<Rightarrow> exn + string option"
  assumes refusal: "get_public_key agent_id = Inl e \<Longrightarrow> \<exists>m. e = ValueError m"
begin

lemma cross_link_pinned:
  assumes "cross_link L peers (Some get_public_key) ev = Inr True"
  obtains peer_id rid peer matched key where
    "split1 (CHR '':'') (ev_source ev) = (peer_id, rid)" "map_of peers peer_id = Some peer"
    "find (\<lambda>r. record_id r = rid) peer = Some matched" "content_hash L matched = ev_hash ev"
    "get_public_key peer_id = Inr (Some key)" "public_key matched = Some key"
    "verify L matched None = Inr True"
  using assms
  by (auto simp: cross_link_def exn_simps split: if_splits prod.splits option.splits)

lemma cross_link_errors:
  assumes "l_crypto L" and "cross_link L peers (Some get_public_key) ev = Inl e"
  shows "\<exists>m. e = ValueError m"
  using assms
  by (auto simp: cross_link_def bindS_def verify_def verify_canonical_def
      split: if_splits prod.splits option.splits sum.splits dest: refusal)

lemma all_true_Inl: "all_true f xs = Inl e \<Longrightarrow> \<exists>x \<in> set xs. f x = Inl e"
  by (induction xs) (auto simp: bindS_def split: sum.splits if_splits)

lemma verification_errors:
  assumes "l_crypto L" and "verify_cross_agent_links L c peers (Some get_public_key) = Inl e"
  shows "\<exists>m. e = ValueError m"
  using assms cross_link_errors
  by (auto simp: verify_cross_agent_links_def split: if_splits option.splits dest!: all_true_Inl)

end

section \<open>The providers\<close>

definition static_key :: "(string, string) dict \<Rightarrow> string \<Rightarrow> exn + string option" where
  "static_key keys agent_id = Inr (map_of keys agent_id)"

interpretation static_keys: key_provider "static_key keys" for keys
  by unfold_locales (simp add: static_key_def)

text \<open>
  The directory, by file name: the text of a readable file, or \<open>None\<close> for one whose reading
  fails (an \<open>OSError\<close>, or bytes that are no UTF-8).
\<close>

type_synonym key_directory = "(string, string option) dict"

definition file_key :: "key_directory \<Rightarrow> string \<Rightarrow> exn + string option" where
  "file_key dir agent_id =
     bindS (validate_storage_identifier agent_id ''agent_id'') (\<lambda>_.
       case map_of dir (agent_id @ ''.pub'') of
         None \<Rightarrow> Inr None
       | Some None \<Rightarrow> Inr None
       | Some (Some text) \<Rightarrow> Inr (from_hex (strip text)))"

interpretation file_keys: key_provider "file_key dir" for dir
  by unfold_locales
    (auto simp: file_key_def bindS_def validate_storage_identifier_def
      split: sum.splits option.splits if_splits)

text \<open>A malformed or unreadable file hides only its own agent.\<close>

lemma file_key_local:
  assumes "map_of dir' = (map_of dir)(bad @ ''.pub'' := f)" and "agent_id \<noteq> bad"
  shows "file_key dir' agent_id = file_key dir agent_id"
  using assms by (simp add: file_key_def)

text \<open>Neither provider checks the documented 32 bytes of a key.\<close>

lemma short_key_accepted:
  "\<exists>key. file_key [(''a.pub'', Some ''41'')] ''a'' = Inr (Some key) \<and> length key = 1"
  by (simp add: file_key_def validate_storage_identifier_def storage_identifier_def
      identifier_text_def identifier_char_def strip_def is_space_def hex_value_def ascii_space_def)

end
