(* ===== verification/Tool_Names.thy ===== *)
theory Tool_Names
  imports Decoding
begin

text \<open>
  How the governance rules read a call (layers/governance.py): tool names against pattern sets
  with \<open>fnmatch\<close> globs and the MCP suffix, the words of a tool name, and the \<open>amount\<close> of a
  payment. The values come from dictionaries, so a value of another type raises what Python
  raises there.
\<close>

section \<open>Globs\<close>

text \<open>
  \<open>fnmatch.fnmatchcase\<close>: a pattern is a sequence of literals, \<open>?\<close>, \<open>*\<close> and bracket classes with
  ranges; an unclosed bracket is a literal.
\<close>

datatype glob_item = Lit char | Any | Star | Class bool "(char \<times> char) list"

definition code :: "char \<Rightarrow> nat" where
  "code c = of_char c"

fun class_ranges :: "string \<Rightarrow> (char \<times> char) list" where
  "class_ranges (a # b # c # cs) =
     (if b = CHR ''-'' then (a, c) # class_ranges cs else (a, a) # class_ranges (b # c # cs))"
| "class_ranges (a # cs) = (a, a) # class_ranges cs"
| "class_ranges [] = []"

text \<open>The body of a class: a first closing bracket, also after the negation, belongs to it.\<close>

definition class_body :: "string \<Rightarrow> (bool \<times> string \<times> string) option" where
  "class_body cs =
     (let neg = (take 1 cs = ''!''); rest = (if neg then tl cs else cs);
          lead = (if take 1 rest = '']'' then 1 else 0);
          body = take lead rest @ takeWhile (\<lambda>c. c \<noteq> CHR '']'') (drop lead rest)
      in if length body < length rest then Some (neg, body, drop (Suc (length body)) rest)
         else None)"

lemma class_body_shorter: "class_body cs = Some (neg, body, rest) \<Longrightarrow> length rest < length cs"
  by (auto simp: class_body_def Let_def split: if_splits)

function glob_items :: "string \<Rightarrow> glob_item list" where
  "glob_items [] = []"
| "glob_items (c # cs) =
     (if c = CHR ''*'' then Star # glob_items cs
      else if c = CHR ''?'' then Any # glob_items cs
      else if c = CHR ''['' then
        (case class_body cs of
           None \<Rightarrow> Lit c # glob_items cs
         | Some (neg, body, rest) \<Rightarrow> Class neg (class_ranges body) # glob_items rest)
      else Lit c # glob_items cs)"
  by pat_completeness auto
termination
  by (relation "measure length") (auto dest: class_body_shorter)

definition in_class :: "char \<Rightarrow> bool \<Rightarrow> (char \<times> char) list \<Rightarrow> bool" where
  "in_class c neg ranges = (neg \<noteq> list_ex (\<lambda>(a, b). code a \<le> code c \<and> code c \<le> code b) ranges)"

fun glob_match :: "glob_item list \<Rightarrow> string \<Rightarrow> bool" where
  "glob_match [] s = (s = [])"
| "glob_match (Star # ps) [] = glob_match ps []"
| "glob_match (Star # ps) (c # s) = (glob_match ps (c # s) \<or> glob_match (Star # ps) s)"
| "glob_match (_ # ps) [] = False"
| "glob_match (Lit p # ps) (c # s) = (p = c \<and> glob_match ps s)"
| "glob_match (Any # ps) (c # s) = glob_match ps s"
| "glob_match (Class neg rs # ps) (c # s) = (in_class c neg rs \<and> glob_match ps s)"

definition fnmatchcase :: "string \<Rightarrow> string \<Rightarrow> bool" where
  "fnmatchcase name pat = glob_match (glob_items pat) name"

text \<open>A declarative reading: the name splits into pieces the items admit.\<close>

fun admits :: "glob_item \<Rightarrow> string \<Rightarrow> bool" where
  "admits Star s = True"
| "admits Any s = (length s = 1)"
| "admits (Lit p) s = (s = [p])"
| "admits (Class neg rs) s = (\<exists>c. s = [c] \<and> in_class c neg rs)"

lemma glob_match_star: "glob_match (Star # ps) s \<longleftrightarrow> (\<exists>u v. s = u @ v \<and> glob_match ps v)"
proof (induction s)
  case Nil
  show ?case by simp
next
  case (Cons c s)
  have "(\<exists>u v. c # s = u @ v \<and> glob_match ps v) \<longleftrightarrow>
      glob_match ps (c # s) \<or> (\<exists>u v. s = u @ v \<and> glob_match ps v)"
    by (metis append_Cons append_Nil append_eq_Cons_conv)
  with Cons show ?case by simp
qed

lemma admits_single: "p \<noteq> Star \<Longrightarrow> admits p u \<Longrightarrow> \<exists>c. u = [c]"
  by (cases p) (auto simp: length_Suc_conv)

lemma glob_match_single:
  "p \<noteq> Star \<Longrightarrow> glob_match (p # ps) (c # s) \<longleftrightarrow> admits p [c] \<and> glob_match ps s"
  by (cases p) auto

lemma glob_match_Cons: "glob_match (p # ps) s \<longleftrightarrow> (\<exists>u v. s = u @ v \<and> admits p u \<and> glob_match ps v)"
proof (cases "p = Star")
  case True
  then show ?thesis by (simp add: glob_match_star)
next
  case False
  show ?thesis
  proof (cases s)
    case Nil
    have "\<not> glob_match (p # ps) []" using False by (cases p) simp_all
    moreover have "\<not> admits p []" using admits_single [OF False, of "[]"] by blast
    ultimately show ?thesis using Nil by simp
  next
    case (Cons c t)
    have "(\<exists>u v. c # t = u @ v \<and> admits p u \<and> glob_match ps v) \<longleftrightarrow> admits p [c] \<and> glob_match ps t"
      (is "?l = ?r")
    proof
      assume ?l
      then obtain u v where "c # t = u @ v" "admits p u" "glob_match ps v" by blast
      with admits_single [OF False, of u] show ?r by auto
    next
      assume ?r
      then show ?l by (intro exI [of _ "[c]"] exI [of _ t]) simp
    qed
    with Cons False show ?thesis by (simp add: glob_match_single)
  qed
qed

lemma glob_match_pieces:
  "glob_match ps s \<longleftrightarrow> (\<exists>us. list_all2 admits ps us \<and> s = concat us)"
proof (induction ps arbitrary: s)
  case (Cons p ps)
  show ?case
    unfolding glob_match_Cons list_all2_Cons1
    by (auto simp: Cons.IH) ((metis concat.simps(2)) | blast)+
qed auto

text \<open>A prefix before a single star, as in \<open>mcp__db__*\<close>, matches the names with that prefix.\<close>

definition plain_char :: "char \<Rightarrow> bool" where
  "plain_char c = (c \<noteq> CHR ''*'' \<and> c \<noteq> CHR ''?'' \<and> c \<noteq> CHR ''['')"

lemma glob_items_plain: "list_all plain_char p \<Longrightarrow> glob_items (p @ q) = map Lit p @ glob_items q"
  by (induction p) (auto simp: plain_char_def)

lemma glob_match_Lits: "glob_match (map Lit p @ ps) s \<longleftrightarrow> (\<exists>r. s = p @ r \<and> glob_match ps r)"
  by (induction p arbitrary: s) (auto simp: glob_match_Cons)

lemma fnmatchcase_prefix:
  "list_all plain_char p \<Longrightarrow> fnmatchcase name (p @ ''*'') \<longleftrightarrow> prefix p name"
  by (auto simp: fnmatchcase_def glob_items_plain glob_match_Lits prefix_def glob_match_star)

lemma fnmatchcase_plain: "list_all plain_char p \<Longrightarrow> fnmatchcase name p \<longleftrightarrow> name = p"
  using glob_items_plain [of p "[]"] glob_match_Lits [of p "[]" name] by (auto simp: fnmatchcase_def)

section \<open>Tool names\<close>

text \<open>\<open>d.get(key, default)\<close> on a value that may not be a dictionary, and \<open>x in v\<close> for a string.\<close>

fun get_or :: "json \<Rightarrow> string \<Rightarrow> json \<Rightarrow> exn + json" where
  "get_or (JObj d) k v = Inr (field_or k v d)"
| "get_or _ k v = Inl (AttributeError ''object has no attribute get'')"

fun in_json :: "string \<Rightarrow> json \<Rightarrow> exn + bool" where
  "in_json x (JArr xs) = Inr (JStr x \<in> set xs)"
| "in_json x (JObj d) = Inr (x \<in> fst ` set d)"
| "in_json x (JStr s) = Inr (contains x s)"
| "in_json x _ = Inl (TypeError ''argument is not iterable'')"

fun iter_json :: "json \<Rightarrow> exn + json list" where
  "iter_json (JArr xs) = Inr xs"
| "iter_json (JObj d) = Inr (map (JStr \<circ> fst) d)"
| "iter_json (JStr s) = Inr (map (\<lambda>c. JStr [c]) s)"
| "iter_json _ = Inl (TypeError ''object is not iterable'')"

definition or_json :: "json \<Rightarrow> json \<Rightarrow> json" where
  "or_json a b = (if truthy a then a else b)"

fun glob_any :: "string \<Rightarrow> json list \<Rightarrow> exn + bool" where
  "glob_any tool [] = Inr False"
| "glob_any tool (entry # es) =
     bindS (bindS (in_json ''*'' entry) (\<lambda>star. if star then Inr True else in_json ''?'' entry)) (\<lambda>glob.
       if glob then
         (case entry of
            JStr pat \<Rightarrow> if fnmatchcase tool pat then Inr True else glob_any tool es
          | _ \<Rightarrow> Inl (TypeError ''unhashable type''))
       else glob_any tool es)"

text \<open>\<open>tool.split("__", 2)\<close>, when it gives three parts: the third.\<close>

fun after_sep :: "string \<Rightarrow> string option" where
  "after_sep (a # b # cs) = (if a = CHR ''_'' \<and> b = CHR ''_'' then Some cs else after_sep (b # cs))"
| "after_sep _ = None"

definition mcp_suffix :: "string \<Rightarrow> string option" where
  "mcp_suffix tool = (if prefix ''mcp__'' tool then Option.bind (after_sep tool) after_sep else None)"

text \<open>A tool that is no string and not falsy has no \<open>startswith\<close>.\<close>

definition tool_name_matches :: "json \<Rightarrow> json \<Rightarrow> exn + bool" where
  "tool_name_matches tool patterns =
     (if \<not> truthy tool then Inr False
      else case tool of
        JStr t \<Rightarrow>
          bindS (in_json t patterns) (\<lambda>exact.
          if exact then Inr True
          else bindS (iter_json patterns) (\<lambda>entries.
          bindS (glob_any t entries) (\<lambda>glob.
          if glob then Inr True
          else (case mcp_suffix t of None \<Rightarrow> Inr False | Some bare \<Rightarrow> in_json bare patterns))))
      | _ \<Rightarrow> Inl (AttributeError ''object has no attribute startswith''))"

abbreviation names :: "string list \<Rightarrow> json" where
  "names xs \<equiv> JArr (map JStr xs)"

definition is_glob :: "string \<Rightarrow> bool" where
  "is_glob e = (CHR ''*'' \<in> set e \<or> CHR ''?'' \<in> set e)"

lemma contains_char: "contains [c] s \<longleftrightarrow> c \<in> set s"
  by (auto simp: contains_def sublist_def in_set_conv_decomp)

lemma in_json_names [simp]: "in_json x (names xs) = Inr (x \<in> set xs)"
  by (auto simp: image_iff)

lemma glob_any_names [simp]:
  "glob_any t (map JStr es) = Inr (\<exists>e \<in> set es. is_glob e \<and> fnmatchcase t e)"
  by (induction es) (auto simp: is_glob_def contains_char)

text \<open>On a collection of strings, matching is the disjunction of its three readings.\<close>

lemma tool_name_matches_names:
  "tool_name_matches (JStr t) (names ps) =
     Inr (t \<noteq> [] \<and> (t \<in> set ps \<or> (\<exists>e \<in> set ps. is_glob e \<and> fnmatchcase t e)
       \<or> (\<exists>bare. mcp_suffix t = Some bare \<and> bare \<in> set ps)))"
  by (auto simp: tool_name_matches_def bindS_def split: option.splits simp del: in_json.simps)

lemma after_sep_append:
  assumes "\<not> contains ''__'' (s @ ''_'')"
  shows "after_sep (s @ ''__'' @ r) = Some r"
  using assms
proof (induction s rule: after_sep.induct)
  case (1 a b cs)
  have "\<not> contains ''__'' ((b # cs) @ ''_'')" and ne: "\<not> (a = CHR ''_'' \<and> b = CHR ''_'')"
    using "1.prems" by (auto simp: contains_def sublist_Cons_right)
  then show ?case using "1.IH" by auto
qed (auto simp: contains_def sublist_Cons_right)

section \<open>Words of a name\<close>

definition char_between :: "char \<Rightarrow> char \<Rightarrow> char \<Rightarrow> bool" where
  "char_between a b c = (code a \<le> code c \<and> code c \<le> code b)"

definition is_digit_char :: "char \<Rightarrow> bool" where
  "is_digit_char = char_between CHR ''0'' CHR ''9''"

definition is_upper_char :: "char \<Rightarrow> bool" where
  "is_upper_char = char_between CHR ''A'' CHR ''Z''"

definition is_lower_char :: "char \<Rightarrow> bool" where
  "is_lower_char = char_between CHR ''a'' CHR ''z''"

definition is_word_char :: "char \<Rightarrow> bool" where
  "is_word_char c = (is_lower_char c \<or> is_upper_char c \<or> is_digit_char c)"

text \<open>A space at every camelCase boundary.\<close>

fun space_camel :: "string \<Rightarrow> string" where
  "space_camel (a # b # cs) =
     (if (is_lower_char a \<or> is_digit_char a) \<and> is_upper_char b
      then a # CHR '' '' # space_camel (b # cs) else a # space_camel (b # cs))"
| "space_camel s = s"

fun split_words :: "string \<Rightarrow> string \<Rightarrow> string list" where
  "split_words acc [] = (if acc = [] then [] else [rev acc])"
| "split_words acc (c # cs) =
     (if is_word_char c then split_words (c # acc) cs
      else if acc = [] then split_words [] cs else rev acc # split_words [] cs)"

definition name_words :: "string \<Rightarrow> string list" where
  "name_words tool = split_words [] (lower (space_camel tool))"

fun words_of :: "json \<Rightarrow> exn + string list" where
  "words_of (JStr s) = Inr (name_words s)"
| "words_of _ = Inl (TypeError ''expected string or bytes-like object'')"

definition code_runner_words :: "string list" where
  "code_runner_words = [''repl'', ''interpreter'']"

definition code_run_verbs :: "string list" where
  "code_run_verbs = [''execute'', ''exec'', ''run'', ''eval'']"

definition code_run_objects :: "string list" where
  "code_run_objects = [''code'', ''python'', ''javascript'', ''js'', ''script'', ''cell'',
     ''snippet'', ''jupyter'', ''notebook'']"

definition code_check_words :: "string list" where
  "code_check_words = [''test'', ''tests'', ''lint'', ''linter'', ''check'', ''checker'',
     ''format'', ''formatter'']"

definition payment_words :: "string list" where
  "payment_words = [''pay'', ''payment'', ''payments'', ''payout'', ''payouts'', ''transfer'',
     ''refund'', ''charge'', ''withdraw'', ''withdrawal'', ''wire'', ''purchase'', ''checkout'',
     ''remit'', ''disburse'', ''money'']"

definition share_word :: "string list \<Rightarrow> string list \<Rightarrow> bool" where
  "share_word ws vs = list_ex (\<lambda>w. w \<in> set vs) ws"

definition runs_code :: "json \<Rightarrow> json \<Rightarrow> exn + bool" where
  "runs_code tool registered =
     (if registered \<noteq> JNull then tool_name_matches tool registered
      else bindS (words_of tool) (\<lambda>ws.
        if share_word ws code_check_words then Inr False
        else Inr (share_word ws code_runner_words
               \<or> share_word ws code_run_verbs \<and> share_word ws code_run_objects)))"

definition moves_money :: "json \<Rightarrow> json \<Rightarrow> exn + bool" where
  "moves_money tool registered =
     (if registered \<noteq> JNull then tool_name_matches tool registered
      else bindS (words_of tool) (\<lambda>ws. Inr (share_word ws payment_words)))"

section \<open>Amounts\<close>

text \<open>A Python float: exact rationals, the infinities and not-a-number.\<close>

datatype pyfloat = Fin rat | Infinite bool | NaN

definition strip_sign :: "string \<Rightarrow> bool \<times> string" where
  "strip_sign s = (case s of
     [] \<Rightarrow> (False, [])
   | c # cs \<Rightarrow> if c = CHR ''-'' then (True, cs) else if c = CHR ''+'' then (False, cs) else (False, s))"

definition digits_value :: "string \<Rightarrow> nat" where
  "digits_value ds = foldl (\<lambda>n d. 10 * n + (code d - 48)) 0 ds"

definition span_digits :: "string \<Rightarrow> string \<times> string" where
  "span_digits s = (takeWhile is_digit_char s, dropWhile is_digit_char s)"

text \<open>Underscores are allowed between digits only.\<close>

fun underscores_ok :: "bool \<Rightarrow> string \<Rightarrow> bool" where
  "underscores_ok after [] = True"
| "underscores_ok after (c # cs) =
     (if c = CHR ''_''
      then after \<and> (case cs of [] \<Rightarrow> False | d # _ \<Rightarrow> is_digit_char d) \<and> underscores_ok False cs
      else underscores_ok (is_digit_char c) cs)"

definition exponent_of :: "string \<Rightarrow> int option" where
  "exponent_of s = (case s of
     [] \<Rightarrow> Some 0
   | c # cs \<Rightarrow>
       if c \<noteq> CHR ''e'' then None
       else (case strip_sign cs of (neg, ds) \<Rightarrow>
         if ds \<noteq> [] \<and> list_all is_digit_char ds
         then Some (if neg then - int (digits_value ds) else int (digits_value ds)) else None))"

definition scale10 :: "rat \<Rightarrow> int \<Rightarrow> rat" where
  "scale10 x e = (if 0 \<le> e then x * 10 ^ nat e else x / 10 ^ nat (- e))"

definition decimal_of :: "string \<Rightarrow> rat option" where
  "decimal_of s =
     (case span_digits s of (whole, r1) \<Rightarrow>
       (case (if take 1 r1 = ''.'' then span_digits (tl r1) else ([], r1)) of (decs, r2) \<Rightarrow>
         if whole = [] \<and> decs = [] then None
         else map_option (\<lambda>e. scale10 (of_nat (digits_value (whole @ decs))) (e - int (length decs)))
                (exponent_of r2)))"

text \<open>\<open>float(s)\<close>.\<close>

definition float_of_text :: "string \<Rightarrow> exn + pyfloat" where
  "float_of_text s =
     (let t = lower (strip s); bad = Inl (ValueError ''could not convert string to float'')
      in if \<not> underscores_ok False t then bad
         else case strip_sign (filter (\<lambda>c. c \<noteq> CHR ''_'') t) of (neg, body) \<Rightarrow>
           if body \<in> {''inf'', ''infinity''} then Inr (Infinite neg)
           else if body = ''nan'' then Inr NaN
           else (case decimal_of body of
                   None \<Rightarrow> bad
                 | Some x \<Rightarrow> Inr (Fin (if neg then - x else x))))"

definition amount_of :: "json \<Rightarrow> pyfloat option" where
  "amount_of arguments =
     (case field_or ''amount'' JNull (as_dict arguments) of
        JInt i \<Rightarrow> Some (Fin (of_int i))
      | JFloat r \<Rightarrow> Some (Fin r)
      | JStr s \<Rightarrow> (case float_of_text (filter (\<lambda>c. c \<noteq> CHR '','') s) of
                    Inl _ \<Rightarrow> None | Inr x \<Rightarrow> Some x)
      | _ \<Rightarrow> None)"

fun exceeds :: "pyfloat \<Rightarrow> rat \<Rightarrow> bool" where
  "exceeds (Fin x) t = (t < x)"
| "exceeds (Infinite neg) t = (\<not> neg)"
| "exceeds NaN t = False"

end
