(* ===== verification/Timestamps.thy ===== *)
theory Timestamps
  imports Decoding Tool_Names
begin

text \<open>
  The \<open>datetime\<close> values of \<open>core/agent_events.py\<close>, field by field: what \<open>isoformat\<close> writes, the
  wire pattern \<open>_WIRE_TIMESTAMP\<close>, what \<open>fromisoformat\<close> reads from a text that matches it, and
  \<open>astimezone(timezone.utc)\<close>. The reading gives back the written value, and the change of zone
  keeps the instant.
\<close>

section \<open>Dates\<close>

definition leap :: "nat \<Rightarrow> bool" where
  "leap y = (4 dvd y \<and> (\<not> 100 dvd y \<or> 400 dvd y))"

definition month_days :: "nat \<Rightarrow> nat \<Rightarrow> nat" where
  "month_days y m = (if m = 2 then (if leap y then 29 else 28) else if m \<in> {4, 6, 9, 11} then 30 else 31)"

text \<open>\<open>st_offset\<close> is \<open>utcoffset()\<close> in microseconds; a naive datetime has none.\<close>

record stamp =
  st_year :: nat
  st_month :: nat
  st_day :: nat
  st_hour :: nat
  st_minute :: nat
  st_second :: nat
  st_micro :: nat
  st_offset :: "int option"

definition day_us :: int where
  "day_us = 86400000000"

definition minute_us :: int where
  "minute_us = 60000000"

definition date_ok :: "nat \<Rightarrow> nat \<Rightarrow> nat \<Rightarrow> bool" where
  "date_ok y m d = (1 \<le> y \<and> y \<le> 9999 \<and> 1 \<le> m \<and> m \<le> 12 \<and> 1 \<le> d \<and> d \<le> month_days y m)"

text \<open>The ranges Python keeps for every \<open>datetime\<close> object.\<close>

definition stamp_ok :: "stamp \<Rightarrow> bool" where
  "stamp_ok t = (date_ok (st_year t) (st_month t) (st_day t) \<and> st_hour t < 24 \<and> st_minute t < 60
     \<and> st_second t < 60 \<and> st_micro t < 1000000
     \<and> (case st_offset t of None \<Rightarrow> True | Some u \<Rightarrow> \<bar>u\<bar> < day_us))"

definition day_clock :: "stamp \<Rightarrow> int" where
  "day_clock t = int (((st_hour t * 60 + st_minute t) * 60 + st_second t) * 1000000 + st_micro t)"

definition days_before :: "nat \<Rightarrow> nat \<Rightarrow> nat" where
  "days_before y m = sum_list (map (month_days y) [1..<m])"

text \<open>\<open>date.toordinal\<close>.\<close>

definition ordinal :: "nat \<Rightarrow> nat \<Rightarrow> nat \<Rightarrow> int" where
  "ordinal y m d = int (365 * (y - 1) + (y - 1) div 4 + (y - 1) div 400 + days_before y m + d)
     - int ((y - 1) div 100)"

definition moment :: "stamp \<Rightarrow> datetime" where
  "moment t = (let w = ordinal (st_year t) (st_month t) (st_day t) * day_us + day_clock t
     in case st_offset t of None \<Rightarrow> Naive w | Some u \<Rightarrow> Aware (w - u))"

section \<open>Changing to UTC\<close>

definition next_day :: "nat \<Rightarrow> nat \<Rightarrow> nat \<Rightarrow> (nat \<times> nat \<times> nat) option" where
  "next_day y m d =
     (if d < month_days y m then Some (y, m, d + 1)
      else if m < 12 then Some (y, m + 1, 1)
      else if y < 9999 then Some (y + 1, 1, 1) else None)"

definition prev_day :: "nat \<Rightarrow> nat \<Rightarrow> nat \<Rightarrow> (nat \<times> nat \<times> nat) option" where
  "prev_day y m d =
     (if 1 < d then Some (y, m, d - 1)
      else if 1 < m then Some (y, m - 1, month_days y (m - 1))
      else if 1 < y then Some (y - 1, 12, 31) else None)"

text \<open>\<open>astimezone(timezone.utc)\<close> of an aware datetime; leaving the years 1 to 9999 raises.\<close>

definition to_utc :: "stamp \<Rightarrow> int \<Rightarrow> exn + stamp" where
  "to_utc t u =
     (let w = day_clock t - u;
          date = (if w < 0 then prev_day (st_year t) (st_month t) (st_day t)
                  else if day_us \<le> w then next_day (st_year t) (st_month t) (st_day t)
                  else Some (st_year t, st_month t, st_day t));
          n = nat (w mod day_us)
      in case date of None \<Rightarrow> Inl (OtherError ''OverflowError'' ''date value out of range'')
         | Some (y, m, d) \<Rightarrow> Inr \<lparr>st_year = y, st_month = m, st_day = d,
             st_hour = n div 3600000000, st_minute = n div 60000000 mod 60,
             st_second = n div 1000000 mod 60, st_micro = n mod 1000000, st_offset = Some 0\<rparr>)"

lemma month_days_range: "28 \<le> month_days y m" "month_days y m \<le> 31"
  by (simp_all add: month_days_def)

lemma days_before_Suc: "1 \<le> m \<Longrightarrow> days_before y (Suc m) = days_before y m + month_days y m"
  by (simp add: days_before_def)

lemma days_before_1 [simp]: "days_before y (Suc 0) = 0"
  by (simp add: days_before_def)

lemma days_before_12: "days_before y 12 = (if leap y then 335 else 334)"
  by (simp add: days_before_def month_days_def upt_rec)

lemma ordinal_new_year:
  assumes "1 \<le> y"
  shows "ordinal (Suc y) 1 1 = ordinal y 12 31 + 1"
proof -
  obtain x where x: "y = Suc x" using assms by (cases y) auto
  have d4: "Suc x div 4 = x div 4 + (if 4 dvd y then 1 else 0)"
    and d100: "Suc x div 100 = x div 100 + (if 100 dvd y then 1 else 0)"
    and d400: "Suc x div 400 = x div 400 + (if 400 dvd y then 1 else 0)"
    by (simp_all only: div_Suc x dvd_eq_mod_eq_0 split: if_split) simp_all
  have "(4 :: nat) dvd 100" "(100 :: nat) dvd 400" by simp_all
  then have imp: "100 dvd y \<Longrightarrow> 4 dvd y" "400 dvd y \<Longrightarrow> 100 dvd y" by (blast intro: dvd_trans)+
  have lp: "days_before y 12 = 334 + (if leap y then 1 else 0)" by (simp add: days_before_12)
  have "ordinal (Suc y) 1 1 = int (365 * Suc x + Suc x div 4 + Suc x div 400 + 1) - int (Suc x div 100)"
    by (simp only: ordinal_def x One_nat_def days_before_1 diff_Suc_Suc diff_zero add_0_right)
  moreover have "ordinal y 12 31 = int (365 * x + x div 4 + x div 400 + days_before y 12 + 31) - int (x div 100)"
    by (simp only: ordinal_def x diff_Suc_1)
  moreover have "(if leap y then 1 else 0 :: int) + (if 100 dvd y then 1 else 0)
      = (if 4 dvd y then 1 else 0) + (if 400 dvd y then 1 else 0)"
    using imp by (simp add: leap_def)
  ultimately show ?thesis unfolding d4 d100 d400 lp by (simp split: if_splits)
qed

lemma next_day_ordinal:
  assumes "date_ok y m d" and "next_day y m d = Some (y', m', d')"
  shows "date_ok y' m' d' \<and> ordinal y' m' d' = ordinal y m d + 1"
proof -
  note r = assms [unfolded date_ok_def next_day_def]
  consider "d < month_days y m" | "\<not> d < month_days y m" "m < 12" | "\<not> d < month_days y m" "\<not> m < 12"
    by blast
  then show ?thesis
  proof cases
    case 1
    with r show ?thesis by (auto simp: date_ok_def ordinal_def)
  next
    case 2
    with r have eq: "y' = y" "m' = Suc m" "d' = 1" "d = month_days y m" by auto
    have "1 \<le> month_days y (Suc m)" using month_days_range(1) [of y "Suc m"] by linarith
    with eq 2 r show ?thesis by (simp add: date_ok_def ordinal_def days_before_Suc)
  next
    case 3
    with r have m: "m = 12" and d: "d = month_days y m" by auto
    have "month_days y 12 = 31" "1 \<le> month_days (Suc y) 1" by (simp_all add: month_days_def)
    with 3 r m d ordinal_new_year [of y] show ?thesis
      by (auto simp: date_ok_def split: if_splits)
  qed
qed

lemma prev_day_ordinal:
  assumes "date_ok y m d" and "prev_day y m d = Some (y', m', d')"
  shows "date_ok y' m' d' \<and> ordinal y' m' d' = ordinal y m d - 1"
proof -
  note r = assms [unfolded date_ok_def prev_day_def]
  consider "1 < d" | "\<not> 1 < d" "1 < m" | "\<not> 1 < d" "\<not> 1 < m" by blast
  then show ?thesis
  proof cases
    case 1
    with r show ?thesis by (auto simp: date_ok_def ordinal_def)
  next
    case 2
    obtain k where k: "m = Suc k" "1 \<le> k" using 2 by (cases m) auto
    from 2 r k have eq: "y' = y" "m' = k" "d' = month_days y k" "d = 1" by auto
    have "1 \<le> month_days y k" using month_days_range(1) [of y k] by linarith
    with eq k r show ?thesis by (simp add: date_ok_def ordinal_def days_before_Suc)
  next
    case 3
    with r have eq: "1 < y" "y' = y - 1" "m' = 12" "d' = 31" "m = 1" "d = 1" by (auto split: if_splits)
    moreover have "month_days (y - 1) 12 = 31" by (simp add: month_days_def)
    moreover have "ordinal (Suc (y - 1)) 1 1 = ordinal (y - 1) 12 31 + 1"
      using eq by (intro ordinal_new_year) simp
    ultimately show ?thesis using r by (auto simp: date_ok_def)
  qed
qed

lemma clock_range:
  assumes "stamp_ok t"
  shows "0 \<le> day_clock t" "day_clock t < day_us"
  using assms by (auto simp: stamp_ok_def day_clock_def day_us_def)

lemma clock_fields:
  fixes n :: nat
  shows "((n div 3600000000 * 60 + n div 60000000 mod 60) * 60 + n div 1000000 mod 60) * 1000000
     + n mod 1000000 = n"
proof -
  have "n div 3600000000 = n div 60000000 div 60" "n div 60000000 = n div 1000000 div 60"
    by (simp_all flip: div_mult2_eq)
  then have "n div 3600000000 * 60 + n div 60000000 mod 60 = n div 60000000"
    and "n div 60000000 * 60 + n div 1000000 mod 60 = n div 1000000"
    by (simp_all only: div_mult_mod_eq)
  then show ?thesis by (simp only: div_mult_mod_eq)
qed

text \<open>The change of zone keeps the instant, and gives a datetime in UTC.\<close>

lemma to_utc_moment:
  assumes ok: "stamp_ok t" and off: "st_offset t = Some u" and utc: "to_utc t u = Inr v"
  shows "stamp_ok v \<and> st_offset v = Some 0 \<and> moment v = moment t"
proof -
  define w where "w = day_clock t - u"
  define n where "n = nat (w mod day_us)"
  define date where "date = (if w < 0 then prev_day (st_year t) (st_month t) (st_day t)
      else if day_us \<le> w then next_day (st_year t) (st_month t) (st_day t)
      else Some (st_year t, st_month t, st_day t))"
  from utc obtain y m d where dt: "date = Some (y, m, d)"
    and v: "v = \<lparr>st_year = y, st_month = m, st_day = d,
             st_hour = n div 3600000000, st_minute = n div 60000000 mod 60,
             st_second = n div 1000000 mod 60, st_micro = n mod 1000000, st_offset = Some 0\<rparr>"
    by (simp only: to_utc_def Let_def flip: w_def n_def date_def) (auto split: option.splits)
  have dok: "date_ok (st_year t) (st_month t) (st_day t)" using ok by (simp add: stamp_ok_def)
  have bound: "- day_us < w" "w < 2 * day_us"
    using clock_range [OF ok] ok off by (auto simp: w_def stamp_ok_def)
  have pos: "0 < day_us" by (simp add: day_us_def)
  have n: "int n = w mod day_us" using pos by (simp add: n_def)
  have "date_ok y m d \<and> ordinal y m d * day_us + int n
      = ordinal (st_year t) (st_month t) (st_day t) * day_us + w"
  proof -
    consider "w < 0" | "day_us \<le> w" | "0 \<le> w" "w < day_us" by linarith
    then show ?thesis
    proof cases
      case 1
      have "w mod day_us = (w + day_us) mod day_us" by simp
      also have "\<dots> = w + day_us" using 1 bound by (intro mod_pos_pos_trivial) linarith+
      finally have "w mod day_us = w + day_us" .
      moreover have "date_ok y m d \<and> ordinal y m d = ordinal (st_year t) (st_month t) (st_day t) - 1"
        using 1 dt by (intro prev_day_ordinal [OF dok]) (simp add: date_def)
      ultimately show ?thesis by (simp add: n left_diff_distrib)
    next
      case 2
      have "w mod day_us = (w - day_us) mod day_us" by simp
      also have "\<dots> = w - day_us" using 2 bound by (intro mod_pos_pos_trivial) linarith+
      finally have "w mod day_us = w - day_us" .
      moreover have "date_ok y m d \<and> ordinal y m d = ordinal (st_year t) (st_month t) (st_day t) + 1"
        using 2 dt pos by (intro next_day_ordinal [OF dok]) (simp add: date_def)
      ultimately show ?thesis by (simp add: n left_diff_distrib distrib_right)
    next
      case 3
      with dt dok show ?thesis by (simp add: date_def n)
    qed
  qed
  moreover have "day_clock v = int n" by (simp only: day_clock_def v stamp.simps clock_fields)
  moreover have "n < 86400000000" using n pos by (simp add: n_def day_us_def nat_less_iff)
  ultimately show ?thesis
    by (simp add: v stamp_ok_def moment_def Let_def off w_def day_us_def less_mult_imp_div_less)
qed

section \<open>The text of a datetime\<close>

primrec pad :: "nat \<Rightarrow> nat \<Rightarrow> string" where
  "pad 0 n = []"
| "pad (Suc w) n = pad w (n div 10) @ [char_of (48 + n mod 10)]"

definition iso_offset :: "int \<Rightarrow> string" where
  "iso_offset u = (let a = nat \<bar>u\<bar>; s = a div 1000000 mod 60; m = a mod 1000000
     in (if u < 0 then CHR ''-'' else CHR ''+'') # pad 2 (a div 3600000000)
        @ CHR '':'' # pad 2 (a div 60000000 mod 60)
        @ (if s = 0 \<and> m = 0 then [] else CHR '':'' # pad 2 s)
        @ (if m = 0 then [] else CHR ''.'' # pad 6 m))"

text \<open>\<open>datetime.isoformat()\<close>.\<close>

definition iso_text :: "stamp \<Rightarrow> string" where
  "iso_text t = pad 4 (st_year t) @ CHR ''-'' # pad 2 (st_month t) @ CHR ''-'' # pad 2 (st_day t)
     @ CHR ''T'' # pad 2 (st_hour t) @ CHR '':'' # pad 2 (st_minute t) @ CHR '':'' # pad 2 (st_second t)
     @ (if st_micro t = 0 then [] else CHR ''.'' # pad 6 (st_micro t))
     @ (case st_offset t of None \<Rightarrow> [] | Some u \<Rightarrow> iso_offset u)"

section \<open>The wire pattern\<close>

definition cut :: "nat \<Rightarrow> nat \<Rightarrow> string \<Rightarrow> string" where
  "cut i w s = take w (drop i s)"

text \<open>Two digits whose number lies in a range: \<open>(?:0[1-9]|1[0-2])\<close> is \<open>two_digits 1 12\<close>.\<close>

definition two_digits :: "nat \<Rightarrow> nat \<Rightarrow> string \<Rightarrow> bool" where
  "two_digits a b s = (length s = 2 \<and> list_all is_digit_char s \<and> a \<le> digits_value s \<and> digits_value s \<le> b)"

text \<open>The optional fraction of one to six digits, and what follows it.\<close>

definition split_fraction :: "string \<Rightarrow> string \<times> string" where
  "split_fraction s = (case s of [] \<Rightarrow> ([], [])
     | c # cs \<Rightarrow> if c = CHR ''.'' then span_digits cs else ([], s))"

definition fraction_ok :: "string \<Rightarrow> bool" where
  "fraction_ok s = (case s of [] \<Rightarrow> True
     | c # cs \<Rightarrow> c = CHR ''.'' \<longrightarrow> 1 \<le> length (fst (span_digits cs)) \<and> length (fst (span_digits cs)) \<le> 6)"

definition zone_ok :: "string \<Rightarrow> bool" where
  "zone_ok z = (z = ''Z'' \<or>
     length z = 6 \<and> (z ! 0 = CHR ''+'' \<or> z ! 0 = CHR ''-'') \<and> two_digits 0 23 (cut 1 2 z)
       \<and> z ! 3 = CHR '':'' \<and> two_digits 0 59 (cut 4 2 z))"

text \<open>\<open>_WIRE_TIMESTAMP.fullmatch\<close>.\<close>

definition wire_timestamp :: "string \<Rightarrow> bool" where
  "wire_timestamp s =
     (19 \<le> length s \<and> list_all is_digit_char (cut 0 4 s) \<and> s ! 4 = CHR ''-'' \<and> two_digits 1 12 (cut 5 2 s)
      \<and> s ! 7 = CHR ''-'' \<and> two_digits 1 31 (cut 8 2 s) \<and> s ! 10 = CHR ''T'' \<and> two_digits 0 23 (cut 11 2 s)
      \<and> s ! 13 = CHR '':'' \<and> two_digits 0 59 (cut 14 2 s) \<and> s ! 16 = CHR '':'' \<and> two_digits 0 59 (cut 17 2 s)
      \<and> fraction_ok (drop 19 s) \<and> zone_ok (snd (split_fraction (drop 19 s))))"

section \<open>Reading it back\<close>

text \<open>
  \<open>datetime.fromisoformat\<close> on a text of the wire pattern whose zone is written \<open>+00:00\<close> rather
  than \<open>Z\<close>. Only the calendar can refuse it, and on Python 3.10 (\<open>modern\<close> is false) a fraction
  of another length than 3 or 6 digits.
\<close>

definition zone_offset :: "string \<Rightarrow> int" where
  "zone_offset z = (if z ! 0 = CHR ''-'' then - 1 else 1) *
     (int (digits_value (cut 1 2 z)) * 60 + int (digits_value (cut 4 2 z))) * minute_us"

definition from_iso :: "bool \<Rightarrow> string \<Rightarrow> exn + stamp" where
  "from_iso modern s =
     (let (f, z) = split_fraction (drop 19 s);
          t = \<lparr>st_year = digits_value (cut 0 4 s), st_month = digits_value (cut 5 2 s),
               st_day = digits_value (cut 8 2 s), st_hour = digits_value (cut 11 2 s),
               st_minute = digits_value (cut 14 2 s), st_second = digits_value (cut 17 2 s),
               st_micro = digits_value f * 10 ^ (6 - length f), st_offset = Some (zone_offset z)\<rparr>
      in if \<not> modern \<and> length f \<notin> {0, 3, 6} then Inl (ValueError ''Invalid isoformat string'')
         else if \<not> date_ok (st_year t) (st_month t) (st_day t)
              then Inl (ValueError ''day is out of range for month'')
         else Inr t)"

definition spell_utc :: "string \<Rightarrow> string" where
  "spell_utc s = concat (map (\<lambda>c. if c = CHR ''Z'' then ''+00:00'' else [c]) s)"

lemma length_pad [simp]: "length (pad w n) = w"
  by (induction w arbitrary: n) simp_all

lemma digit_text [simp]:
  fixes k :: nat
  assumes "k < 10"
  shows "is_digit_char (char_of (48 + k))" and "code (char_of (48 + k)) = 48 + k"
  using assms by (simp_all add: is_digit_char_def char_between_def code_def)

lemma digits_pad [simp]: "list_all is_digit_char (pad w n)"
  by (induction w arbitrary: n) simp_all

lemma digits_value_Nil: "digits_value [] = 0"
  by (simp add: digits_value_def)

lemma value_pad: "digits_value (pad w n) = n mod 10 ^ w"
proof (induction w arbitrary: n)
  case (Suc w)
  have "n mod (10 * 10 ^ w) = 10 * (n div 10 mod 10 ^ w) + n mod 10"
    by (rule mod_mult2_eq)
  with Suc.IH [of "n div 10"] show ?case by (simp add: digits_value_def)
qed (simp add: digits_value_def)

lemma two_digits_pad: "a \<le> n \<Longrightarrow> n \<le> b \<Longrightarrow> n < 100 \<Longrightarrow> two_digits a b (pad 2 n)"
  by (simp add: two_digits_def value_pad)

lemma no_Z_in_pad: "CHR ''Z'' \<notin> set (pad w n)"
proof
  assume "CHR ''Z'' \<in> set (pad w n)"
  moreover have "\<forall>c \<in> set (pad w n). is_digit_char c" using digits_pad [of w n] by (simp add: list_all_iff)
  ultimately have "is_digit_char CHR ''Z''" by blast
  then show False by (simp add: is_digit_char_def char_between_def code_def)
qed

lemma spell_utc_id: "CHR ''Z'' \<notin> set s \<Longrightarrow> spell_utc s = s"
  unfolding spell_utc_def by (induction s) auto

lemma wire_layout:
  assumes "length a = 4" "length b = 2" "length c = 2" "length d = 2" "length e = 2" "length f = 2"
    and s: "s = a @ CHR ''-'' # b @ CHR ''-'' # c @ CHR ''T'' # d @ CHR '':'' # e @ CHR '':'' # f @ r"
  shows "cut 0 4 s = a" "cut 5 2 s = b" "cut 8 2 s = c" "cut 11 2 s = d" "cut 14 2 s = e"
    "cut 17 2 s = f" "drop 19 s = r" "19 \<le> length s"
    "s ! 4 = CHR ''-''" "s ! 7 = CHR ''-''" "s ! 10 = CHR ''T''" "s ! 13 = CHR '':''" "s ! 16 = CHR '':''"
  by (simp_all add: s assms(1-6) cut_def nth_append nth_Cons')

lemma iso_offset_minutes:
  assumes "\<bar>u\<bar> < day_us" and "minute_us dvd u"
  shows "\<exists>h m. h < 24 \<and> m < 60 \<and> u = (if u < 0 then - 1 else 1) * (int h * 60 + int m) * minute_us
    \<and> iso_offset u = (if u < 0 then CHR ''-'' else CHR ''+'') # pad 2 h @ CHR '':'' # pad 2 m"
proof -
  define a where "a = nat \<bar>u\<bar>"
  have "int 60000000 dvd int a" using assms(2) by (simp add: a_def minute_us_def)
  then have "60000000 dvd a" by (simp only: int_dvd_int_iff)
  then obtain q where q: "a = 60000000 * q" by (elim dvdE)
  have "int a < 86400000000" using assms(1) by (simp add: a_def day_us_def)
  then have bound: "q < 24 * 60" by (simp add: q)
  have h: "a div 3600000000 = q div 60"
    by (simp add: q div_mult2_eq [of "60000000 * q" 60000000 60, simplified])
  have m: "a div 60000000 = q" "a div 1000000 = q * 60" "a mod 1000000 = 0" by (simp_all add: q)
  have "int a = (int (q div 60) * 60 + int (q mod 60)) * minute_us"
  proof -
    have "int q = int (q div 60) * 60 + int (q mod 60)"
      by (metis div_mult_mod_eq of_nat_add of_nat_mult of_nat_numeral)
    then show ?thesis by (simp add: q minute_us_def)
  qed
  moreover have "u = (if u < 0 then - 1 else 1) * int a" by (simp add: a_def)
  ultimately have "u = (if u < 0 then - 1 else 1) * (int (q div 60) * 60 + int (q mod 60)) * minute_us"
    by (simp only: mult.assoc)
  moreover have "iso_offset u = (if u < 0 then CHR ''-'' else CHR ''+'')
      # pad 2 (q div 60) @ CHR '':'' # pad 2 (q mod 60)"
    by (simp add: iso_offset_def Let_def h m flip: a_def)
  moreover have "q div 60 < 24" "q mod 60 < 60" using bound by (simp_all add: less_mult_imp_div_less)
  ultimately show ?thesis by blast
qed

lemma zone_read:
  assumes "h < 24" and "m < 60" and "sg = CHR ''+'' \<or> sg = CHR ''-''"
  shows "zone_ok (sg # pad 2 h @ CHR '':'' # pad 2 m)"
    and "zone_offset (sg # pad 2 h @ CHR '':'' # pad 2 m)
      = (if sg = CHR ''-'' then - 1 else 1) * (int h * 60 + int m) * minute_us"
  using assms by (auto simp: zone_ok_def zone_offset_def cut_def nth_append nth_Cons' two_digits_pad value_pad)

lemma fraction_read:
  assumes "m < 1000000" and "z = sg # zs" and "sg = CHR ''+'' \<or> sg = CHR ''-''"
    and "r = (if m = 0 then [] else CHR ''.'' # pad 6 m) @ z"
  shows "fraction_ok r" and "split_fraction r = (if m = 0 then [] else pad 6 m, z)"
proof -
  have sg: "\<not> is_digit_char sg" "sg \<noteq> CHR ''.''"
    using assms(3) by (auto simp: is_digit_char_def char_between_def code_def)
  have all: "\<And>c. c \<in> set (pad 6 m) \<Longrightarrow> is_digit_char c" using digits_pad [of 6 m] by (simp add: list_all_iff)
  have "span_digits (pad 6 m @ z) = (pad 6 m, z)"
    using all sg(1) by (simp add: span_digits_def assms(2) takeWhile_append2 dropWhile_append2)
  then show "fraction_ok r" "split_fraction r = (if m = 0 then [] else pad 6 m, z)"
    using sg(2) by (simp_all add: assms(2,4) fraction_ok_def split_fraction_def)
qed

text \<open>What is written for a datetime whose offset is a number of minutes is read back unchanged.\<close>

lemma iso_roundtrip:
  assumes ok: "stamp_ok t" and off: "st_offset t = Some u" and mins: "minute_us dvd u"
  shows "wire_timestamp (iso_text t)" and "from_iso modern (spell_utc (iso_text t)) = Inr t"
proof -
  have bound: "\<bar>u\<bar> < day_us" using ok off by (simp add: stamp_ok_def)
  obtain h m where hm: "h < 24" "m < 60" "u = (if u < 0 then - 1 else 1) * (int h * 60 + int m) * minute_us"
    and z: "iso_offset u = (if u < 0 then CHR ''-'' else CHR ''+'') # pad 2 h @ CHR '':'' # pad 2 m"
    using iso_offset_minutes [OF bound mins] by blast
  define sg where "sg = (if u < 0 then CHR ''-'' else CHR ''+'')"
  have sg: "sg = CHR ''+'' \<or> sg = CHR ''-''" by (simp add: sg_def)
  define r where "r = (if st_micro t = 0 then [] else CHR ''.'' # pad 6 (st_micro t)) @ iso_offset u"
  have s: "iso_text t = pad 4 (st_year t) @ CHR ''-'' # pad 2 (st_month t) @ CHR ''-'' # pad 2 (st_day t)
     @ CHR ''T'' # pad 2 (st_hour t) @ CHR '':'' # pad 2 (st_minute t) @ CHR '':'' # pad 2 (st_second t) @ r"
    by (simp add: iso_text_def off r_def)
  note layout = wire_layout [OF length_pad length_pad length_pad length_pad length_pad length_pad s]
  have micro: "st_micro t < 1000000" using ok by (simp add: stamp_ok_def)
  have z': "iso_offset u = sg # (pad 2 h @ CHR '':'' # pad 2 m)" by (simp add: z sg_def)
  note frac = fraction_read [OF micro z' sg r_def]
  note zone = zone_read [OF hm(1,2) sg]
  have range: "st_year t \<le> 9999" "1 \<le> st_month t" "st_month t \<le> 12" "1 \<le> st_day t" "st_day t \<le> 31"
    "st_hour t < 24" "st_minute t < 60" "st_second t < 60" "date_ok (st_year t) (st_month t) (st_day t)"
    using ok month_days_range(2) [of "st_year t" "st_month t"] by (auto simp: stamp_ok_def date_ok_def)
  show "wire_timestamp (iso_text t)"
    unfolding wire_timestamp_def layout using frac zone(1) range layout(8) by (simp add: two_digits_pad z')
  have "CHR ''Z'' \<notin> set (iso_text t)"
    unfolding s r_def z' using sg by (auto simp: no_Z_in_pad)
  then have spell: "spell_utc (iso_text t) = iso_text t" by (rule spell_utc_id)
  have "zone_offset (iso_offset u) = (if u < 0 then - 1 else 1) * (int h * 60 + int m) * minute_us"
    unfolding z' zone(2) by (simp add: sg_def)
  also have "\<dots> = u" using hm(3) by (rule sym)
  finally have "zone_offset (iso_offset u) = u" .
  then show "from_iso modern (spell_utc (iso_text t)) = Inr t"
    unfolding spell from_iso_def layout frac using range micro off by (simp add: value_pad digits_value_Nil)
qed

text \<open>Every text of the wire pattern that is read gives a datetime within its ranges.\<close>

lemma value_bound: "list_all is_digit_char s \<Longrightarrow> digits_value s < 10 ^ length s"
proof (induction s rule: rev_induct)
  case (snoc c s)
  then have "digits_value s + 1 \<le> 10 ^ length s" "code c - 48 \<le> 9"
    by (auto simp: is_digit_char_def char_between_def code_def)
  then show ?case by (simp add: digits_value_def)
qed (simp add: digits_value_def)

lemma cut_split: "i + w = j \<Longrightarrow> drop i s = cut i w s @ drop j s"
proof -
  assume "i + w = j"
  then have "drop j s = drop w (drop i s)" by (auto simp: add.commute)
  then show ?thesis by (simp only: cut_def append_take_drop_id)
qed

lemma no_Z_in_digits: "list_all is_digit_char s \<Longrightarrow> CHR ''Z'' \<notin> set s"
  by (auto simp: list_all_iff is_digit_char_def char_between_def code_def)

lemma spell_utc_append: "spell_utc (x @ y) = spell_utc x @ spell_utc y"
  by (simp add: spell_utc_def)

lemma spell_utc_Cons: "c \<noteq> CHR ''Z'' \<Longrightarrow> spell_utc (c # y) = c # spell_utc y"
  by (simp add: spell_utc_def)

lemma zone_ok_spelled:
  assumes "zone_ok z"
  shows "\<exists>sg zs. spell_utc z = sg # zs \<and> (sg = CHR ''+'' \<or> sg = CHR ''-'') \<and> \<bar>zone_offset (spell_utc z)\<bar> < day_us"
proof (cases "z = ''Z''")
  case True
  have "spell_utc ''Z'' = ''+00:00''" by (simp add: spell_utc_def)
  moreover have "zone_offset ''+00:00'' = 0"
    by (simp add: zone_offset_def cut_def digits_value_def code_def)
  ultimately show ?thesis using True by (simp add: day_us_def)
next
  case False
  with assms have len: "length z = 6" and sg: "z ! 0 = CHR ''+'' \<or> z ! 0 = CHR ''-''"
    and h: "two_digits 0 23 (cut 1 2 z)" and col: "z ! 3 = CHR '':''" and m: "two_digits 0 59 (cut 4 2 z)"
    by (simp_all add: zone_ok_def)
  have "z = z ! 0 # drop 1 z" using len Cons_nth_drop_Suc [of 0 z] by simp
  also have "drop 1 z = cut 1 2 z @ drop 3 z" by (rule cut_split) simp
  also have "drop 3 z = z ! 3 # drop 4 z" using len Cons_nth_drop_Suc [of 3 z] by simp
  also have "drop 4 z = cut 4 2 z" using cut_split [of 4 2 6 z] len by simp
  finally have z: "z = z ! 0 # cut 1 2 z @ z ! 3 # cut 4 2 z" .
  have "CHR ''Z'' \<notin> set (z ! 0 # cut 1 2 z @ z ! 3 # cut 4 2 z)"
    using sg h m col by (auto simp: two_digits_def dest: no_Z_in_digits)
  then have sp: "spell_utc z = z" unfolding z [symmetric] by (rule spell_utc_id)
  have "int (digits_value (cut 1 2 z)) * 60 + int (digits_value (cut 4 2 z)) \<le> 23 * 60 + 59"
    using h m by (simp add: two_digits_def)
  then have "\<bar>zone_offset z\<bar> < day_us"
    by (auto simp: zone_offset_def day_us_def minute_us_def abs_mult)
  with sp z sg show ?thesis by metis
qed

lemma wire_parts:
  assumes "wire_timestamp s"
  shows "\<exists>a b c d e f g z. s = a @ CHR ''-'' # b @ CHR ''-'' # c @ CHR ''T'' # d @ CHR '':'' # e @ CHR '':'' # f
      @ (if g = [] then [] else CHR ''.'' # g) @ z
    \<and> length a = 4 \<and> list_all is_digit_char a \<and> two_digits 1 12 b \<and> two_digits 1 31 c \<and> two_digits 0 23 d
    \<and> two_digits 0 59 e \<and> two_digits 0 59 f \<and> list_all is_digit_char g \<and> length g \<le> 6 \<and> zone_ok z"
proof -
  note w = assms [unfolded wire_timestamp_def]
  have len: "19 \<le> length s" using w by simp
  have nth: "drop i s = s ! i # drop (Suc i) s" if "i < 19" for i
    using Cons_nth_drop_Suc [of i s] that len by simp
  have "drop 0 s = cut 0 4 s @ drop 4 s" by (rule cut_split) simp
  moreover have "drop 4 s = CHR ''-'' # drop 5 s" "drop 7 s = CHR ''-'' # drop 8 s" "drop 10 s = CHR ''T'' # drop 11 s"
    "drop 13 s = CHR '':'' # drop 14 s" "drop 16 s = CHR '':'' # drop 17 s"
    using w nth [of 4] nth [of 7] nth [of 10] nth [of 13] nth [of 16] by simp_all
  moreover have "drop 5 s = cut 5 2 s @ drop 7 s" "drop 8 s = cut 8 2 s @ drop 10 s" "drop 11 s = cut 11 2 s @ drop 13 s"
    "drop 14 s = cut 14 2 s @ drop 16 s" "drop 17 s = cut 17 2 s @ drop 19 s"
    by (rule cut_split; simp)+
  ultimately have s: "s = cut 0 4 s @ CHR ''-'' # cut 5 2 s @ CHR ''-'' # cut 8 2 s @ CHR ''T'' # cut 11 2 s
      @ CHR '':'' # cut 14 2 s @ CHR '':'' # cut 17 2 s @ drop 19 s" by (simp only: drop_0)
  have "\<exists>g. drop 19 s = (if g = [] then [] else CHR ''.'' # g) @ snd (split_fraction (drop 19 s))
      \<and> list_all is_digit_char g \<and> length g \<le> 6"
  proof (cases "drop 19 s")
    case (Cons k ks)
    show ?thesis
    proof (cases "k = CHR ''.''")
      case True
      have fo: "fraction_ok (k # ks)" using w Cons by simp
      let ?g = "takeWhile is_digit_char ks"
      have sf: "split_fraction (k # ks) = (?g, dropWhile is_digit_char ks)"
        using True by (simp add: split_fraction_def span_digits_def)
      have "1 \<le> length ?g \<and> length ?g \<le> 6" using fo True by (simp add: fraction_ok_def span_digits_def)
      then have "?g \<noteq> []" and le: "length ?g \<le> 6" by auto
      then have "k # ks = (if ?g = [] then [] else CHR ''.'' # ?g) @ dropWhile is_digit_char ks"
        using True by simp
      moreover have "list_all is_digit_char ?g" using set_takeWhileD [of _ is_digit_char ks] by (auto simp: list_all_iff)
      ultimately show ?thesis unfolding Cons sf snd_conv using le by blast
    next
      case False
      then show ?thesis using Cons by (intro exI [of _ "[]"]) (simp add: split_fraction_def)
    qed
  qed (intro exI [of _ "[]"], simp add: split_fraction_def)
  then obtain g z where z: "snd (split_fraction (drop 19 s)) = z"
    and g: "drop 19 s = (if g = [] then [] else CHR ''.'' # g) @ z" "list_all is_digit_char g" "length g \<le> 6"
    by metis
  have "length (cut 0 4 s) = 4" using len by (simp add: cut_def)
  note parts = this
  have zok: "zone_ok z" using w z by simp
  have fields: "list_all is_digit_char (cut 0 4 s)" "two_digits 1 12 (cut 5 2 s)" "two_digits 1 31 (cut 8 2 s)"
    "two_digits 0 23 (cut 11 2 s)" "two_digits 0 59 (cut 14 2 s)" "two_digits 0 59 (cut 17 2 s)"
    using w by blast+
  show ?thesis by (intro exI conjI) (rule s [unfolded g(1)] parts fields g(2,3) zok)+
qed

text \<open>So a timestamp that is read is an aware datetime, and spelling \<open>Z\<close> out changes only the zone.\<close>

lemma from_iso_ok:
  assumes wire: "wire_timestamp s" and read: "from_iso modern (spell_utc s) = Inr t"
  shows "stamp_ok t \<and> st_offset t \<noteq> None"
proof -
  obtain a b c d e f g z where s: "s = a @ CHR ''-'' # b @ CHR ''-'' # c @ CHR ''T'' # d @ CHR '':'' # e @ CHR '':'' # f
      @ (if g = [] then [] else CHR ''.'' # g) @ z"
    and a: "length a = 4" "list_all is_digit_char a" and two: "two_digits 1 12 b" "two_digits 1 31 c" "two_digits 0 23 d"
      "two_digits 0 59 e" "two_digits 0 59 f"
    and g: "list_all is_digit_char g" "length g \<le> 6" and z: "zone_ok z"
    using wire_parts [OF wire] by metis
  obtain sg zs where zz: "spell_utc z = sg # zs" "sg = CHR ''+'' \<or> sg = CHR ''-''"
    and zo: "\<bar>zone_offset (spell_utc z)\<bar> < day_us" using zone_ok_spelled [OF z] by blast
  have sp: "spell_utc x = x" if "list_all is_digit_char x" for x
    using that by (intro spell_utc_id no_Z_in_digits)
  define r where "r = (if g = [] then [] else CHR ''.'' # g) @ spell_utc z"
  have eq: "spell_utc s = a @ CHR ''-'' # b @ CHR ''-'' # c @ CHR ''T'' # d @ CHR '':'' # e @ CHR '':'' # f @ r"
    unfolding s r_def using a two g by (simp add: spell_utc_append spell_utc_Cons sp two_digits_def)
  have len: "length b = 2" "length c = 2" "length d = 2" "length e = 2" "length f = 2"
    using two by (simp_all add: two_digits_def)
  note layout = wire_layout [OF a(1) len eq]
  have sg: "\<not> is_digit_char sg" "sg \<noteq> CHR ''.''"
    using zz(2) by (auto simp: is_digit_char_def char_between_def code_def)
  have all: "\<And>x. x \<in> set g \<Longrightarrow> is_digit_char x" using g(1) by (simp add: list_all_iff)
  have "span_digits (g @ sg # zs) = (g, sg # zs)"
    using all sg(1) by (simp add: span_digits_def takeWhile_append2 dropWhile_append2)
  then have frac: "split_fraction r = (g, spell_utc z)"
    using sg(2) by (simp add: r_def zz(1) split_fraction_def)
  have "digits_value g * 10 ^ (6 - length g) < 10 ^ length g * 10 ^ (6 - length g)"
    using value_bound [OF g(1)] by simp
  also have "\<dots> = 10 ^ 6" using g(2) by (simp flip: power_add)
  finally have micro: "digits_value g * 10 ^ (6 - length g) < 1000000" by simp
  from read have "date_ok (digits_value a) (digits_value b) (digits_value c)"
    and t: "t = \<lparr>st_year = digits_value a, st_month = digits_value b, st_day = digits_value c,
      st_hour = digits_value d, st_minute = digits_value e, st_second = digits_value f,
      st_micro = digits_value g * 10 ^ (6 - length g), st_offset = Some (zone_offset (spell_utc z))\<rparr>"
    unfolding from_iso_def layout frac by (auto simp: Let_def split: if_splits)
  then show ?thesis using two micro zo by (simp add: stamp_ok_def two_digits_def)
qed

end
