(* ===== verification/Agent_Events.thy ===== *)
theory Agent_Events
  imports Timestamps
begin

text \<open>
  \<open>core/agent_events.py\<close>: event sources, canonical events and capability cards, the guards of
  their constructors in the order of the code, \<open>to_dict\<close> and \<open>from_dict\<close>. An argument the
  constructor tests with \<open>isinstance\<close> is a sum: \<open>Inl\<close> an instance of the class, \<open>Inr\<close> any other
  value. The remaining arguments are JSON-like, \<open>None\<close> being \<open>JNull\<close>.
\<close>

section \<open>Enumerations\<close>

datatype source_assurance = Unverified | Host_asserted | Authenticated

fun assurance_value :: "source_assurance \<Rightarrow> string" where
  "assurance_value Unverified = ''unverified''"
| "assurance_value Host_asserted = ''host_asserted''"
| "assurance_value Authenticated = ''authenticated''"

text \<open>\<open>SourceAssurance(value)\<close>; \<open>r\<close> is \<open>repr\<close>, which only the message shows.\<close>

definition source_assurance_of :: "(json \<Rightarrow> string) \<Rightarrow> json \<Rightarrow> exn + source_assurance" where
  "source_assurance_of r v =
     (if v = JStr ''unverified'' then Inr Unverified
      else if v = JStr ''host_asserted'' then Inr Host_asserted
      else if v = JStr ''authenticated'' then Inr Authenticated
      else Inl (ValueError (r v @ '' is not a valid SourceAssurance'')))"

datatype capability = Observe | Evaluate | Authorize | Verify_effect | Recover

definition all_capabilities :: "capability list" where
  "all_capabilities = [Observe, Evaluate, Authorize, Verify_effect, Recover]"

fun capability_value :: "capability \<Rightarrow> string" where
  "capability_value Observe = ''observe''"
| "capability_value Evaluate = ''evaluate''"
| "capability_value Authorize = ''authorize''"
| "capability_value Verify_effect = ''verify_effect''"
| "capability_value Recover = ''recover''"

datatype capability_status = Unavailable | Implemented | Validated

fun capability_status_value :: "capability_status \<Rightarrow> string" where
  "capability_status_value Unavailable = ''unavailable''"
| "capability_status_value Implemented = ''implemented''"
| "capability_status_value Validated = ''validated''"

section \<open>Guards\<close>

definition max_identifier :: nat where
  "max_identifier = 256"

definition good_name :: "string \<Rightarrow> bool" where
  "good_name s = (nonblank s \<and> length s \<le> max_identifier)"

fun is_identifier :: "json \<Rightarrow> bool" where
  "is_identifier (JStr s) = good_name s"
| "is_identifier _ = False"

definition identifier_error :: "string \<Rightarrow> exn" where
  "identifier_error label = ValueError (label @ '' must be a nonempty string up to 256 characters'')"

definition need_identifier :: "string \<Rightarrow> json \<Rightarrow> bool \<times> exn" where
  "need_identifier label v = (\<not> is_identifier v, identifier_error label)"

definition optional_identifier :: "string \<Rightarrow> json \<Rightarrow> bool \<times> exn" where
  "optional_identifier label v = (v \<noteq> JNull \<and> \<not> is_identifier v, identifier_error label)"

definition check_guards :: "(bool \<times> exn) list \<Rightarrow> 'a \<Rightarrow> exn + 'a" where
  "check_guards gs v = (case first_error gs of Some e \<Rightarrow> Inl e | None \<Rightarrow> Inr v)"

fun text_of :: "json \<Rightarrow> string" where
  "text_of (JStr s) = s"
| "text_of _ = []"

definition opt_text :: "json \<Rightarrow> string option" where
  "opt_text v = (if v = JNull then None else Some (text_of v))"

text \<open>\<open>_EVENT_NAME.fullmatch\<close>: at least two tokens between dots.\<close>

fun dot_tokens :: "string \<Rightarrow> string list" where
  "dot_tokens [] = [[]]"
| "dot_tokens (c # s) = (case dot_tokens s of [] \<Rightarrow> [] | t # ts \<Rightarrow> if c = CHR ''.'' then [] # t # ts else (c # t) # ts)"

fun event_token :: "string \<Rightarrow> bool" where
  "event_token [] = False"
| "event_token (c # s) =
     (is_lower_char c \<and> list_all (\<lambda>x. is_lower_char x \<or> is_digit_char x \<or> x = CHR ''_'') s)"

definition event_name :: "string \<Rightarrow> bool" where
  "event_name s = (2 \<le> length (dot_tokens s) \<and> list_all event_token (dot_tokens s))"

fun is_event_name :: "json \<Rightarrow> bool" where
  "is_event_name (JStr s) = event_name s"
| "is_event_name _ = False"

section \<open>Event sources\<close>

record event_source =
  es_host :: string
  es_integration :: string
  es_assurance :: source_assurance
  es_evidence :: "string option"

definition new_source :: "json \<Rightarrow> json \<Rightarrow> source_assurance + json \<Rightarrow> json \<Rightarrow> exn + event_source" where
  "new_source host integration assurance evidence = check_guards
     [need_identifier ''host'' host, need_identifier ''integration'' integration,
      (\<not> isl assurance, ValueError ''assurance must be a SourceAssurance''),
      optional_identifier ''evidence_ref'' evidence,
      (assurance = Inl Authenticated \<and> evidence = JNull,
       ValueError ''authenticated source requires a reference to external evidence'')]
     \<lparr>es_host = text_of host, es_integration = text_of integration,
      es_assurance = projl assurance, es_evidence = opt_text evidence\<rparr>"

definition opt_entry :: "string \<Rightarrow> string option \<Rightarrow> args" where
  "opt_entry k v = (case v of None \<Rightarrow> [] | Some s \<Rightarrow> [(k, JStr s)])"

definition source_to_dict :: "event_source \<Rightarrow> json" where
  "source_to_dict s = JObj ([(''host'', JStr (es_host s)), (''integration'', JStr (es_integration s)),
     (''assurance'', JStr (assurance_value (es_assurance s)))] @ opt_entry ''evidence_ref'' (es_evidence s))"

section \<open>Canonical events\<close>

record agent_event =
  ce_version :: string
  ce_id :: string
  ce_type :: string
  ce_at :: stamp
  ce_agent :: string
  ce_run :: string
  ce_source :: event_source
  ce_session :: "string option"
  ce_action :: "string option"
  ce_parent :: "string option"
  ce_tool :: "string option"
  ce_effect :: "string option"
  ce_outcome :: "string option"

definition event_schema_version :: string where
  "event_schema_version = ''1.0''"

definition optional_fields :: "string list" where
  "optional_fields = [''session_id'', ''action_id'', ''parent_event_id'', ''tool_name'', ''effect'', ''outcome'']"

text \<open>
  \<open>CanonicalAgentEvent(...)\<close>: \<open>k\<close> holds the keyword arguments that are strings or \<open>None\<close>, with
  the default of the class for one that is not given. Every caller gives the required ones.
\<close>

definition new_event :: "args \<Rightarrow> stamp + json \<Rightarrow> event_source + json \<Rightarrow> exn + agent_event" where
  "new_event k occurred_at source = check_guards
     ((field_or ''schema_version'' (JStr event_schema_version) k \<noteq> JStr event_schema_version,
       ValueError ''unsupported canonical event schema version'')
      # map (\<lambda>f. need_identifier f (field_or f JNull k)) [''event_id'', ''agent_id'', ''run_id'']
      @ [(\<not> is_event_name (field_or ''event_type'' JNull k),
          ValueError ''event_type must use dot-separated lowercase tokens''),
         (\<not> isl occurred_at \<or> \<not> aware (moment (projl occurred_at)),
          ValueError ''occurred_at must be timezone-aware''),
         (\<not> isl source, ValueError ''source must be an EventSource'')]
      @ map (\<lambda>f. optional_identifier f (field_or f JNull k)) optional_fields)
     \<lparr>ce_version = text_of (field_or ''schema_version'' (JStr event_schema_version) k),
      ce_id = text_of (field_or ''event_id'' JNull k), ce_type = text_of (field_or ''event_type'' JNull k),
      ce_at = projl occurred_at, ce_agent = text_of (field_or ''agent_id'' JNull k),
      ce_run = text_of (field_or ''run_id'' JNull k), ce_source = projl source,
      ce_session = opt_text (field_or ''session_id'' JNull k),
      ce_action = opt_text (field_or ''action_id'' JNull k),
      ce_parent = opt_text (field_or ''parent_event_id'' JNull k),
      ce_tool = opt_text (field_or ''tool_name'' JNull k),
      ce_effect = opt_text (field_or ''effect'' JNull k),
      ce_outcome = opt_text (field_or ''outcome'' JNull k)\<rparr>"

text \<open>An offset that is not a whole number of minutes is normalised to UTC.\<close>

definition wire_stamp :: "stamp \<Rightarrow> exn + stamp" where
  "wire_stamp t = (case st_offset t of None \<Rightarrow> Inr t
     | Some u \<Rightarrow> if \<not> minute_us dvd u then to_utc t u else Inr t)"

definition agent_event_to_dict :: "agent_event \<Rightarrow> exn + json" where
  "agent_event_to_dict e = bindS (wire_stamp (ce_at e)) (\<lambda>t. Inr (JObj (
     [(''schema_version'', JStr (ce_version e)), (''event_id'', JStr (ce_id e)),
      (''event_type'', JStr (ce_type e)), (''occurred_at'', JStr (iso_text t)),
      (''agent_id'', JStr (ce_agent e)), (''run_id'', JStr (ce_run e)),
      (''source'', source_to_dict (ce_source e))]
     @ opt_entry ''session_id'' (ce_session e) @ opt_entry ''action_id'' (ce_action e)
     @ opt_entry ''parent_event_id'' (ce_parent e) @ opt_entry ''tool_name'' (ce_tool e)
     @ opt_entry ''effect'' (ce_effect e) @ opt_entry ''outcome'' (ce_outcome e))))"

definition event_fields :: "string list" where
  "event_fields = [''schema_version'', ''event_id'', ''event_type'', ''occurred_at'', ''agent_id'',
     ''run_id'', ''source''] @ optional_fields"

definition source_fields :: "string list" where
  "source_fields = [''host'', ''integration'', ''assurance'', ''evidence_ref'']"

text \<open>\<open>d[k]\<close> inside the \<open>try\<close>, whose handler turns a \<open>KeyError\<close> into a \<open>ValueError\<close>.\<close>

definition required :: "string \<Rightarrow> args \<Rightarrow> exn + json" where
  "required k d = (case map_of d k of None \<Rightarrow> Inl (ValueError ''invalid canonical event fields'') | Some v \<Rightarrow> Inr v)"

definition read_source :: "(json \<Rightarrow> string) \<Rightarrow> args \<Rightarrow> exn + event_source" where
  "read_source r d =
     bindS (required ''assurance'' d) (\<lambda>a. bindS (source_assurance_of r a) (\<lambda>assurance.
     bindS (required ''host'' d) (\<lambda>host. bindS (required ''integration'' d) (\<lambda>integration.
       new_source host integration (Inl assurance) (field_or ''evidence_ref'' JNull d)))))"

definition read_event :: "(json \<Rightarrow> string) \<Rightarrow> args \<Rightarrow> args \<Rightarrow> stamp \<Rightarrow> exn + agent_event" where
  "read_event r d sd t =
     bindS (read_source r sd) (\<lambda>source.
     bindS (traverse (\<lambda>k. map_sum id (Pair k) (required k d))
              [''schema_version'', ''event_id'', ''event_type'', ''agent_id'', ''run_id'']) (\<lambda>kw.
       new_event (kw @ filter (\<lambda>(k, v). k \<in> set optional_fields) d) (Inl t) (Inl source)))"

fun read_timestamp :: "bool \<Rightarrow> json \<Rightarrow> exn + stamp" where
  "read_timestamp modern (JStr s) =
     (if \<not> wire_timestamp s then Inl (ValueError ''occurred_at must be a timezone-aware ISO 8601 timestamp'')
      else case from_iso modern (spell_utc s) of
             Inl _ \<Rightarrow> Inl (ValueError ''invalid occurred_at timestamp'') | Inr t \<Rightarrow> Inr t)"
| "read_timestamp modern _ = Inl (ValueError ''occurred_at must be a timezone-aware ISO 8601 timestamp'')"

fun event_from_dict :: "bool \<Rightarrow> (json \<Rightarrow> string) \<Rightarrow> json \<Rightarrow> exn + agent_event" where
  "event_from_dict modern r (JObj d) =
     (if \<not> set (dict_keys d) \<subseteq> set event_fields then Inl (ValueError ''unknown canonical event fields'')
      else case field_or ''source'' JNull d of
        JObj sd \<Rightarrow>
          if \<not> set (dict_keys sd) \<subseteq> set source_fields then Inl (ValueError ''unknown event source fields'')
          else bindS (check_guards (map (\<lambda>k. (map_of d k = Some JNull, ValueError (k @ '' cannot be null''))) optional_fields
                 @ [(map_of sd ''evidence_ref'' = Some JNull, ValueError ''source.evidence_ref cannot be null'')]) ())
               (\<lambda>_. bindS (read_timestamp modern (field_or ''occurred_at'' JNull d)) (read_event r d sd))
      | _ \<Rightarrow> Inl (ValueError ''source must be an object''))"
| "event_from_dict modern r _ = Inl (ValueError ''canonical event must be an object'')"

section \<open>Capability cards\<close>

record capability_evidence =
  cl_capability :: capability
  cl_status :: capability_status
  cl_evidence :: "string option"

definition new_claim :: "capability + json \<Rightarrow> capability_status + json \<Rightarrow> json \<Rightarrow> exn + capability_evidence" where
  "new_claim cap status evidence = check_guards
     [(\<not> isl cap, ValueError ''capability must be a Capability''),
      (\<not> isl status, ValueError ''status must be a CapabilityStatus''),
      optional_identifier ''evidence_ref'' evidence,
      (status = Inl Validated \<and> evidence = JNull, ValueError ''validated capability requires evidence_ref''),
      (status = Inl Unavailable \<and> evidence \<noteq> JNull, ValueError ''unavailable capability cannot claim evidence'')]
     \<lparr>cl_capability = projl cap, cl_status = projl status, cl_evidence = opt_text evidence\<rparr>"

definition claim_to_dict :: "capability_evidence \<Rightarrow> json" where
  "claim_to_dict c = JObj ([(''capability'', JStr (capability_value (cl_capability c))),
     (''status'', JStr (capability_status_value (cl_status c)))] @ opt_entry ''evidence_ref'' (cl_evidence c))"

record capability_card =
  cc_integration :: string
  cc_host :: string
  cc_version :: string
  cc_claims :: "capability_evidence list"

text \<open>The loop over the claims, with the capabilities seen so far.\<close>

fun check_claims :: "capability list \<Rightarrow> (capability_evidence + json) list \<Rightarrow> exn + capability list" where
  "check_claims seen [] = Inr seen"
| "check_claims seen (Inr _ # cs) = Inl (ValueError ''claims must contain CapabilityEvidence'')"
| "check_claims seen (Inl c # cs) =
     (if cl_capability c \<in> set seen then Inl (ValueError ''duplicate capability'')
      else check_claims (seen @ [cl_capability c]) cs)"

definition new_card :: "json \<Rightarrow> json \<Rightarrow> json \<Rightarrow> (capability_evidence + json) list + json \<Rightarrow> exn + capability_card" where
  "new_card integration host version claims =
     bindS (check_guards [need_identifier ''integration'' integration, need_identifier ''host'' host,
         need_identifier ''host_version'' version, (\<not> isl claims, ValueError ''claims must be a tuple'')] ()) (\<lambda>_.
     bindS (check_claims [] (projl claims)) (\<lambda>seen.
       if set seen \<noteq> set all_capabilities
       then Inl (ValueError ''declare each capability, including unavailable ones'')
       else Inr \<lparr>cc_integration = text_of integration, cc_host = text_of host, cc_version = text_of version,
                 cc_claims = map projl (projl claims)\<rparr>))"

definition card_to_dict :: "capability_card \<Rightarrow> json" where
  "card_to_dict c = JObj [(''integration'', JStr (cc_integration c)), (''host'', JStr (cc_host c)),
     (''host_version'', JStr (cc_version c)), (''claims'', JArr (map claim_to_dict (cc_claims c)))]"

end
