(* ===== verification/Event_Properties.thy ===== *)
theory Event_Properties
  imports Agent_Events
begin

text \<open>
  What the constructors of \<open>core/agent_events.py\<close> promise: only well-formed events exist, a
  refusal is always a \<open>ValueError\<close>, and an event written by \<open>to_dict\<close> is read back by
  \<open>from_dict\<close>, up to the change of an odd offset to UTC.
\<close>

section \<open>Well-formed values\<close>

definition opt_good :: "string option \<Rightarrow> bool" where
  "opt_good v = (case v of None \<Rightarrow> True | Some s \<Rightarrow> good_name s)"

definition source_ok :: "event_source \<Rightarrow> bool" where
  "source_ok s = (good_name (es_host s) \<and> good_name (es_integration s) \<and> opt_good (es_evidence s)
     \<and> (es_assurance s = Authenticated \<longrightarrow> es_evidence s \<noteq> None))"

definition event_ok :: "agent_event \<Rightarrow> bool" where
  "event_ok e = (ce_version e = event_schema_version \<and> good_name (ce_id e) \<and> good_name (ce_agent e)
     \<and> good_name (ce_run e) \<and> event_name (ce_type e) \<and> stamp_ok (ce_at e) \<and> st_offset (ce_at e) \<noteq> None
     \<and> source_ok (ce_source e) \<and> opt_good (ce_session e) \<and> opt_good (ce_action e) \<and> opt_good (ce_parent e)
     \<and> opt_good (ce_tool e) \<and> opt_good (ce_effect e) \<and> opt_good (ce_outcome e))"

section \<open>Guards\<close>

lemma first_error_Some: "first_error gs = Some e \<Longrightarrow> \<exists>g \<in> set gs. fst g \<and> snd g = e"
  by (induction gs rule: first_error.induct) (auto split: if_splits)

lemma check_guards_Inr [exn_simps]: "check_guards gs v = Inr w \<longleftrightarrow> v = w \<and> (\<forall>g \<in> set gs. \<not> fst g)"
proof (cases "first_error gs")
  case None
  then have "\<forall>g \<in> set gs. \<not> fst g" by simp
  with None show ?thesis by (simp add: check_guards_def del: first_error_None)
next
  case (Some e)
  then show ?thesis using first_error_Some [of gs e] by (auto simp: check_guards_def)
qed

lemma check_guards_Inl: "check_guards gs v = Inl e \<Longrightarrow> \<exists>g \<in> set gs. snd g = e"
  by (auto simp: check_guards_def dest!: first_error_Some split: option.splits)

lemma is_identifier_iff: "is_identifier v \<longleftrightarrow> (\<exists>s. v = JStr s \<and> good_name s)"
  by (cases v) auto

lemma fst_need [simp]: "fst (need_identifier l v) = (\<not> is_identifier v)"
  by (simp add: need_identifier_def)

lemma fst_optional [simp]: "fst (optional_identifier l v) = (v \<noteq> JNull \<and> \<not> is_identifier v)"
  by (simp add: optional_identifier_def)

lemma good_text: "is_identifier v \<Longrightarrow> good_name (text_of v)"
  by (auto simp: is_identifier_iff)

lemma opt_good_text: "v = JNull \<or> is_identifier v \<Longrightarrow> opt_good (opt_text v)"
  by (auto simp: opt_good_def opt_text_def is_identifier_iff)

lemma aware_moment: "aware (moment t) \<longleftrightarrow> st_offset t \<noteq> None"
  by (auto simp: moment_def Let_def split: option.splits)

lemma event_name_text: "is_event_name v \<Longrightarrow> event_name (text_of v)"
  by (cases v) simp_all

text \<open>An exception the callers of the module expect.\<close>

definition value_error :: "exn \<Rightarrow> bool" where
  "value_error x = (exn_class x = ''ValueError'')"

lemma value_error_simps [simp]:
  "value_error (ValueError s)" "value_error (snd (need_identifier l v))" "value_error (snd (optional_identifier l v))"
  by (simp_all add: value_error_def need_identifier_def optional_identifier_def identifier_error_def)

lemma check_guards_value_error:
  assumes "check_guards gs v = Inl x" and "list_all (\<lambda>g. value_error (snd g)) gs"
  shows "value_error x"
  using check_guards_Inl [OF assms(1)] assms(2) by (auto simp: list_all_iff)

text \<open>A call that ends in a value with \<open>P\<close> or in such an exception.\<close>

definition ends_well :: "('a \<Rightarrow> bool) \<Rightarrow> exn + 'a \<Rightarrow> bool" where
  "ends_well P r = (case r of Inr v \<Rightarrow> P v | Inl x \<Rightarrow> value_error x)"

lemma ends_well_simps [simp]: "ends_well P (Inr v) = P v" "ends_well P (Inl x) = value_error x"
  by (simp_all add: ends_well_def)

lemma ends_well_bind:
  "ends_well P r \<Longrightarrow> (\<And>v. P v \<Longrightarrow> ends_well Q (f v)) \<Longrightarrow> ends_well Q (bindS r f)"
  by (cases r) simp_all

lemma ends_well_guarded:
  assumes "list_all (\<lambda>g. value_error (snd g)) gs" and "\<forall>g \<in> set gs. \<not> fst g \<Longrightarrow> P v"
  shows "ends_well P (check_guards gs v)"
proof (cases "check_guards gs v")
  case (Inl x)
  then show ?thesis using check_guards_value_error [OF Inl assms(1)] by simp
next
  case (Inr w)
  then show ?thesis using assms(2) Inr [unfolded check_guards_Inr] by simp
qed

section \<open>Constructors\<close>

lemma new_source_ends_well: "ends_well source_ok (new_source h i (Inl a) e)"
  unfolding new_source_def
proof (rule ends_well_guarded, goal_cases)
  case 2
  then have "is_identifier h" "is_identifier i" "e = JNull \<or> is_identifier e" "a = Authenticated \<longrightarrow> e \<noteq> JNull"
    by simp_all
  then show ?case by (simp add: source_ok_def good_text opt_good_text) (simp add: opt_text_def)
qed simp

lemma new_event_ok:
  assumes new: "new_event k tm src = Inr e" and st: "stamp_ok (projl tm)" and so: "source_ok (projl src)"
  shows "event_ok e"
proof -
  from new [unfolded new_event_def check_guards_Inr, THEN conjunct1, symmetric]
  have e: "e = \<lparr>ce_version = text_of (field_or ''schema_version'' (JStr event_schema_version) k),
      ce_id = text_of (field_or ''event_id'' JNull k), ce_type = text_of (field_or ''event_type'' JNull k),
      ce_at = projl tm, ce_agent = text_of (field_or ''agent_id'' JNull k),
      ce_run = text_of (field_or ''run_id'' JNull k), ce_source = projl src,
      ce_session = opt_text (field_or ''session_id'' JNull k),
      ce_action = opt_text (field_or ''action_id'' JNull k),
      ce_parent = opt_text (field_or ''parent_event_id'' JNull k),
      ce_tool = opt_text (field_or ''tool_name'' JNull k),
      ce_effect = opt_text (field_or ''effect'' JNull k),
      ce_outcome = opt_text (field_or ''outcome'' JNull k)\<rparr>" .
  from new [unfolded new_event_def check_guards_Inr]
  have v: "field_or ''schema_version'' (JStr event_schema_version) k = JStr event_schema_version"
    and ids: "is_identifier (field_or ''event_id'' JNull k)" "is_identifier (field_or ''agent_id'' JNull k)"
      "is_identifier (field_or ''run_id'' JNull k)"
    and t: "is_event_name (field_or ''event_type'' JNull k)" and aw: "aware (moment (projl tm))"
    and opts: "\<forall>f \<in> set optional_fields. field_or f JNull k = JNull \<or> is_identifier (field_or f JNull k)"
    by simp_all
  show ?thesis
    using st so ids aw opts
    by (simp add: e event_ok_def v good_text event_name_text [OF t] aware_moment optional_fields_def opt_good_text)
qed

lemma new_event_ends_well:
  assumes "stamp_ok t" and "source_ok src"
  shows "ends_well event_ok (new_event k (Inl t) (Inl src))"
proof (cases "new_event k (Inl t) (Inl src)")
  case (Inl x)
  then have "value_error x"
    unfolding new_event_def by (rule check_guards_value_error) (simp add: list_all_iff)
  with Inl show ?thesis by simp
next
  case (Inr e)
  then show ?thesis using assms new_event_ok [OF Inr] by simp
qed

lemma required_ends_well: "ends_well (\<lambda>_. True) (required k d)"
  by (simp add: required_def split: option.split)

lemma assurance_ends_well: "ends_well (\<lambda>_. True) (source_assurance_of r a)"
  by (simp add: source_assurance_of_def)

lemma traverse_ends_well: "(\<And>x. ends_well (\<lambda>_. True) (f x)) \<Longrightarrow> ends_well (\<lambda>_. True) (traverse f xs)"
proof (induction xs)
  case (Cons x xs)
  show ?case unfolding traverse.simps
    by (rule ends_well_bind, rule Cons.prems, rule ends_well_bind, rule Cons.IH, rule Cons.prems) simp
qed simp

lemma read_source_ends_well: "ends_well source_ok (read_source r d)"
  unfolding read_source_def
  by (rule ends_well_bind [OF required_ends_well] ends_well_bind [OF assurance_ends_well] new_source_ends_well)+

lemma read_event_ends_well: "stamp_ok t \<Longrightarrow> ends_well event_ok (read_event r d sd t)"
  unfolding read_event_def
proof (rule ends_well_bind [OF read_source_ends_well], rule ends_well_bind [OF traverse_ends_well], goal_cases)
  case (1 src k)
  show ?case using required_ends_well [of k d] by (cases "required k d") simp_all
next
  case (2 src kw)
  then show ?case by (intro new_event_ends_well)
qed

lemma read_timestamp_ends_well: "ends_well stamp_ok (read_timestamp modern v)"
proof (cases v)
  case (JStr s)
  show ?thesis
  proof (cases "wire_timestamp s")
    case True
    then show ?thesis using from_iso_ok [OF True, of modern] JStr
      by (cases "from_iso modern (spell_utc s)") auto
  qed (simp add: JStr)
qed simp_all

text \<open>
  C24: Reading a boundary event with \<open>from_dict\<close>, whatever JSON value arrives and on either version
  of the standard library's parser, ends in one of two ways: a well-formed event, whose
  identifiers, event type, timezone-aware timestamp and source all satisfy the contract, or a
  \<open>ValueError\<close>; no \<open>KeyError\<close>, \<open>TypeError\<close> or half-checked event escapes.
\<close>
theorem boundary_events_well_formed:
  "case event_from_dict modern r j of Inr e \<Rightarrow> event_ok e | Inl x \<Rightarrow> value_error x"
  unfolding ends_well_def [symmetric]
proof (cases j)
  case (JObj d)
  show "ends_well event_ok (event_from_dict modern r j)"
  proof (cases "field_or ''source'' JNull d")
    case JO: (JObj sd)
    have "ends_well event_ok (bindS (check_guards (map (\<lambda>k. (map_of d k = Some JNull, ValueError (k @ '' cannot be null''))) optional_fields
        @ [(map_of sd ''evidence_ref'' = Some JNull, ValueError ''source.evidence_ref cannot be null'')]) ())
        (\<lambda>_. bindS (read_timestamp modern (field_or ''occurred_at'' JNull d)) (read_event r d sd)))"
      by (rule ends_well_bind, rule ends_well_guarded, simp add: list_all_iff, rule TrueI,
          rule ends_well_bind, rule read_timestamp_ends_well, rule read_event_ends_well)
    then show ?thesis by (simp add: JObj JO)
  qed (simp_all add: JObj)
qed simp_all

section \<open>Round trip\<close>

lemma map_of_opt_entry: "map_of (opt_entry k v) k' = (if k = k' then map_option JStr v else None)"
  by (simp add: opt_entry_def split: option.splits)

lemma keys_opt_entry: "set (dict_keys (opt_entry k v)) \<subseteq> {k}"
  by (cases v) (simp_all add: opt_entry_def)

lemma opt_text_map [simp]: "opt_text (case map_option JStr v of None \<Rightarrow> JNull | Some w \<Rightarrow> w) = v"
  by (cases v) (simp_all add: opt_text_def)

lemma assurance_roundtrip [simp]: "source_assurance_of r (JStr (assurance_value a)) = Inr a"
  by (cases a) (simp_all add: source_assurance_of_def)

definition source_dict :: "event_source \<Rightarrow> args" where
  "source_dict s = [(''host'', JStr (es_host s)), (''integration'', JStr (es_integration s)),
     (''assurance'', JStr (assurance_value (es_assurance s)))] @ opt_entry ''evidence_ref'' (es_evidence s)"

lemma source_lookups:
  "map_of (source_dict s) ''host'' = Some (JStr (es_host s))"
  "map_of (source_dict s) ''integration'' = Some (JStr (es_integration s))"
  "map_of (source_dict s) ''assurance'' = Some (JStr (assurance_value (es_assurance s)))"
  "map_of (source_dict s) ''evidence_ref'' = map_option JStr (es_evidence s)"
  by (simp_all add: source_dict_def map_of_opt_entry)

lemma source_roundtrip: "source_ok s \<Longrightarrow> read_source r (source_dict s) = Inr s"
  by (cases s; cases "es_evidence s")
    (auto simp: read_source_def required_def source_lookups field_or_def new_source_def check_guards_Inr
      source_ok_def opt_good_def opt_text_def)

definition optional_entries :: "agent_event \<Rightarrow> args" where
  "optional_entries e = opt_entry ''session_id'' (ce_session e) @ opt_entry ''action_id'' (ce_action e)
     @ opt_entry ''parent_event_id'' (ce_parent e) @ opt_entry ''tool_name'' (ce_tool e)
     @ opt_entry ''effect'' (ce_effect e) @ opt_entry ''outcome'' (ce_outcome e)"

definition event_dict :: "agent_event \<Rightarrow> stamp \<Rightarrow> args" where
  "event_dict e t =
     [(''schema_version'', JStr (ce_version e)), (''event_id'', JStr (ce_id e)),
      (''event_type'', JStr (ce_type e)), (''occurred_at'', JStr (iso_text t)),
      (''agent_id'', JStr (ce_agent e)), (''run_id'', JStr (ce_run e)),
      (''source'', JObj (source_dict (ce_source e)))] @ optional_entries e"

lemma agent_event_to_dict_eq: "agent_event_to_dict e = bindS (wire_stamp (ce_at e)) (\<lambda>t. Inr (JObj (event_dict e t)))"
  by (simp add: agent_event_to_dict_def event_dict_def source_to_dict_def source_dict_def optional_entries_def)

lemma required_lookups:
  "map_of (event_dict e t) ''schema_version'' = Some (JStr (ce_version e))"
  "map_of (event_dict e t) ''event_id'' = Some (JStr (ce_id e))"
  "map_of (event_dict e t) ''event_type'' = Some (JStr (ce_type e))"
  "map_of (event_dict e t) ''occurred_at'' = Some (JStr (iso_text t))"
  "map_of (event_dict e t) ''agent_id'' = Some (JStr (ce_agent e))"
  "map_of (event_dict e t) ''run_id'' = Some (JStr (ce_run e))"
  "map_of (event_dict e t) ''source'' = Some (JObj (source_dict (ce_source e)))"
  by (simp_all add: event_dict_def)

lemma map_of_opt_append:
  "map_of (opt_entry k v @ d) k = (case v of None \<Rightarrow> map_of d k | Some s \<Rightarrow> Some (JStr s))"
  "k \<noteq> k' \<Longrightarrow> map_of (opt_entry k v @ d) k' = map_of d k'"
  by (simp_all add: opt_entry_def split: option.splits)

lemma optional_lookups:
  "map_of (optional_entries e) ''session_id'' = map_option JStr (ce_session e)"
  "map_of (optional_entries e) ''action_id'' = map_option JStr (ce_action e)"
  "map_of (optional_entries e) ''parent_event_id'' = map_option JStr (ce_parent e)"
  "map_of (optional_entries e) ''tool_name'' = map_option JStr (ce_tool e)"
  "map_of (optional_entries e) ''effect'' = map_option JStr (ce_effect e)"
  "map_of (optional_entries e) ''outcome'' = map_option JStr (ce_outcome e)"
  unfolding optional_entries_def
  by (simp_all add: map_of_opt_append map_of_opt_entry del: map_of_append split: option.split)

lemma optional_mem [simp]:
  "''session_id'' \<in> set optional_fields" "''action_id'' \<in> set optional_fields"
  "''parent_event_id'' \<in> set optional_fields" "''tool_name'' \<in> set optional_fields"
  "''effect'' \<in> set optional_fields" "''outcome'' \<in> set optional_fields"
  "''schema_version'' \<notin> set optional_fields" "''event_id'' \<notin> set optional_fields"
  "''event_type'' \<notin> set optional_fields" "''occurred_at'' \<notin> set optional_fields"
  "''agent_id'' \<notin> set optional_fields" "''run_id'' \<notin> set optional_fields"
  "''source'' \<notin> set optional_fields"
  by (simp_all add: optional_fields_def)

lemma filter_opt_entry: "k \<in> A \<Longrightarrow> filter (\<lambda>(k, v). k \<in> A) (opt_entry k v) = opt_entry k v"
  by (cases v) (simp_all add: opt_entry_def)

lemma filter_event_dict: "filter (\<lambda>(k, v). k \<in> set optional_fields) (event_dict e t) = optional_entries e"
  by (simp add: event_dict_def optional_entries_def filter_opt_entry)

lemma not_null [simp]: "map_option JStr v \<noteq> Some JNull"
  by (cases v) simp_all

lemma event_dict_keys: "set (dict_keys (event_dict e t)) \<subseteq> set event_fields"
proof -
  have "set (dict_keys (opt_entry k v)) \<subseteq> set event_fields" if "k \<in> set optional_fields" for k v
    using keys_opt_entry [of k v] that by (auto simp: event_fields_def)
  then show ?thesis
    by (simp add: event_dict_def optional_entries_def optional_fields_def) (simp add: event_fields_def)
qed

lemma source_dict_keys: "set (dict_keys (source_dict s)) \<subseteq> set source_fields"
  by (cases "es_evidence s") (simp_all add: source_dict_def source_fields_def opt_entry_def)

lemma optional_entries_lookup:
  "f \<in> set optional_fields \<Longrightarrow> \<exists>v. map_of (event_dict e t) f = map_option JStr v"
proof -
  have "list_all (\<lambda>f. \<exists>v. map_of (event_dict e t) f = map_option JStr v) optional_fields"
    by (simp add: optional_fields_def event_dict_def optional_lookups) (intro conjI; rule exI; rule refl)
  then show "f \<in> set optional_fields \<Longrightarrow> ?thesis" by (simp add: list_all_iff)
qed

lemma opt_field_ok: "opt_good v \<Longrightarrow> json_opt JStr v = JNull \<or> is_identifier (json_opt JStr v)"
  by (cases v) (simp_all add: opt_good_def)

lemma case_opt_text: "(case v of None \<Rightarrow> JNull | Some x \<Rightarrow> ((\<lambda>w. w) \<circ> JStr) x) = json_opt JStr v"
  by (cases v) simp_all

lemma opt_text_json_opt [simp]: "opt_text (json_opt JStr v) = v"
  by (cases v) (simp_all add: opt_text_def)

lemma read_event_dict:
  assumes ok: "event_ok e" and off: "st_offset t \<noteq> None"
  shows "read_event r (event_dict e t) (source_dict (ce_source e)) t = Inr (e\<lparr>ce_at := t\<rparr>)"
proof -
  let ?kw = "[(''schema_version'', JStr (ce_version e)), (''event_id'', JStr (ce_id e)),
    (''event_type'', JStr (ce_type e)), (''agent_id'', JStr (ce_agent e)), (''run_id'', JStr (ce_run e))]"
  have tr: "traverse (\<lambda>k. map_sum id (Pair k) (required k (event_dict e t)))
      [''schema_version'', ''event_id'', ''event_type'', ''agent_id'', ''run_id''] = Inr ?kw"
    by (simp add: required_def required_lookups)
  define k where "k = ?kw @ optional_entries e"
  have kw: "field_or ''schema_version'' (JStr event_schema_version) k = JStr (ce_version e)"
    "field_or ''event_id'' JNull k = JStr (ce_id e)" "field_or ''event_type'' JNull k = JStr (ce_type e)"
    "field_or ''agent_id'' JNull k = JStr (ce_agent e)" "field_or ''run_id'' JNull k = JStr (ce_run e)"
    by (simp_all add: field_or_def k_def)
  have opt: "field_or ''session_id'' JNull k = json_opt JStr (ce_session e)"
    "field_or ''action_id'' JNull k = json_opt JStr (ce_action e)"
    "field_or ''parent_event_id'' JNull k = json_opt JStr (ce_parent e)"
    "field_or ''tool_name'' JNull k = json_opt JStr (ce_tool e)"
    "field_or ''effect'' JNull k = json_opt JStr (ce_effect e)"
    "field_or ''outcome'' JNull k = json_opt JStr (ce_outcome e)"
    by (simp_all add: field_or_def k_def optional_lookups case_opt_text)
  have "new_event k (Inl t) (Inl (ce_source e)) = Inr (e\<lparr>ce_at := t\<rparr>)"
    unfolding new_event_def check_guards_Inr kw opt
    using ok off by (simp add: event_ok_def aware_moment optional_fields_def opt kw opt_field_ok)
  moreover have "read_source r (source_dict (ce_source e)) = Inr (ce_source e)"
    using ok by (intro source_roundtrip) (simp add: event_ok_def)
  ultimately show ?thesis by (simp only: read_event_def tr filter_event_dict bindS_simps k_def)
qed

lemma wire_stamp_ok:
  assumes "stamp_ok t" and "st_offset t \<noteq> None" and "wire_stamp t = Inr v"
  shows "stamp_ok v \<and> (\<exists>u. st_offset v = Some u \<and> minute_us dvd u) \<and> moment v = moment t"
proof -
  obtain u where u: "st_offset t = Some u" using assms(2) by blast
  show ?thesis
  proof (cases "minute_us dvd u")
    case True
    then show ?thesis using assms u by (simp add: wire_stamp_def)
  next
    case False
    then have "to_utc t u = Inr v" using assms(3) u by (simp add: wire_stamp_def)
    then show ?thesis using to_utc_moment [OF assms(1) u] by simp
  qed
qed

text \<open>
  An event that exists and can be written is read back by \<open>from_dict\<close> as the same event; its
  timestamp names the same instant, and is the very same datetime unless its offset was not a
  whole number of minutes, in which case it comes back in UTC. This holds for every optional field
  present or absent, every offset and fraction of a second, on either parser version.
\<close>
theorem event_roundtrip:
  assumes "event_ok e" and "agent_event_to_dict e = Inr j"
  shows "\<exists>t. wire_stamp (ce_at e) = Inr t \<and> moment t = moment (ce_at e)
    \<and> event_from_dict modern r j = Inr (e\<lparr>ce_at := t\<rparr>)"
proof -
  have st: "stamp_ok (ce_at e)" "st_offset (ce_at e) \<noteq> None" using assms(1) by (simp_all add: event_ok_def)
  obtain t where t: "wire_stamp (ce_at e) = Inr t" and j: "j = JObj (event_dict e t)"
    using assms(2) by (cases "wire_stamp (ce_at e)") (simp_all add: agent_event_to_dict_eq)
  obtain u where ok: "stamp_ok t" and u: "st_offset t = Some u" "minute_us dvd u" and m: "moment t = moment (ce_at e)"
    using wire_stamp_ok [OF st t] by blast
  have "read_timestamp modern (JStr (iso_text t)) = Inr t"
    using iso_roundtrip [OF ok u] by simp
  moreover have "\<forall>g \<in> set (map (\<lambda>k. (map_of (event_dict e t) k = Some JNull, ValueError (k @ '' cannot be null''))) optional_fields
      @ [(map_of (source_dict (ce_source e)) ''evidence_ref'' = Some JNull, ValueError ''source.evidence_ref cannot be null'')]). \<not> fst g"
    using optional_entries_lookup [of _ e t] by (auto simp: source_lookups) (metis not_null)
  ultimately have "event_from_dict modern r j = Inr (e\<lparr>ce_at := t\<rparr>)"
    using read_event_dict [OF assms(1), of t r] event_dict_keys [of e t] source_dict_keys [of "ce_source e"] u
    by (simp add: j field_or_def required_lookups check_guards_def first_error_None [THEN iffD2] del: first_error_None)
  with t m show ?thesis by blast
qed

text \<open>An event half a minute off a whole-hour offset, at the end of a leap day.\<close>

definition sample_event :: agent_event where
  "sample_event = \<lparr>ce_version = ''1.0'', ce_id = ''e-1'', ce_type = ''tool.result'',
     ce_at = \<lparr>st_year = 2024, st_month = 2, st_day = 29, st_hour = 23, st_minute = 59, st_second = 30,
       st_micro = 500000, st_offset = Some (- 3630000000)\<rparr>,
     ce_agent = ''agent'', ce_run = ''run'',
     ce_source = \<lparr>es_host = ''host'', es_integration = ''sdk'', es_assurance = Host_asserted, es_evidence = None\<rparr>,
     ce_session = None, ce_action = Some ''a-1'', ce_parent = None, ce_tool = Some ''search'', ce_effect = None,
     ce_outcome = Some ''returned_unverified''\<rparr>"

lemma sample_event_ok: "event_ok sample_event"
  by (simp add: event_ok_def sample_event_def event_schema_version_def good_name_def max_identifier_def
      nonblank_def is_space_def event_name_def is_lower_char_def is_digit_char_def char_between_def code_def
      stamp_ok_def date_ok_def month_days_def leap_def day_us_def source_ok_def opt_good_def)

lemma sample_wire_stamp: "wire_stamp (ce_at sample_event) = Inr \<lparr>st_year = 2024, st_month = 3, st_day = 1,
    st_hour = 1, st_minute = 0, st_second = 0, st_micro = 500000, st_offset = Some 0\<rparr>"
  by (simp add: sample_event_def wire_stamp_def minute_us_def to_utc_def Let_def day_clock_def day_us_def
      next_day_def month_days_def leap_def)

theorem event_roundtrip_witness:
  "\<exists>j. agent_event_to_dict sample_event = Inr j \<and> event_from_dict False (\<lambda>_. []) j = Inr (sample_event
     \<lparr>ce_at := \<lparr>st_year = 2024, st_month = 3, st_day = 1, st_hour = 1, st_minute = 0, st_second = 0,
        st_micro = 500000, st_offset = Some 0\<rparr>\<rparr>)"
proof -
  obtain j where j: "agent_event_to_dict sample_event = Inr j"
    by (simp add: agent_event_to_dict_eq sample_wire_stamp)
  with event_roundtrip [OF sample_event_ok j, of False "\<lambda>_. []"] show ?thesis
    by (simp add: sample_wire_stamp)
qed

section \<open>Capability cards\<close>

lemma check_claims_Inr:
  "check_claims seen cs = Inr out \<Longrightarrow> distinct seen \<Longrightarrow>
   (\<forall>c \<in> set cs. isl c) \<and> out = seen @ map (cl_capability \<circ> projl) cs \<and> distinct out"
proof (induction seen cs rule: check_claims.induct)
  case (3 seen c cs)
  then have fresh: "cl_capability c \<notin> set seen"
    and rest: "check_claims (seen @ [cl_capability c]) cs = Inr out" by (simp_all split: if_splits)
  have d: "distinct (seen @ [cl_capability c])" using fresh 3(3) by simp
  note ih = 3(1) [OF fresh rest d]
  show ?case
  proof (intro conjI)
    show "\<forall>c \<in> set (Inl c # cs). isl c" using ih by simp
    show "out = seen @ map (cl_capability \<circ> projl) (Inl c # cs)" using ih by simp
    show "distinct out" using ih by blast
  qed
qed simp_all

text \<open>
  A capability card that is accepted declares every capability of the enumeration exactly once,
  unavailable ones included, under nonempty bounded names; a claim that is missing, repeated or of
  another class is refused.
\<close>
theorem card_declares_each_once:
  assumes "new_card integration host version claims = Inr cd"
  shows "distinct (map cl_capability (cc_claims cd))
    \<and> (\<forall>c. c \<in> cl_capability ` set (cc_claims cd))
    \<and> good_name (cc_integration cd) \<and> good_name (cc_host cd) \<and> good_name (cc_version cd)"
proof -
  note new = assms [unfolded new_card_def, simplified exn_simps]
  from new obtain seen where cc: "check_claims [] (projl claims) = Inr seen"
    and all: "set seen = set all_capabilities"
    and cd: "cd = \<lparr>cc_integration = text_of integration, cc_host = text_of host, cc_version = text_of version,
                 cc_claims = map projl (projl claims)\<rparr>" by auto
  have ids: "is_identifier integration" "is_identifier host" "is_identifier version" using new by auto
  have seen: "map cl_capability (cc_claims cd) = seen" "distinct seen"
    using check_claims_Inr [OF cc] by (auto simp: cd)
  have "cl_capability ` set (cc_claims cd) = set all_capabilities"
    unfolding set_map [symmetric] seen(1) all ..
  moreover have "c \<in> set all_capabilities" for c by (cases c) (simp_all add: all_capabilities_def)
  moreover have "good_name (cc_integration cd)" "good_name (cc_host cd)" "good_name (cc_version cd)"
    using ids by (simp_all add: cd good_text)
  ultimately show ?thesis using seen by simp
qed

definition sample_card :: "exn + capability_card" where
  "sample_card = new_card (JStr ''sdk'') (JStr ''host'') (JStr ''2.1'') (Inl (map (\<lambda>c. Inl
     \<lparr>cl_capability = c, cl_status = Unavailable, cl_evidence = None\<rparr>) (rev all_capabilities)))"

theorem card_declares_each_once_witness:
  "\<exists>cd. sample_card = Inr cd \<and> distinct (map cl_capability (cc_claims cd)) \<and> good_name (cc_host cd)"
proof -
  have "isl sample_card = False" by code_simp
  then have "sample_card = Inr (projr sample_card)" by (metis sum.collapse(2))
  then obtain cd where "sample_card = Inr cd" ..
  with card_declares_each_once [of "JStr ''sdk''" "JStr ''host''" "JStr ''2.1''"] show ?thesis
    unfolding sample_card_def by blast
qed

text \<open>
  Python 3.10 is a supported version, and its parser refuses a fraction of one digit which the wire
  pattern accepts.
\<close>

lemma old_parser_refuses_wire_timestamp:
  "wire_timestamp ''2026-10-22T15:00:00.5Z''
   \<and> read_timestamp True (JStr ''2026-10-22T15:00:00.5Z'') = Inr \<lparr>st_year = 2026, st_month = 10, st_day = 22,
       st_hour = 15, st_minute = 0, st_second = 0, st_micro = 500000, st_offset = Some 0\<rparr>
   \<and> read_timestamp False (JStr ''2026-10-22T15:00:00.5Z'') = Inl (ValueError ''invalid occurred_at timestamp'')"
proof -
  have wire: "wire_timestamp ''2026-10-22T15:00:00.5Z''"
    by (simp add: wire_timestamp_def cut_def two_digits_def is_digit_char_def char_between_def code_def
        digits_value_def fraction_ok_def span_digits_def split_fraction_def zone_ok_def)
  have spell: "spell_utc ''2026-10-22T15:00:00.5Z'' = ''2026-10-22T15:00:00.5+00:00''"
    by (simp add: spell_utc_def)
  show ?thesis
    by (simp add: wire spell from_iso_def split_fraction_def span_digits_def is_digit_char_def char_between_def
        code_def cut_def digits_value_def date_ok_def month_days_def zone_offset_def)
qed

end
