(* ===== verification/Host_Observer.thy ===== *)
theory Host_Observer
  imports Event_Properties
begin

text \<open>
  \<open>core/host_observer.py\<close>: the bounded recorder of one run. A method takes the observer's state
  and returns the next one with its value or exception; the lock makes the methods atomic, so a
  step of the model is a whole call. Fresh identifiers and the day_clock are read from \<open>env\<close>, one
  reading per event drawn; keyword arguments have their annotated types.
\<close>

section \<open>State\<close>

record env =
  en_uuid :: "nat \<Rightarrow> string"
  en_now :: "nat \<Rightarrow> stamp"

text \<open>\<open>uuid4().hex\<close> is 32 characters and not blank, \<open>datetime.now(timezone.utc)\<close> is in UTC.\<close>

definition env_ok :: "env \<Rightarrow> bool" where
  "env_ok E = (\<forall>n. length (en_uuid E n) = 32 \<and> nonblank (en_uuid E n)
     \<and> stamp_ok (en_now E n) \<and> st_offset (en_now E n) = Some 0)"

datatype completion = Returned | Raised | Cancelled | Abandoned

fun completion_value :: "completion \<Rightarrow> string" where
  "completion_value Returned = ''returned_unverified''"
| "completion_value Raised = ''raised_uncertain''"
| "completion_value Cancelled = ''cancelled_uncertain''"
| "completion_value Abandoned = ''abandoned_uncertain''"

text \<open>\<open>ob_tick\<close> counts the identifiers drawn so far; it is no field of the class.\<close>

record observer =
  ob_agent :: string
  ob_run :: string
  ob_source :: event_source
  ob_max :: int
  ob_events :: "agent_event list"
  ob_pending :: "(string, string \<times> string option) dict"
  ob_used :: "string set"
  ob_started :: bool
  ob_closed :: bool
  ob_tick :: nat

section \<open>Construction\<close>

fun valid_max :: "json \<Rightarrow> bool" where
  "valid_max (JInt n) = (2 \<le> n)"
| "valid_max _ = False"

fun int_of_json :: "json \<Rightarrow> int" where
  "int_of_json (JInt n) = n"
| "int_of_json _ = 0"

definition new_observer :: "env \<Rightarrow> json \<Rightarrow> json \<Rightarrow> json \<Rightarrow> json \<Rightarrow> json \<Rightarrow> exn + observer" where
  "new_observer E agent run host integration max_events =
     bindS (check_guards [(\<not> valid_max max_events, ValueError ''max_events must be an integer of at least 2'')] ()) (\<lambda>_.
     bindS (new_source host integration (Inl Host_asserted) JNull) (\<lambda>source.
     bindS (new_event [(''event_id'', JStr (en_uuid E 0)), (''event_type'', JStr ''agent.initialized''),
         (''agent_id'', agent), (''run_id'', run)] (Inl (en_now E 0)) (Inl source)) (\<lambda>_.
       Inr \<lparr>ob_agent = text_of agent, ob_run = text_of run, ob_source = source, ob_max = int_of_json max_events,
            ob_events = [], ob_pending = [], ob_used = {}, ob_started = False, ob_closed = False, ob_tick = 1\<rparr>)))"

section \<open>Recording\<close>

definition emit :: "env \<Rightarrow> observer \<Rightarrow> string \<Rightarrow> stamp option \<Rightarrow> string option \<Rightarrow> string option \<Rightarrow> string option
    \<Rightarrow> string option \<Rightarrow> observer \<times> (exn + agent_event)" where
  "emit E ob event_type t action_id tool_name effect outcome =
     (let n = ob_tick ob; ob' = ob\<lparr>ob_tick := n + 1\<rparr>
      in case new_event [(''event_id'', JStr (en_uuid E n)), (''event_type'', JStr event_type),
             (''agent_id'', JStr (ob_agent ob)), (''run_id'', JStr (ob_run ob)),
             (''action_id'', json_opt JStr action_id), (''tool_name'', json_opt JStr tool_name),
             (''effect'', json_opt JStr effect), (''outcome'', json_opt JStr outcome)]
             (Inl (case t of Some w \<Rightarrow> w | None \<Rightarrow> en_now E n)) (Inl (ob_source ob)) of
           Inl x \<Rightarrow> (ob', Inl x)
         | Inr e \<Rightarrow> (ob'\<lparr>ob_events := ob_events ob @ [e]\<rparr>, Inr e))"

definition observer_start :: "env \<Rightarrow> stamp option \<Rightarrow> observer \<Rightarrow> observer \<times> (exn + agent_event)" where
  "observer_start E t ob =
     (if ob_started ob then (ob, Inl (ValueError ''run already started''))
      else case emit E ob ''agent.started'' t None None None None of
             (ob', Inl x) \<Rightarrow> (ob', Inl x)
           | (ob', Inr e) \<Rightarrow> (ob'\<lparr>ob_started := True\<rparr>, Inr e))"

definition tool_intent :: "env \<Rightarrow> string \<Rightarrow> string \<Rightarrow> string option \<Rightarrow> stamp option \<Rightarrow> observer
    \<Rightarrow> observer \<times> (exn + agent_event)" where
  "tool_intent E action_id tool_name effect t ob =
     (if \<not> ob_started ob \<or> ob_closed ob then (ob, Inl (ValueError ''run is not active''))
      else if action_id \<in> ob_used ob then (ob, Inl (ValueError ''action_id already seen in this run''))
      else if ob_max ob < int (length (ob_events ob) + length (ob_pending ob) + 3)
           then (ob, Inl (OtherError ''EventCapacityExceeded'' ''event recording limit reached''))
      else case emit E ob ''tool.intent'' t (Some action_id) (Some tool_name) effect None of
             (ob', Inl x) \<Rightarrow> (ob', Inl x)
           | (ob', Inr e) \<Rightarrow>
               (ob'\<lparr>ob_used := insert action_id (ob_used ob'),
                    ob_pending := dict_set action_id (tool_name, effect) (ob_pending ob')\<rparr>, Inr e))"

definition tool_outcome :: "env \<Rightarrow> string \<Rightarrow> completion + json \<Rightarrow> stamp option \<Rightarrow> observer
    \<Rightarrow> observer \<times> (exn + agent_event)" where
  "tool_outcome E action_id completion t ob =
     (case map_of (ob_pending ob) action_id of
        None \<Rightarrow> (ob, Inl (ValueError ''unknown or completed action_id''))
      | Some (tool_name, effect) \<Rightarrow>
          if ob_closed ob then (ob, Inl (ValueError ''unknown or completed action_id''))
          else case completion of
            Inr _ \<Rightarrow> (ob, Inl (TypeError ''completion must be a ToolCompletion''))
          | Inl c \<Rightarrow>
              (case emit E ob (if c = Returned then ''tool.result'' else ''tool.failed'') t
                   (Some action_id) (Some tool_name) effect (Some (completion_value c)) of
                 (ob', Inl x) \<Rightarrow> (ob', Inl x)
               | (ob', Inr e) \<Rightarrow> (ob'\<lparr>ob_pending := dict_del action_id (ob_pending ob')\<rparr>, Inr e)))"

fun abandon_all :: "env \<Rightarrow> stamp option \<Rightarrow> string list \<Rightarrow> observer \<Rightarrow> observer \<times> (exn + unit)" where
  "abandon_all E t [] ob = (ob, Inr ())"
| "abandon_all E t (a # as) ob =
     (case tool_outcome E a (Inl Abandoned) t ob of
        (ob', Inl x) \<Rightarrow> (ob', Inl x)
      | (ob', Inr _) \<Rightarrow> abandon_all E t as ob')"

definition observer_finish :: "env \<Rightarrow> stamp option \<Rightarrow> observer \<Rightarrow> observer \<times> (exn + agent_event)" where
  "observer_finish E t ob =
     (if \<not> ob_started ob \<or> ob_closed ob then (ob, Inl (ValueError ''run is not active''))
      else case abandon_all E t (dict_keys (ob_pending ob)) ob of
             (ob', Inl x) \<Rightarrow> (ob', Inl x)
           | (ob', Inr _) \<Rightarrow>
               (case emit E ob' ''agent.ended'' t None None None None of
                  (ob'', Inl x) \<Rightarrow> (ob'', Inl x)
                | (ob'', Inr e) \<Rightarrow> (ob''\<lparr>ob_closed := True\<rparr>, Inr e)))"

text \<open>\<open>export\<close>: the events as dictionaries, or the first exception of \<open>to_dict\<close>.\<close>

definition observer_export :: "observer \<Rightarrow> exn + json list" where
  "observer_export ob = traverse agent_event_to_dict (ob_events ob)"

section \<open>Runs\<close>

text \<open>Any sequence of calls on a new observer, refused ones included.\<close>

definition time_ok :: "stamp option \<Rightarrow> bool" where
  "time_ok t = (case t of None \<Rightarrow> True | Some w \<Rightarrow> stamp_ok w)"

inductive observed :: "env \<Rightarrow> observer \<Rightarrow> bool" for E where
  created: "new_observer E agent run host integration max_events = Inr ob \<Longrightarrow> observed E ob"
| started: "observed E ob \<Longrightarrow> time_ok t \<Longrightarrow> observed E (fst (observer_start E t ob))"
| intended: "observed E ob \<Longrightarrow> time_ok t \<Longrightarrow> observed E (fst (tool_intent E a tool eff t ob))"
| completed: "observed E ob \<Longrightarrow> time_ok t \<Longrightarrow> observed E (fst (tool_outcome E a c t ob))"
| finished: "observed E ob \<Longrightarrow> time_ok t \<Longrightarrow> observed E (fst (observer_finish E t ob))"

section \<open>The lifecycle automaton\<close>

text \<open>
  What a complete record of a run looks like, as an automaton that reads events only: whether the
  run has started and ended, the open actions with their tool and effect, the actions seen.
\<close>

type_synonym lifecycle = "bool \<times> bool \<times> (string, string \<times> string option) dict \<times> string set"

definition unstarted :: lifecycle where
  "unstarted = (False, False, [], {})"

fun read_one :: "lifecycle \<Rightarrow> agent_event \<Rightarrow> lifecycle option" where
  "read_one (st, en, acts, seen) e =
     (if ce_type e = ''agent.started''
      then (if \<not> st then Some (True, en, acts, seen) else None)
      else if \<not> st \<or> en then None
      else if ce_type e = ''agent.ended''
      then (if acts = [] then Some (st, True, [], seen) else None)
      else case ce_action e of None \<Rightarrow> None | Some a \<Rightarrow>
        if ce_type e = ''tool.intent''
        then (case ce_tool e of
                Some tool \<Rightarrow> if a \<in> seen then None
                  else Some (st, en, dict_set a (tool, ce_effect e) acts, insert a seen)
              | None \<Rightarrow> None)
        else if ce_type e = ''tool.result'' \<and> ce_outcome e = Some ''returned_unverified''
             \<or> ce_type e = ''tool.failed'' \<and> ce_outcome e \<in>
                 {Some ''raised_uncertain'', Some ''cancelled_uncertain'', Some ''abandoned_uncertain''}
        then (case map_of acts a of
                Some (tool, eff) \<Rightarrow> if ce_tool e = Some tool \<and> ce_effect e = eff
                  then Some (st, en, dict_del a acts, seen) else None
              | None \<Rightarrow> None)
        else None)"

definition read_trace :: "agent_event list \<Rightarrow> lifecycle option" where
  "read_trace es = foldl (\<lambda>s e. Option.bind s (\<lambda>l. read_one l e)) (Some unstarted) es"

definition lifecycle_of :: "observer \<Rightarrow> lifecycle" where
  "lifecycle_of ob = (ob_started ob, ob_closed ob, ob_pending ob, ob_used ob)"

end
