(* ===== verification/Observer_Properties.thy ===== *)
theory Observer_Properties
  imports Host_Observer
begin

text \<open>
  What the recorder of one run promises: its budget is never exceeded and always leaves room for
  the outstanding outcomes and the end of the run, its record is a run of the lifecycle automaton
  and determines the observer's state, a refused call changes nothing, and an active run can always
  be finished.
\<close>

section \<open>One event\<close>

definition emitted :: "env \<Rightarrow> observer \<Rightarrow> string \<Rightarrow> stamp option \<Rightarrow> string option \<Rightarrow> string option \<Rightarrow> string option
    \<Rightarrow> string option \<Rightarrow> agent_event" where
  "emitted E ob ty t a tool eff out =
     \<lparr>ce_version = event_schema_version, ce_id = en_uuid E (ob_tick ob), ce_type = ty,
      ce_at = (case t of Some w \<Rightarrow> w | None \<Rightarrow> en_now E (ob_tick ob)), ce_agent = ob_agent ob, ce_run = ob_run ob,
      ce_source = ob_source ob, ce_session = None, ce_action = a, ce_parent = None, ce_tool = tool,
      ce_effect = eff, ce_outcome = out\<rparr>"

lemma emitted_simps [simp]:
  "ce_type (emitted E ob ty t a tool eff out) = ty" "ce_action (emitted E ob ty t a tool eff out) = a"
  "ce_tool (emitted E ob ty t a tool eff out) = tool" "ce_effect (emitted E ob ty t a tool eff out) = eff"
  "ce_outcome (emitted E ob ty t a tool eff out) = out" "ce_agent (emitted E ob ty t a tool eff out) = ob_agent ob"
  "ce_run (emitted E ob ty t a tool eff out) = ob_run ob" "ce_source (emitted E ob ty t a tool eff out) = ob_source ob"
  by (simp_all add: emitted_def)

definition call_time :: "env \<Rightarrow> nat \<Rightarrow> stamp option \<Rightarrow> stamp" where
  "call_time E n t = (case t of Some w \<Rightarrow> w | None \<Rightarrow> en_now E n)"

lemma identifier_json_opt: "(json_opt JStr v = JNull \<or> is_identifier (json_opt JStr v)) = opt_good v"
  by (cases v) (simp_all add: opt_good_def)

lemma opt_text_JNull: "opt_text JNull = None"
  by (simp add: opt_text_def)

lemma new_event_kwargs:
  fixes i ty ag ru :: string and a tool eff out :: "string option"
  assumes "stamp_ok tm" and "source_ok src"
  defines "ev \<equiv> \<lparr>ce_version = event_schema_version, ce_id = i, ce_type = ty, ce_at = tm, ce_agent = ag, ce_run = ru,
      ce_source = src, ce_session = None, ce_action = a, ce_parent = None, ce_tool = tool,
      ce_effect = eff, ce_outcome = out\<rparr>"
  shows "new_event [(''event_id'', JStr i), (''event_type'', JStr ty), (''agent_id'', JStr ag), (''run_id'', JStr ru),
      (''action_id'', json_opt JStr a), (''tool_name'', json_opt JStr tool), (''effect'', json_opt JStr eff),
      (''outcome'', json_opt JStr out)] (Inl tm) (Inl src) = Inr e \<longleftrightarrow> e = ev \<and> event_ok ev"
proof -
  let ?k = "[(''event_id'', JStr i), (''event_type'', JStr ty), (''agent_id'', JStr ag), (''run_id'', JStr ru),
      (''action_id'', json_opt JStr a), (''tool_name'', json_opt JStr tool), (''effect'', json_opt JStr eff),
      (''outcome'', json_opt JStr out)]"
  have k: "field_or ''schema_version'' (JStr event_schema_version) ?k = JStr event_schema_version"
    "field_or ''event_id'' JNull ?k = JStr i" "field_or ''event_type'' JNull ?k = JStr ty"
    "field_or ''agent_id'' JNull ?k = JStr ag" "field_or ''run_id'' JNull ?k = JStr ru"
    "field_or ''session_id'' JNull ?k = json_opt JStr None" "field_or ''action_id'' JNull ?k = json_opt JStr a"
    "field_or ''parent_event_id'' JNull ?k = json_opt JStr None" "field_or ''tool_name'' JNull ?k = json_opt JStr tool"
    "field_or ''effect'' JNull ?k = json_opt JStr eff" "field_or ''outcome'' JNull ?k = json_opt JStr out"
    by (simp_all add: field_or_def)
  define K where "K = ?k"
  note k = k [folded K_def]
  have aw: "aware (moment tm) \<longleftrightarrow> st_offset tm \<noteq> None" by (rule aware_moment)
  have opt: "(\<forall>f \<in> set optional_fields. field_or f JNull K = JNull \<or> is_identifier (field_or f JNull K))
      \<longleftrightarrow> opt_good a \<and> opt_good tool \<and> opt_good eff \<and> opt_good out"
    by (simp add: optional_fields_def k identifier_json_opt)
  have gs: "(\<forall>g \<in> set (map (\<lambda>f. optional_identifier f (field_or f JNull K)) optional_fields). \<not> fst g)
      \<longleftrightarrow> opt_good a \<and> opt_good tool \<and> opt_good eff \<and> opt_good out"
    unfolding opt [symmetric] by auto
  have "new_event K (Inl tm) (Inl src) = Inr e \<longleftrightarrow> e = ev \<and> good_name i \<and> good_name ag \<and> good_name ru \<and> event_name ty
      \<and> st_offset tm \<noteq> None \<and> opt_good a \<and> opt_good tool \<and> opt_good eff \<and> opt_good out"
    unfolding new_event_def check_guards_Inr k set_append set_simps ball_Un ball_simps gs
    by (auto simp: ev_def aw k opt_text_JNull)
  also have "\<dots> \<longleftrightarrow> e = ev \<and> event_ok ev"
    using assms(1,2) by (auto simp: event_ok_def ev_def opt_good_def)
  finally show ?thesis unfolding K_def .
qed

lemma emit_cases:
  fixes ty :: string and a tool eff out :: "string option"
  assumes "env_ok E" and "time_ok t" and "source_ok (ob_source ob)"
  defines "ev \<equiv> emitted E ob ty t a tool eff out"
  shows "event_ok ev \<and> emit E ob ty t a tool eff out
        = (ob\<lparr>ob_events := ob_events ob @ [ev], ob_tick := ob_tick ob + 1\<rparr>, Inr ev)
    \<or> \<not> event_ok ev \<and> (\<exists>x. value_error x \<and> emit E ob ty t a tool eff out = (ob\<lparr>ob_tick := ob_tick ob + 1\<rparr>, Inl x))"
proof -
  let ?n = "ob_tick ob" and ?tm = "case t of Some w \<Rightarrow> w | None \<Rightarrow> en_now E (ob_tick ob)"
  let ?new = "new_event [(''event_id'', JStr (en_uuid E ?n)), (''event_type'', JStr ty),
      (''agent_id'', JStr (ob_agent ob)), (''run_id'', JStr (ob_run ob)),
      (''action_id'', json_opt JStr a), (''tool_name'', json_opt JStr tool),
      (''effect'', json_opt JStr eff), (''outcome'', json_opt JStr out)] (Inl ?tm) (Inl (ob_source ob))"
  have st: "stamp_ok ?tm" using assms(1,2) by (simp add: env_ok_def time_ok_def split: option.splits)
  note iff = new_event_kwargs [OF st assms(3), of "en_uuid E ?n" ty "ob_agent ob" "ob_run ob" a tool eff out,
      folded emitted_def ev_def]
  show ?thesis
  proof (cases ?new)
    case (Inl x)
    moreover have "value_error x" using new_event_ends_well [OF st assms(3)] Inl by (metis ends_well_simps(2))
    moreover have "\<not> event_ok ev" using iff Inl by (metis Inl_Inr_False)
    ultimately show ?thesis by (simp add: emit_def Let_def)
  next
    case (Inr e)
    with iff have "e = ev \<and> event_ok ev" by blast
    with Inr show ?thesis by (simp add: emit_def Let_def)
  qed
qed

definition aware_time :: "stamp option \<Rightarrow> bool" where
  "aware_time t = (case t of None \<Rightarrow> True | Some w \<Rightarrow> st_offset w \<noteq> None)"

lemma event_types [simp]:
  "event_name ''agent.initialized''" "event_name ''agent.started''" "event_name ''agent.ended''"
  "event_name ''tool.intent''" "event_name ''tool.result''" "event_name ''tool.failed''"
  by (simp_all add: event_name_def is_lower_char_def is_digit_char_def char_between_def code_def)

lemma completion_value_good [simp]: "good_name (completion_value c)"
  by (cases c) (simp_all add: good_name_def nonblank_def is_space_def max_identifier_def)

text \<open>With good names only the timestamp can be refused.\<close>

lemma emitted_ok:
  assumes "env_ok E" and "time_ok t" and "source_ok (ob_source ob)" and "good_name (ob_agent ob)"
    and "good_name (ob_run ob)" and "event_name ty"
  shows "event_ok (emitted E ob ty t a tool eff out)
    \<longleftrightarrow> aware_time t \<and> opt_good a \<and> opt_good tool \<and> opt_good eff \<and> opt_good out"
  using assms by (auto simp: event_ok_def emitted_def env_ok_def time_ok_def aware_time_def good_name_def
      max_identifier_def opt_good_def split: option.splits)

section \<open>The invariant\<close>

definition ob_ok :: "observer \<Rightarrow> bool" where
  "ob_ok ob = (good_name (ob_agent ob) \<and> good_name (ob_run ob) \<and> source_ok (ob_source ob) \<and> 2 \<le> ob_max ob
     \<and> (\<forall>e \<in> set (ob_events ob). event_ok e \<and> ce_agent e = ob_agent ob \<and> ce_run e = ob_run ob \<and> ce_source e = ob_source ob)
     \<and> dict_ok (ob_pending ob)
     \<and> (\<forall>(a, tool, eff) \<in> set (ob_pending ob). good_name a \<and> good_name tool \<and> opt_good eff)
     \<and> (\<not> ob_started ob \<longrightarrow> ob_events ob = [] \<and> ob_pending ob = [] \<and> \<not> ob_closed ob)
     \<and> (ob_closed ob \<longrightarrow> ob_pending ob = [])
     \<and> int (length (ob_events ob) + length (ob_pending ob) + (if ob_closed ob then 0 else 1)) \<le> ob_max ob
     \<and> read_trace (ob_events ob) = Some (lifecycle_of ob))"

lemma ob_ok_tick [simp]: "ob_ok (ob\<lparr>ob_tick := n\<rparr>) = ob_ok ob"
  by (simp add: ob_ok_def lifecycle_of_def)

lemma read_trace_snoc: "read_trace (es @ [e]) = Option.bind (read_trace es) (\<lambda>l. read_one l e)"
  by (simp add: read_trace_def)

lemma new_observer_ok:
  assumes "env_ok E" and new: "new_observer E agent run host integration mx = Inr ob"
  shows "ob_ok ob"
proof -
  from new [unfolded new_observer_def bindS_Inr] obtain src ev where
    mx: "check_guards [(\<not> valid_max mx, ValueError ''max_events must be an integer of at least 2'')] () = Inr ()"
    and src: "new_source host integration (Inl Host_asserted) JNull = Inr src"
    and ev: "new_event [(''event_id'', JStr (en_uuid E 0)), (''event_type'', JStr ''agent.initialized''),
         (''agent_id'', agent), (''run_id'', run)] (Inl (en_now E 0)) (Inl src) = Inr ev"
    and ob: "ob = \<lparr>ob_agent = text_of agent, ob_run = text_of run, ob_source = src, ob_max = int_of_json mx,
            ob_events = [], ob_pending = [], ob_used = {}, ob_started = False, ob_closed = False, ob_tick = 1\<rparr>"
    by auto
  have "2 \<le> int_of_json mx" using mx unfolding check_guards_Inr by (cases mx) simp_all
  moreover have "source_ok src" using new_source_ends_well [of host integration Host_asserted JNull] src by simp
  moreover have "is_identifier agent" "is_identifier run"
    using ev unfolding new_event_def check_guards_Inr by (simp_all add: field_or_def)
  ultimately show ?thesis
    by (simp add: ob_ok_def ob good_text read_trace_def lifecycle_of_def unstarted_def)
qed

declare read_one.simps [simp del]

lemma read_start: "ce_type e = ''agent.started'' \<Longrightarrow> read_one (False, en, acts, seen) e = Some (True, en, acts, seen)"
  by (simp add: read_one.simps)

lemma read_end: "ce_type e = ''agent.ended'' \<Longrightarrow> read_one (True, False, [], seen) e = Some (True, True, [], seen)"
  by (simp add: read_one.simps)

lemma read_intent:
  "ce_type e = ''tool.intent'' \<Longrightarrow> ce_action e = Some a \<Longrightarrow> ce_tool e = Some tool \<Longrightarrow> a \<notin> seen \<Longrightarrow>
   read_one (True, False, acts, seen) e = Some (True, False, dict_set a (tool, ce_effect e) acts, insert a seen)"
  by (simp add: read_one.simps)

lemma read_outcome:
  "ce_type e = (if c = Returned then ''tool.result'' else ''tool.failed'') \<Longrightarrow> ce_action e = Some a \<Longrightarrow>
   ce_outcome e = Some (completion_value c) \<Longrightarrow> map_of acts a = Some (tool, eff) \<Longrightarrow> ce_tool e = Some tool \<Longrightarrow>
   ce_effect e = eff \<Longrightarrow> read_one (True, False, acts, seen) e = Some (True, False, dict_del a acts, seen)"
  by (cases c) (simp_all add: read_one.simps)

lemma set_dict_set_subset: "set (dict_set k v d) \<subseteq> insert (k, v) (set d)"
  by (induction k v d rule: dict_set.induct) auto

lemma start_ok:
  assumes "env_ok E" and "time_ok t" and ok: "ob_ok ob"
  shows "ob_ok (fst (observer_start E t ob))"
proof (cases "ob_started ob")
  case False
  let ?ev = "emitted E ob ''agent.started'' t None None None None"
  have src: "source_ok (ob_source ob)" using ok by (simp add: ob_ok_def)
  have empty: "ob_events ob = []" "ob_pending ob = []" "\<not> ob_closed ob" using ok False by (simp_all add: ob_ok_def)
  have tr: "read_trace [] = Some (False, False, [], ob_used ob)"
    using ok False empty by (simp add: ob_ok_def lifecycle_of_def)
  have "read_trace [?ev] = Some (True, False, [], ob_used ob)"
    using read_trace_snoc [of "[]" ?ev] by (simp add: tr read_start)
  then have "event_ok ?ev \<Longrightarrow> ob_ok (ob\<lparr>ob_events := [?ev], ob_tick := ob_tick ob + 1, ob_started := True\<rparr>)"
    using ok by (simp add: ob_ok_def lifecycle_of_def empty)
  with emit_cases [OF assms(1,2) src, of "''agent.started''" None None None None] ok show ?thesis
    by (auto simp: observer_start_def False empty)
qed (simp add: observer_start_def ok)

lemma intent_ok:
  assumes "env_ok E" and "time_ok t" and ok: "ob_ok ob"
  shows "ob_ok (fst (tool_intent E a tool eff t ob))"
proof (cases "ob_started ob \<and> \<not> ob_closed ob \<and> a \<notin> ob_used ob
    \<and> int (length (ob_events ob) + length (ob_pending ob) + 3) \<le> ob_max ob")
  case True
  let ?ev = "emitted E ob ''tool.intent'' t (Some a) (Some tool) eff None"
  let ?ob = "ob\<lparr>ob_events := ob_events ob @ [?ev], ob_tick := ob_tick ob + 1,
      ob_used := insert a (ob_used ob), ob_pending := dict_set a (tool, eff) (ob_pending ob)\<rparr>"
  have src: "source_ok (ob_source ob)" using ok by (simp add: ob_ok_def)
  have tr: "read_trace (ob_events ob) = Some (True, False, ob_pending ob, ob_used ob)"
    using ok True by (simp add: ob_ok_def lifecycle_of_def)
  have tr': "read_trace (ob_events ob @ [?ev]) = Some (lifecycle_of ?ob)"
    using True by (simp add: read_trace_snoc tr read_intent lifecycle_of_def)
  have len: "length (dict_set a (tool, eff) (ob_pending ob)) \<le> length (ob_pending ob) + 1"
    by (metis keys_dict_set length_append_singleton length_map le_add1 order_refl add.commute plus_1_eq_Suc)
  have "ob_ok ?ob" if "event_ok ?ev"
  proof -
    have names: "good_name a" "good_name tool" "opt_good eff"
      using that by (simp_all add: event_ok_def opt_good_def)
    have "set (dict_set a (tool, eff) (ob_pending ob)) \<subseteq> insert (a, tool, eff) (set (ob_pending ob))"
      by (rule set_dict_set_subset)
    then have "\<forall>(a, tool, eff) \<in> set (dict_set a (tool, eff) (ob_pending ob)). good_name a \<and> good_name tool \<and> opt_good eff"
      using ok names by (auto simp: ob_ok_def)
    then show ?thesis using ok that True tr' len by (simp add: ob_ok_def)
  qed
  with emit_cases [OF assms(1,2) src, of "''tool.intent''" "Some a" "Some tool" eff None] ok True show ?thesis
    by (auto simp: tool_intent_def)
next
  case False
  then show ?thesis by (auto simp: tool_intent_def ok)
qed

text \<open>The event of an outcome, and the state after it.\<close>

definition outcome_event :: "env \<Rightarrow> observer \<Rightarrow> string \<Rightarrow> string \<times> string option \<Rightarrow> completion \<Rightarrow> stamp option \<Rightarrow> agent_event" where
  "outcome_event E ob a p c t = emitted E ob (if c = Returned then ''tool.result'' else ''tool.failed'') t
     (Some a) (Some (fst p)) (snd p) (Some (completion_value c))"

definition after_outcome :: "env \<Rightarrow> observer \<Rightarrow> string \<Rightarrow> string \<times> string option \<Rightarrow> completion \<Rightarrow> stamp option \<Rightarrow> observer" where
  "after_outcome E ob a p c t = ob\<lparr>ob_events := ob_events ob @ [outcome_event E ob a p c t],
     ob_tick := ob_tick ob + 1, ob_pending := dict_del a (ob_pending ob)\<rparr>"

lemma pending_active: "ob_ok ob \<Longrightarrow> map_of (ob_pending ob) a = Some p \<Longrightarrow> ob_started ob \<and> \<not> ob_closed ob"
  by (auto simp: ob_ok_def)

lemma pending_good:
  assumes "ob_ok ob" and "map_of (ob_pending ob) a = Some (tool, eff)"
  shows "good_name a \<and> good_name tool \<and> opt_good eff"
  using assms map_of_SomeD [OF assms(2)] by (auto simp: ob_ok_def)

lemma outcome_event_ok:
  assumes "env_ok E" and "time_ok t" and ok: "ob_ok ob" and p: "map_of (ob_pending ob) a = Some p"
  shows "event_ok (outcome_event E ob a p c t) \<longleftrightarrow> aware_time t"
proof -
  have "opt_good (Some a)" "opt_good (Some (fst p))" "opt_good (snd p)" "opt_good (Some (completion_value c))"
    using pending_good [OF ok, of a "fst p" "snd p"] p by (simp_all add: opt_good_def)
  moreover have "source_ok (ob_source ob)" "good_name (ob_agent ob)" "good_name (ob_run ob)"
    using ok by (simp_all add: ob_ok_def)
  ultimately show ?thesis unfolding outcome_event_def
    by (subst emitted_ok [OF assms(1,2)]) simp_all
qed

lemma after_outcome_ok:
  assumes ok: "ob_ok ob" and p: "map_of (ob_pending ob) a = Some p" and ev: "event_ok (outcome_event E ob a p c t)"
  shows "ob_ok (after_outcome E ob a p c t)"
proof -
  let ?ev = "outcome_event E ob a p c t"
  note act = pending_active [OF ok p]
  have mem: "a \<in> fst ` set (ob_pending ob)" and d: "dict_ok (ob_pending ob)"
    using map_of_SomeD [OF p] ok by (force simp: ob_ok_def)+
  have tr: "read_trace (ob_events ob) = Some (True, False, ob_pending ob, ob_used ob)"
    using ok act by (simp add: ob_ok_def lifecycle_of_def)
  have "read_one (True, False, ob_pending ob, ob_used ob) ?ev
      = Some (True, False, dict_del a (ob_pending ob), ob_used ob)"
    by (rule read_outcome [of _ c _ _ "fst p" "snd p"]) (simp_all add: outcome_event_def p)
  then have "read_trace (ob_events ob @ [?ev]) = Some (lifecycle_of (after_outcome E ob a p c t))"
    using act by (simp add: read_trace_snoc tr lifecycle_of_def after_outcome_def)
  moreover have "set (dict_del a (ob_pending ob)) \<subseteq> set (ob_pending ob)" by (auto simp: dict_del_def)
  moreover have "ce_agent ?ev = ob_agent ob" "ce_run ?ev = ob_run ob" "ce_source ?ev = ob_source ob"
    by (simp_all add: outcome_event_def)
  ultimately show ?thesis
    using ok act ev length_dict_del [OF d mem] unfolding ob_ok_def after_outcome_def by auto
qed

lemma outcome_cases:
  assumes "env_ok E" and "time_ok t" and ok: "ob_ok ob"
  obtains (refused) x n where "tool_outcome E a c t ob = (ob\<lparr>ob_tick := n\<rparr>, Inl x)"
    | (recorded) p c' where "c = Inl c'" "map_of (ob_pending ob) a = Some p" "aware_time t"
        "tool_outcome E a c t ob = (after_outcome E ob a p c' t, Inr (outcome_event E ob a p c' t))"
proof (cases "map_of (ob_pending ob) a")
  case None
  then have "tool_outcome E a c t ob = (ob\<lparr>ob_tick := ob_tick ob\<rparr>, Inl (ValueError ''unknown or completed action_id''))"
    by (simp add: tool_outcome_def)
  then show thesis by (rule refused)
next
  case (Some p)
  obtain tool eff where p: "p = (tool, eff)" by (cases p)
  have open_run: "\<not> ob_closed ob" using pending_active [OF ok Some] by simp
  have src: "source_ok (ob_source ob)" using ok by (simp add: ob_ok_def)
  show thesis
  proof (cases c)
    case (Inr j)
    then have "tool_outcome E a c t ob = (ob\<lparr>ob_tick := ob_tick ob\<rparr>, Inl (TypeError ''completion must be a ToolCompletion''))"
      by (simp add: tool_outcome_def Some p open_run)
    then show thesis by (rule refused)
  next
    case (Inl c')
    note ev = outcome_event_ok [OF assms(1,2) ok Some, of c']
    note em = emit_cases [OF assms(1,2) src, of "if c' = Returned then ''tool.result'' else ''tool.failed''"
        "Some a" "Some tool" eff "Some (completion_value c')"]
    show thesis
    proof (cases "aware_time t")
      case True
      then have "tool_outcome E a c t ob = (after_outcome E ob a p c' t, Inr (outcome_event E ob a p c' t))"
        using em ev by (simp add: tool_outcome_def Some p open_run Inl outcome_event_def after_outcome_def)
      then show thesis by (rule recorded [OF Inl Some True])
    next
      case False
      then obtain x where "tool_outcome E a c t ob = (ob\<lparr>ob_tick := ob_tick ob + 1\<rparr>, Inl x)"
        using em ev by (auto simp: tool_outcome_def Some p open_run Inl outcome_event_def)
      then show thesis by (rule refused)
    qed
  qed
qed

lemma outcome_ok:
  assumes "env_ok E" and "time_ok t" and ok: "ob_ok ob"
  shows "ob_ok (fst (tool_outcome E a c t ob))"
  using assms
proof (cases rule: outcome_cases [of E t ob a c])
  case (recorded p c')
  then show ?thesis
    using after_outcome_ok [OF ok recorded(2)] outcome_event_ok [OF assms(1,2) ok recorded(2)] by simp
qed (simp_all add: ok)

section \<open>Finishing\<close>

text \<open>With an aware time every pending action is abandoned in turn; with another, the first refuses.\<close>

lemma abandon_all_aware:
  assumes "env_ok E" and "time_ok t" and "aware_time t"
  shows "ob_ok ob \<Longrightarrow> dict_keys (ob_pending ob) = as \<Longrightarrow>
    \<exists>ob' es. abandon_all E t as ob = (ob', Inr ()) \<and> ob_ok ob' \<and> ob_pending ob' = []
      \<and> ob_started ob' = ob_started ob \<and> ob_closed ob' = ob_closed ob \<and> ob_events ob' = ob_events ob @ es
      \<and> map ce_action es = map Some as
      \<and> (\<forall>e \<in> set es. ce_type e = ''tool.failed'' \<and> ce_outcome e = Some ''abandoned_uncertain'')"
proof (induction as arbitrary: ob)
  case Nil
  then show ?case by (intro exI [of _ ob] exI [of _ "[]"]) simp
next
  case (Cons a as)
  then obtain p d where pend: "ob_pending ob = (a, p) # d" "dict_keys d = as" by (cases "ob_pending ob") auto
  have look: "map_of (ob_pending ob) a = Some p" by (simp add: pend)
  have ev: "event_ok (outcome_event E ob a p Abandoned t)"
    using outcome_event_ok [OF assms(1,2) Cons.prems(1) look] assms(3) by simp
  let ?ob = "after_outcome E ob a p Abandoned t"
  have step: "tool_outcome E a (Inl Abandoned) t ob = (?ob, Inr (outcome_event E ob a p Abandoned t))"
  proof (cases rule: outcome_cases [OF assms(1,2) Cons.prems(1), of a "Inl Abandoned"])
    case (1 x n)
    have "source_ok (ob_source ob)" using Cons.prems(1) by (simp add: ob_ok_def)
    from emit_cases [OF assms(1,2) this, of "''tool.failed''" "Some a" "Some (fst p)" "snd p" "Some (completion_value Abandoned)"]
    show ?thesis using 1 ev pending_active [OF Cons.prems(1) look]
      by (auto simp: tool_outcome_def look outcome_event_def split: prod.splits)
  next
    case (2 q c)
    then show ?thesis by (simp add: look)
  qed
  have ok': "ob_ok ?ob" by (rule after_outcome_ok [OF Cons.prems(1) look ev])
  have "dict_ok (ob_pending ob)" using Cons.prems(1) unfolding ob_ok_def by blast
  then have "a \<notin> fst ` set d" by (simp add: pend(1))
  then have del: "dict_del a (ob_pending ob) = d"
    unfolding pend dict_del_def by (simp, intro filter_True) (auto simp: image_iff)
  then have "dict_keys (ob_pending ?ob) = as" by (simp add: after_outcome_def pend)
  from Cons.IH [OF ok' this] obtain ob' es where r: "abandon_all E t as ?ob = (ob', Inr ())" "ob_ok ob'"
    "ob_pending ob' = []" "ob_started ob' = ob_started ?ob" "ob_closed ob' = ob_closed ?ob"
    "ob_events ob' = ob_events ?ob @ es" "map ce_action es = map Some as"
    "\<forall>e \<in> set es. ce_type e = ''tool.failed'' \<and> ce_outcome e = Some ''abandoned_uncertain''" by blast
  show ?case
  proof (intro exI [of _ ob'] exI [of _ "outcome_event E ob a p Abandoned t # es"] conjI)
    show "abandon_all E t (a # as) ob = (ob', Inr ())" by (simp add: step r(1))
  qed (use r in \<open>auto simp: after_outcome_def outcome_event_def\<close>)
qed

text \<open>The three ways \<open>finish\<close> ends.\<close>

lemma finish_cases:
  assumes "env_ok E" and "time_ok t" and ok: "ob_ok ob"
  obtains (refused) x n where "observer_finish E t ob = (ob\<lparr>ob_tick := n\<rparr>, Inl x)"
      "ob_started ob \<and> \<not> ob_closed ob \<Longrightarrow> \<not> aware_time t"
    | (ended) ob' e es where "observer_finish E t ob = (ob', Inr e)" "ob_ok ob'" "ob_closed ob'" "ob_pending ob' = []"
        "ob_events ob' = ob_events ob @ es @ [e]" "map ce_action es = map Some (dict_keys (ob_pending ob))"
        "\<forall>e \<in> set es. ce_type e = ''tool.failed'' \<and> ce_outcome e = Some ''abandoned_uncertain''"
        "ce_type e = ''agent.ended''" "ob_started ob" "\<not> ob_closed ob" "aware_time t"
proof (cases "ob_started ob \<and> \<not> ob_closed ob")
  case False
  then have "observer_finish E t ob = (ob\<lparr>ob_tick := ob_tick ob\<rparr>, Inl (ValueError ''run is not active''))"
    by (auto simp: observer_finish_def)
  then show thesis by (rule refused) (use False in blast)
next
  case act: True
  show thesis
  proof (cases "aware_time t")
    case True
    from abandon_all_aware [OF assms(1,2) True ok refl] obtain ob' es
      where r: "abandon_all E t (dict_keys (ob_pending ob)) ob = (ob', Inr ())" "ob_ok ob'" "ob_pending ob' = []"
        "ob_started ob' = ob_started ob" "ob_closed ob' = ob_closed ob" "ob_events ob' = ob_events ob @ es"
        "map ce_action es = map Some (dict_keys (ob_pending ob))"
        "\<forall>e \<in> set es. ce_type e = ''tool.failed'' \<and> ce_outcome e = Some ''abandoned_uncertain''" by blast
    let ?ev = "emitted E ob' ''agent.ended'' t None None None None"
    let ?ob = "ob'\<lparr>ob_events := ob_events ob' @ [?ev], ob_tick := ob_tick ob' + 1, ob_closed := True\<rparr>"
    have src: "source_ok (ob_source ob')" "good_name (ob_agent ob')" "good_name (ob_run ob')"
      using r(2) by (simp_all add: ob_ok_def)
    have ev: "event_ok ?ev" using True by (simp add: emitted_ok [OF assms(1,2) src] opt_good_def)
    have tr: "read_trace (ob_events ob') = Some (True, False, [], ob_used ob')"
      using r(2-5) act by (simp add: ob_ok_def lifecycle_of_def)
    have "read_trace (ob_events ob' @ [?ev]) = Some (lifecycle_of ?ob)"
      unfolding read_trace_snoc tr using act r(3-5) by (simp add: read_end lifecycle_of_def)
    then have ok': "ob_ok ?ob" using r(2-5) act ev by (simp add: ob_ok_def)
    have fin: "observer_finish E t ob = (?ob, Inr ?ev)"
      using emit_cases [OF assms(1,2) src(1), of "''agent.ended''" None None None None] ev act r(1)
      by (auto simp: observer_finish_def)
    have "?thesis" if "ob_started ob" "\<not> ob_closed ob"
      by (rule ended [OF fin ok' _ _ _ r(7,8) _ that True]) (simp_all add: r)
    with act show thesis by blast
  next
    case False
    show thesis
    proof (cases "ob_pending ob")
      case Nil
      have src: "source_ok (ob_source ob)" "good_name (ob_agent ob)" "good_name (ob_run ob)"
        using ok by (simp_all add: ob_ok_def)
      have "\<not> event_ok (emitted E ob ''agent.ended'' t None None None None)"
        using False by (simp add: emitted_ok [OF assms(1,2) src])
      then obtain x where "observer_finish E t ob = (ob\<lparr>ob_tick := ob_tick ob + 1\<rparr>, Inl x)"
        using emit_cases [OF assms(1,2) src(1), of "''agent.ended''" None None None None] act Nil
        by (auto simp: observer_finish_def)
      then show thesis using False by (intro refused)
    next
      case (Cons q d)
      obtain a where a: "dict_keys (ob_pending ob) = a # map fst d" using Cons by (cases q) simp
      show thesis
      proof (cases rule: outcome_cases [OF assms, of a "Inl Abandoned"])
        case (1 x n)
        then have "observer_finish E t ob = (ob\<lparr>ob_tick := n\<rparr>, Inl x)"
          using act by (simp add: observer_finish_def a)
        then show thesis using False by (intro refused)
      qed (use False in simp)
    qed
  qed
qed

lemma observed_ok: "observed E ob \<Longrightarrow> env_ok E \<Longrightarrow> ob_ok ob"
proof (induction rule: observed.induct)
  case (created agent run host integration mx ob)
  then show ?case by (intro new_observer_ok)
next
  case (started ob t)
  then show ?case by (intro start_ok)
next
  case (intended ob t a tool eff)
  then show ?case by (intro intent_ok)
next
  case (completed ob t a c)
  then show ?case by (intro outcome_ok)
next
  case (finished ob t)
  then have "ob_ok ob" by blast
  show ?case
    by (cases rule: finish_cases [OF finished.prems finished.hyps(2) \<open>ob_ok ob\<close>]) (simp_all add: \<open>ob_ok ob\<close>)
qed

section \<open>Properties\<close>

text \<open>
  C25: Whatever calls a host makes, in any order and refused ones included, the recorder stays within
  its budget with room for every outstanding outcome and for the end of the run, and every event it
  holds is well-formed and names this agent, run and source.
\<close>
theorem observer_budget:
  assumes "env_ok E" and "observed E ob"
  shows "int (length (ob_events ob) + length (ob_pending ob) + (if ob_closed ob then 0 else 1)) \<le> ob_max ob
    \<and> (\<forall>e \<in> set (ob_events ob). event_ok e \<and> ce_agent e = ob_agent ob \<and> ce_run e = ob_run ob \<and> ce_source e = ob_source ob)"
  using observed_ok [OF assms(2,1)] unfolding ob_ok_def by blast

text \<open>
  C26: The record alone tells the state of the run: the events of any reachable recorder are a run of
  the lifecycle automaton (started once and first, one intent per action, at most one outcome per
  action with the tool and effect of its intent, ended once and last with nothing open), which ends in
  exactly the started flag, closed flag, pending actions and used identifiers that the recorder keeps.
\<close>
theorem record_refines_lifecycle:
  assumes "env_ok E" and "observed E ob"
  shows "read_trace (ob_events ob) = Some (ob_started ob, ob_closed ob, ob_pending ob, ob_used ob)"
  using observed_ok [OF assms(2,1)] unfolding ob_ok_def lifecycle_of_def by blast

text \<open>
  A run that is active can always be finished, at its capacity limit too: unless the caller
  passes a time without a zone, \<open>finish\<close> returns, appends one uncertain outcome for each open action
  in the order of the intents and then the end of the run, and leaves nothing pending.
\<close>
theorem active_run_can_finish:
  assumes "env_ok E" and "observed E ob" and "ob_started ob" and "\<not> ob_closed ob"
    and "time_ok t" and "aware_time t"
  shows "\<exists>ob' es e. observer_finish E t ob = (ob', Inr e) \<and> ob_events ob' = ob_events ob @ es @ [e]
    \<and> map ce_action es = map Some (dict_keys (ob_pending ob))
    \<and> (\<forall>e \<in> set es. ce_type e = ''tool.failed'' \<and> ce_outcome e = Some ''abandoned_uncertain'')
    \<and> ce_type e = ''agent.ended'' \<and> ob_closed ob' \<and> ob_pending ob' = []"
  using observed_ok [OF assms(2,1)] assms
  by (cases rule: finish_cases [OF assms(1,5)]) auto

text \<open>
  A call that is refused has not happened: whichever method raises, whatever the reason, the
  events, pending actions, used identifiers and flags are those of before, \<open>finish\<close> included, which
  never stops halfway through the open actions.
\<close>
theorem refused_call_changes_nothing:
  assumes "env_ok E" and "observed E ob" and "time_ok t"
    and "(ob', Inl x) \<in> {observer_start E t ob, tool_intent E a tool eff t ob, tool_outcome E a c t ob, observer_finish E t ob}"
  shows "\<exists>n. ob' = ob\<lparr>ob_tick := n\<rparr>"
proof -
  note ok = observed_ok [OF assms(2,1)]
  have src: "source_ok (ob_source ob)" using ok by (simp add: ob_ok_def)
  note em = emit_cases [OF assms(1,3) src]
  have same: "\<exists>n. ob = ob\<lparr>ob_tick := n\<rparr>" by (rule exI [of _ "ob_tick ob"]) simp
  consider "observer_start E t ob = (ob', Inl x)" | "tool_intent E a tool eff t ob = (ob', Inl x)"
    | "tool_outcome E a c t ob = (ob', Inl x)" | "observer_finish E t ob = (ob', Inl x)"
    using assms(4) by auto
  then show ?thesis
  proof cases
    case 1
    then show ?thesis using em [of "''agent.started''" None None None None] same
      by (auto simp: observer_start_def split: if_splits)
  next
    case 2
    then show ?thesis using em [of "''tool.intent''" "Some a" "Some tool" eff None] same
      by (auto simp: tool_intent_def split: if_splits)
  next
    case 3
    then show ?thesis by (cases rule: outcome_cases [OF assms(1,3) ok, of a c]) auto
  next
    case 4
    then show ?thesis by (cases rule: finish_cases [OF assms(1,3) ok]) auto
  qed
qed

section \<open>A concrete run\<close>

text \<open>A recorder of four events, started, with one open action: it is full.\<close>

definition noon :: stamp where
  "noon = \<lparr>st_year = 2026, st_month = 10, st_day = 22, st_hour = 12, st_minute = 0, st_second = 0,
     st_micro = 0, st_offset = Some 0\<rparr>"

definition sample_env :: env where
  "sample_env = \<lparr>en_uuid = \<lambda>n. replicate 32 CHR ''a'', en_now = \<lambda>n. noon\<rparr>"

definition sample_new :: observer where
  "sample_new = \<lparr>ob_agent = ''agent'', ob_run = ''run'', ob_source = \<lparr>es_host = ''host'', es_integration = ''sdk'',
     es_assurance = Host_asserted, es_evidence = None\<rparr>, ob_max = 4, ob_events = [], ob_pending = [], ob_used = {},
     ob_started = False, ob_closed = False, ob_tick = 1\<rparr>"

definition recorder_started :: observer where
  "recorder_started = fst (observer_start sample_env None sample_new)"

definition sample_run :: observer where
  "sample_run = fst (tool_intent sample_env ''one'' ''search'' None None recorder_started)"

lemma noon_ok [simp]: "stamp_ok noon" "st_offset noon = Some 0"
  by (simp_all add: noon_def stamp_ok_def date_ok_def month_days_def day_us_def)

lemma sample_env_ok: "env_ok sample_env"
  by (simp add: env_ok_def sample_env_def nonblank_def is_space_def)

lemma sample_names [simp]:
  "good_name ''agent''" "good_name ''run''" "good_name ''host''" "good_name ''sdk''" "good_name ''one''" "good_name ''search''"
  by (simp_all add: good_name_def nonblank_def is_space_def max_identifier_def)

lemma sample_uuid [simp]: "good_name (en_uuid sample_env n)"
  using sample_env_ok by (simp add: env_ok_def good_name_def max_identifier_def)

lemma recorder_created: "new_observer sample_env (JStr ''agent'') (JStr ''run'') (JStr ''host'') (JStr ''sdk'') (JInt 4) = Inr sample_new"
proof -
  have src: "new_source (JStr ''host'') (JStr ''sdk'') (Inl Host_asserted) JNull = Inr (ob_source sample_new)"
    unfolding new_source_def check_guards_Inr by (simp add: sample_new_def opt_text_JNull)
  have so: "source_ok (ob_source sample_new)" using new_source_ends_well [of "JStr ''host''" "JStr ''sdk''" Host_asserted JNull] src by simp
  have "\<exists>e. new_event [(''event_id'', JStr (en_uuid sample_env 0)), (''event_type'', JStr ''agent.initialized''),
      (''agent_id'', JStr ''agent''), (''run_id'', JStr ''run'')] (Inl (en_now sample_env 0)) (Inl (ob_source sample_new)) = Inr e"
    unfolding new_event_def check_guards_Inr
    by (simp add: field_or_def optional_fields_def aware_moment) (simp add: sample_env_def)
  then show ?thesis by (auto simp: new_observer_def check_guards_def src) (simp_all add: sample_new_def)
qed

lemma no_time [simp]: "time_ok None" "aware_time None"
  by (simp_all add: time_ok_def aware_time_def)

lemma sample_new_ok: "ob_ok sample_new"
  by (rule new_observer_ok [OF sample_env_ok recorder_created])

lemma recorder_started_eq: "\<exists>e. recorder_started = sample_new\<lparr>ob_events := [e], ob_tick := 2, ob_started := True\<rparr>"
proof -
  have src: "source_ok (ob_source sample_new)" using sample_new_ok by (simp add: ob_ok_def)
  have "event_ok (emitted sample_env sample_new ''agent.started'' None None None None None)"
    by (subst emitted_ok [OF sample_env_ok _ src]) (simp_all add: opt_good_def, simp_all add: sample_new_def)
  with emit_cases [OF sample_env_ok no_time(1) src, of "''agent.started''" None None None None]
  show ?thesis by (auto simp: recorder_started_def observer_start_def) (simp_all add: sample_new_def)
qed

lemma sample_run_eq: "\<exists>e f. sample_run = sample_new\<lparr>ob_events := [e, f], ob_tick := 3, ob_started := True,
    ob_used := {''one''}, ob_pending := [(''one'', ''search'', None)]\<rparr>"
proof -
  obtain e where st: "recorder_started = sample_new\<lparr>ob_events := [e], ob_tick := 2, ob_started := True\<rparr>"
    using recorder_started_eq by blast
  have "ob_ok recorder_started" unfolding recorder_started_def by (rule start_ok [OF sample_env_ok _ sample_new_ok]) simp
  then have src: "source_ok (ob_source recorder_started)" by (simp add: ob_ok_def)
  have "event_ok (emitted sample_env recorder_started ''tool.intent'' None (Some ''one'') (Some ''search'') None None)"
    by (subst emitted_ok [OF sample_env_ok _ src]) (simp_all add: opt_good_def, simp_all add: st sample_new_def)
  with emit_cases [OF sample_env_ok no_time(1) src, of "''tool.intent''" "Some ''one''" "Some ''search''" None None]
  show ?thesis unfolding sample_run_def tool_intent_def by (auto simp: st sample_new_def)
qed

lemma sample_observed: "observed sample_env sample_run"
  unfolding sample_run_def recorder_started_def
  by (rule intended, rule started, rule created [OF recorder_created]) simp_all

lemma sample_state: "ob_started sample_run" "\<not> ob_closed sample_run" "length (ob_events sample_run) = 2"
    "ob_pending sample_run = [(''one'', ''search'', None)]" "ob_max sample_run = 4" "ob_used sample_run = {''one''}"
proof -
  obtain e f where eq: "sample_run = sample_new\<lparr>ob_events := [e, f], ob_tick := 3, ob_started := True,
      ob_used := {''one''}, ob_pending := [(''one'', ''search'', None)]\<rparr>"
    using sample_run_eq by blast
  show "ob_started sample_run" "\<not> ob_closed sample_run" "length (ob_events sample_run) = 2"
    "ob_pending sample_run = [(''one'', ''search'', None)]" "ob_max sample_run = 4" "ob_used sample_run = {''one''}"
    by (simp_all add: eq sample_new_def)
qed

theorem observer_budget_witness:
  "length (ob_events sample_run) = 2 \<and> int (2 + 1 + 1) \<le> ob_max sample_run \<and> list_all event_ok (ob_events sample_run)"
  using observer_budget [OF sample_env_ok sample_observed] by (simp add: sample_state list_all_iff)

theorem record_refines_lifecycle_witness:
  "\<exists>p. read_trace (ob_events sample_run) = Some (True, False, p, ob_used sample_run) \<and> dict_keys p = [''one'']"
  using record_refines_lifecycle [OF sample_env_ok sample_observed] by (simp add: sample_state)

theorem active_run_can_finish_witness:
  "\<exists>ob' e. observer_finish sample_env None sample_run = (ob', Inr e) \<and> length (ob_events ob') = 4 \<and> ob_closed ob'"
proof -
  obtain ob' es e where fin: "observer_finish sample_env None sample_run = (ob', Inr e)"
      "ob_events ob' = ob_events sample_run @ es @ [e]"
      "map ce_action es = map Some (dict_keys (ob_pending sample_run))" "ob_closed ob'"
    using active_run_can_finish [OF sample_env_ok sample_observed sample_state(1,2) no_time] by blast
  have "length es = 1" using arg_cong [OF fin(3), of length] by (simp add: sample_state)
  with fin show ?thesis by (simp add: sample_state)
qed

text \<open>A second intent exceeds the budget.\<close>

theorem refused_call_changes_nothing_witness:
  "\<exists>ob' x n. tool_intent sample_env ''two'' ''refund'' None None sample_run = (ob', Inl x)
     \<and> exn_class x = ''EventCapacityExceeded'' \<and> ob' = sample_run\<lparr>ob_tick := n\<rparr>"
proof -
  have r: "tool_intent sample_env ''two'' ''refund'' None None sample_run
      = (sample_run, Inl (OtherError ''EventCapacityExceeded'' ''event recording limit reached''))"
    by (simp add: tool_intent_def sample_state)
  then have "(sample_run, Inl (OtherError ''EventCapacityExceeded'' ''event recording limit reached''))
      \<in> {observer_start sample_env None sample_run, tool_intent sample_env ''two'' ''refund'' None None sample_run,
          tool_outcome sample_env ''two'' (Inl Returned) None sample_run, observer_finish sample_env None sample_run}"
    by simp
  from refused_call_changes_nothing [OF sample_env_ok sample_observed no_time(1) this] r show ?thesis
    by (metis exn_class.simps(9))
qed

end
