(* ===== verification/Shell_Lexer.thy ===== *)
theory Shell_Lexer
  imports Tool_Names
begin

text \<open>
  How the tool classifier reads a shell command (core/tool_classifier.py): the tokens that
  \<open>shlex\<close> makes of it in POSIX mode with punctuation, its segments, and the separation of
  comments and heredoc bodies from the script.
\<close>

section \<open>Tokens\<close>

abbreviation squote :: char where "squote \<equiv> CHR 0x27"
abbreviation dquote :: char where "dquote \<equiv> CHR 0x22"
abbreviation bslash :: char where "bslash \<equiv> CHR 0x5C"
abbreviation newline :: char where "newline \<equiv> CHR 0x0A"

definition lex_space :: "char \<Rightarrow> bool" where
  "lex_space c = (c \<in> {CHR '' '', CHR 0x09, CHR 0x0D, newline})"

definition lex_punct :: "char \<Rightarrow> bool" where
  "lex_punct c = (c \<in> set ''();<>|&'')"

definition lex_quote :: "char \<Rightarrow> bool" where
  "lex_quote c = (c = squote \<or> c = dquote)"

text \<open>
  \<open>shlex.shlex(s, posix=True, punctuation_chars=True)\<close> with \<open>whitespace_split\<close> and no comments:
  its states, the token so far, the rest of the input. A character pushed back is read again.
  \<open>None\<close> is the \<open>ValueError\<close> of an input that ends in a quotation or an escape. A word that is
  empty was quoted.
\<close>

datatype lex_state = Blank | Word | Punct | Quoted char | Escaped "char option"

function shlex :: "lex_state \<Rightarrow> string \<Rightarrow> string \<Rightarrow> string list option" where
  "shlex Blank tok [] = Some []"
| "shlex Word tok [] = Some [tok]"
| "shlex Punct tok [] = Some [tok]"
| "shlex (Quoted q) tok [] = None"
| "shlex (Escaped b) tok [] = None"
| "shlex Blank tok (c # cs) =
     (if lex_space c then shlex Blank [] cs
      else if c = bslash then shlex (Escaped None) [] cs
      else if lex_punct c then shlex Punct [c] cs
      else if lex_quote c then shlex (Quoted c) [] cs
      else shlex Word [c] cs)"
| "shlex (Quoted q) tok (c # cs) =
     (if c = q then shlex Word tok cs
      else if c = bslash \<and> q = dquote then shlex (Escaped (Some q)) tok cs
      else shlex (Quoted q) (tok @ [c]) cs)"
| "shlex (Escaped b) tok (c # cs) =
     shlex (case b of None \<Rightarrow> Word | Some q \<Rightarrow> Quoted q)
       (if b \<noteq> None \<and> c \<noteq> bslash \<and> b \<noteq> Some c then tok @ [bslash, c] else tok @ [c]) cs"
| "shlex Word tok (c # cs) =
     (if lex_space c then map_option ((#) tok) (shlex Blank [] cs)
      else if lex_quote c then shlex (Quoted c) tok cs
      else if c = bslash then shlex (Escaped None) tok cs
      else if lex_punct c then map_option ((#) tok) (shlex Blank [] (c # cs))
      else shlex Word (tok @ [c]) cs)"
| "shlex Punct tok (c # cs) =
     (if lex_space c then map_option ((#) tok) (shlex Blank [] cs)
      else if lex_punct c then shlex Punct (tok @ [c]) cs
      else map_option ((#) tok) (shlex Blank [] (c # cs)))"
  by pat_completeness auto
termination
  by (relation "measure (\<lambda>(st, tok, cs). 2 * length cs + (if st = Blank then 0 else 1))") auto

text \<open>\<open>str.split()\<close>.\<close>

fun split_ws :: "string \<Rightarrow> string \<Rightarrow> string list" where
  "split_ws acc [] = (if acc = [] then [] else [acc])"
| "split_ws acc (c # cs) =
     (if is_space c then (if acc = [] then split_ws [] cs else acc # split_ws [] cs)
      else split_ws (acc @ [c]) cs)"

fun drop_continuations :: "string \<Rightarrow> string" where
  "drop_continuations (a # b # cs) =
     (if a = bslash \<and> b = newline then drop_continuations cs else a # drop_continuations (b # cs))"
| "drop_continuations s = s"

definition newlines_to_semicolons :: "string \<Rightarrow> string" where
  "newlines_to_semicolons s = concat (map (\<lambda>c. if c = newline then '' ; '' else [c]) s)"

definition tokenize :: "string \<Rightarrow> string list" where
  "tokenize command =
     (let prepared = newlines_to_semicolons (drop_continuations command)
      in case shlex Blank [] prepared of Some ts \<Rightarrow> ts | None \<Rightarrow> split_ws [] prepared)"

section \<open>Segments\<close>

definition segment_ops :: "string set" where
  "segment_ops = {''|'', ''|&'', ''||'', ''&&'', '';'', ''&'', ''('', '')'', ''<(''}"

definition pipe_ops :: "string set" where
  "pipe_ops = {''|'', ''|&''}"

fun split_segments :: "string list \<Rightarrow> string list list \<times> string list" where
  "split_segments [] = ([[]], [])"
| "split_segments (t # ts) =
     (case split_segments ts of (segs, cons) \<Rightarrow>
        if t \<in> segment_ops then ([] # segs, t # cons) else ((t # hd segs) # tl segs, cons))"

section \<open>Heredocs and comments\<close>

record heredoc =
  hd_delimiter :: string
  hd_quoted :: bool
  hd_strip_tabs :: bool

text \<open>The word of a heredoc operator: the longest run of escapes, quotations and plain characters.\<close>

function heredoc_word :: "string \<Rightarrow> string \<times> string" where
  "heredoc_word [] = ([], [])"
| "heredoc_word (c # cs) =
     (if c = bslash then
        (case cs of
           [] \<Rightarrow> ([], c # cs)
         | d # ds \<Rightarrow> if d = newline then ([], c # cs)
                    else (case heredoc_word ds of (w, r) \<Rightarrow> (c # d # w, r)))
      else if lex_quote c then
        (let body = takeWhile (\<lambda>d. d \<noteq> c \<and> d \<noteq> newline) cs; rest = drop (length body) cs
         in if take 1 rest = [c]
            then (case heredoc_word (tl rest) of (w, r) \<Rightarrow> (c # body @ c # w, r))
            else ([], c # cs))
      else if is_space c \<or> c \<in> set '';&|<>()'' then ([], c # cs)
      else (case heredoc_word cs of (w, r) \<Rightarrow> (c # w, r)))"
  by pat_completeness auto
termination
  by (relation "measure length") auto

definition heredoc_at :: "string \<Rightarrow> bool \<Rightarrow> string \<Rightarrow> (heredoc \<times> string \<times> string) option" where
  "heredoc_at oper tabs s =
     (let blanks = takeWhile (\<lambda>c. c = CHR '' '' \<or> c = CHR 0x09) s
      in case heredoc_word (drop (length blanks) s) of (w, r) \<Rightarrow>
        if w = [] then None
        else Some (\<lparr>hd_delimiter = filter (\<lambda>c. \<not> (lex_quote c \<or> c = bslash)) w,
                    hd_quoted = list_ex (\<lambda>c. lex_quote c \<or> c = bslash) w, hd_strip_tabs = tabs\<rparr>,
                   oper @ blanks @ w, r))"

text \<open>A dash after the operator strips tabs, unless only with it there is a word.\<close>

definition heredoc_op :: "string \<Rightarrow> (heredoc \<times> string \<times> string) option" where
  "heredoc_op s =
     (if prefix ''<<-'' s then
        (case heredoc_at ''<<-'' True (drop 3 s) of
           Some x \<Rightarrow> Some x | None \<Rightarrow> heredoc_at ''<<'' False (drop 2 s))
      else if prefix ''<<'' s then heredoc_at ''<<'' False (drop 2 s) else None)"

definition span_line :: "string \<Rightarrow> string \<times> string" where
  "span_line s = (takeWhile (\<lambda>c. c \<noteq> newline) s, dropWhile (\<lambda>c. c \<noteq> newline) s)"

text \<open>\<open>_read_heredoc_body\<close>: the lines of the body and what follows the line of the delimiter.\<close>

function body_lines :: "heredoc \<Rightarrow> string \<Rightarrow> string list \<times> string" where
  "body_lines h s =
     (if s = [] then ([], [])
      else let line = takeWhile (\<lambda>c. c \<noteq> newline) s; rest = drop (Suc (length line)) s
           in if (if hd_strip_tabs h then dropWhile (\<lambda>c. c = CHR 0x09) line else line) = hd_delimiter h
              then ([], rest)
              else (case body_lines h rest of (ls, r) \<Rightarrow> (line # ls, r)))"
  by pat_completeness auto
termination
  by (relation "measure (\<lambda>(h, s). length s)") auto

declare body_lines.simps [simp del]

fun join_with :: "string \<Rightarrow> string list \<Rightarrow> string" where
  "join_with sep [] = []"
| "join_with sep [w] = w"
| "join_with sep (w # ws) = w @ sep @ join_with sep ws"

definition read_heredoc_body :: "heredoc \<Rightarrow> string \<Rightarrow> string \<times> string" where
  "read_heredoc_body h s = (case body_lines h s of (ls, r) \<Rightarrow> (join_with [newline] ls, r))"

text \<open>What a substitution encloses, from the depth of its parentheses, and what follows it.\<close>

fun close_paren :: "nat \<Rightarrow> string \<Rightarrow> string \<times> string" where
  "close_paren d [] = ([], [])"
| "close_paren d (c # cs) =
     (let d' = (if c = CHR ''('' then d + 1 else if c = CHR '')'' then d - 1 else d)
      in if d' = 0 then ([], cs) else (case close_paren d' cs of (u, r) \<Rightarrow> (c # u, r)))"

lemma close_paren_length: "close_paren d s = (u, r) \<Longrightarrow> length u + length r \<le> length s"
  by (induction d s arbitrary: u r rule: close_paren.induct) (auto simp: Let_def split: prod.splits if_splits)

function substitutions :: "string \<Rightarrow> string list" where
  "substitutions [] = []"
| "substitutions (c # cs) =
     (if c = bslash then substitutions (tl cs)
      else if prefix ''$('' (c # cs) then
        (let p = close_paren 1 (tl cs) in fst p # substitutions (snd p))
      else if c = CHR 0x60 then
        (let u = takeWhile (\<lambda>d. d \<noteq> CHR 0x60) cs in u # substitutions (drop (Suc (length u)) cs))
      else substitutions cs)"
  by pat_completeness auto
termination
proof (relation "measure length", goal_cases)
  case (3 c cs p)
  obtain u r where p: "close_paren 1 (tl cs) = (u, r)" by (cases "close_paren 1 (tl cs)")
  from close_paren_length [OF p] 3 p show ?case by simp
qed auto

text \<open>The nested contexts of a command.\<close>

datatype shell_ctx = Arith | Paren | Brace | Ansi | Single | Double | Backtick

fun closer :: "shell_ctx \<Rightarrow> string" where
  "closer Arith = ''))''"
| "closer Paren = '')''"
| "closer Brace = ''}''"
| "closer Ansi = [squote]"
| "closer Single = [squote]"
| "closer Double = [dquote]"
| "closer Backtick = [CHR 0x60]"

definition openers :: "(string \<times> shell_ctx) list" where
  "openers = [(''$(('', Arith), (''(('', Arith), (''$('', Paren), (''${'', Brace),
     ([CHR ''$'', squote], Ansi), (''('', Paren), ([squote], Single), ([dquote], Double),
     ([CHR 0x60], Backtick)]"

definition quoted_openers :: "(string \<times> shell_ctx) list" where
  "quoted_openers = [(''$(('', Arith), (''$('', Paren), (''${'', Brace), ([CHR 0x60], Backtick)]"

definition opener :: "string \<Rightarrow> shell_ctx option \<Rightarrow> (string \<times> shell_ctx) option" where
  "opener s inn =
     List.find (\<lambda>p. prefix (fst p) s) (if inn = Some Double then quoted_openers else openers)"

definition in_command :: "shell_ctx option \<Rightarrow> bool" where
  "in_command inn = (inn \<in> {None, Some Paren, Some Backtick})"

definition word_breaks :: string where
  "word_breaks = [CHR '' '', CHR 0x09, newline, CHR '';'', CHR ''|'', CHR ''&'', CHR ''('', CHR '')'']"

definition basename :: "string \<Rightarrow> string" where
  "basename s = rev (takeWhile (\<lambda>c. c \<noteq> CHR ''/'') (rev s))"

definition shells :: "string set" where
  "shells = {''sh'', ''bash'', ''zsh'', ''dash'', ''ksh'', ''fish'', ''source''}"

definition continued_line :: "string \<Rightarrow> bool" where
  "continued_line line =
     (let t = rev (dropWhile is_space (rev line))
      in suffix ''|'' t \<or> suffix ''|&'' t \<or> suffix ''&&'' t)"

definition feeds_a_shell :: "string \<Rightarrow> bool" where
  "feeds_a_shell line =
     (continued_line line \<or>
      list_ex (\<lambda>seg. seg \<noteq> [] \<and> (hd seg = ''.'' \<or> list_ex (\<lambda>t. basename t \<in> shells) seg))
        (fst (split_segments (tokenize line))))"

record scan_state =
  sc_kept :: string
  sc_line_start :: nat
  sc_executed :: "string list"
  sc_pending :: "heredoc list"
  sc_stack :: "shell_ctx list"

definition keep :: "string \<Rightarrow> scan_state \<Rightarrow> scan_state" where
  "keep step st = st\<lparr>sc_kept := sc_kept st @ step\<rparr>"

fun read_bodies :: "bool \<Rightarrow> heredoc list \<Rightarrow> string \<Rightarrow> string list \<times> string" where
  "read_bodies runs [] s = ([], s)"
| "read_bodies runs (h # hs) s =
     (case read_heredoc_body h s of (body, r) \<Rightarrow>
      case read_bodies runs hs r of (rest, r') \<Rightarrow>
        ((if runs then [body] else if \<not> hd_quoted h then substitutions body else []) @ rest, r'))"

definition innermost :: "scan_state \<Rightarrow> shell_ctx option" where
  "innermost st = (case sc_stack st of [] \<Rightarrow> None | x # _ \<Rightarrow> Some x)"

text \<open>One turn of the loop of \<open>_split_heredocs\<close>, on a rest that is not empty.\<close>

definition scan_step :: "scan_state \<Rightarrow> string \<Rightarrow> scan_state \<times> string" where
  "scan_step st s =
     (let c = hd s; stack = sc_stack st; inn = innermost st;
          cmd = in_command inn; pop = st\<lparr>sc_stack := tl stack\<rparr>
      in
      if inn = Some Single \<or> inn = Some Ansi then
        (if inn = Some Ansi \<and> c = bslash then (keep (take 2 s) st, drop 2 s)
         else if c = squote then (keep [c] pop, tl s)
         else (keep [c] st, tl s))
      else if c = bslash then (keep (take 2 s) st, drop 2 s)
      else if inn \<noteq> None \<and> prefix (closer (the inn)) s
      then (keep (closer (the inn)) pop, drop (length (closer (the inn))) s)
      else if cmd \<and> c = CHR ''#'' \<and> (sc_kept st = [] \<or> last (sc_kept st) \<in> set word_breaks)
      then (st, snd (span_line s))
      else if cmd \<and> prefix ''<<<'' s then (keep ''<<<'' st, drop 3 s)
      else case (if cmd then heredoc_op s else None) of
        Some (h, text, r) \<Rightarrow> (keep text (st\<lparr>sc_pending := sc_pending st @ [h]\<rparr>), r)
      | None \<Rightarrow>
          if cmd \<and> c = newline \<and> sc_pending st \<noteq> [] then
            (case read_bodies (feeds_a_shell (drop (sc_line_start st) (sc_kept st))) (sc_pending st) (tl s)
             of (bodies, r) \<Rightarrow>
               (st\<lparr>sc_kept := sc_kept st @ [newline], sc_line_start := length (sc_kept st) + 1,
                   sc_executed := sc_executed st @ bodies, sc_pending := []\<rparr>, r))
          else case opener s inn of
            Some (text, ctx) \<Rightarrow>
              (keep text (st\<lparr>sc_stack := ctx # stack\<rparr>), drop (length text) s)
          | None \<Rightarrow>
              (keep [c] (if cmd \<and> c = newline then st\<lparr>sc_line_start := length (sc_kept st) + 1\<rparr> else st),
               tl s))"

section \<open>The scan ends\<close>

text \<open>
  The weight of a command bounds the length of its prepared text, where a newline becomes three
  characters. Nothing the scan makes of a command is heavier.
\<close>

definition weight :: "string \<Rightarrow> nat" where
  "weight s = sum_list (map (\<lambda>c. if c = newline then 3 else 1) s)"

lemma weight_simps [simp]:
  "weight [] = 0" "weight (c # s) = (if c = newline then 3 else 1) + weight s"
  "weight (s @ t) = weight s + weight t"
  by (simp_all add: weight_def)

lemma weight_tl: "weight (tl s) \<le> weight s"
  by (cases s) auto

lemma weight_drop: "weight (drop n s) \<le> weight s"
  by (metis append_take_drop_id le_add2 weight_simps(3))

lemma weight_take_drop: "weight (take n s) + weight (drop n s) = weight s"
  by (metis append_take_drop_id weight_simps(3))

lemma weight_line: "weight (takeWhile P s) + weight (dropWhile P s) = weight s"
  by (metis takeWhile_dropWhile_id weight_simps(3))

lemma weight_length: "newline \<notin> set s \<Longrightarrow> weight s = length s"
  by (induction s) auto

lemma heredoc_word_append: "heredoc_word s = (w, r) \<Longrightarrow> w @ r = s"
proof (induction s arbitrary: w r rule: heredoc_word.induct)
  case (2 c cs)
  consider (esc) "c = bslash" | (quote) "c \<noteq> bslash" "lex_quote c" | (other) "c \<noteq> bslash" "\<not> lex_quote c"
    by blast
  then show ?case
  proof cases
    case esc
    show ?thesis
    proof (cases "cs = [] \<or> hd cs = newline")
      case True
      with "2.prems" esc show ?thesis by (cases cs) simp_all
    next
      case False
      then obtain d ds where cs: "cs = d # ds" "d \<noteq> newline" by (cases cs) auto
      obtain w' r' where w': "heredoc_word ds = (w', r')" by (cases "heredoc_word ds")
      with "2.prems" esc cs have "w = c # d # w'" "r = r'" by simp_all
      with 2(1) [OF esc cs w'] cs(1) show ?thesis by simp
    qed
  next
    case quote
    let ?body = "takeWhile (\<lambda>d. d \<noteq> c \<and> d \<noteq> newline) cs"
    let ?rest = "drop (length ?body) cs"
    have rest: "?body @ ?rest = cs" by (metis takeWhile_eq_take append_take_drop_id)
    show ?thesis
    proof (cases "take 1 ?rest = [c]")
      case t: True
      then have r: "?rest = c # tl ?rest" by (cases ?rest) auto
      obtain w' r' where w': "heredoc_word (tl ?rest) = (w', r')" by (cases "heredoc_word (tl ?rest)")
      with "2.prems" quote t have w: "w = c # ?body @ c # w'" "r = r'" by (simp_all add: Let_def)
      have "w' @ r' = tl ?rest" using 2(2) [OF quote refl refl t w'] .
      with w have "w @ r = c # ?body @ c # tl ?rest" by simp
      also have "\<dots> = c # ?body @ ?rest" by (simp only: r [symmetric])
      also have "\<dots> = c # cs" by (simp only: rest)
      finally show ?thesis .
    qed (use "2.prems" quote in \<open>simp add: Let_def\<close>)
  next
    case other
    show ?thesis
    proof (cases "is_space c \<or> c \<in> set '';&|<>()''")
      case True
      then have "heredoc_word (c # cs) = ([], c # cs)" using other by (subst heredoc_word.simps(2)) (simp only: if_True if_False)
      with "2.prems" show ?thesis by simp
    next
      case False
      obtain w' r' where w': "heredoc_word cs = (w', r')" by (cases "heredoc_word cs")
      have "heredoc_word (c # cs) = (c # w', r')"
        using other False w' by (subst heredoc_word.simps(2)) (simp only: if_False prod.case)
      with "2.prems" 2(3) [OF other False w'] show ?thesis by simp
    qed
  qed
qed simp

lemma heredoc_at_append:
  assumes "heredoc_at oper tabs s = Some (h, text, r)"
  shows "text @ r = oper @ s" and "text \<noteq> []"
proof -
  let ?blanks = "takeWhile (\<lambda>c. c = CHR '' '' \<or> c = CHR 0x09) s"
  obtain w r' where w: "heredoc_word (drop (length ?blanks) s) = (w, r')"
    by (cases "heredoc_word (drop (length ?blanks) s)")
  have eq: "w \<noteq> []" "text = oper @ ?blanks @ w" "r = r'"
    using assms unfolding heredoc_at_def Let_def w by (auto split: if_splits)
  have "?blanks @ drop (length ?blanks) s = s" by (metis takeWhile_eq_take append_take_drop_id)
  with heredoc_word_append [OF w] eq show "text @ r = oper @ s" "text \<noteq> []" by simp_all
qed

lemma heredoc_op_append:
  assumes "heredoc_op s = Some (h, text, r)"
  shows "text @ r = s" and "text \<noteq> []"
proof -
  have take: "oper @ drop (length oper) s = s" if "prefix oper s" for oper
    using that by (auto simp: prefix_def)
  have two: "prefix ''<<'' s" if "prefix ''<<-'' s"
    using that by (auto simp: prefix_def)
  have "\<exists>oper tabs. heredoc_at oper tabs (drop (length oper) s) = Some (h, text, r) \<and> prefix oper s"
  proof (cases "prefix ''<<-'' s")
    case True
    show ?thesis
    proof (cases "heredoc_at ''<<-'' True (drop 3 s)")
      case None
      with assms True have "heredoc_at ''<<'' False (drop 2 s) = Some (h, text, r)"
        by (simp add: heredoc_op_def)
      with two [OF True] show ?thesis by (intro exI [of _ "''<<''"] exI [of _ False]) (simp add: numeral_2_eq_2)
    next
      case (Some x)
      with assms True have "heredoc_at ''<<-'' True (drop 3 s) = Some (h, text, r)"
        by (simp add: heredoc_op_def)
      with True show ?thesis by (intro exI [of _ "''<<-''"] exI [of _ True]) (simp add: numeral_3_eq_3)
    qed
  next
    case False
    with assms have "heredoc_at ''<<'' False (drop 2 s) = Some (h, text, r)" "prefix ''<<'' s"
      by (simp_all add: heredoc_op_def split: if_splits)
    then show ?thesis by (intro exI [of _ "''<<''"] exI [of _ False]) (simp add: numeral_2_eq_2)
  qed
  then obtain oper tabs where o: "heredoc_at oper tabs (drop (length oper) s) = Some (h, text, r)" "prefix oper s"
    by blast
  show "text @ r = s" "text \<noteq> []" using heredoc_at_append [OF o(1)] take [OF o(2)] by simp_all
qed

lemma body_lines_weight:
  "body_lines h s = (ls, r) \<Longrightarrow> weight (join_with [newline] ls) + weight r \<le> weight s"
proof (induction h s arbitrary: ls r rule: body_lines.induct)
  case (1 h s)
  show ?case
  proof (cases "s = []")
    case False
    let ?line = "takeWhile (\<lambda>c. c \<noteq> newline) s"
    let ?after = "dropWhile (\<lambda>c. c \<noteq> newline) s"
    let ?rest = "drop (Suc (length ?line)) s"
    have rest: "?rest = tl ?after" by (simp add: dropWhile_eq_drop tl_drop drop_Suc)
    have after: "?after = [] \<or> (\<exists>t. ?after = newline # t)"
      using hd_dropWhile [of "\<lambda>c. c \<noteq> newline" s] by (cases ?after) auto
    have w: "weight s = weight ?line + weight ?after" by (simp add: weight_line)
    show ?thesis
    proof (cases "(if hd_strip_tabs h then dropWhile (\<lambda>c. c = CHR 0x09) ?line else ?line) = hd_delimiter h")
      case True
      then have "ls = []" "r = ?rest" using 1(2) False by (simp_all add: body_lines.simps [of h s] Let_def)
      then show ?thesis by (simp add: weight_drop)
    next
      case no: False
      obtain ls' where ls': "body_lines h ?rest = (ls', r)" "ls = ?line # ls'"
        using 1(2) False no by (auto simp: body_lines.simps [of h s] Let_def split: prod.splits)
      have IH: "weight (join_with [newline] ls') + weight r \<le> weight ?rest"
        using 1(1) [OF False refl refl no] ls'(1) by simp
      show ?thesis
      proof (cases "?after = []")
        case True
        with rest have "?rest = []" by simp
        with ls' have "ls' = []" "r = []" by (simp_all add: body_lines.simps [of h "[]"])
        with ls' w True show ?thesis by simp
      next
        case False
        with after w rest have "weight s = weight ?line + 3 + weight ?rest" by auto
        with IH ls' show ?thesis by (cases ls') auto
      qed
    qed
  qed (use 1 in \<open>simp add: body_lines.simps [of h "[]"]\<close>)
qed

lemma close_paren_weight: "close_paren d s = (u, r) \<Longrightarrow> weight u + weight r \<le> weight s"
  by (induction d s arbitrary: u r rule: close_paren.induct) (auto simp: Let_def split: prod.splits if_splits)

lemma substitutions_weight: "u \<in> set (substitutions s) \<Longrightarrow> weight u \<le> weight s"
proof (induction s rule: substitutions.induct)
  case (2 c cs)
  obtain v r where p: "close_paren 1 (tl cs) = (v, r)" by (cases "close_paren 1 (tl cs)")
  let ?t = "takeWhile (\<lambda>d. d \<noteq> CHR 0x60) cs"
  have t: "weight ?t \<le> weight cs" using weight_line [of "\<lambda>d. d \<noteq> CHR 0x60" cs] by linarith
  have d: "weight (drop (Suc (length ?t)) cs) \<le> weight cs" by (rule weight_drop)
  show ?case
    using 2 p close_paren_weight [OF p] weight_tl [of cs] t d
    by (fastforce simp: Let_def split: if_splits)
qed simp

lemma read_bodies_weight:
  "read_bodies runs hs s = (bs, r) \<Longrightarrow> weight r \<le> weight s \<and> (\<forall>b \<in> set bs. weight b \<le> weight s)"
proof (induction runs hs s arbitrary: bs r rule: read_bodies.induct)
  case (2 runs h hs s)
  obtain body q where b: "read_heredoc_body h s = (body, q)" by (cases "read_heredoc_body h s")
  obtain rest r' where m: "read_bodies runs hs q = (rest, r')" by (cases "read_bodies runs hs q")
  have w: "weight body + weight q \<le> weight s"
    using b body_lines_weight [of h s] by (auto simp: read_heredoc_body_def split: prod.splits)
  have IH: "weight r' \<le> weight q \<and> (\<forall>b \<in> set rest. weight b \<le> weight q)"
    using 2(1) [OF b [symmetric] m] .
  show ?case
    using 2(2) b m w IH substitutions_weight [of _ body] by (fastforce split: if_splits)
qed simp

text \<open>What one turn does: the rest gets shorter, nothing gets heavier, a body is lighter than the rest.\<close>

definition progress :: "scan_state \<Rightarrow> string \<Rightarrow> scan_state \<times> string \<Rightarrow> bool" where
  "progress st s q \<longleftrightarrow> length (snd q) < length s \<and>
     weight (sc_kept (fst q)) + weight (snd q) \<le> weight (sc_kept st) + weight s \<and>
     (\<forall>b \<in> set (sc_executed (fst q)). b \<in> set (sc_executed st) \<or> weight b < weight s)"

lemma progress_keep:
  assumes "text @ r = s" "text \<noteq> []" "sc_kept st' = sc_kept st" "sc_executed st' = sc_executed st"
  shows "progress st s (keep text st', r)"
  using assms by (auto simp: progress_def keep_def)

lemma progress_take:
  "s \<noteq> [] \<Longrightarrow> sc_kept st' = sc_kept st \<Longrightarrow> sc_executed st' = sc_executed st \<Longrightarrow>
     progress st s (keep (take 2 s) st', drop 2 s)"
  "s \<noteq> [] \<Longrightarrow> sc_kept st' = sc_kept st \<Longrightarrow> sc_executed st' = sc_executed st \<Longrightarrow>
     progress st s (keep [hd s] st', tl s)"
  by (rule progress_keep; simp)+

lemma progress_prefix:
  "prefix text s \<Longrightarrow> text \<noteq> [] \<Longrightarrow> sc_kept st' = sc_kept st \<Longrightarrow> sc_executed st' = sc_executed st \<Longrightarrow>
     progress st s (keep text st', drop (length text) s)"
  by (rule progress_keep) (auto simp: prefix_def)

lemma progress_comment:
  assumes "s \<noteq> []" "hd s = CHR ''#''"
  shows "progress st s (st, snd (span_line s))"
proof -
  obtain t where s: "s = CHR ''#'' # t" using assms by (cases s) auto
  have "length (dropWhile (\<lambda>c. c \<noteq> newline) t) \<le> length t" by (rule length_dropWhile_le)
  moreover have "weight (dropWhile (\<lambda>c. c \<noteq> newline) t) \<le> weight t"
    using weight_line [of "\<lambda>c. c \<noteq> newline" t] by linarith
  ultimately show ?thesis by (simp add: progress_def span_line_def s)
qed

lemma body_lines_length: "body_lines h s = (ls, r) \<Longrightarrow> length r \<le> length s"
proof (induction h s arbitrary: ls r rule: body_lines.induct)
  case (1 h s)
  show ?case
  proof (cases "s = []")
    case False
    let ?line = "takeWhile (\<lambda>c. c \<noteq> newline) s"
    let ?rest = "drop (Suc (length ?line)) s"
    have le: "length ?rest \<le> length s" by simp
    show ?thesis
    proof (cases "(if hd_strip_tabs h then dropWhile (\<lambda>c. c = CHR 0x09) ?line else ?line) = hd_delimiter h")
      case True
      then have "r = ?rest" using "1.prems" False by (simp add: body_lines.simps [of h s] Let_def)
      with le show ?thesis by simp
    next
      case no: False
      obtain ls' r' where ls': "body_lines h ?rest = (ls', r')" by (cases "body_lines h ?rest")
      have "r = r'" using "1.prems" False no ls' by (simp add: body_lines.simps [of h s] Let_def)
      from le_trans [OF 1(1) [OF False refl refl no ls'] le] show ?thesis by (simp only: \<open>r = r'\<close>)
    qed
  qed (use "1.prems" in \<open>simp add: body_lines.simps [of h "[]"]\<close>)
qed

lemma read_bodies_length: "read_bodies runs hs s = (bs, r) \<Longrightarrow> length r \<le> length s"
  by (induction runs hs s arbitrary: bs r rule: read_bodies.induct)
    (force simp: read_heredoc_body_def dest: body_lines_length split: prod.splits)+

lemma progress_bodies:
  assumes "s \<noteq> []" "hd s = newline" "read_bodies runs hs (tl s) = (bodies, r)"
  shows "progress st s (st\<lparr>sc_kept := sc_kept st @ [newline], sc_line_start := n,
     sc_executed := sc_executed st @ bodies, sc_pending := []\<rparr>, r)"
proof -
  obtain t where s: "s = newline # t" using assms(1,2) by (cases s) auto
  with read_bodies_length [OF assms(3)] read_bodies_weight [OF assms(3)] show ?thesis
    by (auto simp: progress_def)
qed

lemma opener_prefix: "opener s inn = Some (text, ctx) \<Longrightarrow> prefix text s \<and> text \<noteq> []"
  by (auto simp: opener_def openers_def quoted_openers_def split: if_splits)

lemma closer_nonempty [simp]: "closer c \<noteq> []"
  by (cases c) simp_all

lemma progress_if:
  "(b \<Longrightarrow> progress st s x) \<Longrightarrow> (\<not> b \<Longrightarrow> progress st s y) \<Longrightarrow> progress st s (if b then x else y)"
  by simp

lemma scan_step_progress:
  assumes "s \<noteq> []"
  shows "progress st s (scan_step st s)"
proof -
  let ?inn = "innermost st"
  have three: "progress st s (keep ''<<<'' st, drop 3 s)" if "prefix ''<<<'' s"
    using progress_prefix [OF that, of st st] by (simp add: numeral_3_eq_3)
  have op: "progress st s (case (if b then heredoc_op s else None) of
        Some (h, text, r) \<Rightarrow> (keep text (st\<lparr>sc_pending := sc_pending st @ [h]\<rparr>), r)
      | None \<Rightarrow> q)" if "heredoc_op s = None \<or> \<not> b \<Longrightarrow> progress st s q" for b q
    using that heredoc_op_append [of s] by (auto split: option.splits intro!: progress_keep)
  have bodies: "progress st s (case read_bodies runs hs (tl s) of (bodies, r) \<Rightarrow>
       (st\<lparr>sc_kept := sc_kept st @ [newline], sc_line_start := length (sc_kept st) + 1,
           sc_executed := sc_executed st @ bodies, sc_pending := []\<rparr>, r))" if "hd s = newline" for runs hs
    by (cases "read_bodies runs hs (tl s)") (simp add: progress_bodies [OF assms that])
  have open_: "progress st s (case opener s ?inn of
        Some (text, ctx) \<Rightarrow> (keep text (st\<lparr>sc_stack := ctx # sc_stack st\<rparr>), drop (length text) s)
      | None \<Rightarrow> (keep [hd s] (if b then st\<lparr>sc_line_start := length (sc_kept st) + 1\<rparr> else st), tl s))" for b
    using assms opener_prefix [of s ?inn]
    by (auto split: option.splits intro!: progress_prefix progress_take)
  show ?thesis
    unfolding scan_step_def Let_def
  proof (intro progress_if op, goal_cases)
    case 2
    show ?case by (rule progress_take) (simp_all add: assms)
  next
    case 5
    then show ?case by (intro progress_prefix) simp_all
  next
    case 6
    then show ?case by (intro progress_comment assms) simp
  next
    case 7
    then show ?case by (intro three) simp
  next
    case 8
    then show ?case by (intro bodies) simp
  next
    case 9
    show ?case by (rule open_)
  qed (simp_all add: progress_take assms)
qed

function scan :: "scan_state \<Rightarrow> string \<Rightarrow> scan_state" where
  "scan st s = (if s = [] then st else case scan_step st s of (st', r) \<Rightarrow> scan st' r)"
  by pat_completeness auto
termination
proof (relation "measure (\<lambda>(st, s). length s)", goal_cases)
  case (2 st s st' r)
  then show ?case using scan_step_progress [of s st] by (simp add: progress_def flip: 2(2))
qed simp

declare scan.simps [simp del]

definition scan_start :: scan_state where
  "scan_start = \<lparr>sc_kept = [], sc_line_start = 0, sc_executed = [], sc_pending = [], sc_stack = []\<rparr>"

definition split_heredocs :: "string \<Rightarrow> string \<times> string list" where
  "split_heredocs command =
     (let st = scan scan_start command
      in if sc_stack st \<noteq> [] then (command, []) else (sc_kept st, sc_executed st))"

lemma scan_weight:
  "weight (sc_kept st) + weight s \<le> n \<Longrightarrow> \<forall>b \<in> set (sc_executed st). weight b < n \<Longrightarrow>
     weight (sc_kept (scan st s)) \<le> n \<and> (\<forall>b \<in> set (sc_executed (scan st s)). weight b < n)"
proof (induction st s rule: scan.induct)
  case (1 st s)
  show ?case
  proof (cases "s = []")
    case False
    obtain st' r where q: "scan_step st s = (st', r)" by (cases "scan_step st s")
    with scan_step_progress [OF False, of st] "1.prems"
    have "weight (sc_kept st') + weight r \<le> n" "\<forall>b \<in> set (sc_executed st'). weight b < n"
      by (auto simp: progress_def)
    from "1.IH" [OF False q [symmetric] this] False q show ?thesis by (simp add: scan.simps [of st s])
  qed (use "1.prems" in \<open>simp add: scan.simps [of st "[]"]\<close>)
qed

lemma split_heredocs_weight:
  assumes "split_heredocs command = (script, bodies)"
  shows "weight script \<le> weight command" and "b \<in> set bodies \<Longrightarrow> weight b < weight command"
  using assms scan_weight [of scan_start command "weight command"]
  by (auto simp: split_heredocs_def Let_def scan_start_def split: if_splits)

section \<open>Tokens are no heavier than the command\<close>

abbreviation size_of :: "string list \<Rightarrow> nat" where
  "size_of ts \<equiv> sum_list (map length ts)"

lemma lex_size: "shlex st tok cs = Some ts \<Longrightarrow>
  size_of ts \<le> (if st = Blank then 0 else length tok) + (if \<exists>b. st = Escaped b then 1 else 0) + length cs"
  by (induction st tok cs arbitrary: ts rule: shlex.induct) (fastforce split: if_splits option.splits)+

lemma lex_chars: "shlex st tok cs = Some ts \<Longrightarrow> t \<in> set ts \<Longrightarrow>
  set t \<subseteq> insert bslash (set tok \<union> set cs)"
  by (induction st tok cs arbitrary: ts rule: shlex.induct) (fastforce split: if_splits option.splits)+

lemma split_ws_size: "size_of (split_ws acc s) \<le> length acc + length s"
  by (induction acc s rule: split_ws.induct) (auto simp: le_Suc_eq)

lemma split_ws_chars: "t \<in> set (split_ws acc s) \<Longrightarrow> set t \<subseteq> set acc \<union> set s"
  by (induction acc s rule: split_ws.induct) (fastforce split: if_splits)+

lemma prepared_length: "length (newlines_to_semicolons s) = weight s"
  by (induction s) (auto simp: newlines_to_semicolons_def)

lemma prepared_no_newline: "newline \<notin> set (newlines_to_semicolons s)"
  by (induction s) (auto simp: newlines_to_semicolons_def)

lemma drop_continuations_weight: "weight (drop_continuations s) \<le> weight s"
  by (induction s rule: drop_continuations.induct) auto

lemma tokenize_size: "size_of (tokenize command) \<le> weight command"
proof -
  let ?p = "newlines_to_semicolons (drop_continuations command)"
  have "size_of (tokenize command) \<le> length ?p"
    using lex_size [of Blank "[]" ?p] split_ws_size [of "[]" ?p]
    by (auto simp: tokenize_def Let_def split: option.splits)
  with drop_continuations_weight [of command] show ?thesis by (simp add: prepared_length)
qed

lemma tokenize_no_newline: "t \<in> set (tokenize command) \<Longrightarrow> newline \<notin> set t"
  using lex_chars [of Blank "[]" "newlines_to_semicolons (drop_continuations command)" _ t]
    split_ws_chars [of t "[]" "newlines_to_semicolons (drop_continuations command)"]
    prepared_no_newline [of "drop_continuations command"]
  by (auto simp: tokenize_def Let_def split: option.splits)

lemma split_segments_size:
  "seg \<in> set (fst (split_segments ts)) \<Longrightarrow> size_of seg \<le> size_of ts \<and> set seg \<subseteq> set ts"
proof (induction ts arbitrary: seg)
  case (Cons t ts)
  obtain segs cons where q: "split_segments ts = (segs, cons)" by (cases "split_segments ts")
  have "segs \<noteq> []" using q by (induction ts arbitrary: segs cons) (auto split: prod.splits if_splits)
  then show ?case using Cons q by (cases segs) (fastforce split: if_splits)+
qed simp

end
