(* ===== verification/Tool_Classifier.thy ===== *)
theory Tool_Classifier
  imports Shell_Lexer
begin

text \<open>
  The behavioral categories of a tool call (core/tool_classifier.py): what each simple command
  of a shell command does, the pipelines that run code, and the command strings and heredoc
  bodies that are commands themselves. A regular expression of the source is a predicate here.
\<close>

section \<open>Categories\<close>

datatype category =
    READS_SENSITIVE
  | SENDS_EXTERNAL
  | REMOTE_CODE_EXEC
  | LOG_TAMPER
  | OBFUSCATED_COMMAND
  | RUNS_INLINE_CODE

fun category_value :: "category \<Rightarrow> string" where
  "category_value READS_SENSITIVE = ''reads_sensitive''"
| "category_value SENDS_EXTERNAL = ''sends_external''"
| "category_value REMOTE_CODE_EXEC = ''remote_code_exec''"
| "category_value LOG_TAMPER = ''log_tamper''"
| "category_value OBFUSCATED_COMMAND = ''obfuscated_command''"
| "category_value RUNS_INLINE_CODE = ''runs_inline_code''"

section \<open>Paths\<close>

text \<open>
  \<open>P$\<close> holds at the end of a text or before its last newline; \<open>(?:^|/)P\<close> at its start or after a
  slash.
\<close>

definition at_dollar :: "(string \<Rightarrow> bool) \<Rightarrow> string \<Rightarrow> bool" where
  "at_dollar P s = (P s \<or> s \<noteq> [] \<and> last s = newline \<and> P (butlast s))"

fun after_slash :: "(string \<Rightarrow> bool) \<Rightarrow> string \<Rightarrow> bool" where
  "after_slash P [] = False"
| "after_slash P (c # s) = (c = CHR ''/'' \<and> P s \<or> after_slash P s)"

definition path_part :: "(string \<Rightarrow> bool) \<Rightarrow> string \<Rightarrow> bool" where
  "path_part P s = (at_dollar P s \<or> after_slash (at_dollar P) s)"

definition secret_files :: "string list" where
  "secret_files = [''.aws/credentials'', ''.netrc'', ''.git-credentials'', ''.docker/config.json'',
     ''.kube/config'', ''.config/gcloud/credentials.db'', ''application_default_credentials.json'']"

definition no_slash :: "string \<Rightarrow> bool" where
  "no_slash s = (s \<noteq> [] \<and> CHR ''/'' \<notin> set s)"

definition ssh_key :: "string \<Rightarrow> bool" where
  "ssh_key s = (prefix ''.ssh/id_'' s \<and> no_slash (drop 8 s) \<and> \<not> suffix ''.pub'' s)"

text \<open>A \<open>.env\<close> file; the lookahead on its suffix has a \<open>$\<close> of its own.\<close>

definition env_suffix :: "string \<Rightarrow> string \<Rightarrow> bool" where
  "env_suffix t s = (no_slash s \<and> \<not> list_ex (\<lambda>x. at_dollar (\<lambda>u. u = x) t)
     [''example'', ''sample'', ''template'', ''dist''])"

definition env_file :: "string \<Rightarrow> bool" where
  "env_file s = (at_dollar (\<lambda>u. u = ''.env'') s
     \<or> prefix ''.env.'' s \<and> at_dollar (\<lambda>u. prefix ''.env.'' u \<and> env_suffix (drop 5 s) (drop 5 u)) s)"

definition environ_file :: "string \<Rightarrow> bool" where
  "environ_file s = (prefix ''/proc/'' s \<and> suffix ''/environ'' s \<and>
     no_slash (take (length s - 14) (drop 6 s)) \<and> 14 < length s)"

definition sensitive_path :: "string \<Rightarrow> bool" where
  "sensitive_path s =
     (path_part (\<lambda>u. u \<in> set secret_files) s \<or> path_part ssh_key s
      \<or> env_file s \<or> after_slash env_file s
      \<or> at_dollar (\<lambda>u. u = ''/etc/shadow'') s \<or> at_dollar environ_file s
      \<or> at_dollar (\<lambda>u. suffix ''.key'' u \<or> suffix ''.p12'' u \<or> suffix ''.pfx'' u) s)"

definition digits_suffix :: "string \<Rightarrow> bool" where
  "digits_suffix s = (let ds = takeWhile is_digit_char (rev s)
     in ds \<noteq> [] \<and> suffix ''.log.'' (rev (drop (length ds) (rev s))))"

definition log_target :: "string \<Rightarrow> bool" where
  "log_target s =
     (at_dollar (suffix ''.log'') s \<or> at_dollar digits_suffix s
      \<or> prefix ''/var/log/'' s \<or> at_dollar (\<lambda>u. u = ''/var/log'') s
      \<or> path_part (\<lambda>u. u \<in> {''.history'', ''.bash_history'', ''.zsh_history'', ''.python_history'',
           ''.sh_history''}) s)"

definition history_disable :: "string \<Rightarrow> bool" where
  "history_disable s =
     at_dollar (\<lambda>u. u \<in> {''HISTFILE=/dev/null'', ''HISTSIZE=0'', ''HISTFILESIZE=0''}) s"

text \<open>\<open>\\w\<close> of a regular expression on text.\<close>

definition re_word :: "char \<Rightarrow> bool" where
  "re_word c = (is_word_char c \<or> c = CHR ''_'' \<or> code c \<in> {170, 178, 179, 181, 185, 186, 188, 189, 190}
     \<or> 192 \<le> code c \<and> code c \<notin> {215, 247})"

definition host_char :: "char \<Rightarrow> bool" where
  "host_char c = (re_word c \<or> c = CHR ''.'' \<or> c = CHR ''-'')"

definition remote_spec :: "string \<Rightarrow> bool" where
  "remote_spec s =
     (let u = takeWhile host_char s; r = dropWhile host_char s
      in u \<noteq> [] \<and> (take 1 r = '':'' \<or>
           take 1 r = ''@'' \<and> takeWhile host_char (tl r) \<noteq> [] \<and> take 1 (dropWhile host_char (tl r)) = '':''))"

text \<open>\<open>token.split("=", 1)[1]\<close>, and the home directory spelled as a variable.\<close>

definition after_equals :: "string \<Rightarrow> string" where
  "after_equals s = snd (split1 CHR ''='' s)"

definition home_path :: "string \<Rightarrow> string" where
  "home_path s =
     (if prefix ''$HOME'' s then CHR ''~'' # drop 5 s
      else if prefix ''${HOME}'' s then CHR ''~'' # drop 7 s else s)"

definition is_sensitive_path :: "string \<Rightarrow> bool" where
  "is_sensitive_path token =
     list_ex (\<lambda>t. sensitive_path (home_path (dropWhile (\<lambda>c. c = CHR ''@'') t)))
       (if CHR ''='' \<in> set token then [token, after_equals token] else [token])"

section \<open>Executables\<close>

definition wrappers :: "string set" where
  "wrappers = {''sudo'', ''doas'', ''nohup'', ''time'', ''command'', ''exec'', ''nice''}"

definition is_flag :: "string \<Rightarrow> bool" where
  "is_flag s = prefix ''-'' s"

definition env_runs_command :: "string list \<Rightarrow> bool" where
  "env_runs_command args = list_ex (\<lambda>a. \<not> is_flag a \<and> CHR ''='' \<notin> set a) args"

definition name_start :: "char \<Rightarrow> bool" where
  "name_start c = (is_lower_char c \<or> is_upper_char c \<or> c = CHR ''_'')"

definition assignment :: "string \<Rightarrow> bool" where
  "assignment s = (case s of [] \<Rightarrow> False | c # cs \<Rightarrow>
     name_start c \<and> take 1 (dropWhile (\<lambda>d. name_start d \<or> is_digit_char d) cs) = ''='')"

function executable :: "string list \<Rightarrow> string \<times> string list" where
  "executable [] = ([], [])"
| "executable (t # ts) =
     (if assignment t then executable ts
      else if basename t \<in> wrappers \<or> basename t = ''env'' \<and> env_runs_command ts
      then executable (dropWhile is_flag ts)
      else if basename t = ''timeout'' then executable (drop 1 (dropWhile is_flag ts))
      else (basename t, ts))"
  by pat_completeness auto
termination
proof (relation "measure length", goal_cases)
  case (4 t ts)
  have "length (dropWhile is_flag ts) \<le> length ts" by (rule length_dropWhile_le)
  then show ?case by simp
qed (auto simp: less_Suc_eq_le length_dropWhile_le)

definition interpreters :: "string set" where
  "interpreters = {''sh'', ''bash'', ''zsh'', ''dash'', ''ksh'', ''fish'', ''python'', ''python2'',
     ''python3'', ''perl'', ''ruby'', ''node'', ''php'', ''pwsh''}"

definition posix_shells :: "string set" where
  "posix_shells = {''sh'', ''bash'', ''zsh'', ''dash'', ''ksh'', ''fish''}"

section \<open>Code on the command line\<close>

definition inline_letters :: "(string \<times> string) list" where
  "inline_letters = [(''python'', ''c''), (''node'', ''ep''), (''perl'', ''eE''), (''ruby'', ''e''),
     (''php'', ''r'')]"

definition value_letters :: "(string \<times> string) list" where
  "value_letters = [(''python'', ''WX''), (''node'', ''r''), (''perl'', ''IM''), (''ruby'', ''Ir'')]"

definition stop_letters :: "(string \<times> string) list" where
  "stop_letters = [(''python'', ''m'')]"

definition letters_of :: "(string \<times> string) list \<Rightarrow> string \<Rightarrow> string" where
  "letters_of table kind = (case map_of table kind of None \<Rightarrow> [] | Some s \<Rightarrow> s)"

definition pwsh_encoded :: "string set" where
  "pwsh_encoded = {''-encodedcommand'', ''-ec'', ''-e'', ''-enc''}"

definition heredoc_tokens :: "string set" where
  "heredoc_tokens = {''<<'', ''<<-'', ''<<<''}"

definition strip_exe :: "string \<Rightarrow> string" where
  "strip_exe s = (if suffix ''.exe'' s then take (length s - 4) s else s)"

definition interpreter :: "string \<Rightarrow> string" where
  "interpreter exe0 =
     (let e = strip_exe (lower exe0)
      in if prefix ''python'' e \<and> list_all (\<lambda>c. is_digit_char c \<or> c = CHR ''.'') (drop 6 e)
         then ''python''
         else if e \<in> {''powershell'', ''pwsh''} then ''pwsh''
         else if e \<in> fst ` set inline_letters \<or> e \<in> posix_shells then e else [])"

text \<open>A cluster of short options: code, an end to the options, or go on, over the next argument or not.\<close>

datatype cluster = Code | Stop | Go bool

fun read_cluster :: "string \<Rightarrow> string \<Rightarrow> cluster" where
  "read_cluster kind [] = Go False"
| "read_cluster kind (l # ls) =
     (if l \<in> set (letters_of inline_letters kind) then Code
      else if l \<in> set (letters_of stop_letters kind) then Stop
      else if l \<in> set (letters_of value_letters kind) then Go (ls = [])
      else read_cluster kind ls)"

function inline_args :: "string \<Rightarrow> string list \<Rightarrow> bool" where
  "inline_args kind [] = False"
| "inline_args kind (a # as) =
     (if a \<in> heredoc_tokens then True
      else if a = ''-'' then list_ex (\<lambda>x. x \<in> heredoc_tokens) as
      else if \<not> is_flag a then False
      else if prefix ''--'' a then
        (if kind = ''node'' \<and> takeWhile (\<lambda>c. c \<noteq> CHR ''='') a \<in> {''--eval'', ''--print''} then True
         else inline_args kind as)
      else (case read_cluster kind (tl a) of
              Code \<Rightarrow> True | Stop \<Rightarrow> False
            | Go skip \<Rightarrow> inline_args kind (if skip then tl as else as)))"
  by pat_completeness auto
termination
  by (relation "measure (\<lambda>(kind, as). length as)") auto

definition runs_inline_code :: "string \<Rightarrow> string list \<Rightarrow> bool" where
  "runs_inline_code exe0 args =
     (if exe0 = ''eval'' then args \<noteq> []
      else let kind = interpreter exe0
           in if kind = [] \<or> kind \<in> posix_shells then False
              else if kind = ''pwsh'' then list_ex (\<lambda>a. lower a \<in> pwsh_encoded) args
              else inline_args kind args)"

definition shell_value_options :: "string set" where
  "shell_value_options = {''-o'', ''+o'', ''-O'', ''+O'', ''--rcfile'', ''--init-file''}"

function shell_args :: "string list \<Rightarrow> string option" where
  "shell_args [] = None"
| "shell_args (a # as) =
     (if prefix ''--command='' a then Some (after_equals a)
      else if a \<in> shell_value_options then shell_args (tl as)
      else if \<not> (is_flag a \<or> prefix ''+'' a) then None
      else if a = ''--command'' \<or> \<not> prefix ''--'' a \<and> CHR ''c'' \<in> set (tl a)
      then (case as of [] \<Rightarrow> None | x # _ \<Rightarrow> Some x)
      else shell_args as)"
  by pat_completeness auto
termination
  by (relation "measure length") auto

definition shell_command_string :: "string \<Rightarrow> string list \<Rightarrow> string option" where
  "shell_command_string exe0 args = (if exe0 \<in> posix_shells then shell_args args else None)"

section \<open>What a simple command does\<close>

fun upper_char :: "char \<Rightarrow> char" where
  "upper_char c = (if is_lower_char c then char_of (code c - 32) else c)"

definition send_methods :: "string set" where
  "send_methods = {''POST'', ''PUT'', ''PATCH''}"

definition curl_send_flags :: "string set" where
  "curl_send_flags = {''-d'', ''-F'', ''-T'', ''--form'', ''--form-string'', ''--upload-file'', ''--json''}"

text \<open>The request method an argument of \<open>curl\<close> gives, from the arguments that follow it.\<close>

definition curl_method :: "string \<Rightarrow> string list \<Rightarrow> string option" where
  "curl_method a as =
     (if a \<in> {''-X'', ''--request''} \<and> as \<noteq> [] then Some (hd as)
      else if prefix ''-X'' a \<and> 2 < length a then Some (drop 2 a) else None)"

fun curl_sends :: "string list \<Rightarrow> bool" where
  "curl_sends [] = False"
| "curl_sends (a # as) =
     (a \<in> curl_send_flags \<or> prefix ''--data'' a \<or> prefix ''--form'' a
      \<or> (case curl_method a as of None \<Rightarrow> False | Some m \<Rightarrow> map upper_char m \<in> send_methods)
      \<or> curl_sends as)"

definition raw_socket_tools :: "string set" where
  "raw_socket_tools = {''nc'', ''ncat'', ''netcat'', ''socat'', ''telnet''}"

definition sends_external :: "string \<Rightarrow> string list \<Rightarrow> bool" where
  "sends_external e args =
     (if e = ''curl'' then curl_sends args
      else if e = ''wget'' then
        list_ex (\<lambda>a. list_ex (\<lambda>p. prefix p a)
            [''--post-data'', ''--post-file'', ''--body-data'', ''--body-file'']
          \<or> map upper_char a \<in> ((@) ''--METHOD='') ` send_methods) args
      else if e \<in> raw_socket_tools then True
      else if e \<in> {''scp'', ''sftp'', ''rsync''} then
        list_ex (\<lambda>a. remote_spec a \<and> \<not> prefix ''/'' a) args
      else False)"

definition tampers_with_logs :: "string \<Rightarrow> string list \<Rightarrow> string list \<Rightarrow> bool" where
  "tampers_with_logs e args overwritten =
     (let log_args = filter log_target args in
      list_ex log_target overwritten
      \<or> list_ex history_disable (e # args)
      \<or> e \<in> {''rm'', ''shred'', ''truncate'', ''unlink''} \<and> log_args \<noteq> []
      \<or> e = ''history'' \<and> list_ex (\<lambda>a. a \<in> {''-c'', ''-w''}) args
      \<or> e = ''unset'' \<and> list_ex (prefix ''HIST'') args
      \<or> e = ''ln'' \<and> ''/dev/null'' \<in> set args \<and> log_args \<noteq> []
      \<or> e = ''find'' \<and> log_args \<noteq> [] \<and> (''-delete'' \<in> set args \<or> ''rm'' \<in> set args)
      \<or> e = ''journalctl'' \<and> list_ex (prefix ''--vacuum'') args)"

text \<open>The tokens after a redirection.\<close>

fun targets :: "string set \<Rightarrow> string list \<Rightarrow> string list" where
  "targets ops (t # u # ts) = (if t \<in> ops then u # targets ops (u # ts) else targets ops (u # ts))"
| "targets ops _ = []"

definition tag :: "bool \<Rightarrow> category \<Rightarrow> category set" where
  "tag b c = (if b then {c} else {})"

text \<open>The categories of a segment but for those of a command string it runs.\<close>

definition segment_categories :: "string list \<Rightarrow> category set" where
  "segment_categories seg =
     (if seg = [] then {}
      else case executable seg of (e, args) \<Rightarrow>
        tag (prefix ''$'' e \<or> prefix [CHR 0x60] e
          \<or> list_ex (\<lambda>t. contains ''$IFS'' t \<or> contains ''${IFS'' t) seg) OBFUSCATED_COMMAND
        \<union> tag (e = ''printenv'' \<or> e = ''env'' \<and> \<not> env_runs_command args
          \<or> list_ex is_sensitive_path
               (filter (\<lambda>t. t \<notin> set (targets {''>'', ''>>'', ''>|''} seg)) seg)) READS_SENSITIVE
        \<union> tag (sends_external e args
          \<or> list_ex (\<lambda>t. contains ''/dev/tcp/'' t \<or> contains ''/dev/udp/'' t) seg) SENDS_EXTERNAL
        \<union> tag (tampers_with_logs e args (targets {''>'', ''>|''} seg)) LOG_TAMPER
        \<union> tag (runs_inline_code e args) RUNS_INLINE_CODE)"

definition command_string :: "string list \<Rightarrow> string option" where
  "command_string seg = (case executable seg of (e, args) \<Rightarrow> shell_command_string e args)"

section \<open>Pipelines\<close>

definition downloaders :: "string set" where
  "downloaders = {''curl'', ''wget'', ''fetch''}"

definition emits_fetched_code :: "string list \<Rightarrow> bool" where
  "emits_fetched_code seg =
     (case executable seg of (e, args) \<Rightarrow>
        if e \<in> downloaders then True
        else if e = ''base64'' then list_ex (\<lambda>a. a \<in> {''-d'', ''-D'', ''--decode''}) args
        else if e = ''openssl'' then ''base64'' \<in> set args \<and> ''-d'' \<in> set args
        else e = ''xxd'' \<and> ''-r'' \<in> set args)"

text \<open>A connector with the segments it joins.\<close>

definition joints :: "string list list \<Rightarrow> string list \<Rightarrow> (string \<times> string list \<times> string list) list" where
  "joints segs cons = zip cons (zip segs (tl segs))"

definition pipes_code_to_interpreter :: "string list list \<Rightarrow> string list \<Rightarrow> bool" where
  "pipes_code_to_interpreter segs cons =
     list_ex (\<lambda>(c, a, b). c \<in> pipe_ops \<and>
       (case executable b of (e, args) \<Rightarrow> interpreter e \<noteq> [] \<and> list_all is_flag args)) (joints segs cons)"

definition pipes_fetched_code :: "string list list \<Rightarrow> string list \<Rightarrow> bool" where
  "pipes_fetched_code segs cons =
     list_ex (\<lambda>(c, a, b).
       if c \<in> pipe_ops then fst (executable b) \<in> interpreters \<and> emits_fetched_code a
       else c = ''<('' \<and> fst (executable a) \<in> interpreters \<and> emits_fetched_code b) (joints segs cons)"

section \<open>Substituted downloads\<close>

text \<open>
  \<open>_SUBSTITUTED_FETCH\<close>: an \<open>eval\<close> or \<open>sh -c\<close>, later on the line a substitution that starts with
  \<open>curl\<close> or \<open>wget\<close>. The character before a place decides whether a word begins there.
\<close>

definition word_ends :: "string \<Rightarrow> bool" where
  "word_ends r = (case r of [] \<Rightarrow> True | c # _ \<Rightarrow> \<not> re_word c)"

definition fetch_word :: "string \<Rightarrow> bool" where
  "fetch_word r =
     (let u = dropWhile is_space r
      in (prefix ''curl'' u \<or> prefix ''wget'' u) \<and> word_ends (drop 4 u))"

fun fetch_later :: "string \<Rightarrow> bool" where
  "fetch_later [] = False"
| "fetch_later (c # cs) =
     (c = CHR ''$'' \<and> take 1 cs = ''('' \<and> fetch_word (tl cs) \<or> c = CHR 0x60 \<and> fetch_word cs
      \<or> c \<noteq> newline \<and> fetch_later cs)"

definition after_eval :: "string \<Rightarrow> bool" where
  "after_eval r =
     (prefix ''eval'' r \<and> word_ends (drop 4 r) \<and> fetch_later (drop 4 r)
      \<or> list_ex (\<lambda>w. prefix w r \<and>
           (let u = drop (length w) r; v = dropWhile is_space u
            in v \<noteq> u \<and> prefix ''-c'' v \<and> word_ends (drop 2 v) \<and> fetch_later (drop 2 v)))
         [''bash'', ''zsh'', ''dash'', ''ksh'', ''sh''])"

fun substituted_fetch :: "bool \<Rightarrow> string \<Rightarrow> bool" where
  "substituted_fetch fresh [] = False"
| "substituted_fetch fresh (c # cs) =
     (fresh \<and> after_eval (c # cs) \<or> substituted_fetch (\<not> re_word c) cs)"

section \<open>Commands\<close>

text \<open>The commands a command runs: the heredoc bodies a shell executes, and the command strings.\<close>

definition some_list :: "'a option list \<Rightarrow> 'a list" where
  "some_list xs = concat (map (\<lambda>x. case x of None \<Rightarrow> [] | Some y \<Rightarrow> [y]) xs)"

definition inner_commands :: "string \<Rightarrow> string list" where
  "inner_commands command =
     (case split_heredocs command of (script, bodies) \<Rightarrow>
        bodies @ some_list (map command_string (fst (split_segments (tokenize script)))))"

definition own_categories :: "string \<Rightarrow> category set" where
  "own_categories command =
     (let tokens = tokenize (fst (split_heredocs command)); q = split_segments tokens;
          segs = fst q; cons = snd q
      in \<Union>(set (map segment_categories segs))
         \<union> tag (pipes_fetched_code segs cons) REMOTE_CODE_EXEC
         \<union> tag (pipes_code_to_interpreter segs cons) RUNS_INLINE_CODE
         \<union> tag (substituted_fetch True (join_with '' '' tokens)) REMOTE_CODE_EXEC)"

text \<open>Each of these is lighter, so the classification ends.\<close>

lemma size_of_drop: "size_of (dropWhile P ts) \<le> size_of ts" "size_of (drop n ts) \<le> size_of ts"
proof -
  show "size_of (dropWhile P ts) \<le> size_of ts" by (induction ts) auto
  have "size_of (take n ts @ drop n ts) = size_of (take n ts) + size_of (drop n ts)"
    by (simp only: map_append sum_list_append)
  then show "size_of (drop n ts) \<le> size_of ts" by simp
qed

lemma set_drops: "set (dropWhile P ts) \<subseteq> set ts" "set (drop n ts) \<subseteq> set ts" "set (tl ts) \<subseteq> set ts"
  by (auto dest: set_dropWhileD in_set_dropD list.set_sel(2))
    (metis list.sel(2) list.set_sel(2))

lemma basename_nonempty: "basename t \<noteq> [] \<Longrightarrow> t \<noteq> []"
  by (auto simp: basename_def)

lemma executable_size:
  "executable seg = (e, args) \<Longrightarrow> e \<noteq> [] \<Longrightarrow> size_of args < size_of seg \<and> set args \<subseteq> set seg"
proof (induction seg rule: executable.induct)
  case (2 t ts)
  have step: ?case if "executable us = (e, args)" "size_of us \<le> size_of ts" "set us \<subseteq> set ts"
    and "executable us = (e, args) \<Longrightarrow> e \<noteq> [] \<Longrightarrow> size_of args < size_of us \<and> set args \<subseteq> set us" for us
    using that "2.prems"(2) by fastforce
  show ?case
  proof (cases "assignment t")
    case True
    have "executable ts = (e, args)" using "2.prems"(1) unfolding executable.simps(2) if_P [OF True] .
    then show ?thesis by (rule step [OF _ order_refl subset_refl 2(1) [OF True]])
  next
    case a: False
    show ?thesis
    proof (cases "basename t \<in> wrappers \<or> basename t = ''env'' \<and> env_runs_command ts")
      case True
      have "executable (dropWhile is_flag ts) = (e, args)"
        using "2.prems"(1) unfolding executable.simps(2) if_not_P [OF a] if_P [OF True] .
      then show ?thesis by (rule step [OF _ size_of_drop(1) set_drops(1) 2(2) [OF a True]])
    next
      case b: False
      show ?thesis
      proof (cases "basename t = ''timeout''")
        case True
        have "executable (drop 1 (dropWhile is_flag ts)) = (e, args)"
          using "2.prems"(1) unfolding executable.simps(2) if_not_P [OF a] if_not_P [OF b] if_P [OF True] .
        moreover have "size_of (drop 1 (dropWhile is_flag ts)) \<le> size_of ts"
          by (rule order_trans [OF size_of_drop(2) size_of_drop(1)])
        moreover have "set (drop 1 (dropWhile is_flag ts)) \<subseteq> set ts"
          by (rule order_trans [OF set_drops(2) set_drops(1)])
        ultimately show ?thesis using 2(3) [OF a b True] by (rule step)
      next
        case False
        have "(basename t, ts) = (e, args)"
          using "2.prems"(1) unfolding executable.simps(2) if_not_P [OF a] if_not_P [OF b] if_not_P [OF False] .
        then show ?thesis using "2.prems"(2) basename_nonempty [of t] by auto
      qed
    qed
  qed
qed simp

lemma after_equals_part: "length (after_equals s) \<le> length s \<and> set (after_equals s) \<subseteq> set s"
proof -
  let ?d = "dropWhile (\<lambda>x. x \<noteq> CHR ''='') s"
  have "set (tl ?d) \<subseteq> set s" using set_drops(1) [of _ s] set_drops(3) [of ?d] by blast
  moreover have "length (tl ?d) \<le> length s"
    using length_dropWhile_le [of "\<lambda>x. x \<noteq> CHR ''=''" s] by simp
  ultimately show ?thesis by (simp only: after_equals_def split1_def snd_conv simp_thms)
qed

lemma shell_args_size:
  "shell_args as = Some c \<Longrightarrow> length c \<le> size_of as \<and> (\<exists>a \<in> set as. set c \<subseteq> set a)"
proof (induction as rule: shell_args.induct)
  case (2 a as)
  have tl: "size_of (tl as) \<le> size_of as" "set (tl as) \<subseteq> set as" by (cases as; auto)+
  show ?case
    using "2.prems" "2.IH" tl after_equals_part [of a]
    by (force split: if_splits list.splits)
qed simp

lemma command_string_size:
  assumes "command_string seg = Some c"
  shows "length c < size_of seg \<and> (\<exists>a \<in> set seg. set c \<subseteq> set a)"
proof -
  obtain e args where q: "executable seg = (e, args)" by (cases "executable seg")
  with assms have "e \<in> posix_shells" and c: "shell_args args = Some c"
    by (auto simp: command_string_def shell_command_string_def split: if_splits)
  then have "e \<noteq> []" by (auto simp: posix_shells_def)
  note e = executable_size [OF q this]
  obtain a where "a \<in> set args" "set c \<subseteq> set a" "length c \<le> size_of args"
    using shell_args_size [OF c] by blast
  with e show ?thesis by (intro conjI bexI [of _ a]) auto
qed

lemma inner_commands_lighter:
  assumes "c \<in> set (inner_commands command)"
  shows "weight c < weight command"
proof -
  obtain script bodies where s: "split_heredocs command = (script, bodies)"
    by (cases "split_heredocs command")
  let ?segs = "fst (split_segments (tokenize script))"
  from assms s consider "c \<in> set bodies" | seg where "seg \<in> set ?segs" "command_string seg = Some c"
    by (auto simp: inner_commands_def some_list_def split: option.splits)
  then show ?thesis
  proof cases
    case 1
    then show ?thesis using split_heredocs_weight(2) [OF s] by simp
  next
    case 2
    note seg = split_segments_size [OF 2(1)] and c = command_string_size [OF 2(2)]
    have "newline \<notin> set c"
      using c seg tokenize_no_newline [of _ script] by blast
    then have "weight c = length c" by (rule weight_length)
    also have "\<dots> < size_of seg" using c by simp
    also have "\<dots> \<le> size_of (tokenize script)" using seg by simp
    also have "\<dots> \<le> weight script" by (rule tokenize_size)
    also have "\<dots> \<le> weight command" by (rule split_heredocs_weight(1) [OF s])
    finally show ?thesis .
  qed
qed

function classify_shell :: "string \<Rightarrow> category set" where
  "classify_shell command =
     own_categories command \<union> \<Union>(set (map classify_shell (inner_commands command)))"
  by pat_completeness auto
termination
  by (relation "measure weight") (simp_all add: inner_commands_lighter)

declare classify_shell.simps [simp del]

section \<open>Tool calls\<close>

definition patch_marker :: string where
  "patch_marker = ''*** Begin Patch''"

fun lines_of :: "string \<Rightarrow> string \<Rightarrow> string list" where
  "lines_of acc [] = [acc]"
| "lines_of acc (c # cs) = (if c = newline then acc # lines_of [] cs else lines_of (acc @ [c]) cs)"

definition classify_patch :: "string \<Rightarrow> category set" where
  "classify_patch patch =
     tag (list_ex (\<lambda>l. prefix ''*** Delete File: '' l \<and> drop 17 l \<noteq> [] \<and> log_target (strip (drop 17 l)))
       (lines_of [] patch)) LOG_TAMPER"

text \<open>\<open>shlex.quote\<close> and \<open>shlex.join\<close>.\<close>

definition shell_safe :: "char \<Rightarrow> bool" where
  "shell_safe c = (is_word_char c \<or> c \<in> set ''_@%+=:,./-'')"

definition shell_quote :: "string \<Rightarrow> string" where
  "shell_quote s =
     (if s = [] then [squote, squote]
      else if list_all shell_safe s then s
      else [squote] @ concat (map (\<lambda>c. if c = squote then [squote, dquote, squote, dquote, squote] else [c]) s)
        @ [squote])"

definition shell_join :: "string list \<Rightarrow> string" where
  "shell_join ws = join_with '' '' (map shell_quote ws)"

definition command_keys :: "string list" where
  "command_keys = [''command'', ''cmd'', ''script'', ''commands'']"

definition path_keys :: "string list" where
  "path_keys = [''file_path'', ''path'', ''filename'', ''notebook_path'']"

text \<open>The command under a key, if it is one; \<open>str\<close> renders what is no string.\<close>

definition command_under :: "(json \<Rightarrow> string) \<Rightarrow> args \<Rightarrow> string \<Rightarrow> string option" where
  "command_under str arguments key =
     (let text = (case field_or key JNull arguments of
            JArr vs \<Rightarrow> (let parts = map (\<lambda>v. case v of JStr x \<Rightarrow> x | _ \<Rightarrow> str v) vs
              in if key = ''commands'' then Some (join_with [newline] parts) else Some (shell_join parts))
          | JStr x \<Rightarrow> Some x
          | _ \<Rightarrow> None)
      in case text of None \<Rightarrow> None | Some x \<Rightarrow> if nonblank x then Some x else None)"

definition write_tool :: "string \<Rightarrow> bool" where
  "write_tool name = list_ex (\<lambda>w. contains w (lower name))
     [''write'', ''edit'', ''create'', ''delete'', ''remove'', ''move'', ''rename'', ''mkdir'']"

definition classify_tool_call :: "(json \<Rightarrow> string) \<Rightarrow> string \<Rightarrow> args \<Rightarrow> category set" where
  "classify_tool_call str name arguments =
     \<Union>(set (map (\<lambda>c. if contains patch_marker c then classify_patch c else classify_shell c)
        (some_list (map (command_under str arguments) command_keys))))
     \<union> tag (\<not> write_tool name \<and>
          list_ex (\<lambda>k. case field_or k JNull arguments of JStr p \<Rightarrow> is_sensitive_path p | _ \<Rightarrow> False) path_keys)
        READS_SENSITIVE"

end
