(* ===== verification/Regular_Patterns.thy ===== *)
theory Regular_Patterns
  imports Tool_Classifier
begin

text \<open>
  Regular expressions as the detectors of \<open>layers/adversarial.py\<close> use them: the constructs of
  Python's \<open>re\<close> that the patterns are written with, the backtracking search that tries alternatives
  in order, and what it means for a pattern to match between two places of a text. The search is
  proved to find the leftmost match and to miss none, and a match survives when text is put around
  it.
\<close>

section \<open>Patterns\<close>

text \<open>
  \<open>Letter neg items\<close> is one character of a class, \<open>Edge\<close> is \<open>\\b\<close>, \<open>Start\<close> is \<open>^\<close>, \<open>Ahead_not\<close> is
  \<open>(?!\<dots>)\<close>, and \<open>Rep m n lazy r\<close> repeats between \<open>m\<close> and \<open>n\<close> times (\<open>None\<close>: no bound).
\<close>

datatype class_item = Between nat nat | Space_Class | Word_Class

datatype rx =
    Empty_Rx
  | Letter bool "class_item list"
  | Edge
  | Start
  | Ahead_not rx
  | Seq rx rx
  | Or rx rx
  | Rep nat "nat option" bool rx

fun in_item :: "char \<Rightarrow> class_item \<Rightarrow> bool" where
  "in_item c (Between a b) = (a \<le> code c \<and> code c \<le> b)"
| "in_item c Space_Class = is_space c"
| "in_item c Word_Class = re_word c"

text \<open>
  Under \<open>IGNORECASE\<close> a character is in a class when one of its cases is; the classes of the patterns
  name ASCII letters only.
\<close>

definition in_items :: "bool \<Rightarrow> class_item list \<Rightarrow> char \<Rightarrow> bool" where
  "in_items nocase items c =
     (list_ex (in_item c) items
      \<or> nocase \<and> (list_ex (in_item (lower_char c)) items \<or> list_ex (in_item (upper_char c)) items))"

text \<open>A place in a text: what lies before it, read backwards, and what follows.\<close>

type_synonym place = "string \<times> string"

definition word_before :: "string \<Rightarrow> bool" where
  "word_before u = (case u of [] \<Rightarrow> False | c # _ \<Rightarrow> re_word c)"

definition at_edge :: "place \<Rightarrow> bool" where
  "at_edge p = (word_before (fst p) \<noteq> word_before (snd p))"

fun step_over :: "bool \<Rightarrow> bool \<Rightarrow> class_item list \<Rightarrow> place \<Rightarrow> place list" where
  "step_over nocase neg items (u, c # v) = (if in_items nocase items c \<noteq> neg then [(c # u, v)] else [])"
| "step_over nocase neg items (u, []) = []"

section \<open>Backtracking\<close>

text \<open>
  The places where a repetition may end, in the order they are tried: past the minimum, an iteration
  that consumes nothing is not taken again.
\<close>

definition advances :: "place \<Rightarrow> place \<Rightarrow> bool" where
  "advances p q = (length (snd q) < length (snd p))"

function repeat_ends :: "(place \<Rightarrow> place list) \<Rightarrow> nat \<Rightarrow> nat option \<Rightarrow> bool \<Rightarrow> place \<Rightarrow> place list" where
  "repeat_ends f m n lazy p =
     (if 0 < m then concat (map (repeat_ends f (m - 1) (map_option (\<lambda>k. k - 1) n) lazy) (f p))
      else let more = (if n = Some 0 then []
                       else concat (map (repeat_ends f 0 (map_option (\<lambda>k. k - 1) n) lazy) (filter (advances p) (f p))))
           in if lazy then p # more else more @ [p])"
  by auto

termination
  by (relation "measures [\<lambda>(f, m, n, l, p). m, \<lambda>(f, m, n, l, p). length (snd p)]") (auto simp: advances_def)

declare repeat_ends.simps [simp del]

text \<open>The places where a match of the pattern may end, in the order the search tries them.\<close>

primrec ends :: "bool \<Rightarrow> rx \<Rightarrow> place \<Rightarrow> place list" where
  "ends nc Empty_Rx p = [p]"
| "ends nc (Letter neg items) p = step_over nc neg items p"
| "ends nc Edge p = (if at_edge p then [p] else [])"
| "ends nc Start p = (if fst p = [] then [p] else [])"
| "ends nc (Ahead_not r) p = (if ends nc r p = [] then [p] else [])"
| "ends nc (Seq r s) p = concat (map (ends nc s) (ends nc r p))"
| "ends nc (Or r s) p = ends nc r p @ ends nc s p"
| "ends nc (Rep m n lazy r) p = repeat_ends (ends nc r) m n lazy p"

text \<open>\<open>pattern.search(text)\<close>, and the text of its match: \<open>m.group(0)\<close>.\<close>

definition text_between :: "place \<Rightarrow> place \<Rightarrow> string" where
  "text_between p q = take (length (snd p) - length (snd q)) (snd p)"

fun search_from :: "bool \<Rightarrow> rx \<Rightarrow> string \<Rightarrow> string \<Rightarrow> string option" where
  "search_from nc r u v =
     (case ends nc r (u, v) of
        q # _ \<Rightarrow> Some (text_between (u, v) q)
      | [] \<Rightarrow> (case v of [] \<Rightarrow> None | c # v' \<Rightarrow> search_from nc r (c # u) v'))"

declare search_from.simps [simp del]

definition rx_search :: "bool \<Rightarrow> rx \<Rightarrow> string \<Rightarrow> string option" where
  "rx_search nc r text = search_from nc r [] text"

section \<open>What a match is\<close>

text \<open>The pattern matches the text between two places: no order, no search, iteration as a power.\<close>

primrec spans :: "bool \<Rightarrow> rx \<Rightarrow> place \<Rightarrow> place \<Rightarrow> bool" where
  "spans nc Empty_Rx p q = (q = p)"
| "spans nc (Letter neg items) p q =
     (\<exists>u c v. p = (u, c # v) \<and> q = (c # u, v) \<and> in_items nc items c \<noteq> neg)"
| "spans nc Edge p q = (q = p \<and> at_edge p)"
| "spans nc Start p q = (q = p \<and> fst p = [])"
| "spans nc (Ahead_not r) p q = (q = p \<and> \<not> (\<exists>q'. spans nc r p q'))"
| "spans nc (Seq r s) p q = (\<exists>z. spans nc r p z \<and> spans nc s z q)"
| "spans nc (Or r s) p q = (spans nc r p q \<or> spans nc s p q)"
| "spans nc (Rep m n lazy r) p q = (\<exists>k \<ge> m. (case n of None \<Rightarrow> True | Some b \<Rightarrow> k \<le> b) \<and> (spans nc r ^^ k) p q)"


text \<open>\<open>re.compile\<close> refuses a repetition whose minimum is above its maximum.\<close>

primrec rx_ok :: "rx \<Rightarrow> bool" where
  "rx_ok Empty_Rx = True"
| "rx_ok (Letter neg items) = True"
| "rx_ok Edge = True"
| "rx_ok Start = True"
| "rx_ok (Ahead_not r) = rx_ok r"
| "rx_ok (Seq r s) = (rx_ok r \<and> rx_ok s)"
| "rx_ok (Or r s) = (rx_ok r \<and> rx_ok s)"
| "rx_ok (Rep m n lazy r) = ((case n of None \<Rightarrow> True | Some b \<Rightarrow> m \<le> b) \<and> rx_ok r)"

definition rx_hits :: "bool \<Rightarrow> rx \<Rightarrow> string \<Rightarrow> bool" where
  "rx_hits nc r t = (\<exists>u v q. t = u @ v \<and> spans nc r (rev u, v) q)"

section \<open>A match moves forward\<close>

lemma relpowp_moves:
  assumes "\<And>p q. R p q \<Longrightarrow> \<exists>w. snd p = w @ snd q \<and> fst q = rev w @ fst p" and "(R ^^ k) p q"
  shows "\<exists>w. snd p = w @ snd q \<and> fst q = rev w @ fst (p :: place)"
  using assms(2)
proof (induction k arbitrary: q)
  case (Suc k)
  then obtain z where "(R ^^ k) p z" "R z q" by auto
  moreover from this Suc.IH obtain w where "snd p = w @ snd z" "fst z = rev w @ fst p" by blast
  moreover from assms(1) [OF \<open>R z q\<close>] obtain w' where "snd z = w' @ snd q" "fst q = rev w' @ fst z" by blast
  ultimately show ?case by (intro exI [of _ "w @ w'"]) simp
qed simp

lemma spans_moves: "spans nc r p q \<Longrightarrow> \<exists>w. snd p = w @ snd q \<and> fst q = rev w @ fst p"
proof (induction r arbitrary: p q)
  case (Letter neg items)
  then obtain u c v where "p = (u, c # v)" "q = (c # u, v)" by auto
  then show ?case by (intro exI [of _ "[c]"]) simp
next
  case (Seq r s)
  then obtain z where z: "spans nc r p z" "spans nc s z q" by auto
  from Seq.IH(1) [OF z(1)] obtain w where w: "snd p = w @ snd z" "fst z = rev w @ fst p" by blast
  from Seq.IH(2) [OF z(2)] obtain w' where "snd z = w' @ snd q" "fst q = rev w' @ fst z" by blast
  with w show ?case by (intro exI [of _ "w @ w'"]) simp
next
  case (Or r s)
  then show ?case by (meson spans.simps(7))
next
  case (Rep m n lazy r)
  then obtain k where "(spans nc r ^^ k) p q" by auto
  with Rep.IH show ?case by (rule relpowp_moves)
qed simp_all

lemma spans_advances: "spans nc r p q \<Longrightarrow> q = p \<or> advances p q"
  using spans_moves [of nc r p q] by (cases p; cases q) (auto simp: advances_def)

section \<open>The search is exact\<close>

lemma relpowp_first: "(R ^^ Suc k) p q \<longleftrightarrow> (\<exists>z. R p z \<and> (R ^^ k) z q)"
  by (metis relpowp_Suc_D2 relpowp_Suc_I2)

lemma repeat_ends_iff:
  assumes "\<And>z y. y \<in> set (f z) \<longleftrightarrow> R z y" and "\<And>z y. R z y \<Longrightarrow> y = z \<or> advances z y"
    and "case n of None \<Rightarrow> True | Some b \<Rightarrow> m \<le> b"
  shows "q \<in> set (repeat_ends f m n lazy p)
     \<longleftrightarrow> (\<exists>k \<ge> m. (case n of None \<Rightarrow> True | Some b \<Rightarrow> k \<le> b) \<and> (R ^^ k) p q)"
  using assms
proof (induction f m n lazy p arbitrary: q rule: repeat_ends.induct)
  case (1 f m n lazy p)
  note f = "1.prems"(1) and R = "1.prems"(2) and b = "1.prems"(3)
  let ?n = "map_option (\<lambda>k. k - 1) n"
  let ?le = "\<lambda>n k. case n of None \<Rightarrow> True | Some b \<Rightarrow> (k :: nat) \<le> b"
  show ?case
  proof (cases "0 < m")
    case True
    have n': "?le ?n (m - 1)" using b by (cases n) auto
    have IH: "q \<in> set (repeat_ends f (m - 1) ?n lazy z) \<longleftrightarrow> (\<exists>k \<ge> m - 1. ?le ?n k \<and> (R ^^ k) z q)"
      if "R p z" for z
      by (rule "1.IH"(1) [OF True _ f R n']) (simp add: f that)
    have "q \<in> set (repeat_ends f m n lazy p) \<longleftrightarrow> (\<exists>z. R p z \<and> q \<in> set (repeat_ends f (m - 1) ?n lazy z))"
      unfolding repeat_ends.simps [of f m n lazy p] by (simp add: True Bex_def f)
    also have "\<dots> \<longleftrightarrow> (\<exists>z. R p z \<and> (\<exists>k \<ge> m - 1. ?le ?n k \<and> (R ^^ k) z q))" using IH by blast
    also have "\<dots> \<longleftrightarrow> (\<exists>k \<ge> m - 1. ?le ?n k \<and> (R ^^ Suc k) p q)"
      unfolding relpowp_first by blast
    also have "\<dots> \<longleftrightarrow> (\<exists>k \<ge> m. ?le n k \<and> (R ^^ k) p q)" (is "?l \<longleftrightarrow> ?r")
    proof
      assume ?l
      then obtain k where k: "m - 1 \<le> k" "?le ?n k" "(R ^^ Suc k) p q" by blast
      have "?le n (Suc k)" using k(2) b True by (cases n) auto
      moreover have "m \<le> Suc k" using k(1) by simp
      ultimately show ?r using k(3) by blast
    next
      assume ?r
      then obtain k where k: "m \<le> k" "?le n k" "(R ^^ k) p q" by blast
      with True obtain j where j: "k = Suc j" by (cases k) auto
      have "?le ?n j" using k(2) j by (cases n) auto
      with j k show ?l by (intro exI [of _ j]) simp
    qed
    finally show ?thesis .
  next
    case False
    then have m: "m = 0" by simp
    have IH: "q \<in> set (repeat_ends f 0 ?n lazy z) \<longleftrightarrow> (\<exists>k \<ge> 0. ?le ?n k \<and> (R ^^ k) z q)"
      if "n \<noteq> Some 0" "R p z" "advances p z" for z
      by (rule "1.IH"(2) [OF False that(1) _ f R]) (use that f in \<open>auto split: option.splits\<close>)
    have mem: "q \<in> set (repeat_ends f 0 n lazy p) \<longleftrightarrow>
        q = p \<or> n \<noteq> Some 0 \<and> (\<exists>z. R p z \<and> advances p z \<and> q \<in> set (repeat_ends f 0 ?n lazy z))"
      unfolding repeat_ends.simps [of f 0 n lazy p] by (auto simp: Let_def f)
    have "?le n k \<Longrightarrow> (R ^^ k) p q \<Longrightarrow> q \<in> set (repeat_ends f 0 n lazy p)" for k
    proof (induction k)
      case (Suc k)
      from Suc.prems(2) obtain z where z: "R p z" "(R ^^ k) z q" unfolding relpowp_first by blast
      have k: "?le n k" using Suc.prems(1) by (cases n) auto
      show ?case
      proof (cases "advances p z")
        case True
        have n: "n \<noteq> Some 0" "?le ?n k" using Suc.prems(1) by (cases n; auto)+
        with z(2) have "q \<in> set (repeat_ends f 0 ?n lazy z)" unfolding IH [OF n(1) z(1) True] by blast
        with n(1) z(1) True show ?thesis unfolding mem by blast
      next
        case False
        with R [OF z(1)] have "z = p" by blast
        with z Suc.IH [OF k] show ?thesis by simp
      qed
    next
      case 0
      then have "q = p" by simp
      then show ?case unfolding mem by blast
    qed
    moreover have "\<exists>k. ?le n k \<and> (R ^^ k) p q" if "q \<in> set (repeat_ends f 0 n lazy p)"
    proof -
      from that consider "q = p" | z where "n \<noteq> Some 0" "R p z" "advances p z" "q \<in> set (repeat_ends f 0 ?n lazy z)"
        unfolding mem by blast
      then show ?thesis
      proof cases
        case 1
        then show ?thesis by (intro exI [of _ 0]) (auto split: option.splits)
      next
        case 2
        then obtain k where k: "?le ?n k" "(R ^^ k) z q" unfolding IH [OF 2(1-3)] by blast
        have "?le n (Suc k)" using k(1) 2(1) by (cases n) auto
        with relpowp_first [of k R p q] 2(2) k(2) show ?thesis by blast
      qed
    qed
    ultimately show ?thesis using m by auto
  qed
qed

lemma ends_iff: "rx_ok r \<Longrightarrow> q \<in> set (ends nc r p) \<longleftrightarrow> spans nc r p q"
proof (induction r arbitrary: p q)
  case (Letter neg items)
  then show ?case by (cases p; cases "snd p") auto
next
  case (Ahead_not r)
  have "ends nc r p = [] \<longleftrightarrow> \<not> (\<exists>q'. q' \<in> set (ends nc r p))" by (cases "ends nc r p") auto
  with Ahead_not show ?case by auto
next
  case (Seq r s)
  have "q \<in> set (ends nc (Seq r s) p) \<longleftrightarrow> (\<exists>z. z \<in> set (ends nc r p) \<and> q \<in> set (ends nc s z))"
    by auto
  with Seq show ?case by simp
next
  case (Or r s)
  then show ?case by (metis Un_iff ends.simps(7) rx_ok.simps(7) set_append spans.simps(7))
next
  case (Rep m n lazy r)
  then have "q \<in> set (repeat_ends (ends nc r) m n lazy p) \<longleftrightarrow>
      (\<exists>k \<ge> m. (case n of None \<Rightarrow> True | Some b \<Rightarrow> k \<le> b) \<and> (spans nc r ^^ k) p q)"
    by (intro repeat_ends_iff) (auto dest: spans_advances)
  then show ?case by simp
qed auto

lemma between_span: "spans nc r (u, v) q \<Longrightarrow> q = (rev (text_between (u, v) q) @ u, drop (length (text_between (u, v) q)) v)
    \<and> v = text_between (u, v) q @ snd q"
  using spans_moves [of nc r "(u, v)" q] by (cases q) (auto simp: text_between_def)


lemma search_from_Some:
  "search_from nc r u v = Some m \<Longrightarrow> rx_ok r \<Longrightarrow>
     \<exists>a b. v = a @ m @ b \<and> spans nc r (rev a @ u, m @ b) (rev m @ rev a @ u, b)
       \<and> (\<forall>a' b'. v = a' @ b' \<longrightarrow> length a' < length a \<longrightarrow> \<not> (\<exists>q. spans nc r (rev a' @ u, b') q))"
proof (induction nc r u v rule: search_from.induct)
  case (1 nc r u v)
  note exact = ends_iff [OF "1.prems"(2)]
  show ?case
  proof (cases "ends nc r (u, v)")
    case (Cons q qs)
    with "1.prems"(1) have m: "m = text_between (u, v) q" by (subst (asm) search_from.simps) simp
    have "spans nc r (u, v) q" using exact [of q nc "(u, v)"] Cons by simp
    with between_span [OF this] show ?thesis unfolding m
      by (metis append_Nil append_eq_conv_conj list.size(3) not_less_zero prod.collapse rev.simps(1) snd_conv)
  next
    case Nil
    with "1.prems"(1) obtain c w where v: "v = c # w" and s: "search_from nc r (c # u) w = Some m"
      by (subst (asm) search_from.simps) (auto split: list.splits)
    from "1.IH" [OF Nil v s "1.prems"(2)] obtain a b where ab: "w = a @ m @ b"
        "spans nc r (rev a @ c # u, m @ b) (rev m @ rev a @ c # u, b)"
        "\<forall>a' b'. w = a' @ b' \<longrightarrow> length a' < length a \<longrightarrow> \<not> (\<exists>q. spans nc r (rev a' @ c # u, b') q)"
      by blast
    have none: "\<not> (\<exists>q. spans nc r (u, v) q)" using Nil exact [of _ nc "(u, v)"] by auto
    have "\<not> (\<exists>q. spans nc r (rev a' @ u, b') q)" if "v = a' @ b'" "length a' < length (c # a)" for a' b'
    proof (cases a')
      case (Cons d a'')
      with that v ab(3) show ?thesis by auto
    qed (use that none in auto)
    with ab(1,2) v show ?thesis by (intro exI [of _ "c # a"] exI [of _ b]) simp
  qed
qed

lemma search_from_None:
  "search_from nc r u v = None \<Longrightarrow> rx_ok r \<Longrightarrow> v = a @ b \<Longrightarrow> \<not> spans nc r (rev a @ u, b) q"
proof (induction nc r u v arbitrary: a rule: search_from.induct)
  case (1 nc r u v)
  have nil: "ends nc r (u, v) = []" using "1.prems"(1) by (subst (asm) search_from.simps) (auto split: list.splits)
  show ?case
  proof (cases a)
    case Nil
    with nil ends_iff [OF "1.prems"(2), of q nc "(u, v)"] "1.prems"(3) show ?thesis by simp
  next
    case (Cons c a')
    with "1.prems"(3) have v: "v = c # a' @ b" by simp
    have "search_from nc r (c # u) (a' @ b) = None"
      using "1.prems"(1) nil v by (subst (asm) search_from.simps) simp
    from "1.IH" [OF nil v this "1.prems"(2) refl] Cons show ?thesis by simp
  qed
qed

lemma search_hits: "rx_ok r \<Longrightarrow> (rx_search nc r t \<noteq> None) \<longleftrightarrow> rx_hits nc r t"
proof
  assume ok: "rx_ok r" and "rx_search nc r t \<noteq> None"
  then obtain m where "search_from nc r [] t = Some m" by (auto simp: rx_search_def)
  from search_from_Some [OF this ok] show "rx_hits nc r t"
    by (force simp: rx_hits_def)
next
  assume ok: "rx_ok r" and "rx_hits nc r t"
  then obtain u v q where "t = u @ v" "spans nc r (rev u @ [], v) q" by (auto simp: rx_hits_def)
  with search_from_None [of nc r "[]" t u v q] ok show "rx_search nc r t \<noteq> None"
    by (auto simp: rx_search_def)
qed

section \<open>Text around a match\<close>

text \<open>
  A pattern is portable when it does not ask for the start of the text and looks ahead only for a
  word.
\<close>

definition word_item :: "class_item \<Rightarrow> bool" where
  "word_item i = (case i of Between a b \<Rightarrow> a = b \<and> re_word (char_of a) \<and> a < 256 | Space_Class \<Rightarrow> False | Word_Class \<Rightarrow> True)"

fun solid :: "rx \<Rightarrow> bool" where
  "solid Empty_Rx = True"
| "solid (Letter neg items) = (\<not> neg \<and> list_all word_item items)"
| "solid (Seq r s) = (solid r \<and> solid s)"
| "solid (Or r s) = (solid r \<and> solid s)"
| "solid _ = False"

primrec portable :: "rx \<Rightarrow> bool" where
  "portable Empty_Rx = True"
| "portable (Letter neg items) = True"
| "portable Edge = True"
| "portable Start = False"
| "portable (Ahead_not r) = solid r"
| "portable (Seq r s) = (portable r \<and> portable s)"
| "portable (Or r s) = (portable r \<and> portable s)"
| "portable (Rep m n lazy r) = portable r"

lemma code_lower_char: "code (lower_char c) = (if 65 \<le> code c \<and> code c \<le> 90 then code c + 32 else code c)"
  by (auto simp: code_def Let_def)

lemma code_upper_char: "code (upper_char c) = (if 97 \<le> code c \<and> code c \<le> 122 then code c - 32 else code c)"
  by (auto simp: code_def is_lower_char_def char_between_def)


lemma code_eq_iff: "code c = code d \<longleftrightarrow> c = d"
  by (simp add: code_def)

lemma word_cases:
  "re_word (lower_char c) = re_word c" "re_word (upper_char c) = re_word c"
proof -
  have under: "d = CHR ''_'' \<longleftrightarrow> code d = 95" for d
    using code_eq_iff [of d "CHR ''_''"] by (simp add: code_def)
  note w = re_word_def is_word_char_def is_lower_char_def is_upper_char_def is_digit_char_def
    char_between_def under
  have c: "code CHR ''0'' = 48" "code CHR ''9'' = 57" "code CHR ''A'' = 65" "code CHR ''Z'' = 90"
    "code CHR ''a'' = 97" "code CHR ''z'' = 122" by (simp_all add: code_def)
  have up: "65 \<le> code c \<and> code c \<le> 90 \<Longrightarrow> re_word c" and lo: "97 \<le> code c \<and> code c \<le> 122 \<Longrightarrow> re_word c"
    unfolding w c by simp_all
  have "65 \<le> code c \<and> code c \<le> 90 \<Longrightarrow> re_word (lower_char c)"
    unfolding w code_lower_char c by simp
  moreover have "\<not> (65 \<le> code c \<and> code c \<le> 90) \<Longrightarrow> lower_char c = c"
    by (simp only: code_eq_iff [symmetric] code_lower_char if_False)
  ultimately show "re_word (lower_char c) = re_word c" using up by metis
  have "97 \<le> code c \<and> code c \<le> 122 \<Longrightarrow> is_upper_char (upper_char c)"
    unfolding is_upper_char_def char_between_def code_upper_char c by (simp del: upper_char.simps) linarith
  then have "97 \<le> code c \<and> code c \<le> 122 \<Longrightarrow> re_word (upper_char c)"
    by (simp add: re_word_def is_word_char_def del: upper_char.simps)
  moreover have "\<not> (97 \<le> code c \<and> code c \<le> 122) \<Longrightarrow> upper_char c = c"
    by (simp only: code_eq_iff [symmetric] code_upper_char if_False)
  ultimately show "re_word (upper_char c) = re_word c" using lo by metis
qed

lemma word_items:
  assumes "list_all word_item items" and "in_items nc items c"
  shows "re_word c"
proof -
  have "re_word d" if "i \<in> set items" "in_item d i" for d i
  proof -
    from that(1) assms(1) have i: "word_item i" by (simp add: list_all_iff)
    show ?thesis
    proof (cases i)
      case (Between a b)
      with i that(2) have "code d = a" "re_word (char_of a)" by (auto simp: word_item_def)
      moreover from this(1) have "char_of a = d" by (auto simp: code_def)
      ultimately show ?thesis by simp
    qed (use i that(2) in \<open>simp_all add: word_item_def\<close>)
  qed
  with assms(2) show ?thesis unfolding in_items_def list_ex_iff by (metis word_cases)
qed

lemma solid_within:
  assumes "\<not> word_before a"
  shows "solid r \<Longrightarrow> spans nc r (u @ b, v @ a) q \<Longrightarrow> \<exists>u' v'. q = (u' @ b, v' @ a) \<and> spans nc r (u, v) (u', v')"
proof (induction r arbitrary: u v q)
  case (Letter neg items)
  then have items: "\<not> neg" "list_all word_item items" by auto
  from Letter.prems(2) obtain c w where c: "v @ a = c # w" "q = (c # u @ b, w)" "in_items nc items c"
    using items(1) by auto
  from word_items [OF items(2) c(3)] have "re_word c" .
  with assms c(1) obtain v' where "v = c # v'" "w = v' @ a" by (cases v) (auto simp: word_before_def)
  with c items(1) show ?case by (intro exI [of _ "c # u"] exI [of _ v']) simp
next
  case (Seq r s)
  then obtain z where z: "spans nc r (u @ b, v @ a) z" "spans nc s z q" by auto
  from Seq.IH(1) [OF _ z(1)] Seq.prems(1) obtain u1 v1 where 1: "z = (u1 @ b, v1 @ a)" "spans nc r (u, v) (u1, v1)"
    by auto
  from Seq.IH(2) [OF _ z(2) [unfolded 1(1)]] Seq.prems(1) obtain u2 v2 where
    "q = (u2 @ b, v2 @ a)" "spans nc s (u1, v1) (u2, v2)" by auto
  with 1 show ?case by auto
next
  case (Or r s)
  then show ?case by (metis solid.simps(4) spans.simps(7))
qed auto

lemma word_before_append: "\<not> word_before b \<Longrightarrow> word_before (u @ b) = word_before u"
  by (cases u) (simp_all add: word_before_def)

lemma spans_padded:
  assumes "\<not> word_before b" and "\<not> word_before a"
  shows "portable r \<Longrightarrow> spans nc r (u, v) (u', v') \<Longrightarrow> spans nc r (u @ b, v @ a) (u' @ b, v' @ a)"
proof (induction r arbitrary: u v u' v')
  case Edge
  then show ?case by (simp add: at_edge_def word_before_append assms)
next
  case (Ahead_not r)
  then show ?case using solid_within [OF assms(2), of r nc u b v] by auto
next
  case (Seq r s)
  then obtain x y where "spans nc r (u, v) (x, y)" "spans nc s (x, y) (u', v')" by auto
  with Seq.IH Seq.prems(1) have "spans nc r (u @ b, v @ a) (x @ b, y @ a)" "spans nc s (x @ b, y @ a) (u' @ b, v' @ a)"
    by simp_all
  then show ?case by auto
next
  case (Rep m n lazy r)
  then obtain k where k: "m \<le> k" "case n of None \<Rightarrow> True | Some c \<Rightarrow> k \<le> c" "(spans nc r ^^ k) (u, v) (u', v')"
    by auto
  have "(spans nc r ^^ k) (u, v) (u', v') \<Longrightarrow> (spans nc r ^^ k) (u @ b, v @ a) (u' @ b, v' @ a)" for u' v'
  proof (induction k arbitrary: u' v')
    case (Suc k)
    from Suc.prems obtain z where z: "(spans nc r ^^ k) (u, v) z" "spans nc r z (u', v')" by auto
    obtain x y where xy: "z = (x, y)" by (cases z)
    have "(spans nc r ^^ k) (u @ b, v @ a) (x @ b, y @ a)" using Suc.IH z(1) xy by simp
    moreover have "spans nc r (x @ b, y @ a) (u' @ b, v' @ a)" using Rep.IH Rep.prems(1) z(2) xy by simp
    ultimately show ?case by auto
  qed simp
  with k show ?case by auto
qed auto

lemma hits_padded:
  assumes "portable r" and "rx_hits nc r t" and "\<not> word_before (rev a)" and "\<not> word_before b"
  shows "rx_hits nc r (a @ t @ b)"
proof -
  from assms(2) obtain u v q where h: "t = u @ v" "spans nc r (rev u, v) q" by (auto simp: rx_hits_def)
  obtain x y where "q = (x, y)" by (cases q)
  with spans_padded [OF assms(3,4,1), of nc "rev u" v x y] h
  have "spans nc r (rev (a @ u), v @ b) (x @ rev a, y @ b)" by simp
  with h(1) show ?thesis unfolding rx_hits_def by (metis append_assoc)
qed

section \<open>Case\<close>

lemma lower_lower [simp]: "lower_char (lower_char c) = lower_char c"
  by (simp only: code_eq_iff [symmetric] code_lower_char) simp

lemma upper_lower: "upper_char (lower_char c) = upper_char c"
  by (simp only: code_eq_iff [symmetric] code_lower_char code_upper_char) simp

lemma lower_or_upper: "c = lower_char c \<or> c = upper_char c"
  by (simp only: code_eq_iff [symmetric] code_lower_char code_upper_char) auto

lemma in_items_lower: "in_items True items (lower_char c) = in_items True items c"
  unfolding in_items_def list_ex_iff upper_lower lower_lower using lower_or_upper [of c] by metis

definition lower_place :: "place \<Rightarrow> place" where
  "lower_place p = (lower (fst p), lower (snd p))"

lemma word_before_lower: "word_before (lower u) = word_before u"
  by (cases u) (simp_all add: word_before_def lower_def word_cases del: lower_char.simps)

lemma lower_place_tests: "at_edge (lower_place p) = at_edge p" "fst (lower_place p) = [] \<longleftrightarrow> fst p = []"
  by (simp_all add: at_edge_def lower_place_def word_before_lower) (simp add: lower_def)

lemma spans_lower:
  "spans True r (lower_place p) q' \<longleftrightarrow> (\<exists>q. q' = lower_place q \<and> spans True r p q)"
proof (induction r arbitrary: p q')
  case (Letter neg items)
  show ?case
  proof (cases "snd p")
    case Nil
    then show ?thesis by (auto simp: lower_place_def lower_def)
  next
    case (Cons c v)
    then have p: "p = (fst p, c # v)" by (cases p) simp
    show ?thesis
      by (subst (1 2) p) (auto simp: lower_place_def lower_def in_items_lower simp del: lower_char.simps)
  qed
next
  case Edge
  show ?case unfolding spans.simps lower_place_tests by blast
next
  case Start
  show ?case unfolding spans.simps lower_place_tests by blast
next
  case (Ahead_not r)
  show ?case unfolding spans.simps Ahead_not.IH by blast
next
  case (Seq r s)
  have "spans True (Seq r s) (lower_place p) q' \<longleftrightarrow> (\<exists>z. spans True r p z \<and> spans True s (lower_place z) q')"
    unfolding spans.simps Seq.IH(1) by blast
  then show ?case unfolding Seq.IH(2) spans.simps by blast
next
  case (Or r s)
  show ?case unfolding spans.simps Or.IH by blast
next
  case (Rep m n lazy r)
  have "(spans True r ^^ k) (lower_place p) q' \<longleftrightarrow> (\<exists>q. q' = lower_place q \<and> (spans True r ^^ k) p q)" for k
  proof (induction k arbitrary: p)
    case (Suc k)
    have "(spans True r ^^ Suc k) (lower_place p) q' \<longleftrightarrow>
        (\<exists>z. spans True r p z \<and> (spans True r ^^ k) (lower_place z) q')"
      unfolding relpowp_first Rep.IH by blast
    then show ?case unfolding Suc.IH relpowp_first by blast
  qed auto
  then show ?case by auto
qed auto

lemma hits_same_letters:
  assumes "lower s = lower t"
  shows "rx_hits True r s \<longleftrightarrow> rx_hits True r t"
proof -
  have eq: "rx_hits True r t \<longleftrightarrow> rx_hits True r (lower t)" for t
  proof -
    have "(\<exists>q. spans True r (rev (lower u), lower v) q) \<longleftrightarrow> (\<exists>q. spans True r (rev u, v) q)" for u v
      using spans_lower [of r "(rev u, v)"] by (auto simp: lower_place_def lower_def rev_map)
    moreover have "(\<exists>u v. lower t = u @ v \<and> P u v) \<longleftrightarrow> (\<exists>u v. t = u @ v \<and> P (lower u) (lower v))" for P
      by (auto simp: lower_def map_eq_append_conv)
    ultimately show ?thesis unfolding rx_hits_def by auto
  qed
  show ?thesis using eq [of s] eq [of t] assms by simp
qed

end
