(* ===== verification/Detector_Patterns.thy ===== *)
theory Detector_Patterns
  imports Regular_Patterns Decoding
begin

text \<open>
  The detector taxonomy of \<open>layers/adversarial.py\<close>: \<open>DetectorPattern\<close> and the eight lists of default
  patterns. \<open>spell\<close> and the other builders write a pattern close to its source text. Two descriptions
  have a dash outside the model's characters, written as a hyphen here.
\<close>

section \<open>Builders\<close>

definition chr_rx :: "char \<Rightarrow> rx" where
  "chr_rx c = Letter False [Between (code c) (code c)]"

definition one_of :: "string \<Rightarrow> rx" where
  "one_of s = Letter False (map (\<lambda>c. Between (code c) (code c)) s)"

definition none_of :: "string \<Rightarrow> rx" where
  "none_of s = Letter True (map (\<lambda>c. Between (code c) (code c)) s)"

definition dot :: rx where "dot = none_of [newline]"
definition anything :: rx where "anything = Letter True []"
definition space :: rx where "space = Letter False [Space_Class]"
definition word :: rx where "word = Letter False [Word_Class]"

definition opt :: "rx \<Rightarrow> rx" where "opt r = Rep 0 (Some 1) False r"
definition some :: "rx \<Rightarrow> rx" where "some r = Rep 1 None False r"
definition any :: "rx \<Rightarrow> rx" where "any r = Rep 0 None False r"
definition upto_rx :: "nat \<Rightarrow> rx \<Rightarrow> rx" where "upto_rx n r = Rep 0 (Some n) False r"
definition upto_lazy :: "nat \<Rightarrow> rx \<Rightarrow> rx" where "upto_lazy n r = Rep 0 (Some n) True r"

text \<open>\<open>\\s+\<close> and \<open>\\s*\<close>.\<close>

definition gap :: rx where "gap = some space"
definition gap0 :: rx where "gap0 = any space"

fun seqs :: "rx list \<Rightarrow> rx" where
  "seqs [] = Empty_Rx"
| "seqs (r # rs) = Seq r (seqs rs)"

fun alts :: "rx list \<Rightarrow> rx" where
  "alts [] = Letter False []"
| "alts [r] = r"
| "alts (r # rs) = Or r (alts rs)"

text \<open>A literal text, where a blank stands for \<open>\\s+\<close> and \<open>?\<close> makes the character before it optional.\<close>

fun spell :: "string \<Rightarrow> rx" where
  "spell [] = Empty_Rx"
| "spell [c] = (if c = CHR '' '' then gap else chr_rx c)"
| "spell (c # q # cs) =
     (let r = (if c = CHR '' '' then gap else chr_rx c)
      in if q = CHR ''?'' then Seq (opt r) (spell cs) else Seq r (spell (q # cs)))"

definition words :: "string list \<Rightarrow> rx" where
  "words ws = alts (map spell ws)"

section \<open>Detectors\<close>

record detector =
  dt_name :: string
  dt_rx :: rx
  dt_nocase :: bool
  dt_type :: string
  dt_severity :: rat
  dt_confidence :: rat
  dt_description :: string

text \<open>\<open>__post_init__\<close>: the pattern compiles, severity and confidence lie between 0 and 1.\<close>

definition check_detector :: "detector \<Rightarrow> exn + detector" where
  "check_detector d =
     (if \<not> rx_ok (dt_rx d) then Inl (OtherError ''error'' ''min repeat greater than max repeat'')
      else if \<not> (0 \<le> dt_severity d \<and> dt_severity d \<le> 1)
        then Inl (ValueError ''DetectorPattern.severity must be in [0,1]'')
      else if \<not> (0 \<le> dt_confidence d \<and> dt_confidence d \<le> 1)
        then Inl (ValueError ''DetectorPattern.confidence must be in [0,1]'')
      else Inr d)"

definition detector_search :: "detector \<Rightarrow> string \<Rightarrow> string option" where
  "detector_search d text = rx_search (dt_nocase d) (dt_rx d) text"

definition pat :: "string \<Rightarrow> rx \<Rightarrow> string \<Rightarrow> rat \<Rightarrow> rat \<Rightarrow> string \<Rightarrow> detector" where
  "pat n r t s c d = \<lparr>dt_name = n, dt_rx = r, dt_nocase = True, dt_type = t, dt_severity = s / 100,
     dt_confidence = c / 100, dt_description = d\<rparr>"

section \<open>The default taxonomy\<close>

definition prompt_injection_patterns :: "detector list" where
  "prompt_injection_patterns =
    [pat ''ignore_previous''
      (seqs [Edge, spell ''ignore '', opt (words [''all '', ''any '', ''the '', ''every '']),
        words [''previous'', ''prior'', ''above'', ''preceding''], gap,
        words [''instructions?'', ''prompts?'', ''rules?'', ''directives?'', ''context''], Edge])
      ''prompt_injection'' 80 85 ''Imperative to discard prior instructions'',
     pat ''disregard_above''
      (seqs [Edge, words [''disregard'', ''forget'', ''delete'', ''erase''], gap,
        words [''everything'', ''all'', ''your''], gap,
        words [''above'', ''prior'', ''previous'', ''instructions?'', ''context'', ''memory''], Edge])
      ''prompt_injection'' 80 80 ''Imperative to forget prior context'',
     pat ''new_instructions''
      (seqs [Edge, words [''new'', ''updated'', ''revised'', ''replacement''], gap,
        words [''instructions?'', ''directives?'', ''rules?'', ''orders?''], gap0, one_of '':-''])
      ''prompt_injection'' 70 70 ''Header introducing a replacement instruction set'',
     pat ''override_directive''
      (Or (seqs [Edge, spell ''override'', gap0, one_of '':-'']) (seqs [Start, gap0, spell ''override'', Edge]))
      ''prompt_injection'' 70 55 ''Override directive header'',
     pat ''boundary_marker_injection''
      (alts [seqs [Rep 2 None False (chr_rx (CHR ''#'')), gap0, spell ''system'', gap0, Rep 2 None False (chr_rx (CHR ''#''))],
        seqs [spell ''['', gap0, spell ''system'', gap0, spell '']''],
        seqs [spell ''--'', some (chr_rx (CHR ''-'')), gap0, words [''end'', ''begin'', ''system''], gap0,
          spell ''--'', some (chr_rx (CHR ''-''))]])
      ''prompt_injection'' 65 55 ''Fence/boundary marker often used to inject a fake system block'']"

definition jailbreak_patterns :: "detector list" where
  "jailbreak_patterns =
    [pat ''dan_mode''
      (seqs [Edge, words [''DAN'', ''do anything now'', ''jailbreak mode'', ''developer mode'', ''debug mode''], Edge])
      ''jailbreak'' 85 75 ''Known jailbreak persona / mode invocation'',
     pat ''evil_twin''
      (seqs [Edge, words [''evil'', ''opposite'', ''unfiltered'', ''unrestricted'', ''uncensored''], gap,
        words [''twin'', ''version'', ''self'', ''mode'', ''model'', ''persona''], Edge])
      ''jailbreak'' 80 75 ''Persona-shift jailbreak phrasing'',
     pat ''no_restrictions''
      (seqs [Edge, alts [spell ''no'', spell ''without'', Seq (spell ''bypass'') (opt (spell ''ing'')), spell ''remove'',
          spell ''disable'', spell ''skip''], gap,
        opt (words [''any '', ''all '', ''the '', ''every '']),
        alts [spell ''restrictions?'', spell ''filters?'',
          Seq (spell ''safety'') (opt (Seq gap (words [''rails?'', ''guards?'']))), spell ''guardrails?'', spell ''guidelines?'',
          Seq (spell ''ethic'') (opt (words [''s'', ''al''])), Seq (spell ''content polic'') (words [''y'', ''ies'']),
          spell ''safeguards?''], Edge])
      ''jailbreak'' 80 70 ''Demand to operate without safety constraints'',
     pat ''hypothetical_unsafe''
      (seqs [Edge, alts [spell ''hypothetically'', Seq (spell ''in a fictional '') (words [''world'', ''scenario'', ''story'']),
          spell ''for research purposes''], Edge, any dot, Edge,
        alts [spell ''how to'', seqs [spell ''step'', opt dot, spell ''by'', opt dot, spell ''step''], spell ''explain'',
          spell ''teach me''], Edge])
      ''jailbreak'' 65 55 ''Fiction/hypothetical framing followed by capability extraction'']"

definition role_confusion_patterns :: "detector list" where
  "role_confusion_patterns =
    [pat ''you_are_now''
      (seqs [Edge, spell ''you are '', words [''now'', ''actually'', ''really''], gap, opt (spell ''an? ''),
        Ahead_not (spell ''helpful''), Rep 1 (Some 40) False (Letter False [Word_Class, Space_Class, Between 45 45])])
      ''role_confusion'' 70 55 ''Imperative role reassignment'',
     pat ''pretend_to_be''
      (seqs [Edge, words [''pretend'', ''act'', ''roleplay'', ''behave''], gap, words [''to be'', ''as'', ''like''], gap,
        opt (spell ''an? ''), some word])
      ''role_confusion'' 55 45 ''Roleplay invocation (often benign - confidence is low)'',
     pat ''ignore_your_role''
      (seqs [Edge, words [''ignore'', ''forget'', ''abandon'', ''drop''], gap, words [''your'', ''the''], gap,
        opt (Seq (some word) gap),
        words [''role'', ''persona'', ''character'', ''assistant role'', ''previous identity'', ''identity''], Edge])
      ''role_confusion'' 85 80 ''Imperative to drop the assigned role'']"

definition system_prompt_extraction_patterns :: "detector list" where
  "system_prompt_extraction_patterns =
    [pat ''reveal_system_prompt''
      (seqs [Edge, words [''reveal'', ''show'', ''print'', ''display'', ''tell'', ''repeat'', ''output''], gap,
        opt (spell ''me ''), words [''your'', ''the''], gap,
        alts [spell ''system prompt'', spell ''initial instructions?'', spell ''hidden instructions?'', spell ''prompt'',
          spell ''configuration'', Seq (spell ''hidden '') (some word)], Edge])
      ''system_prompt_extraction'' 75 85 ''Direct request for the system prompt'',
     pat ''quote_above_verbatim''
      (seqs [Edge, words [''quote'', ''repeat'', ''echo'', ''print''], gap, words [''everything'', ''all'', ''the text''], gap,
        words [''above'', ''before'', ''that came before''], Edge])
      ''system_prompt_extraction'' 65 70 ''Verbatim-echo request often used to extract system context'',
     pat ''what_were_you_told''
      (seqs [Edge, alts [seqs [spell ''what '', words [''were'', ''are''], spell '' you '',
            words [''told'', ''instructed'', ''configured'', ''programmed'']],
          Seq (spell ''what is your '') (words [''prompt'', ''configuration'', ''system message''])], Edge])
      ''system_prompt_extraction'' 55 60 ''Question form aimed at extracting system instructions'']"

definition data_exfiltration_patterns :: "detector list" where
  "data_exfiltration_patterns =
    [pat ''exfil_to_url''
      (seqs [Edge, words [''send'', ''post'', ''upload'', ''transmit'', ''exfiltrate'', ''forward'', ''leak'', ''publish''], Edge,
        upto_rx 80 (none_of ''.''), Edge, words [''to'', ''at'', ''via''], gap,
        words [''https?://'', ''webhook'', ''external'', ''endpoint'', ''server'', ''attacker'', ''my server'']])
      ''data_exfiltration'' 95 85 ''Imperative to send data to an external endpoint'',
     pat ''dump_secrets''
      (seqs [Edge, words [''dump'', ''leak'', ''expose'', ''reveal'', ''print all''], Edge, upto_rx 40 (none_of ''.''), Edge,
        alts [spell ''secrets?'', spell ''tokens?'',
          seqs [spell ''api'', opt (Letter False [Space_Class, Between 95 95, Between 45 45]), spell ''keys?''],
          spell ''credentials?'', spell ''passwords?'',
          seqs [spell ''env'', opt (spell ''ironment''), spell '' variables?'']], Edge])
      ''data_exfiltration'' 100 85 ''Imperative to dump secrets'',
     pat ''bypass_redaction''
      (seqs [Edge, words [''bypass'', ''skip'', ''disable'', ''turn off''], gap,
        words [''redaction'', ''pii filter'', ''data protection'', ''privacy filter''], Edge])
      ''data_exfiltration'' 85 80 ''Demand to disable data-protection controls'']"

text \<open>The zero-width characters are U+200B to U+200D; no text of the model holds one.\<close>

definition prompt_obfuscation_patterns :: "detector list" where
  "prompt_obfuscation_patterns =
    [pat ''base64_decode_hint''
      (seqs [Edge, words [''decode'', ''base64'', ''b64''], Edge, any dot, Edge, words [''then'', ''and''], gap,
        words [''execute'', ''follow'', ''run'', ''interpret'', ''act on''], Edge])
      ''prompt_obfuscation'' 70 65 ''Imperative to decode base64 then execute'',
     pat ''rot13_decode_hint''
      (seqs [Edge, spell ''rot'', gap0, spell ''13'', Edge, any dot, Edge, words [''then'', ''and''], gap,
        words [''execute'', ''follow'', ''run'', ''interpret''], Edge])
      ''prompt_obfuscation'' 60 60 ''Imperative to ROT-13 decode then execute'',
     pat ''zero_width_chars''
      (Rep 3 None False (Seq (Rep 1 (Some 1) False (Letter False [Between 8203 8205])) (upto_rx 50 dot)))
      ''prompt_obfuscation'' 50 50 ''Repeated zero-width characters (possible instruction smuggling)'',
     pat ''peer_coerce_do_as_i_say''
      (seqs [Edge, Or (spell ''do as I say'')
          (seqs [spell ''follow '', words [''my'', ''these''], gap, words [''instructions?'', ''orders?'', ''commands?'']]), Edge])
      ''peer_coercion'' 70 75 ''Peer instructing this agent to follow its directives directly'',
     pat ''peer_coerce_override_instructions''
      (seqs [Edge, words [''override'', ''disregard'', ''forget''], gap, words [''your'', ''the'', ''previous''], gap,
        words [''instructions?'', ''orders?'', ''directives?'', ''system prompt''], Edge])
      ''peer_coercion'' 75 80 (''Peer attempting to override the receiving agent'' @ [squote] @ ''s instructions''),
     pat ''peer_coerce_impersonate_user''
      (seqs [Edge, words [''respond'', ''reply'', ''act''], gap, opt (spell ''to me''), gap0, spell ''as '', opt (spell ''if ''),
        spell ''I '', words [''am'', ''were'', ''was''], gap, opt (spell ''the ''), spell ''user'', Edge])
      ''peer_coercion'' 70 75 ''Peer instructing the agent to treat it as the user'']"

definition action_verbs :: rx where
  "action_verbs = alts (map spell [''grant'', ''give'', ''provide'', ''share'', ''extend'', ''transfer'', ''deposit'',
       ''withdraw'', ''move'', ''send'', ''wire'', ''pay'', ''purchase'', ''buy'', ''sell'', ''order'', ''book'', ''schedule'',
       ''initiate'', ''dispatch'', ''redirect'', ''create'', ''add'', ''update'', ''change'', ''modify'', ''edit'', ''reset'',
       ''delete'', ''remove'', ''erase'', ''clear'', ''cancel'', ''unlock'', ''lock'', ''open'', ''close'', ''enable'',
       ''disable'', ''activate'', ''deactivate'']
     @ Seq (spell ''turn '') (words [''on'', ''off''])
     # map spell [''switch'', ''install'', ''download'', ''upload'', ''execute'', ''run'', ''launch'', ''start'', ''stop'',
       ''post'', ''publish'', ''email'', ''forward'', ''message'', ''call'', ''text'', ''use'', ''apply'', ''generate'',
       ''retrieve'', ''retrive'', ''fetch'', ''find'', ''search'', ''list'', ''get'', ''collect'', ''access'', ''export'',
       ''leave'', ''guide''])"

definition capital_verbs :: rx where
  "capital_verbs = words [''Grant'', ''Give'', ''Share'', ''Transfer'', ''Deposit'', ''Withdraw'', ''Move'', ''Send'', ''Pay'',
     ''Purchase'', ''Buy'', ''Sell'', ''Order'', ''Schedule'', ''Delete'', ''Remove'', ''Change'', ''Update'', ''Create'',
     ''Unlock'', ''Lock'', ''Disable'', ''Enable'', ''Download'', ''Upload'', ''Execute'', ''Run'', ''Post'', ''Email'',
     ''Forward'', ''Use'', ''Generate'', ''Retrieve'', ''Fetch'', ''Find'', ''List'', ''Get'', ''Access'']"

text \<open>\<open>spliced_capitalized_imperative\<close> is compiled without \<open>IGNORECASE\<close>.\<close>

definition action_injection_patterns :: "detector list" where
  "action_injection_patterns =
    [pat ''embedded_polite_directive''
      (seqs [one_of ([dquote, squote] @ ''{}[]''), upto_lazy 300 anything, Edge, words [''please'', ''kindly''], gap,
        action_verbs, Edge])
      ''action_injection'' 80 70 ''Polite actionable imperative embedded in structured content'',
     pat ''embedded_field_imperative''
      (seqs [one_of [dquote, squote], gap0, action_verbs, Edge, upto_lazy 120 (none_of [dquote, squote, newline]), Edge,
        alts [spell ''my'', spell ''all my'', spell (''the user'' @ [squote] @ ''?s?'')], gap, some word])
      ''action_injection'' 75 65 ''Imperative at a field-value boundary targeting user assets'',
     (pat ''spliced_capitalized_imperative''
      (seqs [one_of [dquote, squote], upto_lazy 200 (none_of [dquote, squote, newline]), one_of '':,!.'', space, capital_verbs,
        Edge, upto_lazy 120 (none_of [dquote, squote, newline]), Edge, words [''my'', ''the''], Edge])
      ''action_injection'' 75 65 ''Capitalized imperative spliced mid-sentence into quoted content'')\<lparr>dt_nocase := False\<rparr>,
     pat ''gather_then_send''
      (seqs [Edge, words [''retrieve'', ''retrive'', ''find'', ''get'', ''collect'', ''gather'', ''fetch'', ''extract'', ''list'',
          ''read'', ''access'', ''search'', ''check'', ''download'', ''export''], Edge, upto_lazy 160 anything, Edge,
        words [''and'', ''then''], Edge, upto_lazy 40 anything, Edge,
        words [''send'', ''email'', ''forward'', ''share'', ''post'', ''message'', ''transmit'', ''upload''], Edge,
        upto_lazy 120 anything, Edge, spell ''to'', Edge])
      ''action_injection'' 90 75 ''Gather-then-send instruction (data-stealing shape)'',
     pat ''send_details_to_recipient''
      (seqs [Edge, words [''send'', ''email'', ''forward'', ''share'', ''transmit'', ''message''], Edge,
        upto_lazy 120 (none_of [CHR ''.'', newline]), Edge,
        words [''information'', ''details?'', ''data'', ''summary'', ''list'', ''codes?'', ''keys?'', ''credentials?'', ''records?'',
          ''contents?'', ''messages?'', ''balances?'', ''reports?'', ''documents?'', ''history''], Edge,
        upto_lazy 80 (none_of [CHR ''.'', newline]), Edge, spell ''to'', gap, some (Letter True [Space_Class])])
      ''action_injection'' 90 75 ''Instruction to transmit user information to a recipient'']"

definition tool_poisoning_patterns :: "detector list" where
  "tool_poisoning_patterns =
    [pat ''pseudo_tag_directive''
      (seqs [spell ''<'', gap0, words [''important'', ''system'', ''admin'', ''hidden'', ''secret'', ''instructions?''], gap0,
        any (chr_rx (CHR ''!'')), gap0, spell ''>''])
      ''tool_poisoning'' 70 65 ''Pseudo-tag directive block (tool-poisoning marker)'',
     pat ''conceal_from_user''
      (seqs [Edge, alts [spell ''do not'', spell (''don'' @ [squote] @ ''?t''), spell ''never''], gap,
        words [''tell'', ''inform'', ''mention'', ''reveal'', ''show'', ''disclose'', ''alert'', ''notify''], Edge,
        upto_rx 40 (none_of [CHR ''.'', newline]), Edge, opt (spell ''the ''), spell ''user'', Edge])
      ''tool_poisoning'' 85 85 ''Instruction to conceal activity from the user'',
     pat ''secret_material_coaching''
      (seqs [Edge, words [''read'', ''open'', ''cat'', ''include'', ''fetch'', ''load'', ''pass'', ''send'', ''attach'', ''append'',
          ''copy''], Edge, upto_rx 60 (none_of [CHR ''.'', newline]),
        alts [spell ''~/.ssh'', spell ''id_rsa'', spell ''id_ed25519'', spell ''.aws/credentials'', Seq (spell ''.env'') Edge,
          seqs [spell ''api'', opt (Letter False [Between 95 95, Space_Class, Between 45 45]), spell ''keys?''],
          spell ''private keys?'', spell ''credentials? file'', spell ''secrets? file'']])
      ''tool_poisoning'' 95 75 ''Instruction to read or transmit secret material'']"

definition default_detector_patterns :: "detector list" where
  "default_detector_patterns = prompt_injection_patterns @ jailbreak_patterns @ role_confusion_patterns
     @ system_prompt_extraction_patterns @ data_exfiltration_patterns @ prompt_obfuscation_patterns
     @ action_injection_patterns @ tool_poisoning_patterns"

lemmas default_pattern_defs = default_detector_patterns_def prompt_injection_patterns_def jailbreak_patterns_def
  role_confusion_patterns_def system_prompt_extraction_patterns_def data_exfiltration_patterns_def
  prompt_obfuscation_patterns_def action_injection_patterns_def tool_poisoning_patterns_def


section \<open>The taxonomy is well formed\<close>

lemma spell_ok [simp]: "rx_ok (spell s)" "portable (spell s)"
  by (induction s rule: spell.induct) (auto simp: chr_rx_def gap_def some_def space_def opt_def Let_def)

declare spell.simps [simp del]

lemma seqs_ok [simp]: "rx_ok (seqs rs) = list_all rx_ok rs" "portable (seqs rs) = list_all portable rs"
  by (induction rs) auto

lemma alts_ok [simp]: "rx_ok (alts rs) = list_all rx_ok rs" "portable (alts rs) = list_all portable rs"
  by (induction rs rule: alts.induct) auto

lemma words_ok [simp]: "rx_ok (words ws)" "portable (words ws)"
  by (simp_all add: words_def list_all_iff)

lemma verbs_ok [simp]: "rx_ok action_verbs" "portable action_verbs" "rx_ok capital_verbs" "portable capital_verbs"
  by (simp_all add: action_verbs_def capital_verbs_def list_all_iff)

declare seqs.simps [simp del] alts.simps [simp del]

lemmas rx_builders = chr_rx_def one_of_def none_of_def dot_def anything_def space_def word_def opt_def some_def any_def
  upto_rx_def upto_lazy_def gap_def gap0_def pat_def

lemma helpful_solid: "solid (spell ''helpful'')"
  by (simp add: spell.simps chr_rx_def word_item_def code_def re_word_def is_word_char_def is_lower_char_def
      char_between_def)

text \<open>Every default detector passes its own checks, and all but one match wherever they match alone.\<close>

definition detector_portable :: "detector \<Rightarrow> bool" where
  "detector_portable d = (check_detector d = Inr d \<and> (portable (dt_rx d) \<or> dt_name d = ''override_directive''))"

lemma default_patterns_portable: "list_all detector_portable default_detector_patterns"
proof -
  have "list_all detector_portable prompt_injection_patterns"
    by (simp add: prompt_injection_patterns_def detector_portable_def check_detector_def rx_builders)
  moreover have "list_all detector_portable jailbreak_patterns"
    by (simp add: jailbreak_patterns_def detector_portable_def check_detector_def rx_builders)
  moreover have "list_all detector_portable role_confusion_patterns"
    by (simp add: role_confusion_patterns_def detector_portable_def check_detector_def rx_builders helpful_solid)
  moreover have "list_all detector_portable system_prompt_extraction_patterns"
    by (simp add: system_prompt_extraction_patterns_def detector_portable_def check_detector_def rx_builders)
  moreover have "list_all detector_portable data_exfiltration_patterns"
    by (simp add: data_exfiltration_patterns_def detector_portable_def check_detector_def rx_builders)
  moreover have "list_all detector_portable prompt_obfuscation_patterns"
    by (simp add: prompt_obfuscation_patterns_def detector_portable_def check_detector_def rx_builders)
  moreover have "list_all detector_portable action_injection_patterns"
    by (simp add: action_injection_patterns_def detector_portable_def check_detector_def rx_builders)
  moreover have "list_all detector_portable tool_poisoning_patterns"
    by (simp add: tool_poisoning_patterns_def detector_portable_def check_detector_def rx_builders)
  ultimately show ?thesis by (simp add: default_detector_patterns_def)
qed

end
