(* ===== verification/Profile.thy ===== *)
theory Profile
  imports Topology
begin

text \<open>
  The agent profile (core/profile.py): its enumerations, its record, the derived properties and
  its dictionary form. The generated identifier and the clock are arguments.
\<close>

section \<open>Data\<close>

datatype agent_type = CONVERSATIONAL | TOOL_USING | AUTONOMOUS | MULTI_AGENT | EMBODIED

datatype deployment_context = CLOUD | EDGE | HYBRID | MULTI_AGENT_DEPLOYMENT | FEDERATED | PHYSICAL

datatype risk_tier = LOW | MEDIUM | HIGH | CRITICAL

fun agent_type_value :: "agent_type \<Rightarrow> string" where
  "agent_type_value CONVERSATIONAL = ''conversational''"
| "agent_type_value TOOL_USING = ''tool_using''"
| "agent_type_value AUTONOMOUS = ''autonomous''"
| "agent_type_value MULTI_AGENT = ''multi_agent''"
| "agent_type_value EMBODIED = ''embodied''"

fun deployment_value :: "deployment_context \<Rightarrow> string" where
  "deployment_value CLOUD = ''cloud''"
| "deployment_value EDGE = ''edge''"
| "deployment_value HYBRID = ''hybrid''"
| "deployment_value MULTI_AGENT_DEPLOYMENT = ''multi_agent''"
| "deployment_value FEDERATED = ''federated''"
| "deployment_value PHYSICAL = ''physical''"

fun risk_tier_value :: "risk_tier \<Rightarrow> string" where
  "risk_tier_value LOW = ''low''"
| "risk_tier_value MEDIUM = ''medium''"
| "risk_tier_value HIGH = ''high''"
| "risk_tier_value CRITICAL = ''critical''"

text \<open>The conversions \<open>AgentType(value)\<close>, \<open>DeploymentContext(value)\<close>, \<open>RiskTier(value)\<close>.\<close>

definition agent_type_of :: "string \<Rightarrow> decode_error + agent_type" where
  "agent_type_of = enum_of agent_type_value
     [CONVERSATIONAL, TOOL_USING, AUTONOMOUS, MULTI_AGENT, EMBODIED]"

definition deployment_of :: "string \<Rightarrow> decode_error + deployment_context" where
  "deployment_of = enum_of deployment_value
     [CLOUD, EDGE, HYBRID, MULTI_AGENT_DEPLOYMENT, FEDERATED, PHYSICAL]"

definition risk_tier_of :: "string \<Rightarrow> decode_error + risk_tier" where
  "risk_tier_of = enum_of risk_tier_value [LOW, MEDIUM, HIGH, CRITICAL]"

record agent_profile =
  ap_agent_type :: agent_type
  ap_capabilities :: "string list"
  ap_deployment :: deployment_context
  ap_risk_tier :: risk_tier
  ap_agent_id :: string
  ap_name :: "string option"
  ap_framework :: "string option"
  ap_model_provider :: "string option"
  ap_model_id :: "string option"
  ap_metadata :: args
  ap_created_at :: string

section \<open>Derived properties\<close>

definition has_capability :: "agent_profile \<Rightarrow> string \<Rightarrow> bool" where
  "has_capability p c = (c \<in> set (ap_capabilities p))"

definition is_autonomous :: "agent_profile \<Rightarrow> bool" where
  "is_autonomous p = (ap_agent_type p \<in> {AUTONOMOUS, MULTI_AGENT, EMBODIED})"

definition is_embodied :: "agent_profile \<Rightarrow> bool" where
  "is_embodied p = (ap_agent_type p = EMBODIED \<or> ap_deployment p = PHYSICAL
     \<or> has_capability p ''physical_actuation'')"

definition input_channels :: "agent_profile \<Rightarrow> string list" where
  "input_channels p = ''direct_prompt'' # concat (map (\<lambda>(c, ch). if has_capability p c then [ch] else [])
     [(''tool_use'', ''tool_responses''), (''memory_access'', ''memory_reads''),
      (''multi_agent_comm'', ''peer_messages''), (''web_access'', ''web_content''),
      (''code_execution'', ''code_outputs''), (''physical_actuation'', ''sensor_inputs'')])"

lemma input_channels_distinct: "distinct (input_channels p)"
  by (simp add: input_channels_def)

section \<open>Dictionary form\<close>

definition profile_to_dict :: "agent_profile \<Rightarrow> args" where
  "profile_to_dict p =
     [(''agent_id'', JStr (ap_agent_id p)), (''name'', json_opt JStr (ap_name p)),
      (''agent_type'', JStr (agent_type_value (ap_agent_type p))),
      (''capabilities'', JArr (map JStr (ap_capabilities p))),
      (''deployment_context'', JStr (deployment_value (ap_deployment p))),
      (''risk_tier'', JStr (risk_tier_value (ap_risk_tier p))),
      (''framework'', json_opt JStr (ap_framework p)),
      (''model_provider'', json_opt JStr (ap_model_provider p)),
      (''model_id'', json_opt JStr (ap_model_id p)), (''metadata'', JObj (ap_metadata p)),
      (''created_at'', JStr (ap_created_at p))]"

text \<open>\<open>default\<close>, with the fresh identifier and the time of creation.\<close>

definition default_profile :: "string \<Rightarrow> string \<Rightarrow> string \<Rightarrow> agent_profile" where
  "default_profile uuid now name =
     \<lparr>ap_agent_type = TOOL_USING, ap_capabilities = [''tool_use''], ap_deployment = CLOUD,
      ap_risk_tier = MEDIUM, ap_agent_id = uuid, ap_name = Some name, ap_framework = None,
      ap_model_provider = None, ap_model_id = None, ap_metadata = [], ap_created_at = now\<rparr>"

text \<open>
  \<open>from_dict\<close> reads every field but \<open>created_at\<close>, which takes its default, the time of the call.
\<close>

definition profile_from_dict :: "string \<Rightarrow> string \<Rightarrow> args \<Rightarrow> decode_error + agent_profile" where
  "profile_from_dict uuid now d =
     bindS (as_text (field_or ''agent_id'' (JStr uuid) d)) (\<lambda>aid.
     bindS (as_opt_text (field_or ''name'' JNull d)) (\<lambda>name.
     bindS (bindS (text_field ''agent_type'' d) agent_type_of) (\<lambda>ty.
     bindS (bindS (field ''capabilities'' d) texts) (\<lambda>caps.
     bindS (bindS (text_field ''deployment_context'' d) deployment_of) (\<lambda>dep.
     bindS (bindS (text_field ''risk_tier'' d) risk_tier_of) (\<lambda>tier.
     bindS (as_opt_text (field_or ''framework'' JNull d)) (\<lambda>fw.
     bindS (as_opt_text (field_or ''model_provider'' JNull d)) (\<lambda>prov.
     bindS (as_opt_text (field_or ''model_id'' JNull d)) (\<lambda>mid.
     bindS (as_object (field_or ''metadata'' (JObj []) d)) (\<lambda>meta.
       Inr \<lparr>ap_agent_type = ty, ap_capabilities = caps, ap_deployment = dep,
            ap_risk_tier = tier, ap_agent_id = aid, ap_name = name, ap_framework = fw,
            ap_model_provider = prov, ap_model_id = mid, ap_metadata = meta,
            ap_created_at = now\<rparr>))))))))))"

lemma agent_type_of_value [simp]: "agent_type_of (agent_type_value t) = Inr t"
  by (cases t) (simp_all add: agent_type_of_def enum_of_def)

lemma deployment_of_value [simp]: "deployment_of (deployment_value t) = Inr t"
  by (cases t) (simp_all add: deployment_of_def enum_of_def)

lemma risk_tier_of_value [simp]: "risk_tier_of (risk_tier_value t) = Inr t"
  by (cases t) (simp_all add: risk_tier_of_def enum_of_def)

text \<open>
  A profile read back from its dictionary is the profile, except for its creation time, which
  becomes the time of the reading: the round trip is exact only up to \<open>created_at\<close>.
\<close>

lemma profile_roundtrip:
  "profile_from_dict uuid now (profile_to_dict p) = Inr (p\<lparr>ap_created_at := now\<rparr>)"
  by (simp add: profile_from_dict_def profile_to_dict_def field_or_def field_def text_field_def)

end
