(* ===== verification/Governance.thy ===== *)
theory Governance
  imports Evaluator Profile Tool_Names
begin

text \<open>
  The governance layer (layers/governance.py): policy rules and their failure mode, the built-in
  rules and policy sets, and the layer with its decision, its score, its escalation callback and
  its audit log. A rule's condition is a predicate that may raise; the callback may raise and
  change the world \<open>'w\<close>. The clock is an argument.
\<close>

section \<open>Rules\<close>

datatype policy_decision = ALLOW | DENY | REQUIRE_APPROVAL | CONDITIONAL

fun decision_value :: "policy_decision \<Rightarrow> string" where
  "decision_value ALLOW = ''allow''"
| "decision_value DENY = ''deny''"
| "decision_value REQUIRE_APPROVAL = ''require_approval''"
| "decision_value CONDITIONAL = ''conditional''"

record policy_rule =
  pr_rule_id :: string
  pr_name :: string
  pr_description :: string
  pr_condition :: "agent_profile \<Rightarrow> json \<Rightarrow> args \<Rightarrow> exn + bool"
  pr_decision :: policy_decision
  pr_severity :: rat

record policy_evaluation =
  pe_rule_id :: string
  pe_triggered :: bool
  pe_decision :: policy_decision
  pe_reason :: "string option"

definition rule_evaluate :: "policy_rule \<Rightarrow> agent_profile \<Rightarrow> json \<Rightarrow> args \<Rightarrow> policy_evaluation" where
  "rule_evaluate r profile action ctx =
     (case pr_condition r profile action ctx of
        Inl e \<Rightarrow> \<lparr>pe_rule_id = pr_rule_id r, pe_triggered = True, pe_decision = REQUIRE_APPROVAL,
                  pe_reason = Some (''Rule evaluation error: '' @ exn_class e)\<rparr>
      | Inr t \<Rightarrow> \<lparr>pe_rule_id = pr_rule_id r, pe_triggered = t,
                  pe_decision = (if t then pr_decision r else ALLOW),
                  pe_reason = (if t then Some (pr_description r) else None)\<rparr>)"

definition evaluation_to_dict :: "policy_evaluation \<Rightarrow> json" where
  "evaluation_to_dict e = JObj
     [(''rule_id'', JStr (pe_rule_id e)), (''triggered'', JBool (pe_triggered e)),
      (''decision'', JStr (decision_value (pe_decision e))),
      (''reason'', json_opt JStr (pe_reason e))]"

record audit_entry =
  ae_entry_id :: string
  ae_agent_id :: string
  ae_timestamp :: string
  ae_action :: string
  ae_evaluations :: "policy_evaluation list"
  ae_decision :: string
  ae_content_hash :: string

definition audit_to_dict :: "audit_entry \<Rightarrow> json" where
  "audit_to_dict e = JObj
     [(''entry_id'', JStr (ae_entry_id e)), (''agent_id'', JStr (ae_agent_id e)),
      (''timestamp'', JStr (ae_timestamp e)), (''action'', JStr (ae_action e)),
      (''policy_evaluations'', JArr (map evaluation_to_dict (ae_evaluations e))),
      (''decision'', JStr (ae_decision e)), (''content_hash'', JStr (ae_content_hash e))]"

section \<open>The built-in rules\<close>

definition default_sensitive_tools :: json where
  "default_sensitive_tools = names [''database_write'', ''file_delete'', ''payment_execute'', ''admin_api'']"

definition rule_high_risk_tool_access :: "agent_profile \<Rightarrow> json \<Rightarrow> args \<Rightarrow> exn + bool" where
  "rule_high_risk_tool_access profile action ctx =
     (let sensitive = or_json (field_or ''sensitive_tools'' JNull ctx) default_sensitive_tools
      in bindS (get_or action ''tool'' (JStr [])) (\<lambda>tool.
           if ap_risk_tier profile \<in> {HIGH, CRITICAL} then tool_name_matches tool sensitive
           else Inr False))"

definition default_financial_threshold :: int where
  "default_financial_threshold = 1000"

definition rule_code_execution_boundary :: "agent_profile \<Rightarrow> json \<Rightarrow> args \<Rightarrow> exn + bool" where
  "rule_code_execution_boundary profile action ctx =
     (if truthy (field_or ''sandbox'' (JBool False) ctx) then Inr False
      else bindS (get_or action ''type'' JNull) (\<lambda>type.
        if type = JStr ''code_execution'' then Inr True
        else bindS (get_or action ''categories'' JNull) (\<lambda>categories.
          bindS (in_json ''runs_inline_code'' (or_json categories (JArr []))) (\<lambda>inline.
            if inline then Inr True
            else bindS (get_or action ''tool'' (JStr [])) (\<lambda>tool.
              runs_code tool (field_or ''code_execution_tools'' JNull ctx))))))"

definition rule_financial_threshold :: "agent_profile \<Rightarrow> json \<Rightarrow> args \<Rightarrow> exn + bool" where
  "rule_financial_threshold profile action ctx =
     bindS (get_or action ''type'' JNull) (\<lambda>type.
     bindS (if type = JStr ''financial'' then Inr True
            else bindS (get_or action ''tool'' (JStr []))
                   (\<lambda>tool. moves_money tool (field_or ''financial_tools'' JNull ctx))) (\<lambda>payment.
     bindS (get_or action ''arguments'' JNull) (\<lambda>arguments.
       let amount = amount_of arguments;
           threshold = field_or ''financial_threshold'' (JInt default_financial_threshold) ctx
       in if payment \<and> amount \<noteq> None
          then bindS (number threshold) (\<lambda>t. Inr (exceeds (the amount) t))
          else Inr False)))"

text \<open>\<open>len(members)\<close>.\<close>

fun len_json :: "json \<Rightarrow> exn + nat" where
  "len_json (JArr xs) = Inr (length xs)"
| "len_json (JObj d) = Inr (length d)"
| "len_json (JStr s) = Inr (length s)"
| "len_json _ = Inl (TypeError ''object has no len()'')"

definition rule_multi_agent_escalation :: "agent_profile \<Rightarrow> json \<Rightarrow> args \<Rightarrow> exn + bool" where
  "rule_multi_agent_escalation profile action ctx =
     bindS (get_or action ''type'' JNull) (\<lambda>type.
     bindS (if type = JStr ''multi_agent_coordination''
            then bindS (get_or action ''agent_count'' (JInt 0)) (\<lambda>n. bindS (number n) (\<lambda>x. Inr (3 < x)))
            else Inr False) (\<lambda>legacy.
       if legacy then Inr True
       else bindS (get_or (or_json (field_or ''topology_context'' JNull ctx) (JObj [])) ''topology'' JNull) (\<lambda>topology.
         bindS (get_or (or_json topology (JObj [])) ''members'' JNull) (\<lambda>members.
         bindS (len_json (or_json members (JArr []))) (\<lambda>n. Inr (3 < n))))))"

text \<open>\<open>any\<close>, stopping at the first tag list that has the tag.\<close>

fun any_tagged :: "string \<Rightarrow> json list \<Rightarrow> exn + bool" where
  "any_tagged tag [] = Inr False"
| "any_tagged tag (tags # rest) =
     bindS (in_json tag (or_json tags (JArr []))) (\<lambda>b. if b then Inr True else any_tagged tag rest)"

definition rule_sensitive_data_egress :: "agent_profile \<Rightarrow> json \<Rightarrow> args \<Rightarrow> exn + bool" where
  "rule_sensitive_data_egress profile action ctx =
     bindS (get_or action ''categories'' JNull) (\<lambda>categories.
     bindS (in_json ''sends_external'' (or_json categories (JArr []))) (\<lambda>sends.
       if \<not> sends then Inr False
       else bindS (iter_json (or_json (field_or ''tool_call_categories'' JNull ctx) (JArr [])))
              (any_tagged ''reads_sensitive'')))"

definition rule_all_tool_access :: "agent_profile \<Rightarrow> json \<Rightarrow> args \<Rightarrow> exn + bool" where
  "rule_all_tool_access profile action ctx =
     bindS (get_or action ''type'' JNull) (\<lambda>type. Inr (type = JStr ''tool_call''))"

definition policy_rule_of ::
  "string \<Rightarrow> string \<Rightarrow> string \<Rightarrow> (agent_profile \<Rightarrow> json \<Rightarrow> args \<Rightarrow> exn + bool) \<Rightarrow> rat \<Rightarrow> policy_rule" where
  "policy_rule_of rid name desc cond sev = \<lparr>pr_rule_id = rid, pr_name = name,
     pr_description = desc, pr_condition = cond, pr_decision = REQUIRE_APPROVAL, pr_severity = sev\<rparr>"

definition enterprise_rules :: "policy_rule list" where
  "enterprise_rules =
     [policy_rule_of ''GOV-001'' ''High-Risk Tool Access''
        ''High/critical risk agents require approval for sensitive tool use''
        rule_high_risk_tool_access (70 / 100),
      policy_rule_of ''GOV-002'' ''Code Execution Boundary''
        ''Code execution outside sandbox requires approval''
        rule_code_execution_boundary (60 / 100),
      policy_rule_of ''GOV-003'' ''Financial Threshold''
        ''Financial transactions above threshold require approval''
        rule_financial_threshold (80 / 100),
      policy_rule_of ''GOV-004'' ''Multi-Agent Escalation''
        ''Multi-agent coordination with >3 agents requires human oversight''
        rule_multi_agent_escalation (50 / 100),
      policy_rule_of ''GOV-005'' ''Sensitive Data Egress''
        ''External send after a sensitive read in-session requires approval''
        rule_sensitive_data_egress (80 / 100)]"

definition strict_rules :: "policy_rule list" where
  "strict_rules = [policy_rule_of ''GOV-STRICT-001'' ''All Tool Access''
     ''All tool access requires approval in strict mode'' rule_all_tool_access (50 / 100)]"

text \<open>\<open>DEFAULT_POLICIES.get(policy_set, [])\<close>.\<close>

definition default_policies :: "string \<Rightarrow> policy_rule list" where
  "default_policies name = (if name = ''enterprise-default'' then enterprise_rules
     else if name = ''strict'' then strict_rules else [])"

section \<open>The layer\<close>

type_synonym 'w escalation =
  "agent_profile \<Rightarrow> json \<Rightarrow> policy_evaluation \<Rightarrow> 'w \<Rightarrow> exn option \<times> 'w"

record 'w governance =
  gl_policy_set :: string
  gl_rules :: "policy_rule list"
  gl_enable_audit :: bool
  gl_callback :: "'w escalation option"
  gl_sensitive_tools :: json
  gl_defaults :: args
  gl_audit_log :: "audit_entry list"

text \<open>\<open>GovernanceLayer(...)\<close>.\<close>

definition make_governance ::
  "string \<Rightarrow> policy_rule list option \<Rightarrow> bool \<Rightarrow> 'w escalation option \<Rightarrow> string list option \<Rightarrow> bool
     \<Rightarrow> string list option \<Rightarrow> string list option \<Rightarrow> rat \<Rightarrow> 'w governance" where
  "make_governance policy_set custom audit callback sensitive sandboxed code_tools money_tools threshold =
     \<lparr>gl_policy_set = policy_set,
      gl_rules = default_policies policy_set @ (case custom of None \<Rightarrow> [] | Some rs \<Rightarrow> rs),
      gl_enable_audit = audit, gl_callback = callback,
      gl_sensitive_tools = (case sensitive of None \<Rightarrow> default_sensitive_tools | Some xs \<Rightarrow> names xs),
      gl_defaults = [(''sandbox'', JBool sandboxed),
        (''code_execution_tools'', json_opt names code_tools),
        (''financial_tools'', json_opt names money_tools),
        (''financial_threshold'', JFloat threshold)],
      gl_audit_log = []\<rparr>"

definition setdefault :: "string \<Rightarrow> json \<Rightarrow> args \<Rightarrow> args" where
  "setdefault k v d = (if k \<in> fst ` set d then d else d @ [(k, v)])"

definition layer_context :: "'w governance \<Rightarrow> args \<Rightarrow> args" where
  "layer_context g context = foldl (\<lambda>d (k, v). setdefault k v d)
     (setdefault ''sensitive_tools'' (gl_sensitive_tools g) context) (gl_defaults g)"

text \<open>The escalation calls, in order; one that raises ends the evaluation.\<close>

fun escalate_all ::
  "'w escalation \<Rightarrow> agent_profile \<Rightarrow> json \<Rightarrow> policy_evaluation list \<Rightarrow> 'w \<Rightarrow> exn option \<times> 'w" where
  "escalate_all cb profile action [] w = (None, w)"
| "escalate_all cb profile action (e # es) w =
     (case cb profile action e w of
        (Some x, w1) \<Rightarrow> (Some x, w1)
      | (None, w1) \<Rightarrow> escalate_all cb profile action es w1)"

definition denials :: "policy_evaluation list \<Rightarrow> policy_evaluation list" where
  "denials es = filter (\<lambda>e. pe_triggered e \<and> pe_decision e = DENY) es"

definition approvals :: "policy_evaluation list \<Rightarrow> policy_evaluation list" where
  "approvals es = filter (\<lambda>e. pe_triggered e \<and> pe_decision e = REQUIRE_APPROVAL) es"

definition final_action :: "policy_evaluation list \<Rightarrow> string" where
  "final_action es =
     (if denials es \<noteq> [] then ''block''
      else if approvals es \<noteq> [] then ''escalate''
      else if filter pe_triggered es \<noteq> [] then ''alert''
      else ''pass'')"

definition violation_impact :: "policy_rule list \<Rightarrow> policy_evaluation list \<Rightarrow> rat" where
  "violation_impact rules es =
     sum_list (concat (map (\<lambda>r. map (\<lambda>e. pr_severity r)
       (filter (\<lambda>e. pe_rule_id e = pr_rule_id r \<and> pe_triggered e) es)) rules))"

definition max_impact :: "policy_rule list \<Rightarrow> rat" where
  "max_impact rules = sum_list (map pr_severity rules)"

definition governance_score :: "policy_rule list \<Rightarrow> policy_evaluation list \<Rightarrow> rat" where
  "governance_score rules es = round_to 4
     (if rules = [] then 1
      else max 0 (1 - (if 0 < max_impact rules
                       then violation_impact rules es / max_impact rules else 0)))"

definition audit_hash :: "'k lib \<Rightarrow> string \<Rightarrow> json \<Rightarrow> policy_evaluation list \<Rightarrow> string \<Rightarrow> string" where
  "audit_hash L agent_id action es decision = l_sha256 L (dumps '', '' '': '' (l_float L)
     (sort_keys (JObj [(''agent_id'', JStr agent_id), (''action'', action),
        (''evaluations'', JArr (map evaluation_to_dict es)), (''decision'', JStr decision)])))"

definition write_audit ::
  "'k lib \<Rightarrow> string \<Rightarrow> 'w governance \<Rightarrow> agent_profile \<Rightarrow> json \<Rightarrow> policy_evaluation list \<Rightarrow> string
     \<Rightarrow> 'w governance" where
  "write_audit L now g profile action es decision =
     g\<lparr>gl_audit_log := gl_audit_log g @
       [\<lparr>ae_entry_id = ''audit-'' @ nat_text (length (gl_audit_log g) + 1),
         ae_agent_id = ap_agent_id profile, ae_timestamp = now,
         ae_action = dumps '', '' '': '' (l_float L) action, ae_evaluations = es,
         ae_decision = decision,
         ae_content_hash = audit_hash L (ap_agent_id profile) action es decision\<rparr>]\<rparr>"

definition governance_result :: "'w governance \<Rightarrow> policy_evaluation list \<Rightarrow> layer_result" where
  "governance_result g es =
     (let score = governance_score (gl_rules g) es
      in \<lparr>lr_name = ''governance'', lr_score = score,
          lr_passed = (final_action es \<in> {''alert'', ''pass''}), lr_action = final_action es,
          lr_details =
            [(''assurance_score'', JFloat score), (''policy_set'', JStr (gl_policy_set g)),
             (''rules_evaluated'', JInt (int (length (gl_rules g)))),
             (''rules_triggered'', JInt (int (length (filter pe_triggered es)))),
             (''evaluations'', JArr (map evaluation_to_dict es)),
             (''audit_enabled'', JBool (gl_enable_audit g))],
          lr_latency = 0\<rparr>)"

definition governance_evaluate ::
  "'k lib \<Rightarrow> string \<Rightarrow> agent_profile \<Rightarrow> args \<Rightarrow> 'w governance \<Rightarrow> 'w
     \<Rightarrow> (exn + layer_result) \<times> 'w governance \<times> 'w" where
  "governance_evaluate L now profile context g w =
     (let ctx = layer_context g context;
          action = field_or ''action'' (JObj []) ctx;
          es = map (\<lambda>r. rule_evaluate r profile action ctx) (gl_rules g);
          (raised, w1) = (case gl_callback g of
             None \<Rightarrow> (None, w)
           | Some cb \<Rightarrow> if final_action es = ''escalate''
                        then escalate_all cb profile action (approvals es) w else (None, w))
      in case raised of
           Some x \<Rightarrow> (Inl x, g, w1)
         | None \<Rightarrow>
             (Inr (governance_result g es),
              if gl_enable_audit g then write_audit L now g profile action es (final_action es) else g,
              w1))"

definition add_rule :: "policy_rule \<Rightarrow> 'w governance \<Rightarrow> 'w governance" where
  "add_rule r g = g\<lparr>gl_rules := gl_rules g @ [r]\<rparr>"

definition emergency_stop :: "string \<Rightarrow> string \<Rightarrow> string \<Rightarrow> args" where
  "emergency_stop now agent_id reason =
     [(''action'', JStr ''emergency_stop''), (''agent_id'', JStr agent_id),
      (''reason'', JStr reason), (''timestamp'', JStr now),
      (''requires'', JStr ''manual_review_before_restart'')]"

end
