(* ===== verification/Adversarial.thy ===== *)
theory Adversarial
  imports Detector_Patterns Governance
begin

text \<open>
  The adversarial layer (\<open>layers/adversarial.py\<close>): threat assessments, the scan of a text by a list of
  detectors, the scan of every channel of a context, the detectors of tool sequences and of tool
  arguments, the attack surface, the coherence score and the verdict. \<open>str\<close> and \<open>repr\<close> of a value
  that is no string are arguments; a custom detector is a function of the profile and the context
  that may raise.
\<close>

section \<open>Threats\<close>

record threat =
  ta_channel :: string
  ta_type :: string
  ta_severity :: rat
  ta_confidence :: rat
  ta_description :: string
  ta_indicators :: "string list"

definition threat_to_dict :: "threat \<Rightarrow> json" where
  "threat_to_dict t = JObj
     [(''channel'', JStr (ta_channel t)), (''threat_type'', JStr (ta_type t)), (''severity'', JFloat (ta_severity t)),
      (''confidence'', JFloat (ta_confidence t)), (''description'', JStr (ta_description t)),
      (''indicators'', JArr (map JStr (ta_indicators t)))]"

section \<open>Scanning a text\<close>

definition finds :: "string \<Rightarrow> detector \<Rightarrow> bool" where
  "finds text d = (detector_search d text \<noteq> None)"

text \<open>\<open>matches_by_type.setdefault(pattern.threat_type, []).append(pattern)\<close>, over the patterns.\<close>

definition add_match :: "detector \<Rightarrow> (string, detector list) dict \<Rightarrow> (string, detector list) dict" where
  "add_match d m = dict_set (dt_type d) ((case map_of m (dt_type d) of None \<Rightarrow> [] | Some ds \<Rightarrow> ds) @ [d]) m"

fun matches_by_type :: "string \<Rightarrow> detector list \<Rightarrow> (string, detector list) dict \<Rightarrow> (string, detector list) dict" where
  "matches_by_type text [] m = m"
| "matches_by_type text (d # ds) m = matches_by_type text ds (if finds text d then add_match d m else m)"

text \<open>\<open>max\<close> with a key keeps the first of the greatest.\<close>

fun top_detector :: "detector \<Rightarrow> detector list \<Rightarrow> detector" where
  "top_detector best [] = best"
| "top_detector best (d # ds) =
     top_detector (if dt_severity best * dt_confidence best < dt_severity d * dt_confidence d then d else best) ds"

definition aggregate :: "string \<Rightarrow> string \<Rightarrow> detector list \<Rightarrow> threat" where
  "aggregate channel type hits =
     (let description = dt_description (top_detector (hd hits) (tl hits)) in
      \<lparr>ta_channel = channel, ta_type = type, ta_severity = Max (set (map dt_severity hits)),
       ta_confidence = Max (set (map dt_confidence hits)),
       ta_description = (if description \<noteq> [] then description
         else map (\<lambda>c. if c = CHR ''_'' then CHR '' '' else c) type @ '' pattern matched''),
       ta_indicators = map dt_name hits\<rparr>)"

definition scan_text :: "detector list \<Rightarrow> string \<Rightarrow> string \<Rightarrow> threat list" where
  "scan_text ds channel text = map (\<lambda>(type, hits). aggregate channel type hits) (matches_by_type text ds [])"

text \<open>\<open>if isinstance(x, str) and x: scan\<close>.\<close>

definition scan_value :: "detector list \<Rightarrow> string \<Rightarrow> json \<Rightarrow> threat list" where
  "scan_value ds channel j = (case j of JStr s \<Rightarrow> if s = [] then [] else scan_text ds channel s | _ \<Rightarrow> [])"

section \<open>The channels of a context\<close>

text \<open>\<open>d.get(a) or d.get(b) or d.get(c)\<close>, and the elements of \<open>d.get(k, []) or []\<close>.\<close>

fun first_of :: "string list \<Rightarrow> args \<Rightarrow> json" where
  "first_of [] d = JNull"
| "first_of [k] d = field_or k JNull d"
| "first_of (k # ks) d = or_json (field_or k JNull d) (first_of ks d)"

definition listed :: "json \<Rightarrow> exn + json list" where
  "listed j = iter_json (or_json j (JArr []))"

definition each :: "(json \<Rightarrow> exn + threat list) \<Rightarrow> json \<Rightarrow> exn + threat list" where
  "each f j = bindS (listed j) (\<lambda>xs. bindS (traverse f xs) (\<lambda>tss. Inr (concat tss)))"

definition scan_input :: "detector list \<Rightarrow> args \<Rightarrow> threat list" where
  "scan_input ds ctx = scan_value ds ''direct_prompt'' (field_or ''input'' (JStr []) ctx)"

definition scan_reasoning :: "detector list \<Rightarrow> json \<Rightarrow> threat list" where
  "scan_reasoning ds step = (case step of
       JStr s \<Rightarrow> scan_value ds ''reasoning'' step
     | JObj d \<Rightarrow> scan_value ds ''reasoning'' (first_of [''content'', ''text'', ''reasoning''] d)
     | _ \<Rightarrow> [])"

definition scan_entry :: "detector list \<Rightarrow> string \<Rightarrow> string list \<Rightarrow> json \<Rightarrow> threat list" where
  "scan_entry ds channel ks entry = (case entry of JObj d \<Rightarrow> scan_value ds channel (first_of ks d) | _ \<Rightarrow> [])"

definition plain_text :: "(json \<Rightarrow> string) \<Rightarrow> json \<Rightarrow> string" where
  "plain_text str j = (case j of JStr s \<Rightarrow> s | _ \<Rightarrow> str j)"

definition tool_error :: "(json \<Rightarrow> string) \<Rightarrow> json \<Rightarrow> threat" where
  "tool_error str e = \<lparr>ta_channel = ''tool_responses'', ta_type = ''tool_manipulation'', ta_severity = 30 / 100,
     ta_confidence = 40 / 100, ta_description = ''Tool returned error - verify tool integrity'',
     ta_indicators = [plain_text str e]\<rparr>"

definition scan_output :: "(json \<Rightarrow> string) \<Rightarrow> detector list \<Rightarrow> json \<Rightarrow> threat list" where
  "scan_output str ds output = (case output of
       JObj d \<Rightarrow> (if truthy (field_or ''error'' JNull d) then [tool_error str (field_or ''error'' JNull d)] else [])
         @ scan_value ds ''tool_responses'' (first_of [''content'', ''result''] d)
     | _ \<Rightarrow> [])"

fun schema_descriptions :: "json \<Rightarrow> string list" where
  "schema_descriptions (JObj d) =
     (case field_or ''description'' JNull d of JStr s \<Rightarrow> if s = [] then [] else [s] | _ \<Rightarrow> [])
     @ concat (map (\<lambda>kv. schema_descriptions (snd kv)) d)"
| "schema_descriptions (JArr xs) = concat (map schema_descriptions xs)"
| "schema_descriptions _ = []"

definition definition_texts :: "args \<Rightarrow> string list" where
  "definition_texts d =
     (case field_or ''description'' JNull d of JStr s \<Rightarrow> if s = [] then [] else [s] | _ \<Rightarrow> [])
     @ schema_descriptions (first_of [''input_schema'', ''parameters''] d)"

definition scan_definition :: "detector list \<Rightarrow> json \<Rightarrow> threat list" where
  "scan_definition ds j = (case j of
       JObj d \<Rightarrow> concat (map (scan_text ds ''tool_definitions'') (definition_texts d)) | _ \<Rightarrow> [])"

section \<open>Declared members\<close>

text \<open>Values as members of a Python set: numbers are equal by value, lists and dictionaries have no hash.\<close>

fun number_value :: "json \<Rightarrow> rat option" where
  "number_value (JBool b) = Some (if b then 1 else 0)"
| "number_value (JInt i) = Some (of_int i)"
| "number_value (JFloat r) = Some r"
| "number_value _ = None"

fun unhashable :: "json \<Rightarrow> bool" where
  "unhashable (JArr _) = True"
| "unhashable (JObj _) = True"
| "unhashable _ = False"

definition same_key :: "json \<Rightarrow> json \<Rightarrow> bool" where
  "same_key a b = (a = b \<or> number_value a \<noteq> None \<and> number_value a = number_value b)"

definition member_id :: "json \<Rightarrow> exn + json" where
  "member_id m = bindS (get_or m ''agent_id'' JNull) (\<lambda>i.
     if unhashable i then Inl (TypeError ''unhashable type'') else Inr i)"

definition declared_members :: "json \<Rightarrow> exn + json list" where
  "declared_members topology = bindS (get_or topology ''members'' (JArr [])) (\<lambda>ms. bindS (iter_json ms) (traverse member_id))"

definition undeclared :: "json list \<Rightarrow> json \<Rightarrow> exn + bool" where
  "undeclared declared sender =
     (if declared = [] \<or> \<not> truthy sender then Inr False
      else if unhashable sender then Inl (TypeError ''unhashable type'')
      else Inr (\<not> list_ex (same_key sender) declared))"

definition authority_threat :: "(json \<Rightarrow> string) \<Rightarrow> (json \<Rightarrow> string) \<Rightarrow> string \<Rightarrow> string \<Rightarrow> string \<Rightarrow> json \<Rightarrow> threat" where
  "authority_threat str repr channel what indicator sender =
     \<lparr>ta_channel = channel, ta_type = ''peer_authority'', ta_severity = 70 / 100, ta_confidence = 85 / 100,
      ta_description = what @ '' from '' @ repr sender @ '' not in declared topology'',
      ta_indicators = [indicator @ '':'' @ plain_text str sender]\<rparr>"

text \<open>A message of a peer or of a broadcast: its text, then its sender.\<close>

definition scan_message :: "(json \<Rightarrow> string) \<Rightarrow> (json \<Rightarrow> string) \<Rightarrow> detector list \<Rightarrow> json list \<Rightarrow> string \<Rightarrow> string list \<Rightarrow> string
    \<Rightarrow> string \<Rightarrow> json \<Rightarrow> exn + threat list" where
  "scan_message str repr ds declared channel ks what indicator message = (case message of
       JObj d \<Rightarrow> (let sender = field_or ''sender_agent_id'' JNull d in
         bindS (undeclared declared sender) (\<lambda>b. Inr (scan_value ds channel (first_of ks d)
           @ (if b then [authority_threat str repr channel what indicator sender] else []))))
     | _ \<Rightarrow> Inr [])"

definition detect_channel_threats :: "(json \<Rightarrow> string) \<Rightarrow> (json \<Rightarrow> string) \<Rightarrow> detector list \<Rightarrow> args \<Rightarrow> exn + threat list" where
  "detect_channel_threats str repr ds ctx =
     (let get = (\<lambda>k. field_or k (JArr []) ctx) in
      bindS (each (Inr \<circ> scan_reasoning ds) (get ''reasoning_chain'')) (\<lambda>reasoning.
      bindS (each (Inr \<circ> scan_entry ds ''memory_reads'' [''content'']) (get ''memory_reads'')) (\<lambda>memory.
      bindS (each (Inr \<circ> scan_output str ds) (get ''tool_outputs'')) (\<lambda>outputs.
      bindS (each (Inr \<circ> scan_definition ds) (get ''tool_definitions'')) (\<lambda>definitions.
      bindS (each (Inr \<circ> scan_entry ds ''retrieved_documents'' [''content'', ''text'', ''body''])
        (get ''retrieved_documents'')) (\<lambda>documents.
      let topology_ctx = or_json (field_or ''topology_context'' JNull ctx) (JObj []) in
      bindS (get_or topology_ctx ''topology'' JNull) (\<lambda>topology.
      bindS (declared_members (or_json topology (JObj []))) (\<lambda>declared.
      bindS (each (scan_message str repr ds declared ''peer_messages'' [''content'', ''text'', ''message'']
        ''Peer message'' ''undeclared_sender'') (get ''peer_messages'')) (\<lambda>peers.
      bindS (get_or topology_ctx ''shared_memory'' (JArr [])) (\<lambda>shared.
      bindS (each (Inr \<circ> scan_entry ds ''shared_memory'' [''content'', ''summary'', ''text'']) shared) (\<lambda>memories.
      bindS (get_or topology_ctx ''broadcast_messages'' (JArr [])) (\<lambda>broadcast.
      bindS (each (scan_message str repr ds declared ''broadcast_channels'' [''content'', ''text'']
        ''Broadcast'' ''undeclared_broadcaster'') broadcast) (\<lambda>broadcasts.
        Inr (scan_input ds ctx @ reasoning @ memory @ outputs @ definitions @ documents @ peers @ memories
          @ broadcasts))))))))))))))"

section \<open>Tool sequences\<close>

record tool_categories =
  tc_reads_sensitive :: "string list"
  tc_sends_external :: "string list"

definition default_tool_categories :: tool_categories where
  "default_tool_categories = \<lparr>
     tc_reads_sensitive = [''get_credentials'', ''read_credentials'', ''get_secrets'', ''read_secrets'', ''get_payment_methods'',
       ''payment_history'', ''transaction_history'', ''list_accounts'', ''read_email'', ''read_messages'', ''get_messages'',
       ''read_contacts'', ''export_data'', ''database_read''],
     tc_sends_external = [''http_post'', ''http_request'', ''webhook_post'', ''send_email'', ''send_message'', ''post_message'',
       ''send_transaction'', ''transfer_funds'', ''upload_file'', ''publish'', ''post_tweet'']\<rparr>"

text \<open>\<open>tags_by_call[index] if index < len(tags_by_call) else []\<close>.\<close>

fun item_at :: "json \<Rightarrow> nat \<Rightarrow> exn + json" where
  "item_at (JArr xs) i = Inr (xs ! i)"
| "item_at (JStr s) i = Inr (JStr [s ! i])"
| "item_at (JObj d) i = Inl (KeyError (nat_text i))"
| "item_at _ i = Inl (TypeError ''object is not subscriptable'')"

definition tags_at :: "json \<Rightarrow> nat \<Rightarrow> exn + json" where
  "tags_at tags i = bindS (len_json tags) (\<lambda>n. if i < n then item_at tags i else Inr (JArr []))"

definition marked :: "string \<Rightarrow> string list \<Rightarrow> category \<Rightarrow> json \<Rightarrow> exn + bool" where
  "marked tool entries c tags = bindS (tool_name_matches (JStr tool) (names entries)) (\<lambda>b.
     if b then Inr True else in_json (category_value c) tags)"

fun sequence_pairs :: "tool_categories \<Rightarrow> json \<Rightarrow> nat \<Rightarrow> json list \<Rightarrow> string list \<Rightarrow> string list \<Rightarrow> exn + string list" where
  "sequence_pairs cats tags i [] read_tools pairs = Inr pairs"
| "sequence_pairs cats tags i (j # js) read_tools pairs = (case j of
       JStr tool \<Rightarrow>
         if tool = [] then sequence_pairs cats tags (Suc i) js read_tools pairs
         else bindS (tags_at tags i) (\<lambda>tg.
              bindS (marked tool (tc_reads_sensitive cats) READS_SENSITIVE tg) (\<lambda>r.
                let read_tools' = (if r then read_tools @ [tool] else read_tools) in
              bindS (if read_tools' = [] then Inr False else marked tool (tc_sends_external cats) SENDS_EXTERNAL tg) (\<lambda>s.
                sequence_pairs cats tags (Suc i) js read_tools'
                  (if s then pairs @ map (\<lambda>read. read @ ''->'' @ tool) read_tools' else pairs))))
     | _ \<Rightarrow> sequence_pairs cats tags (Suc i) js read_tools pairs)"

definition sequence_threat :: "string list \<Rightarrow> threat" where
  "sequence_threat pairs = \<lparr>ta_channel = ''tool_sequence'', ta_type = ''exfiltration_sequence'', ta_severity = 75 / 100,
     ta_confidence = 65 / 100,
     ta_description = ''Sensitive-read tool call followed by external-send tool call within the session'',
     ta_indicators = pairs\<rparr>"

definition detect_sequences :: "tool_categories \<Rightarrow> args \<Rightarrow> exn + threat list" where
  "detect_sequences cats ctx =
     bindS (listed (field_or ''tool_call_history'' JNull ctx)) (\<lambda>history.
     bindS (sequence_pairs cats (or_json (field_or ''tool_call_categories'' JNull ctx) (JArr [])) 0 history [] []) (\<lambda>pairs.
       Inr (if pairs = [] then [] else [sequence_threat pairs])))"

section \<open>Tool arguments\<close>

definition argument_threats :: "(category \<times> string \<times> rat \<times> rat \<times> string) list" where
  "argument_threats =
     [(REMOTE_CODE_EXEC, ''remote_code_execution'', 95 / 100, 85 / 100,
       ''Tool call pipes downloaded or decoded code into an interpreter''),
      (LOG_TAMPER, ''evidence_tampering'', 90 / 100, 80 / 100,
       ''Tool call destroys, truncates or disables logs or shell history''),
      (OBFUSCATED_COMMAND, ''command_obfuscation'', 70 / 100, 60 / 100,
       ''Tool call computes its command at runtime ($IFS, command substitution)'')]"

definition argument_threat :: "(json \<Rightarrow> string) \<Rightarrow> json \<Rightarrow> json \<Rightarrow> category \<times> string \<times> rat \<times> rat \<times> string \<Rightarrow> exn + threat list" where
  "argument_threat str tool tags = (\<lambda>(c, type, severity, confidence, description).
     bindS (in_json (category_value c) tags) (\<lambda>b. Inr (if \<not> b then [] else
       [\<lparr>ta_channel = ''tool_arguments'', ta_type = type, ta_severity = severity, ta_confidence = confidence,
         ta_description = description, ta_indicators = [plain_text str tool @ '': '' @ category_value c]\<rparr>])))"

definition detect_arguments :: "(json \<Rightarrow> string) \<Rightarrow> args \<Rightarrow> exn + threat list" where
  "detect_arguments str ctx =
     (let action = or_json (field_or ''action'' JNull ctx) (JObj []) in
      bindS (get_or action ''categories'' JNull) (\<lambda>categories.
      bindS (get_or action ''tool'' (JStr [])) (\<lambda>tool.
      bindS (traverse (argument_threat str tool (or_json categories (JArr []))) argument_threats) (\<lambda>tss.
        Inr (concat tss)))))"

section \<open>The attack surface\<close>

record attack_surface =
  as_channels :: "string list"
  as_tools :: "string list"
  as_memory :: "string list"
  as_peers :: "string list"
  as_total :: nat

definition surface_to_dict :: "attack_surface \<Rightarrow> json" where
  "surface_to_dict s = JObj
     [(''channels'', JArr (map JStr (as_channels s))), (''tool_interfaces'', JArr (map JStr (as_tools s))),
      (''memory_surfaces'', JArr (map JStr (as_memory s))), (''peer_interfaces'', JArr (map JStr (as_peers s))),
      (''total_surface_area'', JInt (int (as_total s)))]"

definition map_attack_surface :: "agent_profile \<Rightarrow> attack_surface" where
  "map_attack_surface p =
     (let channels = input_channels p;
          tools = (if has_capability p ''tool_use'' then [''tool_call_responses'', ''tool_error_messages'', ''tool_definitions''] else []);
          memory = (if has_capability p ''memory_access'' then [''vector_store_reads'', ''context_window'', ''rag_retrievals''] else []);
          peers = (if has_capability p ''multi_agent_comm'' then [''peer_messages'', ''shared_memory'', ''broadcast_channels''] else [])
      in \<lparr>as_channels = channels, as_tools = tools, as_memory = memory, as_peers = peers,
          as_total = length channels + length tools + length memory + length peers\<rparr>)"

section \<open>The layer\<close>

record adversarial =
  av_threshold :: rat
  av_custom :: "(agent_profile \<Rightarrow> args \<Rightarrow> exn + threat list) list"
  av_block :: bool
  av_patterns :: "detector list"
  av_sequences :: "tool_categories option"
  av_arguments :: bool

definition make_adversarial :: "rat \<Rightarrow> (agent_profile \<Rightarrow> args \<Rightarrow> exn + threat list) list \<Rightarrow> bool \<Rightarrow> detector list option
    \<Rightarrow> detector list \<Rightarrow> bool \<Rightarrow> tool_categories option \<Rightarrow> bool \<Rightarrow> adversarial" where
  "make_adversarial threshold custom block patterns extra sequences categories arguments =
     \<lparr>av_threshold = threshold, av_custom = custom, av_block = block,
      av_patterns = (case patterns of None \<Rightarrow> default_detector_patterns | Some ds \<Rightarrow> ds) @ extra,
      av_sequences = (if sequences then Some (case categories of None \<Rightarrow> default_tool_categories | Some c \<Rightarrow> c) else None),
      av_arguments = arguments\<rparr>"

text \<open>A detector that raises is logged and contributes nothing.\<close>

definition custom_threats :: "adversarial \<Rightarrow> agent_profile \<Rightarrow> args \<Rightarrow> threat list" where
  "custom_threats a p ctx = concat (map (\<lambda>f. case f p ctx of Inl e \<Rightarrow> [] | Inr ts \<Rightarrow> ts) (av_custom a))"

definition all_threats :: "(json \<Rightarrow> string) \<Rightarrow> (json \<Rightarrow> string) \<Rightarrow> adversarial \<Rightarrow> agent_profile \<Rightarrow> args \<Rightarrow> exn + threat list" where
  "all_threats str repr a p ctx =
     bindS (detect_channel_threats str repr (av_patterns a) ctx) (\<lambda>channels.
     bindS (case av_sequences a of None \<Rightarrow> Inr [] | Some cats \<Rightarrow> detect_sequences cats ctx) (\<lambda>sequences.
     bindS (if av_arguments a then detect_arguments str ctx else Inr []) (\<lambda>arguments.
       Inr (channels @ sequences @ arguments @ custom_threats a p ctx))))"

fun degrade :: "rat \<Rightarrow> threat list \<Rightarrow> rat" where
  "degrade score [] = score"
| "degrade score (t # ts) = degrade (score - ta_severity t * ta_confidence t * (1 / 2)) ts"

definition compute_coherence :: "threat list \<Rightarrow> rat" where
  "compute_coherence ts = max 0 (min 1 (round_to 4 (degrade 1 ts)))"

definition max_severity :: "threat list \<Rightarrow> rat" where
  "max_severity ts = (if ts = [] then 0 else Max (set (map ta_severity ts)))"

definition adversarial_verdict :: "adversarial \<Rightarrow> threat list \<Rightarrow> string \<times> bool" where
  "adversarial_verdict a ts =
     (let score = compute_coherence ts; worst = max_severity ts in
      if av_block a \<and> 90 / 100 \<le> worst then (''block'', False)
      else if score < av_threshold a then (''alert'', False)
      else if ts \<noteq> [] then (if 50 / 100 \<le> worst then ''alert'' else ''pass'', av_threshold a \<le> score)
      else (''pass'', True))"

definition adversarial_result :: "adversarial \<Rightarrow> agent_profile \<Rightarrow> threat list \<Rightarrow> layer_result" where
  "adversarial_result a p ts =
     (let score = compute_coherence ts; v = adversarial_verdict a ts; surface = map_attack_surface p in
      \<lparr>lr_name = ''adversarial'', lr_score = score, lr_passed = snd v, lr_action = fst v,
       lr_details = [(''coherence_score'', JFloat score), (''coherence_threshold'', JFloat (av_threshold a)),
         (''threat_count'', JInt (int (length ts))), (''max_threat_severity'', JFloat (max_severity ts)),
         (''threats'', JArr (map threat_to_dict ts)), (''attack_surface'', surface_to_dict surface),
         (''channels_evaluated'', JInt (int (length (as_channels surface))))],
       lr_latency = 0\<rparr>)"

definition adversarial_evaluate :: "(json \<Rightarrow> string) \<Rightarrow> (json \<Rightarrow> string) \<Rightarrow> adversarial \<Rightarrow> agent_profile \<Rightarrow> args \<Rightarrow> exn + layer_result" where
  "adversarial_evaluate str repr a p ctx =
     bindS (all_threats str repr a p ctx) (\<lambda>ts. Inr (adversarial_result a p ts))"

text \<open>\<open>detect\<close>: the context it scans holds the input and, under a key nothing reads, the channel.\<close>

definition adversarial_detect :: "(json \<Rightarrow> string) \<Rightarrow> (json \<Rightarrow> string) \<Rightarrow> adversarial \<Rightarrow> json \<Rightarrow> string \<Rightarrow> exn + threat option" where
  "adversarial_detect str repr a input channel =
     bindS (detect_channel_threats str repr (av_patterns a) [(''input'', input), (''channel'', JStr channel)]) (\<lambda>ts.
       Inr (case ts of [] \<Rightarrow> None | t # _ \<Rightarrow> Some t))"

end
