(* ===== verification/Credentials.thy ===== *)
theory Credentials
  imports Attestation_Chain
begin

text \<open>
  Credential provenance (core/credentials.py): the fingerprint key, the keyed fingerprint of a
  secret, and the registry that remembers references and never values. HMAC-SHA256 is the
  argument \<open>hmac\<close>; the environment is a dictionary of variables.
\<close>

section \<open>Fingerprints\<close>

text \<open>A key is text, encoded as UTF-8, or bytes.\<close>

datatype fingerprint_key = Text string | Bytes string

definition utf8_char :: "char \<Rightarrow> string" where
  "utf8_char c = (let n = of_char c in
     if n < (128::nat) then [c] else [char_of (192 + n div 64), char_of (128 + n mod 64)])"

definition utf8 :: "string \<Rightarrow> string" where
  "utf8 s = concat (map utf8_char s)"

type_synonym environment = "(string, string) dict"

definition resolve_key :: "environment \<Rightarrow> fingerprint_key option \<Rightarrow> string option" where
  "resolve_key env key =
     (let k = (case key of
                 None \<Rightarrow> map_option Text (map_of env ''AGENTEGRITY_FINGERPRINT_KEY'')
               | Some x \<Rightarrow> Some x)
      in case k of
           None \<Rightarrow> None
         | Some (Text s) \<Rightarrow> if s = [] then None else Some (utf8 s)
         | Some (Bytes b) \<Rightarrow> if b = [] then None else Some b)"

definition fingerprint ::
  "(string \<Rightarrow> string \<Rightarrow> string) \<Rightarrow> environment \<Rightarrow> string \<Rightarrow> fingerprint_key option \<Rightarrow> string option" where
  "fingerprint hmac env secret key =
     (case resolve_key env key of
        None \<Rightarrow> None
      | Some k \<Rightarrow> (let normalized = strip secret
                   in if normalized = [] then None else Some (hmac k (utf8 normalized))))"

section \<open>The registry\<close>

record credential_registry =
  cg_refs :: "(string, credential_ref) dict"
  cg_warned :: bool

definition empty_registry :: credential_registry where
  "empty_registry = \<lparr>cg_refs = [], cg_warned = False\<rparr>"

definition warn_once :: "credential_registry \<Rightarrow> credential_registry" where
  "warn_once r = (if cg_warned r then r else r\<lparr>cg_warned := True\<rparr>)"

definition declare_credential ::
  "(string \<Rightarrow> string \<Rightarrow> string) \<Rightarrow> environment \<Rightarrow> string \<Rightarrow> string \<Rightarrow> string option
     \<Rightarrow> fingerprint_key option \<Rightarrow> credential_registry \<Rightarrow> credential_ref option \<times> credential_registry" where
  "declare_credential hmac env provider secret label key r =
     (if resolve_key env key = None then (None, warn_once r)
      else case fingerprint hmac env secret key of
        None \<Rightarrow> (None, r)
      | Some digest \<Rightarrow>
          (let ref = \<lparr>cr_provider = provider,
                 cr_label = (if str_truthy label then the label else provider @ ''/credential''),
                 cr_fingerprint = digest\<rparr>
           in (Some ref, r\<lparr>cg_refs := dict_set digest ref (cg_refs r)\<rparr>)))"

text \<open>The variables with a matching prefix, in the order of their names.\<close>

fun declare_names ::
  "(string \<Rightarrow> string \<Rightarrow> string) \<Rightarrow> environment \<Rightarrow> fingerprint_key option \<Rightarrow> (string \<times> string) list
     \<Rightarrow> credential_registry \<Rightarrow> credential_ref list \<times> credential_registry" where
  "declare_names hmac env key [] r = ([], r)"
| "declare_names hmac env key ((name, secret) # vs) r =
     (let (ref, r1) = declare_credential hmac env (lower (fst (split1 (CHR ''_'') name))) secret
            (Some name) key r;
          (refs, r2) = declare_names hmac env key vs r1
      in ((case ref of None \<Rightarrow> refs | Some x \<Rightarrow> x # refs), r2))"

definition declare_from_env ::
  "(string \<Rightarrow> string \<Rightarrow> string) \<Rightarrow> environment \<Rightarrow> string list \<Rightarrow> fingerprint_key option
     \<Rightarrow> credential_registry \<Rightarrow> credential_ref list \<times> credential_registry" where
  "declare_from_env hmac env starts key r = declare_names hmac env key
     (filter (\<lambda>(n, v). list_ex (\<lambda>p. prefix p n) starts) (sort_key fst env)) r"

definition registry_refs :: "credential_registry \<Rightarrow> credential_ref list" where
  "registry_refs r = map snd (cg_refs r)"

section \<open>What the registry keeps\<close>

text \<open>References are keyed by their own fingerprint, so there is one for each credential.\<close>

definition registry_ok :: "credential_registry \<Rightarrow> bool" where
  "registry_ok r \<longleftrightarrow> dict_ok (cg_refs r) \<and> (\<forall>(k, ref) \<in> set (cg_refs r). cr_fingerprint ref = k)"

lemma set_dict_set: "set (dict_set k v d) \<subseteq> insert (k, v) (set d)"
  by (induction k v d rule: dict_set.induct) auto

lemma declare_credential_ok [wf_intros]:
  "registry_ok r \<Longrightarrow> registry_ok (snd (declare_credential hmac env p s l key r))"
  using set_dict_set
  by (fastforce simp: declare_credential_def registry_ok_def warn_once_def Let_def split: option.splits)

lemma declare_names_ok [wf_intros]:
  "registry_ok r \<Longrightarrow> registry_ok (snd (declare_names hmac env key vs r))"
proof (induction vs arbitrary: r)
  case (Cons p vs)
  obtain n s where "p = (n, s)" by (cases p)
  with Cons.IH [OF declare_credential_ok [OF Cons.prems]] show ?case
    by (simp add: Let_def case_prod_beta)
qed simp

lemma registry_one_ref: "registry_ok r \<Longrightarrow> distinct (map cr_fingerprint (registry_refs r))"
proof -
  assume ok: "registry_ok r"
  then have "map (cr_fingerprint \<circ> snd) (cg_refs r) = dict_keys (cg_refs r)"
    by (intro map_cong) (auto simp: registry_ok_def)
  with ok show ?thesis by (simp only: registry_ok_def registry_refs_def map_map)
qed

text \<open>
  The secret reaches the registry through its fingerprint only: two secrets the keyed hash does
  not tell apart, or one secret with and without surrounding white space, leave the same registry
  and return the same reference.
\<close>

lemma declare_secret_only_by_fingerprint:
  assumes "fingerprint hmac env s key = fingerprint hmac env s' key"
  shows "declare_credential hmac env p s l key r = declare_credential hmac env p s' l key r"
  using assms by (simp add: declare_credential_def)

lemma declare_without_key:
  assumes "resolve_key env key = None"
  shows "fst (declare_credential hmac env p s l key r) = None"
    and "cg_refs (snd (declare_credential hmac env p s l key r)) = cg_refs r"
  using assms by (simp_all add: declare_credential_def warn_once_def)

lemma declare_again:
  assumes "declare_credential hmac env p s l key r = (Some ref, r')"
  shows "declare_credential hmac env p s l key r' = (Some ref, r')"
proof -
  have again: "dict_set k v (dict_set k v d) = dict_set k v d" for k v and d :: "(string, credential_ref) dict"
    by (induction k v d rule: dict_set.induct) auto
  from assms show ?thesis
    by (auto simp: declare_credential_def Let_def again split: if_splits option.splits)
qed

end
