(* ===== verification/Model_Scan.thy ===== *)
theory Model_Scan
  imports Adversarial_Properties Credentials
begin

text \<open>
  The adversarial layer with a second opinion (\<open>layers/adversarial_llm.py\<close>,
  \<open>layers/adversarial_slm.py\<close>): reading a classifier's reply, the two transports that fail open, the
  targets of a context, the classification of them by concurrent tasks over a bounded cache, and the
  union of the two verdicts. What a model answers is not in the repository: a transport is a relation
  between a text and every answer it may give. \<open>json.loads\<close> of a reply (its \<open>JSONDecodeError\<close> is a
  \<open>ValueError\<close>), \<open>str\<close> of a value and \<open>float\<close> of a text are arguments.
\<close>

section \<open>Opinions\<close>

record opinion =
  vd_attack :: bool
  vd_family :: string
  vd_severity :: rat
  vd_confidence :: rat
  vd_description :: string
  vd_failed :: bool

definition neutral_opinion :: opinion where
  "neutral_opinion = \<lparr>vd_attack = False, vd_family = ''benign'', vd_severity = 0, vd_confidence = 0,
     vd_description = ''LLM check failed open'', vd_failed = True\<rparr>"

text \<open>
  \<open>float(x)\<close>: an integer that would round to \<open>2 ^ 1024\<close> or beyond has no float; the texts of the
  infinities and of NaN are left out, as no \<open>JFloat\<close> is one of them.
\<close>

definition float_limit :: int where
  "float_limit = 2 ^ 1024 - 2 ^ 970"

fun float_of_json :: "(string \<Rightarrow> rat option) \<Rightarrow> json \<Rightarrow> exn + rat" where
  "float_of_json pf (JBool b) = Inr (if b then 1 else 0)"
| "float_of_json pf (JInt i) = (if \<bar>i\<bar> < float_limit then Inr (of_int i)
     else Inl (OtherError ''OverflowError'' ''int too large to convert to float''))"
| "float_of_json pf (JFloat r) = Inr r"
| "float_of_json pf (JStr s) = (case pf s of None \<Rightarrow> Inl (ValueError ''could not convert string to float'') | Some r \<Rightarrow> Inr r)"
| "float_of_json pf _ = Inl (TypeError ''float() argument must be a string or a real number'')"

definition unit_float :: "(string \<Rightarrow> rat option) \<Rightarrow> json \<Rightarrow> exn + rat" where
  "unit_float pf j = bindS (float_of_json pf j) (\<lambda>x. Inr (round_to 4 (max 0 (min 1 x))))"

text \<open>A reply in a code fence is taken out of it.\<close>

definition backtick :: char where "backtick = CHR 0x60"

definition strip_char :: "char \<Rightarrow> string \<Rightarrow> string" where
  "strip_char c s = rev (dropWhile (\<lambda>x. x = c) (rev (dropWhile (\<lambda>x. x = c) s)))"

definition unfenced :: "string \<Rightarrow> string" where
  "unfenced raw = (let t = strip raw in
     if prefix (replicate 3 backtick) t
     then let u = strip_char backtick t in strip (if prefix ''json'' u then drop 4 u else u)
     else t)"

definition read_opinion :: "(json \<Rightarrow> string) \<Rightarrow> (string \<Rightarrow> rat option) \<Rightarrow> json \<Rightarrow> exn + opinion" where
  "read_opinion str pf j =
     bindS (get_or j ''is_attack'' (JBool False)) (\<lambda>attack.
     bindS (get_or j ''family'' (JStr ''benign'')) (\<lambda>family.
     bindS (bindS (get_or j ''severity'' (JFloat 0)) (unit_float pf)) (\<lambda>severity.
     bindS (bindS (get_or j ''confidence'' (JFloat 0)) (unit_float pf)) (\<lambda>confidence.
     bindS (get_or j ''description'' (JStr [])) (\<lambda>description.
       Inr \<lparr>vd_attack = truthy attack, vd_family = plain_text str family, vd_severity = severity,
         vd_confidence = confidence, vd_description = take 200 (plain_text str description), vd_failed = False\<rparr>)))))"

definition fails_open :: "exn + opinion \<Rightarrow> exn + opinion" where
  "fails_open r = (case r of
       Inl (ValueError m) \<Rightarrow> Inr neutral_opinion
     | Inl (TypeError m) \<Rightarrow> Inr neutral_opinion
     | Inl (AttributeError m) \<Rightarrow> Inr neutral_opinion
     | _ \<Rightarrow> r)"

definition parse_verdict :: "(json \<Rightarrow> string) \<Rightarrow> (string \<Rightarrow> rat option) \<Rightarrow> (string \<Rightarrow> exn + json) \<Rightarrow> string \<Rightarrow> exn + opinion" where
  "parse_verdict str pf to_json raw = fails_open (bindS (to_json (unfenced raw)) (read_opinion str pf))"

section \<open>Transports\<close>

text \<open>\<open>self.api_key or os.environ.get(name)\<close>, for a key that may be empty.\<close>

definition or_environment :: "string option \<Rightarrow> (string, string) dict \<Rightarrow> string \<Rightarrow> string option" where
  "or_environment value environ name = (if str_truthy value then value else map_of environ name)"

text \<open>The reply of the Anthropic API: an exception of the call, or blocks with a type and a text.\<close>

definition claude_opinion :: "(json \<Rightarrow> string) \<Rightarrow> (string \<Rightarrow> rat option) \<Rightarrow> (string \<Rightarrow> exn + json) \<Rightarrow> string option
    \<Rightarrow> (string, string) dict \<Rightarrow> bool \<Rightarrow> exn + (string \<times> string) list \<Rightarrow> exn + opinion" where
  "claude_opinion str pf to_json api_key environ installed reply =
     (if \<not> str_truthy (or_environment api_key environ ''ANTHROPIC_API_KEY'') \<or> \<not> installed then Inr neutral_opinion
      else case reply of Inl e \<Rightarrow> Inr neutral_opinion
        | Inr blocks \<Rightarrow> parse_verdict str pf to_json (concat (map snd (filter (\<lambda>b. fst b = ''text'') blocks))))"

text \<open>The endpoint of a local model: its settings, the request, and the answer in its body.\<close>

record slm_config =
  sm_base_url :: string
  sm_model :: string
  sm_api_key :: "string option"
  sm_max_tokens :: int

definition make_slm :: "(string, string) dict \<Rightarrow> string option \<Rightarrow> string option \<Rightarrow> string option \<Rightarrow> int \<Rightarrow> slm_config" where
  "make_slm environ base_url model api_key max_tokens =
     (let given = (\<lambda>v name. case or_environment v environ name of None \<Rightarrow> [] | Some s \<Rightarrow> s);
          base = given base_url ''AGENTEGRITY_SLM_BASE_URL''
      in \<lparr>sm_base_url = rev (dropWhile (\<lambda>c. c = CHR ''/'')
            (rev (if base = [] then ''http://localhost:11434/v1'' else base))),
          sm_model = given model ''AGENTEGRITY_SLM_MODEL'',
          sm_api_key = or_environment api_key environ ''AGENTEGRITY_SLM_API_KEY'', sm_max_tokens = max_tokens\<rparr>)"

record http_request =
  rq_url :: string
  rq_headers :: "(string, string) dict"
  rq_body :: json

definition slm_request :: "slm_config \<Rightarrow> string \<Rightarrow> string \<Rightarrow> http_request" where
  "slm_request c system text = \<lparr>rq_url = sm_base_url c @ ''/chat/completions'',
     rq_headers = (''Content-Type'', ''application/json'')
       # (if str_truthy (sm_api_key c) then [(''Authorization'', ''Bearer '' @ the (sm_api_key c))] else []),
     rq_body = JObj [(''model'', JStr (sm_model c)),
       (''messages'', JArr [JObj [(''role'', JStr ''system''), (''content'', JStr system)],
          JObj [(''role'', JStr ''user''), (''content'', JStr text)]]),
       (''temperature'', JInt 0), (''max_tokens'', JInt (sm_max_tokens c))]\<rparr>"

text \<open>\<open>body["choices"][0]["message"]["content"]\<close>; every exception on the way is caught.\<close>

fun at_key :: "string \<Rightarrow> json \<Rightarrow> json option" where
  "at_key k (JObj d) = map_of d k"
| "at_key k _ = None"

fun at_first :: "json \<Rightarrow> json option" where
  "at_first (JArr (j # js)) = Some j"
| "at_first _ = None"

definition completion_text :: "json \<Rightarrow> string option" where
  "completion_text body =
     Option.bind (at_key ''choices'' body) (\<lambda>choices. Option.bind (at_first choices) (\<lambda>choice.
     Option.bind (at_key ''message'' choice) (\<lambda>message. Option.bind (at_key ''content'' message) (\<lambda>content.
       case content of JStr raw \<Rightarrow> Some raw | _ \<Rightarrow> None))))"

definition slm_opinion :: "(json \<Rightarrow> string) \<Rightarrow> (string \<Rightarrow> rat option) \<Rightarrow> (string \<Rightarrow> exn + json) \<Rightarrow> slm_config
    \<Rightarrow> exn + string \<Rightarrow> exn + opinion" where
  "slm_opinion str pf to_json c reply =
     (if sm_model c = [] then Inr neutral_opinion
      else case bindS reply to_json of Inl e \<Rightarrow> Inr neutral_opinion
        | Inr body \<Rightarrow> (case completion_text body of None \<Rightarrow> Inr neutral_opinion | Some raw \<Rightarrow> parse_verdict str pf to_json raw))"

text \<open>What the classifier of a layer may answer to a text, over all replies.\<close>

datatype transport = Claude "string option" "(string, string) dict" bool | Local_Model slm_config

fun may_answer :: "(json \<Rightarrow> string) \<Rightarrow> (string \<Rightarrow> rat option) \<Rightarrow> (string \<Rightarrow> exn + json) \<Rightarrow> transport \<Rightarrow> exn + opinion \<Rightarrow> bool" where
  "may_answer str pf to_json (Claude key environ installed) r = (\<exists>reply. r = claude_opinion str pf to_json key environ installed reply)"
| "may_answer str pf to_json (Local_Model c) r = (\<exists>reply. r = slm_opinion str pf to_json c reply)"

section \<open>The layer and its targets\<close>

record model_layer =
  mo_base :: adversarial
  mo_concurrency :: nat
  mo_max_targets :: nat
  mo_max_cache :: nat
  mo_context :: bool

definition make_model_layer :: "rat \<Rightarrow> (agent_profile \<Rightarrow> args \<Rightarrow> exn + threat list) list \<Rightarrow> bool \<Rightarrow> detector list option
    \<Rightarrow> detector list \<Rightarrow> int \<Rightarrow> int \<Rightarrow> int \<Rightarrow> bool \<Rightarrow> model_layer" where
  "make_model_layer threshold custom block patterns extra slots most kept session_context =
     \<lparr>mo_base = make_adversarial threshold custom block patterns extra True None True,
      mo_concurrency = nat (max 1 slots), mo_max_targets = nat (max 1 most), mo_max_cache = nat (max 1 kept),
      mo_context = session_context\<rparr>"

text \<open>A target is a channel and a text.\<close>

type_synonym scan_target = "string \<times> string"

definition spoken :: "string list \<Rightarrow> args \<Rightarrow> string list" where
  "spoken ks d = (case first_of ks d of JStr s \<Rightarrow> if nonblank s then [s] else [] | _ \<Rightarrow> [])"

definition entry_targets :: "string \<Rightarrow> string list \<Rightarrow> json \<Rightarrow> scan_target list" where
  "entry_targets channel ks j = (case j of JObj d \<Rightarrow> map (Pair channel) (spoken ks d) | _ \<Rightarrow> [])"

definition reasoning_targets :: "json \<Rightarrow> scan_target list" where
  "reasoning_targets j = (case j of
       JStr s \<Rightarrow> if nonblank s then [(''reasoning'', s)] else []
     | _ \<Rightarrow> entry_targets ''reasoning'' [''content'', ''text'', ''reasoning''] j)"

definition gather :: "(json \<Rightarrow> scan_target list) \<Rightarrow> json \<Rightarrow> exn + scan_target list" where
  "gather f j = bindS (listed j) (\<lambda>xs. Inr (concat (map f xs)))"

definition scan_targets :: "args \<Rightarrow> exn + scan_target list" where
  "scan_targets ctx =
     (let get = (\<lambda>k. field_or k (JArr []) ctx) in
      bindS (gather reasoning_targets (get ''reasoning_chain'')) (\<lambda>reasoning.
      bindS (gather (entry_targets ''memory_reads'' [''content'']) (get ''memory_reads'')) (\<lambda>memory.
      bindS (gather (entry_targets ''tool_responses'' [''content'', ''result'']) (get ''tool_outputs'')) (\<lambda>outputs.
      bindS (gather (entry_targets ''retrieved_documents'' [''content'', ''text'', ''body'']) (get ''retrieved_documents'')) (\<lambda>documents.
      bindS (gather (entry_targets ''peer_messages'' [''content'', ''text'', ''message'']) (get ''peer_messages'')) (\<lambda>peers.
      let topology_ctx = or_json (field_or ''topology_context'' JNull ctx) (JObj []) in
      bindS (get_or topology_ctx ''shared_memory'' (JArr [])) (\<lambda>shared.
      bindS (gather (entry_targets ''shared_memory'' [''content'', ''summary'', ''text'']) shared) (\<lambda>memories.
      bindS (get_or topology_ctx ''broadcast_messages'' (JArr [])) (\<lambda>broadcast.
      bindS (gather (entry_targets ''broadcast_channels'' [''content'', ''text'']) broadcast) (\<lambda>broadcasts.
        Inr (map (Pair ''direct_prompt'') (spoken [''input''] ctx) @ reasoning @ memory @ outputs @ documents @ peers
          @ memories @ broadcasts)))))))))))"

text \<open>The header of the session: the number of tool calls and the last thirty names.\<close>

definition session_header :: "args \<Rightarrow> exn + string" where
  "session_header ctx = bindS (listed (field_or ''tool_call_history'' JNull ctx)) (\<lambda>js.
     let history = concat (map (\<lambda>j. case j of JStr s \<Rightarrow> if s = [] then [] else [s] | _ \<Rightarrow> []) js) in
     Inr (if history = [] then []
       else ''Session context: '' @ nat_text (length history) @ '' tool calls so far, most recent: ''
         @ join '', '' (drop (length history - 30) history)))"

definition with_header :: "string \<Rightarrow> scan_target list \<Rightarrow> scan_target list" where
  "with_header header ts = (if header = [] then ts
     else map (\<lambda>(channel, t). (channel, header @ [newline] @ ''---'' @ [newline] @ t)) ts)"

text \<open>The targets of an evaluation, and how many were dropped.\<close>

definition chosen_targets :: "model_layer \<Rightarrow> args \<Rightarrow> exn + scan_target list \<times> nat" where
  "chosen_targets m ctx =
     bindS (scan_targets ctx) (\<lambda>ts.
     bindS (if mo_context m then session_header ctx else Inr []) (\<lambda>header.
       let ts' = with_header header ts
       in Inr (take (mo_max_targets m) ts', length ts' - mo_max_targets m)))"

section \<open>Classification\<close>

type_synonym verdict_key = "string \<times> string"
type_synonym verdict_cache = "(verdict_key, opinion) dict"

definition cache_key :: "'k lib \<Rightarrow> scan_target \<Rightarrow> verdict_key" where
  "cache_key L t = (fst t, l_sha256 L (utf8 (snd t)))"

text \<open>What the cache resolves, and the targets left to ask about, one for each key.\<close>

fun plan_scan :: "'k lib \<Rightarrow> verdict_cache \<Rightarrow> scan_target list \<Rightarrow> verdict_cache \<Rightarrow> (verdict_key, scan_target) dict
    \<Rightarrow> verdict_cache \<times> (verdict_key, scan_target) dict" where
  "plan_scan L cache [] resolved pending = (resolved, pending)"
| "plan_scan L cache (t # ts) resolved pending = (let k = cache_key L t in
     case map_of cache k of
       Some v \<Rightarrow> plan_scan L cache ts (dict_set k v resolved) pending
     | None \<Rightarrow> plan_scan L cache ts resolved (if k \<in> set (dict_keys pending) then pending else pending @ [(k, t)]))"

text \<open>
  A verdict enters the cache unless it failed open; the oldest entries leave it when it is above its
  bound.
\<close>

definition remember :: "nat \<Rightarrow> verdict_key \<Rightarrow> opinion \<Rightarrow> verdict_cache \<Rightarrow> verdict_cache" where
  "remember bound k v cache = (if vd_failed v then cache
     else let c = dict_set k v cache in drop (length c - bound) c)"

text \<open>
  The tasks of one classification: those that wait for the semaphore, in the order they were made,
  those that asked, what is resolved, the cache of the layer, and the first exception of a task.
\<close>

record classification =
  sc_waiting :: "(verdict_key, scan_target) dict"
  sc_running :: "(verdict_key, scan_target) dict"
  sc_resolved :: verdict_cache
  sc_cache :: verdict_cache
  sc_error :: "exn option"

datatype scan_event = Asked verdict_key | Answered verdict_key opinion | Broken verdict_key exn

inductive classify_step :: "nat \<Rightarrow> nat \<Rightarrow> (exn + opinion \<Rightarrow> bool) \<Rightarrow> classification \<Rightarrow> scan_event \<Rightarrow> classification \<Rightarrow> bool"
  for slots :: nat and bound :: nat and answer :: "exn + opinion \<Rightarrow> bool" where
  ask: "sc_waiting s = (k, t) # ws \<Longrightarrow> length (sc_running s) < slots \<Longrightarrow>
     classify_step slots bound answer s (Asked k) (s\<lparr>sc_waiting := ws, sc_running := sc_running s @ [(k, t)]\<rparr>)"
| answered: "sc_running s = xs @ (k, t) # ys \<Longrightarrow> answer (Inr v) \<Longrightarrow>
     classify_step slots bound answer s (Answered k v) (s\<lparr>sc_running := xs @ ys, sc_resolved := dict_set k v (sc_resolved s),
       sc_cache := remember bound k v (sc_cache s)\<rparr>)"
| broken: "sc_running s = xs @ (k, t) # ys \<Longrightarrow> answer (Inl e) \<Longrightarrow>
     classify_step slots bound answer s (Broken k e) (s\<lparr>sc_running := xs @ ys,
       sc_error := (case sc_error s of None \<Rightarrow> Some e | Some e' \<Rightarrow> Some e')\<rparr>)"

inductive classify_run :: "nat \<Rightarrow> nat \<Rightarrow> (exn + opinion \<Rightarrow> bool) \<Rightarrow> classification \<Rightarrow> scan_event list \<Rightarrow> classification \<Rightarrow> bool"
  for slots :: nat and bound :: nat and answer :: "exn + opinion \<Rightarrow> bool" where
  stop: "classify_run slots bound answer s [] s"
| step: "classify_step slots bound answer s e s' \<Longrightarrow> classify_run slots bound answer s' es s'' \<Longrightarrow>
     classify_run slots bound answer s (e # es) s''"

definition start_scan :: "'k lib \<Rightarrow> verdict_cache \<Rightarrow> scan_target list \<Rightarrow> classification" where
  "start_scan L cache ts = (case plan_scan L cache ts [] [] of (resolved, pending) \<Rightarrow>
     \<lparr>sc_waiting = pending, sc_running = [], sc_resolved = resolved, sc_cache = cache, sc_error = None\<rparr>)"

definition scan_done :: "classification \<Rightarrow> bool" where
  "scan_done s = (sc_waiting s = [] \<and> sc_running s = [])"

definition reused_count :: "'k lib \<Rightarrow> verdict_cache \<Rightarrow> scan_target list \<Rightarrow> nat" where
  "reused_count L cache ts = length ts - length (sc_waiting (start_scan L cache ts))"

text \<open>The verdict of every target, in their order.\<close>

definition verdicts :: "'k lib \<Rightarrow> classification \<Rightarrow> scan_target list \<Rightarrow> (scan_target \<times> opinion) list" where
  "verdicts L s ts = map (\<lambda>t. (t, the (map_of (sc_resolved s) (cache_key L t)))) ts"

section \<open>The union of the two verdicts\<close>

text \<open>The threats of the details, read back.\<close>

fun rat_of_json :: "json \<Rightarrow> rat" where
  "rat_of_json (JFloat r) = r"
| "rat_of_json (JInt i) = of_int i"
| "rat_of_json _ = 0"

definition threat_of_dict :: "json \<Rightarrow> threat" where
  "threat_of_dict j = (let get = (\<lambda>k. field_or k JNull (as_dict j)); s = (\<lambda>v. case v of JStr s \<Rightarrow> s | _ \<Rightarrow> []) in
     \<lparr>ta_channel = s (get ''channel''), ta_type = s (get ''threat_type''), ta_severity = rat_of_json (get ''severity''),
      ta_confidence = rat_of_json (get ''confidence''), ta_description = s (get ''description''),
      ta_indicators = (case get ''indicators'' of JArr xs \<Rightarrow> map s xs | _ \<Rightarrow> [])\<rparr>)"

definition detail_threats :: "layer_result \<Rightarrow> json list" where
  "detail_threats r = (case field_or ''threats'' (JArr []) (lr_details r) of JArr xs \<Rightarrow> xs | _ \<Rightarrow> [])"

definition opinion_threat :: "scan_target \<times> opinion \<Rightarrow> threat" where
  "opinion_threat = (\<lambda>((channel, t), v). \<lparr>ta_channel = channel, ta_type = vd_family v, ta_severity = vd_severity v,
     ta_confidence = vd_confidence v, ta_description = ''LLM-classified: '' @ vd_description v,
     ta_indicators = [''adversarial_llm_classifier'']\<rparr>)"

text \<open>Attacks of a family that the patterns did not report on the channel.\<close>

definition news :: "threat list \<Rightarrow> (scan_target \<times> opinion) list \<Rightarrow> threat list" where
  "news known pairs = map opinion_threat (filter (\<lambda>((channel, t), v). vd_attack v
     \<and> \<not> list_ex (\<lambda>k. ta_channel k = channel \<and> ta_type k = vd_family v) known) pairs)"

definition set_detail :: "string \<Rightarrow> json \<Rightarrow> layer_result \<Rightarrow> layer_result" where
  "set_detail k v r = r\<lparr>lr_details := dict_set k v (lr_details r)\<rparr>"

definition classifier_report :: "threat list \<Rightarrow> nat \<Rightarrow> nat \<Rightarrow> nat \<Rightarrow> json" where
  "classifier_report fresh scanned dropped reused = JObj
     ((''new_threats'', JInt (int (length fresh)))
      # (if fresh = [] then [] else [(''new_families'', JArr (map JStr (sorted_list_of_set (set (map ta_type fresh)))))])
      @ [(''targets_scanned'', JInt (int scanned)), (''targets_dropped'', JInt (int dropped)),
         (''reused_verdicts'', JInt (int reused)), (''llm_calls'', JInt (int scanned - int reused))])"

definition union_result :: "adversarial \<Rightarrow> layer_result \<Rightarrow> (scan_target \<times> opinion) list \<Rightarrow> nat \<Rightarrow> nat \<Rightarrow> layer_result" where
  "union_result a base pairs dropped reused =
     (let known = map threat_of_dict (detail_threats base); fresh = news known pairs;
          report = classifier_report fresh (length pairs) dropped reused in
      if fresh = [] then set_detail ''llm_classifier'' report base
      else let dicts = detail_threats base @ map threat_to_dict fresh;
               everything = map threat_of_dict dicts;
               score = compute_coherence everything; worst = max_severity everything;
               r = set_detail ''max_threat_severity'' (JFloat worst)
                 (set_detail ''coherence_score'' (JFloat score)
                 (set_detail ''llm_classifier'' report
                 (set_detail ''threat_count'' (JInt (int (length dicts)))
                 (set_detail ''threats'' (JArr dicts) base))))\<lparr>lr_score := score\<rparr>
           in if av_block a \<and> 90 / 100 \<le> worst then r\<lparr>lr_action := ''block'', lr_passed := False\<rparr>
              else if score < av_threshold a then r\<lparr>lr_action := ''alert'', lr_passed := False\<rparr>
              else r)"

text \<open>
  \<open>aevaluate\<close>: the patterns first, then the classifier. The first exception of a task ends the
  evaluation while the other tasks go on; \<open>cache\<close> and \<open>cache'\<close> are the cache when it starts and when
  its tasks are done.
\<close>

inductive aevaluates :: "(json \<Rightarrow> string) \<Rightarrow> (json \<Rightarrow> string) \<Rightarrow> 'k lib \<Rightarrow> (exn + opinion \<Rightarrow> bool) \<Rightarrow> model_layer
    \<Rightarrow> agent_profile \<Rightarrow> args \<Rightarrow> verdict_cache \<Rightarrow> exn + layer_result \<Rightarrow> verdict_cache \<Rightarrow> bool"
  for str :: "json \<Rightarrow> string" and repr :: "json \<Rightarrow> string" and L :: "'k lib" and answer :: "exn + opinion \<Rightarrow> bool" where
  patterns_raise: "adversarial_evaluate str repr (mo_base m) p ctx = Inl e \<Longrightarrow> aevaluates str repr L answer m p ctx cache (Inl e) cache"
| targets_raise: "adversarial_evaluate str repr (mo_base m) p ctx = Inr base \<Longrightarrow> chosen_targets m ctx = Inl e \<Longrightarrow>
     aevaluates str repr L answer m p ctx cache (Inl e) cache"
| task_raises: "adversarial_evaluate str repr (mo_base m) p ctx = Inr base \<Longrightarrow> chosen_targets m ctx = Inr (ts, dropped) \<Longrightarrow>
     classify_run (mo_concurrency m) (mo_max_cache m) answer (start_scan L cache ts) es s \<Longrightarrow> scan_done s \<Longrightarrow> sc_error s = Some e \<Longrightarrow>
     aevaluates str repr L answer m p ctx cache (Inl e) (sc_cache s)"
| classified: "adversarial_evaluate str repr (mo_base m) p ctx = Inr base \<Longrightarrow> chosen_targets m ctx = Inr (ts, dropped) \<Longrightarrow>
     classify_run (mo_concurrency m) (mo_max_cache m) answer (start_scan L cache ts) es s \<Longrightarrow> scan_done s \<Longrightarrow> sc_error s = None \<Longrightarrow>
     aevaluates str repr L answer m p ctx cache
       (Inr (union_result (mo_base m) base (verdicts L s ts) dropped (reused_count L cache ts))) (sc_cache s)"

end
