(* ===== verification/Model_Scan_Properties.thy ===== *)
theory Model_Scan_Properties
  imports Model_Scan "HOL-Library.Multiset"
begin

text \<open>
  What the second opinion guarantees, under every order in which its concurrent tasks may run and every
  reply of the model: each text is asked about once, the tasks end, calls in flight and cache stay within
  their bounds, an outage is never cached, and the union is never less strict than the patterns alone.
\<close>

section \<open>Runs\<close>

fun asked :: "scan_event list \<Rightarrow> verdict_key list" where
  "asked [] = []"
| "asked (Asked k # es) = k # asked es"
| "asked (_ # es) = asked es"

fun finished :: "scan_event list \<Rightarrow> verdict_key list" where
  "finished [] = []"
| "finished (Asked k # es) = finished es"
| "finished (Answered k v # es) = k # finished es"
| "finished (Broken k e # es) = k # finished es"

inductive_cases askedE: "classify_step slots bound answer s (Asked k) s'"
inductive_cases answeredE: "classify_step slots bound answer s (Answered k v) s'"
inductive_cases brokenE: "classify_step slots bound answer s (Broken k e) s'"

lemmas stepE = askedE answeredE brokenE

lemma run_asked: "classify_run slots bound answer s es s' \<Longrightarrow> dict_keys (sc_waiting s) = asked es @ dict_keys (sc_waiting s')"
proof (induction rule: classify_run.induct)
  case (step s e s' es s'')
  then show ?case by (cases e) (auto elim!: stepE)
qed simp

lemma run_finished: "classify_run slots bound answer s es s' \<Longrightarrow>
  mset (dict_keys (sc_running s)) + mset (asked es) = mset (finished es) + mset (dict_keys (sc_running s'))"
proof (induction rule: classify_run.induct)
  case (step s e s' es s'')
  then show ?case by (cases e) (auto elim!: stepE)
qed simp

lemma run_measure: "classify_run slots bound answer s es s' \<Longrightarrow>
  2 * length (sc_waiting s) + length (sc_running s) = length es + 2 * length (sc_waiting s') + length (sc_running s')"
proof (induction rule: classify_run.induct)
  case (step s e s' es s'')
  then show ?case by (cases e) (auto elim!: stepE)
qed simp

lemma run_slots: "classify_run slots bound answer s es s' \<Longrightarrow> length (sc_running s) \<le> slots \<Longrightarrow> length (sc_running s') \<le> slots"
proof (induction rule: classify_run.induct)
  case (step s e s' es s'')
  then show ?case by (cases e) (auto elim!: stepE)
qed simp

lemma run_error: "classify_run slots bound answer s es s' \<Longrightarrow> sc_error s' = None \<Longrightarrow>
  sc_error s = None \<and> (\<forall>k e. Broken k e \<notin> set es)"
proof (induction rule: classify_run.induct)
  case (step s e s' es s'')
  then show ?case by (cases e) (auto elim!: stepE split: option.splits)
qed simp

lemma run_resolved:
  "classify_run slots bound answer s es s' \<Longrightarrow>
     (map_of (sc_resolved s') k = Some v \<longrightarrow> map_of (sc_resolved s) k = Some v \<or> Answered k v \<in> set es)
   \<and> (map_of (sc_resolved s) k \<noteq> None \<longrightarrow> map_of (sc_resolved s') k \<noteq> None)
   \<and> (k \<in> set (finished es) \<longrightarrow> (\<forall>e. Broken k e \<notin> set es) \<longrightarrow> map_of (sc_resolved s') k \<noteq> None)"
proof (induction rule: classify_run.induct)
  case (step s e s' es s'')
  then show ?case by (cases e) (auto elim!: stepE split: if_splits)
qed simp

lemma run_append: "classify_run slots bound answer s es s' \<Longrightarrow> classify_run slots bound answer s' fs s'' \<Longrightarrow> classify_run slots bound answer s (es @ fs) s''"
  by (induction rule: classify_run.induct) (auto intro: classify_run.step)

section \<open>The plan\<close>

lemma plan_scan_sound:
  "plan_scan L cache ts resolved pending = (r, p) \<Longrightarrow>
     (map_of r k = Some v \<longrightarrow> map_of resolved k = Some v \<or> map_of cache k = Some v)
   \<and> (map_of resolved k \<noteq> None \<longrightarrow> map_of r k \<noteq> None)
   \<and> (k \<in> cache_key L ` set ts \<longrightarrow> map_of cache k \<noteq> None \<longrightarrow> map_of r k \<noteq> None)"
proof (induction ts arbitrary: resolved pending)
  case (Cons t ts)
  show ?case
  proof (cases "map_of cache (cache_key L t)")
    case None
    with Cons show ?thesis by (auto simp: Let_def)
  next
    case (Some w)
    with Cons.prems have "plan_scan L cache ts (dict_set (cache_key L t) w resolved) pending = (r, p)" by (simp add: Let_def)
    from Cons.IH [OF this] Some show ?thesis by (auto split: if_splits)
  qed
qed simp

lemma plan_scan_pending:
  "plan_scan L cache ts resolved pending = (r, p) \<Longrightarrow> distinct (dict_keys pending) \<Longrightarrow>
     distinct (dict_keys p)
   \<and> set (dict_keys p) = set (dict_keys pending) \<union> cache_key L ` {t \<in> set ts. map_of cache (cache_key L t) = None}
   \<and> length p \<le> length pending + length ts"
proof (induction ts arbitrary: resolved pending)
  case (Cons t ts)
  show ?case
  proof (cases "map_of cache (cache_key L t)")
    case None
    let ?p = "if cache_key L t \<in> set (dict_keys pending) then pending else pending @ [(cache_key L t, t)]"
    have "plan_scan L cache ts resolved ?p = (r, p)" using Cons.prems None by (simp add: Let_def)
    moreover have "distinct (dict_keys ?p)" using Cons.prems by auto
    ultimately have IH: "distinct (dict_keys p) \<and> set (dict_keys p) = set (dict_keys ?p)
        \<union> cache_key L ` {t \<in> set ts. map_of cache (cache_key L t) = None} \<and> length p \<le> length ?p + length ts"
      by (rule Cons.IH)
    have k: "set (dict_keys ?p) = insert (cache_key L t) (set (dict_keys pending))" "length ?p \<le> Suc (length pending)"
      by (simp_all add: insert_absorb)
    have s: "cache_key L ` {u \<in> set (t # ts). map_of cache (cache_key L u) = None}
        = insert (cache_key L t) (cache_key L ` {u \<in> set ts. map_of cache (cache_key L u) = None})" proof -
      have "{u \<in> set (t # ts). map_of cache (cache_key L u) = None} = insert t {u \<in> set ts. map_of cache (cache_key L u) = None}"
        using None by auto
      then show ?thesis by (simp only: image_insert)
    qed
    show ?thesis unfolding s using IH k by auto
  next
    case (Some w)
    with Cons.prems have "plan_scan L cache ts (dict_set (cache_key L t) w resolved) pending = (r, p)" by (simp add: Let_def)
    from Cons.IH [OF this Cons.prems(2)] Some show ?thesis by auto
  qed
qed auto

lemma start_scan_simps [simp]: "sc_running (start_scan L cache ts) = []" "sc_cache (start_scan L cache ts) = cache"
  "sc_error (start_scan L cache ts) = None"
  by (simp_all add: start_scan_def split: prod.splits)

definition fresh_keys :: "'k lib \<Rightarrow> verdict_cache \<Rightarrow> scan_target list \<Rightarrow> verdict_key set" where
  "fresh_keys L cache ts = cache_key L ` {t \<in> set ts. map_of cache (cache_key L t) = None}"

lemma start_waiting:
  "distinct (dict_keys (sc_waiting (start_scan L cache ts)))"
  "set (dict_keys (sc_waiting (start_scan L cache ts))) = fresh_keys L cache ts"
  "length (sc_waiting (start_scan L cache ts)) \<le> length ts"
  using plan_scan_pending [of L cache ts "[]" "[]"] by (auto simp: start_scan_def fresh_keys_def split: prod.splits)

lemma start_resolved:
  "map_of (sc_resolved (start_scan L cache ts)) k = Some v \<Longrightarrow> map_of cache k = Some v"
  "t \<in> set ts \<Longrightarrow> map_of cache (cache_key L t) \<noteq> None \<Longrightarrow> map_of (sc_resolved (start_scan L cache ts)) (cache_key L t) \<noteq> None"
  using plan_scan_sound [of L cache ts "[]" "[]" _ _ k v] plan_scan_sound [of L cache ts "[]" "[]" _ _ "cache_key L t"]
  by (auto simp: start_scan_def split: prod.splits)

lemma run_verdict:
  assumes run: "classify_run slots bound answer (start_scan L cache ts) es s" and "scan_done s"
    and "sc_error s = None" and "t \<in> set ts"
  shows "\<exists>v. map_of (sc_resolved s) (cache_key L t) = Some v
     \<and> (map_of cache (cache_key L t) = Some v \<or> Answered (cache_key L t) v \<in> set es)"
proof -
  let ?k = "cache_key L t"
  have nb: "\<forall>e. Broken ?k e \<notin> set es" using run_error [OF run assms(3)] by blast
  have "map_of (sc_resolved s) ?k \<noteq> None"
  proof (cases "map_of cache ?k")
    case None
    then have "?k \<in> fresh_keys L cache ts" using assms(4) unfolding fresh_keys_def by blast
    then have "?k \<in> set (asked es)" using run_asked [OF run] start_waiting(2) [of L cache ts] assms(2) by (simp add: scan_done_def)
    moreover have "mset (asked es) = mset (finished es)" using run_finished [OF run] assms(2) by (simp add: scan_done_def)
    then have "set (asked es) = set (finished es)" by (rule mset_eq_setD)
    ultimately have "?k \<in> set (finished es)" by blast
    with run_resolved [OF run, of ?k] nb show ?thesis by blast
  next
    case (Some w)
    then show ?thesis using start_resolved(2) [OF assms(4), of cache L] run_resolved [OF run, of ?k] by simp
  qed
  then obtain v where v: "map_of (sc_resolved s) ?k = Some v" by blast
  with run_resolved [OF run, of ?k v] start_resolved(1) [of L cache ts ?k v] show ?thesis by blast
qed

text \<open>
  C32: every text is asked about once. However the tasks of a classification are interleaved, when they
  are done the classifier was asked exactly about the keys that were not in the cache, each once, and
  each question was answered or broke once; and if none broke, every target has a verdict, which is
  the cached one or an answer to a question about its key.
\<close>

theorem each_text_asked_once:
  assumes "classify_run slots bound answer (start_scan L cache ts) es s" and "scan_done s"
  shows "distinct (asked es) \<and> set (asked es) = fresh_keys L cache ts \<and> mset (finished es) = mset (asked es)
     \<and> int (length ts) - int (reused_count L cache ts) = int (length (asked es))
     \<and> (sc_error s = None \<longrightarrow> (\<forall>t \<in> set ts. \<exists>v. map_of (sc_resolved s) (cache_key L t) = Some v
          \<and> (map_of cache (cache_key L t) = Some v \<or> Answered (cache_key L t) v \<in> set es)))"
proof -
  have a: "asked es = dict_keys (sc_waiting (start_scan L cache ts))"
    using run_asked [OF assms(1)] assms(2) by (simp add: scan_done_def)
  have f: "mset (finished es) = mset (asked es)"
    using run_finished [OF assms(1)] assms(2) by (simp add: scan_done_def)
  have n: "int (length ts) - int (reused_count L cache ts) = int (length (asked es))"
    using start_waiting(3) [of L cache ts] by (simp add: reused_count_def a)
  show ?thesis using a f n run_verdict [OF assms] start_waiting [of L cache ts] by simp
qed

section \<open>The end of a scan\<close>

text \<open>
  a scan ends, whatever the order of its tasks and the answers. It takes at most two steps for each
  key that was not in the cache, exactly two when its tasks are done, and as long as they are not done
  some task can go on, unless the classifier never answers.
\<close>

theorem scan_ends:
  assumes "classify_run slots bound answer (start_scan L cache ts) es s"
  shows "length es \<le> 2 * card (fresh_keys L cache ts)
     \<and> (scan_done s \<longleftrightarrow> length es = 2 * card (fresh_keys L cache ts))
     \<and> (scan_done s \<or> slots = 0 \<or> (\<forall>r. \<not> answer r) \<or> (\<exists>e s'. classify_step slots bound answer s e s'))"
proof -
  have c: "length (sc_waiting (start_scan L cache ts)) = card (fresh_keys L cache ts)"
    using start_waiting [of L cache ts] by (metis distinct_card length_map)
  have m: "2 * card (fresh_keys L cache ts) = length es + 2 * length (sc_waiting s) + length (sc_running s)"
    using run_measure [OF assms] c by simp
  have "\<exists>e s'. classify_step slots bound answer s e s'" if "\<not> scan_done s" "slots \<noteq> 0" "answer r" for r
  proof (cases "sc_running s")
    case Nil
    with that(1) obtain k t ws where "sc_waiting s = (k, t) # ws" unfolding scan_done_def by (metis neq_Nil_conv surj_pair)
    with Nil that(2) show ?thesis using classify_step.ask [of s k t ws slots bound answer] by auto
  next
    case (Cons kt ys)
    then obtain k t where q: "sc_running s = [] @ (k, t) # ys" by (cases kt) simp
    with that(3) show ?thesis
      using classify_step.answered [OF q] classify_step.broken [OF q] by (cases r) blast+
  qed
  then have "scan_done s \<or> slots = 0 \<or> (\<forall>r. \<not> answer r) \<or> (\<exists>e s'. classify_step slots bound answer s e s')" by blast
  moreover have "scan_done s \<longleftrightarrow> length (sc_waiting s) = 0 \<and> length (sc_running s) = 0" by (simp add: scan_done_def)
  then have "scan_done s \<longleftrightarrow> length es = 2 * card (fresh_keys L cache ts)" using m by linarith
  moreover have "length es \<le> 2 * card (fresh_keys L cache ts)" using m by linarith
  ultimately show ?thesis by blast
qed

text \<open>A run that every task answers.\<close>

lemma scan_finishes:
  assumes "0 < slots" and "answer (Inr v)"
  shows "\<exists>es s'. classify_run slots bound answer s es s' \<and> scan_done s' \<and> sc_error s' = sc_error s"
proof (induction "2 * length (sc_waiting s) + length (sc_running s)" arbitrary: s rule: less_induct)
  case less
  show ?case
  proof (cases "sc_running s")
    case (Cons kt ys)
    then obtain k t where r: "sc_running s = [] @ (k, t) # ys" by (cases kt) simp
    note st = classify_step.answered [of s "[]" k t ys answer v slots bound, OF r assms(2)]
    from less [of "s\<lparr>sc_running := [] @ ys, sc_resolved := dict_set k v (sc_resolved s), sc_cache := remember bound k v (sc_cache s)\<rparr>"] Cons
    obtain es s' where "classify_run slots bound answer (s\<lparr>sc_running := [] @ ys, sc_resolved := dict_set k v (sc_resolved s),
        sc_cache := remember bound k v (sc_cache s)\<rparr>) es s'" "scan_done s'" "sc_error s' = sc_error s" by auto
    with classify_run.step [OF st] show ?thesis by blast
  next
    case Nil
    show ?thesis
    proof (cases "sc_waiting s")
      case Nil
      with \<open>sc_running s = []\<close> show ?thesis by (intro exI [of _ "[]"] exI [of _ s]) (simp add: scan_done_def classify_run.stop)
    next
      case (Cons kt ws)
      then obtain k t where w: "sc_waiting s = (k, t) # ws" by (cases kt) simp
      have "length (sc_running s) < slots" using Nil assms(1) by simp
      note st = classify_step.ask [of s k t ws slots bound answer, OF w this]
      from less [of "s\<lparr>sc_waiting := ws, sc_running := sc_running s @ [(k, t)]\<rparr>"] Nil w
      obtain es s' where "classify_run slots bound answer (s\<lparr>sc_waiting := ws, sc_running := sc_running s @ [(k, t)]\<rparr>) es s'"
          "scan_done s'" "sc_error s' = sc_error s" by auto
      with classify_run.step [OF st] show ?thesis by blast
    qed
  qed
qed

section \<open>The bounds\<close>

text \<open>A cache within its bound, whose verdicts are answers of the classifier and no outages.\<close>

definition cache_ok :: "nat \<Rightarrow> (exn + opinion \<Rightarrow> bool) \<Rightarrow> verdict_cache \<Rightarrow> bool" where
  "cache_ok bound answer c = (dict_ok c \<and> length c \<le> bound \<and> (\<forall>v \<in> snd ` set c. \<not> vd_failed v \<and> answer (Inr v)))"

lemma dict_set_values: "set (dict_set k v d) \<subseteq> insert (k, v) (set d)" "snd ` set (dict_set k v d) \<subseteq> insert v (snd ` set d)"
proof -
  show set: "set (dict_set k v d) \<subseteq> insert (k, v) (set d)" by (induction d) (auto split: if_splits)
  show "snd ` set (dict_set k v d) \<subseteq> insert v (snd ` set d)" using image_mono [OF set, of snd] by simp
qed

lemma remember_ok: "cache_ok bound answer c \<Longrightarrow> answer (Inr v) \<Longrightarrow> cache_ok bound answer (remember bound k v c)"
proof -
  assume c: "cache_ok bound answer c" and a: "answer (Inr v)"
  let ?d = "dict_set k v c"
  have "dict_ok (drop n ?d)" for n using c by (simp add: cache_ok_def distinct_drop flip: drop_map)
  moreover have "snd ` set (drop n ?d) \<subseteq> insert v (snd ` set c)" for n
    using dict_set_values(2) [of k v c] set_drop_subset [of n ?d] by blast
  then have "\<not> vd_failed v \<Longrightarrow> \<forall>w \<in> snd ` set (drop n ?d). \<not> vd_failed w \<and> answer (Inr w)" for n
    using c a unfolding cache_ok_def by blast
  moreover have "length ?d - (length ?d - bound) \<le> bound" by linarith
  ultimately show ?thesis using c unfolding remember_def cache_ok_def Let_def by simp
qed

lemma remember_origin: "(k', w) \<in> set (remember bound k v c) \<Longrightarrow> (k', w) \<in> set c \<or> k' = k \<and> w = v"
  using dict_set_values(1) [of k v c] by (auto simp: remember_def Let_def split: if_splits dest!: in_set_dropD)

lemma run_cache:
  "classify_run slots bound answer s es s' \<Longrightarrow> cache_ok bound answer (sc_cache s) \<Longrightarrow>
     cache_ok bound answer (sc_cache s')
   \<and> (\<forall>k v. (k, v) \<in> set (sc_cache s') \<longrightarrow> (k, v) \<in> set (sc_cache s) \<or> Answered k v \<in> set es)"
proof (induction rule: classify_run.induct)
  case (step s e s' es s'')
  have "cache_ok bound answer (sc_cache s') \<and> (\<forall>k v. (k, v) \<in> set (sc_cache s') \<longrightarrow> (k, v) \<in> set (sc_cache s) \<or> e = Answered k v)"
    using step.hyps(1) step.prems by (cases e) (auto elim!: stepE intro: remember_ok dest!: remember_origin)
  with step.IH show ?case by (metis list.set_intros)
qed simp

text \<open>
  C33: a classification stays within its bounds at every moment, under every interleaving: no more than
  \<open>max_concurrency\<close> calls are in flight, the cache keeps one entry for a key and never grows past its
  size, it holds no verdict of an outage, and each of its entries was there before or is an answer to a
  question about its key.
\<close>

theorem scan_stays_bounded:
  assumes "classify_run slots bound answer (start_scan L cache ts) es s" and "cache_ok bound answer cache"
  shows "length (sc_running s) \<le> slots \<and> cache_ok bound answer (sc_cache s)
     \<and> (\<forall>k v. (k, v) \<in> set (sc_cache s) \<longrightarrow> (k, v) \<in> set cache \<or> Answered k v \<in> set es)"
  using run_slots [OF assms(1)] run_cache [OF assms(1)] assms(2) by simp


section \<open>The union is never less strict\<close>

definition opinion_ok :: "opinion \<Rightarrow> bool" where
  "opinion_ok v = (0 \<le> vd_severity v \<and> vd_severity v \<le> 1 \<and> 0 \<le> vd_confidence v \<and> vd_confidence v \<le> 1)"

lemma threat_of_dict [simp]: "threat_of_dict (threat_to_dict t) = t"
  by (simp add: threat_of_dict_def threat_to_dict_def field_or_def Let_def comp_def)

lemma base_threats [simp]: "detail_threats (adversarial_result a p ts) = map threat_to_dict ts"
  by (simp add: detail_threats_def adversarial_result_def field_or_def Let_def)

lemma set_detail_simps [simp]: "lr_score (set_detail k v r) = lr_score r" "lr_action (set_detail k v r) = lr_action r"
  "lr_passed (set_detail k v r) = lr_passed r" "lr_details (set_detail k v r) = dict_set k v (lr_details r)"
  by (simp_all add: set_detail_def)

lemma coherence_append: "\<forall>t \<in> set us. 0 \<le> ta_severity t \<and> 0 \<le> ta_confidence t \<Longrightarrow> compute_coherence (ts @ us) \<le> compute_coherence ts"
  by (rule compute_coherence_mono) (simp add: degrade_append degrade_le)

lemma max_severity_append: "ts \<noteq> [] \<Longrightarrow> max_severity ts \<le> max_severity (ts @ us)"
  by (simp add: max_severity_def Max_mono image_mono)

text \<open>What the union is, over the threats of the patterns.\<close>

lemma union_result_threats:
  "map threat_of_dict (detail_threats (union_result a (adversarial_result a p ts) pairs dropped reused)) = ts @ news ts pairs"
  "lr_score (union_result a (adversarial_result a p ts) pairs dropped reused) = compute_coherence (ts @ news ts pairs)"
  "detail_threats (union_result a (adversarial_result a p ts) pairs dropped reused) = map threat_to_dict (ts @ news ts pairs)"
proof -
  have c: "map threat_of_dict (detail_threats (adversarial_result a p ts)) = ts" by (simp add: comp_def)
  have k: "map_of (lr_details (adversarial_result a p ts)) ''threats'' = Some (JArr (map threat_to_dict ts))"
    by (simp add: adversarial_result_def Let_def)
  show d: "detail_threats (union_result a (adversarial_result a p ts) pairs dropped reused) = map threat_to_dict (ts @ news ts pairs)"
    unfolding union_result_def Let_def c using k by (simp add: detail_threats_def field_or_def)
  show "map threat_of_dict (detail_threats (union_result a (adversarial_result a p ts) pairs dropped reused)) = ts @ news ts pairs"
    unfolding d by (simp add: comp_def)
  have "lr_score (adversarial_result a p ts) = compute_coherence ts" by (simp add: adversarial_result_def Let_def)
  then show "lr_score (union_result a (adversarial_result a p ts) pairs dropped reused) = compute_coherence (ts @ news ts pairs)"
    unfolding union_result_def Let_def c by (simp add: comp_def)
qed

text \<open>The action and the pass of the union, over those of the patterns.\<close>

lemma union_action:
  assumes "u = union_result a (adversarial_result a p ts) pairs dropped reused" and "n = news ts pairs"
  shows "lr_action u = (if n = [] then lr_action (adversarial_result a p ts)
       else if av_block a \<and> 90 / 100 \<le> max_severity (ts @ n) then ''block''
       else if compute_coherence (ts @ n) < av_threshold a then ''alert'' else lr_action (adversarial_result a p ts))"
    and "lr_passed u = (if n = [] then lr_passed (adversarial_result a p ts)
       else if av_block a \<and> 90 / 100 \<le> max_severity (ts @ n) then False
       else if compute_coherence (ts @ n) < av_threshold a then False else lr_passed (adversarial_result a p ts))"
proof -
  have c: "map threat_of_dict (detail_threats (adversarial_result a p ts)) = ts" by (simp add: comp_def)
  show "lr_action u = (if n = [] then lr_action (adversarial_result a p ts)
       else if av_block a \<and> 90 / 100 \<le> max_severity (ts @ n) then ''block''
       else if compute_coherence (ts @ n) < av_threshold a then ''alert'' else lr_action (adversarial_result a p ts))"
    unfolding assms union_result_def Let_def c by (simp add: comp_def)
  show "lr_passed u = (if n = [] then lr_passed (adversarial_result a p ts)
       else if av_block a \<and> 90 / 100 \<le> max_severity (ts @ n) then False
       else if compute_coherence (ts @ n) < av_threshold a then False else lr_passed (adversarial_result a p ts))"
    unfolding assms union_result_def Let_def c by (simp add: comp_def)
qed

text \<open>Everything that makes a result stricter than another one.\<close>

definition stricter :: "layer_result \<Rightarrow> layer_result \<Rightarrow> bool" where
  "stricter r b = (lr_score r \<le> lr_score b \<and> (lr_action b = ''block'' \<longrightarrow> lr_action r = ''block'')
     \<and> (lr_passed r \<longrightarrow> lr_passed b) \<and> (lr_action r = ''pass'' \<longrightarrow> lr_action b = ''pass''))"

lemma block_critical: "lr_action (adversarial_result a p ts) = ''block'' \<Longrightarrow> av_block a \<and> ts \<noteq> [] \<and> 90 / 100 \<le> max_severity ts"
  by (auto simp: adversarial_result_def adversarial_verdict_def Let_def max_severity_def split: if_splits)

lemma union_stricter:
  assumes "\<forall>x \<in> set pairs. opinion_ok (snd x)"
  shows "stricter (union_result a (adversarial_result a p ts) pairs dropped reused) (adversarial_result a p ts)"
proof -
  let ?b = "adversarial_result a p ts" and ?n = "news ts pairs"
  let ?u = "union_result a ?b pairs dropped reused"
  note A = union_action [OF refl refl, of a p ts pairs dropped reused]
  have "\<forall>t \<in> set ?n. 0 \<le> ta_severity t \<and> 0 \<le> ta_confidence t"
    using assms by (force simp: news_def opinion_threat_def opinion_ok_def)
  then have "lr_score ?u \<le> lr_score ?b"
    unfolding union_result_threats(2) by (simp add: adversarial_result_def Let_def coherence_append)
  moreover have "lr_action ?u = ''block''" if "lr_action ?b = ''block''"
  proof -
    from block_critical [OF that] have c: "av_block a" "ts \<noteq> []" "90 / 100 \<le> max_severity ts" by blast+
    have "90 / 100 \<le> max_severity (ts @ ?n)" using c(3) max_severity_append [OF c(2), of ?n] by linarith
    then show ?thesis unfolding A(1) using c(1) that by simp
  qed
  moreover have "lr_passed ?b" if "lr_passed ?u" using that unfolding A(2) by (simp split: if_splits)
  moreover have "lr_action ?b = ''pass''" if "lr_action ?u = ''pass''" using that unfolding A(1) by (simp split: if_splits)
  ultimately show ?thesis unfolding stricter_def by blast
qed

section \<open>Classifiers\<close>

text \<open>What the layer relies on: an answer that is a verdict rates within the unit interval.\<close>

locale classifier =
  fixes answer :: "exn + opinion \<Rightarrow> bool"
  assumes rated: "answer (Inr v) \<Longrightarrow> opinion_ok v"
begin

lemma run_opinions:
  assumes "classify_run slots bound answer (start_scan L cache ts) es s" and "scan_done s" and "sc_error s = None"
    and "cache_ok bound answer cache"
  shows "\<forall>x \<in> set (verdicts L s ts). opinion_ok (snd x)"
proof -
  have "opinion_ok (the (map_of (sc_resolved s) (cache_key L t)))" if t: "t \<in> set ts" for t
  proof -
    from run_verdict [OF assms(1,2,3) t] obtain v
      where v: "map_of (sc_resolved s) (cache_key L t) = Some v"
        "map_of cache (cache_key L t) = Some v \<or> Answered (cache_key L t) v \<in> set es" by blast
    have run: "Answered k w \<in> set es \<Longrightarrow> classify_run slots bound answer s0 es s1 \<Longrightarrow> answer (Inr w)" for k w es s0 s1
    proof (induction es arbitrary: s0)
      case (Cons e es)
      from Cons.prems(2) obtain s2 where "classify_step slots bound answer s0 e s2" "classify_run slots bound answer s2 es s1"
        by (auto elim: classify_run.cases)
      with Cons show ?case by (auto elim!: answeredE)
    qed simp
    have "answer (Inr v)" using v(2)
    proof
      assume "map_of cache (cache_key L t) = Some v"
      then have "v \<in> snd ` set cache" by (force dest: map_of_SomeD)
      with assms(4) show ?thesis by (auto simp: cache_ok_def)
    qed (rule run [OF _ assms(1)])
    with rated v(1) show ?thesis by simp
  qed
  then show ?thesis by (simp add: verdicts_def)
qed

lemma evaluation_stricter:
  assumes "aevaluates str repr L answer m p ctx cache (Inr res) cache'" and "cache_ok (mo_max_cache m) answer cache"
  shows "\<exists>base. adversarial_evaluate str repr (mo_base m) p ctx = Inr base \<and> stricter res base
     \<and> set (detail_threats base) \<subseteq> set (detail_threats res) \<and> cache_ok (mo_max_cache m) answer cache'"
  using assms(1)
proof cases
  case (classified base ts dropped es s)
  obtain threats where b: "base = adversarial_result (mo_base m) p threats"
    using classified(3) by (auto simp: adversarial_evaluate_def exn_simps)
  have "cache_ok (mo_max_cache m) answer cache'"
    using run_cache [OF classified(5)] assms(2) classified(2) by simp
  moreover have "stricter res base"
    using union_stricter [OF run_opinions [OF classified(5,6,7) assms(2)]] classified(1) unfolding b by simp
  moreover have "set (detail_threats base) \<subseteq> set (detail_threats res)"
    using classified(1) unfolding b by (auto simp: union_result_threats(3))
  ultimately show ?thesis using classified(3) by blast
qed

end


lemma unit_float_ok: "unit_float pf j = Inr x \<Longrightarrow> 0 \<le> x \<and> x \<le> 1"
  by (auto simp: unit_float_def exn_simps round_to_unit_interval)

lemma read_opinion_ok: "read_opinion str pf j = Inr v \<Longrightarrow> opinion_ok v"
  by (auto simp: read_opinion_def exn_simps opinion_ok_def dest!: unit_float_ok)

lemma neutral_ok: "opinion_ok neutral_opinion"
  by (simp add: opinion_ok_def neutral_opinion_def)

lemma parse_verdict_ok: "parse_verdict str pf to_json raw = Inr v \<Longrightarrow> opinion_ok v"
  by (auto simp: parse_verdict_def fails_open_def exn_simps neutral_ok split: sum.splits exn.splits dest: read_opinion_ok)

interpretation backed: classifier "may_answer str pf to_json tr" for str pf to_json tr
proof
  fix v
  assume "may_answer str pf to_json tr (Inr v)"
  then show "opinion_ok v"
    by (cases tr) (auto simp: claude_opinion_def slm_opinion_def neutral_ok split: if_splits sum.splits option.splits dest: parse_verdict_ok [OF sym])
qed

text \<open>
  C31: the model cannot relax the layer. Whatever the model replies, over the API or a local endpoint,
  and in whatever order its replies arrive, an evaluation that returns is at least as strict as the one
  of the patterns alone: its score is no higher, a block stays a block, it passes and says \<open>pass\<close> only
  where they do, and it keeps each of their threats. The cache stays within its bounds.
\<close>

theorem model_never_relaxes:
  assumes "aevaluates str repr L (may_answer str pf to_json tr) m p ctx cache (Inr res) cache'"
    and "cache_ok (mo_max_cache m) (may_answer str pf to_json tr) cache"
  shows "\<exists>base. adversarial_evaluate str repr (mo_base m) p ctx = Inr base \<and> lr_score res \<le> lr_score base
     \<and> (lr_action base = ''block'' \<longrightarrow> lr_action res = ''block'') \<and> (lr_passed res \<longrightarrow> lr_passed base)
     \<and> (lr_action res = ''pass'' \<longrightarrow> lr_action base = ''pass'')
     \<and> set (detail_threats base) \<subseteq> set (detail_threats res)
     \<and> cache_ok (mo_max_cache m) (may_answer str pf to_json tr) cache'"
  using backed.evaluation_stricter [OF assms] unfolding stricter_def by blast

section \<open>A scan of one text\<close>

definition sample_opinion :: opinion where
  "sample_opinion = \<lparr>vd_attack = True, vd_family = ''action_injection'', vd_severity = 95 / 100, vd_confidence = 80 / 100,
     vd_description = ''an order'', vd_failed = False\<rparr>"

definition sample_loads :: "string \<Rightarrow> exn + json" where
  "sample_loads s = (if s = ''v'' then Inr (JObj [(''is_attack'', JBool True), (''family'', JStr ''action_injection''),
       (''severity'', JFloat (95 / 100)), (''confidence'', JFloat (80 / 100)), (''description'', JStr ''an order'')])
     else Inl (ValueError ''Expecting value''))"

lemma sample_answer: "may_answer (\<lambda>j. []) (\<lambda>s. None) sample_loads (Claude (Some ''key'') [] True) (Inr sample_opinion)"
proof -
  have u: "unfenced ''v'' = ''v''" by (simp add: unfenced_def strip_def is_space_def backtick_def Let_def numeral_3_eq_3)
  have r: "round_to 4 (95 / 100) = 95 / 100" "round_to 4 (80 / 100) = 80 / 100"
    using round_half_even_of_int [of 9500] round_half_even_of_int [of 8000] by (simp_all add: round_to_def)
  have "read_opinion (\<lambda>j. []) (\<lambda>s. None) (JObj [(''is_attack'', JBool True), (''family'', JStr ''action_injection''),
       (''severity'', JFloat (95 / 100)), (''confidence'', JFloat (80 / 100)), (''description'', JStr ''an order'')]) = Inr sample_opinion"
    using r by (simp add: read_opinion_def field_or_def unit_float_def plain_text_def sample_opinion_def)
  then have "parse_verdict (\<lambda>j. []) (\<lambda>s. None) sample_loads ''v'' = Inr sample_opinion"
    by (simp add: parse_verdict_def u sample_loads_def fails_open_def)
  then have "claude_opinion (\<lambda>j. []) (\<lambda>s. None) sample_loads (Some ''key'') [] True (Inr [(''text'', ''v'')]) = Inr sample_opinion"
    by (simp add: claude_opinion_def or_environment_def str_truthy_def)
  then show ?thesis by (metis may_answer.simps(1))
qed

definition sample_model_layer :: model_layer where
  "sample_model_layer = make_model_layer (70 / 100) [] True (Some []) [] 8 200 4096 False"

lemma each_text_asked_once_witness:
  "\<exists>es s. classify_run 8 10 (\<lambda>r. True) (start_scan sample_lib [] [(''a'', ''x''), (''b'', ''x''), (''a'', ''x'')]) es s
     \<and> set (asked es) = {cache_key sample_lib (''a'', ''x''), cache_key sample_lib (''b'', ''x'')}
     \<and> reused_count sample_lib [] [(''a'', ''x''), (''b'', ''x''), (''a'', ''x'')] = 1"
proof -
  let ?ts = "[(''a'', ''x''), (''b'', ''x''), (''a'', ''x'')]"
  obtain es s where run: "classify_run 8 10 (\<lambda>r. True) (start_scan sample_lib [] ?ts) es s" "scan_done s"
    using scan_finishes [of 8 "\<lambda>r. True" neutral_opinion 10 "start_scan sample_lib [] ?ts"] by auto
  note E = each_text_asked_once [OF run]
  have f: "fresh_keys sample_lib [] ?ts = {cache_key sample_lib (''a'', ''x''), cache_key sample_lib (''b'', ''x'')}"
    by (auto simp: fresh_keys_def)
  have "cache_key sample_lib (''a'', ''x'') \<noteq> cache_key sample_lib (''b'', ''x'')" by (simp add: cache_key_def)
  then have "card (set (asked es)) = 2" using E unfolding f by simp
  moreover have "card (set (asked es)) = length (asked es)" using E distinct_card by blast
  ultimately have "reused_count sample_lib [] ?ts = 1" using E by simp
  with run(1) E show ?thesis unfolding f by blast
qed

lemma scan_ends_witness:
  "\<exists>es s. classify_run 8 10 (\<lambda>r. True) (start_scan sample_lib [] [(''a'', ''x'')]) es s \<and> length es = 2"
proof -
  obtain es s where run: "classify_run 8 10 (\<lambda>r. True) (start_scan sample_lib [] [(''a'', ''x'')]) es s" "scan_done s"
    using scan_finishes [of 8 "\<lambda>r. True" neutral_opinion 10 "start_scan sample_lib [] [(''a'', ''x'')]"] by auto
  have "fresh_keys sample_lib [] [(''a'', ''x'')] = {cache_key sample_lib (''a'', ''x'')}" by (auto simp: fresh_keys_def)
  with scan_ends [OF run(1)] run show ?thesis by auto
qed

lemma scan_stays_bounded_witness:
  "\<exists>es s. classify_run 8 10 (\<lambda>r. True) (start_scan sample_lib [] [(''a'', ''x'')]) es s \<and> scan_done s \<and> length (sc_cache s) \<le> 10"
proof -
  obtain es s where run: "classify_run 8 10 (\<lambda>r. True) (start_scan sample_lib [] [(''a'', ''x'')]) es s" "scan_done s"
    using scan_finishes [of 8 "\<lambda>r. True" neutral_opinion 10 "start_scan sample_lib [] [(''a'', ''x'')]"] by auto
  have "cache_ok 10 (\<lambda>r. True) []" by (simp add: cache_ok_def)
  from scan_stays_bounded [OF run(1) this] run show ?thesis by (auto simp: cache_ok_def)
qed

text \<open>An order in a tool's output, which no pattern reports, is blocked.\<close>

lemma sample_evaluation:
  "\<exists>res cache. aevaluates (\<lambda>j. []) (\<lambda>j. []) sample_lib (may_answer (\<lambda>j. []) (\<lambda>s. None) sample_loads (Claude (Some ''key'') [] True))
     sample_model_layer (default_profile ''u'' ''t'' ''n'') [(''input'', JStr ''x'')] [] (Inr res) cache"
proof -
  let ?a = "may_answer (\<lambda>j. []) (\<lambda>s. None) sample_loads (Claude (Some ''key'') [] True)"
  have e: "each f (JArr []) = Inr []" "gather g (JArr []) = Inr []" for f g
    by (simp_all add: each_def gather_def listed_def or_json_def)
  have "\<exists>base. adversarial_evaluate (\<lambda>j. []) (\<lambda>j. []) (mo_base sample_model_layer) (default_profile ''u'' ''t'' ''n'')
      [(''input'', JStr ''x'')] = Inr base"
    by (simp add: adversarial_evaluate_def all_threats_def detect_channel_threats_def sample_model_layer_def make_model_layer_def
        make_adversarial_def Let_def field_or_def or_json_def e declared_members_def detect_sequences_def listed_def
        detect_arguments_def argument_threats_def argument_threat_def)
  moreover obtain ts d where "chosen_targets sample_model_layer [(''input'', JStr ''x'')] = Inr (ts, d)"
    by (simp add: chosen_targets_def scan_targets_def sample_model_layer_def make_model_layer_def Let_def field_or_def or_json_def e)
  moreover have "0 < mo_concurrency sample_model_layer" by (simp add: sample_model_layer_def make_model_layer_def)
  then obtain es s where "classify_run (mo_concurrency sample_model_layer) (mo_max_cache sample_model_layer) ?a (start_scan sample_lib [] ts) es s"
      "scan_done s" "sc_error s = None"
    using scan_finishes [where answer = ?a and v = sample_opinion and slots = "mo_concurrency sample_model_layer"
        and bound = "mo_max_cache sample_model_layer" and s = "start_scan sample_lib [] ts"] sample_answer
    unfolding start_scan_simps by blast
  ultimately show ?thesis by (blast intro: aevaluates.classified)
qed

lemma model_never_relaxes_witness:
  "\<exists>res cache base. aevaluates (\<lambda>j. []) (\<lambda>j. []) sample_lib (may_answer (\<lambda>j. []) (\<lambda>s. None) sample_loads (Claude (Some ''key'') [] True))
     sample_model_layer (default_profile ''u'' ''t'' ''n'') [(''input'', JStr ''x'')] [] (Inr res) cache
   \<and> adversarial_evaluate (\<lambda>j. []) (\<lambda>j. []) (mo_base sample_model_layer) (default_profile ''u'' ''t'' ''n'') [(''input'', JStr ''x'')] = Inr base
   \<and> lr_score res \<le> lr_score base"
proof -
  obtain res cache where r: "aevaluates (\<lambda>j. []) (\<lambda>j. []) sample_lib (may_answer (\<lambda>j. []) (\<lambda>s. None) sample_loads (Claude (Some ''key'') [] True))
     sample_model_layer (default_profile ''u'' ''t'' ''n'') [(''input'', JStr ''x'')] [] (Inr res) cache"
    using sample_evaluation by blast
  from model_never_relaxes [OF r] r show ?thesis by (auto simp: cache_ok_def)
qed

section \<open>Observations\<close>

text \<open>
  A verdict with an integer beyond the floats is not malformed content to \<open>parse_verdict\<close>: its
  \<open>OverflowError\<close> escapes, and with it the evaluation.
\<close>

lemma huge_severity_raises:
  assumes "to_json (unfenced raw) = Inr (JObj [(''severity'', JInt (10 ^ 400))])"
  shows "parse_verdict str pf to_json raw = Inl (OtherError ''OverflowError'' ''int too large to convert to float'')"
proof -
  have "float_limit \<le> 2 ^ 1024" by (simp add: float_limit_def)
  also have "(2::int) ^ 1024 \<le> 10 ^ 400" by simp
  finally have "\<not> \<bar>(10::int) ^ 400\<bar> < float_limit" by simp
  then have "unit_float pf (JInt (10 ^ 400)) = Inl (OtherError ''OverflowError'' ''int too large to convert to float'')"
    unfolding unit_float_def float_of_json.simps by (simp only: if_False bindS_simps)
  then show ?thesis
    by (simp add: parse_verdict_def assms read_opinion_def field_or_def fails_open_def del: float_of_json.simps)
qed

text \<open>
  The union does not apply the last rule of \<open>evaluate\<close>: a threat of severity 0.6 that only the model
  sees leaves the action at \<open>pass\<close>, where the same threat from a pattern gives an alert.
\<close>

lemma union_keeps_pass:
  assumes "v = \<lparr>vd_attack = True, vd_family = ''jailbreak'', vd_severity = 60 / 100, vd_confidence = 50 / 100,
      vd_description = [], vd_failed = False\<rparr>" and "av_threshold a = 70 / 100"
  shows "lr_action (union_result a (adversarial_result a p []) [((''direct_prompt'', t), v)] 0 0) = ''pass''
     \<and> fst (adversarial_verdict a (news [] [((''direct_prompt'', t), v)])) = ''alert''"
proof -
  have n: "news [] [((''direct_prompt'', t), v)] = [opinion_threat ((''direct_prompt'', t), v)]"
    by (simp add: news_def assms(1))
  have w: "max_severity [opinion_threat ((''direct_prompt'', t), v)] = 60 / 100"
    by (simp add: max_severity_def opinion_threat_def assms(1))
  have c: "compute_coherence [opinion_threat ((''direct_prompt'', t), v)] = 85 / 100"
    using round_half_even_of_int [of 8500]
    by (simp add: compute_coherence_def opinion_threat_def assms(1) round_to_def)
  have one: "compute_coherence [] = 1" by (simp add: compute_coherence_def round_to_def round_half_even_of_int [of 10000, simplified])
  have "lr_action (adversarial_result a p []) = ''pass''"
    using one assms(2) by (simp add: adversarial_result_def adversarial_verdict_def Let_def max_severity_def)
  moreover have "fst (adversarial_verdict a (news [] [((''direct_prompt'', t), v)])) = ''alert''"
    using w c assms(2) by (simp add: adversarial_verdict_def n Let_def)
  ultimately show ?thesis
    using union_action(1) [OF refl refl, of a p "[]" "[((''direct_prompt'', t), v)]" 0 0] w c assms(2) by (simp add: n)
qed

text \<open>The definitions of tools, which the patterns scan, are no target of the classifier.\<close>

lemma tool_definitions_unclassified:
  "scan_targets ((''tool_definitions'', j) # ctx) = scan_targets ctx"
  by (simp add: scan_targets_def field_or_def spoken_def)

end
