(* ===== verification/Checkpoint_Stores.thy ===== *)
theory Checkpoint_Stores
  imports Checkpoints
begin

text \<open>
  The store interface of layers/checkpoint.py as a locale, its client lemmas proved once, and its
  interpretations on the three backends. The time of a save is an argument: files are listed by
  modification time and rows by insertion second, so the laws on the order of the listing hold
  for a save made later than those before it.
\<close>

section \<open>The interface\<close>

fun save_all ::
  "('t \<Rightarrow> snapshot \<Rightarrow> 's \<Rightarrow> (exn + string) \<times> 's) \<Rightarrow> ('t \<times> snapshot) list \<Rightarrow> 's \<Rightarrow> 's" where
  "save_all save [] s = s"
| "save_all save ((t, x) # xs) s = save_all save xs (snd (save t x s))"

locale checkpoint_store =
  fixes save :: "'t \<Rightarrow> snapshot \<Rightarrow> 's \<Rightarrow> (exn + string) \<times> 's"
    and load :: "string \<Rightarrow> 's \<Rightarrow> decode_error + snapshot option"
    and list_ids :: "'s \<Rightarrow> string list"
    and latest :: "'s \<Rightarrow> decode_error + snapshot option"
    and valid :: "'s \<Rightarrow> bool"
    and later :: "'t \<Rightarrow> 's \<Rightarrow> bool"
    and accepts :: "string \<Rightarrow> bool"
  assumes save_result: "accepts (cs_checkpoint_id x) \<Longrightarrow> fst (save t x s) = Inr (cs_checkpoint_id x)"
    and save_refused: "\<not> accepts (cs_checkpoint_id x) \<Longrightarrow> \<exists>m. save t x s = (Inl (ValueError m), s)"
    and save_valid: "valid s \<Longrightarrow> valid (snd (save t x s))"
    and load_saved: "valid s \<Longrightarrow> accepts (cs_checkpoint_id x) \<Longrightarrow>
        \<exists>y. load (cs_checkpoint_id x) (snd (save t x s)) = Inr (Some y) \<and> value_equal y x"
    and load_other: "valid s \<Longrightarrow> i \<noteq> cs_checkpoint_id x \<Longrightarrow> load i (snd (save t x s)) = load i s"
    and ids_saved: "valid s \<Longrightarrow> accepts (cs_checkpoint_id x) \<Longrightarrow>
        set (list_ids (snd (save t x s))) = insert (cs_checkpoint_id x) (set (list_ids s))"
    and ids_distinct: "valid s \<Longrightarrow> distinct (list_ids s)"
    and ids_loadable: "valid s \<Longrightarrow> i \<in> set (list_ids s) \<Longrightarrow>
        \<exists>y. load i s = Inr (Some y) \<and> cs_checkpoint_id y = i"
    and fresh_last: "valid s \<Longrightarrow> accepts (cs_checkpoint_id x) \<Longrightarrow> later t s \<Longrightarrow>
        cs_checkpoint_id x \<notin> set (list_ids s) \<Longrightarrow>
        list_ids (snd (save t x s)) = list_ids s @ [cs_checkpoint_id x]"
    and latest_law: "valid s \<Longrightarrow>
        latest s = (if list_ids s = [] then Inr None else load (last (list_ids s)) s)"
begin

lemma save_all_valid: "valid s \<Longrightarrow> valid (save_all save xs s)"
  by (induction xs arbitrary: s) (auto simp: save_valid)

lemma save_cases:
  assumes "valid s"
  shows "i = cs_checkpoint_id x \<and> accepts i \<and>
        (\<exists>y. load i (snd (save t x s)) = Inr (Some y) \<and> value_equal y x)
     \<or> load i (snd (save t x s)) = load i s"
proof (cases "accepts (cs_checkpoint_id x)")
  case True
  then show ?thesis using load_saved [OF assms True, of t] load_other [OF assms, of i x t] by metis
next
  case False
  then obtain m where "save t x s = (Inl (ValueError m), s)" using save_refused by blast
  then show ?thesis by simp
qed

lemma load_untouched:
  "valid s \<Longrightarrow> i \<notin> cs_checkpoint_id ` snd ` set xs \<Longrightarrow> load i (save_all save xs s) = load i s"
  by (induction xs arbitrary: s) (auto simp: save_valid load_other)

lemma load_last_saved:
  assumes "valid s" and "accepts (cs_checkpoint_id x)"
    and "cs_checkpoint_id x \<notin> cs_checkpoint_id ` snd ` set later_saves"
  shows "\<exists>y. load (cs_checkpoint_id x) (save_all save (earlier @ (t, x) # later_saves) s) = Inr (Some y)
     \<and> value_equal y x"
proof -
  have app: "save_all save (us @ vs) q = save_all save vs (save_all save us q)" for us vs q
    by (induction us arbitrary: q) auto
  let ?q = "save_all save earlier s"
  have q: "valid ?q" by (rule save_all_valid [OF assms(1)])
  have "load (cs_checkpoint_id x) (save_all save later_saves (snd (save t x ?q)))
      = load (cs_checkpoint_id x) (snd (save t x ?q))"
    by (rule load_untouched [OF save_valid [OF q] assms(3)])
  with load_saved [OF q assms(2), of t] show ?thesis by (simp add: app)
qed

lemma ids_save_all:
  assumes "valid s"
  shows "set (list_ids (save_all save xs s)) =
     set (list_ids s) \<union> {i \<in> cs_checkpoint_id ` snd ` set xs. accepts i}"
  using assms
proof (induction xs arbitrary: s)
  case (Cons p xs)
  obtain t x where p: "p = (t, x)" by (cases p)
  show ?case
  proof (cases "accepts (cs_checkpoint_id x)")
    case True
    with Cons.IH [OF save_valid [OF Cons.prems]] Cons.prems p show ?thesis by (auto simp: ids_saved)
  next
    case False
    then obtain m where "save t x s = (Inl (ValueError m), s)" using save_refused by blast
    with Cons False p show ?thesis by auto
  qed
qed simp

lemma latest_is_last_saved:
  assumes "valid s" and "accepts (cs_checkpoint_id x)" and "later t s"
    and "cs_checkpoint_id x \<notin> set (list_ids s)"
  shows "\<exists>y. latest (snd (save t x s)) = Inr (Some y) \<and> value_equal y x"
  using load_saved [OF assms(1,2), of t] fresh_last [OF assms]
  by (simp add: latest_law [OF save_valid [OF assms(1)]])

end

section \<open>In memory\<close>

type_synonym memory_store = "(string, snapshot) dict"

definition memory_save :: "unit \<Rightarrow> snapshot \<Rightarrow> memory_store \<Rightarrow> (exn + string) \<times> memory_store" where
  "memory_save t x s = (Inr (cs_checkpoint_id x), dict_set (cs_checkpoint_id x) x s)"

definition memory_load :: "string \<Rightarrow> memory_store \<Rightarrow> decode_error + snapshot option" where
  "memory_load i s = Inr (map_of s i)"

definition memory_list_ids :: "memory_store \<Rightarrow> string list" where
  "memory_list_ids s = dict_keys s"

definition memory_latest :: "memory_store \<Rightarrow> decode_error + snapshot option" where
  "memory_latest s = Inr (if s = [] then None else Some (snd (last s)))"

definition memory_valid :: "memory_store \<Rightarrow> bool" where
  "memory_valid s \<longleftrightarrow> dict_ok s \<and> (\<forall>i x. map_of s i = Some x \<longrightarrow> cs_checkpoint_id x = i)"

interpretation memory: checkpoint_store memory_save memory_load memory_list_ids memory_latest
  memory_valid "\<lambda>t s. True" "\<lambda>i. True"
proof unfold_locales
  fix s :: memory_store
  assume v: "memory_valid s"
  show "memory_latest s = (if memory_list_ids s = [] then Inr None
      else memory_load (last (memory_list_ids s)) s)"
  proof (cases s rule: rev_cases)
    case (snoc r p)
    with v have "map_of s (fst p) = Some (snd p)"
      by (intro map_of_is_SomeI) (simp_all add: memory_valid_def)
    with snoc show ?thesis by (simp add: memory_latest_def memory_list_ids_def memory_load_def)
  qed (simp add: memory_latest_def memory_list_ids_def)
qed (auto simp: memory_save_def memory_load_def memory_list_ids_def memory_valid_def keys_dict_set
    map_of_None_iff dest: map_of_SomeD split: if_splits intro: map_of_is_SomeI)

text \<open>
  Saving again under a present id keeps its place in the dictionary, so the latest snapshot is
  then not the most recently saved one (the file and SQLite backends move it to the end).
\<close>

lemma memory_resave_not_latest:
  assumes "cs_checkpoint_id a = ''a''" and "cs_checkpoint_id b = ''b''"
  shows "memory_latest (save_all memory_save [((), a), ((), b), ((), a)] []) = Inr (Some b)"
  using assms by (simp add: memory_save_def memory_latest_def)


section \<open>A directory of files\<close>

text \<open>
  A file has its content and its modification time; \<open>None\<close> is the content of a file whose writing
  was cut off, which \<open>json.loads\<close> refuses. The temporary file of a save has a random name \<open>rnd\<close>.
  The directory lists its files in some order.
\<close>

type_synonym directory = "(string, args option \<times> int) dict"

definition path_for :: "string \<Rightarrow> exn + string" where
  "path_for i = bindS (validate_storage_identifier i ''checkpoint id'') (\<lambda>_. Inr (i @ ''.json''))"

datatype file_step = CreateTemp string int | WriteTemp string args int | ReplaceFile string string

fun run_step :: "file_step \<Rightarrow> directory \<Rightarrow> directory" where
  "run_step (CreateTemp tmp t) d = dict_set tmp (None, t) d"
| "run_step (WriteTemp tmp payload t) d = dict_set tmp (Some payload, t) d"
| "run_step (ReplaceFile tmp target) d =
     (case map_of d tmp of None \<Rightarrow> d | Some f \<Rightarrow> dict_del tmp (dict_set target f d))"

definition temp_name :: "string \<Rightarrow> string \<Rightarrow> string" where
  "temp_name i rnd = ''.'' @ i @ ''-'' @ rnd @ ''.tmp''"

definition save_steps :: "string \<Rightarrow> int \<Rightarrow> snapshot \<Rightarrow> file_step list" where
  "save_steps rnd t x =
     (let i = cs_checkpoint_id x; tmp = temp_name i rnd
      in [CreateTemp tmp t, WriteTemp tmp (stored x) t, ReplaceFile tmp (i @ ''.json'')])"

definition run_steps :: "file_step list \<Rightarrow> directory \<Rightarrow> directory" where
  "run_steps steps d = fold run_step steps d"

definition file_save :: "string \<times> int \<Rightarrow> snapshot \<Rightarrow> directory \<Rightarrow> (exn + string) \<times> directory" where
  "file_save rt x d =
     (case path_for (cs_checkpoint_id x) of
        Inl e \<Rightarrow> (Inl e, d)
      | Inr path \<Rightarrow> (Inr (cs_checkpoint_id x), run_steps (save_steps (fst rt) (snd rt) x) d))"

definition read_json :: "args option \<Rightarrow> decode_error + args" where
  "read_json content = (case content of
     None \<Rightarrow> Inl (Fails (ValueError ''Expecting value'')) | Some payload \<Rightarrow> Inr payload)"

definition file_load :: "string \<Rightarrow> directory \<Rightarrow> decode_error + snapshot option" where
  "file_load i d =
     (case path_for i of
        Inl e \<Rightarrow> Inl (Fails e)
      | Inr path \<Rightarrow>
          (case map_of d path of
             None \<Rightarrow> Inr None
           | Some (content, t) \<Rightarrow>
               bindS (bindS (read_json content) snapshot_from_dict) (\<lambda>x. Inr (Some x))))"

definition is_json_name :: "string \<Rightarrow> bool" where
  "is_json_name n = suffix ''.json'' n"

definition stem :: "string \<Rightarrow> string" where
  "stem n = take (length n - 5) n"

definition file_list_ids :: "directory \<Rightarrow> string list" where
  "file_list_ids d = map (stem \<circ> fst) (sort_key (snd \<circ> snd) (filter (is_json_name \<circ> fst) d))"

definition file_latest :: "directory \<Rightarrow> decode_error + snapshot option" where
  "file_latest d = (if file_list_ids d = [] then Inr None else file_load (last (file_list_ids d)) d)"

text \<open>The checkpoint files of a directory hold whole snapshots under their own identifiers.\<close>

definition directory_ok :: "directory \<Rightarrow> bool" where
  "directory_ok d \<longleftrightarrow> dict_ok d \<and> (\<forall>n c t. is_json_name n \<longrightarrow> map_of d n = Some (c, t) \<longrightarrow>
     (\<exists>x. c = Some (stored x) \<and> n = cs_checkpoint_id x @ ''.json''
        \<and> storage_identifier (cs_checkpoint_id x)))"

definition written_before :: "string \<times> int \<Rightarrow> directory \<Rightarrow> bool" where
  "written_before rt d \<longleftrightarrow> (\<forall>n c t. map_of d n = Some (c, t) \<longrightarrow> t < snd rt)"

lemma path_for_Inr [exn_simps]: "path_for i = Inr q \<longleftrightarrow> storage_identifier i \<and> q = i @ ''.json''"
  by (auto simp: path_for_def validate_storage_identifier_def)

lemma path_for_refused:
  "\<not> storage_identifier i \<Longrightarrow> path_for i = Inl (ValueError ''invalid checkpoint id'')"
  by (simp add: path_for_def validate_storage_identifier_def)

lemma names [simp]: "is_json_name (i @ ''.json'')" "\<not> is_json_name (temp_name i rnd)"
  "stem (i @ ''.json'') = i" "i @ ''.json'' \<noteq> temp_name j rnd" "temp_name j rnd \<noteq> i @ ''.json''"
proof -
  show t: "\<not> is_json_name (temp_name i rnd)" for i
    by (simp add: is_json_name_def temp_name_def suffix_def append_eq_append_conv2 Cons_eq_append_conv)
  show j: "is_json_name (i @ ''.json'')" for i by (auto simp: is_json_name_def suffix_def)
  show "stem (i @ ''.json'') = i" by (simp add: stem_def)
  show "i @ ''.json'' \<noteq> temp_name j rnd" using t j by metis
  then show "temp_name j rnd \<noteq> i @ ''.json''" by metis
qed

lemma run_steps_lookup:
  "map_of (run_steps (save_steps rnd t x) d) n =
     (if n = cs_checkpoint_id x @ ''.json'' then Some (Some (stored x), t)
      else if n = temp_name (cs_checkpoint_id x) rnd then None else map_of d n)"
  by (simp add: run_steps_def save_steps_def Let_def)

lemma run_steps_keys: "dict_ok d \<Longrightarrow> dict_ok (run_steps (save_steps rnd t x) d)"
  by (simp add: run_steps_def save_steps_def Let_def)

lemma filter_dict_set_skip:
  "\<not> P k \<Longrightarrow> filter (P \<circ> fst) (dict_set k v d) = filter (P \<circ> fst) d"
  by (induction k v d rule: dict_set.induct) auto

lemma filter_dict_del_skip: "\<not> P k \<Longrightarrow> filter (P \<circ> fst) (dict_del k d) = filter (P \<circ> fst) d"
  by (induction d) (auto simp: dict_del_def)

lemma json_files_saved:
  assumes "cs_checkpoint_id x @ ''.json'' \<notin> fst ` set d"
  shows "filter (is_json_name \<circ> fst) (run_steps (save_steps rnd t x) d) =
     filter (is_json_name \<circ> fst) d @ [(cs_checkpoint_id x @ ''.json'', Some (stored x), t)]"
proof -
  let ?tmp = "temp_name (cs_checkpoint_id x) rnd"
  let ?d = "dict_set ?tmp (Some (stored x), t) (dict_set ?tmp (None, t) d)"
  have fresh: "cs_checkpoint_id x @ ''.json'' \<notin> fst ` set ?d" using assms by simp
  have run: "run_steps (save_steps rnd t x) d =
      dict_del ?tmp (dict_set (cs_checkpoint_id x @ ''.json'') (Some (stored x), t) ?d)"
    by (simp add: run_steps_def save_steps_def Let_def)
  have "filter (is_json_name \<circ> fst) ?d = filter (is_json_name \<circ> fst) d"
    by (simp add: filter_dict_set_skip)
  then show ?thesis
    unfolding run dict_set_fresh [OF fresh] by (simp add: filter_dict_del_skip)
qed

lemma insort_key_snoc: "f y \<le> f x \<Longrightarrow> insort_key f y (zs @ [x]) = insort_key f y zs @ [x]"
  by (induction zs) auto

lemma sort_key_snoc:
  "\<forall>y \<in> set xs. f y \<le> f x \<Longrightarrow> sort_key f (xs @ [x]) = sort_key f xs @ [x]"
  by (induction xs) (simp_all add: insort_key_snoc)

lemma directory_file:
  assumes "directory_ok d" and "is_json_name n" and "map_of d n = Some (c, t)"
  obtains x where "n = cs_checkpoint_id x @ ''.json''" "c = Some (stored x)"
    "storage_identifier (cs_checkpoint_id x)"
proof -
  from assms(1) have "is_json_name n \<longrightarrow> map_of d n = Some (c, t) \<longrightarrow>
      (\<exists>x. c = Some (stored x) \<and> n = cs_checkpoint_id x @ ''.json''
        \<and> storage_identifier (cs_checkpoint_id x))"
    unfolding directory_ok_def by (elim conjE allE)
  with assms(2,3) that show thesis by auto
qed

lemma directory_entry:
  assumes "directory_ok d" and "map_of d (i @ ''.json'') = Some (c, t)"
  obtains x where "c = Some (stored x)" "cs_checkpoint_id x = i" "storage_identifier i"
  using directory_file [OF assms(1) names(1) assms(2)] by (metis append_same_eq)

lemma file_ids_set:
  assumes "directory_ok d"
  shows "i \<in> set (file_list_ids d) \<longleftrightarrow> i @ ''.json'' \<in> fst ` set d"
proof
  assume "i \<in> set (file_list_ids d)"
  then obtain n f where m: "(n, f) \<in> set d" "is_json_name n" "i = stem n"
    by (auto simp: file_list_ids_def)
  obtain c t where f: "f = (c, t)" by (cases f)
  have "map_of d n = Some (c, t)" using assms m(1) by (simp add: directory_ok_def f)
  from directory_file [OF assms m(2) this] obtain x where "n = cs_checkpoint_id x @ ''.json''"
    "c = Some (stored x)" "storage_identifier (cs_checkpoint_id x)" .
  with m(3) have "i @ ''.json'' = n" by (simp only: names)
  with m(1) show "i @ ''.json'' \<in> fst ` set d" by (metis fst_conv image_eqI)
next
  assume "i @ ''.json'' \<in> fst ` set d"
  then obtain q where "q \<in> set d" "i @ ''.json'' = fst q" by (rule imageE)
  then obtain f where "(i @ ''.json'', f) \<in> set d" by (metis prod.collapse)
  then have "(i @ ''.json'', f) \<in> set (filter (is_json_name \<circ> fst) d)" by simp
  then have "(stem \<circ> fst) (i @ ''.json'', f) \<in> set (file_list_ids d)"
    unfolding file_list_ids_def list.set_map set_sort by (rule imageI)
  then show "i \<in> set (file_list_ids d)" by simp
qed

lemma stem_inj: "is_json_name m \<Longrightarrow> is_json_name n \<Longrightarrow> stem m = stem n \<Longrightarrow> m = n"
  by (auto simp: is_json_name_def suffix_def stem_def)

lemma file_ids_distinct: "dict_ok d \<Longrightarrow> distinct (file_list_ids d)"
proof -
  assume d: "dict_ok d"
  let ?j = "sort_key (snd \<circ> snd) (filter (is_json_name \<circ> fst) d)"
  have "distinct (map fst ?j)"
    using d distinct_map_filter [of fst d "is_json_name \<circ> fst"] by (simp add: distinct_map)
  moreover have "inj_on stem (set (map fst ?j))" by (auto intro!: inj_onI stem_inj)
  ultimately have "distinct (map stem (map fst ?j))"
    unfolding distinct_map [of stem "map fst ?j"] by (rule conjI)
  then show ?thesis by (simp only: file_list_ids_def map_map)
qed


lemma file_save_eq:
  "storage_identifier (cs_checkpoint_id x) \<Longrightarrow>
     file_save rt x d = (Inr (cs_checkpoint_id x), run_steps (save_steps (fst rt) (snd rt) x) d)"
  "\<not> storage_identifier (cs_checkpoint_id x) \<Longrightarrow>
     file_save rt x d = (Inl (ValueError ''invalid checkpoint id''), d)"
  by (simp_all add: file_save_def path_for_refused) (simp add: path_for_def validate_storage_identifier_def)

lemma file_load_eq:
  "storage_identifier i \<Longrightarrow> file_load i d =
     (case map_of d (i @ ''.json'') of
        None \<Rightarrow> Inr None
      | Some (content, t) \<Rightarrow> bindS (bindS (read_json content) snapshot_from_dict) (\<lambda>x. Inr (Some x)))"
  by (simp add: file_load_def path_for_def validate_storage_identifier_def)

lemma file_load_refused:
  "\<not> storage_identifier i \<Longrightarrow> file_load i d = Inl (Fails (ValueError ''invalid checkpoint id''))"
  by (simp add: file_load_def path_for_refused)

lemma file_load_entry:
  assumes "directory_ok d" and "i @ ''.json'' \<in> fst ` set d"
  shows "\<exists>y. file_load i d = Inr (Some y) \<and> cs_checkpoint_id y = i"
proof -
  from assms(2) obtain f where "map_of d (i @ ''.json'') = Some f"
    by (metis map_of_eq_None_iff not_None_eq)
  moreover obtain c t where "f = (c, t)" by (cases f)
  ultimately have m: "map_of d (i @ ''.json'') = Some (c, t)" by simp
  from directory_entry [OF assms(1) this] obtain x
    where x: "c = Some (stored x)" "cs_checkpoint_id x = i" "storage_identifier i" .
  have "file_load i d = Inr (Some (snapshot_norm x))"
    by (simp add: file_load_eq [OF x(3)] m x(1) read_json_def load_stored)
  moreover have "cs_checkpoint_id (snapshot_norm x) = i" using x(2) by (simp add: snapshot_norm_def)
  ultimately show ?thesis by blast
qed

lemma directory_ok_set_json:
  assumes "directory_ok d" and "storage_identifier (cs_checkpoint_id x)"
    and "dict_ok d'"
    and "\<And>n. is_json_name n \<Longrightarrow> map_of d' n =
      (if n = cs_checkpoint_id x @ ''.json'' then Some (Some (stored x), t) else map_of d n)"
  shows "directory_ok d'"
  unfolding directory_ok_def
proof (intro conjI allI impI)
  fix n c u
  assume n: "is_json_name n" "map_of d' n = Some (c, u)"
  show "\<exists>x. c = Some (stored x) \<and> n = cs_checkpoint_id x @ ''.json''
        \<and> storage_identifier (cs_checkpoint_id x)"
  proof (cases "n = cs_checkpoint_id x @ ''.json''")
    case True
    with n assms(2,4) have "c = Some (stored x)" by simp
    with True assms(2) show ?thesis by (intro exI [of _ x] conjI)
  next
    case False
    with n assms(4) have "map_of d n = Some (c, u)" by simp
    from directory_file [OF assms(1) n(1) this] obtain y where "n = cs_checkpoint_id y @ ''.json''"
      "c = Some (stored y)" "storage_identifier (cs_checkpoint_id y)" .
    then show ?thesis by (intro exI [of _ y] conjI)
  qed
qed (rule assms(3))

lemma directory_ok_skip:
  assumes "directory_ok d" and "dict_ok d'" and "\<And>n. is_json_name n \<Longrightarrow> map_of d' n = map_of d n"
  shows "directory_ok d'"
  using assms unfolding directory_ok_def by simp

lemma directory_ok_save: "directory_ok d \<Longrightarrow> directory_ok (snd (file_save rt x d))"
proof (cases "storage_identifier (cs_checkpoint_id x)")
  case True
  assume d: "directory_ok d"
  then have "dict_ok d" by (simp add: directory_ok_def)
  have "directory_ok (run_steps (save_steps (fst rt) (snd rt) x) d)"
  proof (rule directory_ok_set_json [OF d True])
    show "dict_ok (run_steps (save_steps (fst rt) (snd rt) x) d)"
      by (rule run_steps_keys [OF \<open>dict_ok d\<close>])
    fix n assume "is_json_name n"
    moreover have "\<not> is_json_name (temp_name (cs_checkpoint_id x) (fst rt))" by simp
    ultimately have "n \<noteq> temp_name (cs_checkpoint_id x) (fst rt)" by metis
    then show "map_of (run_steps (save_steps (fst rt) (snd rt) x) d) n =
        (if n = cs_checkpoint_id x @ ''.json'' then Some (Some (stored x), snd rt) else map_of d n)"
      by (simp add: run_steps_lookup)
  qed
  with True show ?thesis by (simp add: file_save_eq)
qed (simp add: file_save_eq)

interpretation files: checkpoint_store file_save file_load file_list_ids file_latest
  directory_ok written_before storage_identifier
proof unfold_locales
  fix x :: snapshot and rt :: "string \<times> int" and d :: directory
  show "storage_identifier (cs_checkpoint_id x) \<Longrightarrow> fst (file_save rt x d) = Inr (cs_checkpoint_id x)"
    by (simp add: file_save_eq)
  show "\<not> storage_identifier (cs_checkpoint_id x) \<Longrightarrow> \<exists>m. file_save rt x d = (Inl (ValueError m), d)"
    by (simp add: file_save_eq)
  assume d: "directory_ok d"
  show "directory_ok (snd (file_save rt x d))" by (rule directory_ok_save [OF d])
  show "distinct (file_list_ids d)" using d by (simp add: directory_ok_def file_ids_distinct)
  show "file_latest d = (if file_list_ids d = [] then Inr None else file_load (last (file_list_ids d)) d)"
    by (rule file_latest_def)
next
  fix i and d :: directory
  assume "directory_ok d" and "i \<in> set (file_list_ids d)"
  then show "\<exists>y. file_load i d = Inr (Some y) \<and> cs_checkpoint_id y = i"
    using file_load_entry file_ids_set by blast
next
  fix i and x :: snapshot and rt :: "string \<times> int" and d :: directory
  assume d: "directory_ok d" and i: "i \<noteq> cs_checkpoint_id x"
  show "file_load i (snd (file_save rt x d)) = file_load i d"
  proof (cases "storage_identifier (cs_checkpoint_id x) \<and> storage_identifier i")
    case True
    with i show ?thesis by (simp add: file_save_eq file_load_eq run_steps_lookup)
  next
    case False
    then show ?thesis by (auto simp: file_save_eq file_load_refused)
  qed
next
  fix x :: snapshot and rt :: "string \<times> int" and d :: directory
  assume d: "directory_ok d" and a: "storage_identifier (cs_checkpoint_id x)"
  show "\<exists>y. file_load (cs_checkpoint_id x) (snd (file_save rt x d)) = Inr (Some y) \<and> value_equal y x"
    using a by (simp add: file_save_eq file_load_eq run_steps_lookup read_json_def load_stored)
  have ok: "directory_ok (run_steps (save_steps (fst rt) (snd rt) x) d)"
    using directory_ok_save [OF d, of rt x] a by (simp add: file_save_eq)
  have mem: "n \<in> fst ` set (run_steps (save_steps (fst rt) (snd rt) x) d) \<longleftrightarrow>
      n = cs_checkpoint_id x @ ''.json'' \<or> n \<in> fst ` set d" if "is_json_name n" for n
    using that names(2) [of "cs_checkpoint_id x" "fst rt"]
      run_steps_lookup [of "fst rt" "snd rt" x d n]
      map_of_eq_None_iff [of "run_steps (save_steps (fst rt) (snd rt) x) d" n] map_of_eq_None_iff [of d n]
    by (auto split: if_splits)
  have "i \<in> set (file_list_ids (run_steps (save_steps (fst rt) (snd rt) x) d)) \<longleftrightarrow>
      i \<in> insert (cs_checkpoint_id x) (set (file_list_ids d))" for i
    unfolding file_ids_set [OF ok] mem [OF names(1)] insert_iff file_ids_set [OF d] by simp
  then show "set (file_list_ids (snd (file_save rt x d))) =
      insert (cs_checkpoint_id x) (set (file_list_ids d))"
    using a by (simp add: file_save_eq set_eq_iff)
  assume l: "written_before rt d" and f: "cs_checkpoint_id x \<notin> set (file_list_ids d)"
  have fresh: "cs_checkpoint_id x @ ''.json'' \<notin> fst ` set d" using f by (simp add: file_ids_set [OF d])
  have "\<forall>p \<in> set (filter (is_json_name \<circ> fst) d). snd (snd p) \<le> snd rt"
  proof
    fix p assume p: "p \<in> set (filter (is_json_name \<circ> fst) d)"
    obtain n c t where nct: "p = (n, c, t)" by (cases p)
    with p have "map_of d n = Some (c, t)" using d by (simp add: directory_ok_def)
    with l nct show "snd (snd p) \<le> snd rt" by (simp add: written_before_def order.strict_implies_order)
  qed
  then show "file_list_ids (snd (file_save rt x d)) = file_list_ids d @ [cs_checkpoint_id x]"
    using a by (simp add: file_save_eq file_list_ids_def json_files_saved [OF fresh] sort_key_snoc)
qed


text \<open>
  C19: a save interrupted at any point leaves the directory consistent. After any number of the
  steps of an atomic write, every checkpoint file still holds a whole snapshot under its own name,
  every other identifier loads what it loaded before, and the saved identifier loads either what
  it loaded before or, once the file is replaced, the whole new snapshot.
\<close>

theorem interrupted_save_atomic:
  assumes "directory_ok d" and "storage_identifier (cs_checkpoint_id x)"
    and d'_def: "d' = run_steps (take k (save_steps rnd t x)) d"
  shows "directory_ok d' \<and> (\<forall>i. i \<noteq> cs_checkpoint_id x \<longrightarrow> file_load i d' = file_load i d) \<and>
     (if k < length (save_steps rnd t x) then file_load (cs_checkpoint_id x) d' = file_load (cs_checkpoint_id x) d
      else file_load (cs_checkpoint_id x) d' = Inr (Some (snapshot_norm x)))"
proof (cases "k < length (save_steps rnd t x)")
  case True
  then have "k = 0 \<or> k = 1 \<or> k = 2" by (auto simp: save_steps_def Let_def)
  then have look: "map_of d' n = map_of d n" if "n \<noteq> temp_name (cs_checkpoint_id x) rnd" for n
    using that by (auto simp: d'_def run_steps_def save_steps_def Let_def numeral_2_eq_2)
  have "dict_ok d'"
    using assms(1) \<open>k = 0 \<or> k = 1 \<or> k = 2\<close>
    by (auto simp: d'_def run_steps_def save_steps_def Let_def numeral_2_eq_2 directory_ok_def
        simp del: list.map)
  moreover have "map_of d' n = map_of d n" if "is_json_name n" for n
    using that look [of n] names(2) [of "cs_checkpoint_id x" rnd] by metis
  ultimately have "directory_ok d'" by (rule directory_ok_skip [OF assms(1)])
  moreover have "file_load i d' = file_load i d" for i
    using look [OF names(4)] by (cases "storage_identifier i") (simp_all add: file_load_eq file_load_refused)
  ultimately show ?thesis using True by simp
next
  case False
  then have d': "d' = snd (file_save (rnd, t) x d)"
    using assms(2) by (simp add: d'_def file_save_eq)
  have "file_load (cs_checkpoint_id x) d' = Inr (Some (snapshot_norm x))"
    using assms(2) by (simp add: d' file_save_eq file_load_eq run_steps_lookup read_json_def load_stored)
  with False show ?thesis
    using files.save_valid [OF assms(1)] files.load_other [OF assms(1)] by (simp add: d')
qed

definition sample_snapshot :: "string \<Rightarrow> snapshot" where
  "sample_snapshot i = \<lparr>cs_agent_id = ''agent'', cs_checkpoint_id = i, cs_created_at = ''t0'',
     cs_score_history = [1], cs_chain_records = [], cs_baseline = None, cs_metadata = []\<rparr>"

lemma sample_identifiers: "storage_identifier ''a''" "storage_identifier ''b''"
  by (simp_all add: storage_identifier_def identifier_text_def identifier_char_def)

lemma interrupted_save_atomic_witness:
  "directory_ok (run_steps (take 2 (save_steps ''r'' 0 (sample_snapshot ''a''))) []) \<and>
   file_load ''a'' (run_steps (take 2 (save_steps ''r'' 0 (sample_snapshot ''a''))) []) = Inr None"
proof -
  have "directory_ok []" by (simp add: directory_ok_def)
  moreover have "storage_identifier (cs_checkpoint_id (sample_snapshot ''a''))"
    by (simp add: sample_snapshot_def sample_identifiers)
  ultimately show ?thesis
    using interrupted_save_atomic [of "[]" "sample_snapshot ''a''" _ 2 "''r''" 0, OF _ _ refl]
    by (simp add: save_steps_def Let_def)
       (simp add: sample_snapshot_def file_load_eq sample_identifiers)
qed

section \<open>SQLite\<close>

text \<open>
  The table of checkpoints in rowid order. \<open>INSERT OR REPLACE\<close> removes the row with the same
  primary key and adds the new one with the next rowid; the insertion time is in seconds.
  \<open>ORDER BY inserted_at, rowid\<close> is a stable sort by time of the rows in rowid order.
\<close>

record sql_row =
  rw_checkpoint_id :: string
  rw_agent_id :: string
  rw_created_at :: string
  rw_payload :: args
  rw_inserted_at :: int
  rw_rowid :: nat

type_synonym sql_table = "sql_row list"

definition next_rowid :: "sql_table \<Rightarrow> nat" where
  "next_rowid tab = Suc (foldr max (map rw_rowid tab) 0)"

definition sql_save :: "int \<Rightarrow> snapshot \<Rightarrow> sql_table \<Rightarrow> (exn + string) \<times> sql_table" where
  "sql_save now x tab =
     (Inr (cs_checkpoint_id x),
      filter (\<lambda>r. rw_checkpoint_id r \<noteq> cs_checkpoint_id x) tab @
        [\<lparr>rw_checkpoint_id = cs_checkpoint_id x, rw_agent_id = cs_agent_id x,
          rw_created_at = cs_created_at x, rw_payload = stored x, rw_inserted_at = now,
          rw_rowid = next_rowid tab\<rparr>])"

definition sql_load :: "string \<Rightarrow> sql_table \<Rightarrow> decode_error + snapshot option" where
  "sql_load i tab =
     (case find (\<lambda>r. rw_checkpoint_id r = i) tab of
        None \<Rightarrow> Inr None
      | Some r \<Rightarrow> bindS (snapshot_from_dict (rw_payload r)) (\<lambda>x. Inr (Some x)))"

definition sql_list_ids :: "sql_table \<Rightarrow> string list" where
  "sql_list_ids tab = map rw_checkpoint_id (sort_key rw_inserted_at (sort_key rw_rowid tab))"

definition sql_latest :: "sql_table \<Rightarrow> decode_error + snapshot option" where
  "sql_latest tab = (if sql_list_ids tab = [] then Inr None else sql_load (last (sql_list_ids tab)) tab)"

definition table_ok :: "sql_table \<Rightarrow> bool" where
  "table_ok tab \<longleftrightarrow> distinct (map rw_checkpoint_id tab) \<and> sorted_wrt (<) (map rw_rowid tab) \<and>
     (\<forall>r \<in> set tab. \<exists>x. rw_payload r = stored x \<and> rw_checkpoint_id r = cs_checkpoint_id x)"

definition inserted_before :: "int \<Rightarrow> sql_table \<Rightarrow> bool" where
  "inserted_before now tab \<longleftrightarrow> (\<forall>r \<in> set tab. rw_inserted_at r \<le> now)"

lemma next_rowid_greater: "r \<in> set tab \<Longrightarrow> rw_rowid r < next_rowid tab"
  unfolding next_rowid_def by (induction tab) auto

lemma sorted_wrt_map_filter: "sorted_wrt R (map f xs) \<Longrightarrow> sorted_wrt R (map f (filter P xs))"
  by (induction xs) auto

lemma table_ok_save: "table_ok tab \<Longrightarrow> table_ok (snd (sql_save now x tab))"
  unfolding table_ok_def
  by (auto simp: sql_save_def sorted_wrt_append next_rowid_greater distinct_map_filter
      intro: sorted_wrt_map_filter)

lemma rowid_order: "table_ok tab \<Longrightarrow> sort_key rw_rowid tab = tab"
  by (intro sort_key_id_if_sorted sorted_wrt_mono_rel [of "map rw_rowid tab" "(<)" "(\<le>)"])
    (auto simp: table_ok_def)

lemma find_row:
  assumes "r \<in> set tab" and "distinct (map rw_checkpoint_id tab)"
  shows "find (\<lambda>q. rw_checkpoint_id q = rw_checkpoint_id r) tab = Some r"
  using assms by (induction tab) auto

lemma find_filter_other:
  "i \<noteq> j \<Longrightarrow> find (\<lambda>r. f r = i) (filter (\<lambda>r. f r \<noteq> j) xs @ [y]) =
     (case find (\<lambda>r. f r = i) xs of None \<Rightarrow> (if f y = i then Some y else None) | Some r \<Rightarrow> Some r)"
  by (induction xs) auto

interpretation sql: checkpoint_store sql_save sql_load sql_list_ids sql_latest
  table_ok inserted_before "\<lambda>i. True"
proof unfold_locales
  fix x :: snapshot and now and tab :: sql_table
  assume d: "table_ok tab"
  show "table_ok (snd (sql_save now x tab))" by (rule table_ok_save [OF d])
  show "distinct (sql_list_ids tab)"
    using d by (simp add: sql_list_ids_def table_ok_def distinct_map)
  show "sql_latest tab = (if sql_list_ids tab = [] then Inr None else sql_load (last (sql_list_ids tab)) tab)"
    by (rule sql_latest_def)
  let ?row = "last (snd (sql_save now x tab))"
  have "find (\<lambda>r. rw_checkpoint_id r = cs_checkpoint_id x) (snd (sql_save now x tab)) = Some ?row"
    using find_row [of ?row "snd (sql_save now x tab)"] table_ok_save [OF d, of now x]
    by (simp add: sql_save_def table_ok_def)
  then show "\<exists>y. sql_load (cs_checkpoint_id x) (snd (sql_save now x tab)) = Inr (Some y) \<and> value_equal y x"
    by (simp add: sql_load_def) (simp add: sql_save_def load_stored)
  show "set (sql_list_ids (snd (sql_save now x tab))) = insert (cs_checkpoint_id x) (set (sql_list_ids tab))"
    by (auto simp: sql_list_ids_def sql_save_def)
  assume t: "inserted_before now tab" and f: "cs_checkpoint_id x \<notin> set (sql_list_ids tab)"
  have "cs_checkpoint_id x \<notin> rw_checkpoint_id ` set tab" using f by (simp add: sql_list_ids_def)
  then have keep: "filter (\<lambda>r. rw_checkpoint_id r \<noteq> cs_checkpoint_id x) tab = tab"
    unfolding filter_id_conv by (metis image_eqI)
  have "sort_key rw_rowid (snd (sql_save now x tab)) = snd (sql_save now x tab)"
    by (rule rowid_order [OF table_ok_save [OF d]])
  then show "sql_list_ids (snd (sql_save now x tab)) = sql_list_ids tab @ [cs_checkpoint_id x]"
    using t by (simp add: sql_list_ids_def rowid_order [OF d])
      (simp add: sql_save_def keep sort_key_snoc inserted_before_def)
next
  fix i and x :: snapshot and now and tab :: sql_table
  assume "i \<noteq> cs_checkpoint_id x"
  then show "sql_load i (snd (sql_save now x tab)) = sql_load i tab"
    by (simp add: sql_load_def sql_save_def find_filter_other split: option.splits)
next
  fix i and tab :: sql_table
  assume d: "table_ok tab" and "i \<in> set (sql_list_ids tab)"
  then obtain r where r: "r \<in> set tab" "rw_checkpoint_id r = i" by (auto simp: sql_list_ids_def)
  with d obtain x where x: "rw_payload r = stored x" "i = cs_checkpoint_id x"
    unfolding table_ok_def by blast
  have "find (\<lambda>q. rw_checkpoint_id q = i) tab = Some r"
    using find_row [OF r(1)] r(2) d by (simp add: table_ok_def)
  with x show "\<exists>y. sql_load i tab = Inr (Some y) \<and> cs_checkpoint_id y = i"
    by (simp add: sql_load_def load_stored snapshot_norm_def)
qed (simp_all add: sql_save_def)

text \<open>
  C20: every backend gives back the last snapshot saved under an identifier, and a new one is the
  latest. From a valid store, after any sequence of saves, each of the three backends loads for an
  accepted identifier a snapshot value-equal to the last one saved under it. A snapshot saved under an
  identifier the store does not hold is the latest right after, in each of the three (for the file and
  SQLite stores when it is saved at a later time than the rest). An identifier saved again is another
  matter: the memory store keeps its old place.
\<close>

theorem stores_load_last_saved:
  assumes "cs_checkpoint_id x \<notin> cs_checkpoint_id ` snd ` set after_m"
    and "cs_checkpoint_id x \<notin> cs_checkpoint_id ` snd ` set after_f"
    and "cs_checkpoint_id x \<notin> cs_checkpoint_id ` snd ` set after_s"
    and "memory_valid m" and "directory_ok d" and "table_ok tab"
    and "storage_identifier (cs_checkpoint_id x)"
  shows "(\<exists>y. memory_load (cs_checkpoint_id x) (save_all memory_save (ms @ (u, x) # after_m) m) = Inr (Some y)
        \<and> value_equal y x) \<and>
     (\<exists>y. file_load (cs_checkpoint_id x) (save_all file_save (fs @ (rt, x) # after_f) d) = Inr (Some y)
        \<and> value_equal y x) \<and>
     (\<exists>y. sql_load (cs_checkpoint_id x) (save_all sql_save (ss @ (now, x) # after_s) tab) = Inr (Some y)
        \<and> value_equal y x) \<and>
     (cs_checkpoint_id x \<notin> set (memory_list_ids m) \<longrightarrow>
        (\<exists>y. memory_latest (snd (memory_save u x m)) = Inr (Some y) \<and> value_equal y x)) \<and>
     (written_before rt d \<and> cs_checkpoint_id x \<notin> set (file_list_ids d) \<longrightarrow>
        (\<exists>y. file_latest (snd (file_save rt x d)) = Inr (Some y) \<and> value_equal y x)) \<and>
     (inserted_before now tab \<and> cs_checkpoint_id x \<notin> set (sql_list_ids tab) \<longrightarrow>
        (\<exists>y. sql_latest (snd (sql_save now x tab)) = Inr (Some y) \<and> value_equal y x))"
  using memory.load_last_saved [OF assms(4) TrueI assms(1)] files.load_last_saved [OF assms(5,7,2)]
    sql.load_last_saved [OF assms(6) TrueI assms(3)] files.latest_is_last_saved [OF assms(5,7)]
    sql.latest_is_last_saved [OF assms(6) TrueI] memory.latest_is_last_saved [OF assms(4) TrueI TrueI]
  by (intro conjI impI) auto

lemma stores_load_last_saved_witness:
  "\<exists>y. file_load ''a'' (save_all file_save [((''r'', 0), sample_snapshot ''b''),
      ((''s'', 1), sample_snapshot ''a'')] []) = Inr (Some y) \<and> value_equal y (sample_snapshot ''a'')"
proof -
  have "memory_valid []" "directory_ok []" "table_ok []"
    by (simp_all add: memory_valid_def directory_ok_def table_ok_def)
  moreover have i: "cs_checkpoint_id (sample_snapshot i) = i" for i by (simp add: sample_snapshot_def)
  ultimately show ?thesis
    using stores_load_last_saved [of "sample_snapshot ''a''" "[]" "[]" "[]" "[]" "[]" "[]" "[]" "()"
        "[((''r'', 0), sample_snapshot ''b'')]" "(''s'', 1)"] sample_identifiers
    by (simp only: i) simp
qed

end
