(* ===== verification/Baselines.thy ===== *)
theory Baselines
  imports Checkpoint_Stores Evaluator Tool_Names
begin

text \<open>
  Behavioural baselines (the record of \<open>layers/cortical.py\<close>) and their stores
  (\<open>layers/baseline_store.py\<close>). A baseline is a mutable object, which the layer updates in place and
  the in-memory store shares, so objects live on a heap (a list, a reference is an index) and a
  store holds references or payloads. The store interface is a locale whose laws refine a map from
  slots to baseline values; a slot is what a backend keeps one entry for.
\<close>

section \<open>Baselines\<close>

record baseline =
  bl_agent :: string
  bl_actions :: "(string, rat) dict"
  bl_tools :: "(string, rat) dict"
  bl_length_mean :: rat
  bl_length_std :: rat
  bl_depth_mean :: rat
  bl_created_at :: string
  bl_samples :: int

definition baseline_counts_json :: "(string, rat) dict \<Rightarrow> json" where
  "baseline_counts_json d = JObj (map (\<lambda>(k, v). (k, JFloat v)) d)"

definition baseline_to_dict :: "baseline \<Rightarrow> json" where
  "baseline_to_dict b = JObj
     [(''agent_id'', JStr (bl_agent b)), (''action_distribution'', baseline_counts_json (bl_actions b)),
      (''tool_usage_patterns'', baseline_counts_json (bl_tools b)), (''response_length_mean'', JFloat (bl_length_mean b)),
      (''response_length_std'', JFloat (bl_length_std b)), (''reasoning_depth_mean'', JFloat (bl_depth_mean b)),
      (''sample_count'', JInt (bl_samples b)), (''created_at'', JStr (bl_created_at b))]"

definition as_rat :: "json \<Rightarrow> decode_error + rat" where
  "as_rat j = (case number j of Inl e \<Rightarrow> Inl (Fails e) | Inr r \<Rightarrow> Inr r)"

definition as_counts :: "json \<Rightarrow> decode_error + (string, rat) dict" where
  "as_counts j = bindS (as_object j) (traverse (\<lambda>(k, v). bindS (as_rat v) (\<lambda>r. Inr (k, r))))"

fun as_integer :: "json \<Rightarrow> decode_error + int" where
  "as_integer (JInt i) = Inr i"
| "as_integer _ = Inl (Ill_typed ''int'')"

text \<open>\<open>_deserialize\<close>; \<open>now\<close> is the text of the clock.\<close>

definition baseline_from_dict :: "'k lib \<Rightarrow> string \<Rightarrow> args \<Rightarrow> decode_error + baseline" where
  "baseline_from_dict L now d =
     bindS (case field_or ''created_at'' JNull d of
              JStr t \<Rightarrow> if l_iso_ok L t then Inr t else Inl (Fails (ValueError ''Invalid isoformat string''))
            | _ \<Rightarrow> Inr now) (\<lambda>created.
     bindS (text_field ''agent_id'' d) (\<lambda>agent.
     bindS (as_counts (field_or ''action_distribution'' (JObj []) d)) (\<lambda>actions.
     bindS (as_counts (field_or ''tool_usage_patterns'' (JObj []) d)) (\<lambda>tools.
     bindS (as_rat (field_or ''response_length_mean'' (JFloat 0) d)) (\<lambda>mean.
     bindS (as_rat (field_or ''response_length_std'' (JFloat 0) d)) (\<lambda>std.
     bindS (as_rat (field_or ''reasoning_depth_mean'' (JFloat 0) d)) (\<lambda>depth.
     bindS (as_integer (field_or ''sample_count'' (JInt 0) d)) (\<lambda>samples.
       Inr \<lparr>bl_agent = agent, bl_actions = actions, bl_tools = tools, bl_length_mean = mean,
            bl_length_std = std, bl_depth_mean = depth, bl_created_at = created, bl_samples = samples\<rparr>))))))))"

text \<open>What \<open>json.dumps(..., sort_keys=True)\<close> keeps of it.\<close>

definition stored_baseline :: "baseline \<Rightarrow> args" where
  "stored_baseline b = as_dict (sort_keys (baseline_to_dict b))"

definition baseline_norm :: "baseline \<Rightarrow> baseline" where
  "baseline_norm b = b\<lparr>bl_actions := sort_key fst (bl_actions b), bl_tools := sort_key fst (bl_tools b)\<rparr>"

text \<open>Equality of the Python values: dictionaries are equal whatever their order.\<close>

definition same_baseline :: "baseline \<Rightarrow> baseline \<Rightarrow> bool" where
  "same_baseline a b \<longleftrightarrow> baseline_norm a = baseline_norm b"

lemma same_baseline_refl [simp]: "same_baseline b b"
  by (simp add: same_baseline_def)

lemma sort_map_values: "sort_key fst (map (\<lambda>(k, v). (k, f v)) d) = map (\<lambda>(k, v). (k, f v)) (sort_key fst d)"
proof (induction d)
  case (Cons p d)
  have "insort_key fst (k, f v) (map (\<lambda>(k, v). (k, f v)) ys) = map (\<lambda>(k, v). (k, f v)) (insort_key fst (k, v) ys)" for k v ys
    by (induction ys) auto
  with Cons show ?case by (cases p) simp
qed simp

lemma sort_counts: "sort_keys (baseline_counts_json d) = baseline_counts_json (sort_key fst d)"
proof -
  have "map (\<lambda>(k, v). (k, sort_keys v)) (map (\<lambda>(k, v). (k, JFloat v)) d) = map (\<lambda>(k, v). (k, JFloat v)) d"
    by (induction d) auto
  then show ?thesis by (simp only: baseline_counts_json_def sort_keys.simps sort_map_values)
qed

lemma as_counts_json: "as_counts (baseline_counts_json d) = Inr d"
proof -
  have "traverse (\<lambda>(k, v). bindS (as_rat v) (\<lambda>r. Inr (k, r))) (map (\<lambda>(k, v). (k, JFloat v)) d) = Inr d"
    by (rule traverse_map_id) (auto simp: as_rat_def)
  then show ?thesis by (simp add: as_counts_def baseline_counts_json_def)
qed

lemma load_stored_baseline:
  assumes "l_iso_ok L (bl_created_at b)"
  shows "baseline_from_dict L now (stored_baseline b) = Inr (baseline_norm b)"
proof -
  have "baseline_to_dict b = JObj (as_dict (baseline_to_dict b))"
    and ok: "dict_ok (as_dict (baseline_to_dict b))" by (simp_all add: baseline_to_dict_def)
  then have look: "map_of (stored_baseline b) k = map_option sort_keys (map_of (as_dict (baseline_to_dict b)) k)" for k
    unfolding stored_baseline_def by (metis map_of_sorted_dict)
  show ?thesis using assms
    by (simp add: baseline_from_dict_def text_field_def field_def field_or_def look)
      (simp add: baseline_to_dict_def sort_counts as_counts_json as_rat_def baseline_norm_def)
qed

section \<open>Keys\<close>

definition validate_role :: "string option \<Rightarrow> exn + unit" where
  "validate_role role = (case role of None \<Rightarrow> Inr ()
     | Some r \<Rightarrow> bindS (validate_storage_identifier r ''role'') (\<lambda>_.
         if contains ''__'' r then Inl (ValueError (''invalid role: must not contain '' @ ''__'')) else Inr ()))"

definition baseline_path :: "string \<Rightarrow> string option \<Rightarrow> exn + string" where
  "baseline_path agent role =
     bindS (validate_storage_identifier agent ''agent_id'') (\<lambda>_.
       if contains ''__'' agent then Inl (ValueError (''invalid agent_id: must not contain '' @ ''__''))
       else bindS (validate_role role) (\<lambda>_. Inr
         (case role of None \<Rightarrow> agent @ ''.json'' | Some r \<Rightarrow> agent @ ''__'' @ r @ ''.json'')))"

text \<open>\<open>stem.split("__", 1)\<close>.\<close>

fun split_role :: "string \<Rightarrow> (string \<times> string) option" where
  "split_role (a # b # s) = (if a = CHR ''_'' \<and> b = CHR ''_'' then Some ([], s)
     else map_option (\<lambda>(x, y). (a # x, y)) (split_role (b # s)))"
| "split_role _ = None"

definition key_of_stem :: "string \<Rightarrow> string \<times> string option" where
  "key_of_stem s = (case split_role s of None \<Rightarrow> (s, None) | Some (agent, role) \<Rightarrow> (agent, Some role))"

fun first_seen :: "'a list \<Rightarrow> 'a list" where
  "first_seen [] = []"
| "first_seen (x # xs) = x # filter (\<lambda>y. y \<noteq> x) (first_seen xs)"

section \<open>In memory\<close>

type_synonym baseline_heap = "baseline list"
type_synonym key = "string \<times> string option"
type_synonym reference_store = "(key, nat) dict"

definition ram_save :: "unit \<Rightarrow> nat \<Rightarrow> string option \<Rightarrow> baseline_heap \<Rightarrow> reference_store \<Rightarrow> (exn + unit) \<times> reference_store" where
  "ram_save t r role h s = (case validate_role role of Inl e \<Rightarrow> (Inl e, s)
     | Inr _ \<Rightarrow> (Inr (), dict_set (bl_agent (h ! r), role) r s))"

definition ram_load :: "string \<Rightarrow> string option \<Rightarrow> baseline_heap \<Rightarrow> reference_store \<Rightarrow> (decode_error + nat option) \<times> baseline_heap" where
  "ram_load agent role h s = (case validate_role role of Inl e \<Rightarrow> (Inl (Fails e), h)
     | Inr _ \<Rightarrow> (Inr (if role \<noteq> None
         then (case map_of s (agent, role) of Some r \<Rightarrow> Some r | None \<Rightarrow> map_of s (agent, None))
         else map_of s (agent, None)), h))"

definition ram_list_keys :: "reference_store \<Rightarrow> key list" where
  "ram_list_keys s = dict_keys s"

definition ram_list_agent_ids :: "reference_store \<Rightarrow> string list" where
  "ram_list_agent_ids s = first_seen (map fst (dict_keys s))"

definition ram_delete :: "string \<Rightarrow> string option \<Rightarrow> reference_store \<Rightarrow> (exn + bool) \<times> reference_store" where
  "ram_delete agent role s = (case validate_role role of Inl e \<Rightarrow> (Inl e, s)
     | Inr _ \<Rightarrow> (Inr (map_of s (agent, role) \<noteq> None), dict_del (agent, role) s))"

section \<open>Files\<close>

definition baseline_steps :: "string \<Rightarrow> int \<Rightarrow> string \<Rightarrow> string \<Rightarrow> baseline \<Rightarrow> file_step list" where
  "baseline_steps rnd t owner path b =
     (let tmp = temp_name owner rnd
      in [CreateTemp tmp t, WriteTemp tmp (stored_baseline b) t, ReplaceFile tmp path])"

definition disk_save :: "string \<times> int \<Rightarrow> nat \<Rightarrow> string option \<Rightarrow> baseline_heap \<Rightarrow> directory \<Rightarrow> (exn + unit) \<times> directory" where
  "disk_save rt r role h d =
     (let b = h ! r in case baseline_path (bl_agent b) role of Inl e \<Rightarrow> (Inl e, d)
      | Inr path \<Rightarrow> (Inr (), run_steps (baseline_steps (fst rt) (snd rt)
          (bl_agent b @ (case role of None \<Rightarrow> [] | Some x \<Rightarrow> ''__'' @ x)) path b) d))"

text \<open>Reading and decoding a file, a new object; a missing file is \<open>None\<close>.\<close>

definition read_baseline :: "'k lib \<Rightarrow> string \<Rightarrow> string \<Rightarrow> directory \<Rightarrow> decode_error + baseline option" where
  "read_baseline L now path d = (case map_of d path of None \<Rightarrow> Inr None
     | Some (content, t) \<Rightarrow> bindS (bindS (read_json content) (baseline_from_dict L now)) (\<lambda>b. Inr (Some b)))"

definition allocate :: "decode_error + baseline option \<Rightarrow> baseline_heap \<Rightarrow> (decode_error + nat option) \<times> baseline_heap" where
  "allocate r h = (case r of Inl e \<Rightarrow> (Inl e, h) | Inr None \<Rightarrow> (Inr None, h)
     | Inr (Some b) \<Rightarrow> (Inr (Some (length h)), h @ [b]))"

definition disk_load :: "'k lib \<Rightarrow> string \<Rightarrow> string \<Rightarrow> string option \<Rightarrow> baseline_heap \<Rightarrow> directory
    \<Rightarrow> (decode_error + nat option) \<times> baseline_heap" where
  "disk_load L now agent role h d =
     (let legacy = (case baseline_path agent None of Inl e \<Rightarrow> Inl (Fails e) | Inr path \<Rightarrow> read_baseline L now path d)
      in allocate (case role of None \<Rightarrow> legacy
        | Some _ \<Rightarrow> (case baseline_path agent role of Inl e \<Rightarrow> Inl (Fails e)
            | Inr path \<Rightarrow> (case read_baseline L now path d of Inr None \<Rightarrow> legacy | r \<Rightarrow> r))) h)"

definition disk_list_keys :: "directory \<Rightarrow> key list" where
  "disk_list_keys d = map (key_of_stem \<circ> stem \<circ> fst) (sort_key (snd \<circ> snd) (filter (is_json_name \<circ> fst) d))"

definition disk_list_agent_ids :: "directory \<Rightarrow> string list" where
  "disk_list_agent_ids d = first_seen (map fst (disk_list_keys d))"

definition disk_delete :: "string \<Rightarrow> string option \<Rightarrow> directory \<Rightarrow> (exn + bool) \<times> directory" where
  "disk_delete agent role d = (case baseline_path agent role of Inl e \<Rightarrow> (Inl e, d)
     | Inr path \<Rightarrow> (Inr (map_of d path \<noteq> None), dict_del path d))"

section \<open>SQLite\<close>

record baseline_row =
  br_agent :: string
  br_role :: string
  br_payload :: args
  br_inserted_at :: int
  br_rowid :: nat

definition no_role :: string where
  "no_role = []"

definition encode_role :: "string option \<Rightarrow> exn + string" where
  "encode_role role = bindS (validate_role role) (\<lambda>_. Inr (case role of None \<Rightarrow> no_role | Some r \<Rightarrow> r))"

definition decode_role :: "string \<Rightarrow> string option" where
  "decode_role r = (if r = no_role then None else Some r)"

definition row_of :: "string \<Rightarrow> string \<Rightarrow> baseline_row list \<Rightarrow> baseline_row option" where
  "row_of agent role tab = find (\<lambda>r. br_agent r = agent \<and> br_role r = role) tab"

definition tab_save :: "int \<Rightarrow> nat \<Rightarrow> string option \<Rightarrow> baseline_heap \<Rightarrow> baseline_row list \<Rightarrow> (exn + unit) \<times> baseline_row list" where
  "tab_save now r role h tab = (case encode_role role of Inl e \<Rightarrow> (Inl e, tab)
     | Inr x \<Rightarrow> (Inr (), filter (\<lambda>q. \<not> (br_agent q = bl_agent (h ! r) \<and> br_role q = x)) tab
         @ [\<lparr>br_agent = bl_agent (h ! r), br_role = x, br_payload = stored_baseline (h ! r), br_inserted_at = now,
             br_rowid = Suc (foldr max (map br_rowid tab) 0)\<rparr>]))"

definition read_row :: "'k lib \<Rightarrow> string \<Rightarrow> baseline_row option \<Rightarrow> decode_error + baseline option" where
  "read_row L now q = (case q of None \<Rightarrow> Inr None
     | Some q \<Rightarrow> bindS (baseline_from_dict L now (br_payload q)) (\<lambda>b. Inr (Some b)))"

definition tab_load :: "'k lib \<Rightarrow> string \<Rightarrow> string \<Rightarrow> string option \<Rightarrow> baseline_heap \<Rightarrow> baseline_row list
    \<Rightarrow> (decode_error + nat option) \<times> baseline_heap" where
  "tab_load L now agent role h tab =
     (let legacy = read_row L now (row_of agent no_role tab)
      in allocate (case role of None \<Rightarrow> legacy
        | Some _ \<Rightarrow> (case encode_role role of Inl e \<Rightarrow> Inl (Fails e)
            | Inr x \<Rightarrow> (case row_of agent x tab of None \<Rightarrow> legacy | q \<Rightarrow> read_row L now q))) h)"

definition tab_list_keys :: "baseline_row list \<Rightarrow> key list" where
  "tab_list_keys tab = map (\<lambda>q. (br_agent q, decode_role (br_role q)))
     (sort_key br_inserted_at (sort_key br_rowid tab))"

definition tab_delete :: "string \<Rightarrow> string option \<Rightarrow> baseline_row list \<Rightarrow> (exn + bool) \<times> baseline_row list" where
  "tab_delete agent role tab = (case encode_role role of Inl e \<Rightarrow> (Inl e, tab)
     | Inr x \<Rightarrow> (Inr (row_of agent x tab \<noteq> None), filter (\<lambda>q. \<not> (br_agent q = agent \<and> br_role q = x)) tab))"

text \<open>
  The table of a database older than roles: \<open>_migrate_schema_if_needed\<close> copies its rows under the
  empty role. A database without the table, or with the column, is left alone.
\<close>

record old_row =
  or_agent :: string
  or_payload :: args
  or_inserted_at :: int

datatype database = Fresh | Old "old_row list" | Current "baseline_row list"

fun open_database :: "database \<Rightarrow> baseline_row list" where
  "open_database Fresh = []"
| "open_database (Current tab) = tab"
| "open_database (Old rows) = map (\<lambda>(i, q). \<lparr>br_agent = or_agent q, br_role = [], br_payload = or_payload q,
     br_inserted_at = or_inserted_at q, br_rowid = Suc i\<rparr>) (enumerate 0 rows)"

end
