(* ===== verification/Baseline_Stores.thy ===== *)
theory Baseline_Stores
  imports Baselines
begin

text \<open>
  The contract of \<open>BaselineStore\<close> as a locale, its client lemmas, and its interpretations on the
  three backends; a second locale for the backends that keep a copy, which the in-memory one does
  not. The specification is a map from pairs of an agent and a role, not from the slots of a backend.
  Then the file names: when two keys share a file, and what the listing decodes.
\<close>

section \<open>The interface\<close>

datatype 't store_call = Save 't nat "string option" | Delete string "string option"

fun run_call ::
  "('t \<Rightarrow> nat \<Rightarrow> string option \<Rightarrow> baseline_heap \<Rightarrow> 's \<Rightarrow> (exn + unit) \<times> 's) \<Rightarrow>
   (string \<Rightarrow> string option \<Rightarrow> 's \<Rightarrow> (exn + bool) \<times> 's) \<Rightarrow> baseline_heap \<Rightarrow> 't store_call \<Rightarrow> 's \<Rightarrow> 's" where
  "run_call save delete h (Save t r role) s = snd (save t r role h s)"
| "run_call save delete h (Delete agent role) s = snd (delete agent role s)"

text \<open>The specification: a map from slots to values; a refused call changes nothing.\<close>

fun spec_call :: "(string \<Rightarrow> string option \<Rightarrow> exn + 'k) \<Rightarrow> baseline_heap \<Rightarrow> 't store_call \<Rightarrow> ('k \<Rightarrow> baseline option) \<Rightarrow> ('k \<Rightarrow> baseline option)" where
  "spec_call slot h (Save t r role) m =
     (case slot (bl_agent (h ! r)) role of Inl _ \<Rightarrow> m | Inr k \<Rightarrow> m(k \<mapsto> h ! r))"
| "spec_call slot h (Delete agent role) m = (case slot agent role of Inl _ \<Rightarrow> m | Inr k \<Rightarrow> m(k := None))"

text \<open>A role without an entry of its own is served by the entry without a role.\<close>

definition spec_load :: "(string \<Rightarrow> string option \<Rightarrow> exn + 'k) \<Rightarrow> ('k \<Rightarrow> baseline option) \<Rightarrow> string \<Rightarrow> string option
    \<Rightarrow> exn + baseline option" where
  "spec_load slot m agent role = bindS (slot agent role) (\<lambda>k. case m k of Some b \<Rightarrow> Inr (Some b)
     | None \<Rightarrow> bindS (slot agent None) (\<lambda>k0. Inr (m k0)))"

text \<open>
  The keys of the contract are pairs of an agent and a role, whatever name a backend gives its slot for
  them: \<open>keyed slot\<close> keeps of a backend only which keys it refuses, and with which error.
\<close>

definition keyed :: "(string \<Rightarrow> string option \<Rightarrow> exn + 'k) \<Rightarrow> string \<Rightarrow> string option \<Rightarrow> exn + key" where
  "keyed slot agent role = bindS (slot agent role) (\<lambda>_. Inr (agent, role))"

text \<open>A call is made on the objects the program has then, which it may have changed since the last one.\<close>

type_synonym 't timed_call = "baseline_heap \<times> 't store_call"

definition call_key :: "'t timed_call \<Rightarrow> key" where
  "call_key gc = (case snd gc of Save t r role \<Rightarrow> (bl_agent (fst gc ! r), role) | Delete agent role \<Rightarrow> (agent, role))"

text \<open>Where a backend gives different keys different slots, its own map and the map of the keys agree.\<close>

lemma spec_rekeyed:
  assumes "\<And>x y k. x \<in> K \<Longrightarrow> y \<in> K \<Longrightarrow> slot (fst x) (snd x) = Inr k \<Longrightarrow> slot (fst y) (snd y) = Inr k \<Longrightarrow> x = y"
    and "call_key ` set cs \<subseteq> K" and "\<And>x k. x \<in> K \<Longrightarrow> slot (fst x) (snd x) = Inr k \<Longrightarrow> m k = n x"
    and "x \<in> K" and "slot (fst x) (snd x) = Inr k"
  shows "fold (\<lambda>(g, c). spec_call slot g c) cs m k = fold (\<lambda>(g, c). spec_call (keyed slot) g c) cs n x"
  using assms(2-)
proof (induction cs arbitrary: m n)
  case (Cons gc cs)
  obtain g c where gc: "gc = (g, c)" by (cases gc)
  have "spec_call slot g c m j = spec_call (keyed slot) g c n y" if y: "y \<in> K" "slot (fst y) (snd y) = Inr j" for y j
  proof -
    have key: "call_key (g, c) \<in> K" using Cons.prems(1) by (simp add: gc)
    have eq: "j = i \<longleftrightarrow> y = z" if "slot (fst z) (snd z) = Inr i" "z \<in> K" for i z
      using assms(1) [OF y(1) that(2), of i] y(2) that(1) by auto
    show ?thesis
    proof (cases c)
      case (Save t r role)
      then show ?thesis
        using Cons.prems(2) [OF y] eq [of "(bl_agent (g ! r), role)"] key
        by (cases "slot (bl_agent (g ! r)) role") (simp_all add: keyed_def call_key_def)
    next
      case (Delete agent role)
      then show ?thesis
        using Cons.prems(2) [OF y] eq [of "(agent, role)"] key
        by (cases "slot agent role") (simp_all add: keyed_def call_key_def)
    qed
  qed
  with Cons.IH [of "spec_call slot g c m" "spec_call (keyed slot) g c n"] Cons.prems(1,3,4) show ?case
    by (simp add: gc)
qed simp

lemma spec_load_rekeyed:
  assumes "\<And>x k. x \<in> {(agent, role), (agent, None)} \<Longrightarrow> slot (fst x) (snd x) = Inr k \<Longrightarrow> m k = n x"
  shows "spec_load slot m agent role = spec_load (keyed slot) n agent role"
proof (cases "slot agent role")
  case (Inr k)
  have "m k = n (agent, role)" "\<And>k. slot agent None = Inr k \<Longrightarrow> m k = n (agent, None)"
    using assms [of "(agent, role)" k] assms [of "(agent, None)"] Inr by simp_all
  then show ?thesis
    by (cases "slot agent None") (simp_all add: spec_load_def keyed_def Inr split: option.split)
qed (simp add: spec_load_def keyed_def)

definition loads :: "(decode_error + nat option) \<times> baseline_heap \<Rightarrow> exn + baseline option \<Rightarrow> bool" where
  "loads r v = (case v of
       Inl e \<Rightarrow> fst r = Inl (Fails e)
     | Inr None \<Rightarrow> fst r = Inr None
     | Inr (Some b) \<Rightarrow> (\<exists>i. fst r = Inr (Some i) \<and> i < length (snd r) \<and> same_baseline (snd r ! i) b))"

text \<open>The objects a call saves exist, and their timestamps are ISO texts.\<close>

definition call_ok :: "(baseline \<Rightarrow> bool) \<Rightarrow> baseline_heap \<Rightarrow> 't store_call \<Rightarrow> bool" where
  "call_ok storable h c = (case c of Save t r role \<Rightarrow> r < length h \<and> storable (h ! r) | Delete a role \<Rightarrow> True)"

locale baseline_store =
  fixes save :: "'t \<Rightarrow> nat \<Rightarrow> string option \<Rightarrow> baseline_heap \<Rightarrow> 's \<Rightarrow> (exn + unit) \<times> 's"
    and load :: "string \<Rightarrow> string option \<Rightarrow> baseline_heap \<Rightarrow> 's \<Rightarrow> (decode_error + nat option) \<times> baseline_heap"
    and delete :: "string \<Rightarrow> string option \<Rightarrow> 's \<Rightarrow> (exn + bool) \<times> 's"
    and slot :: "string \<Rightarrow> string option \<Rightarrow> exn + 'k"
    and content :: "baseline_heap \<Rightarrow> 's \<Rightarrow> 'k \<Rightarrow> baseline option"
    and valid :: "baseline_heap \<Rightarrow> 's \<Rightarrow> bool"
    and storable :: "baseline \<Rightarrow> bool"
  assumes save_refused: "slot (bl_agent (h ! r)) role = Inl e \<Longrightarrow> save t r role h s = (Inl e, s)"
    and save_accepted: "valid h s \<Longrightarrow> r < length h \<Longrightarrow> storable (h ! r) \<Longrightarrow> slot (bl_agent (h ! r)) role = Inr k \<Longrightarrow>
        \<exists>b. fst (save t r role h s) = Inr () \<and> valid h (snd (save t r role h s)) \<and> same_baseline b (h ! r)
          \<and> content h (snd (save t r role h s)) = (content h s)(k \<mapsto> b)"
    and delete_refused: "slot agent role = Inl e \<Longrightarrow> delete agent role s = (Inl e, s)"
    and delete_accepted: "valid h s \<Longrightarrow> slot agent role = Inr k \<Longrightarrow>
        fst (delete agent role s) = Inr (content h s k \<noteq> None) \<and> valid h (snd (delete agent role s))
          \<and> content h (snd (delete agent role s)) = (content h s)(k := None)"
    and load_content: "valid h s \<Longrightarrow> loads (load agent role h s) (spec_load slot (content h s) agent role)"
    and load_heap: "valid h s \<Longrightarrow> valid (snd (load agent role h s)) s
          \<and> take (length h) (snd (load agent role h s)) = h
          \<and> content (snd (load agent role h s)) s = content h s"
begin

lemma call_refines:
  assumes v: "valid h s" and c: "call_ok storable h c" and m: "\<And>k. rel_option same_baseline (content h s k) (m k)"
  shows "valid h (run_call save delete h c s)
    \<and> (\<forall>k. rel_option same_baseline (content h (run_call save delete h c s) k) (spec_call slot h c m k))"
proof (cases c)
  case (Save t r role)
  show ?thesis
  proof (cases "slot (bl_agent (h ! r)) role")
    case (Inl e)
    then show ?thesis using v m by (simp add: Save save_refused)
  next
    case (Inr k)
    have "r < length h" "storable (h ! r)" using c by (simp_all add: call_ok_def Save)
    from save_accepted [OF v this Inr, of t] show ?thesis using m by (auto simp: Save Inr)
  qed
next
  case (Delete agent role)
  show ?thesis
  proof (cases "slot agent role")
    case (Inl e)
    then show ?thesis using v m by (simp add: Delete delete_refused)
  next
    case (Inr k)
    from delete_accepted [OF v Inr] show ?thesis using m by (auto simp: Delete Inr)
  qed
qed

lemma runs_refine:
  assumes "valid h s" and "list_all (call_ok storable h) cs" and "\<And>k. rel_option same_baseline (content h s k) (m k)"
  shows "valid h (fold (run_call save delete h) cs s) \<and> (\<forall>k. rel_option same_baseline (content h (fold (run_call save delete h) cs s) k) (fold (spec_call slot h) cs m k))"
  using assms
proof (induction cs arbitrary: s m)
  case (Cons c cs)
  have "valid h (run_call save delete h c s)"
    "\<And>k. rel_option same_baseline (content h (run_call save delete h c s) k) (spec_call slot h c m k)"
    using call_refines [OF Cons.prems(1) _ Cons.prems(3), of c] Cons.prems(2) by auto
  then show ?case using Cons.IH [of "run_call save delete h c s" "spec_call slot h c m"] Cons.prems(2)
    by simp
qed simp

lemma same_load:
  assumes "\<And>k. rel_option same_baseline (m k) (n k)" and "loads r (spec_load slot m agent role)"
  shows "loads r (spec_load slot n agent role)"
proof (cases "slot agent role")
  case (Inl e)
  then show ?thesis using assms(2) by (simp add: spec_load_def)
next
  case (Inr k)
  have step: "loads r (Inr (n j))" if "loads r (Inr (m j))" for j
    using assms(1) [of j] that by (cases "m j"; cases "n j") (auto simp: loads_def same_baseline_def)
  show ?thesis
  proof (cases "m k")
    case None
    then have "n k = None" using assms(1) [of k] by (simp add: option_rel_Some1 option.rel_distinct rel_option_iff split: option.splits)
    with None Inr assms(2) show ?thesis by (cases "slot agent None") (auto simp: spec_load_def intro: step)
  next
    case (Some b)
    then obtain c where c: "n k = Some c" using assms(1) [of k] by (cases "n k") simp_all
    have "loads r (Inr (m k))" using assms(2) by (simp add: spec_load_def Inr Some)
    from step [OF this] show ?thesis by (simp add: spec_load_def Inr c)
  qed
qed

text \<open>After any calls, a load returns what the specification keeps.\<close>

lemma loads_what_was_saved:
  assumes "valid h s" and "list_all (call_ok storable h) cs"
  shows "loads (load agent role h (fold (run_call save delete h) cs s)) (spec_load slot (fold (spec_call slot h) cs (content h s)) agent role)"
proof -
  have "rel_option same_baseline (content h s k) (content h s k)" for k
    by (cases "content h s k") simp_all
  note r = runs_refine [OF assms this]
  show ?thesis
    by (rule same_load [OF _ load_content]) (use r in simp_all)
qed

end

text \<open>A backend that keeps a copy: its content does not depend on the objects of the program.\<close>

locale detached_store = baseline_store save load delete slot content valid storable
  for save :: "'t \<Rightarrow> nat \<Rightarrow> string option \<Rightarrow> baseline_heap \<Rightarrow> 's \<Rightarrow> (exn + unit) \<times> 's"
    and load :: "string \<Rightarrow> string option \<Rightarrow> baseline_heap \<Rightarrow> 's \<Rightarrow> (decode_error + nat option) \<times> baseline_heap"
    and delete :: "string \<Rightarrow> string option \<Rightarrow> 's \<Rightarrow> (exn + bool) \<times> 's"
    and slot :: "string \<Rightarrow> string option \<Rightarrow> exn + 'k"
    and content :: "baseline_heap \<Rightarrow> 's \<Rightarrow> 'k \<Rightarrow> baseline option"
    and valid :: "baseline_heap \<Rightarrow> 's \<Rightarrow> bool"
    and storable :: "baseline \<Rightarrow> bool" +
  assumes detached: "content h s = content h' s" and detached_valid: "valid h s = valid h' s"
begin

text \<open>What is saved is what a later process loads, whatever its objects are.\<close>

lemma saved_is_kept:
  assumes "valid h s" and "r < length h" and "storable (h ! r)" and saved: "save t r role h s = (Inr u, s')"
  shows "valid h' s' \<and> loads (load (bl_agent (h ! r)) role h' s') (Inr (Some (h ! r)))"
proof -
  obtain k where k: "slot (bl_agent (h ! r)) role = Inr k"
    using save_refused [of h r role _ t s] saved by (cases "slot (bl_agent (h ! r)) role") auto
  obtain c where c: "valid h s'" "same_baseline c (h ! r)" "content h s' = (content h s)(k \<mapsto> c)"
    using save_accepted [OF assms(1-3) k, of t] saved by auto
  have v: "valid h' s'" using c(1) detached_valid by blast
  have "content h' s' = (content h s)(k \<mapsto> c)" using c(3) detached by metis
  with load_content [OF v, of "bl_agent (h ! r)" role]
  have "loads (load (bl_agent (h ! r)) role h' s') (Inr (Some c))" by (simp add: spec_load_def k)
  then show ?thesis using c(2) v by (auto simp: loads_def same_baseline_def)
qed

text \<open>Calls made while the objects of the program change.\<close>

lemma timed_runs_refine:
  assumes "valid h s" and "list_all (\<lambda>(g, c). call_ok storable g c) cs" and "\<And>k. rel_option same_baseline (content h s k) (m k)"
  shows "valid h (fold (\<lambda>(g, c). run_call save delete g c) cs s)
    \<and> (\<forall>k. rel_option same_baseline (content h (fold (\<lambda>(g, c). run_call save delete g c) cs s) k)
          (fold (\<lambda>(g, c). spec_call slot g c) cs m k))"
  using assms
proof (induction cs arbitrary: s m)
  case (Cons gc cs)
  obtain g c where gc: "gc = (g, c)" by (cases gc)
  have "valid g s" using Cons.prems(1) detached_valid by blast
  moreover have "rel_option same_baseline (content g s k) (m k)" for k using Cons.prems(3) detached [of g s h] by simp
  ultimately have "valid g (run_call save delete g c s)"
    "\<And>k. rel_option same_baseline (content g (run_call save delete g c s) k) (spec_call slot g c m k)"
    using call_refines [of g s c m] Cons.prems(2) by (auto simp: gc)
  then have "valid h (run_call save delete g c s)"
    "\<And>k. rel_option same_baseline (content h (run_call save delete g c s) k) (spec_call slot g c m k)"
    using detached_valid detached [of h _ g] by (blast, simp)
  then show ?case using Cons.IH [of "run_call save delete g c s" "spec_call slot g c m"] Cons.prems(2)
    by (simp add: gc)
qed simp

text \<open>
  After any such calls on an empty store a load returns what the map of the keys holds, when no two
  different keys in play have the same slot.
\<close>

lemma loads_last_saved:
  assumes "valid h s" and "content h s = Map.empty" and "list_all (\<lambda>(g, c). call_ok storable g c) cs"
    and "\<And>x y k. x \<in> K \<Longrightarrow> y \<in> K \<Longrightarrow> slot (fst x) (snd x) = Inr k \<Longrightarrow> slot (fst y) (snd y) = Inr k \<Longrightarrow> x = y"
    and "call_key ` set cs \<subseteq> K" and "(agent, role) \<in> K" and "(agent, None) \<in> K"
  shows "loads (load agent role h (fold (\<lambda>(g, c). run_call save delete g c) cs s))
    (spec_load (keyed slot) (fold (\<lambda>(g, c). spec_call (keyed slot) g c) cs Map.empty) agent role)"
proof -
  have r: "valid h (fold (\<lambda>(g, c). run_call save delete g c) cs s)
    \<and> (\<forall>k. rel_option same_baseline (content h (fold (\<lambda>(g, c). run_call save delete g c) cs s) k)
          (fold (\<lambda>(g, c). spec_call slot g c) cs Map.empty k))"
    by (rule timed_runs_refine [OF assms(1,3)]) (simp add: assms(2))
  have "loads (load agent role h (fold (\<lambda>(g, c). run_call save delete g c) cs s))
      (spec_load slot (fold (\<lambda>(g, c). spec_call slot g c) cs Map.empty) agent role)"
    by (rule same_load [OF _ load_content]) (use r in simp_all)
  moreover have "spec_load slot (fold (\<lambda>(g, c). spec_call slot g c) cs Map.empty) agent role
      = spec_load (keyed slot) (fold (\<lambda>(g, c). spec_call (keyed slot) g c) cs Map.empty) agent role"
    by (rule spec_load_rekeyed, rule spec_rekeyed [where K = K and slot = slot]) (use assms(4-7) in auto)
  ultimately show ?thesis by simp
qed

end

section \<open>In memory\<close>

definition ram_slot :: "string \<Rightarrow> string option \<Rightarrow> exn + key" where
  "ram_slot = keyed (\<lambda>agent. validate_role)"

definition ram_content :: "baseline_heap \<Rightarrow> reference_store \<Rightarrow> key \<Rightarrow> baseline option" where
  "ram_content h s k = map_option ((!) h) (map_of s k)"

definition ram_valid :: "baseline_heap \<Rightarrow> reference_store \<Rightarrow> bool" where
  "ram_valid h s = (\<forall>k r. map_of s k = Some r \<longrightarrow> r < length h)"

lemma validate_no_role [simp]: "validate_role None = Inr ()"
  by (simp add: validate_role_def)

lemma loads_ram: "map_of s k = Some r \<Longrightarrow> ram_valid h s \<Longrightarrow> loads (Inr (Some r), h) (Inr (Some (h ! r)))"
  by (cases k) (auto simp: loads_def ram_valid_def)

lemma loads_nothing [simp]: "loads (Inr None, h) (Inr None)"
  by (simp add: loads_def)

interpretation ram: baseline_store ram_save ram_load ram_delete ram_slot ram_content ram_valid "\<lambda>b. True"
proof unfold_locales
  fix h s agent role
  assume v: "ram_valid h s"
  have single: "loads (Inr (map_of s k), h) (Inr (ram_content h s k))" for k
    using loads_ram [OF _ v] by (cases "map_of s k") (simp_all add: ram_content_def)
  show "loads (ram_load agent role h s) (spec_load ram_slot (ram_content h s) agent role)"
  proof (cases "validate_role role")
    case (Inl e)
    then show ?thesis by (simp add: ram_load_def spec_load_def ram_slot_def keyed_def loads_def)
  next
    case (Inr u)
    show ?thesis
    proof (cases "map_of s (agent, role)")
      case None
      then show ?thesis using single [of "(agent, None)"] Inr
        by (cases role) (simp_all add: ram_load_def spec_load_def ram_slot_def keyed_def ram_content_def)
    next
      case (Some r)
      then show ?thesis using single [of "(agent, role)"] Inr
        by (cases role) (simp_all add: ram_load_def spec_load_def ram_slot_def keyed_def ram_content_def)
    qed
  qed
  show "ram_valid (snd (ram_load agent role h s)) s \<and> take (length h) (snd (ram_load agent role h s)) = h
      \<and> ram_content (snd (ram_load agent role h s)) s = ram_content h s"
    using v by (simp add: ram_load_def split: sum.splits)
qed (auto simp: ram_save_def ram_delete_def ram_slot_def keyed_def ram_content_def ram_valid_def bindS_def fun_eq_iff
    split: sum.splits if_splits intro!: exI [of _ "_ ! _"])

text \<open>
  It is no detached store: the object saved is the object kept, so updating it in place changes what
  the store returns although nothing was saved.
\<close>

lemma ram_store_shares_objects:
  assumes "h = [b]" and "c \<noteq> b" and "bl_agent c = bl_agent b"
  shows "ram_load (bl_agent b) None (h[0 := c]) (snd (ram_save () 0 None h [])) = (Inr (Some 0), [c])"
  using assms by (simp add: ram_save_def ram_load_def)

section \<open>Files\<close>

definition baseline_storable :: "'k lib \<Rightarrow> baseline \<Rightarrow> bool" where
  "baseline_storable L b = l_iso_ok L (bl_created_at b)"

definition found :: "decode_error + baseline option \<Rightarrow> baseline option" where
  "found r = (case r of Inl e \<Rightarrow> None | Inr b \<Rightarrow> b)"

definition disk_content :: "'k lib \<Rightarrow> string \<Rightarrow> baseline_heap \<Rightarrow> directory \<Rightarrow> string \<Rightarrow> baseline option" where
  "disk_content L now h d path = (if is_json_name path then found (read_baseline L now path d) else None)"

definition disk_valid :: "'k lib \<Rightarrow> baseline_heap \<Rightarrow> directory \<Rightarrow> bool" where
  "disk_valid L h d = (\<forall>n c t. is_json_name n \<longrightarrow> map_of d n = Some (c, t) \<longrightarrow>
     (\<exists>b. baseline_storable L b \<and> c = Some (stored_baseline b)))"

lemma same_norm: "same_baseline (baseline_norm b) b"
proof -
  have "sort_key fst (sort_key fst d) = sort_key fst d" for d :: "(string, rat) dict"
    by (rule sort_key_id_if_sorted) simp
  then show ?thesis by (simp add: same_baseline_def baseline_norm_def)
qed

lemma allocate_loads:
  "loads (allocate (Inr b) h) (Inr b)" "loads (allocate (Inl (Fails e)) h) (Inl e)"
  by (cases b) (simp_all add: allocate_def loads_def)

lemma take_allocate: "take (length h) (snd (allocate r h)) = h"
  by (simp add: allocate_def split: sum.split option.split)

lemma read_baseline_valid:
  assumes "disk_valid L h d" and "is_json_name path"
  shows "read_baseline L now path d = Inr (disk_content L now h d path)"
proof (cases "map_of d path")
  case None
  then show ?thesis by (simp add: read_baseline_def disk_content_def found_def)
next
  case (Some f)
  obtain c t where f: "f = (c, t)" by (cases f)
  from assms Some f obtain b where b: "baseline_storable L b" "c = Some (stored_baseline b)"
    unfolding disk_valid_def by blast
  then show ?thesis using assms(2)
    by (simp add: read_baseline_def disk_content_def found_def Some f read_json_def baseline_storable_def
        load_stored_baseline)
qed

lemma baseline_path_json: "baseline_path agent role = Inr path \<Longrightarrow> is_json_name path"
  using names(1) [of "agent @ ''__'' @ the role"]
  by (cases role) (auto simp: baseline_path_def bindS_Inr split: if_splits)

lemma baseline_path_legacy: "baseline_path agent role = Inr path \<Longrightarrow> baseline_path agent None = Inr (agent @ ''.json'')"
  by (auto simp: baseline_path_def bindS_Inr split: if_splits)

lemma baseline_steps_lookup:
  "is_json_name path \<Longrightarrow> map_of (run_steps (baseline_steps rnd t owner path b) d) n =
     (if n = path then Some (Some (stored_baseline b), t) else if n = temp_name owner rnd then None else map_of d n)"
  using names(2) [of owner rnd] by (auto simp: run_steps_def baseline_steps_def Let_def)

lemma disk_detached: "disk_content L now h d = disk_content L now h' d"
  by (simp add: disk_content_def fun_eq_iff)

lemma json_not_temp: "is_json_name n \<Longrightarrow> n \<noteq> temp_name owner rnd"
  using names(2) by metis

interpretation disk: detached_store disk_save "disk_load L now" disk_delete baseline_path
  "disk_content L now" "disk_valid L" "baseline_storable L"
proof unfold_locales
  fix h d r role k rt
  assume v: "disk_valid L h d" and st: "baseline_storable L (h ! r)" and sl: "baseline_path (bl_agent (h ! r)) role = Inr k"
  let ?o = "bl_agent (h ! r) @ (case role of None \<Rightarrow> [] | Some x \<Rightarrow> ''__'' @ x)"
  let ?d = "run_steps (baseline_steps (fst rt) (snd rt) ?o k (h ! r)) d"
  note j = baseline_path_json [OF sl]
  note look = baseline_steps_lookup [OF j, of "fst rt" "snd rt" ?o "h ! r" d]
  have save: "disk_save rt r role h d = (Inr (), ?d)" by (simp add: disk_save_def sl Let_def)
  have "disk_valid L h ?d"
    using v st by (auto simp: disk_valid_def look split: if_splits)
  moreover have "disk_content L now h ?d = (disk_content L now h d)(k \<mapsto> baseline_norm (h ! r))"
  proof
    fix n
    show "disk_content L now h ?d n = ((disk_content L now h d)(k \<mapsto> baseline_norm (h ! r))) n"
      using st j json_not_temp [of n ?o "fst rt"]
      by (auto simp: disk_content_def read_baseline_def look found_def read_json_def baseline_storable_def load_stored_baseline)
  qed
  moreover have "same_baseline (baseline_norm (h ! r)) (h ! r)"
    by (rule same_norm)
  ultimately show "\<exists>b. fst (disk_save rt r role h d) = Inr () \<and> disk_valid L h (snd (disk_save rt r role h d))
      \<and> same_baseline b (h ! r) \<and> disk_content L now h (snd (disk_save rt r role h d)) = (disk_content L now h d)(k \<mapsto> b)"
    unfolding save fst_conv snd_conv by blast
next
  fix h d agent role k
  assume v: "disk_valid L h d" and sl: "baseline_path agent role = Inr k"
  note j = baseline_path_json [OF sl]
  have here: "disk_content L now h d k \<noteq> None \<longleftrightarrow> map_of d k \<noteq> None"
    using v j by (fastforce simp: disk_content_def disk_valid_def read_baseline_def found_def read_json_def
        baseline_storable_def load_stored_baseline split: option.splits)
  have "disk_content L now h (dict_del k d) = (disk_content L now h d)(k := None)"
    by (auto simp: fun_eq_iff disk_content_def read_baseline_def found_def)
  moreover have "disk_valid L h (dict_del k d)" using v by (auto simp: disk_valid_def split: if_splits)
  ultimately show "fst (disk_delete agent role d) = Inr (disk_content L now h d k \<noteq> None)
      \<and> disk_valid L h (snd (disk_delete agent role d))
      \<and> disk_content L now h (snd (disk_delete agent role d)) = (disk_content L now h d)(k := None)"
    using here by (simp add: disk_delete_def sl)
next
  fix h d agent role
  assume v: "disk_valid L h d"
  show "loads (disk_load L now agent role h d) (spec_load baseline_path (disk_content L now h d) agent role)"
  proof (cases "baseline_path agent role")
    case (Inl e)
    then show ?thesis
      using allocate_loads(2) [of e h] by (cases role) (simp_all add: disk_load_def spec_load_def)
  next
    case (Inr path)
    note leg = baseline_path_legacy [OF Inr]
    note rd = read_baseline_valid [OF v baseline_path_json [OF Inr], of now]
      and rd0 = read_baseline_valid [OF v baseline_path_json [OF leg], of now]
    show ?thesis
      using Inr leg rd rd0 allocate_loads(1) [of _ h]
      by (cases role; cases "disk_content L now h d path") (simp_all add: disk_load_def spec_load_def)
  qed
  show "disk_valid L (snd (disk_load L now agent role h d)) d
      \<and> take (length h) (snd (disk_load L now agent role h d)) = h
      \<and> disk_content L now (snd (disk_load L now agent role h d)) d = disk_content L now h d"
    using v disk_detached [of L now "snd (disk_load L now agent role h d)" d h]
    by (simp add: disk_valid_def) (simp add: disk_load_def Let_def take_allocate)
next
  fix h h' d
  show "disk_content L now h d = disk_content L now h' d" by (rule disk_detached)
qed (simp_all add: disk_save_def disk_delete_def disk_valid_def Let_def)

section \<open>SQLite\<close>

definition tab_slot :: "string \<Rightarrow> string option \<Rightarrow> exn + string \<times> string" where
  "tab_slot agent role = bindS (encode_role role) (\<lambda>x. Inr (agent, x))"

definition tab_content :: "'k lib \<Rightarrow> string \<Rightarrow> baseline_heap \<Rightarrow> baseline_row list \<Rightarrow> string \<times> string \<Rightarrow> baseline option" where
  "tab_content L now h tab k = found (read_row L now (row_of (fst k) (snd k) tab))"

definition tab_valid :: "'k lib \<Rightarrow> baseline_heap \<Rightarrow> baseline_row list \<Rightarrow> bool" where
  "tab_valid L h tab = (\<forall>q \<in> set tab. \<exists>b. baseline_storable L b \<and> br_payload q = stored_baseline b)"

lemma tab_detached: "tab_content L now h tab = tab_content L now h' tab"
  by (simp add: tab_content_def fun_eq_iff)

lemma row_of_eq: "row_of a x tab = find (\<lambda>q. (br_agent q, br_role q) = (a, x)) tab"
  by (simp add: row_of_def)

lemma find_filter_same: "f y = i \<Longrightarrow> find (\<lambda>r. f r = i) (filter (\<lambda>r. f r \<noteq> i) xs @ [y]) = Some y"
  by (induction xs) auto

lemma find_filter_out: "find (\<lambda>r. f r = i) (filter (\<lambda>r. f r \<noteq> j) xs) = (if i = j then None else find (\<lambda>r. f r = i) xs)"
  by (induction xs) auto

lemma row_saved:
  assumes "br_agent q = a" "br_role q = x"
  shows "row_of a' x' (filter (\<lambda>q. \<not> (br_agent q = a \<and> br_role q = x)) tab @ [q])
    = (if (a', x') = (a, x) then Some q else row_of a' x' tab)"
proof -
  have "filter (\<lambda>q. \<not> (br_agent q = a \<and> br_role q = x)) tab = filter (\<lambda>q. (br_agent q, br_role q) \<noteq> (a, x)) tab"
    by simp
  then show ?thesis
    using find_filter_same [of "\<lambda>q. (br_agent q, br_role q)" q "(a, x)" tab]
      find_filter_other [of "(a', x')" "(a, x)" "\<lambda>q. (br_agent q, br_role q)" tab q] assms
    by (auto simp: row_of_eq split: option.splits)
qed

lemma row_deleted: "row_of a' x' (filter (\<lambda>q. \<not> (br_agent q = a \<and> br_role q = x)) tab)
    = (if (a', x') = (a, x) then None else row_of a' x' tab)"
  using find_filter_out [of "\<lambda>q. (br_agent q, br_role q)" "(a', x')" "(a, x)" tab] by (simp add: row_of_eq)

lemma row_in: "row_of a x tab = Some q \<Longrightarrow> q \<in> set tab"
  unfolding row_of_def by (induction tab) (auto split: if_splits)

lemma read_row_valid:
  assumes "tab_valid L h tab"
  shows "read_row L now (row_of a x tab) = Inr (tab_content L now h tab (a, x))"
proof (cases "row_of a x tab")
  case (Some q)
  with assms row_in [OF Some] obtain b where "baseline_storable L b" "br_payload q = stored_baseline b"
    unfolding tab_valid_def by blast
  then show ?thesis by (simp add: tab_content_def read_row_def found_def Some baseline_storable_def load_stored_baseline)
qed (simp add: tab_content_def read_row_def found_def)

lemma tab_content_present:
  assumes "tab_valid L h tab"
  shows "tab_content L now h tab (a, x) \<noteq> None \<longleftrightarrow> row_of a x tab \<noteq> None"
proof (cases "row_of a x tab")
  case (Some q)
  with assms row_in [OF Some] obtain b where "baseline_storable L b" "br_payload q = stored_baseline b"
    unfolding tab_valid_def by blast
  then show ?thesis by (simp add: tab_content_def read_row_def found_def Some baseline_storable_def load_stored_baseline)
qed (simp add: tab_content_def read_row_def found_def)

interpretation tab: detached_store tab_save "tab_load L now" tab_delete tab_slot
  "tab_content L now" "tab_valid L" "baseline_storable L"
proof unfold_locales
  fix h tab r role k t
  assume v: "tab_valid L h tab" and st: "baseline_storable L (h ! r)" and sl: "tab_slot (bl_agent (h ! r)) role = Inr k"
  obtain x where x: "encode_role role = Inr x" "k = (bl_agent (h ! r), x)" using sl by (auto simp: tab_slot_def bindS_Inr)
  let ?q = "\<lparr>br_agent = bl_agent (h ! r), br_role = x, br_payload = stored_baseline (h ! r), br_inserted_at = t,
      br_rowid = Suc (foldr max (map br_rowid tab) 0)\<rparr>"
  have save: "tab_save t r role h tab
      = (Inr (), filter (\<lambda>q. \<not> (br_agent q = bl_agent (h ! r) \<and> br_role q = x)) tab @ [?q])"
    by (simp add: tab_save_def x(1))
  have "tab_valid L h (snd (tab_save t r role h tab))"
    using v st by (auto simp: save tab_valid_def)
  moreover have "tab_content L now h (snd (tab_save t r role h tab)) = (tab_content L now h tab)(k \<mapsto> baseline_norm (h ! r))"
  proof
    fix n :: "string \<times> string"
    obtain a' x' where n: "n = (a', x')" by (cases n)
    show "tab_content L now h (snd (tab_save t r role h tab)) n = ((tab_content L now h tab)(k \<mapsto> baseline_norm (h ! r))) n"
      unfolding save snd_conv tab_content_def n fst_conv
      by (subst row_saved) (use st in \<open>auto simp: x(2) read_row_def found_def baseline_storable_def load_stored_baseline\<close>)
  qed
  ultimately show "\<exists>b. fst (tab_save t r role h tab) = Inr () \<and> tab_valid L h (snd (tab_save t r role h tab))
      \<and> same_baseline b (h ! r) \<and> tab_content L now h (snd (tab_save t r role h tab)) = (tab_content L now h tab)(k \<mapsto> b)"
    using same_norm [of "h ! r"] unfolding save fst_conv snd_conv by blast
next
  fix h tab agent role k
  assume v: "tab_valid L h tab" and sl: "tab_slot agent role = Inr k"
  obtain x where x: "encode_role role = Inr x" "k = (agent, x)" using sl by (auto simp: tab_slot_def bindS_Inr)
  have "tab_valid L h (snd (tab_delete agent role tab))" using v by (simp add: tab_delete_def x(1) tab_valid_def)
  moreover have "tab_content L now h (snd (tab_delete agent role tab)) = (tab_content L now h tab)(k := None)"
  proof
    fix n :: "string \<times> string"
    have del: "snd (tab_delete agent role tab) = filter (\<lambda>q. \<not> (br_agent q = agent \<and> br_role q = x)) tab"
      by (simp add: tab_delete_def x(1))
    show "tab_content L now h (snd (tab_delete agent role tab)) n = ((tab_content L now h tab)(k := None)) n"
      unfolding del tab_content_def row_deleted by (cases n) (simp add: x(2) read_row_def found_def)
  qed
  ultimately show "fst (tab_delete agent role tab) = Inr (tab_content L now h tab k \<noteq> None)
      \<and> tab_valid L h (snd (tab_delete agent role tab))
      \<and> tab_content L now h (snd (tab_delete agent role tab)) = (tab_content L now h tab)(k := None)"
    unfolding x(2) tab_content_present [OF v] by (simp add: tab_delete_def x)
next
  fix h tab agent role
  assume v: "tab_valid L h tab"
  note rd = read_row_valid [OF v, of now]
  have legacy: "tab_slot agent None = Inr (agent, no_role)" by (simp add: tab_slot_def encode_role_def)
  show "loads (tab_load L now agent role h tab) (spec_load tab_slot (tab_content L now h tab) agent role)"
  proof (cases role)
    case None
    then show ?thesis using allocate_loads(1) [of _ h]
      by (cases "tab_content L now h tab (agent, no_role)") (simp_all add: tab_load_def spec_load_def legacy rd)
  next
    case (Some r)
    show ?thesis
    proof (cases "encode_role role")
      case (Inl e)
      then show ?thesis using allocate_loads(2) [of e h] by (simp add: tab_load_def spec_load_def tab_slot_def Some)
    next
      case (Inr x)
      then have sl: "tab_slot agent role = Inr (agent, x)" by (simp add: tab_slot_def)
      show ?thesis
      proof (cases "row_of agent x tab")
        case None
        then have "tab_content L now h tab (agent, x) = None" using tab_content_present [OF v, of now agent x] by blast
        then show ?thesis using allocate_loads(1) [of _ h] None Some Inr sl legacy rd
          by (simp add: tab_load_def spec_load_def)
      next
        case q: (Some q)
        then obtain b where b: "tab_content L now h tab (agent, x) = Some b"
          using tab_content_present [OF v, of now agent x] by blast
        then show ?thesis using allocate_loads(1) [of "Some b" h] q Some Inr sl rd [of agent x]
          by (simp add: tab_load_def spec_load_def)
      qed
    qed
  qed
  show "tab_valid L (snd (tab_load L now agent role h tab)) tab
      \<and> take (length h) (snd (tab_load L now agent role h tab)) = h
      \<and> tab_content L now (snd (tab_load L now agent role h tab)) tab = tab_content L now h tab"
    using v tab_detached [of L now "snd (tab_load L now agent role h tab)" tab h]
    by (simp add: tab_valid_def) (simp add: tab_load_def Let_def take_allocate)
next
  fix h h' tab
  show "tab_content L now h tab = tab_content L now h' tab" by (rule tab_detached)
qed (auto simp: tab_save_def tab_delete_def tab_slot_def tab_valid_def bindS_def split: sum.splits)

section \<open>Properties\<close>

lemma contains_dunder_append: "contains ''__'' (x @ ''__'' @ y)"
  unfolding contains_def sublist_def by (intro exI) (rule refl)

lemma dunder_split:
  assumes eq: "a @ ''__'' @ r = a' @ ''__'' @ r'" and le: "length a' \<le> length a" and no: "\<not> contains ''__'' a"
  shows "(a = a' \<and> r = r') \<or> (a = a' @ ''_'' \<and> r' = ''_'' @ r)"
proof -
  obtain us where us: "a = a' @ us" "us @ ''__'' @ r = ''__'' @ r'"
    using eq le by (auto simp: append_eq_append_conv2)
  consider "us = []" | c where "us = [c]" | c d vs where "us = c # d # vs"
    by (metis list.exhaust)
  then show ?thesis
  proof cases
    case 3
    with us(2) have "us = ''__'' @ vs" by simp
    with us(1) no contains_dunder_append [of a' vs] show ?thesis by simp
  qed (use us in auto)
qed

lemma path_parts:
  assumes "baseline_path a r = Inr p"
  shows "\<not> contains ''__'' a \<and> p = a @ (case r of None \<Rightarrow> [] | Some x \<Rightarrow> ''__'' @ x) @ ''.json''"
  using assms by (cases r) (auto simp: baseline_path_def bindS_Inr split: if_splits)

lemma same_file:
  assumes "baseline_path a r = Inr p" and "baseline_path a' r' = Inr p'"
  shows "p = p' \<longleftrightarrow> (a = a' \<and> r = r')
    \<or> (\<exists>s. a = a' @ ''_'' \<and> r = Some s \<and> r' = Some (''_'' @ s))
    \<or> (\<exists>s. a' = a @ ''_'' \<and> r' = Some s \<and> r = Some (''_'' @ s))"
proof -
  note p = path_parts [OF assms(1)] and p' = path_parts [OF assms(2)]
  show ?thesis
  proof (cases r)
    case None
    show ?thesis
    proof (cases r')
      case N: None
      then show ?thesis using p p' None by simp
    next
      case (Some x)
      have "a \<noteq> a' @ ''__'' @ x" using p contains_dunder_append [of a' x] by blast
      then show ?thesis using p p' None Some by auto
    qed
  next
    case S: (Some x)
    show ?thesis
    proof (cases r')
      case None
      have "a' \<noteq> a @ ''__'' @ x" using p' contains_dunder_append [of a x] by blast
      then show ?thesis using p p' None S by auto
    next
      case (Some x')
      have pp: "p = p' \<longleftrightarrow> a @ ''__'' @ x = a' @ ''__'' @ x'" using p p' S Some by simp
      show ?thesis
      proof (cases "length a' \<le> length a")
        case True
        have "a @ ''__'' @ x = a' @ ''__'' @ x' \<longleftrightarrow> (a = a' \<and> x = x') \<or> (a = a' @ ''_'' \<and> x' = ''_'' @ x)"
          using dunder_split [OF _ True, of x x'] p by auto
        then show ?thesis unfolding pp S Some using True by auto
      next
        case False
        then have le: "length a \<le> length a'" by simp
        have "a' @ ''__'' @ x' = a @ ''__'' @ x \<longleftrightarrow> (a' = a \<and> x' = x) \<or> (a' = a @ ''_'' \<and> x = ''_'' @ x')"
          using dunder_split [OF _ le, of x' x] p' by auto
        then show ?thesis unfolding pp S Some using False by auto
      qed
    qed
  qed
qed

text \<open>Two keys whose names differ by an underscore that moves from the agent to the role.\<close>

definition underscore_moved :: "key \<Rightarrow> key \<Rightarrow> bool" where
  "underscore_moved x y = (fst x = fst y @ ''_'' \<and> snd x \<noteq> None \<and> snd y = Some (''_'' @ the (snd x)))"

lemma own_files:
  assumes "list_all (\<lambda>x. list_all (\<lambda>y. \<not> underscore_moved x y) ks) ks" and "x \<in> set ks" and "y \<in> set ks"
    and "baseline_path (fst x) (snd x) = Inr k" and "baseline_path (fst y) (snd y) = Inr k"
  shows "x = y"
proof -
  have "\<not> underscore_moved x y" "\<not> underscore_moved y x" using assms(1-3) by (auto simp: list_all_iff)
  with same_file [OF assms(4,5)] show ?thesis by (cases x; cases y) (auto simp: underscore_moved_def)
qed

lemma own_rows: "tab_slot a r = Inr k \<Longrightarrow> tab_slot a' r' = Inr k \<Longrightarrow> a = a' \<and> r = r'"
  by (auto simp: tab_slot_def bindS_Inr encode_role_def no_role_def validate_role_def validate_storage_identifier_def
      storage_identifier_def identifier_text_def split: option.splits if_splits)

text \<open>
  C39: Every backend keeps, for each agent and role, the last baseline saved and not deleted since:
  after any sequence of saves and deletions on an empty store, refused ones included, a load returns an
  object equal in value to what the map from agents and roles to saved baselines holds for the key, the
  entry of the agent without a role where the role has none, nothing where neither exists, and the
  error of the key where the backend refuses it. The file and SQLite backends hold what was saved as it
  was then, whatever the program does to its objects between the calls and before the load; the file
  backend does so for keys no two of which differ by an underscore moved from the end of the agent to
  the start of the role, which share a file. The in-memory backend keeps the saved objects themselves,
  so there the program is one that does not change them.
\<close>
theorem baseline_stores_keep_last_saved:
  assumes "list_all (call_ok (\<lambda>b. True) h) ms"
    and "list_all (\<lambda>(g, c). call_ok (baseline_storable L) g c) fs" and "list_all (\<lambda>(g, c). call_ok (baseline_storable L) g c) ss"
    and "ks = (agent, role) # (agent, None) # map call_key fs" and "list_all (\<lambda>x. list_all (\<lambda>y. \<not> underscore_moved x y) ks) ks"
  shows "loads (ram_load agent role h (fold (run_call ram_save ram_delete h) ms []))
        (spec_load (keyed (\<lambda>a. validate_role)) (fold (spec_call (keyed (\<lambda>a. validate_role)) h) ms Map.empty) agent role)
    \<and> loads (disk_load L now agent role g (fold (\<lambda>(g, c). run_call disk_save disk_delete g c) fs []))
        (spec_load (keyed baseline_path) (fold (\<lambda>(g, c). spec_call (keyed baseline_path) g c) fs Map.empty) agent role)
    \<and> loads (tab_load L now agent role g (fold (\<lambda>(g, c). run_call tab_save tab_delete g c) ss []))
        (spec_load (keyed (\<lambda>a. encode_role)) (fold (\<lambda>(g, c). spec_call (keyed (\<lambda>a. encode_role)) g c) ss Map.empty) agent role)"
proof -
  have e: "ram_content h [] = Map.empty" "disk_content L now g [] = Map.empty" "tab_content L now g [] = Map.empty"
    by (simp_all add: fun_eq_iff ram_content_def disk_content_def tab_content_def read_baseline_def read_row_def
        row_of_def found_def)
  have v: "ram_valid h []" "disk_valid L g []" "tab_valid L g []"
    by (simp_all add: ram_valid_def disk_valid_def tab_valid_def)
  have "keyed tab_slot = keyed (\<lambda>a. encode_role)"
    by (auto simp: fun_eq_iff keyed_def tab_slot_def bindS_def split: sum.split)
  moreover have "loads (tab_load L now agent role g (fold (\<lambda>(g, c). run_call tab_save tab_delete g c) ss []))
      (spec_load (keyed tab_slot) (fold (\<lambda>(g, c). spec_call (keyed tab_slot) g c) ss Map.empty) agent role)"
    by (rule tab.loads_last_saved [OF v(3) e(3) assms(3), where K = UNIV]) (auto simp: prod_eq_iff dest: own_rows)
  moreover have "loads (disk_load L now agent role g (fold (\<lambda>(g, c). run_call disk_save disk_delete g c) fs []))
      (spec_load (keyed baseline_path) (fold (\<lambda>(g, c). spec_call (keyed baseline_path) g c) fs Map.empty) agent role)"
  proof -
    have ks: "call_key ` set fs \<subseteq> set ks" "(agent, role) \<in> set ks" "(agent, None) \<in> set ks" using assms(4) by auto
    show ?thesis
      by (rule disk.loads_last_saved [OF v(2) e(2) assms(2) _ ks]) (rule own_files [OF assms(5)])
  qed
  ultimately show ?thesis
    using ram.loads_what_was_saved [OF v(1) assms(1), of agent role] unfolding e ram_slot_def by simp
qed

definition sample_baseline :: "string \<Rightarrow> baseline" where
  "sample_baseline a = \<lparr>bl_agent = a, bl_actions = [(''tool_call'', 3)], bl_tools = [], bl_length_mean = 0,
     bl_length_std = 0, bl_depth_mean = 0, bl_created_at = ''t'', bl_samples = 3\<rparr>"

lemma sample_storable [simp]: "baseline_storable sample_lib b" "bl_agent (sample_baseline a) = a"
  by (simp_all add: baseline_storable_def sample_baseline_def)

lemma sample_keys: "baseline_path ''a'' None = Inr ''a.json''" "validate_role (Some ''lead'') = Inr ()"
    "baseline_path ''a'' (Some ''lead'') = Inr ''a__lead.json''"
  by (simp_all add: baseline_path_def validate_role_def validate_storage_identifier_def storage_identifier_def
      identifier_text_def identifier_char_def contains_def sublist_code)

lemma baseline_stores_keep_last_saved_witness:
  "loads (disk_load sample_lib ''now'' ''a'' (Some ''lead'') [] (fold (\<lambda>(g, c). run_call disk_save disk_delete g c)
     [([sample_baseline ''a''], Save (''r'', 0) 0 None)] [])) (Inr (Some (sample_baseline ''a'')))"
  using baseline_stores_keep_last_saved [of "[]" "[]" sample_lib "[([sample_baseline ''a''], Save (''r'', 0) 0 None)]" "[]" _
      "''a''" "Some ''lead''", OF _ _ _ refl, of "''now''" "[]"]
  by (simp add: call_ok_def call_key_def underscore_moved_def spec_load_def keyed_def sample_keys)

text \<open>
  C40: The file names tell keys apart except in one case: two accepted keys share a file exactly when
  they are equal or when one agent identifier is the other with a trailing underscore and its role is
  the other role without a leading one. (The comment of \<open>FileBaselineStore\<close> claims that the names are
  unambiguous.)
\<close>
theorem baseline_files_collide_iff:
  assumes "baseline_path a r = Inr p" and "baseline_path a' r' = Inr p'"
  shows "p = p' \<longleftrightarrow> (a = a' \<and> r = r')
    \<or> (\<exists>s. a = a' @ ''_'' \<and> r = Some s \<and> r' = Some (''_'' @ s))
    \<or> (\<exists>s. a' = a @ ''_'' \<and> r' = Some s \<and> r = Some (''_'' @ s))"
  by (rule same_file [OF assms])

lemma collision_keys: "baseline_path ''a_'' (Some ''b'') = Inr ''a___b.json''" "baseline_path ''a'' (Some ''_b'') = Inr ''a___b.json''"
  by (simp_all add: baseline_path_def validate_role_def validate_storage_identifier_def storage_identifier_def
      identifier_text_def identifier_char_def contains_def sublist_code)

lemma baseline_files_collide_iff_witness:
  "\<exists>p. baseline_path ''a_'' (Some ''b'') = Inr p \<and> baseline_path ''a'' (Some ''_b'') = Inr p"
  using baseline_files_collide_iff [OF collision_keys] collision_keys by blast

text \<open>So the baseline of one agent is loaded for another, whose name it does not carry.\<close>

lemma baseline_of_another_agent:
  "loads (disk_load sample_lib now ''a'' (Some ''_b'') [sample_baseline ''a_'']
     (snd (disk_save (''r'', 0) 0 (Some ''b'') [sample_baseline ''a_''] []))) (Inr (Some (sample_baseline ''a_'')))"
proof -
  have ok: "list_all (call_ok (baseline_storable sample_lib) [sample_baseline ''a_'']) [Save (''r'', 0) 0 (Some ''b'')]"
    by (simp add: call_ok_def)
  have "disk_valid sample_lib [sample_baseline ''a_''] []" by (simp add: disk_valid_def)
  from disk.loads_what_was_saved [OF this ok, of now "''a''" "Some ''_b''"] show ?thesis
    by (simp add: spec_load_def collision_keys)
qed

end
