(* ===== verification/Cortical.thy ===== *)
theory Cortical
  imports Baseline_Stores
begin

text \<open>
  The cortical layer (\<open>layers/cortical.py\<close>): reasoning, memory and drift assessments, the
  Jensen-Shannon distance, the evaluation, and the operations that learn a baseline. The layer's
  baseline is a reference into the heap; a store is passed as its two operations. Divergences are
  real numbers, rounded to rationals where the code rounds; the Wasserstein distance of scipy is an
  argument, as are \<open>str\<close> of a value that is no string and the parser of ISO texts.
\<close>

section \<open>Assessments\<close>

record reasoning_assessment =
  rv_consistency :: rat
  rv_chain_length :: nat
  rv_contradictions :: nat
  rv_alignment :: rat
  rv_conflict :: bool
  rv_description :: "string option"

record memory_assessment =
  ma_score :: rat
  ma_total :: nat
  ma_suspicious :: nat
  ma_verified :: nat
  ma_unknown :: nat
  ma_conflicts :: nat

record drift_assessment =
  da_score :: rat
  da_dimensions :: "(string, rat) dict"
  da_drifted :: "string list"
  da_age :: rat

definition reasoning_to_dict :: "reasoning_assessment \<Rightarrow> json" where
  "reasoning_to_dict a = JObj
     [(''consistency_score'', JFloat (rv_consistency a)), (''chain_length'', JInt (int (rv_chain_length a))),
      (''contradictions'', JInt (int (rv_contradictions a))), (''goal_alignment'', JFloat (rv_alignment a)),
      (''conflict_detected'', JBool (rv_conflict a)), (''conflict_description'', json_opt JStr (rv_description a))]"

definition memory_to_dict :: "memory_assessment \<Rightarrow> json" where
  "memory_to_dict a = JObj
     [(''integrity_score'', JFloat (ma_score a)), (''total_reads'', JInt (int (ma_total a))),
      (''suspicious_reads'', JInt (int (ma_suspicious a))), (''provenance_verified'', JInt (int (ma_verified a))),
      (''provenance_unknown'', JInt (int (ma_unknown a))), (''conflicts_detected'', JInt (int (ma_conflicts a)))]"

definition drift_to_dict :: "drift_assessment \<Rightarrow> json" where
  "drift_to_dict a = JObj
     [(''drift_score'', JFloat (da_score a)), (''dimensions'', baseline_counts_json (da_dimensions a)),
      (''drifted_dimensions'', JArr (map JStr (da_drifted a))), (''baseline_age_hours'', JFloat (da_age a))]"

section \<open>Reasoning\<close>

definition shown :: "(json \<Rightarrow> string) \<Rightarrow> json \<Rightarrow> string" where
  "shown str j = lower (case j of JStr s \<Rightarrow> s | _ \<Rightarrow> str j)"

definition contradicts :: "string \<Rightarrow> string \<Rightarrow> bool" where
  "contradicts a b =
     (contains ''should not'' a \<and> contains ''should'' b \<and> \<not> contains ''should not'' b
      \<or> contains ''reject'' a \<and> contains ''accept'' b
      \<or> contains ''deny'' a \<and> contains ''allow'' b)"

fun count_contradictions :: "string list \<Rightarrow> nat" where
  "count_contradictions (a # b # xs) = (if contradicts a b then 1 else 0) + count_contradictions (b # xs)"
| "count_contradictions _ = 0"

definition overrides_goal :: "string \<Rightarrow> bool" where
  "overrides_goal s = list_ex (\<lambda>w. contains w s) [''ignore your goal'', ''new objective'', ''override'']"

definition conflict_description :: string where
  "conflict_description = ''Detected instruction attempting to override established goals''"

definition validate_reasoning :: "(json \<Rightarrow> string) \<Rightarrow> args \<Rightarrow> exn + reasoning_assessment" where
  "validate_reasoning str ctx =
     (let chain = (case field_or ''reasoning_chain'' (JArr []) ctx of JArr xs \<Rightarrow> map (shown str) xs | _ \<Rightarrow> []);
          goals = field_or ''goals'' (JArr []) ctx; instructions = field_or ''instructions'' (JArr []) ctx;
          n = length chain; c = count_contradictions chain
      in bindS (if truthy goals \<and> truthy instructions
                then bindS (iter_json instructions) (\<lambda>is. Inr (list_ex (\<lambda>i. overrides_goal (shown str i)) is))
                else Inr False) (\<lambda>conflict.
         let base = (if n = 0 then 85 / 100 else max 0 (1 - of_nat c / of_nat n * 2));
             consistency = (if conflict then base * (1 / 2) else base);
             alignment = 1 - of_nat c * (1 / 10)
         in Inr \<lparr>rv_consistency = round_to 4 (max 0 (min 1 consistency)), rv_chain_length = n, rv_contradictions = c,
              rv_alignment = round_to 4 (max 0 (min 1 alignment)), rv_conflict = conflict,
              rv_description = (if conflict then Some conflict_description else None)\<rparr>))"

section \<open>Memory\<close>

fun sized_json :: "json \<Rightarrow> exn + nat" where
  "sized_json (JArr xs) = Inr (length xs)"
| "sized_json (JObj d) = Inr (length d)"
| "sized_json (JStr s) = Inr (length s)"
| "sized_json _ = Inl (TypeError ''object has no len()'')"

text \<open>The loop over the reads: suspicious, verified, unknown and conflicting ones so far.\<close>

fun count_reads :: "json list \<Rightarrow> nat \<times> nat \<times> nat \<times> nat \<Rightarrow> nat \<times> nat \<times> nat \<times> nat" where
  "count_reads [] acc = acc"
| "count_reads (JObj d # rs) (suspicious, verified, unknown, conflicts) =
     (let p = field_or ''provenance'' JNull d;
          c = conflicts + (if truthy (field_or ''conflicts_with_baseline'' (JBool False) d) then 1 else 0)
      in count_reads rs
        (if p = JStr ''verified'' then (suspicious, verified + 1, unknown, c)
         else if p = JStr ''unknown'' \<or> p = JNull then (suspicious + 1, verified, unknown + 1, c)
         else if p = JStr ''external'' then (suspicious + 1, verified, unknown, c)
         else (suspicious, verified, unknown, c)))"
| "count_reads (_ # rs) acc = count_reads rs acc"

definition check_memory :: "args \<Rightarrow> exn + memory_assessment" where
  "check_memory ctx =
     (let reads = field_or ''memory_reads'' (JArr []) ctx in bindS (sized_json reads) (\<lambda>total.
        if total = 0 then Inr \<lparr>ma_score = 1, ma_total = 0, ma_suspicious = 0, ma_verified = 0, ma_unknown = 0, ma_conflicts = 0\<rparr>
        else bindS (iter_json reads) (\<lambda>rs. case count_reads rs (0, 0, 0, 0) of (suspicious, verified, unknown, conflicts) \<Rightarrow>
          Inr \<lparr>ma_score = round_to 4 (max 0 (1 - of_nat suspicious / of_nat total - of_nat conflicts * (15 / 100))),
               ma_total = total, ma_suspicious = suspicious, ma_verified = verified, ma_unknown = unknown,
               ma_conflicts = conflicts\<rparr>)))"

section \<open>Distances\<close>

definition round_even :: "real \<Rightarrow> int" where
  "round_even x = (let f = \<lfloor>x\<rfloor>; d = x - of_int f
      in if d < 1 / 2 then f else if d > 1 / 2 then f + 1 else if even f then f else f + 1)"

definition round_real :: "nat \<Rightarrow> real \<Rightarrow> rat" where
  "round_real n x = of_int (round_even (x * 10 ^ n)) / 10 ^ n"

definition kl :: "real list \<Rightarrow> real list \<Rightarrow> real" where
  "kl a b = sum_list (map (\<lambda>(x, y). if 0 < x \<and> 0 < y then x * log 2 (x / y) else 0) (zip a b))"

definition mixture :: "real list \<Rightarrow> real list \<Rightarrow> real list" where
  "mixture p q = map (\<lambda>(x, y). (x + y) / 2) (zip p q)"

definition js_divergence :: "real list \<Rightarrow> real list \<Rightarrow> real" where
  "js_divergence p q = (kl p (mixture p q) + kl q (mixture p q)) / 2"

definition js_distance :: "real list \<Rightarrow> real list \<Rightarrow> real" where
  "js_distance p q = sqrt (max 0 (min 1 (js_divergence p q)))"

datatype metric = Jensen_Shannon | Wasserstein "(rat list \<Rightarrow> rat list \<Rightarrow> rat) option"

definition count_of :: "(string, rat) dict \<Rightarrow> string \<Rightarrow> rat" where
  "count_of d k = (case map_of d k of None \<Rightarrow> 0 | Some v \<Rightarrow> v)"

definition all_keys :: "(string, rat) dict \<Rightarrow> (string, rat) dict \<Rightarrow> string list" where
  "all_keys b c = sorted_list_of_set (set (dict_keys b) \<union> set (dict_keys c))"

definition total :: "(string, rat) dict \<Rightarrow> rat" where
  "total d = sum_list (map snd d)"

definition smoothed :: "string list \<Rightarrow> (string, rat) dict \<Rightarrow> rat list" where
  "smoothed ks d = map (\<lambda>k. (count_of d k + 1) / (total d + of_nat (length ks))) ks"

definition wasserstein_distance :: "(rat list \<Rightarrow> rat list \<Rightarrow> rat) \<Rightarrow> rat list \<Rightarrow> rat list \<Rightarrow> rat" where
  "wasserstein_distance w p q = (if length p \<le> 1 then 0 else min 1 (w p q / of_nat (length p - 1)))"

text \<open>The distance and whether both sides had enough samples.\<close>

definition distribution_distance :: "metric \<Rightarrow> int \<Rightarrow> (string, rat) dict \<Rightarrow> (string, rat) dict \<Rightarrow> exn + rat \<times> bool" where
  "distribution_distance mt min_samples b c =
     (let ks = all_keys b c; n = of_nat (length ks) in
      if ks = [] then Inr (0, True)
      else if total b < of_int min_samples \<or> total c < of_int min_samples then Inr (0, False)
      else if total b + n = 0 \<or> total c + n = 0 then Inl (OtherError ''ZeroDivisionError'' ''division by zero'')
      else let p = smoothed ks b; q = smoothed ks c in
        (case mt of
           Wasserstein (Some w) \<Rightarrow> Inr (round_to 4 (wasserstein_distance w p q), True)
         | _ \<Rightarrow> Inr (round_real 4 (js_distance (map of_rat p) (map of_rat q)), True)))"

section \<open>The layer\<close>

record cortical =
  cx_drift_tolerance :: rat
  cx_memory_threshold :: rat
  cx_reasoning_threshold :: rat
  cx_baseline :: "nat option"
  cx_min_samples :: int
  cx_block_on_drift :: bool
  cx_metric :: metric
  cx_observations :: "args list"
  cx_last_role :: "string option"

definition make_cortical :: "rat \<Rightarrow> rat \<Rightarrow> rat \<Rightarrow> nat option \<Rightarrow> int \<Rightarrow> metric \<Rightarrow> bool \<Rightarrow> cortical" where
  "make_cortical tolerance memory reasoning base min_samples mt block =
     \<lparr>cx_drift_tolerance = tolerance, cx_memory_threshold = memory, cx_reasoning_threshold = reasoning,
      cx_baseline = base, cx_min_samples = min_samples, cx_block_on_drift = block, cx_metric = mt,
      cx_observations = [], cx_last_role = None\<rparr>"

record 's baseline_backend =
  bb_save :: "nat \<Rightarrow> string option \<Rightarrow> baseline_heap \<Rightarrow> 's \<Rightarrow> (exn + unit) \<times> 's"
  bb_load :: "string \<Rightarrow> string option \<Rightarrow> baseline_heap \<Rightarrow> 's \<Rightarrow> (decode_error + nat option) \<times> baseline_heap"

text \<open>One dimension of drift: an entry, a note of too few samples, or nothing to compare.\<close>

definition drift_dimension :: "cortical \<Rightarrow> (string, rat) dict \<Rightarrow> json \<Rightarrow> decode_error + (rat \<times> bool) option" where
  "drift_dimension c base current =
     (if \<not> truthy current \<or> base = [] then Inr None
      else bindS (as_counts current) (\<lambda>now.
        case distribution_distance (cx_metric c) (cx_min_samples c) base now of
          Inl e \<Rightarrow> Inl (Fails e) | Inr r \<Rightarrow> Inr (Some r)))"

definition age_hours :: "(string \<Rightarrow> datetime option) \<Rightarrow> int \<Rightarrow> string \<Rightarrow> decode_error + rat" where
  "age_hours parse now created = (case parse created of
       Some (Aware t) \<Rightarrow> Inr (of_int (now - t) / 3600000000)
     | _ \<Rightarrow> Inl (Fails (TypeError ''can't subtract offset-naive and offset-aware datetimes'')))"

definition no_drift :: drift_assessment where
  "no_drift = \<lparr>da_score = 0, da_dimensions = [], da_drifted = [], da_age = 0\<rparr>"

definition measured :: "string \<Rightarrow> (rat \<times> bool) option \<Rightarrow> (string, rat) dict" where
  "measured name r = (case r of Some (score, True) \<Rightarrow> [(name, score)] | _ \<Rightarrow> [])"

definition insufficient :: "string \<Rightarrow> (rat \<times> bool) option \<Rightarrow> (string, rat) dict" where
  "insufficient name r = (case r of Some (score, False) \<Rightarrow> [(name @ ''__insufficient_samples'', 0)] | _ \<Rightarrow> [])"

definition drift_score :: "(string, rat) dict \<Rightarrow> rat" where
  "drift_score dims = (if dims = [] then 0 else total dims / of_nat (length dims))"

definition detect_drift :: "(string \<Rightarrow> datetime option) \<Rightarrow> int \<Rightarrow> cortical \<Rightarrow> baseline_heap \<Rightarrow> args \<Rightarrow> decode_error + drift_assessment" where
  "detect_drift parse now c h ctx =
     (case cx_baseline c of None \<Rightarrow> Inr no_drift
      | Some r \<Rightarrow> if bl_samples (h ! r) = 0 then Inr no_drift else
          bindS (drift_dimension c (bl_actions (h ! r)) (field_or ''action_distribution'' (JObj []) ctx)) (\<lambda>a.
          bindS (drift_dimension c (bl_tools (h ! r)) (field_or ''tool_usage'' (JObj []) ctx)) (\<lambda>t.
          bindS (age_hours parse now (bl_created_at (h ! r))) (\<lambda>age.
            let dims = measured ''action_distribution'' a @ measured ''tool_usage'' t
            in Inr \<lparr>da_score = round_to 4 (min 1 (drift_score dims)),
                 da_dimensions = dims @ insufficient ''action_distribution'' a @ insufficient ''tool_usage'' t,
                 da_drifted = map fst (filter (\<lambda>d. cx_drift_tolerance c < snd d) dims),
                 da_age = round_to 2 age\<rparr>))))"

section \<open>Baselines of the layer\<close>

definition fresh_baseline :: "string \<Rightarrow> string \<Rightarrow> baseline" where
  "fresh_baseline agent created = \<lparr>bl_agent = agent, bl_actions = [], bl_tools = [], bl_length_mean = 0,
     bl_length_std = 0, bl_depth_mean = 0, bl_created_at = created, bl_samples = 0\<rparr>"

text \<open>\<open>created\<close> is the ISO text of the clock.\<close>

definition load_baseline :: "'s baseline_backend option \<Rightarrow> string \<Rightarrow> string \<Rightarrow> string option \<Rightarrow> cortical \<Rightarrow> baseline_heap \<Rightarrow> 's
    \<Rightarrow> (decode_error + nat) \<times> cortical \<times> baseline_heap" where
  "load_baseline be created agent role c h s =
     (case cx_baseline c of Some r \<Rightarrow> (Inr r, c, h)
      | None \<Rightarrow>
          (case (case be of None \<Rightarrow> (Inr None, h) | Some B \<Rightarrow> bb_load B agent role h s) of
             (Inl e, h') \<Rightarrow> (Inl e, c, h')
           | (Inr (Some r), h') \<Rightarrow> (Inr r, c\<lparr>cx_baseline := Some r\<rparr>, h')
           | (Inr None, h') \<Rightarrow> (Inr (length h'), c\<lparr>cx_baseline := Some (length h')\<rparr>, h' @ [fresh_baseline agent created])))"

definition write_through :: "'s baseline_backend option \<Rightarrow> nat \<Rightarrow> cortical \<Rightarrow> baseline_heap \<Rightarrow> 's \<Rightarrow> (exn + unit) \<times> 's" where
  "write_through be r c h s = (case be of None \<Rightarrow> (Inr (), s) | Some B \<Rightarrow> bb_save B r (cx_last_role c) h s)"

definition add_count :: "string \<Rightarrow> rat \<Rightarrow> (string, rat) dict \<Rightarrow> (string, rat) dict" where
  "add_count k n d = dict_set k (count_of d k + n) d"

definition add_observed :: "string option \<Rightarrow> (string, rat) dict \<Rightarrow> (string, rat) dict" where
  "add_observed k d = (case k of None \<Rightarrow> d | Some k \<Rightarrow> if k = [] then d else add_count k 1 d)"

text \<open>
  \<open>update_baseline\<close>: the action and the tool of the observation are strings where they are given,
  and \<open>observation\<close> is what the buffer keeps.
\<close>

definition observe_baseline :: "string option \<Rightarrow> string option \<Rightarrow> baseline \<Rightarrow> baseline" where
  "observe_baseline action tool b = b\<lparr>bl_samples := bl_samples b + 1,
     bl_actions := add_observed action (bl_actions b), bl_tools := add_observed tool (bl_tools b)\<rparr>"

definition update_baseline :: "'s baseline_backend option \<Rightarrow> string \<Rightarrow> string option \<Rightarrow> string option \<Rightarrow> args
    \<Rightarrow> cortical \<Rightarrow> baseline_heap \<Rightarrow> 's \<Rightarrow> (exn + unit) \<times> cortical \<times> baseline_heap \<times> 's" where
  "update_baseline be created action tool observation c h s =
     (let c1 = c\<lparr>cx_observations := cx_observations c @ [observation]\<rparr>;
          (r, h1) = (case cx_baseline c of Some r \<Rightarrow> (r, h) | None \<Rightarrow> (length h, h @ [fresh_baseline ''unknown'' created]));
          c2 = c1\<lparr>cx_baseline := Some r\<rparr>; h2 = h1[r := observe_baseline action tool (h1 ! r)];
          (res, s') = write_through be r c2 h2 s
      in (res, c2, h2, s'))"

definition learned :: "(string, int) dict \<Rightarrow> (string, int) dict \<Rightarrow> baseline \<Rightarrow> baseline" where
  "learned actions tools b = b\<lparr>bl_samples := bl_samples b + sum_list (map snd actions),
     bl_actions := fold (\<lambda>(k, n). add_count k (of_int n)) actions (bl_actions b),
     bl_tools := fold (\<lambda>(k, n). add_count k (of_int n)) tools (bl_tools b)\<rparr>"

definition learn_session :: "'s baseline_backend option \<Rightarrow> (string, int) dict \<Rightarrow> (string, int) dict
    \<Rightarrow> cortical \<Rightarrow> baseline_heap \<Rightarrow> 's \<Rightarrow> (exn + unit) \<times> cortical \<times> baseline_heap \<times> 's" where
  "learn_session be actions tools c h s =
     (case cx_baseline c of None \<Rightarrow> (Inr (), c, h, s)
      | Some r \<Rightarrow> if list_all (\<lambda>p. snd p = 0) actions then (Inr (), c, h, s)
          else let h' = h[r := learned actions tools (h ! r)]; (res, s') = write_through be r c h' s
               in (res, c, h', s'))"

section \<open>Evaluation\<close>

definition composite_score :: "reasoning_assessment \<Rightarrow> memory_assessment \<Rightarrow> drift_assessment \<Rightarrow> rat" where
  "composite_score ra ma da =
     round_to 4 (rv_consistency ra * (35 / 100) + ma_score ma * (35 / 100) + (1 - da_score da) * (30 / 100))"

definition cortical_action :: "cortical \<Rightarrow> reasoning_assessment \<Rightarrow> memory_assessment \<Rightarrow> drift_assessment \<Rightarrow> string" where
  "cortical_action c ra ma da =
     (if rv_conflict ra then ''escalate''
      else if cx_drift_tolerance c * 2 < da_score da then (if cx_block_on_drift c then ''block'' else ''alert'')
      else if cx_drift_tolerance c < da_score da \<or> ma_score ma < cx_memory_threshold c
              \<or> rv_consistency ra < cx_reasoning_threshold c then ''alert''
      else ''pass'')"

definition cortical_result :: "cortical \<Rightarrow> baseline \<Rightarrow> reasoning_assessment \<Rightarrow> memory_assessment \<Rightarrow> drift_assessment \<Rightarrow> layer_result" where
  "cortical_result c b ra ma da =
     (let score = composite_score ra ma da; action = cortical_action c ra ma da in
      \<lparr>lr_name = ''cortical'', lr_score = score, lr_passed = (action = ''pass''), lr_action = action,
       lr_details = [(''portability_score'', JFloat score), (''reasoning'', reasoning_to_dict ra),
         (''memory'', memory_to_dict ma), (''drift'', drift_to_dict da), (''baseline_sample_count'', JInt (bl_samples b))],
       lr_latency = 0\<rparr>)"

definition liftE :: "exn + 'a \<Rightarrow> decode_error + 'a" where
  "liftE r = (case r of Inl e \<Rightarrow> Inl (Fails e) | Inr x \<Rightarrow> Inr x)"

definition role_in :: "args \<Rightarrow> decode_error + string option" where
  "role_in ctx = bindS (liftE (get_or (or_json (field_or ''topology_context'' JNull ctx) (JObj [])) ''role'' JNull)) as_opt_text"

definition cortical_evaluate :: "(json \<Rightarrow> string) \<Rightarrow> (string \<Rightarrow> datetime option) \<Rightarrow> int \<Rightarrow> 's baseline_backend option \<Rightarrow> string
    \<Rightarrow> string \<Rightarrow> args \<Rightarrow> cortical \<Rightarrow> baseline_heap \<Rightarrow> 's \<Rightarrow> (decode_error + layer_result) \<times> cortical \<times> baseline_heap" where
  "cortical_evaluate str parse now be created agent ctx c h s =
     (case role_in ctx of Inl e \<Rightarrow> (Inl e, c, h)
      | Inr role \<Rightarrow>
          (case load_baseline be created agent role (c\<lparr>cx_last_role := role\<rparr>) h s of
             (Inl e, c', h') \<Rightarrow> (Inl e, c', h')
           | (Inr r, c', h') \<Rightarrow>
               (bindS (liftE (validate_reasoning str ctx)) (\<lambda>ra.
                bindS (liftE (check_memory ctx)) (\<lambda>ma.
                bindS (detect_drift parse now c' h' ctx) (\<lambda>da.
                  Inr (cortical_result c' (h' ! r) ra ma da)))), c', h')))"

end
