(* ===== verification/Cortical_Properties.thy ===== *)
theory Cortical_Properties
  imports Cortical
begin

text \<open>
  What the cortical layer promises: the divergence is a bounded symmetric measure that vanishes only
  on equal distributions, so its clamp corrects rounding and nothing else; the score and the action
  of an evaluation follow from the three assessments; a learned baseline survives the process.
\<close>

section \<open>The divergence\<close>

definition js_term :: "real \<Rightarrow> real \<Rightarrow> real" where
  "js_term x y = (x * log 2 (x / ((x + y) / 2)) + y * log 2 (y / ((x + y) / 2))) / 2"

lemma log_ge: "0 < x \<Longrightarrow> 0 < y \<Longrightarrow> (x - y) / ln 2 \<le> x * log 2 (x / y)"
proof -
  assume xy: "0 < x" "0 < y"
  then have "ln (y / x) \<le> y / x - 1" by (intro ln_le_minus_one) simp
  then have "x * ln (y / x) \<le> x * (y / x - 1)" using xy(1) by (intro mult_left_mono) simp_all
  then have "x - y \<le> x * ln (x / y)" using xy by (simp add: ln_div algebra_simps)
  then show ?thesis by (simp add: log_def divide_right_mono)
qed

lemma log_gt: "0 < x \<Longrightarrow> 0 < y \<Longrightarrow> x \<noteq> y \<Longrightarrow> (x - y) / ln 2 < x * log 2 (x / y)"
proof -
  assume xy: "0 < x" "0 < y" "x \<noteq> y"
  then have "y / x \<noteq> 1" "0 < y / x" by simp_all
  then have "ln (y / x) < y / x - 1" using ln_eq_minus_one [of "y / x"] ln_le_minus_one [of "y / x"] by fastforce
  then have "x * ln (y / x) < x * (y / x - 1)" using xy(1) by (intro mult_strict_left_mono) simp_all
  then have "x - y < x * ln (x / y)" using xy by (simp add: ln_div algebra_simps)
  then show ?thesis by (simp add: log_def divide_strict_right_mono)
qed

lemma twice_js_term: "2 * js_term x y = x * log 2 (x / ((x + y) / 2)) + y * log 2 (y / ((x + y) / 2))"
proof -
  have "2 * (a / 2) = a" for a :: real by simp
  then show ?thesis unfolding js_term_def .
qed

lemma gaps_cancel: "(x - (x + y) / 2) / ln 2 + (y - (x + y) / 2) / ln 2 = (0 :: real)"
  by (simp flip: add_divide_distrib)

lemma js_term_ge:
  assumes "0 < x" and "0 < y"
  shows "0 \<le> js_term x y"
proof -
  have "0 < (x + y) / 2" using assms by simp
  from log_ge [OF assms(1) this] log_ge [OF assms(2) this] twice_js_term [of x y] gaps_cancel [of x y]
  show ?thesis by linarith
qed

lemma log_le:
  assumes "0 < x" and "0 < y"
  shows "x * log 2 (x / ((x + y) / 2)) \<le> x"
proof -
  have "x / ((x + y) / 2) \<le> 2" using assms by (simp add: divide_le_eq)
  moreover have "0 < x / ((x + y) / 2)" using assms by simp
  ultimately have "log 2 (x / ((x + y) / 2)) \<le> log 2 2" by (subst log_le_cancel_iff) simp_all
  then show ?thesis using assms(1) by (simp add: mult_left_le)
qed

lemma js_term_le:
  assumes "0 < x" and "0 < y"
  shows "js_term x y \<le> (x + y) / 2"
proof -
  have "2 * js_term x y \<le> x + y"
    unfolding twice_js_term using log_le [OF assms] log_le [OF assms(2,1)] unfolding add.commute [of y x]
    by (rule add_mono)
  then show ?thesis by simp
qed

lemma js_term_commute: "js_term x y = js_term y x"
  by (simp add: js_term_def add.commute)

lemma js_term_zero:
  assumes "0 < x" and "0 < y" and "js_term x y = 0"
  shows "x = y"
proof (rule ccontr)
  assume "x \<noteq> y"
  then have "x \<noteq> (x + y) / 2" by simp
  moreover have m: "0 < (x + y) / 2" using assms by simp
  ultimately show False
    using log_gt [OF assms(1) m] log_ge [OF assms(2) m] assms(3) twice_js_term [of x y] gaps_cancel [of x y]
    by linarith
qed

lemma zip_equal: "length p = length q \<Longrightarrow> \<forall>(x, y) \<in> set (zip p q). x = y \<Longrightarrow> p = q"
  by (induction p q rule: list_induct2) auto

lemma zip_mixture:
  "length p = length q \<Longrightarrow> zip p (mixture p q) = map (\<lambda>(x, y). (x, (x + y) / 2)) (zip p q)"
  "length p = length q \<Longrightarrow> zip q (mixture p q) = map (\<lambda>(x, y). (y, (x + y) / 2)) (zip p q)"
  by (induction p q rule: list_induct2) (simp_all add: mixture_def)

lemma js_divergence_terms:
  assumes len: "length p = length q" and pos: "\<forall>x \<in> set p. 0 < x" "\<forall>y \<in> set q. 0 < y"
  shows "js_divergence p q = sum_list (map (\<lambda>(x, y). js_term x y) (zip p q))"
proof -
  have zs: "\<forall>(x, y) \<in> set (zip p q). 0 < x \<and> 0 < y" using pos by (auto dest: set_zip_leftD set_zip_rightD)
  have a: "kl p (mixture p q) = sum_list (map (\<lambda>(x, y). x * log 2 (x / ((x + y) / 2))) (zip p q))"
    unfolding kl_def zip_mixture(1) [OF len] map_map
    by (rule arg_cong [where f = sum_list], rule map_cong [OF refl]) (use zs in auto)
  have b: "kl q (mixture p q) = sum_list (map (\<lambda>(x, y). y * log 2 (y / ((x + y) / 2))) (zip p q))"
    unfolding kl_def zip_mixture(2) [OF len] map_map
    by (rule arg_cong [where f = sum_list], rule map_cong [OF refl]) (use zs in auto)
  have "sum_list (map f zs) / 2 + sum_list (map g zs) / 2 = sum_list (map (\<lambda>z. (f z + g z) / 2) zs)"
    for f g :: "real \<times> real \<Rightarrow> real" and zs
    by (induction zs) (simp_all add: field_simps)
  then show ?thesis unfolding js_divergence_def a b add_divide_distrib
    by (simp add: js_term_def case_prod_beta' add_divide_distrib)
qed

lemma sum_zip:
  fixes p q :: "real list"
  shows "length p = length q \<Longrightarrow> sum_list (map (\<lambda>(x, y). (x + y) / 2) (zip p q)) = (sum_list p + sum_list q) / 2"
  by (induction p q rule: list_induct2) (simp_all add: field_simps)

lemma js_divergence_laws:
  assumes len: "length p = length q" and pos: "\<forall>x \<in> set p. 0 < x" "\<forall>y \<in> set q. 0 < y"
  shows "0 \<le> js_divergence p q" "js_divergence p q \<le> (sum_list p + sum_list q) / 2"
    "js_divergence p q = js_divergence q p" "js_divergence p q = 0 \<longleftrightarrow> p = q"
proof -
  note eq = js_divergence_terms [OF assms]
  have zs: "\<And>x y. (x, y) \<in> set (zip p q) \<Longrightarrow> 0 < x \<and> 0 < y" using pos by (auto dest: set_zip_leftD set_zip_rightD)
  have nonneg: "\<And>t. t \<in> set (map (\<lambda>(x, y). js_term x y) (zip p q)) \<Longrightarrow> 0 \<le> t"
    using zs js_term_ge by auto
  then show "0 \<le> js_divergence p q" unfolding eq by (rule sum_list_nonneg)
  have "js_divergence p q \<le> sum_list (map (\<lambda>(x, y). (x + y) / 2) (zip p q))"
    unfolding eq by (rule sum_list_mono) (use zs js_term_le in auto)
  then show "js_divergence p q \<le> (sum_list p + sum_list q) / 2" by (simp only: sum_zip [OF len])
  have "map (\<lambda>(x, y). js_term x y) (zip q p) = map (\<lambda>(x, y). js_term x y) (zip p q)"
    using len by (induction p q rule: list_induct2) (simp_all add: js_term_commute)
  then show "js_divergence p q = js_divergence q p"
    unfolding eq js_divergence_terms [OF len [symmetric] pos(2,1)] by (rule arg_cong [where f = sum_list, symmetric])
  show "js_divergence p q = 0 \<longleftrightarrow> p = q"
  proof
    assume "js_divergence p q = 0"
    then have "\<forall>t \<in> set (map (\<lambda>(x, y). js_term x y) (zip p q)). t = 0"
      unfolding eq using sum_list_nonneg_eq_0_iff nonneg by blast
    then have "\<forall>(x, y) \<in> set (zip p q). x = y" using zs js_term_zero by fastforce
    then show "p = q" by (rule zip_equal [OF len])
  next
    assume "p = q"
    have "js_term x x = 0" if "0 < x" for x using that by (simp add: js_term_def)
    then have "\<forall>t \<in> set (map (\<lambda>(x, y). js_term x y) (zip p q)). t = 0"
      using zs by (auto simp: \<open>p = q\<close> zip_same)
    then show "js_divergence p q = 0" unfolding eq using sum_list_nonneg_eq_0_iff nonneg by blast
  qed
qed

section \<open>Smoothed distributions\<close>

definition counts_ok :: "(string, rat) dict \<Rightarrow> bool" where
  "counts_ok d = (dict_ok d \<and> (\<forall>p \<in> set d. 0 \<le> snd p))"

lemma all_keys_set: "set (all_keys b c) = fst ` set b \<union> fst ` set c" and all_keys_distinct: "distinct (all_keys b c)"
  by (simp_all add: all_keys_def)

lemma count_of_member: "dict_ok d \<Longrightarrow> p \<in> set d \<Longrightarrow> count_of d (fst p) = snd p"
  by (cases p) (simp add: count_of_def)

lemma count_of_other: "k \<notin> fst ` set d \<Longrightarrow> count_of d k = 0"
  by (simp add: count_of_def map_of_eq_None_iff [THEN iffD2])

lemma count_of_nonneg: "counts_ok d \<Longrightarrow> 0 \<le> count_of d k"
  by (auto simp: counts_ok_def count_of_def dest!: map_of_SomeD split: option.split)

lemma sum_counts:
  assumes d: "dict_ok d" and ks: "distinct ks" "fst ` set d \<subseteq> set ks"
  shows "sum_list (map (count_of d) ks) = total d"
proof -
  have "sum_list (map (count_of d) ks) = sum (count_of d) (set ks)"
    using ks(1) by (rule sum_list_distinct_conv_sum_set)
  also have "\<dots> = sum (count_of d) (set (map fst d))"
    using ks(2) by (intro sum.mono_neutral_right) (auto intro: count_of_other)
  also have "\<dots> = sum_list (map (count_of d) (map fst d))"
    using d by (rule sum_list_distinct_conv_sum_set [symmetric])
  also have "map (count_of d) (map fst d) = map snd d" using count_of_member [OF d] by simp
  finally show ?thesis by (simp only: total_def)
qed

lemma total_nonneg: "counts_ok d \<Longrightarrow> 0 \<le> total d"
  unfolding total_def counts_ok_def by (rule sum_list_nonneg) auto

lemma smoothed_probability:
  assumes d: "counts_ok d" and ks: "distinct ks" "fst ` set d \<subseteq> set ks" "ks \<noteq> []"
  shows "\<forall>x \<in> set (smoothed ks d). 0 < x" and "sum_list (smoothed ks d) = 1"
proof -
  let ?n = "total d + of_nat (length ks)"
  have n: "0 < ?n" using total_nonneg [OF d] ks(3) by (simp add: add_nonneg_pos)
  show "\<forall>x \<in> set (smoothed ks d). 0 < x"
    using n count_of_nonneg [OF d] by (auto simp: smoothed_def add_nonneg_pos)
  have "sum_list (smoothed ks d) = sum_list (map (\<lambda>k. count_of d k + 1) ks) / ?n"
  proof -
    have "sum_list (map (\<lambda>k. (count_of d k + 1) / m) xs) = sum_list (map (\<lambda>k. count_of d k + 1) xs) / m" for m xs
      by (induction xs) (simp_all add: add_divide_distrib)
    then show ?thesis unfolding smoothed_def .
  qed
  also have "sum_list (map (\<lambda>k. count_of d k + 1) ks) = sum_list (map (count_of d) ks) + of_nat (length ks)"
    by (induction ks) simp_all
  also have "\<dots> = ?n" using sum_counts [of d ks] d ks by (simp add: counts_ok_def)
  finally show "sum_list (smoothed ks d) = 1" using n by simp
qed

lemma of_rat_sum: "sum_list (map of_rat xs) = (of_rat (sum_list xs) :: real)"
  by (induction xs) (simp_all add: of_rat_add)

text \<open>
  For counts that are not negative, the quantity the drift check measures between the smoothed
  baseline and the smoothed current distribution lies between 0 and 1 before any clamp, does not
  depend on which of the two is the baseline, and is zero exactly when the two distributions are
  equal; so the distance returned is its square root, rounded, and the clamp never changes it.
\<close>
theorem drift_distance_bounds:
  assumes "counts_ok b" and "counts_ok c" and "all_keys b c \<noteq> []"
  defines "p \<equiv> map of_rat (smoothed (all_keys b c) b) :: real list"
    and "q \<equiv> map of_rat (smoothed (all_keys b c) c) :: real list"
  shows "0 \<le> js_divergence p q \<and> js_divergence p q \<le> 1 \<and> js_divergence p q = js_divergence q p
    \<and> (js_divergence p q = 0 \<longleftrightarrow> smoothed (all_keys b c) b = smoothed (all_keys b c) c)
    \<and> js_distance p q = sqrt (js_divergence p q)"
proof -
  let ?ks = "all_keys b c"
  have sub: "fst ` set b \<subseteq> set ?ks" "fst ` set c \<subseteq> set ?ks" by (auto simp: all_keys_set)
  note P = smoothed_probability [OF assms(1) all_keys_distinct sub(1) assms(3)]
    and Q = smoothed_probability [OF assms(2) all_keys_distinct sub(2) assms(3)]
  have len: "length p = length q" by (simp add: p_def q_def smoothed_def)
  have pos: "\<forall>x \<in> set p. 0 < x" "\<forall>y \<in> set q. 0 < y" using P(1) Q(1) by (simp_all add: p_def q_def)
  have one: "sum_list p = 1" "sum_list q = 1" using P(2) Q(2) by (simp_all add: p_def q_def of_rat_sum)
  note laws = js_divergence_laws [OF len pos]
  have eq: "p = q \<longleftrightarrow> smoothed ?ks b = smoothed ?ks c"
    unfolding p_def q_def by (rule inj_map_eq_map) (simp add: inj_def)
  have "max 0 (min 1 (js_divergence p q)) = js_divergence p q" using laws(1,2) one by simp
  with laws one show ?thesis unfolding eq js_distance_def by simp
qed

lemma drift_distance_bounds_witness:
  "js_divergence (map of_rat (smoothed [''a'', ''b''] [(''a'', 30)])) (map of_rat (smoothed [''a'', ''b''] [(''b'', 30)])) > 0"
proof -
  have ks: "all_keys [(''a'', 30)] [(''b'', 30)] = [''a'', ''b'']" by (simp add: all_keys_def)
  have ok: "counts_ok [(''a'', 30)]" "counts_ok [(''b'', 30)]" by (simp_all add: counts_ok_def)
  have "smoothed [''a'', ''b''] [(''a'', 30)] \<noteq> smoothed [''a'', ''b''] [(''b'', 30)]"
    by (simp add: smoothed_def count_of_def total_def)
  with drift_distance_bounds [OF ok, unfolded ks] show ?thesis by (simp add: order_less_le)
qed

section \<open>Scores\<close>

lemma round_even_mono_int:
  assumes "of_int a \<le> x" and "x \<le> of_int b"
  shows "a \<le> round_even x" and "round_even x \<le> b"
proof -
  have bounds: "of_int (round_even x) - 1 / 2 \<le> x" "x \<le> of_int (round_even x) + 1 / 2"
    by (auto simp: round_even_def Let_def) linarith+
  have "of_int a \<le> (of_int (round_even x) + 1 / 2 :: real)" using assms(1) bounds(2) by linarith
  then show "a \<le> round_even x" by linarith
  have "of_int (round_even x) \<le> (of_int b + 1 / 2 :: real)" using assms(2) bounds(1) by linarith
  then show "round_even x \<le> b" by linarith
qed

lemma round_real_unit_interval:
  assumes "0 \<le> x" and "x \<le> 1"
  shows "0 \<le> round_real n x" and "round_real n x \<le> 1"
proof -
  have lo: "of_int 0 \<le> x * 10 ^ n" using assms(1) by simp
  have "x * 10 ^ n \<le> 1 * 10 ^ n" using assms(2) by (intro mult_right_mono) simp_all
  then have hi: "x * 10 ^ n \<le> of_int (10 ^ n)" by simp
  note r = round_even_mono_int [OF lo hi]
  from r(1) show "0 \<le> round_real n x" by (simp add: round_real_def)
  from r(2) have "(of_int (round_even (x * 10 ^ n)) :: rat) \<le> of_int (10 ^ n)" by (simp only: of_int_le_iff)
  then show "round_real n x \<le> 1" by (simp add: round_real_def divide_le_eq)
qed

lemma js_distance_unit: "0 \<le> js_distance p q" "js_distance p q \<le> 1"
  by (simp_all add: js_distance_def)

text \<open>scipy's \<open>wasserstein_distance\<close> is a distance: it is not negative.\<close>

definition metric_ok :: "metric \<Rightarrow> bool" where
  "metric_ok mt = (\<forall>w p q. mt = Wasserstein (Some w) \<longrightarrow> 0 \<le> w p q)"

lemma distance_unit:
  assumes "metric_ok mt" and "distribution_distance mt n b c = Inr (x, ok)"
  shows "0 \<le> x" and "x \<le> 1"
proof -
  note js = round_real_unit_interval [OF js_distance_unit]
  have w: "0 \<le> wasserstein_distance w p q \<and> wasserstein_distance w p q \<le> 1" if "mt = Wasserstein (Some w)" for w p q
    using assms(1) that by (auto simp: metric_ok_def wasserstein_distance_def)
  have "0 \<le> x \<and> x \<le> 1"
    using assms(2) js w round_to_unit_interval
    by (auto simp: distribution_distance_def Let_def split: if_splits metric.splits option.splits)
  then show "0 \<le> x" "x \<le> 1" by blast+
qed

lemma drift_dimension_unit:
  assumes "metric_ok (cx_metric c)" and "drift_dimension c b j = Inr (Some (x, ok))"
  shows "0 \<le> x \<and> x \<le> 1"
  using assms(2) distance_unit [OF assms(1)]
  by (fastforce simp: drift_dimension_def bindS_def split: if_splits sum.splits)

lemma reasoning_unit:
  assumes "validate_reasoning str ctx = Inr a"
  shows "0 \<le> rv_consistency a \<and> rv_consistency a \<le> 1"
proof -
  have "\<exists>x. rv_consistency a = round_to 4 (max 0 (min 1 x))"
    using assms [unfolded validate_reasoning_def Let_def bindS_Inr]
    by (elim exE conjE) (drule sum.inject(2) [THEN iffD1], drule arg_cong [where f = rv_consistency],
        simp only: reasoning_assessment.simps, rule exI, erule sym)
  then show ?thesis using round_to_unit_interval [of "max 0 (min 1 _)" 4] by (metis max.cobounded1 max.bounded_iff min.cobounded1 zero_le_one)
qed

lemma memory_unit:
  assumes "check_memory ctx = Inr a"
  shows "0 \<le> ma_score a \<and> ma_score a \<le> 1"
proof -
  let ?reads = "field_or ''memory_reads'' (JArr []) ctx"
  obtain n where n: "sized_json ?reads = Inr n"
    using assms by (auto simp: check_memory_def Let_def bindS_Inr)
  show ?thesis
  proof (cases "n = 0")
    case True
    then show ?thesis using assms n by (auto simp: check_memory_def)
  next
    case False
    obtain rs where rs: "iter_json ?reads = Inr rs"
      using assms n False by (auto simp: check_memory_def Let_def bindS_Inr)
    obtain su ve un co where counts: "count_reads rs (0, 0, 0, 0) = (su, ve, un, co)"
      by (cases "count_reads rs (0, 0, 0, 0)") auto
    have "ma_score a = round_to 4 (max 0 (1 - of_nat su / of_nat n - of_nat co * (15 / 100)))"
      using assms n False rs by (auto simp: check_memory_def counts)
    moreover have "0 \<le> of_nat su / (of_nat n :: rat)" "0 \<le> (of_nat co :: rat) * (15 / 100)" by simp_all
    then have "max 0 (1 - of_nat su / of_nat n - of_nat co * (15 / 100)) \<le> (1 :: rat)" by linarith
    ultimately show ?thesis by (simp add: round_to_unit_interval)
  qed
qed

lemma drift_unit:
  assumes "metric_ok (cx_metric c)" and "detect_drift parse now c h ctx = Inr a"
  shows "0 \<le> da_score a \<and> da_score a \<le> 1"
proof -
  have m: "\<forall>d \<in> set (measured name r). 0 \<le> snd d" if "drift_dimension c b j = Inr r" for name r b j
    using drift_dimension_unit [OF assms(1), of b j] that by (auto simp: measured_def split: option.splits bool.splits)
  have s: "0 \<le> drift_score dims" if "\<forall>d \<in> set dims. 0 \<le> snd d" for dims
    using that by (auto simp: drift_score_def total_def intro!: sum_list_nonneg divide_nonneg_nonneg)
  have r: "0 \<le> drift_score dims \<Longrightarrow> 0 \<le> round_to 4 (min 1 (drift_score dims)) \<and> round_to 4 (min 1 (drift_score dims)) \<le> 1" for dims
    by (simp add: round_to_unit_interval)
  show ?thesis
  proof (cases "cx_baseline c")
    case None
    then show ?thesis using assms(2) by (auto simp: detect_drift_def no_drift_def)
  next
    case (Some b)
    show ?thesis
    proof (cases "bl_samples (h ! b) = 0")
      case True
      then show ?thesis using assms(2) Some by (auto simp: detect_drift_def no_drift_def)
    next
      case False
      with assms(2) Some obtain x y where xy: "drift_dimension c (bl_actions (h ! b)) (field_or ''action_distribution'' (JObj []) ctx) = Inr x"
        "drift_dimension c (bl_tools (h ! b)) (field_or ''tool_usage'' (JObj []) ctx) = Inr y"
        and a: "da_score a = round_to 4 (min 1 (drift_score (measured ''action_distribution'' x @ measured ''tool_usage'' y)))"
        by (auto simp: detect_drift_def bindS_Inr Let_def)
      show ?thesis unfolding a by (rule r, rule s) (use m [OF xy(1)] m [OF xy(2)] in auto)
    qed
  qed
qed

section \<open>Evaluation\<close>

lemma composite_unit:
  assumes "0 \<le> rv_consistency ra \<and> rv_consistency ra \<le> 1" and "0 \<le> ma_score ma \<and> ma_score ma \<le> 1"
    and "0 \<le> da_score da \<and> da_score da \<le> 1"
  shows "0 \<le> composite_score ra ma da" and "composite_score ra ma da \<le> 1"
proof -
  let ?x = "rv_consistency ra * (35 / 100) + ma_score ma * (35 / 100) + (1 - da_score da) * (30 / 100)"
  have "0 \<le> ?x" using assms by simp
  moreover have "?x \<le> 1"
  proof -
    have "rv_consistency ra * (35 / 100) \<le> 35 / 100" "ma_score ma * (35 / 100) \<le> 35 / 100"
      "(1 - da_score da) * (30 / 100) \<le> 30 / 100" using assms by simp_all
    then have "?x \<le> 35 / 100 + 35 / 100 + 30 / 100" by (intro add_mono)
    then show ?thesis by simp
  qed
  ultimately show "0 \<le> composite_score ra ma da" "composite_score ra ma da \<le> 1"
    unfolding composite_score_def by (rule round_to_unit_interval)+
qed

lemma load_baseline_settings:
  assumes "load_baseline be created agent role c h s = (r, c', h')"
  shows "c' = c\<lparr>cx_baseline := cx_baseline c'\<rparr> \<and> (\<forall>b. r = Inr b \<longrightarrow> cx_baseline c' = Some b)"
  using assms by (auto simp: load_baseline_def split: option.splits sum.splits prod.splits)

text \<open>
  An evaluation that returns has a score between 0 and 1 and takes its action from the three
  assessments alone: it passes exactly when no conflict was found, the drift is within tolerance and
  memory and reasoning reach their thresholds; it escalates exactly on a conflict; and it blocks only
  when the layer was built to block on drift and the drift is past twice the tolerance. It reports
  the same as \<open>passed\<close>.
\<close>
theorem cortical_action_exact:
  assumes "metric_ok (cx_metric c)"
    and "cortical_evaluate str parse now be created agent ctx c h s = (Inr res, c', h')"
  shows "\<exists>ra ma da. validate_reasoning str ctx = Inr ra \<and> check_memory ctx = Inr ma
    \<and> detect_drift parse now c' h' ctx = Inr da \<and> 0 \<le> lr_score res \<and> lr_score res \<le> 1
    \<and> (lr_passed res \<longleftrightarrow> lr_action res = ''pass'')
    \<and> (lr_passed res \<longleftrightarrow> \<not> rv_conflict ra \<and> da_score da \<le> cx_drift_tolerance c
         \<and> cx_memory_threshold c \<le> ma_score ma \<and> cx_reasoning_threshold c \<le> rv_consistency ra)
    \<and> (lr_action res = ''escalate'' \<longleftrightarrow> rv_conflict ra)
    \<and> (lr_action res = ''block'' \<longleftrightarrow> cx_block_on_drift c \<and> \<not> rv_conflict ra \<and> cx_drift_tolerance c * 2 < da_score da)"
proof -
  obtain role where role: "role_in ctx = Inr role"
    using assms(2) by (auto simp: cortical_evaluate_def split: sum.splits)
  define c0 where "c0 = c\<lparr>cx_last_role := role\<rparr>"
  obtain l c1 h1 where load: "load_baseline be created agent role c0 h s = (l, c1, h1)"
    by (cases "load_baseline be created agent role c0 h s") auto
  with assms(2) role obtain r where r: "l = Inr r"
    by (cases l) (auto simp: cortical_evaluate_def c0_def)
  have "cortical_evaluate str parse now be created agent ctx c h s =
     (bindS (liftE (validate_reasoning str ctx)) (\<lambda>ra. bindS (liftE (check_memory ctx)) (\<lambda>ma.
        bindS (detect_drift parse now c1 h1 ctx) (\<lambda>da. Inr (cortical_result c1 (h1 ! r) ra ma da)))), c1, h1)"
    by (simp add: cortical_evaluate_def role load r flip: c0_def)
  from assms(2) [unfolded this prod.inject]
  have same: "c1 = c'" "h1 = h'"
    and res: "bindS (liftE (validate_reasoning str ctx)) (\<lambda>ra. bindS (liftE (check_memory ctx)) (\<lambda>ma.
        bindS (detect_drift parse now c1 h1 ctx) (\<lambda>da. Inr (cortical_result c1 (h1 ! r) ra ma da)))) = Inr res"
    by blast+
  from res obtain ra ma da where a: "validate_reasoning str ctx = Inr ra" "check_memory ctx = Inr ma"
    "detect_drift parse now c1 h1 ctx = Inr da" "res = cortical_result c1 (h1 ! r) ra ma da"
    unfolding bindS_Inr liftE_def by (auto split: sum.splits)
  have set: "cx_metric c1 = cx_metric c" "cx_drift_tolerance c1 = cx_drift_tolerance c"
    "cx_memory_threshold c1 = cx_memory_threshold c" "cx_reasoning_threshold c1 = cx_reasoning_threshold c"
    "cx_block_on_drift c1 = cx_block_on_drift c"
    by (subst load_baseline_settings [OF load, THEN conjunct1], simp add: c0_def)+
  have d: "0 \<le> da_score da \<and> da_score da \<le> 1" using drift_unit [OF _ a(3)] assms(1) by (simp add: set)
  note unit = composite_unit [OF reasoning_unit [OF a(1)] memory_unit [OF a(2)] d]
  have pass: "cortical_action c1 ra ma da = ''pass'' \<longleftrightarrow> \<not> rv_conflict ra \<and> da_score da \<le> cx_drift_tolerance c
      \<and> cx_memory_threshold c \<le> ma_score ma \<and> cx_reasoning_threshold c \<le> rv_consistency ra"
    using d by (simp add: cortical_action_def set not_less)
  have esc: "cortical_action c1 ra ma da = ''escalate'' \<longleftrightarrow> rv_conflict ra" by (simp add: cortical_action_def)
  have blk: "cortical_action c1 ra ma da = ''block'' \<longleftrightarrow>
      cx_block_on_drift c \<and> \<not> rv_conflict ra \<and> cx_drift_tolerance c * 2 < da_score da"
    by (simp add: cortical_action_def set)
  show ?thesis
    by (intro exI [of _ ra] exI [of _ ma] exI [of _ da] conjI)
      (simp_all add: a(1-3) [unfolded same], simp_all add: a(4) same [symmetric] cortical_result_def Let_def unit pass esc blk)
qed

section \<open>Learning\<close>

lemma update_baseline_known:
  assumes "cx_baseline c = Some r"
  shows "update_baseline (Some B) created action tool obs c h s =
    (let h' = h[r := observe_baseline action tool (h ! r)]; w = bb_save B r (cx_last_role c) h' s
     in (fst w, c\<lparr>cx_observations := cx_observations c @ [obs], cx_baseline := Some r\<rparr>, h', snd w))"
  using assms by (simp add: update_baseline_def write_through_def Let_def case_prod_beta)

lemma observe_baseline_fields [simp]:
  "bl_agent (observe_baseline a t b) = bl_agent b" "bl_created_at (observe_baseline a t b) = bl_created_at b"
  by (simp_all add: observe_baseline_def)

text \<open>
  What the layer learns survives the process, on the file and on the SQLite store: after an
  \<open>update_baseline\<close> that returned, any later process, whatever objects it has, loads for this agent
  and role a baseline equal in value to the one the layer then held, the new observation counted.
\<close>
theorem learned_baseline_survives:
  assumes "cx_baseline c = Some r" and "r < length h" and "baseline_storable L (h ! r)"
    and "disk_valid L h d" and "update_baseline (Some \<lparr>bb_save = disk_save rt, bb_load = disk_load L now\<rparr>)
        created action tool obs c h d = (Inr (), c1, h1, d1)"
    and "tab_valid L h tab" and "update_baseline (Some \<lparr>bb_save = tab_save t, bb_load = tab_load L now\<rparr>)
        created action tool obs c h tab = (Inr (), c2, h2, tab1)"
  shows "loads (disk_load L later (bl_agent (h ! r)) (cx_last_role c) h' d1) (Inr (Some (observe_baseline action tool (h ! r))))
    \<and> loads (tab_load L later (bl_agent (h ! r)) (cx_last_role c) h' tab1) (Inr (Some (observe_baseline action tool (h ! r))))"
proof -
  let ?h = "h[r := observe_baseline action tool (h ! r)]"
  have obj: "?h ! r = observe_baseline action tool (h ! r)" and len: "r < length ?h" using assms(2) by simp_all
  have st: "baseline_storable L (?h ! r)" using assms(3) by (simp add: obj baseline_storable_def)
  have v: "disk_valid L ?h d" "tab_valid L ?h tab" using assms(4,6) by (simp_all add: disk_valid_def tab_valid_def)
  have "disk_save rt r (cx_last_role c) ?h d = (Inr (), d1)" "tab_save t r (cx_last_role c) ?h tab = (Inr (), tab1)"
    using assms(5,7) by (auto simp: update_baseline_known [OF assms(1)] Let_def prod_eq_iff)
  with disk.saved_is_kept [OF v(1) len st] tab.saved_is_kept [OF v(2) len st] show ?thesis
    by (simp add: obj)
qed

definition sample_cortical :: "nat option \<Rightarrow> cortical" where
  "sample_cortical base = make_cortical (15 / 100) (80 / 100) (75 / 100) base 20 Jensen_Shannon False"

lemma learned_baseline_survives_witness:
  "\<exists>d1. update_baseline (Some \<lparr>bb_save = disk_save (''r'', 0), bb_load = disk_load sample_lib ''t''\<rparr>) ''t''
        (Some ''tool_call'') None [] (sample_cortical (Some 0)) [sample_baseline ''a''] []
      = (Inr (), (sample_cortical (Some 0))\<lparr>cx_observations := [[]]\<rparr>,
         [observe_baseline (Some ''tool_call'') None (sample_baseline ''a'')], d1)
    \<and> loads (disk_load sample_lib ''t'' ''a'' None [] d1) (Inr (Some (observe_baseline (Some ''tool_call'') None (sample_baseline ''a''))))"
proof -
  let ?b = "observe_baseline (Some ''tool_call'') None (sample_baseline ''a'')"
  let ?c = "(sample_cortical (Some 0))\<lparr>cx_observations := [[]]\<rparr>"
  have c: "cx_baseline (sample_cortical (Some 0)) = Some 0" "cx_last_role (sample_cortical (Some 0)) = None"
    "cx_observations (sample_cortical (Some 0)) = []" by (simp_all add: sample_cortical_def make_cortical_def)
  have kept: "(sample_cortical (Some 0))\<lparr>cx_observations := [[]], cx_baseline := Some 0\<rparr> = ?c"
    by (simp add: sample_cortical_def make_cortical_def)
  obtain d1 where d1: "disk_save (''r'', 0) 0 None [?b] [] = (Inr (), d1)"
    by (simp add: disk_save_def sample_keys)
  obtain t1 where t1: "tab_save 0 0 None [?b] [] = (Inr (), t1)"
    by (simp add: tab_save_def encode_role_def)
  have u: "update_baseline (Some \<lparr>bb_save = disk_save (''r'', 0), bb_load = disk_load sample_lib ''t''\<rparr>) ''t''
        (Some ''tool_call'') None [] (sample_cortical (Some 0)) [sample_baseline ''a''] [] = (Inr (), ?c, [?b], d1)"
    "update_baseline (Some \<lparr>bb_save = tab_save 0, bb_load = tab_load sample_lib ''t''\<rparr>) ''t''
        (Some ''tool_call'') None [] (sample_cortical (Some 0)) [sample_baseline ''a''] [] = (Inr (), ?c, [?b], t1)"
    by (simp_all add: update_baseline_known [OF c(1)] c(2,3) kept d1 t1)
  have "loads (disk_load sample_lib ''t'' ''a'' None [] d1) (Inr (Some ?b))"
    using learned_baseline_survives [OF c(1) _ _ _ u(1) _ u(2), of "''t''" "[]"]
    by (simp add: c(2) disk_valid_def tab_valid_def)
  with u(1) show ?thesis by blast
qed

text \<open>
  A layer keeps the first baseline it loads: evaluated again under another role it neither loads that
  role's baseline nor, when it learns, leaves it alone; the baseline of the first role is written
  under the second.
\<close>

lemma second_role_gets_first_baseline:
  assumes "cx_baseline c = Some r" and "r < length h" and "role_in ctx = Inr (Some role)"
    and "cortical_evaluate str parse now (Some B) created agent ctx c h s = (res, c', h')"
  shows "h' = h \<and> cx_baseline c' = Some r
    \<and> snd (snd (snd (update_baseline (Some B) created2 action tool obs c' h' s)))
        = snd (bb_save B r (Some role) (h[r := observe_baseline action tool (h ! r)]) s)"
proof -
  have c': "c' = c\<lparr>cx_last_role := Some role\<rparr>" "h' = h"
    using assms by (simp_all add: cortical_evaluate_def load_baseline_def)
  have "cx_baseline c' = Some r" using assms(1) by (simp add: c')
  then have known: "update_baseline (Some B) created2 action tool obs c' h' s =
    (let h2 = h'[r := observe_baseline action tool (h' ! r)]; w = bb_save B r (cx_last_role c') h2 s
     in (fst w, c'\<lparr>cx_observations := cx_observations c' @ [obs], cx_baseline := Some r\<rparr>, h2, snd w))"
    by (rule update_baseline_known)
  show ?thesis unfolding known using assms(1) by (simp add: c' Let_def)
qed

text \<open>An evaluation without a baseline and without a context passes.\<close>

lemma cortical_action_exact_witness:
  "\<exists>res. cortical_evaluate (\<lambda>j. []) (\<lambda>t. None) 0 None ''t'' ''a'' [] (sample_cortical None) [] ()
      = (Inr res, sample_cortical (Some 0), [fresh_baseline ''a'' ''t'']) \<and> lr_action res = ''pass'' \<and> lr_score res \<le> 1"
proof -
  let ?c = "sample_cortical None"
  have r: "role_in [] = Inr None" by (simp add: role_in_def field_or_def or_json_def liftE_def)
  have l: "load_baseline None ''t'' ''a'' None (?c\<lparr>cx_last_role := None\<rparr>) [] () =
      (Inr 0, sample_cortical (Some 0), [fresh_baseline ''a'' ''t''])"
    by (simp add: load_baseline_def sample_cortical_def make_cortical_def)
  have ra: "validate_reasoning (\<lambda>j. []) [] = Inr \<lparr>rv_consistency = round_to 4 (85 / 100), rv_chain_length = 0,
      rv_contradictions = 0, rv_alignment = round_to 4 1, rv_conflict = False, rv_description = None\<rparr>"
    by (simp add: validate_reasoning_def field_or_def)
  have ma: "check_memory [] = Inr \<lparr>ma_score = 1, ma_total = 0, ma_suspicious = 0, ma_verified = 0, ma_unknown = 0, ma_conflicts = 0\<rparr>"
    by (simp add: check_memory_def field_or_def)
  have da: "detect_drift (\<lambda>t. None) 0 (sample_cortical (Some 0)) [fresh_baseline ''a'' ''t''] [] = Inr no_drift"
    by (simp add: detect_drift_def sample_cortical_def make_cortical_def fresh_baseline_def)
  obtain res where ev: "cortical_evaluate (\<lambda>j. []) (\<lambda>t. None) 0 None ''t'' ''a'' [] ?c [] ()
      = (Inr res, sample_cortical (Some 0), [fresh_baseline ''a'' ''t''])"
    by (simp add: cortical_evaluate_def r l ra ma da liftE_def)
  have "metric_ok (cx_metric ?c)" by (simp add: metric_ok_def sample_cortical_def make_cortical_def)
  from cortical_action_exact [OF this ev] obtain x y z where
    "validate_reasoning (\<lambda>j. []) [] = Inr x" "check_memory [] = Inr y"
    "detect_drift (\<lambda>t. None) 0 (sample_cortical (Some 0)) [fresh_baseline ''a'' ''t''] [] = Inr z"
    "lr_score res \<le> 1" "lr_passed res \<longleftrightarrow> lr_action res = ''pass''"
    "lr_passed res \<longleftrightarrow> \<not> rv_conflict x \<and> da_score z \<le> cx_drift_tolerance ?c
         \<and> cx_memory_threshold ?c \<le> ma_score y \<and> cx_reasoning_threshold ?c \<le> rv_consistency x" by blast
  moreover from this ra ma da have "x = \<lparr>rv_consistency = round_to 4 (85 / 100), rv_chain_length = 0,
      rv_contradictions = 0, rv_alignment = round_to 4 1, rv_conflict = False, rv_description = None\<rparr>"
    "ma_score y = 1" "z = no_drift" by auto
  moreover have "round_to 4 (85 / 100) = (85 / 100 :: rat)"
  proof -
    have "(85 / 100 :: rat) * 10 ^ 4 = of_int 8500" by simp
    then show ?thesis unfolding round_to_def by (simp only: round_half_even_of_int) simp
  qed
  ultimately show ?thesis using ev by (simp add: no_drift_def sample_cortical_def make_cortical_def)
qed

end
