(* ===== verification/Model_Cortical.thy ===== *)
theory Model_Cortical
  imports Model_Scan Cortical_Properties
begin

text \<open>
  The cortical layer with a second opinion (\<open>layers/cortical_llm.py\<close>): three checkers that ask a model
  about the reasoning, the memory reads and the drift of an agent, and the evaluation that takes the
  stricter of two scores in each dimension. A checker's model is an argument: what
  \<open>_call_claude_json\<close> makes of its reply to a message.
\<close>

section \<open>Asking\<close>

text \<open>\<open>_call_claude_json\<close>: everything that can fail gives \<open>None\<close>, as a JSON \<open>null\<close> does.\<close>

definition call_claude_json :: "(string \<Rightarrow> exn + json) \<Rightarrow> string option \<Rightarrow> (string, string) dict \<Rightarrow> bool
    \<Rightarrow> exn + (string \<times> string) list \<Rightarrow> json option" where
  "call_claude_json to_json api_key environ installed reply =
     (if \<not> str_truthy (or_environment api_key environ ''ANTHROPIC_API_KEY'') \<or> \<not> installed then None
      else case bindS reply (\<lambda>parts. to_json (unfenced (concat (map snd (filter (\<lambda>b. fst b = ''text'') parts))))) of
        Inl e \<Rightarrow> None | Inr JNull \<Rightarrow> None | Inr j \<Rightarrow> Some j)"

text \<open>\<open>int(x)\<close>; \<open>pn\<close> reads a text.\<close>

fun whole_number :: "(string \<Rightarrow> int option) \<Rightarrow> json \<Rightarrow> exn + int" where
  "whole_number pn (JBool b) = Inr (if b then 1 else 0)"
| "whole_number pn (JInt i) = Inr i"
| "whole_number pn (JFloat r) = Inr (if 0 \<le> r then \<lfloor>r\<rfloor> else \<lceil>r\<rceil>)"
| "whole_number pn (JStr s) = (case pn s of None \<Rightarrow> Inl (ValueError ''invalid literal for int()'') | Some i \<Rightarrow> Inr i)"
| "whole_number pn _ = Inl (TypeError ''int() argument must be a string or a real number'')"

text \<open>\<open>except (ValueError, TypeError)\<close>.\<close>

definition neutral_on_error :: "'a \<Rightarrow> exn + 'a \<Rightarrow> exn + 'a" where
  "neutral_on_error neutral r = (case r of Inl (ValueError m) \<Rightarrow> Inr neutral | Inl (TypeError m) \<Rightarrow> Inr neutral | _ \<Rightarrow> r)"

section \<open>The checkers\<close>

record reasoning_opinion =
  ro_consistency :: rat
  ro_chain_length :: nat
  ro_contradictions :: int
  ro_alignment :: rat
  ro_conflict :: bool
  ro_description :: json

definition neutral_reasoning :: reasoning_opinion where
  "neutral_reasoning = \<lparr>ro_consistency = 85 / 100, ro_chain_length = 0, ro_contradictions = 0, ro_alignment = 1,
     ro_conflict = False, ro_description = JNull\<rparr>"

definition analyze_reasoning :: "(string \<Rightarrow> rat option) \<Rightarrow> (string \<Rightarrow> int option) \<Rightarrow> (json \<Rightarrow> json option) \<Rightarrow> json \<Rightarrow> json
    \<Rightarrow> json \<Rightarrow> exn + reasoning_opinion" where
  "analyze_reasoning pf pn ask chain goals instructions = bindS (sized_json chain) (\<lambda>n.
     if n = 0 then Inr neutral_reasoning
     else case ask (JObj [(''reasoning_chain'', chain), (''goals'', or_json goals (JArr [])),
                          (''instructions'', or_json instructions (JArr []))]) of
       None \<Rightarrow> Inr neutral_reasoning
     | Some data \<Rightarrow> neutral_on_error neutral_reasoning
         (bindS (bindS (get_or data ''consistency_score'' (JFloat (85 / 100))) (unit_float pf)) (\<lambda>consistency.
          bindS (bindS (get_or data ''contradictions'' (JInt 0)) (whole_number pn)) (\<lambda>contradictions.
          bindS (bindS (get_or data ''goal_alignment'' (JFloat 1)) (unit_float pf)) (\<lambda>alignment.
          bindS (get_or data ''conflict_detected'' (JBool False)) (\<lambda>conflict.
          bindS (get_or data ''conflict_description'' JNull) (\<lambda>description.
            Inr \<lparr>ro_consistency = consistency, ro_chain_length = n, ro_contradictions = contradictions,
              ro_alignment = alignment, ro_conflict = truthy conflict, ro_description = description\<rparr>)))))))"

record memory_opinion =
  mp_score :: rat
  mp_total :: nat
  mp_suspicious :: int
  mp_conflicts :: int

definition neutral_memory :: memory_opinion where
  "neutral_memory = \<lparr>mp_score = 1, mp_total = 0, mp_suspicious = 0, mp_conflicts = 0\<rparr>"

definition analyze_memory :: "(string \<Rightarrow> rat option) \<Rightarrow> (string \<Rightarrow> int option) \<Rightarrow> (json \<Rightarrow> json option) \<Rightarrow> json
    \<Rightarrow> exn + memory_opinion" where
  "analyze_memory pf pn ask memory_reads = bindS (sized_json memory_reads) (\<lambda>n.
     if n = 0 then Inr neutral_memory
     else case ask (JObj [(''memory_reads'', memory_reads)]) of
       None \<Rightarrow> Inr neutral_memory
     | Some data \<Rightarrow> neutral_on_error neutral_memory
         (bindS (bindS (get_or data ''integrity_score'' (JFloat 1)) (unit_float pf)) (\<lambda>score.
          bindS (bindS (get_or data ''suspicious_reads'' (JInt 0)) (whole_number pn)) (\<lambda>suspicious.
          bindS (bindS (get_or data ''conflicts_detected'' (JInt 0)) (whole_number pn)) (\<lambda>conflicts.
            Inr \<lparr>mp_score = score, mp_total = n, mp_suspicious = suspicious, mp_conflicts = conflicts\<rparr>)))))"

record drift_opinion =
  dp_score :: rat
  dp_semantic :: "rat option"
  dp_drifted :: "string list"

definition neutral_drift :: drift_opinion where
  "neutral_drift = \<lparr>dp_score = 0, dp_semantic = None, dp_drifted = []\<rparr>"

definition analyze_drift :: "(json \<Rightarrow> string) \<Rightarrow> (string \<Rightarrow> rat option) \<Rightarrow> (json \<Rightarrow> json option) \<Rightarrow> string \<Rightarrow> string
    \<Rightarrow> exn + drift_opinion" where
  "analyze_drift str pf ask base_text current =
     (if base_text = [] \<or> current = [] then Inr neutral_drift
      else case ask (JObj [(''baseline'', JStr base_text), (''current'', JStr current)]) of
        None \<Rightarrow> Inr neutral_drift
      | Some data \<Rightarrow> neutral_on_error neutral_drift
          (bindS (get_or data ''drifted_dimensions'' (JArr [])) (\<lambda>raw.
           bindS (get_or data ''drift_score'' (JFloat 0)) (\<lambda>score.
           bindS (unit_float pf score) (\<lambda>clamped.
           bindS (float_of_json pf score) (\<lambda>semantic.
             Inr \<lparr>dp_score = clamped, dp_semantic = Some semantic,
               dp_drifted = (case raw of JArr xs \<Rightarrow> map (plain_text str) xs | _ \<Rightarrow> [])\<rparr>))))))"

definition opinion_details :: "reasoning_opinion \<Rightarrow> memory_opinion \<Rightarrow> drift_opinion \<Rightarrow> json" where
  "opinion_details ro mp dp = JObj
     [(''reasoning'', JObj [(''consistency_score'', JFloat (ro_consistency ro)), (''chain_length'', JInt (int (ro_chain_length ro))),
        (''contradictions'', JInt (ro_contradictions ro)), (''goal_alignment'', JFloat (ro_alignment ro)),
        (''conflict_detected'', JBool (ro_conflict ro)), (''conflict_description'', ro_description ro)]),
      (''memory'', JObj [(''integrity_score'', JFloat (mp_score mp)), (''total_reads'', JInt (int (mp_total mp))),
        (''suspicious_reads'', JInt (mp_suspicious mp)), (''provenance_verified'', JInt 0), (''provenance_unknown'', JInt 0),
        (''conflicts_detected'', JInt (mp_conflicts mp))]),
      (''drift'', JObj [(''drift_score'', JFloat (dp_score dp)),
        (''dimensions'', JObj (case dp_semantic dp of None \<Rightarrow> [] | Some x \<Rightarrow> [(''semantic'', JFloat x)])),
        (''drifted_dimensions'', JArr (map JStr (dp_drifted dp))), (''baseline_age_hours'', JFloat 0)])]"

section \<open>The stricter of two scores\<close>

definition detail_score :: "string \<Rightarrow> string \<Rightarrow> layer_result \<Rightarrow> rat" where
  "detail_score part k r = rat_of_json (field_or k (JFloat 0) (as_dict (field_or part (JObj []) (lr_details r))))"

definition merged_score :: "layer_result \<Rightarrow> reasoning_opinion \<Rightarrow> memory_opinion \<Rightarrow> drift_opinion \<Rightarrow> rat" where
  "merged_score base ro mp dp = round_to 4
     (min (detail_score ''reasoning'' ''consistency_score'' base) (ro_consistency ro) * (35 / 100)
      + min (detail_score ''memory'' ''integrity_score'' base) (mp_score mp) * (35 / 100)
      + (1 - max (detail_score ''drift'' ''drift_score'' base) (dp_score dp)) * (30 / 100))"

definition merged_result :: "layer_result \<Rightarrow> reasoning_opinion \<Rightarrow> memory_opinion \<Rightarrow> drift_opinion \<Rightarrow> layer_result" where
  "merged_result base ro mp dp =
     (let score = merged_score base ro mp dp; r = set_detail ''llm'' (opinion_details ro mp dp) (base\<lparr>lr_score := score\<rparr>)
      in if lr_action base = ''pass'' \<and> score < rat_of_json (field_or ''portability_score'' (JFloat score) (lr_details base))
         then r\<lparr>lr_action := ''alert'', lr_passed := False\<rparr> else r)"

text \<open>The models behind the three checkers.\<close>

record semantic_models =
  se_reasoning :: "json \<Rightarrow> json option"
  se_memory :: "json \<Rightarrow> json option"
  se_drift :: "json \<Rightarrow> json option"

definition second_opinions :: "(json \<Rightarrow> string) \<Rightarrow> (string \<Rightarrow> rat option) \<Rightarrow> (string \<Rightarrow> int option) \<Rightarrow> semantic_models \<Rightarrow> args
    \<Rightarrow> exn + reasoning_opinion \<times> memory_opinion \<times> drift_opinion" where
  "second_opinions str pf pn M ctx =
     bindS (analyze_reasoning pf pn (se_reasoning M) (field_or ''reasoning_chain'' (JArr []) ctx)
       (field_or ''goals'' JNull ctx) (field_or ''instructions'' JNull ctx)) (\<lambda>ro.
     bindS (analyze_memory pf pn (se_memory M) (field_or ''memory_reads'' (JArr []) ctx)) (\<lambda>mp.
     bindS (analyze_drift str pf (se_drift M) (plain_text str (or_json (field_or ''baseline_description'' JNull ctx) (JStr [])))
       (plain_text str (or_json (field_or ''current_description'' JNull ctx) (JStr [])))) (\<lambda>dp.
       Inr (ro, mp, dp))))"

definition cortical_aevaluate :: "(json \<Rightarrow> string) \<Rightarrow> (string \<Rightarrow> rat option) \<Rightarrow> (string \<Rightarrow> int option) \<Rightarrow> semantic_models
    \<Rightarrow> (string \<Rightarrow> datetime option) \<Rightarrow> int \<Rightarrow> 's baseline_backend option \<Rightarrow> string \<Rightarrow> string \<Rightarrow> args \<Rightarrow> cortical \<Rightarrow> baseline_heap
    \<Rightarrow> 's \<Rightarrow> (decode_error + layer_result) \<times> cortical \<times> baseline_heap" where
  "cortical_aevaluate str pf pn M parse now be created agent ctx c h s =
     (case cortical_evaluate str parse now be created agent ctx c h s of
        (Inl e, c', h') \<Rightarrow> (Inl e, c', h')
      | (Inr base, c', h') \<Rightarrow>
          (bindS (liftE (second_opinions str pf pn M ctx)) (\<lambda>(ro, mp, dp). Inr (merged_result base ro mp dp)), c', h'))"

section \<open>Never less strict\<close>

lemma cortical_evaluate_result:
  assumes "cortical_evaluate str parse now be created agent ctx c h s = (Inr base, c', h')"
  shows "\<exists>b ra ma da. base = cortical_result c' b ra ma da \<and> validate_reasoning str ctx = Inr ra"
  using assms by (auto simp: cortical_evaluate_def liftE_def bindS_Inr split: sum.splits prod.splits)

lemma cortical_details:
  "detail_score ''reasoning'' ''consistency_score'' (cortical_result c b ra ma da) = rv_consistency ra"
  "detail_score ''memory'' ''integrity_score'' (cortical_result c b ra ma da) = ma_score ma"
  "detail_score ''drift'' ''drift_score'' (cortical_result c b ra ma da) = da_score da"
  "field_or ''portability_score'' v (lr_details (cortical_result c b ra ma da)) = JFloat (lr_score (cortical_result c b ra ma da))"
  by (simp_all add: detail_score_def cortical_result_def Let_def field_or_def reasoning_to_dict_def memory_to_dict_def drift_to_dict_def)

lemma round_to_mono: "x \<le> y \<Longrightarrow> round_to n x \<le> round_to n y"
proof -
  assume "x \<le> y"
  then have "x * 10 ^ n \<le> y * 10 ^ n" by (rule mult_right_mono) simp
  from round_half_even_mono [OF this] show ?thesis
    unfolding round_to_def by (intro divide_right_mono) simp_all
qed

lemma merged_score_le:
  "merged_score (cortical_result c b ra ma da) ro mp dp \<le> lr_score (cortical_result c b ra ma da)"
proof -
  have "merged_score (cortical_result c b ra ma da) ro mp dp \<le> composite_score ra ma da"
    unfolding merged_score_def cortical_details composite_score_def
    by (rule round_to_mono) (intro add_mono mult_right_mono diff_left_mono; simp)
  then show ?thesis by (simp add: cortical_result_def Let_def)
qed

lemma merged_result_simps:
  "lr_score (merged_result base ro mp dp) = merged_score base ro mp dp"
  by (simp add: merged_result_def Let_def set_detail_def)

text \<open>
  C34: the second opinion can only make the cortical layer stricter. An evaluation that returns leaves
  the layer and the baselines as the patterns alone leave them, its score is at most theirs, and its
  action is theirs unless they pass and the score has fallen, when it is an alert; it passes exactly
  when they pass with the same score.
\<close>

theorem semantic_opinion_only_tightens:
  assumes "cortical_aevaluate str pf pn M parse now be created agent ctx c h s = (Inr res, c', h')"
  shows "\<exists>base. cortical_evaluate str parse now be created agent ctx c h s = (Inr base, c', h')
     \<and> lr_score res \<le> lr_score base
     \<and> lr_action res = (if lr_action base = ''pass'' \<and> lr_score res < lr_score base then ''alert'' else lr_action base)
     \<and> (lr_passed res \<longleftrightarrow> lr_passed base \<and> lr_score res = lr_score base)"
proof -
  from assms obtain base ro mp dp where e: "cortical_evaluate str parse now be created agent ctx c h s = (Inr base, c', h')"
    and res: "res = merged_result base ro mp dp"
    by (auto simp: cortical_aevaluate_def bindS_Inr split: sum.splits prod.splits)
  from cortical_evaluate_result [OF e] obtain b ra ma da where base: "base = cortical_result c' b ra ma da" by blast
  have le: "lr_score res \<le> lr_score base" unfolding res base merged_result_simps by (rule merged_score_le)
  have p: "lr_passed base = (lr_action base = ''pass'')" by (simp add: base cortical_result_def Let_def)
  have r: "res = (let r = set_detail ''llm'' (opinion_details ro mp dp) (base\<lparr>lr_score := lr_score res\<rparr>)
      in if lr_action base = ''pass'' \<and> lr_score res < lr_score base then r\<lparr>lr_action := ''alert'', lr_passed := False\<rparr> else r)"
    unfolding res merged_result_simps unfolding merged_result_def Let_def base cortical_details rat_of_json.simps ..
  have a: "lr_action res = (if lr_action base = ''pass'' \<and> lr_score res < lr_score base then ''alert'' else lr_action base)"
    by (subst r) (simp add: Let_def set_detail_def)
  have q: "lr_passed res = (lr_passed base \<and> \<not> (lr_action base = ''pass'' \<and> lr_score res < lr_score base))"
    by (subst r) (simp add: Let_def set_detail_def)
  have "lr_passed res \<longleftrightarrow> lr_passed base \<and> lr_score res = lr_score base" unfolding q p using le by auto
  with e le a show ?thesis by blast
qed


lemma aevaluate_result:
  assumes "cortical_aevaluate str pf pn M parse now be created agent ctx c h s = (Inr res, c', h')"
  shows "\<exists>b ra ma da ro mp dp. cortical_evaluate str parse now be created agent ctx c h s = (Inr (cortical_result c' b ra ma da), c', h')
     \<and> validate_reasoning str ctx = Inr ra \<and> second_opinions str pf pn M ctx = Inr (ro, mp, dp)
     \<and> res = merged_result (cortical_result c' b ra ma da) ro mp dp"
proof -
  from assms obtain base ro mp dp where e: "cortical_evaluate str parse now be created agent ctx c h s = (Inr base, c', h')"
    and o: "second_opinions str pf pn M ctx = Inr (ro, mp, dp)" and res: "res = merged_result base ro mp dp"
    by (auto simp: cortical_aevaluate_def bindS_Inr liftE_def split: sum.splits prod.splits)
  from cortical_evaluate_result [OF e] e o res show ?thesis by blast
qed

section \<open>An outage\<close>

lemma round_to_strict:
  assumes "x + 525 / 10000 \<le> y"
  shows "round_to 4 x < round_to 4 y"
proof -
  have "x * 10 ^ 4 + 525 \<le> y * 10 ^ 4" using assms by simp
  moreover have "of_int (round_half_even (x * 10 ^ 4)) - 1 / 2 \<le> x * 10 ^ 4" "y * 10 ^ 4 \<le> of_int (round_half_even (y * 10 ^ 4)) + 1 / 2"
    by (rule round_half_even_bounds)+
  moreover have "a < b" if "X + 525 \<le> Y" "a - 1 / 2 \<le> X" "Y \<le> b + 1 / 2" for X Y a b :: rat using that by linarith
  ultimately have "of_int (round_half_even (x * 10 ^ 4)) < (of_int (round_half_even (y * 10 ^ 4)) :: rat)" by blast
  then show ?thesis unfolding round_to_def by (intro divide_strict_right_mono) simp_all
qed

text \<open>
  C35: an outage of the model is not neutral. If no question about the reasoning is answered, an
  evaluation that returns never passes when the patterns found the reasoning chain fully consistent:
  the assessment that stands for no answer is 0.85, below the score of a chain without contradictions,
  and the loss alone turns the pass of the patterns into an alert.
\<close>

theorem outage_never_passes:
  assumes "cortical_aevaluate str pf pn M parse now be created agent ctx c h s = (Inr res, c', h')"
    and "\<forall>j. se_reasoning M j = None" and "validate_reasoning str ctx = Inr ra" and "rv_consistency ra = 1"
  shows "lr_action res \<noteq> ''pass'' \<and> \<not> lr_passed res"
proof -
  from aevaluate_result [OF assms(1)] assms(3) obtain b ma da ro mp dp
    where o: "second_opinions str pf pn M ctx = Inr (ro, mp, dp)" and res: "res = merged_result (cortical_result c' b ra ma da) ro mp dp"
    by auto
  let ?b = "cortical_result c' b ra ma da"
  have ro: "ro_consistency ro = 85 / 100"
    using o assms(2) by (auto simp: second_opinions_def bindS_Inr analyze_reasoning_def neutral_reasoning_def split: if_splits)
  let ?x = "85 / 100 * (35 / 100) + min (ma_score ma) (mp_score mp) * (35 / 100) + (1 - max (da_score da) (dp_score dp)) * (30 / 100)"
  let ?y = "1 * (35 / 100) + ma_score ma * (35 / 100) + (1 - da_score da) * (30 / 100)"
  have "85 / 100 * (35 / 100) + u * (35 / 100) + (1 - m) * (30 / 100) + 525 / 10000 \<le> 1 * (35 / 100) + v * (35 / 100) + (1 - d) * (30 / 100)"
    if "u \<le> v" "d \<le> m" for u v m d :: rat using that by (simp add: field_simps)
  then have less: "?x + 525 / 10000 \<le> ?y" by simp
  then have "round_to 4 ?x < round_to 4 ?y" by (rule round_to_strict)
  moreover have "lr_score res = round_to 4 ?x"
    unfolding res merged_result_simps merged_score_def cortical_details assms(4) ro by simp
  moreover have y: "lr_score ?b = round_to 4 ?y" by (simp add: cortical_result_def Let_def composite_score_def assms(4))
  ultimately have lt: "merged_score ?b ro mp dp < lr_score ?b" unfolding res merged_result_simps by simp
  have p: "lr_passed ?b = (lr_action ?b = ''pass'')" by (simp add: cortical_result_def Let_def)
  show ?thesis unfolding res merged_result_def Let_def cortical_details rat_of_json.simps
    using lt p by (simp add: set_detail_def)
qed

text \<open>A reply that is JSON but no object raises: \<open>AttributeError\<close> is not caught.\<close>

lemma list_reply_raises:
  assumes "ask = (\<lambda>j. Some (JArr xs))"
  shows "analyze_reasoning pf pn ask (JArr [JStr step]) goals instructions = Inl (AttributeError ''object has no attribute get'')"
  by (simp add: analyze_reasoning_def assms neutral_on_error_def)

definition spoken_chain :: args where
  "spoken_chain = [(''reasoning_chain'', JArr [JStr ''read'', JStr ''answer''])]"

definition silent :: semantic_models where
  "silent = \<lparr>se_reasoning = \<lambda>j. None, se_memory = \<lambda>j. None, se_drift = \<lambda>j. None\<rparr>"

lemma sample_consistent: "\<exists>ra. validate_reasoning (\<lambda>j. []) spoken_chain = Inr ra \<and> rv_consistency ra = 1"
proof -
  have "count_contradictions [lower ''read'', lower ''answer''] = 0"
  proof -
    have "\<not> contradicts (lower ''read'') (lower ''answer'')" by code_simp
    then show ?thesis by simp
  qed
  moreover have "round_to 4 1 = (1 :: rat)" using round_half_even_of_int [of 10000] by (simp add: round_to_def)
  ultimately show ?thesis by (simp add: validate_reasoning_def spoken_chain_def field_or_def shown_def)
qed

lemma sample_aevaluation:
  "\<exists>res c h. cortical_aevaluate (\<lambda>j. []) (\<lambda>s. None) (\<lambda>s. None) silent (\<lambda>t. None) 0 None ''t'' ''a'' spoken_chain (sample_cortical None) [] ()
     = (Inr res, c, h)"
proof -
  let ?c = "sample_cortical None"
  have r: "role_in spoken_chain = Inr None" by (simp add: role_in_def field_or_def or_json_def liftE_def spoken_chain_def)
  have l: "load_baseline None ''t'' ''a'' None (?c\<lparr>cx_last_role := None\<rparr>) [] () =
      (Inr 0, sample_cortical (Some 0), [fresh_baseline ''a'' ''t''])"
    by (simp add: load_baseline_def sample_cortical_def make_cortical_def)
  obtain ra where ra: "validate_reasoning (\<lambda>j. []) spoken_chain = Inr ra" using sample_consistent by blast
  have ma: "check_memory spoken_chain = Inr \<lparr>ma_score = 1, ma_total = 0, ma_suspicious = 0, ma_verified = 0, ma_unknown = 0, ma_conflicts = 0\<rparr>"
    by (simp add: check_memory_def field_or_def spoken_chain_def)
  have da: "detect_drift (\<lambda>t. None) 0 (sample_cortical (Some 0)) [fresh_baseline ''a'' ''t''] spoken_chain = Inr no_drift"
    by (simp add: detect_drift_def sample_cortical_def make_cortical_def fresh_baseline_def)
  obtain base where ev: "cortical_evaluate (\<lambda>j. []) (\<lambda>t. None) 0 None ''t'' ''a'' spoken_chain ?c [] ()
      = (Inr base, sample_cortical (Some 0), [fresh_baseline ''a'' ''t''])"
    by (simp add: cortical_evaluate_def r l ra ma da liftE_def)
  have "second_opinions (\<lambda>j. []) (\<lambda>s. None) (\<lambda>s. None) silent spoken_chain = Inr (neutral_reasoning, neutral_memory, neutral_drift)"
    by (simp add: second_opinions_def analyze_reasoning_def analyze_memory_def analyze_drift_def silent_def spoken_chain_def
        field_or_def or_json_def plain_text_def)
  then show ?thesis by (simp add: cortical_aevaluate_def ev liftE_def)
qed

lemma semantic_opinion_only_tightens_witness:
  "\<exists>res base c h. cortical_aevaluate (\<lambda>j. []) (\<lambda>s. None) (\<lambda>s. None) silent (\<lambda>t. None) 0 None ''t'' ''a'' spoken_chain (sample_cortical None) [] ()
     = (Inr res, c, h) \<and> cortical_evaluate (\<lambda>j. []) (\<lambda>t. None) 0 None ''t'' ''a'' spoken_chain (sample_cortical None) [] () = (Inr base, c, h)
     \<and> lr_score res \<le> lr_score base"
proof -
  obtain res c h where "cortical_aevaluate (\<lambda>j. []) (\<lambda>s. None) (\<lambda>s. None) silent (\<lambda>t. None) 0 None ''t'' ''a'' spoken_chain (sample_cortical None) [] ()
     = (Inr res, c, h)" using sample_aevaluation by blast
  from semantic_opinion_only_tightens [OF this] this show ?thesis by blast
qed

lemma outage_never_passes_witness:
  "\<exists>res c h. cortical_aevaluate (\<lambda>j. []) (\<lambda>s. None) (\<lambda>s. None) silent (\<lambda>t. None) 0 None ''t'' ''a'' spoken_chain (sample_cortical None) [] ()
     = (Inr res, c, h) \<and> \<not> lr_passed res"
proof -
  obtain res c h where e: "cortical_aevaluate (\<lambda>j. []) (\<lambda>s. None) (\<lambda>s. None) silent (\<lambda>t. None) 0 None ''t'' ''a'' spoken_chain (sample_cortical None) [] ()
     = (Inr res, c, h)" using sample_aevaluation by blast
  obtain ra where "validate_reasoning (\<lambda>j. []) spoken_chain = Inr ra" "rv_consistency ra = 1" using sample_consistent by blast
  with outage_never_passes [OF e] e show ?thesis by (auto simp: silent_def)
qed

end
