(* ===== verification/Chain_Properties.thy ===== *)
theory Chain_Properties
  imports Attestation_Chain
begin

text \<open>
  What an attestation chain guarantees: appending keeps it verified, the detailed verification
  finds the first broken link, a verified chain is determined by its last hash, decision links
  and cross-agent links against their specifications, signatures, and serialisation.
\<close>

section \<open>Hash links\<close>

text \<open>The specification of a chain: every record names the hash of the one before.\<close>

definition link_ok :: "'k lib \<Rightarrow> chain \<Rightarrow> nat \<Rightarrow> bool" where
  "link_ok L c i \<longleftrightarrow>
     chain_previous (c ! i) = (if i = 0 then None else Some (content_hash L (c ! (i - 1))))"

definition linked :: "'k lib \<Rightarrow> chain \<Rightarrow> bool" where
  "linked L c \<longleftrightarrow> (\<forall>i < length c. link_ok L c i)"

definition first_broken :: "'k lib \<Rightarrow> chain \<Rightarrow> nat \<Rightarrow> bool" where
  "first_broken L c i \<longleftrightarrow> i < length c \<and> \<not> link_ok L c i \<and> (\<forall>j < i. link_ok L c j)"

lemma link_loop_cases:
  "(link_loop L i p rs = (True, None, None) \<and>
      (\<forall>k < length rs. chain_previous (rs ! k) = Some (content_hash L ((p # rs) ! k)))) \<or>
   (\<exists>k < length rs. link_loop L i p rs = (False, Some (i + k), Some (record_kind (rs ! k))) \<and>
      chain_previous (rs ! k) \<noteq> Some (content_hash L ((p # rs) ! k)) \<and>
      (\<forall>m < k. chain_previous (rs ! m) = Some (content_hash L ((p # rs) ! m))))"
proof (induction rs arbitrary: i p)
  case (Cons r rs)
  show ?case
  proof (cases "chain_previous r = Some (content_hash L p)")
    case True
    from Cons.IH [of "Suc i" r] show ?thesis
    proof
      assume "link_loop L (Suc i) r rs = (True, None, None) \<and>
        (\<forall>k < length rs. chain_previous (rs ! k) = Some (content_hash L ((r # rs) ! k)))"
      with True show ?thesis by (auto simp: nth_Cons split: nat.splits)
    next
      assume "\<exists>k < length rs. link_loop L (Suc i) r rs =
          (False, Some (Suc i + k), Some (record_kind (rs ! k))) \<and>
        chain_previous (rs ! k) \<noteq> Some (content_hash L ((r # rs) ! k)) \<and>
        (\<forall>m < k. chain_previous (rs ! m) = Some (content_hash L ((r # rs) ! m)))"
      then obtain k where k: "k < length rs"
        "link_loop L (Suc i) r rs = (False, Some (Suc i + k), Some (record_kind (rs ! k)))"
        "chain_previous (rs ! k) \<noteq> Some (content_hash L ((r # rs) ! k))"
        "\<forall>m < k. chain_previous (rs ! m) = Some (content_hash L ((r # rs) ! m))" by blast
      with True show ?thesis
        by (intro disjI2 exI [of _ "Suc k"]) (auto simp: nth_Cons split: nat.splits)
    qed
  next
    case False
    then show ?thesis by (intro disjI2 exI [of _ 0]) simp
  qed
qed simp

lemma detailed_exact:
  "(if linked L c then verify_chain_detailed L c = (True, None, None)
    else \<exists>i. first_broken L c i \<and>
      verify_chain_detailed L c = (False, Some i, Some (record_kind (c ! i))))"
proof (cases c)
  case (Cons r rs)
  show ?thesis
  proof (cases "chain_previous r = None")
    case False
    then have "first_broken L c 0" using Cons by (simp add: first_broken_def link_ok_def)
    moreover from this have "\<not> linked L c" by (auto simp: first_broken_def linked_def)
    ultimately show ?thesis using False Cons by (auto simp: verify_chain_detailed_def)
  next
    case True
    have suc: "link_ok L c (Suc k) \<longleftrightarrow>
        chain_previous (rs ! k) = Some (content_hash L ((r # rs) ! k))" for k
      using Cons by (simp add: link_ok_def)
    have zero: "link_ok L c 0" using True Cons by (simp add: link_ok_def)
    from link_loop_cases [of L 1 r rs] show ?thesis
    proof
      assume a: "link_loop L 1 r rs = (True, None, None) \<and>
        (\<forall>k < length rs. chain_previous (rs ! k) = Some (content_hash L ((r # rs) ! k)))"
      have "link_ok L c i" if "i < length c" for i
        using that zero suc a Cons by (cases i) auto
      with a True Cons show ?thesis by (simp add: linked_def verify_chain_detailed_def)
    next
      assume "\<exists>k < length rs. link_loop L 1 r rs =
          (False, Some (1 + k), Some (record_kind (rs ! k))) \<and>
        chain_previous (rs ! k) \<noteq> Some (content_hash L ((r # rs) ! k)) \<and>
        (\<forall>m < k. chain_previous (rs ! m) = Some (content_hash L ((r # rs) ! m)))"
      then obtain k where k: "k < length rs"
        "link_loop L 1 r rs = (False, Some (1 + k), Some (record_kind (rs ! k)))"
        "\<not> link_ok L c (Suc k)" "\<forall>m < k. link_ok L c (Suc m)" unfolding suc by blast
      have "link_ok L c j" if "j < Suc k" for j using that zero k(4) by (cases j) auto
      with k(1,3) Cons have b: "first_broken L c (Suc k)" by (simp add: first_broken_def)
      then have "\<not> linked L c" by (auto simp: first_broken_def linked_def)
      with b k(2) True Cons show ?thesis by (auto simp: verify_chain_detailed_def)
    qed
  qed
qed (simp add: linked_def verify_chain_detailed_def)

text \<open>
  the detailed verification is exact: it answers \<open>(True, None, None)\<close> exactly for chains in
  which every record names the hash of its predecessor and the first names none, and otherwise
  the position and the kind of the first record that does not.
\<close>

theorem detailed_verification_exact:
  "(if linked L c then verify_chain_detailed L c = (True, None, None)
    else \<exists>i. first_broken L c i \<and>
      verify_chain_detailed L c = (False, Some i, Some (record_kind (c ! i))))"
  by (rule detailed_exact)

lemma detailed_linked: "fst (verify_chain_detailed L c) = linked L c"
  using detailed_exact [of L c] by (auto split: if_splits)

lemma verify_chain_linked: "verify_chain L c \<longleftrightarrow> linked L c"
  by (simp add: verify_chain_def detailed_linked)

lemma linked_Nil [simp]: "linked L []"
  by (simp add: linked_def)

lemma linked_snoc: "linked L (c @ [r]) \<longleftrightarrow> linked L c \<and> chain_previous r = expected_previous L c"
proof -
  have "link_ok L (c @ [r]) i \<longleftrightarrow> link_ok L c i" if "i < length c" for i
    using that by (auto simp: link_ok_def nth_append)
  moreover have "link_ok L (c @ [r]) (length c) \<longleftrightarrow> chain_previous r = expected_previous L c"
    by (auto simp: link_ok_def expected_previous_def nth_append last_conv_nth)
  ultimately show ?thesis by (auto simp: linked_def less_Suc_eq)
qed

lemma chain_previous_set [simp]: "chain_previous (set_previous p r) = p"
  by (cases r) simp_all

lemma chain_append_cases:
  assumes "chain_append L c r = Inr c'"
  obtains r' where "c' = c @ [r']" "chain_previous r' = expected_previous L c"
    "r' = (if chain_previous r = None then set_previous (expected_previous L c) r else r)"
  using assms by (auto simp: chain_append_def split: if_splits)

text \<open>
  C8: appending keeps a chain verified: if \<open>append\<close> accepts a record on a chain that verifies, the
  new chain is the old one with that record at the end, unchanged or linked, and verifies;
  and it accepts exactly the records that name no predecessor or the right one.
\<close>

theorem append_keeps_verified:
  assumes "verify_chain L c"
  shows "(case chain_append L c r of
       Inr c' \<Rightarrow> verify_chain L c' \<and> butlast c' = c \<and>
         last c' = (if chain_previous r = None then set_previous (expected_previous L c) r else r)
     | Inl e \<Rightarrow> chain_previous r \<noteq> None \<and> chain_previous r \<noteq> expected_previous L c)"
proof (cases "chain_append L c r")
  case (Inl e)
  then show ?thesis by (auto simp: chain_append_def split: if_splits)
next
  case (Inr c')
  from chain_append_cases [OF Inr] obtain r' where "c' = c @ [r']"
    "chain_previous r' = expected_previous L c"
    "r' = (if chain_previous r = None then set_previous (expected_previous L c) r else r)" by metis
  with assms Inr show ?thesis by (simp add: verify_chain_linked linked_snoc)
qed

definition sample_decision :: "string \<Rightarrow> string option \<Rightarrow> decision_record" where
  "sample_decision rid prev = \<lparr>dr_agent_id = ''a'', dr_decision_point = ''stop'',
     dr_candidate_action = [], dr_decision_inputs = [], dr_reasoning_chain = [],
     dr_rejected_alternatives = [], dr_goal_state = [], dr_capture_tier = MINIMAL,
     dr_redacted = True, dr_record_id = rid, dr_timestamp = ''2026'', dr_previous = prev,
     dr_signature = None, dr_public_key = None, dr_kind = ''decision''\<rparr>"

definition sample_chain :: chain where
  "sample_chain = [Dec (sample_decision ''d'' None)]"

lemma sample_chain_ok: "verify_chain sample_lib sample_chain"
  by (simp add: verify_chain_def verify_chain_detailed_def sample_chain_def sample_decision_def)

lemma append_keeps_verified_witness:
  "\<exists>c'. chain_append sample_lib sample_chain (Dec (sample_decision ''e'' None)) = Inr c' \<and>
     verify_chain sample_lib c'"
  using append_keeps_verified [OF sample_chain_ok, of "Dec (sample_decision ''e'' None)"]
  by (simp add: chain_append_def sample_decision_def)

section \<open>Tamper evidence\<close>

text \<open>The digest has no collision among the canonical texts of two chains.\<close>

definition no_collision :: "'k lib \<Rightarrow> chain \<Rightarrow> chain \<Rightarrow> bool" where
  "no_collision L c d \<longleftrightarrow> inj_on (l_sha256 L) (canonical_payload L ` (set c \<union> set d))"

definition same_content :: "chained \<Rightarrow> chained \<Rightarrow> bool" where
  "same_content r q \<longleftrightarrow> sort_keys (payload r) = sort_keys (payload q)"

lemma same_hash_content:
  assumes "float_text_ok (l_float L)" and "no_collision L c d" and "r \<in> set c" and "q \<in> set d"
    and "content_hash L r = content_hash L q"
  shows "same_content r q"
proof -
  have "canonical_payload L r = canonical_payload L q"
    using assms(2-5) unfolding no_collision_def content_hash_def by (auto dest: inj_onD)
  then show ?thesis
    unfolding same_content_def by (rule canonical_payload_unique [OF assms(1)])
qed

text \<open>
  C9: a verified chain is determined by its last hash. If two chains verify, their last records
  have the same content hash, and the digest does not collide on the records' canonical texts,
  then the chains have the same length and their records carry the same content, position by
  position (the same canonical payload up to the order of dictionary keys). The canonical text
  itself is proved injective; only the digest is assumed free of collisions.
\<close>

theorem last_hash_determines_chain:
  assumes "float_text_ok (l_float L)" and "verify_chain L c" and "verify_chain L d"
    and "c \<noteq> []" and "d \<noteq> []" and "content_hash L (last c) = content_hash L (last d)"
    and "no_collision L c d"
  shows "list_all2 same_content c d"
  using assms(2-)
proof (induction c arbitrary: d rule: rev_induct)
  case (snoc r c)
  obtain d' q where d: "d = d' @ [q]" using snoc.prems(4) by (cases d rule: rev_cases) auto
  have same: "same_content r q"
    using same_hash_content [OF assms(1) snoc.prems(6), of r q] snoc.prems(5) d by simp
  then have "chain_previous r = chain_previous q"
    unfolding same_content_def by (rule same_payload_fields(1))
  then have prev: "expected_previous L c = expected_previous L d'"
    using snoc.prems(1,2) d by (simp add: verify_chain_linked linked_snoc)
  have "list_all2 same_content c d'"
  proof (cases "c = []")
    case True
    with prev show ?thesis by (simp add: expected_previous_def split: if_splits)
  next
    case False
    with prev have "d' \<noteq> []" "content_hash L (last c) = content_hash L (last d')"
      by (auto simp: expected_previous_def split: if_splits)
    moreover have "no_collision L c d'"
      using snoc.prems(6) d unfolding no_collision_def by (auto intro: inj_on_subset)
    ultimately show ?thesis
      using snoc.IH [of d'] snoc.prems(1,2) d False by (simp add: verify_chain_linked linked_snoc)
  qed
  with same d show ?case by (simp add: list_all2_appendI)
qed simp

lemma last_hash_determines_chain_witness:
  "list_all2 same_content sample_chain sample_chain"
  by (rule last_hash_determines_chain [OF _ sample_chain_ok sample_chain_ok])
    (simp_all add: fraction_text_ok sample_chain_def no_collision_def inj_on_def)

section \<open>Decision links\<close>

text \<open>The specification: the last record of decision kind with the named id comes before.\<close>

definition is_decision :: "string \<Rightarrow> chained \<Rightarrow> bool" where
  "is_decision rid r \<longleftrightarrow> record_kind r = ''decision'' \<and> record_id r = rid"

definition decision_linked :: "'k lib \<Rightarrow> chain \<Rightarrow> nat \<Rightarrow> evidence \<Rightarrow> bool" where
  "decision_linked L c i ev \<longleftrightarrow>
     (\<exists>j < i. j < length c \<and> is_decision (ev_source ev) (c ! j) \<and>
        content_hash L (c ! j) = ev_hash ev \<and>
        (\<forall>k < length c. j < k \<longrightarrow> \<not> is_decision (ev_source ev) (c ! k)))"

lemma decisions_by_id_lookup:
  "map_of (decisions_by_id i rs d) rid =
     (if \<exists>k < length rs. is_decision rid (rs ! k)
      then (let k = Max {k. k < length rs \<and> is_decision rid (rs ! k)} in Some (i + k, rs ! k))
      else map_of d rid)"
proof (induction rs arbitrary: i d)
  case (Cons r rs)
  let ?S = "{k. k < length rs \<and> is_decision rid (rs ! k)}"
  let ?T = "{k. k < length (r # rs) \<and> is_decision rid ((r # rs) ! k)}"
  have T: "?T = (if is_decision rid r then {0} else {}) \<union> Suc ` ?S"
  proof (rule set_eqI)
    fix x show "x \<in> ?T \<longleftrightarrow> x \<in> (if is_decision rid r then {0} else {}) \<union> Suc ` ?S"
      by (cases x) auto
  qed
  show ?case
  proof (cases "\<exists>k < length rs. is_decision rid (rs ! k)")
    case True
    then have ne: "?S \<noteq> {}" and fin: "finite ?S" by auto
    have "Max ?T = Suc (Max ?S)"
    proof (rule Max_eqI)
      show "Suc (Max ?S) \<in> ?T" using Max_in [OF fin ne] unfolding T by blast
      show "y \<le> Suc (Max ?S)" if "y \<in> ?T" for y
        using that Max_ge [OF fin] unfolding T by (auto split: if_splits)
    qed (simp add: T)
    moreover have "\<exists>k < length (r # rs). is_decision rid ((r # rs) ! k)" using True by auto
    ultimately show ?thesis
      using Cons.IH [of "Suc i"] True by (simp add: Let_def)
  next
    case False
    then have S: "?S = {}" by auto
    show ?thesis
    proof (cases "is_decision rid r")
      case True
      then have "?T = {0}" unfolding T S by simp
      moreover have "\<exists>k < length (r # rs). is_decision rid ((r # rs) ! k)"
        using True by (intro exI [of _ 0]) simp
      ultimately show ?thesis
        using Cons.IH [of "Suc i"] False True by (simp add: Let_def is_decision_def)
    next
      case notr: False
      then have "\<not> (\<exists>k < length (r # rs). is_decision rid ((r # rs) ! k))"
        using False by (auto simp: nth_Cons split: nat.splits)
      then show ?thesis using Cons.IH [of "Suc i"] False notr by (auto simp: is_decision_def)
    qed
  qed
qed simp

lemma decision_link_ok_spec:
  "ev_type ev = ''decision'' \<Longrightarrow> i \<le> length c \<Longrightarrow>
     decision_link_ok L (decisions_by_id 0 c []) i ev \<longleftrightarrow> decision_linked L c i ev"
proof -
  assume t: "ev_type ev = ''decision''" and i: "i \<le> length c"
  let ?rid = "ev_source ev"
  let ?S = "{k. k < length c \<and> is_decision ?rid (c ! k)}"
  show ?thesis
  proof (cases "\<exists>k < length c. is_decision ?rid (c ! k)")
    case False
    then show ?thesis
      using t i by (auto simp: decision_link_ok_def decisions_by_id_lookup decision_linked_def)
  next
    case True
    then have ne: "?S \<noteq> {}" and fin: "finite ?S" by auto
    note mem = Max_in [OF fin ne]
    have "decision_link_ok L (decisions_by_id 0 c []) i ev \<longleftrightarrow>
        Max ?S < i \<and> content_hash L (c ! Max ?S) = ev_hash ev"
      using t True by (simp add: decision_link_ok_def decisions_by_id_lookup Let_def)
    also have "\<dots> \<longleftrightarrow> decision_linked L c i ev"
    proof
      assume a: "Max ?S < i \<and> content_hash L (c ! Max ?S) = ev_hash ev"
      have later: "\<not> is_decision ?rid (c ! k)" if "k < length c" "Max ?S < k" for k
      proof
        assume "is_decision ?rid (c ! k)"
        with that(1) have "k \<in> ?S" by simp
        from Max_ge [OF fin this] that(2) show False by simp
      qed
      obtain m where m: "m = Max ?S" by blast
      with mem have "m < length c" "is_decision ?rid (c ! m)" by simp_all
      with a later show "decision_linked L c i ev"
        unfolding decision_linked_def m [symmetric] by blast
    next
      assume "decision_linked L c i ev"
      then obtain j where j: "j < i" "j \<in> ?S" "content_hash L (c ! j) = ev_hash ev"
        "\<forall>k < length c. j < k \<longrightarrow> \<not> is_decision ?rid (c ! k)"
        unfolding decision_linked_def by blast
      have "Max ?S = j"
      proof (rule Max_eqI [OF fin _ j(2)])
        fix y assume "y \<in> ?S"
        then have "y < length c" "is_decision ?rid (c ! y)" by simp_all
        with j(4) have "\<not> j < y" by blast
        then show "y \<le> j" by simp
      qed
      with j show "Max ?S < i \<and> content_hash L (c ! Max ?S) = ev_hash ev" by simp
    qed
    finally show ?thesis .
  qed
qed

lemma decision_loop_all:
  "decision_loop L d i rs \<longleftrightarrow>
     (\<forall>k < length rs. list_all (decision_link_ok L d (i + k)) (evidence_of (rs ! k)))"
  by (induction rs arbitrary: i) (auto simp: less_Suc_eq_0_disj)

text \<open>
  the decision-link verification is exact: a chain passes exactly when every decision entry
  of every attestation names an earlier decision record of the chain, the last one with that
  id, whose current hash is the recorded one.
\<close>

theorem decision_links_exact:
  "verify_decision_links L c \<longleftrightarrow>
     (\<forall>i ev. i < length c \<and> ev \<in> set (evidence_of (c ! i)) \<and> ev_type ev = ''decision'' \<longrightarrow>
        decision_linked L c i ev)"
proof -
  have "decision_link_ok L (decisions_by_id 0 c []) i ev \<longleftrightarrow>
      (ev_type ev = ''decision'' \<longrightarrow> decision_linked L c i ev)" if "i < length c" for i ev
  proof (cases "ev_type ev = ''decision''")
    case True
    with decision_link_ok_spec [OF True, of i c L] that show ?thesis by simp
  next
    case False
    then show ?thesis unfolding decision_link_ok_def by simp
  qed
  then show ?thesis
    unfolding verify_decision_links_def decision_loop_all list_all_iff by (metis add_0)
qed

text \<open>An attestation after the decision of \<open>sample_chain\<close> that links it.\<close>

definition sample_attestation :: attestation_record where
  "sample_attestation = \<lparr>ar_agent_id = ''a'', ar_integrity_score = [], ar_layer_states = [],
     ar_evidence = [decision_evidence sample_lib ''2026'' (sample_decision ''d'' None)],
     ar_record_id = ''r'', ar_timestamp = ''2026'', ar_previous = None, ar_signature = None,
     ar_public_key = None, ar_kind = ''attestation''\<rparr>"

lemma decision_links_exact_witness:
  "verify_decision_links sample_lib (sample_chain @ [Att sample_attestation])"
proof -
  have kinds: "record_kind (Att sample_attestation) = ''attestation''"
    "sample_chain @ [Att sample_attestation] =
       [Dec (sample_decision ''d'' None), Att sample_attestation]"
    by (simp_all add: sample_attestation_def sample_chain_def)
  have "decision_linked sample_lib [Dec (sample_decision ''d'' None), Att sample_attestation] 1
      (decision_evidence sample_lib ''2026'' (sample_decision ''d'' None))"
    unfolding decision_linked_def
    by (intro exI [of _ 0])
      (auto simp: is_decision_def decision_evidence_def sample_decision_def nth_Cons
        sample_attestation_def split: nat.splits)
  then show ?thesis
    unfolding decision_links_exact kinds(2)
    by (auto simp: less_Suc_eq sample_attestation_def)
qed

section \<open>Cross-agent links\<close>

definition cross_linked ::
  "'k lib \<Rightarrow> (string, chain) dict \<Rightarrow> key_provider option \<Rightarrow> evidence \<Rightarrow> bool" where
  "cross_linked L peers kp ev \<longleftrightarrow>
     (\<exists>peer_id rid peer r. ev_source ev = peer_id @ CHR '':'' # rid \<and> CHR '':'' \<notin> set peer_id \<and>
        map_of peers peer_id = Some peer \<and> find (\<lambda>q. record_id q = rid) peer = Some r \<and>
        content_hash L r = ev_hash ev \<and>
        (\<forall>p. kp = Some p \<longrightarrow>
           (\<exists>key. p peer_id = Inr (Some key) \<and> public_key r = Some key \<and>
              verify L r None = Inr True)))"

lemma split1_colon:
  assumes "CHR '':'' \<in> set s"
  shows "s = fst (split1 (CHR '':'') s) @ CHR '':'' # snd (split1 (CHR '':'') s)"
    and "CHR '':'' \<notin> set (fst (split1 (CHR '':'') s))"
proof -
  from split_list_first [OF assms] obtain p r where "s = p @ CHR '':'' # r" "CHR '':'' \<notin> set p"
    by blast
  then show "s = fst (split1 (CHR '':'') s) @ CHR '':'' # snd (split1 (CHR '':'') s)"
    "CHR '':'' \<notin> set (fst (split1 (CHR '':'') s))"
    using split1_append [of "CHR '':''" p r] by simp_all
qed

lemma cross_link_spec: "cross_link L peers kp ev = Inr True \<longleftrightarrow> cross_linked L peers kp ev"
proof (cases "CHR '':'' \<in> set (ev_source ev)")
  case False
  then show ?thesis by (auto simp: cross_link_def cross_linked_def)
next
  case True
  obtain p r where s: "split1 (CHR '':'') (ev_source ev) = (p, r)" by (cases "split1 (CHR '':'') (ev_source ev)")
  with split1_colon [OF True] have e: "ev_source ev = p @ CHR '':'' # r" "CHR '':'' \<notin> set p"
    by simp_all
  have unique: "p' = p \<and> r' = r" if "ev_source ev = p' @ CHR '':'' # r'" "CHR '':'' \<notin> set p'" for p' r'
    using split1_append [OF that(2), of r'] that(1) s by simp
  let ?spec = "\<lambda>peer q. map_of peers p = Some peer \<and> find (\<lambda>q. record_id q = r) peer = Some q \<and>
        content_hash L q = ev_hash ev \<and>
        (\<forall>f. kp = Some f \<longrightarrow>
           (\<exists>key. f p = Inr (Some key) \<and> public_key q = Some key \<and> verify L q None = Inr True))"
  have spec: "cross_linked L peers kp ev \<longleftrightarrow> (\<exists>peer q. ?spec peer q)"
  proof
    assume "cross_linked L peers kp ev"
    then obtain p' r' peer q where "ev_source ev = p' @ CHR '':'' # r'" "CHR '':'' \<notin> set p'"
      "map_of peers p' = Some peer" "find (\<lambda>q. record_id q = r') peer = Some q"
      "content_hash L q = ev_hash ev"
      "\<forall>f. kp = Some f \<longrightarrow>
           (\<exists>key. f p' = Inr (Some key) \<and> public_key q = Some key \<and> verify L q None = Inr True)"
      unfolding cross_linked_def by blast
    with unique [of p' r'] show "\<exists>peer q. ?spec peer q" by simp
  next
    assume "\<exists>peer q. ?spec peer q"
    with e show "cross_linked L peers kp ev" unfolding cross_linked_def by blast
  qed
  show ?thesis
  proof (cases "map_of peers p")
    case None
    with True s spec show ?thesis by (simp add: cross_link_def)
  next
    case (Some peer)
    show ?thesis
    proof (cases "find (\<lambda>q. record_id q = r) peer")
      case None
      with Some True s spec show ?thesis by (simp add: cross_link_def)
    next
      case found: (Some q)
      show ?thesis
        using True s spec Some found
        by (cases kp) (auto simp: cross_link_def exn_simps split: option.splits)
    qed
  qed
qed

lemma all_true_iff: "all_true f xs = Inr True \<longleftrightarrow> (\<forall>x \<in> set xs. f x = Inr True)"
  by (induction xs) (auto simp: exn_simps split: if_splits)

text \<open>
  cross-agent verification is exact and fails closed: it answers \<open>True\<close> exactly when the chain
  carries no cross-agent evidence, or the peer chains were supplied and every such entry names a
  record of the named peer's chain with the recorded hash; with a key provider, also signed by the
  pinned key of that peer, with a signature that verifies.
\<close>

theorem cross_agent_links_exact:
  "verify_cross_agent_links L c peers kp = Inr True \<longleftrightarrow>
     cross_evidence c = [] \<or>
     (\<exists>ps. peers = Some ps \<and> (\<forall>ev. ev \<in> set (cross_evidence c) \<longrightarrow> cross_linked L ps kp ev))"
  by (auto simp: verify_cross_agent_links_def all_true_iff cross_link_spec split: option.splits)

lemma cross_agent_links_exact_witness:
  "verify_cross_agent_links sample_lib sample_chain None None = Inr True"
  using cross_agent_links_exact [of sample_lib sample_chain None None]
  by (auto simp: sample_chain_def cross_evidence_def)

section \<open>Signatures\<close>

definition signed_ok :: "'k lib \<Rightarrow> string set option \<Rightarrow> chained \<Rightarrow> bool" where
  "signed_ok L trusted r \<longleftrightarrow> signature r \<noteq> None \<and> public_key r \<noteq> None \<and>
     is_trusted trusted (public_key r) \<and> verify L r None = Inr True"

lemma signature_loop_spec:
  "signature_loop L trusted i rs = Inr res \<Longrightarrow>
     (res = (True, None) \<and> list_all (signed_ok L trusted) rs) \<or>
     (\<exists>k < length rs. res = (False, Some (i + k)) \<and> \<not> signed_ok L trusted (rs ! k) \<and>
        list_all (signed_ok L trusted) (take k rs))"
proof (induction rs arbitrary: i)
  case (Cons r rs)
  show ?case
  proof (cases "signed_ok L trusted r")
    case True
    with Cons.prems have "signature_loop L trusted (Suc i) rs = Inr res"
      by (auto simp: signed_ok_def)
    from Cons.IH [OF this] True show ?thesis by fastforce
  next
    case False
    with Cons.prems have "res = (False, Some i)"
      by (auto simp: signed_ok_def bindS_Inr split: if_splits)
    with False show ?thesis by (intro disjI2 exI [of _ 0]) simp
  qed
qed simp

lemma signature_loop_all:
  "list_all (signed_ok L trusted) rs \<Longrightarrow> signature_loop L trusted i rs = Inr (True, None)"
  by (induction rs arbitrary: i) (auto simp: signed_ok_def)

lemma verify_signatures_all:
  "verify_signatures L c trusted = Inr (True, None) \<longleftrightarrow> list_all (signed_ok L trusted) c"
  using signature_loop_spec [of L trusted 0 c "(True, None)"] signature_loop_all
  by (auto simp: verify_signatures_def)

text \<open>
  signature verification is exact: when it returns, it answers \<open>(True, None)\<close> exactly if every
  record is signed, with a key of the trusted set when one is given, and its signature verifies
  over its present canonical text; otherwise the position of the first record for which that
  fails.
\<close>

theorem signatures_exact:
  assumes "verify_signatures L c trusted = Inr res"
  shows "if list_all (signed_ok L trusted) c then res = (True, None)
     else \<exists>k < length c. res = (False, Some k) \<and> \<not> signed_ok L trusted (c ! k) \<and>
       list_all (signed_ok L trusted) (take k c)"
proof (cases "list_all (signed_ok L trusted) c")
  case True
  with assms signature_loop_all [of L trusted c 0] show ?thesis by (simp add: verify_signatures_def)
next
  case False
  with signature_loop_spec [of L trusted 0 c res] assms show ?thesis
    by (auto simp: verify_signatures_def)
qed

lemma signatures_exact_witness:
  "\<exists>res. verify_signatures sample_lib sample_chain None = Inr res \<and> res = (False, Some 0)"
proof -
  have v: "verify_signatures sample_lib sample_chain None = Inr (False, Some 0)"
    by (simp add: verify_signatures_def sample_chain_def sample_decision_def)
  have "\<not> list_all (signed_ok sample_lib None) sample_chain"
    by (simp add: sample_chain_def signed_ok_def sample_decision_def)
  with signatures_exact [OF v] v show ?thesis by auto
qed

lemma all_verify_cases:
  "all_verify L rs = Inr True \<longleftrightarrow> list_all (\<lambda>r. verify L r None = Inr True) rs"
  by (simp add: all_verify_def all_true_iff list_all_iff)

lemma filter_all: "length (filter P xs) = length xs \<Longrightarrow> filter P xs = xs \<and> list_all P xs"
proof (induction xs)
  case (Cons x xs)
  moreover have "length (filter P xs) \<noteq> Suc (length xs)"
    using length_filter_le [of P xs] by linarith
  ultimately show ?case by (auto split: if_splits)
qed simp

text \<open>
  the signature status never overstates: if it is \<open>signed\<close> without a trusted set, or
  \<open>trusted\<close> with one, then the chain is not empty and signature verification with the same set
  answers \<open>(True, None)\<close>.
\<close>

theorem signature_status_sound:
  assumes "signature_status L c trusted = Inr st"
    and "st = (if trusted = None then ''signed'' else ''trusted'')"
  shows "c \<noteq> [] \<and> verify_signatures L c trusted = Inr (True, None)"
proof -
  let ?s = "filter (\<lambda>r. signature r \<noteq> None) c"
  from assms have ne: "c \<noteq> []" and keys: "\<not> list_ex (\<lambda>r. \<not> str_truthy (public_key r)) ?s"
    and ver: "all_verify L ?s = Inr True" and len: "\<not> length ?s < length c"
    and tr: "trusted \<noteq> None \<longrightarrow> list_all (\<lambda>r. is_trusted trusted (public_key r)) ?s"
    by (auto simp: signature_status_def Let_def split: if_splits sum.splits exn.splits)
  from len have "length ?s = length c" by (metis length_filter_le le_neq_implies_less)
  from filter_all [OF this] have all: "?s = c" "list_all (\<lambda>r. signature r \<noteq> None) c" by simp_all
  have "list_all (signed_ok L trusted) c"
  proof -
    have "signed_ok L trusted r" if r: "r \<in> set c" for r
    proof -
      have "str_truthy (public_key r)" using keys r unfolding all(1) by (auto simp: list_ex_iff)
      moreover have "is_trusted trusted (public_key r)"
        using tr r unfolding all(1) by (cases trusted) (auto simp: list_all_iff is_trusted_def)
      moreover have "verify L r None = Inr True" "signature r \<noteq> None"
        using ver r all(2) unfolding all(1) by (auto simp: all_verify_cases list_all_iff)
      ultimately show ?thesis by (cases "public_key r") (auto simp: signed_ok_def str_truthy_def)
    qed
    then show ?thesis by (simp add: list_all_iff)
  qed
  with ne show ?thesis by (simp add: verify_signatures_all)
qed

lemma signature_status_sound_witness:
  "verify_signatures sample_lib [Dec ((sample_decision ''d'' None)\<lparr>dr_signature :=
     Some (''k'' @ canonical_payload sample_lib (Dec (sample_decision ''d'' None))),
     dr_public_key := Some ''k''\<rparr>)] None = Inr (True, None)"
proof (rule conjunct2 [OF signature_status_sound])
  let ?r = "(sample_decision ''d'' None)\<lparr>dr_signature :=
     Some (''k'' @ canonical_payload sample_lib (Dec (sample_decision ''d'' None))),
     dr_public_key := Some ''k''\<rparr>"
  have "payload (Dec ?r) = payload (Dec (sample_decision ''d'' None))"
    by (simp add: decision_payload_def decision_fields_def del: json_safe.simps)
  then have "verify sample_lib (Dec ?r) None = Inr True"
    by (simp add: verify_def verify_canonical_def canonical_payload_def)
  then show "signature_status sample_lib [Dec ?r] None = Inr ''signed''"
    by (simp add: signature_status_def all_verify_def str_truthy_def)
qed simp

text \<open>
  What the records rely on of Ed25519: the package is installed, a public key is accepted, and a
  signature verifies under the public key of its signer.
\<close>

definition scheme_ok :: "'k lib \<Rightarrow> bool" where
  "scheme_ok L \<longleftrightarrow> l_crypto L \<and> (\<forall>k. l_key_ok L (l_public L k)) \<and>
     (\<forall>k m. l_check L (l_public L k) (l_sign L k m) m)"

lemma set_signature_simps [simp]:
  "payload (set_signature s p r) = payload r" "chain_previous (set_signature s p r) = chain_previous r"
  "signature (set_signature s p r) = Some s" "public_key (set_signature s p r) = Some p"
  "record_kind (set_signature s p r) = record_kind r"
  by (cases r; simp add: attestation_payload_def decision_payload_def decision_fields_def
      del: json_safe.simps)+

lemma sign_verifies:
  assumes "scheme_ok L"
  obtains r' where "sign L k r = Inr r'" "verify L r' None = Inr True" "payload r' = payload r"
    "chain_previous r' = chain_previous r" "public_key r' = Some (l_public L k)" "signature r' \<noteq> None"
proof -
  have "canonical_payload L (set_signature s p r) = canonical_payload L r" for s p
    by (simp add: canonical_payload_def)
  with assms that show thesis
    by (auto simp: sign_def sign_canonical_def verify_def verify_canonical_def scheme_ok_def)
qed

text \<open>
  a record built for its place stays verifiably signed. On a chain whose records are all
  validly signed by trusted keys, a record that already names the chain's last hash (or starts the
  chain), once signed with a trusted key, is accepted unchanged by \<open>append\<close> and the new chain
  verifies, hash links and signatures both.
\<close>

theorem signed_append_verifies:
  assumes "scheme_ok L" and "verify_chain L c" and "list_all (signed_ok L trusted) c"
    and "chain_previous r = expected_previous L c"
    and "is_trusted trusted (Some (l_public L k))"
  shows "\<exists>r'. sign L k r = Inr r' \<and> chain_append L c r' = Inr (c @ [r']) \<and>
     verify_chain L (c @ [r']) \<and> verify_signatures L (c @ [r']) trusted = Inr (True, None)"
proof -
  from sign_verifies [OF assms(1), of k r] obtain r' where s: "sign L k r = Inr r'"
    "verify L r' None = Inr True" "chain_previous r' = chain_previous r"
    "public_key r' = Some (l_public L k)" "signature r' \<noteq> None" by metis
  have "set_previous None q = q" if "chain_previous q = None" for q
    using that by (cases q) simp_all
  then have "chain_append L c r' = Inr (c @ [r'])"
    using s(3) assms(4) by (auto simp: chain_append_def)
  moreover have "verify_chain L (c @ [r'])"
    using assms(2,4) s(3) by (simp add: verify_chain_linked linked_snoc)
  moreover have "verify_signatures L (c @ [r']) trusted = Inr (True, None)"
    using assms(3,5) s by (auto simp: verify_signatures_all signed_ok_def)
  ultimately show ?thesis using s(1) by blast
qed

lemma sample_scheme: "scheme_ok sample_lib"
  by (simp add: scheme_ok_def)

lemma signed_append_verifies_witness:
  "\<exists>r'. sign sample_lib ''k'' (Dec (sample_decision ''d'' None)) = Inr r' \<and>
     verify_signatures sample_lib [r'] (Some {''k''}) = Inr (True, None)"
  using signed_append_verifies [OF sample_scheme, of "[]" "Some {''k''}" "Dec (sample_decision ''d'' None)" "''k''"]
  by (auto simp: verify_chain_def verify_chain_detailed_def expected_previous_def is_trusted_def
      sample_decision_def)

text \<open>
  A record signed before it is linked loses its signature: \<open>append\<close> fills in \<open>chain_previous\<close> after
  the signature was made, so the text it covers is no longer the record's.
\<close>

lemma late_link_breaks_signature:
  "\<exists>r c'. sign sample_lib ''k'' (Dec (sample_decision ''e'' None)) = Inr r \<and>
     verify sample_lib r None = Inr True \<and> chain_append sample_lib sample_chain r = Inr c' \<and>
     verify sample_lib (last c') None = Inr False"
proof -
  let ?d = "Dec (sample_decision ''e'' None)"
  from sign_verifies [OF sample_scheme, of "''k''" ?d] obtain r where
    s: "sign sample_lib ''k'' ?d = Inr r" "verify sample_lib r None = Inr True"
      "payload r = payload ?d" "chain_previous r = chain_previous ?d" by metis
  have none: "chain_previous r = None" using s(4) by (simp add: sample_decision_def)
  let ?p = "expected_previous sample_lib sample_chain"
  let ?q = "set_previous ?p r"
  from s(1) have r: "r = set_signature (''k'' @ canonical_payload sample_lib ?d) ''k'' ?d"
    by (simp add: sign_def sign_canonical_def)
  have "canonical_payload sample_lib ?q \<noteq> canonical_payload sample_lib ?d"
  proof
    assume "canonical_payload sample_lib ?q = canonical_payload sample_lib ?d"
    from same_payload_fields(1) [OF canonical_payload_unique [OF _ this]]
    show False by (simp add: fraction_text_ok expected_previous_def sample_chain_def sample_decision_def)
  qed
  moreover have "signature ?q = Some (''k'' @ canonical_payload sample_lib ?d)"
    "public_key ?q = Some ''k''" unfolding r by simp_all
  ultimately have "verify sample_lib ?q None = Inr False"
    by (auto simp: verify_def verify_canonical_def)
  moreover have "chain_append sample_lib sample_chain r = Inr (sample_chain @ [?q])"
    using none by (simp add: chain_append_def)
  ultimately show ?thesis using s(1,2) by auto
qed

section \<open>Serialisation\<close>

lemma record_roundtrip:
  assumes "record_ok L r"
  shows "bindS (as_object (record_to_dict L r)) (record_from_dict L) = Inr (normalised r)"
proof (cases r)
  case (Att a)
  obtain d where d: "attestation_to_dict L a = JObj d" "map_of d ''record_kind'' = Some (JStr (ar_kind a))"
    by (simp add: attestation_to_dict_def)
  with attestation_roundtrip [of L a] assms Att show ?thesis
    by (simp add: record_from_dict_def field_or_def)
next
  case (Dec a)
  obtain d where d: "decision_to_dict L a = JObj d" "map_of d ''record_kind'' = Some (JStr (dr_kind a))"
    by (simp add: decision_to_dict_def decision_fields_def)
  with decision_roundtrip [of L a] assms Dec show ?thesis
    by (simp add: record_from_dict_def field_or_def del: json_safe.simps)
qed

text \<open>
  C15: a chain survives serialisation: rebuilding a chain from the dictionaries of its records gives
  the same records, candidate actions in their JSON form, with the same canonical texts and
  content hashes, so the restored chain verifies exactly when the original did. (Signature
  fields that are empty bytes are the excluded case: \<open>to_dict\<close> writes them as \<open>None\<close>.)
\<close>

theorem chain_roundtrip:
  assumes "list_all (record_ok L) c"
  shows "from_dict_list L (to_records_dict L c) = Inr (map normalised c) \<and>
     map (content_hash L) (map normalised c) = map (content_hash L) c \<and>
     map (canonical_payload L) (map normalised c) = map (canonical_payload L) c \<and>
     verify_chain L (map normalised c) = verify_chain L c"
proof -
  have "from_dict_list L (to_records_dict L c) = Inr (map normalised c)"
    using assms
    by (induction c) (simp_all add: from_dict_list_def to_records_dict_def record_roundtrip)
  moreover have "linked L (map normalised c) = linked L c"
    by (auto simp: linked_def link_ok_def)
  ultimately show ?thesis by (simp add: verify_chain_linked)
qed

lemma chain_roundtrip_witness:
  "from_dict_list sample_lib (to_records_dict sample_lib sample_chain) = Inr sample_chain"
proof -
  have "map normalised sample_chain = sample_chain"
    by (simp add: sample_chain_def sample_decision_def dict_of_def)
  with chain_roundtrip [of sample_lib sample_chain] show ?thesis
    by (simp add: sample_chain_def sample_decision_def)
qed

end
