(* ===== verification/Recovery.thy ===== *)
theory Recovery
  imports Checkpoint_Stores Chain_Properties Profile
begin

text \<open>
  The recovery layer (layers/recovery.py): its assessment of an agent, and the checkpoint
  operations \<open>snapshot\<close> and \<open>restore_to\<close>. The layer holds a reference to an attestation chain
  that an adapter or a monitor also writes, so chains live in an explicit store, a list of
  chains, and the layer holds a position in it. The backend is a record of the operations of the
  store interface.
\<close>

section \<open>Data\<close>

record assessment =
  ra_score :: rat
  ra_has_baseline :: bool
  ra_baseline_age :: rat
  ra_chain_intact :: bool
  ra_chain_length :: nat
  ra_sustained :: bool
  ra_trend :: "rat list"
  ra_capable :: bool
  ra_present :: "string list"
  ra_unbacked :: "string list"
  ra_checkpoint_count :: nat
  ra_last_checkpoint :: "string option"
  ra_cascade :: bool
  ra_degrading_peers :: "string list"
  ra_quarantine :: bool

definition assessment_to_dict :: "assessment \<Rightarrow> args" where
  "assessment_to_dict a =
     [(''recovery_score'', JFloat (ra_score a)), (''has_baseline'', JBool (ra_has_baseline a)),
      (''baseline_age_hours'', JFloat (ra_baseline_age a)),
      (''chain_intact'', JBool (ra_chain_intact a)),
      (''chain_length'', JInt (int (ra_chain_length a))),
      (''sustained_degradation'', JBool (ra_sustained a)),
      (''degradation_trend'', JArr (map JFloat (ra_trend a))),
      (''recovery_capable'', JBool (ra_capable a)),
      (''recovery_capabilities_present'', JArr (map JStr (ra_present a))),
      (''recovery_capabilities_unbacked'', JArr (map JStr (ra_unbacked a))),
      (''checkpoint_count'', JInt (int (ra_checkpoint_count a))),
      (''last_checkpoint_id'', json_opt JStr (ra_last_checkpoint a)),
      (''cascade_compromise_suspected'', JBool (ra_cascade a)),
      (''degrading_peer_ids'', JArr (map JStr (ra_degrading_peers a))),
      (''quarantine_capable'', JBool (ra_quarantine a))]"

record 's backend =
  be_save :: "snapshot \<Rightarrow> 's \<Rightarrow> (exn + string) \<times> 's"
  be_load :: "string \<Rightarrow> 's \<Rightarrow> decode_error + snapshot option"
  be_list_ids :: "'s \<Rightarrow> string list"

record recovery =
  rl_window :: int
  rl_threshold :: rat
  rl_chain :: "nat option"
  rl_history :: "rat list"
  rl_last_checkpoint :: "string option"

type_synonym chain_heap = "chain list"

definition make_recovery :: "int \<Rightarrow> rat \<Rightarrow> nat option \<Rightarrow> rat list option \<Rightarrow> recovery" where
  "make_recovery window threshold chain history = \<lparr>rl_window = window, rl_threshold = threshold,
     rl_chain = chain, rl_history = (case history of None \<Rightarrow> [] | Some h \<Rightarrow> h),
     rl_last_checkpoint = None\<rparr>"

text \<open>A layer that already has a chain keeps it (and warns when it is another one).\<close>

definition bind_chain :: "nat \<Rightarrow> recovery \<Rightarrow> recovery" where
  "bind_chain c r = (case rl_chain r of None \<Rightarrow> r\<lparr>rl_chain := Some c\<rparr> | Some _ \<Rightarrow> r)"

definition record_score :: "rat \<Rightarrow> recovery \<Rightarrow> recovery" where
  "record_score x r = r\<lparr>rl_history := rl_history r @ [x]\<rparr>"

section \<open>Assessment\<close>

text \<open>\<open>xs[-w:]\<close>: all of the list for 0, and from \<open>-w\<close> on for a negative window.\<close>

definition tail_slice :: "int \<Rightarrow> 'a list \<Rightarrow> 'a list" where
  "tail_slice w xs = (if 0 < w then drop (length xs - nat w) xs else drop (nat (- w)) xs)"

text \<open>
  The clock and the instants of ISO texts in microseconds; a text without a timezone counts as
  UTC. The text parser is the argument \<open>parse\<close>.
\<close>

definition age_in_hours :: "(string \<Rightarrow> datetime option) \<Rightarrow> int \<Rightarrow> string \<Rightarrow> rat" where
  "age_in_hours parse now s =
     (case parse s of None \<Rightarrow> 0 | Some t \<Rightarrow> of_int (now - instant t) / 3600000000)"

definition baseline_score :: "rat \<Rightarrow> rat \<Rightarrow> rat" where
  "baseline_score age samples =
     (if age < 24 \<and> 5 \<le> samples then 1 else if age < 72 then 85 / 100
      else if age < 168 then 70 / 100 else 1 / 2)"

definition check_baseline ::
  "(string \<Rightarrow> datetime option) \<Rightarrow> int \<Rightarrow> args \<Rightarrow> exn + rat \<times> bool \<times> rat" where
  "check_baseline parse now ctx =
     (let base = field_or ''behavioral_baseline'' JNull ctx in
      if base = JNull then Inr (1 / 2, False, 0)
      else case base of
        JObj b \<Rightarrow>
          (let created = field_or ''created_at'' JNull b;
               counted = (\<lambda>age.
                 bindS (number (field_or ''sample_count'' (JInt 0) b)) (\<lambda>samples.
                   if samples \<le> 0 then Inr (1 / 2, False, age)
                   else Inr (baseline_score age samples, True, round_to 2 age)))
           in if \<not> truthy created then counted 0
              else case created of
                JStr s \<Rightarrow> counted (age_in_hours parse now s)
              | _ \<Rightarrow> Inr (6 / 10, True, 0))
      | _ \<Rightarrow> Inl (AttributeError ''object has no attribute get''))"

definition mean :: "rat list \<Rightarrow> rat" where
  "mean xs = sum_list xs / of_nat (length xs)"

definition check_degradation :: "recovery \<Rightarrow> rat \<times> bool \<times> rat list" where
  "check_degradation r =
     (let history = tail_slice (rl_window r) (rl_history r); half = length history div 2 in
      if length history < 3 then (1, False, history)
      else let fall = mean (take half history) - mean (drop half history);
               sustained = (rl_threshold r \<le> fall);
               score = (if sustained then max 0 (1 - fall * 3)
                        else if 0 < fall then max (1 / 2) (1 - fall) else 1)
           in (round_to 4 score, sustained, history))"

definition recovery_capabilities :: "string list" where
  "recovery_capabilities = [''state_restore'', ''checkpoint'', ''rollback'', ''session_reset'',
     ''peer_quarantine'']"

definition check_capabilities ::
  "bool \<Rightarrow> agent_profile \<Rightarrow> rat \<times> bool \<times> string list \<times> string list" where
  "check_capabilities has_backend profile =
     (let present = (if has_backend then [''checkpoint''] else []);
          unbacked = sorted_list_of_set (set (filter
            (\<lambda>c. c \<in> set recovery_capabilities \<and> c \<notin> set present) (ap_capabilities profile)));
          score = (if 3 \<le> length present then 1 else if length present = 2 then 85 / 100
                   else if length present = 1 then 70 / 100 else 40 / 100)
      in (score, present \<noteq> [], present, unbacked))"

definition check_chain :: "'k lib \<Rightarrow> chain_heap \<Rightarrow> recovery \<Rightarrow> rat \<times> bool \<times> nat" where
  "check_chain L heap r =
     (case rl_chain r of
        None \<Rightarrow> (1 / 2, True, 0)
      | Some c \<Rightarrow> if verify_chain L (heap ! c) then (1, True, length (heap ! c))
                  else (0, False, length (heap ! c)))"

text \<open>One peer's history: \<open>max\<close> and \<open>min\<close> of an empty list raise, as arithmetic on non-numbers does.\<close>

definition peer_degrading :: "recovery \<Rightarrow> json list \<Rightarrow> exn + bool" where
  "peer_degrading r history =
     bindS (traverse number (tail_slice (rl_window r) history)) (\<lambda>window.
       if window = [] then Inl (ValueError ''max() arg is an empty sequence'')
       else let half = length window div 2; fall = Max (set window) - Min (set window)
            in if half = 0 then Inr False
               else Inr (rl_threshold r \<le> fall \<and>
                 Min (set (drop half window)) < Max (set (take half window)) - rl_threshold r))"

fun degrading_peers :: "recovery \<Rightarrow> args \<Rightarrow> exn + string list" where
  "degrading_peers r [] = Inr []"
| "degrading_peers r ((peer, h) # ps) =
     bindS (case h of
              JArr xs \<Rightarrow> if int (length xs) < rl_window r then Inr False else peer_degrading r xs
            | _ \<Rightarrow> Inr False) (\<lambda>bad.
     bindS (degrading_peers r ps) (\<lambda>rest. Inr (if bad then peer # rest else rest)))"

definition or_empty :: "json \<Rightarrow> json" where
  "or_empty j = (if truthy j then j else JObj [])"

definition check_cascade :: "recovery \<Rightarrow> args \<Rightarrow> exn + bool \<times> string list" where
  "check_cascade r ctx =
     (case or_empty (field_or ''topology_context'' JNull ctx) of
        JObj topo \<Rightarrow>
          (case or_empty (field_or ''peer_score_history'' JNull topo) of
             JObj peers \<Rightarrow> bindS (degrading_peers r peers) (\<lambda>ps. Inr (2 \<le> length ps, sort ps))
           | _ \<Rightarrow> Inr (False, []))
      | _ \<Rightarrow> Inl (AttributeError ''object has no attribute get''))"

definition assess_recovery ::
  "'k lib \<Rightarrow> (string \<Rightarrow> datetime option) \<Rightarrow> int \<Rightarrow> 's backend option \<Rightarrow> 's \<Rightarrow> chain_heap \<Rightarrow> recovery
     \<Rightarrow> agent_profile \<Rightarrow> args \<Rightarrow> exn + assessment" where
  "assess_recovery L parse now be store heap r profile ctx =
     bindS (check_baseline parse now ctx) (\<lambda>(base, has_base, age).
       let (deg, sustained, trend) = check_degradation r;
           (cap, capable, present, unbacked) = check_capabilities (be \<noteq> None) profile;
           (ch, intact, len) = check_chain L heap r
       in bindS (check_cascade r ctx) (\<lambda>(cascade, peers).
            Inr \<lparr>ra_score = round_to 4 ((base + deg + cap + ch) / 4), ra_has_baseline = has_base,
                 ra_baseline_age = age, ra_chain_intact = intact, ra_chain_length = len,
                 ra_sustained = sustained, ra_trend = trend, ra_capable = capable,
                 ra_present = present, ra_unbacked = unbacked,
                 ra_checkpoint_count = (case be of None \<Rightarrow> 0 | Some b \<Rightarrow> length (be_list_ids b store)),
                 ra_last_checkpoint = rl_last_checkpoint r, ra_cascade = cascade,
                 ra_degrading_peers = peers,
                 ra_quarantine = (''peer_quarantine'' \<in> set present)\<rparr>))"

definition recovery_action :: "assessment \<Rightarrow> string" where
  "recovery_action a =
     (if ra_sustained a then ''alert'' else if \<not> ra_chain_intact a then ''escalate''
      else if ra_cascade a then ''alert'' else if 1 / 2 \<le> ra_score a then ''pass'' else ''alert'')"

definition recovery_evaluate ::
  "'k lib \<Rightarrow> (string \<Rightarrow> datetime option) \<Rightarrow> int \<Rightarrow> 's backend option \<Rightarrow> 's \<Rightarrow> chain_heap \<Rightarrow> recovery
     \<Rightarrow> agent_profile \<Rightarrow> args \<Rightarrow> exn + layer_result" where
  "recovery_evaluate L parse now be store heap r profile ctx =
     bindS (assess_recovery L parse now be store heap r profile ctx) (\<lambda>a.
       Inr \<lparr>lr_name = ''recovery'', lr_score = ra_score a, lr_passed = (1 / 2 \<le> ra_score a),
            lr_action = recovery_action a, lr_details = assessment_to_dict a, lr_latency = 0\<rparr>)"

section \<open>Snapshot and restore\<close>

definition no_backend :: exn where
  "no_backend = RuntimeError ''RecoveryLayer was constructed without a checkpoint backend''"

text \<open>\<open>fresh\<close> is the generated identifier and \<open>now\<close> the ISO text of the clock.\<close>

definition take_snapshot ::
  "'k lib \<Rightarrow> string \<Rightarrow> string \<Rightarrow> 's backend option \<Rightarrow> string \<Rightarrow> args option \<Rightarrow> args option \<Rightarrow> chain_heap
     \<Rightarrow> recovery \<Rightarrow> 's \<Rightarrow> (exn + string) \<times> recovery \<times> 's" where
  "take_snapshot L fresh now be agent_id base meta heap r store =
     (case be of
        None \<Rightarrow> (Inl no_backend, r, store)
      | Some b \<Rightarrow>
          (let snap = \<lparr>cs_agent_id = agent_id, cs_checkpoint_id = fresh, cs_created_at = now,
                 cs_score_history = rl_history r,
                 cs_chain_records = (case rl_chain r of None \<Rightarrow> [] | Some c \<Rightarrow> to_records_dict L (heap ! c)),
                 cs_baseline = base, cs_metadata = (case meta of None \<Rightarrow> [] | Some d \<Rightarrow> d)\<rparr>
           in case be_save b snap store of
                (Inl e, store') \<Rightarrow> (Inl e, r, store')
              | (Inr cid, store') \<Rightarrow> (Inr cid, r\<lparr>rl_last_checkpoint := Some cid\<rparr>, store')))"

definition is_prefix :: "(chained \<Rightarrow> string) \<Rightarrow> chain \<Rightarrow> chain \<Rightarrow> bool" where
  "is_prefix key p c = (length p \<le> length c \<and> map key p = map key (take (length p) c))"

definition archive_kind :: string where
  "archive_kind = ''pre_restore_archive''"

definition lift_exn :: "exn + 'a \<Rightarrow> decode_error + 'a" where
  "lift_exn r = (case r of Inl e \<Rightarrow> Inl (Fails e) | Inr x \<Rightarrow> Inr x)"

text \<open>
  The checks of \<open>restore_to\<close>, in order, up to the first change of state: the snapshot and the
  chain rebuilt from it. \<open>live\<close> is the chain now bound, empty when there is none.
\<close>

definition restore_checks ::
  "'k lib \<Rightarrow> 's backend option \<Rightarrow> 's \<Rightarrow> string \<Rightarrow> bool \<Rightarrow> string set option \<Rightarrow> chain
     \<Rightarrow> decode_error + snapshot \<times> chain \<times> 's backend" where
  "restore_checks L be store cid has_key trusted live =
     (case be of
        None \<Rightarrow> Inl (Fails no_backend)
      | Some b \<Rightarrow>
          bindS (be_load b cid store) (\<lambda>found.
            case found of
              None \<Rightarrow> Inl (Fails (KeyError ''checkpoint not found''))
            | Some snap \<Rightarrow>
                if field_or ''kind'' JNull (cs_metadata snap) = JStr archive_kind
                then Inl (Fails (ValueError ''checkpoint is an archive, not a restore point''))
                else bindS (from_dict_list L (cs_chain_records snap)) (\<lambda>restored.
                  if \<not> verify_chain L restored
                  then Inl (Fails (ValueError ''checkpoint holds a chain that does not verify''))
                  else bindS (case trusted of
                      None \<Rightarrow> Inr True
                    | Some keys \<Rightarrow> lift_exn (bindS (verify_signatures L restored (Some keys))
                        (\<lambda>v. Inr (fst v)))) (\<lambda>ok.
                    if \<not> ok
                    then Inl (Fails (ValueError ''checkpoint is not signed by a trusted key''))
                    else if \<not> has_key \<and> list_ex (\<lambda>q. signature q \<noteq> None) (live @ restored)
                    then Inl (Fails (ValueError ''the chain is signed; pass signing_key''))
                    else Inr (snap, restored, b)))))"

definition archive_snapshot ::
  "'k lib \<Rightarrow> string \<Rightarrow> string \<Rightarrow> snapshot \<Rightarrow> rat list \<Rightarrow> chain \<Rightarrow> snapshot" where
  "archive_snapshot L fresh now snap history c =
     \<lparr>cs_agent_id = cs_agent_id snap, cs_checkpoint_id = fresh, cs_created_at = now,
      cs_score_history = history, cs_chain_records = to_records_dict L c, cs_baseline = None,
      cs_metadata = [(''kind'', JStr archive_kind), (''restored_to'', JStr (cs_checkpoint_id snap))]\<rparr>"

definition recovery_record ::
  "'k lib \<Rightarrow> string \<Rightarrow> string \<Rightarrow> snapshot \<Rightarrow> string option \<Rightarrow> nat \<Rightarrow> string option \<Rightarrow> 'k option
     \<Rightarrow> exn + chained" where
  "recovery_record L uuid now snap archive archived prev key =
     build_decision_record L uuid now (cs_agent_id snap) ''recovery_restore''
       [(''type'', RStr ''restore''), (''checkpoint_id'', RStr (cs_checkpoint_id snap)),
        (''archive_id'', case archive of None \<Rightarrow> RNull | Some a \<Rightarrow> RStr a),
        (''archived_records'', RInt (int archived))]
       (Some [''chain_intact:'' @ (if archive = None then ''true'' else ''false'')])
       None None None prev key"

text \<open>The chain after the checks: kept, adopted, or archived and restarted; with the archive's id.\<close>

definition rebase ::
  "'k lib \<Rightarrow> string \<Rightarrow> string \<Rightarrow> 's backend \<Rightarrow> snapshot \<Rightarrow> chain \<Rightarrow> chain_heap \<Rightarrow> recovery \<Rightarrow> 's
     \<Rightarrow> (exn + nat \<times> string option \<times> nat \<times> chain_heap) \<times> 's" where
  "rebase L fresh now b snap restored heap r store =
     (case rl_chain r of
        None \<Rightarrow> (Inr (length heap, None, 0, heap @ [restored]), store)
      | Some c \<Rightarrow>
          if verify_chain L (heap ! c) then
            (if is_prefix (content_hash L) restored (heap ! c) then (Inr (c, None, 0, heap), store)
             else (Inl (ValueError ''checkpoint is not from this chain's history''), store))
          else if \<not> is_prefix record_id restored (heap ! c)
          then (Inl (ValueError ''checkpoint is not from this chain's history''), store)
          else (case be_save b (archive_snapshot L fresh now snap (rl_history r) (heap ! c)) store of
                  (Inl e, store') \<Rightarrow> (Inl e, store')
                | (Inr aid, store') \<Rightarrow>
                    (case restart_from L (heap ! c) restored of
                       Inl e \<Rightarrow> (Inl e, store')
                     | Inr (removed, rs) \<Rightarrow>
                         (Inr (c, Some aid, length (heap ! c), heap[c := rs]), store'))))"

definition live_chain :: "chain_heap \<Rightarrow> recovery \<Rightarrow> chain" where
  "live_chain heap r = (case rl_chain r of None \<Rightarrow> [] | Some c \<Rightarrow> heap ! c)"

definition restore_to ::
  "'k lib \<Rightarrow> string \<times> string \<Rightarrow> string \<Rightarrow> 's backend option \<Rightarrow> string \<Rightarrow> 'k option \<Rightarrow> string set option
     \<Rightarrow> chain_heap \<Rightarrow> recovery \<Rightarrow> 's \<Rightarrow> (decode_error + snapshot) \<times> chain_heap \<times> recovery \<times> 's" where
  "restore_to L ids now be cid key trusted heap r store =
     (case restore_checks L be store cid (key \<noteq> None) trusted (live_chain heap r) of
        Inl e \<Rightarrow> (Inl e, heap, r, store)
      | Inr (snap, restored, b) \<Rightarrow>
          (case rebase L (fst ids) now b snap restored heap r store of
             (Inl e, store1) \<Rightarrow> (Inl (Fails e), heap, r, store1)
           | (Inr (c, archive, archived, heap1), store1) \<Rightarrow>
               (let r1 = r\<lparr>rl_chain := Some c, rl_history := cs_score_history snap\<rparr> in
                case bindS (recovery_record L (snd ids) now snap archive archived
                              (expected_previous L (heap1 ! c)) key)
                       (chain_append L (heap1 ! c)) of
                  Inl e \<Rightarrow> (Inl (Fails e), heap1, r1, store1)
                | Inr c' \<Rightarrow>
                    (Inr snap, heap1[c := c'],
                     r1\<lparr>rl_last_checkpoint := Some (cs_checkpoint_id snap)\<rparr>, store1))))"

end
