(* ===== verification/Recovery_Properties.thy ===== *)
theory Recovery_Properties
  imports Recovery
begin

text \<open>
  What the recovery layer guarantees: its score is bounded, a broken chain shows in the score but
  not always in the action, and a restore never loses a record of the attestation chain, over any
  backend that keeps the laws of the store interface.
\<close>

section \<open>Evaluation\<close>

lemma check_baseline_range:
  "check_baseline parse now ctx = Inr (x, h, a) \<Longrightarrow> 1 / 2 \<le> x \<and> x \<le> 1"
  by (auto simp: check_baseline_def baseline_score_def Let_def exn_simps bindS_def
      split: if_splits json.splits sum.splits)

lemma check_capabilities_range:
  "check_capabilities b p = (x, c, pr, un) \<Longrightarrow> 40 / 100 \<le> x \<and> x \<le> 1"
  by (auto simp: check_capabilities_def Let_def split: if_splits)

lemma check_chain_range: "check_chain L heap r = (x, i, n) \<Longrightarrow> 0 \<le> x \<and> x \<le> 1"
  by (auto simp: check_chain_def split: option.splits if_splits)

lemma check_degradation_range:
  assumes "check_degradation r = (x, s, t)" and "0 \<le> rl_threshold r"
  shows "0 \<le> x \<and> x \<le> 1"
  using assms
  by (auto simp: check_degradation_def Let_def split: if_splits
      intro!: round_to_unit_interval intro: order_trans [OF _ max.cobounded1])

lemma assess_recovery_cases:
  assumes "assess_recovery L parse now be store heap r profile ctx = Inr a"
  obtains base has_base age deg sustained trend cap capable present unbacked ch intact len where
    "check_baseline parse now ctx = Inr (base, has_base, age)"
    "check_degradation r = (deg, sustained, trend)"
    "check_capabilities (be \<noteq> None) profile = (cap, capable, present, unbacked)"
    "check_chain L heap r = (ch, intact, len)"
    "ra_score a = round_to 4 ((base + deg + cap + ch) / 4)"
    "ra_sustained a = sustained" "ra_chain_intact a = intact"
proof -
  obtain deg sustained trend where d: "check_degradation r = (deg, sustained, trend)" by (metis prod.exhaust)
  obtain cap capable present unbacked
    where c: "check_capabilities (be \<noteq> None) profile = (cap, capable, present, unbacked)"
    by (metis prod.exhaust)
  obtain ch intact len where h: "check_chain L heap r = (ch, intact, len)" by (metis prod.exhaust)
  from assms obtain base has_base age where b: "check_baseline parse now ctx = Inr (base, has_base, age)"
    by (auto simp: assess_recovery_def exn_simps)
  with assms d c h obtain cascade peers where "check_cascade r ctx = Inr (cascade, peers)"
    by (auto simp: assess_recovery_def exn_simps)
  with assms b d c h have "ra_score a = round_to 4 ((base + deg + cap + ch) / 4)"
    "ra_sustained a = sustained" "ra_chain_intact a = intact"
    by (auto simp: assess_recovery_def)
  with that b d c h show thesis by blast
qed

lemma recovery_score_bounded:
  assumes "recovery_evaluate L parse now be store heap r profile ctx = Inr res"
    and "0 \<le> rl_threshold r"
  shows "0 \<le> lr_score res" "lr_score res \<le> 1"
proof -
  from assms(1) obtain a where a: "assess_recovery L parse now be store heap r profile ctx = Inr a"
    "lr_score res = ra_score a"
    by (auto simp: recovery_evaluate_def exn_simps)
  from a(1) obtain base h age deg s t cap c p u ch i n
    where x: "check_baseline parse now ctx = Inr (base, h, age)" "check_degradation r = (deg, s, t)"
      "check_capabilities (be \<noteq> None) profile = (cap, c, p, u)" "check_chain L heap r = (ch, i, n)"
      "ra_score a = round_to 4 ((base + deg + cap + ch) / 4)"
    by (rule assess_recovery_cases)
  have "0 \<le> base" "base \<le> 1" using check_baseline_range [OF x(1)] by auto
  moreover have "0 \<le> deg" "deg \<le> 1" using check_degradation_range [OF x(2) assms(2)] by auto
  moreover have "0 \<le> cap" "cap \<le> 1" using check_capabilities_range [OF x(3)] by auto
  moreover have "0 \<le> ch" "ch \<le> 1" using check_chain_range [OF x(4)] by auto
  ultimately have "0 \<le> (base + deg + cap + ch) / 4" "(base + deg + cap + ch) / 4 \<le> 1" by simp_all
  from round_to_unit_interval [OF this, of 4] show "0 \<le> lr_score res" "lr_score res \<le> 1"
    by (simp_all add: a(2) x(5))
qed

text \<open>
  Sustained degradation is tested before the chain: a layer whose chain does not verify reports
  \<open>alert\<close>, not \<open>escalate\<close>, when the scores also fell.
\<close>

lemma degradation_masks_broken_chain:
  assumes "recovery_evaluate L parse now be store heap r profile ctx = Inr res"
    and "rl_chain r = Some c" and "\<not> verify_chain L (heap ! c)"
  shows "lr_action res = (if fst (snd (check_degradation r)) then ''alert'' else ''escalate'')"
proof -
  from assms(1) obtain a where a: "assess_recovery L parse now be store heap r profile ctx = Inr a"
    "lr_action res = recovery_action a"
    by (auto simp: recovery_evaluate_def exn_simps)
  from a(1) obtain s t i n deg ch where "check_degradation r = (deg, s, t)" "ra_sustained a = s"
    "check_chain L heap r = (ch, i, n)" "ra_chain_intact a = i"
    by (rule assess_recovery_cases) blast
  with a(2) assms(2,3) show ?thesis by (simp add: recovery_action_def check_chain_def)
qed

section \<open>Restoring\<close>

lemma restore_checks_cases:
  assumes "restore_checks L be store cid k trusted live = Inr (snap, restored, b)"
  shows "be = Some b" "be_load b cid store = Inr (Some snap)" "verify_chain L restored"
    "from_dict_list L (cs_chain_records snap) = Inr restored"
    "\<And>keys. trusted = Some keys \<Longrightarrow> \<exists>v. verify_signatures L restored (Some keys) = Inr (True, v)"
    "k \<or> list_all (\<lambda>q. signature q = None) (live @ restored)"
proof -
  from assms obtain b' snap' where b: "be = Some b'" "be_load b' cid store = Inr (Some snap')"
    by (auto simp: restore_checks_def exn_simps split: option.splits)
  note unf = assms [unfolded restore_checks_def b, simplified option.case b bindS_simps]
  from unf have kind: "field_or ''kind'' JNull (cs_metadata snap') \<noteq> JStr archive_kind"
    by (rule contrapos_pn) simp
  from unf kind obtain rs where rs: "from_dict_list L (cs_chain_records snap') = Inr rs"
    by (auto simp: exn_simps)
  from unf kind rs have ver: "verify_chain L rs" by (simp split: if_splits)
  from unf kind rs ver show "be = Some b" "be_load b cid store = Inr (Some snap)" "verify_chain L restored"
    "from_dict_list L (cs_chain_records snap) = Inr restored"
    "k \<or> list_all (\<lambda>q. signature q = None) (live @ restored)"
    using b by (auto simp: exn_simps list_all_iff list_ex_iff split: if_splits)
  from unf kind rs ver have eq: "restored = rs" by (auto simp: exn_simps split: if_splits)
  show "\<exists>v. verify_signatures L restored (Some keys) = Inr (True, v)" if "trusted = Some keys" for keys
    using unf kind rs ver that unfolding eq
    by (cases "verify_signatures L rs (Some keys)") (auto simp: lift_exn_def split: if_splits)
qed

lemma append_verifies:
  assumes "verify_chain L c" and "chain_append L c q = Inr c'"
  obtains q' where "c' = c @ [q']" "verify_chain L c'"
  using chain_append_cases [OF assms(2)] assms(1) by (metis verify_chain_linked linked_snoc)

lemma recovery_record_links:
  assumes "l_crypto L"
  obtains q where "recovery_record L uuid now snap ar n prev key = Inr q" "chain_previous q = prev"
  using assms
  by (cases key) (auto simp: recovery_record_def build_decision_record_def Let_def sign_def sign_canonical_def)

lemma append_linked: "chain_previous q = expected_previous L c \<Longrightarrow> \<exists>c'. chain_append L c q = Inr c'"
  by (simp add: chain_append_def)

context checkpoint_store
begin

text \<open>A restore that raises changes neither a chain, nor the layer, nor the store.\<close>

lemma restore_refused_unchanged:
  assumes s: "accepts fresh" "l_crypto L"
    and b: "be_save b = save t" "be_load b = load"
    and run: "restore_to L (fresh, uuid) now (Some b) cid key trusted heap r s = (Inl e, heap', r', s')"
  shows "heap' = heap \<and> r' = r \<and> s' = s"
proof (cases "restore_checks L (Some b) s cid (key \<noteq> None) trusted (live_chain heap r)")
  case (Inl x)
  then show ?thesis using run by (simp add: restore_to_def)
next
  case (Inr p)
  obtain snap restored b' where p: "p = (snap, restored, b')" by (cases p)
  note facts = restore_checks_cases [OF Inr [unfolded p]]
  have b': "b' = b" using facts(1) by simp
  obtain reb s1 where reb: "rebase L fresh now b snap restored heap r s = (reb, s1)" by (metis prod.exhaust)
  let ?arch = "\<lambda>c. archive_snapshot L fresh now snap (rl_history r) (heap ! c)"
  have saved: "fst (save t (?arch c) s) = Inr fresh" for c
    using save_result [of "?arch c" t s] s(1) by (simp add: archive_snapshot_def)
  show ?thesis
  proof (cases reb)
    case (Inl x)
    have "s1 = s"
      using reb saved facts(3) unfolding Inl rebase_def restart_from_def b(1)
      by (auto split: if_splits prod.splits sum.splits option.splits) (metis fst_conv sum.distinct(1))
    then show ?thesis using run Inr p reb Inl b' by (simp add: restore_to_def)
  next
    case x: (Inr x)
    obtain c0 ar n heap1 where x4: "x = (c0, ar, n, heap1)" by (metis prod.exhaust)
    obtain q where q: "recovery_record L uuid now snap ar n (expected_previous L (heap1 ! c0)) key = Inr q"
      "chain_previous q = expected_previous L (heap1 ! c0)"
      by (rule recovery_record_links [OF s(2)])
    from append_linked [OF q(2)] obtain c' where "chain_append L (heap1 ! c0) q = Inr c'" by blast
    then show ?thesis using run Inr p reb x x4 q(1) b' by (simp add: restore_to_def Let_def)
  qed
qed

text \<open>
  One restore over a store that keeps its laws: the chain bound to the layer verifies afterwards,
  and every record it had is still there, in the chain itself or in an archive of the store.
\<close>

lemma restore_keeps_records:
  assumes s: "valid s" "accepts fresh"
    and b: "be_save b = save t" "be_load b = load"
    and r: "rl_chain r = Some c" "c < length heap"
    and run: "restore_to L (fresh, uuid) now (Some b) cid key trusted heap r s = (Inr snap, heap', r', s')"
  shows "verify_chain L (heap' ! c) \<and> rl_chain r' = Some c \<and> rl_history r' = cs_score_history snap \<and>
     length heap' = length heap \<and> (\<forall>i. i \<noteq> c \<longrightarrow> heap' ! i = heap ! i) \<and>
     (if verify_chain L (heap ! c) then s' = s \<and> (\<exists>q. heap' ! c = heap ! c @ [q])
      else \<exists>a restored q. load fresh s' = Inr (Some a) \<and>
        value_equal a (archive_snapshot L fresh now snap (rl_history r) (heap ! c)) \<and>
        from_dict_list L (cs_chain_records snap) = Inr restored \<and>
        map record_id restored = map record_id (take (length restored) (heap ! c)) \<and>
        heap' ! c = restored @ [q])"
proof -
  from run obtain b' restored where chk:
    "restore_checks L (Some b) s cid (key \<noteq> None) trusted (live_chain heap r) = Inr (snap, restored, b')"
    by (auto simp: restore_to_def Let_def split: sum.splits prod.splits)
  note facts = restore_checks_cases [OF chk]
  have b': "b' = b" using facts(1) by simp
  from run chk obtain c0 archive archived heap1 s1 where reb:
    "rebase L fresh now b snap restored heap r s = (Inr (c0, archive, archived, heap1), s1)"
    by (auto simp: restore_to_def Let_def b' split: sum.splits prod.splits)
  have c0: "c0 = c" and len: "length heap1 = length heap" and oth: "\<forall>i. i \<noteq> c \<longrightarrow> heap1 ! i = heap ! i"
    using reb r by (auto simp: rebase_def restart_from_def split: if_splits prod.splits sum.splits)
  from run chk reb obtain q0 c' where
    app: "chain_append L (heap1 ! c) q0 = Inr c'" and out: "heap' = heap1[c := c']" "s' = s1"
      "r' = r\<lparr>rl_chain := Some c, rl_history := cs_score_history snap,
         rl_last_checkpoint := Some (cs_checkpoint_id snap)\<rparr>"
    by (auto simp: restore_to_def Let_def b' c0 exn_simps split: sum.splits)
  have c': "heap' ! c = c'" using out(1) len r(2) by simp
  show ?thesis
  proof (cases "verify_chain L (heap ! c)")
    case True
    then have "heap1 = heap" "s1 = s"
      using reb r(1) by (auto simp: rebase_def split: if_splits)
    with append_verifies [OF _ app] True obtain q where "c' = heap ! c @ [q]" "verify_chain L c'" by auto
    with True c' out oth \<open>heap1 = heap\<close> \<open>s1 = s\<close> show ?thesis by auto
  next
    case False
    then have pre: "is_prefix record_id restored (heap ! c)"
      and sv: "s1 = snd (save t (archive_snapshot L fresh now snap (rl_history r) (heap ! c)) s)"
      and h1: "heap1 = heap[c := restored]"
      using reb r(1) facts(3) b(1)
      by (auto simp: rebase_def restart_from_def split: if_splits prod.splits sum.splits)
    have id: "cs_checkpoint_id (archive_snapshot L fresh now snap (rl_history r) (heap ! c)) = fresh"
      by (simp add: archive_snapshot_def)
    from load_saved [OF s(1), of "archive_snapshot L fresh now snap (rl_history r) (heap ! c)" t]
    obtain a where a: "load fresh s1 = Inr (Some a)"
      "value_equal a (archive_snapshot L fresh now snap (rl_history r) (heap ! c))"
      unfolding id sv using s(2) by blast
    have "heap1 ! c = restored" using h1 r(2) by simp
    with append_verifies [OF _ app] facts(3) obtain q where q: "c' = restored @ [q]" "verify_chain L c'" by auto
    have "map record_id restored = map record_id (take (length restored) (heap ! c))"
      using pre by (simp add: is_prefix_def)
    moreover have "heap' ! i = heap ! i" if "i \<noteq> c" for i using that out(1) oth by simp
    ultimately show ?thesis using False a q c' out facts(4) len
      by (simp add: exI [of _ a] exI [of _ restored] exI [of _ q])
  qed
qed

end


section \<open>On the backends\<close>

definition memory_backend :: "memory_store backend" where
  "memory_backend = \<lparr>be_save = memory_save (), be_load = memory_load, be_list_ids = memory_list_ids\<rparr>"

definition file_backend :: "string \<times> int \<Rightarrow> directory backend" where
  "file_backend rt = \<lparr>be_save = file_save rt, be_load = file_load, be_list_ids = file_list_ids\<rparr>"

definition sql_backend :: "int \<Rightarrow> sql_table backend" where
  "sql_backend now = \<lparr>be_save = sql_save now, be_load = sql_load, be_list_ids = sql_list_ids\<rparr>"

text \<open>What a successful restore leaves of a chain \<open>c\<close> that was bound to the layer.\<close>

definition evidence_kept ::
  "'k lib \<Rightarrow> (string \<Rightarrow> decode_error + snapshot option) \<Rightarrow> string \<Rightarrow> string \<Rightarrow> snapshot \<Rightarrow> rat list \<Rightarrow> chain \<Rightarrow> chain
     \<Rightarrow> bool" where
  "evidence_kept L load fresh now snap history c c' \<longleftrightarrow> verify_chain L c' \<and>
     (if verify_chain L c then \<exists>q. c' = c @ [q]
      else \<exists>a restored q. load fresh = Inr (Some a) \<and>
        value_equal a (archive_snapshot L fresh now snap history c) \<and>
        from_dict_list L (cs_chain_records snap) = Inr restored \<and>
        map record_id restored = map record_id (take (length restored) c) \<and> c' = restored @ [q])"

text \<open>
  C18: a restore never loses a record of the attestation chain. Restoring a layer bound to a
  chain, with any of the three backends: a restore that raises changes nothing. A restore that
  succeeds leaves a chain that verifies and no other chain changed: an intact chain keeps every
  record and gains one; a chain that does not verify is loadable in full, as an archive, from the
  backend, and continues from the checkpoint's records, which are a prefix of it by record id.
\<close>

theorem restore_keeps_evidence:
  assumes "rl_chain r = Some c" and "c < length heap" and "l_crypto L" and "storage_identifier fresh"
    and "memory_valid m" and "directory_ok d" and "table_ok tab"
    and "restore_to L (fresh, uuid) now (Some memory_backend) cid key trusted heap r m = (res_m, heap_m, r_m, m')"
    and "restore_to L (fresh, uuid) now (Some (file_backend rt)) cid key trusted heap r d = (res_f, heap_f, r_f, d')"
    and "restore_to L (fresh, uuid) now (Some (sql_backend t)) cid key trusted heap r tab = (res_s, heap_s, r_s, tab')"
  shows "(case res_m of Inl e \<Rightarrow> heap_m = heap \<and> r_m = r \<and> m' = m
      | Inr snap \<Rightarrow> evidence_kept L (\<lambda>i. memory_load i m') fresh now snap (rl_history r) (heap ! c) (heap_m ! c)
          \<and> (\<forall>i. i \<noteq> c \<longrightarrow> heap_m ! i = heap ! i)) \<and>
     (case res_f of Inl e \<Rightarrow> heap_f = heap \<and> r_f = r \<and> d' = d
      | Inr snap \<Rightarrow> evidence_kept L (\<lambda>i. file_load i d') fresh now snap (rl_history r) (heap ! c) (heap_f ! c)
          \<and> (\<forall>i. i \<noteq> c \<longrightarrow> heap_f ! i = heap ! i)) \<and>
     (case res_s of Inl e \<Rightarrow> heap_s = heap \<and> r_s = r \<and> tab' = tab
      | Inr snap \<Rightarrow> evidence_kept L (\<lambda>i. sql_load i tab') fresh now snap (rl_history r) (heap ! c) (heap_s ! c)
          \<and> (\<forall>i. i \<noteq> c \<longrightarrow> heap_s ! i = heap ! i))"
proof (intro conjI)
  have m: "be_save memory_backend = memory_save ()" "be_load memory_backend = memory_load"
    by (simp_all add: memory_backend_def)
  show "case res_m of Inl e \<Rightarrow> heap_m = heap \<and> r_m = r \<and> m' = m
      | Inr snap \<Rightarrow> evidence_kept L (\<lambda>i. memory_load i m') fresh now snap (rl_history r) (heap ! c) (heap_m ! c)
          \<and> (\<forall>i. i \<noteq> c \<longrightarrow> heap_m ! i = heap ! i)"
    using memory.restore_refused_unchanged [OF TrueI assms(3) m, of fresh uuid now cid key trusted heap r m]
      memory.restore_keeps_records [OF assms(5) TrueI m assms(1,2), of L fresh uuid now cid key trusted] assms(8)
    by (cases res_m) (simp_all add: evidence_kept_def split: if_splits)
  have f: "be_save (file_backend rt) = file_save rt" "be_load (file_backend rt) = file_load"
    by (simp_all add: file_backend_def)
  show "case res_f of Inl e \<Rightarrow> heap_f = heap \<and> r_f = r \<and> d' = d
      | Inr snap \<Rightarrow> evidence_kept L (\<lambda>i. file_load i d') fresh now snap (rl_history r) (heap ! c) (heap_f ! c)
          \<and> (\<forall>i. i \<noteq> c \<longrightarrow> heap_f ! i = heap ! i)"
    using files.restore_refused_unchanged [OF assms(4,3) f, of uuid now cid key trusted heap r d]
      files.restore_keeps_records [OF assms(6,4) f assms(1,2), of L uuid now cid key trusted] assms(9)
    by (cases res_f) (simp_all add: evidence_kept_def split: if_splits)
  have s: "be_save (sql_backend t) = sql_save t" "be_load (sql_backend t) = sql_load"
    by (simp_all add: sql_backend_def)
  show "case res_s of Inl e \<Rightarrow> heap_s = heap \<and> r_s = r \<and> tab' = tab
      | Inr snap \<Rightarrow> evidence_kept L (\<lambda>i. sql_load i tab') fresh now snap (rl_history r) (heap ! c) (heap_s ! c)
          \<and> (\<forall>i. i \<noteq> c \<longrightarrow> heap_s ! i = heap ! i)"
    using sql.restore_refused_unchanged [OF TrueI assms(3) s, of fresh uuid now cid key trusted heap r tab]
      sql.restore_keeps_records [OF assms(7) TrueI s assms(1,2), of L fresh uuid now cid key trusted] assms(10)
    by (cases res_s) (simp_all add: evidence_kept_def split: if_splits)
qed


lemma sample_restore:
  "\<exists>heap' r' m'. restore_to sample_lib (''f'', ''u'') ''t'' (Some memory_backend) ''a'' None None [[]]
     (make_recovery 10 (15 / 100) (Some 0) None) [(''a'', sample_snapshot ''a'')] =
     (Inr (sample_snapshot ''a''), heap', r', m')"
proof -
  obtain q where q: "recovery_record sample_lib ''u'' ''t'' (sample_snapshot ''a'') None 0 None None = Inr q"
    "chain_previous q = None"
    by (rule recovery_record_links [OF sample_lib_simps(3)])
  let ?be = memory_backend and ?r = "make_recovery 10 (15 / 100) (Some 0) None"
  let ?m = "[(''a'', sample_snapshot ''a'')]"
  have snap: "cs_chain_records (sample_snapshot i) = []" "cs_metadata (sample_snapshot i) = []" for i
    by (simp_all add: sample_snapshot_def)
  have empty: "verify_chain sample_lib []" "is_prefix k [] []" "expected_previous sample_lib [] = None" for k
    by (simp_all add: verify_chain_def verify_chain_detailed_def is_prefix_def expected_previous_def)
  have r: "rl_chain (make_recovery w t c h) = c" for w t c h by (simp add: make_recovery_def)
  have "restore_checks sample_lib (Some ?be) ?m ''a'' False None (live_chain [[]] ?r) =
      Inr (sample_snapshot ''a'', [], ?be)"
    by (simp add: restore_checks_def memory_backend_def memory_load_def live_chain_def r snap empty
        from_dict_list_def field_or_def)
  moreover have "rebase sample_lib ''f'' ''t'' ?be (sample_snapshot ''a'') [] [[]] ?r ?m =
      (Inr (0, None, 0, [[]]), ?m)"
    by (simp add: rebase_def r empty)
  ultimately show ?thesis
    using q by (simp add: restore_to_def Let_def empty chain_append_def)
qed

lemma restore_keeps_evidence_witness:
  "\<exists>heap' r' m'. restore_to sample_lib (''f'', ''u'') ''t'' (Some memory_backend) ''a'' None None [[]]
     (make_recovery 10 (15 / 100) (Some 0) None) [(''a'', sample_snapshot ''a'')] =
     (Inr (sample_snapshot ''a''), heap', r', m') \<and> verify_chain sample_lib (heap' ! 0)"
proof -
  let ?r = "make_recovery 10 (15 / 100) (Some 0) None"
  from sample_restore obtain heap' r' m' where run: "restore_to sample_lib (''f'', ''u'') ''t''
     (Some memory_backend) ''a'' None None [[]] ?r [(''a'', sample_snapshot ''a'')] =
     (Inr (sample_snapshot ''a''), heap', r', m')" by blast
  obtain res_f heap_f r_f d' where f: "restore_to sample_lib (''f'', ''u'') ''t''
     (Some (file_backend (''x'', 0))) ''a'' None None [[]] ?r [] = (res_f, heap_f, r_f, d')"
    by (rule prod_cases4)
  obtain res_s heap_s r_s tab' where t: "restore_to sample_lib (''f'', ''u'') ''t''
     (Some (sql_backend 0)) ''a'' None None [[]] ?r [] = (res_s, heap_s, r_s, tab')"
    by (rule prod_cases4)
  have "rl_chain ?r = Some 0" "(0 :: nat) < length [[]]" "l_crypto sample_lib" "storage_identifier ''f''"
    "memory_valid [(''a'', sample_snapshot ''a'')]" "directory_ok []" "table_ok []"
    by (simp_all add: make_recovery_def storage_identifier_def identifier_text_def identifier_char_def
        memory_valid_def sample_snapshot_def directory_ok_def table_ok_def)
  from restore_keeps_evidence [OF this run f t] have "verify_chain sample_lib (heap' ! 0)"
    by (simp add: evidence_kept_def)
  with run show ?thesis by blast
qed

end
