(* ===== verification/Governance_Properties.thy ===== *)
theory Governance_Properties
  imports Governance
begin

text \<open>
  What the governance layer guarantees: its decision is the strongest the triggered rules ask for
  and a failing rule never lets an action pass, gated tools escalate under every name they have,
  the score is bounded, and the audit log only grows, by one hashed entry for each decision.
\<close>

section \<open>Rules\<close>

text \<open>The value of a rule's condition in one evaluation of the layer.\<close>

definition condition_in ::
  "'w governance \<Rightarrow> agent_profile \<Rightarrow> args \<Rightarrow> policy_rule \<Rightarrow> exn + bool" where
  "condition_in g profile context r =
     (let ctx = layer_context g context
      in pr_condition r profile (field_or ''action'' (JObj []) ctx) ctx)"

definition evaluations_in ::
  "'w governance \<Rightarrow> agent_profile \<Rightarrow> args \<Rightarrow> policy_evaluation list" where
  "evaluations_in g profile context =
     (let ctx = layer_context g context
      in map (\<lambda>r. rule_evaluate r profile (field_or ''action'' (JObj []) ctx) ctx) (gl_rules g))"

lemma rule_evaluate_triggered:
  "pe_triggered (rule_evaluate r p a c) \<longleftrightarrow> pr_condition r p a c \<noteq> Inr False"
  by (auto simp: rule_evaluate_def split: sum.splits)

lemma rule_evaluate_deny:
  "pe_triggered (rule_evaluate r p a c) \<and> pe_decision (rule_evaluate r p a c) = DENY \<longleftrightarrow>
     pr_condition r p a c = Inr True \<and> pr_decision r = DENY"
  by (auto simp: rule_evaluate_def split: sum.splits)

lemma rule_evaluate_approval:
  "pe_triggered (rule_evaluate r p a c) \<and> pe_decision (rule_evaluate r p a c) = REQUIRE_APPROVAL \<longleftrightarrow>
     isl (pr_condition r p a c) \<or> pr_condition r p a c = Inr True \<and> pr_decision r = REQUIRE_APPROVAL"
  by (auto simp: rule_evaluate_def split: sum.splits)

lemma denials_in:
  "denials (evaluations_in g p c) \<noteq> [] \<longleftrightarrow>
     (\<exists>r \<in> set (gl_rules g). condition_in g p c r = Inr True \<and> pr_decision r = DENY)"
  by (simp add: denials_def evaluations_in_def condition_in_def Let_def filter_empty_conv
      rule_evaluate_deny)

lemma approvals_in:
  "approvals (evaluations_in g p c) \<noteq> [] \<longleftrightarrow>
     (\<exists>r \<in> set (gl_rules g). isl (condition_in g p c r)
        \<or> condition_in g p c r = Inr True \<and> pr_decision r = REQUIRE_APPROVAL)"
  by (simp add: approvals_def evaluations_in_def condition_in_def Let_def filter_empty_conv
      rule_evaluate_approval)

lemma triggered_in:
  "filter pe_triggered (evaluations_in g p c) \<noteq> [] \<longleftrightarrow>
     (\<exists>r \<in> set (gl_rules g). condition_in g p c r \<noteq> Inr False)"
  by (simp add: evaluations_in_def condition_in_def Let_def filter_empty_conv
      rule_evaluate_triggered)

lemma escalate_all_raises: "fst (escalate_all cb p a es w) = Some x \<Longrightarrow> es \<noteq> []"
  by (cases es) auto

text \<open>The outcome of an evaluation, over the evaluations of its rules.\<close>

lemma governance_evaluate_cases:
  assumes "governance_evaluate L now profile context g w = (res, g', w')"
  obtains (raised) x where "res = Inl x" "g' = g" "gl_callback g \<noteq> None"
      "final_action (evaluations_in g profile context) = ''escalate''"
  | (decided) "res = Inr (governance_result g (evaluations_in g profile context))"
      "g' = (if gl_enable_audit g
             then write_audit L now g profile (field_or ''action'' (JObj []) (layer_context g context))
                    (evaluations_in g profile context)
                    (final_action (evaluations_in g profile context))
             else g)"
proof -
  let ?ctx = "layer_context g context"
  let ?a = "field_or ''action'' (JObj []) ?ctx"
  let ?es = "evaluations_in g profile context"
  define esc where "esc = (case gl_callback g of
             None \<Rightarrow> (None, w)
           | Some cb \<Rightarrow> if final_action ?es = ''escalate''
                        then escalate_all cb profile ?a (approvals ?es) w else (None, w))"
  obtain raised w1 where esc: "esc = (raised, w1)" by (cases esc)
  have ev: "governance_evaluate L now profile context g w =
      (case raised of Some x \<Rightarrow> (Inl x, g, w1)
         | None \<Rightarrow> (Inr (governance_result g ?es),
              if gl_enable_audit g then write_audit L now g profile ?a ?es (final_action ?es) else g, w1))"
    using esc unfolding esc_def governance_evaluate_def evaluations_in_def Let_def by simp
  show thesis
  proof (cases raised)
    case None
    then show thesis using ev assms decided by simp
  next
    case (Some x)
    then have "gl_callback g \<noteq> None" "final_action ?es = ''escalate''"
      using esc by (auto simp: esc_def split: option.splits if_splits)
    then show thesis using ev assms raised Some by simp
  qed
qed

text \<open>
  C11: the decision of the governance layer is the strongest one its triggered rules ask for:
  \<open>block\<close> exactly when some denying rule is triggered; otherwise \<open>escalate\<close> exactly when some
  rule requires approval or raised an exception; otherwise \<open>alert\<close> exactly when some rule is
  triggered; otherwise \<open>pass\<close>. The layer passes exactly when no rule raised and no denying or
  approval rule is triggered, so a failing rule never lets an action through.
\<close>

theorem governance_decision_exact:
  assumes "governance_evaluate L now profile context g w = (Inr res, g', w')"
  shows "lr_action res =
     (if \<exists>r \<in> set (gl_rules g). condition_in g profile context r = Inr True \<and> pr_decision r = DENY
      then ''block''
      else if \<exists>r \<in> set (gl_rules g). isl (condition_in g profile context r)
        \<or> condition_in g profile context r = Inr True \<and> pr_decision r = REQUIRE_APPROVAL
      then ''escalate''
      else if \<exists>r \<in> set (gl_rules g). condition_in g profile context r = Inr True then ''alert''
      else ''pass'') \<and>
     (lr_passed res \<longleftrightarrow> (\<forall>r \<in> set (gl_rules g). \<exists>b. condition_in g profile context r = Inr b
        \<and> (b \<longrightarrow> pr_decision r \<notin> {DENY, REQUIRE_APPROVAL})))"
proof -
  from assms have res: "res = governance_result g (evaluations_in g profile context)"
    by (elim governance_evaluate_cases) simp_all
  have act: "lr_action res = final_action (evaluations_in g profile context)"
    by (simp add: res governance_result_def Let_def)
  have pass: "lr_passed res \<longleftrightarrow> denials (evaluations_in g profile context) = []
      \<and> approvals (evaluations_in g profile context) = []"
    by (simp add: res governance_result_def Let_def final_action_def)
  have alert: "(\<exists>r \<in> set (gl_rules g). condition_in g profile context r \<noteq> Inr False) \<longleftrightarrow>
      (\<exists>r \<in> set (gl_rules g). condition_in g profile context r = Inr True)"
    if "\<not> (\<exists>r \<in> set (gl_rules g). isl (condition_in g profile context r)
        \<or> condition_in g profile context r = Inr True \<and> pr_decision r = REQUIRE_APPROVAL)"
  proof -
    have "condition_in g profile context r \<noteq> Inr False \<longleftrightarrow> condition_in g profile context r = Inr True"
      if "r \<in> set (gl_rules g)" for r
      using that \<open>\<not> (\<exists>r \<in> set (gl_rules g). _ r)\<close> by (cases "condition_in g profile context r") auto
    then show ?thesis by blast
  qed
  have first: "lr_action res =
     (if \<exists>r \<in> set (gl_rules g). condition_in g profile context r = Inr True \<and> pr_decision r = DENY
      then ''block''
      else if \<exists>r \<in> set (gl_rules g). isl (condition_in g profile context r)
        \<or> condition_in g profile context r = Inr True \<and> pr_decision r = REQUIRE_APPROVAL
      then ''escalate''
      else if \<exists>r \<in> set (gl_rules g). condition_in g profile context r = Inr True then ''alert''
      else ''pass'')"
    unfolding act final_action_def denials_in approvals_in triggered_in
    by (intro if_cong refl alert)
  have point: "(\<exists>b. x = Inr b \<and> (b \<longrightarrow> d \<notin> {DENY, REQUIRE_APPROVAL})) \<longleftrightarrow>
      \<not> (x = Inr True \<and> d = DENY) \<and> \<not> (isl x \<or> x = Inr True \<and> d = REQUIRE_APPROVAL)"
    for x :: "exn + bool" and d
    by (cases x) auto
  have "lr_passed res \<longleftrightarrow>
      \<not> (\<exists>r \<in> set (gl_rules g). condition_in g profile context r = Inr True \<and> pr_decision r = DENY) \<and>
      \<not> (\<exists>r \<in> set (gl_rules g). isl (condition_in g profile context r)
        \<or> condition_in g profile context r = Inr True \<and> pr_decision r = REQUIRE_APPROVAL)"
    unfolding denials_in [symmetric] approvals_in [symmetric] pass by simp
  then have "lr_passed res \<longleftrightarrow> (\<forall>r \<in> set (gl_rules g). \<exists>b. condition_in g profile context r = Inr b
        \<and> (b \<longrightarrow> pr_decision r \<notin> {DENY, REQUIRE_APPROVAL}))"
    unfolding point by blast
  with first show ?thesis by blast
qed


text \<open>A high-risk agent under the enterprise policies, and a call of a gated MCP tool.\<close>

definition risky_profile :: agent_profile where
  "risky_profile = (default_profile ''a'' ''t0'' ''agent'')\<lparr>ap_risk_tier := HIGH\<rparr>"

definition sample_governance :: "unit governance" where
  "sample_governance = make_governance ''enterprise-default'' None True None (Some [''file_delete''])
     False None None 1000"

definition mcp_delete :: args where
  "mcp_delete = [(''action'', JObj [(''type'', JStr ''tool_call''), (''tool'', JStr ''mcp__fs__file_delete'')])]"

lemma sample_governance_returns:
  obtains g' where "governance_evaluate sample_lib ''t1'' risky_profile mcp_delete sample_governance () =
     (Inr (governance_result sample_governance
        (evaluations_in sample_governance risky_profile mcp_delete)), g', ())"
  by (simp add: governance_evaluate_def evaluations_in_def Let_def sample_governance_def
      make_governance_def)

lemma sample_governance_fires:
  "\<exists>r \<in> set (gl_rules sample_governance).
     condition_in sample_governance risky_profile mcp_delete r = Inr True"
  by (rule bexI [of _ "hd enterprise_rules"])
    (simp_all add: sample_governance_def make_governance_def default_policies_def enterprise_rules_def
      policy_rule_of_def condition_in_def Let_def rule_high_risk_tool_access_def layer_context_def
      setdefault_def mcp_delete_def field_or_def risky_profile_def default_profile_def or_json_def
      tool_name_matches_names [of _ "[''file_delete'']", simplified] mcp_suffix_def)

lemma governance_decision_exact_witness:
  "\<exists>res g'. governance_evaluate sample_lib ''t1'' risky_profile mcp_delete sample_governance () =
     (Inr res, g', ()) \<and> lr_action res = ''escalate'' \<and> \<not> lr_passed res"
proof -
  obtain g' where ev: "governance_evaluate sample_lib ''t1'' risky_profile mcp_delete
     sample_governance () = (Inr (governance_result sample_governance
        (evaluations_in sample_governance risky_profile mcp_delete)), g', ())" (is "_ = (Inr ?res, _, _)")
    by (rule sample_governance_returns)
  have req: "pr_decision r = REQUIRE_APPROVAL" if "r \<in> set (gl_rules sample_governance)" for r
    using that by (auto simp: sample_governance_def make_governance_def default_policies_def
        enterprise_rules_def policy_rule_of_def)
  have "lr_action ?res = ''escalate''" and "\<not> lr_passed ?res"
    using governance_decision_exact [OF ev] sample_governance_fires req by (auto split: if_splits)
  with ev show ?thesis by blast
qed

section \<open>Gated tools\<close>

text \<open>The names under which an operator's entry gates a tool.\<close>

definition gated_name :: "string list \<Rightarrow> string \<Rightarrow> bool" where
  "gated_name tools t \<longleftrightarrow> t \<noteq> [] \<and> (t \<in> set tools
     \<or> (\<exists>p. list_all plain_char p \<and> p @ ''*'' \<in> set tools \<and> prefix p t)
     \<or> (\<exists>server bare. \<not> contains ''__'' (server @ ''_'') \<and> bare \<in> set tools
          \<and> t = ''mcp__'' @ server @ ''__'' @ bare))"

lemma mcp_suffix_namespaced:
  "\<not> contains ''__'' (server @ ''_'') \<Longrightarrow> mcp_suffix (''mcp__'' @ server @ ''__'' @ bare) = Some bare"
  using after_sep_append [of server bare] by (simp add: mcp_suffix_def)

lemma gated_name_matches:
  assumes "gated_name tools t"
  shows "tool_name_matches (JStr t) (names tools) = Inr True"
proof -
  have "is_glob (p @ ''*'')" for p by (simp add: is_glob_def)
  with assms show ?thesis
    unfolding tool_name_matches_names gated_name_def
    using fnmatchcase_prefix mcp_suffix_namespaced by blast
qed

lemma field_or_setdefault:
  "field_or k v (setdefault k' v' d) =
     (if k = k' \<and> k \<notin> fst ` set d then v' else field_or k v d)"
proof (cases "map_of d k")
  case None
  then have "k \<notin> fst ` set d" by (simp add: map_of_None_iff)
  with map_of_eq_None_iff [of d k'] show ?thesis
    by (cases "k = k'") (simp_all add: setdefault_def field_or_def map_add_def None)
next
  case (Some w)
  then have "k \<in> fst ` set d" by (metis map_of_eq_None_iff option.distinct(1))
  then show ?thesis by (simp add: setdefault_def field_or_def map_add_def Some)
qed

lemma keys_setdefault [simp]: "fst ` set (setdefault k v d) = insert k (fst ` set d)"
  by (auto simp: setdefault_def)

lemma field_or_setdefaults:
  "k \<notin> fst ` set ds \<Longrightarrow> field_or k v (foldl (\<lambda>d (k, v). setdefault k v d) d ds) = field_or k v d"
  by (induction ds arbitrary: d) (auto simp: field_or_setdefault)

definition deployment_keys :: "string list" where
  "deployment_keys = [''sandbox'', ''code_execution_tools'', ''financial_tools'', ''financial_threshold'']"

lemma layer_context_other:
  assumes "dict_keys (gl_defaults g) = deployment_keys" and "k \<notin> set deployment_keys"
  shows "field_or k v (layer_context g c) =
     (if k = ''sensitive_tools'' \<and> k \<notin> fst ` set c then gl_sensitive_tools g else field_or k v c)"
proof -
  have "k \<notin> fst ` set (gl_defaults g)" using assms by (metis list.set_map)
  then show ?thesis by (simp add: layer_context_def field_or_setdefaults field_or_setdefault)
qed

lemma make_governance_defaults:
  "dict_keys (gl_defaults (make_governance p c a cb s sb ct ft th)) = deployment_keys"
  by (simp add: make_governance_def deployment_keys_def)

lemma high_risk_rule_fires:
  assumes "rule_high_risk_tool_access \<in> pr_condition ` set (gl_rules g)"
    and "dict_keys (gl_defaults g) = deployment_keys"
    and "gl_sensitive_tools g = names tools" and "''sensitive_tools'' \<notin> fst ` set c"
    and "ap_risk_tier profile \<in> {HIGH, CRITICAL}"
    and "field_or ''action'' (JObj []) c = JObj a" and "field_or ''tool'' (JStr []) a = JStr t"
    and "gated_name tools t"
  obtains r where "r \<in> set (gl_rules g)" "pr_condition r = rule_high_risk_tool_access"
    "condition_in g profile c r = Inr True"
proof -
  from assms(1) obtain r where r: "r \<in> set (gl_rules g)" "pr_condition r = rule_high_risk_tool_access"
    by auto
  have ne: "tools \<noteq> []" using assms(8) by (auto simp: gated_name_def)
  have keys: "''sensitive_tools'' \<notin> set deployment_keys" "''action'' \<notin> set deployment_keys"
    by (simp_all add: deployment_keys_def)
  have "condition_in g profile c r = Inr True"
    using r(2) ne assms(3-7) gated_name_matches [OF assms(8)]
    by (simp add: condition_in_def Let_def rule_high_risk_tool_access_def or_json_def
        layer_context_other [OF assms(2) keys(1)] layer_context_other [OF assms(2) keys(2)])
  with r that show thesis by blast
qed

text \<open>
  C12: an agent of high or critical risk cannot pass a gated tool through the default policies.
  Under the enterprise policy set, extended with any custom rules, an action on a tool that an
  operator's entry gates (by its exact name, by a glob \<open>prefix*\<close>, or by its bare name behind an
  MCP namespace) either is decided \<open>block\<close> or \<open>escalate\<close> and not passed, or is not decided at
  all because the escalation callback raised.
\<close>

theorem gated_tool_never_passes:
  assumes "g = foldr add_rule extra
      (make_governance ''enterprise-default'' custom audit cb (Some tools) sandboxed ct ft th)"
    and "''sensitive_tools'' \<notin> fst ` set c"
    and "ap_risk_tier profile \<in> {HIGH, CRITICAL}"
    and "field_or ''action'' (JObj []) c = JObj a" and "field_or ''tool'' (JStr []) a = JStr t"
    and "gated_name tools t"
    and "governance_evaluate L now profile c g w = (res, g', w')"
  shows "case res of Inl e \<Rightarrow> cb \<noteq> None
     | Inr r \<Rightarrow> \<not> lr_passed r \<and> lr_action r \<in> {''block'', ''escalate''}"
proof -
  let ?g0 = "make_governance ''enterprise-default'' custom audit cb (Some tools) sandboxed ct ft th"
  have fold: "gl_rules (foldr add_rule extra ?g0) = gl_rules ?g0 @ rev extra"
    "gl_defaults (foldr add_rule extra ?g0) = gl_defaults ?g0"
    "gl_sensitive_tools (foldr add_rule extra ?g0) = gl_sensitive_tools ?g0"
    "gl_callback (foldr add_rule extra ?g0) = gl_callback ?g0"
    by (induction extra) (simp_all add: add_rule_def)
  let ?r1 = "policy_rule_of ''GOV-001'' ''High-Risk Tool Access''
        ''High/critical risk agents require approval for sensitive tool use''
        rule_high_risk_tool_access (70 / 100)"
  have r1: "?r1 \<in> set (gl_rules g)" "pr_condition ?r1 = rule_high_risk_tool_access"
    "pr_decision ?r1 = REQUIRE_APPROVAL"
    unfolding assms(1) fold
    by (simp_all add: make_governance_def default_policies_def enterprise_rules_def policy_rule_of_def)
  have g: "dict_keys (gl_defaults g) = deployment_keys" "gl_sensitive_tools g = names tools"
    "gl_callback g = cb"
    unfolding assms(1) fold make_governance_defaults by (simp_all add: make_governance_def)
  from r1 have "rule_high_risk_tool_access \<in> pr_condition ` set (gl_rules g)" by (metis image_eqI)
  from high_risk_rule_fires [OF this g(1,2) assms(2-6)] obtain r
    where r: "pr_condition r = rule_high_risk_tool_access" "condition_in g profile c r = Inr True" by blast
  with r1(2) have "condition_in g profile c ?r1 = Inr True" by (simp add: condition_in_def)
  with r1 have app: "approvals (evaluations_in g profile c) \<noteq> []" unfolding approvals_in by blast
  from assms(7) show ?thesis
  proof (cases rule: governance_evaluate_cases)
    case raised
    with g(3) show ?thesis by simp
  next
    case decided
    with app show ?thesis by (simp add: governance_result_def Let_def final_action_def)
  qed
qed

lemma gated_tool_never_passes_witness:
  "\<exists>r g'. governance_evaluate sample_lib ''t1'' risky_profile mcp_delete sample_governance () =
     (Inr r, g', ()) \<and> \<not> lr_passed r \<and> lr_action r \<in> {''block'', ''escalate''}"
proof -
  obtain g' where ev: "governance_evaluate sample_lib ''t1'' risky_profile mcp_delete
     sample_governance () = (Inr (governance_result sample_governance
        (evaluations_in sample_governance risky_profile mcp_delete)), g', ())"
    by (rule sample_governance_returns)
  have "gated_name [''file_delete''] ''mcp__fs__file_delete''"
    unfolding gated_name_def
    by (intro conjI disjI2 exI [of _ "''fs''"] exI [of _ "''file_delete''"])
      (simp_all add: contains_def sublist_Cons_right)
  note never = gated_tool_never_passes [OF _ _ _ _ _ this ev, of "[]" None True None False None
      None 1000 "[(''type'', JStr ''tool_call''), (''tool'', JStr ''mcp__fs__file_delete'')]"]
  have "case (Inr (governance_result sample_governance (evaluations_in sample_governance
        risky_profile mcp_delete)) :: exn + layer_result) of Inl e \<Rightarrow> (None :: unit escalation option) \<noteq> None
     | Inr r \<Rightarrow> \<not> lr_passed r \<and> lr_action r \<in> {''block'', ''escalate''}"
    by (rule never) (simp_all add: sample_governance_def mcp_delete_def risky_profile_def field_or_def)
  with ev show ?thesis by simp
qed

section \<open>The audit log\<close>

text \<open>
  The entries are numbered by position and each carries the hash of its own agent, action,
  evaluations and decision. The hash covers neither the entry's number nor its timestamp, and no
  entry names its predecessor.
\<close>

definition entry_ok :: "'k lib \<Rightarrow> nat \<Rightarrow> audit_entry \<Rightarrow> bool" where
  "entry_ok L i e \<longleftrightarrow> ae_entry_id e = ''audit-'' @ nat_text (i + 1) \<and>
     (\<exists>action. ae_action e = dumps '', '' '': '' (l_float L) action \<and>
        ae_content_hash e = audit_hash L (ae_agent_id e) action (ae_evaluations e) (ae_decision e))"

definition audit_ok :: "'k lib \<Rightarrow> 'w governance \<Rightarrow> bool" where
  "audit_ok L g \<longleftrightarrow> (\<forall>i < length (gl_audit_log g). entry_ok L i (gl_audit_log g ! i))"

lemma audit_ok_make [wf_intros]: "audit_ok L (make_governance p c a cb s sb ct ft th)"
  by (simp add: audit_ok_def make_governance_def)

lemma audit_ok_distinct: "audit_ok L g \<Longrightarrow> distinct (map ae_entry_id (gl_audit_log g))"
  by (auto simp: audit_ok_def entry_ok_def distinct_conv_nth dest: nat_text_inj)

lemma audit_ok_write [wf_intros]:
  assumes "audit_ok L g"
  shows "audit_ok L (write_audit L now g profile action es decision)"
  using assms by (auto simp: audit_ok_def write_audit_def entry_ok_def nth_append less_Suc_eq)

text \<open>
  the audit log is append-only and its entries are numbered and hashed. Every evaluation keeps
  the entries already there; one that decides, with auditing on, appends exactly one entry, for
  this agent, time and decision; one that ends in an exception of the callback appends none. The
  entries stay numbered by position, with pairwise distinct identifiers and correct hashes.
\<close>

theorem audit_log_grows:
  assumes "audit_ok L g" and "governance_evaluate L now profile c g w = (res, g', w')"
  shows "audit_ok L g' \<and> distinct (map ae_entry_id (gl_audit_log g')) \<and>
     (case res of
        Inl e \<Rightarrow> g' = g
      | Inr r \<Rightarrow> if gl_enable_audit g
          then (\<exists>e. gl_audit_log g' = gl_audit_log g @ [e] \<and> ae_decision e = lr_action r \<and>
                  ae_agent_id e = ap_agent_id profile \<and> ae_timestamp e = now)
          else g' = g)"
  using assms(2)
proof (cases rule: governance_evaluate_cases)
  case raised
  then show ?thesis using assms(1) audit_ok_distinct [OF assms(1)] by simp
next
  case decided
  have "audit_ok L g'" unfolding decided(2) using assms(1) by (simp add: audit_ok_write)
  with audit_ok_distinct [OF this] show ?thesis
    unfolding decided by (simp add: write_audit_def governance_result_def Let_def)
qed

lemma audit_log_grows_witness:
  "\<exists>res g'. governance_evaluate sample_lib ''t1'' risky_profile mcp_delete sample_governance () =
     (Inr res, g', ()) \<and> length (gl_audit_log g') = 1 \<and> audit_ok sample_lib g'"
proof -
  obtain g' where ev: "governance_evaluate sample_lib ''t1'' risky_profile mcp_delete
     sample_governance () = (Inr (governance_result sample_governance
        (evaluations_in sample_governance risky_profile mcp_delete)), g', ())"
    by (rule sample_governance_returns)
  have "audit_ok sample_lib sample_governance" unfolding sample_governance_def by (rule audit_ok_make)
  from audit_log_grows [OF this ev] have "length (gl_audit_log g') = 1 \<and> audit_ok sample_lib g'"
    by (auto simp: sample_governance_def make_governance_def)
  with ev show ?thesis by blast
qed

section \<open>The score\<close>

lemma impact_nonneg:
  assumes "list_all (\<lambda>r. 0 \<le> pr_severity r) rules"
  shows "0 \<le> violation_impact rules es"
  using assms by (auto simp: violation_impact_def list_all_iff intro!: sum_list_nonneg)

lemma governance_score_bounds:
  assumes "list_all (\<lambda>r. 0 \<le> pr_severity r) rules"
  shows "0 \<le> governance_score rules es" "governance_score rules es \<le> 1"
proof -
  have "0 \<le> (if 0 < max_impact rules then violation_impact rules es / max_impact rules else 0)"
    using impact_nonneg [OF assms, of es] by simp
  then show "0 \<le> governance_score rules es" "governance_score rules es \<le> 1"
    unfolding governance_score_def by (auto intro!: round_to_unit_interval)
qed

lemma governance_score_clean:
  assumes "list_all (\<lambda>e. \<not> pe_triggered e) es"
  shows "governance_score rules es = 1"
proof -
  have "filter (\<lambda>e. pe_rule_id e = i \<and> pe_triggered e) es = []" for i
    using assms by (auto simp: filter_empty_conv list_all_iff)
  then have "violation_impact rules es = 0"
    by (induction rules) (simp_all add: violation_impact_def)
  then show ?thesis
    by (simp add: governance_score_def round_to_def round_half_even_of_int [of 10000, simplified])
qed

end
