(* ===== verification/Approval.thy ===== *)
theory Approval
  imports Attestation_Chain Profile
begin

text \<open>
  Human approval of escalated actions (core/approval.py). A handler is an outside callable: it
  answers with a value or a full decision, raises, or does not answer while the caller waits.
  \<open>TimeoutError\<close> stands for \<open>concurrent.futures.TimeoutError\<close>, which since Python 3.11 is the
  built-in \<open>TimeoutError\<close>: raised by the handler itself, it is taken for a timeout.
\<close>

section \<open>Decisions\<close>

record approval_decision =
  ad_approved :: bool
  ad_approver :: string
  ad_reason :: "string option"
  ad_timed_out :: bool
  ad_requested_at :: rat
  ad_resolved_at :: rat

definition provenance_steps :: "approval_decision \<Rightarrow> string list" where
  "provenance_steps d =
     [''outcome:'' @ (if ad_approved d then ''approved'' else ''denied''),
      ''approver:'' @ ad_approver d,
      ''timed_out:'' @ (if ad_timed_out d then ''true'' else ''false''),
      ''requested_at:'' @ fixed3 (ad_requested_at d),
      ''resolved_at:'' @ fixed3 (ad_resolved_at d)] @
     (if str_truthy (ad_reason d) then [''reason:'' @ the (ad_reason d)] else [])"

text \<open>What a handler returns, and how a call of it ends. \<open>Plain\<close> is any value but a decision.\<close>

datatype reply = Plain json | Rich approval_decision

datatype outcome = Returned reply | Raises exn | Unanswered

type_synonym 'w handler = "agent_profile \<Rightarrow> integrity_score \<Rightarrow> args option \<Rightarrow> 'w \<Rightarrow> outcome \<times> 'w"

type_synonym 'w clock = "'w \<Rightarrow> rat \<times> 'w"

definition plain_decision :: "bool \<Rightarrow> string \<Rightarrow> string option \<Rightarrow> rat \<Rightarrow> rat \<Rightarrow> approval_decision" where
  "plain_decision ok approver reason t0 t1 = \<lparr>ad_approved = ok, ad_approver = approver,
     ad_reason = reason, ad_timed_out = False, ad_requested_at = t0, ad_resolved_at = t1\<rparr>"

section \<open>Direct resolution\<close>

text \<open>
  \<open>resolve_approval\<close> waits for the handler without a bound: \<open>None\<close> is a call that never returns.
  The two timestamps of a fresh decision are two reads of the clock.
\<close>

definition fresh_decision ::
  "'w clock \<Rightarrow> bool \<Rightarrow> string option \<Rightarrow> 'w \<Rightarrow> approval_decision \<times> 'w" where
  "fresh_decision time ok reason w =
     (let (t0, w1) = time w; (t1, w2) = time w1
      in (plain_decision ok ''approval_handler'' reason t0 t1, w2))"

definition resolve_approval ::
  "'w clock \<Rightarrow> 'w handler \<Rightarrow> agent_profile \<Rightarrow> integrity_score \<Rightarrow> args option \<Rightarrow> 'w
     \<Rightarrow> (approval_decision \<times> 'w) option" where
  "resolve_approval time h profile score action w =
     (case h profile score action w of
        (Raises e, w1) \<Rightarrow> Some (fresh_decision time False (Some (''handler raised '' @ exn_class e)) w1)
      | (Returned (Rich d), w1) \<Rightarrow> Some (d, w1)
      | (Returned (Plain v), w1) \<Rightarrow> Some (fresh_decision time (truthy v) None w1)
      | (Unanswered, w1) \<Rightarrow> None)"

section \<open>The workflow\<close>

record 'w workflow =
  wf_handler :: "'w handler"
  wf_approver :: string
  wf_timeout :: "rat option"
  wf_timeout_action :: string

definition make_workflow ::
  "'w handler \<Rightarrow> string \<Rightarrow> rat option \<Rightarrow> string \<Rightarrow> exn + 'w workflow" where
  "make_workflow h approver timeout action =
     (if action \<notin> {''deny'', ''allow''}
      then Inl (ValueError ''timeout_action must be deny or allow'')
      else Inr \<lparr>wf_handler = h, wf_approver = approver, wf_timeout = timeout,
                wf_timeout_action = action\<rparr>)"

definition timed_out_decision ::
  "(rat \<Rightarrow> string) \<Rightarrow> 'w workflow \<Rightarrow> rat \<Rightarrow> rat \<Rightarrow> rat \<Rightarrow> approval_decision" where
  "timed_out_decision fr wk timeout t0 t1 =
     \<lparr>ad_approved = (wf_timeout_action wk = ''allow''), ad_approver = wf_approver wk,
      ad_reason = Some (''timed out after '' @ fr timeout @ ''s''), ad_timed_out = True,
      ad_requested_at = t0, ad_resolved_at = t1\<rparr>"

definition workflow_call ::
  "(rat \<Rightarrow> string) \<Rightarrow> 'w clock \<Rightarrow> 'w workflow \<Rightarrow> agent_profile \<Rightarrow> integrity_score \<Rightarrow> args option \<Rightarrow> 'w
     \<Rightarrow> (approval_decision \<times> 'w) option" where
  "workflow_call fr time wk profile score action w =
     (let (t0, w1) = time w;
          (out, w2) = wf_handler wk profile score action w1;
          expired = (case wf_timeout wk of None \<Rightarrow> None | Some s \<Rightarrow>
             (case out of Unanswered \<Rightarrow> Some s | Raises (TimeoutError _) \<Rightarrow> Some s | _ \<Rightarrow> None))
      in case expired of
           Some s \<Rightarrow> (let (t1, w3) = time w2 in Some (timed_out_decision fr wk s t0 t1, w3))
         | None \<Rightarrow>
             (case out of
                Unanswered \<Rightarrow> None
              | Raises e \<Rightarrow>
                  (let (t1, w3) = time w2
                   in Some (plain_decision False (wf_approver wk)
                        (Some (''handler raised '' @ exn_class e)) t0 t1, w3))
              | Returned (Rich d) \<Rightarrow> Some (d\<lparr>ad_requested_at := t0\<rparr>, w2)
              | Returned (Plain v) \<Rightarrow>
                  (let (t1, w3) = time w2
                   in Some (plain_decision (truthy v) (wf_approver wk) None t0 t1, w3))))"

section \<open>Failing closed\<close>

text \<open>What the caller may take an outcome for.\<close>

definition grants :: "reply \<Rightarrow> bool" where
  "grants r = (case r of Plain v \<Rightarrow> truthy v | Rich d \<Rightarrow> ad_approved d)"

lemma resolve_approval_approved:
  assumes "resolve_approval time h profile score action w = Some (d, w')"
  shows "ad_approved d \<longleftrightarrow> (\<exists>r. fst (h profile score action w) = Returned r \<and> grants r)"
  using assms
  by (auto simp: resolve_approval_def grants_def fresh_decision_def plain_decision_def
      split: prod.splits outcome.splits reply.splits)

lemma workflow_call_returns:
  "wf_timeout wk \<noteq> None \<Longrightarrow> \<exists>d w'. workflow_call fr time wk profile score action w = Some (d, w')"
  by (auto simp: workflow_call_def Let_def split: prod.splits outcome.splits reply.splits option.splits)

lemma workflow_call_approved:
  assumes "workflow_call fr time wk profile score action w = Some (d, w')"
    and "out = fst (wf_handler wk profile score action (snd (time w)))"
  shows "ad_approved d \<longleftrightarrow>
     (\<exists>r. out = Returned r \<and> grants r) \<or>
     wf_timeout_action wk = ''allow'' \<and> wf_timeout wk \<noteq> None \<and> (out = Unanswered \<or> (\<exists>m. out = Raises (TimeoutError m)))"
proof -
  obtain t0 w1 where t: "time w = (t0, w1)" by (cases "time w")
  obtain o' w2 where h: "wf_handler wk profile score action w1 = (o', w2)"
    by (cases "wf_handler wk profile score action w1")
  have out: "out = o'" using assms(2) t h by simp
  show ?thesis
  proof (cases o')
    case (Returned r)
    then show ?thesis
      using assms(1) t h out
      by (cases r) (auto simp: workflow_call_def Let_def grants_def plain_decision_def
          split: prod.splits option.splits)
  next
    case (Raises e)
    then show ?thesis
      using assms(1) t h out
      by (cases "\<exists>m. e = TimeoutError m")
        (auto simp: workflow_call_def Let_def plain_decision_def timed_out_decision_def
          split: prod.splits option.splits exn.splits)
  next
    case Unanswered
    then show ?thesis
      using assms(1) t h out
      by (auto simp: workflow_call_def Let_def timed_out_decision_def
          split: prod.splits option.splits)
  qed
qed

text \<open>
  C17: a workflow fails closed unless it is told to allow on a timeout. A workflow with a timeout
  always returns. Under \<open>timeout_action="deny"\<close>, the default, it approves exactly when the handler
  answered with an approval: no exception, of whatever class, and no silence approves. Under
  \<open>timeout_action="allow"\<close> it also approves, provided there is a timeout, when the handler does not
  answer in time, and when the handler raises \<open>TimeoutError\<close> itself (which since Python 3.11, whose
  \<open>concurrent.futures.TimeoutError\<close> is that class, the clause for the timeout catches, although
  exceptions are meant to deny); every other exception denies. Consulting a handler
  directly approves exactly when it answered with an approval.
\<close>

theorem approval_fails_closed:
  assumes "make_workflow h approver timeout action = Inr wk" and "out = fst (h profile score act (snd (time w)))"
  shows "(timeout \<noteq> None \<longrightarrow> (\<exists>d w'. workflow_call fr time wk profile score act w = Some (d, w'))) \<and>
     (\<forall>d w'. workflow_call fr time wk profile score act w = Some (d, w') \<longrightarrow>
        (ad_approved d \<longleftrightarrow> (\<exists>r. out = Returned r \<and> grants r) \<or>
           action = ''allow'' \<and> timeout \<noteq> None \<and> (out = Unanswered \<or> (\<exists>m. out = Raises (TimeoutError m))))) \<and>
     (\<forall>d w'. action = ''deny'' \<and> workflow_call fr time wk profile score act w = Some (d, w') \<longrightarrow>
        (ad_approved d \<longleftrightarrow> (\<exists>r. out = Returned r \<and> grants r))) \<and>
     (\<forall>d w'. resolve_approval time h profile score act w = Some (d, w') \<longrightarrow>
        (ad_approved d \<longleftrightarrow> (\<exists>r. fst (h profile score act w) = Returned r \<and> grants r)))"
proof -
  have wk: "wf_handler wk = h" "wf_timeout wk = timeout" "wf_timeout_action wk = action"
    using assms(1) by (auto simp: make_workflow_def split: if_splits)
  have deny: "action = ''deny'' \<Longrightarrow> action \<noteq> ''allow''" by simp
  from workflow_call_returns [of wk fr time profile score act w]
    workflow_call_approved [of fr time wk profile score act w _ _ out, unfolded wk, OF _ assms(2)]
    resolve_approval_approved [of time h profile score act w] deny
  show ?thesis unfolding wk by blast
qed

lemma approval_fails_closed_witness:
  "\<exists>wk d w'. make_workflow (\<lambda>p s a w. (Unanswered, w)) ''ops'' (Some 5) ''deny'' = Inr wk \<and>
     workflow_call fraction_text (\<lambda>w. (w, w + 1)) wk (default_profile [] [] []) sample_score None 0
       = Some (d, w') \<and> \<not> ad_approved d"
proof -
  let ?h = "\<lambda>p s a (w :: rat). (Unanswered, w)"
  obtain wk where wk: "make_workflow ?h ''ops'' (Some 5) ''deny'' = Inr wk"
    by (simp add: make_workflow_def)
  note closed = approval_fails_closed [OF wk refl, of fraction_text "\<lambda>w. (w, w + 1)"
      "default_profile [] [] []" sample_score None 0]
  then obtain d w' where call: "workflow_call fraction_text (\<lambda>w. (w, w + 1)) wk
      (default_profile [] [] []) sample_score None 0 = Some (d, w')" by blast
  with closed have "\<not> ad_approved d" by auto
  with wk call show ?thesis by blast
qed

text \<open>
  The timeout clause also covers a handler that itself raises \<open>TimeoutError\<close>: under
  \<open>timeout_action = "allow"\<close> that error approves, at once.
\<close>

lemma handler_timeout_error_approves:
  "\<exists>d. workflow_call fraction_text (\<lambda>w. (w, w))
     \<lparr>wf_handler = \<lambda>p s a w. (Raises (TimeoutError ''directory unreachable''), w),
      wf_approver = ''ops'', wf_timeout = Some 3600, wf_timeout_action = ''allow''\<rparr>
     (default_profile [] [] []) sample_score None (0 :: rat) = Some (d, 0) \<and> ad_approved d"
  by (simp add: workflow_call_def timed_out_decision_def)

end
