(* ===== verification/Monitor.thy ===== *)
theory Monitor
  imports Approval Chain_Properties
begin

text \<open>
  The integrity monitor (core/monitor.py): evaluation with attestation and violation handling,
  the \<open>guard\<close> around a function, and the recording of decisions. Telemetry and logging are left
  out. The clocks, the generated identifiers, the evaluator's layers, the callback and the guarded
  function act on a world \<open>'w\<close>; the function may also use the monitor, so it acts on the whole
  state. A call that waits for ever for an approval is \<open>None\<close>.
\<close>

section \<open>State\<close>

datatype violation_action = LOG | ALERT | BLOCK | ESCALATE

fun violation_value :: "violation_action \<Rightarrow> string" where
  "violation_value LOG = ''log''"
| "violation_value ALERT = ''alert''"
| "violation_value BLOCK = ''block''"
| "violation_value ESCALATE = ''escalate''"

record violation_event =
  ve_agent_id :: string
  ve_timestamp :: string
  ve_score :: integrity_score
  ve_action_taken :: violation_action
  ve_context :: args

definition violation_to_dict :: "violation_event \<Rightarrow> json" where
  "violation_to_dict v = JObj
     [(''agent_id'', JStr (ve_agent_id v)), (''timestamp'', JStr (ve_timestamp v)),
      (''composite_score'', JFloat (is_composite (ve_score v))),
      (''action_taken'', JStr (violation_value (ve_action_taken v))),
      (''recommended_action'', JStr (score_action (ve_score v))),
      (''context'', JObj (ve_context v))]"

text \<open>What the monitor takes from outside: the two clocks and the generated identifiers.\<close>

record 'w machine =
  mc_timer :: "'w timer"
  mc_time :: "'w clock"
  mc_uuid :: "'w \<Rightarrow> string \<times> 'w"

record ('k, 'w) monitor =
  mo_profile :: agent_profile
  mo_evaluator :: "('w, agent_profile) evaluator"
  mo_threshold :: rat
  mo_on_violation :: violation_action
  mo_callback :: "(violation_event \<Rightarrow> 'w \<Rightarrow> exn option \<times> 'w) option"
  mo_attest :: bool
  mo_key :: "'k option"
  mo_handler :: "'w handler option"

record 'w monitor_state =
  ms_chain :: chain
  ms_violations :: "violation_event list"
  ms_count :: nat
  ms_world :: 'w

definition opt_args :: "args option \<Rightarrow> args" where
  "opt_args c = (case c of None \<Rightarrow> [] | Some d \<Rightarrow> d)"

section \<open>Evaluation\<close>

text \<open>The decisions since the last attestation, in the order of the chain.\<close>

fun decision_of :: "chained \<Rightarrow> decision_record list" where
  "decision_of (Dec d) = [d]"
| "decision_of (Att a) = []"

definition recent_decisions :: "chain \<Rightarrow> decision_record list" where
  "recent_decisions c = rev (concat (map decision_of
     (takeWhile (\<lambda>r. record_kind r \<noteq> ''attestation'') (rev c))))"

definition attest ::
  "'k lib \<Rightarrow> 'w machine \<Rightarrow> ('k, 'w) monitor \<Rightarrow> integrity_score \<Rightarrow> 'w monitor_state
     \<Rightarrow> (exn + unit) \<times> 'w monitor_state" where
  "attest L mc mo score s =
     (let (uuid, w1) = mc_uuid mc (ms_world s);
          (now, w2) = tm_now (mc_timer mc) w1;
          inputs = \<lparr>ai_profile_id = ap_agent_id (mo_profile mo), ai_score = score,
            ai_previous = expected_previous L (ms_chain s),
            ai_decisions = Some (recent_decisions (ms_chain s)), ai_topology = None,
            ai_change = None, ai_credentials = None\<rparr>
      in case bindS (build_attestation_record L uuid now inputs (mo_key mo))
                    (chain_append L (ms_chain s)) of
           Inl e \<Rightarrow> (Inl e, s\<lparr>ms_world := w2\<rparr>)
         | Inr c \<Rightarrow> (Inr (), s\<lparr>ms_chain := c, ms_world := w2\<rparr>))"

definition handle_violation ::
  "'w machine \<Rightarrow> ('k, 'w) monitor \<Rightarrow> integrity_score \<Rightarrow> args option \<Rightarrow> 'w monitor_state
     \<Rightarrow> exn option \<times> 'w monitor_state" where
  "handle_violation mc mo score ctx s =
     (let (now, w1) = tm_now (mc_timer mc) (ms_world s);
          event = \<lparr>ve_agent_id = ap_agent_id (mo_profile mo), ve_timestamp = now, ve_score = score,
            ve_action_taken = mo_on_violation mo, ve_context = opt_args ctx\<rparr>;
          s1 = s\<lparr>ms_violations := ms_violations s @ [event], ms_world := w1\<rparr>
      in case mo_callback mo of
           None \<Rightarrow> (None, s1)
         | Some cb \<Rightarrow> (case cb event w1 of (x, w2) \<Rightarrow> (x, s1\<lparr>ms_world := w2\<rparr>)))"

definition violates :: "('k, 'w) monitor \<Rightarrow> integrity_score \<Rightarrow> bool" where
  "violates mo score = (is_composite score < mo_threshold mo \<or> \<not> score_passed score)"

definition monitor_evaluate ::
  "'k lib \<Rightarrow> 'w machine \<Rightarrow> ('k, 'w) monitor \<Rightarrow> args option \<Rightarrow> 'w monitor_state
     \<Rightarrow> (exn + integrity_score) \<times> 'w monitor_state" where
  "monitor_evaluate L mc mo ctx s =
     (case evaluate (mc_timer mc) (mo_evaluator mo) (mo_profile mo) (opt_args ctx) (ms_world s) of
        (Inl e, w1) \<Rightarrow> (Inl e, s\<lparr>ms_world := w1\<rparr>)
      | (Inr score, w1) \<Rightarrow>
          (let s1 = s\<lparr>ms_count := ms_count s + 1, ms_world := w1\<rparr> in
           case (if mo_attest mo then attest L mc mo score s1 else (Inr (), s1)) of
             (Inl e, s2) \<Rightarrow> (Inl e, s2)
           | (Inr _, s2) \<Rightarrow>
               if violates mo score
               then (case handle_violation mc mo score ctx s2 of
                       (Some e, s3) \<Rightarrow> (Inl e, s3)
                     | (None, s3) \<Rightarrow> (Inr score, s3))
               else (Inr score, s2)))"

section \<open>Guarding a function\<close>

definition guard_blocks ::
  "'w machine \<Rightarrow> ('k, 'w) monitor \<Rightarrow> integrity_score \<Rightarrow> args option \<Rightarrow> 'w monitor_state
     \<Rightarrow> (bool \<times> 'w monitor_state) option" where
  "guard_blocks mc mo score ctx s =
     (if score_action score = ''block'' then Some (True, s)
      else if score_action score = ''escalate'' then
        (case mo_handler mo of
           None \<Rightarrow> Some (True, s)
         | Some h \<Rightarrow>
             map_option (\<lambda>(d, w). (\<not> ad_approved d, s\<lparr>ms_world := w\<rparr>))
               (resolve_approval (mc_time mc) h (mo_profile mo) score ctx (ms_world s)))
      else Some (False, s))"

definition integrity_violation :: "('k, 'w) monitor \<Rightarrow> integrity_score \<Rightarrow> exn" where
  "integrity_violation mo score = OtherError ''IntegrityViolationError''
     (''Agent '' @ ap_agent_id (mo_profile mo) @ '' blocked: integrity score ''
        @ fixed3 (is_composite score) @ '' triggered '' @ score_action score @ '' action'')"

text \<open>The check before the call: the exception that ends it, or leave to call.\<close>

definition guard_check ::
  "'k lib \<Rightarrow> 'w machine \<Rightarrow> ('k, 'w) monitor \<Rightarrow> args option \<Rightarrow> 'w monitor_state
     \<Rightarrow> (exn option \<times> 'w monitor_state) option" where
  "guard_check L mc mo ctx s =
     (case monitor_evaluate L mc mo ctx s of
        (Inl e, s1) \<Rightarrow> Some (Some e, s1)
      | (Inr score, s1) \<Rightarrow>
          (case guard_blocks mc mo score ctx s1 of
             None \<Rightarrow> None
           | Some (blocked, s2) \<Rightarrow>
               Some (if blocked then Some (integrity_violation mo score) else None, s2)))"

text \<open>
  The wrapper of a synchronous function; the asynchronous one runs the same steps. \<open>ctx\<close> is
  \<open>kwargs.get("context", {})\<close>, so an explicit \<open>None\<close> cannot be extended after the call.
\<close>

definition guarded ::
  "'k lib \<Rightarrow> 'w machine \<Rightarrow> ('k, 'w) monitor
     \<Rightarrow> ('w monitor_state \<Rightarrow> (exn + 'r) \<times> 'w monitor_state) \<Rightarrow> args option \<Rightarrow> 'w monitor_state
     \<Rightarrow> ((exn + 'r) \<times> 'w monitor_state) option" where
  "guarded L mc mo func ctx s =
     (case guard_check L mc mo ctx s of
        None \<Rightarrow> None
      | Some (Some e, s1) \<Rightarrow> Some (Inl e, s1)
      | Some (None, s1) \<Rightarrow>
          Some (case func s1 of
            (Inl e, s2) \<Rightarrow> (Inl e, s2)
          | (Inr result, s2) \<Rightarrow>
              (case ctx of
                 None \<Rightarrow> (Inl (TypeError ''NoneType object is not a mapping''), s2)
               | Some d \<Rightarrow>
                   (case monitor_evaluate L mc mo (Some (dict_set ''post_execution'' (JBool True) d)) s2 of
                      (Inl e, s3) \<Rightarrow> (Inl e, s3)
                    | (Inr _, s3) \<Rightarrow> (Inr result, s3)))))"

section \<open>Recording a decision\<close>

text \<open>Fails open: an exception gives \<open>None\<close> and leaves the chain as it was.\<close>

definition monitor_record_decision ::
  "'k lib \<Rightarrow> 'w machine \<Rightarrow> ('k, 'w) monitor \<Rightarrow> string \<Rightarrow> (string \<times> raw) list \<Rightarrow> string list option
     \<Rightarrow> rejected_alternative list option \<Rightarrow> decision_input list option \<Rightarrow> string list option
     \<Rightarrow> 'w monitor_state \<Rightarrow> chained option \<times> 'w monitor_state" where
  "monitor_record_decision L mc mo point action steps alts inputs goals s =
     (let (uuid, w1) = mc_uuid mc (ms_world s);
          (now, w2) = tm_now (mc_timer mc) w1
      in case build_decision_record L uuid now (ap_agent_id (mo_profile mo)) point action steps alts
                inputs goals (expected_previous L (ms_chain s)) (mo_key mo) of
           Inl e \<Rightarrow> (None, s\<lparr>ms_world := w2\<rparr>)
         | Inr r \<Rightarrow>
             (case chain_append L (ms_chain s) r of
                Inl e \<Rightarrow> (None, s\<lparr>ms_world := w2\<rparr>)
              | Inr c \<Rightarrow> (Some r, s\<lparr>ms_chain := c, ms_world := w2\<rparr>)))"

section \<open>The chain\<close>

lemma chain_append_verified:
  "verify_chain L c \<Longrightarrow> chain_append L c r = Inr c' \<Longrightarrow> verify_chain L c'"
  by (erule chain_append_cases) (simp add: verify_chain_linked linked_snoc)

lemma attest_verified [wf_intros]:
  "verify_chain L (ms_chain s) \<Longrightarrow> verify_chain L (ms_chain (snd (attest L mc mo score s)))"
  by (auto simp: attest_def Let_def exn_simps chain_append_verified split: prod.splits sum.splits)

lemma handle_violation_chain: "ms_chain (snd (handle_violation mc mo score ctx s)) = ms_chain s"
  by (simp add: handle_violation_def Let_def split: prod.splits option.splits)

lemma monitor_evaluate_verified [wf_intros]:
  assumes "verify_chain L (ms_chain s)"
  shows "verify_chain L (ms_chain (snd (monitor_evaluate L mc mo ctx s)))"
proof -
  have hv: "ms_chain s3 = ms_chain s2" if "handle_violation mc mo score ctx s2 = (x, s3)" for score s2 x s3
    using handle_violation_chain [of mc mo score ctx s2] that by simp
  have att: "verify_chain L (ms_chain s2)"
    if "attest L mc mo score s1 = (x, s2)" "ms_chain s1 = ms_chain s" for score s1 x s2
    using attest_verified [of L s1 mc mo score] that assms by simp
  show ?thesis
    using assms by (auto simp: monitor_evaluate_def Let_def split: prod.splits sum.splits option.splits
        dest!: hv att)
qed

lemma guard_blocks_chain: "guard_blocks mc mo score ctx s = Some (b, s') \<Longrightarrow> ms_chain s' = ms_chain s"
  by (auto simp: guard_blocks_def split: if_splits option.splits)

lemma guard_check_verified [wf_intros]:
  assumes "verify_chain L (ms_chain s)" and "guard_check L mc mo ctx s = Some (x, s')"
  shows "verify_chain L (ms_chain s')"
proof -
  obtain res s1 where e: "monitor_evaluate L mc mo ctx s = (res, s1)" by (metis prod.exhaust)
  have "verify_chain L (ms_chain s1)" using monitor_evaluate_verified [OF assms(1), of mc mo ctx] e by simp
  with assms(2) e show ?thesis
    by (auto simp: guard_check_def split: sum.splits option.splits dest!: guard_blocks_chain)
qed

lemma monitor_record_decision_verified [wf_intros]:
  "verify_chain L (ms_chain s) \<Longrightarrow>
     verify_chain L (ms_chain (snd (monitor_record_decision L mc mo p a st al i g s)))"
  by (auto simp: monitor_record_decision_def Let_def chain_append_verified split: prod.splits sum.splits)

text \<open>The leave a score and a handler give, in a state of the monitor.\<close>

definition without_leave :: "('k, 'w) monitor \<Rightarrow> integrity_score \<Rightarrow> args option \<Rightarrow> 'w \<Rightarrow> bool" where
  "without_leave mo score ctx w \<longleftrightarrow> score_action score = ''block'' \<or>
     score_action score = ''escalate'' \<and>
       (\<forall>h. mo_handler mo = Some h \<longrightarrow>
          \<not> (\<exists>r. fst (h (mo_profile mo) score ctx w) = Returned r \<and> grants r))"

lemma guard_blocks_without_leave:
  assumes "without_leave mo score ctx (ms_world s)"
  shows "guard_blocks mc mo score ctx s = None \<or> (\<exists>s2. guard_blocks mc mo score ctx s = Some (True, s2))"
proof (cases "mo_handler mo")
  case (Some h)
  show ?thesis
  proof (cases "resolve_approval (mc_time mc) h (mo_profile mo) score ctx (ms_world s)")
    case None
    with assms Some show ?thesis by (auto simp: guard_blocks_def without_leave_def)
  next
    case x: (Some p)
    obtain d w where p: "p = (d, w)" by (cases p)
    from resolve_approval_approved [OF x [unfolded p]] assms Some
    show ?thesis by (auto simp: guard_blocks_def x p without_leave_def)
  qed
qed (use assms in \<open>auto simp: guard_blocks_def without_leave_def\<close>)

lemma guard_stops:
  assumes "monitor_evaluate L mc mo ctx s = (Inr score, s1)" and "verify_chain L (ms_chain s1)"
    and "without_leave mo score ctx (ms_world s1)"
  shows "guard_check L mc mo ctx s = None \<and> (\<forall>func. guarded L mc mo func ctx s = None) \<or>
     (\<exists>s2. verify_chain L (ms_chain s2) \<and>
       (\<forall>func. guarded L mc mo func ctx s = Some (Inl (integrity_violation mo score), s2)))"
  using guard_blocks_without_leave [OF assms(3), of mc]
proof
  assume "\<exists>s2. guard_blocks mc mo score ctx s1 = Some (True, s2)"
  then obtain s2 where b: "guard_blocks mc mo score ctx s1 = Some (True, s2)" by blast
  with assms(2) have "verify_chain L (ms_chain s2)" by (simp add: guard_blocks_chain)
  with b assms(1) show ?thesis by (simp add: guarded_def guard_check_def exI [of _ s2])
qed (use assms(1) in \<open>simp add: guarded_def guard_check_def\<close>)

lemma guarded_verified:
  assumes ok: "verify_chain L (ms_chain s)"
    and f: "\<And>q. verify_chain L (ms_chain q) \<Longrightarrow> verify_chain L (ms_chain (snd (func q)))"
    and g: "guarded L mc mo func ctx s = Some (out, s')"
  shows "verify_chain L (ms_chain s')"
proof -
  obtain x q where chk: "guard_check L mc mo ctx s = Some (x, q)"
    using g by (auto simp: guarded_def split: option.splits prod.splits)
  note q = guard_check_verified [OF ok chk]
  obtain y q2 where fq: "func q = (y, q2)" by (cases "func q")
  have q2: "verify_chain L (ms_chain q2)" using f [OF q] fq by simp
  have post: "verify_chain L (ms_chain q3)"
    if "monitor_evaluate L mc mo d q2 = (z, q3)" for d z q3
    using monitor_evaluate_verified [OF q2, of mc mo d] that by simp
  show ?thesis
    using g chk q q2 by (auto simp: guarded_def fq split: option.splits sum.splits prod.splits dest!: post)
qed

text \<open>
  C16: a guarded function runs only with leave. When the evaluation before the call raises, or its
  score says \<open>block\<close>, or it says \<open>escalate\<close> and no handler answers with an approval, the call ends
  (or waits for the handler for ever) in the same way, with the same exception and the same state,
  whatever the function does: it is not executed. The monitor's chain verifies at every such end
  and, when the function runs and leaves it verifying, after it too.
\<close>

theorem guard_runs_only_with_leave:
  assumes "verify_chain L (ms_chain s)"
    and "monitor_evaluate L mc mo ctx s = (res, s1)"
  shows "(case res of
       Inl e \<Rightarrow> \<forall>func. guarded L mc mo func ctx s = Some (Inl e, s1)
     | Inr score \<Rightarrow>
         without_leave mo score ctx (ms_world s1) \<longrightarrow> guard_check L mc mo ctx s = None \<and> (\<forall>func. guarded L mc mo func ctx s = None) \<or>
            (\<exists>s2. verify_chain L (ms_chain s2) \<and>
              (\<forall>func. guarded L mc mo func ctx s = Some (Inl (integrity_violation mo score), s2)))) \<and>
     (\<forall>func out s'. (\<forall>q. verify_chain L (ms_chain q) \<longrightarrow> verify_chain L (ms_chain (snd (func q)))) \<longrightarrow>
        guarded L mc mo func ctx s = Some (out, s') \<longrightarrow> verify_chain L (ms_chain s'))"
proof (intro conjI allI impI)
  have ver: "verify_chain L (ms_chain s1)"
    using monitor_evaluate_verified [OF assms(1), of mc mo ctx] assms(2) by simp
  show "case res of
       Inl e \<Rightarrow> \<forall>func. guarded L mc mo func ctx s = Some (Inl e, s1)
     | Inr score \<Rightarrow>
         without_leave mo score ctx (ms_world s1) \<longrightarrow>
            guard_check L mc mo ctx s = None \<and> (\<forall>func. guarded L mc mo func ctx s = None) \<or>
            (\<exists>s2. verify_chain L (ms_chain s2) \<and>
              (\<forall>func. guarded L mc mo func ctx s = Some (Inl (integrity_violation mo score), s2)))"
  proof (cases res)
    case (Inl e)
    then show ?thesis using assms(2) by (simp add: guarded_def guard_check_def)
  next
    case (Inr score)
    from guard_stops [OF assms(2) [unfolded Inr] ver] Inr show ?thesis by (simp only: sum.case) blast
  qed
qed (rule guarded_verified [OF assms(1)], blast, assumption)

text \<open>A monitor whose only layer blocks.\<close>

definition sample_machine :: "unit machine" where
  "sample_machine = \<lparr>mc_timer = \<lparr>tm_perf = \<lambda>w. (0, w), tm_now = \<lambda>w. (''t'', w)\<rparr>,
     mc_time = \<lambda>w. (0, w), mc_uuid = \<lambda>w. (''u'', w)\<rparr>"

definition blocking_monitor :: "(string, unit) monitor" where
  "blocking_monitor = \<lparr>mo_profile = default_profile ''a'' ''t'' ''agent'',
     mo_evaluator = \<lparr>ev_layers = [\<lparr>ly_name = ''l'',
         ly_evaluate = \<lambda>p c w. (Inr (sample_result ''l'' 0 ''block''), w), ly_aevaluate = None\<rparr>],
       ev_weights = default_weights, ev_fail_fast = True\<rparr>,
     mo_threshold = 70 / 100, mo_on_violation = ALERT, mo_callback = None, mo_attest = False,
     mo_key = None, mo_handler = None\<rparr>"

definition start_state :: "unit monitor_state" where
  "start_state = \<lparr>ms_chain = [], ms_violations = [], ms_count = 0, ms_world = ()\<rparr>"

lemma blocking_evaluation:
  obtains score s1 where "monitor_evaluate sample_lib sample_machine blocking_monitor (Some []) start_state
     = (Inr score, s1)" "score_action score = ''block''"
proof -
  let ?rs = "[(sample_result ''l'' 0 ''block'')\<lparr>lr_latency := 0\<rparr>]"
  obtain score where ev: "evaluate (mc_timer sample_machine) (mo_evaluator blocking_monitor)
      (mo_profile blocking_monitor) [] () = (Inr score, ())" "is_layer_results score = ?rs"
    by (simp add: evaluate_def evaluate_with_def sample_machine_def blocking_monitor_def timed_layer_def
        call_sync_def score_results_def compute_property_scores_def best_of_def sample_result_def)
  have act: "score_action score = ''block''"
    using ev(2) by (simp add: score_action_def overall_action_def sample_result_def)
  have "\<exists>s1. monitor_evaluate sample_lib sample_machine blocking_monitor (Some []) start_state = (Inr score, s1)"
    using ev(1) by (auto simp: monitor_evaluate_def start_state_def opt_args_def Let_def
        handle_violation_def blocking_monitor_def split: prod.splits)
  with act that show thesis by blast
qed

lemma guard_runs_only_with_leave_witness:
  "\<exists>score s2. score_action score = ''block'' \<and>
     (\<forall>func :: unit monitor_state \<Rightarrow> (exn + unit) \<times> unit monitor_state.
        guarded sample_lib sample_machine blocking_monitor func (Some []) start_state
          = Some (Inl (integrity_violation blocking_monitor score), s2))"
proof -
  obtain score s1 where ev: "monitor_evaluate sample_lib sample_machine blocking_monitor (Some [])
     start_state = (Inr score, s1)" and act: "score_action score = ''block''"
    by (rule blocking_evaluation)
  have ok: "verify_chain sample_lib (ms_chain start_state)"
    by (simp add: start_state_def verify_chain_linked)
  have "guard_check sample_lib sample_machine blocking_monitor (Some []) start_state \<noteq> None"
    using ev act by (simp add: guard_check_def guard_blocks_def)
  with conjunct1 [OF guard_runs_only_with_leave [OF ok ev]] act show ?thesis by (auto simp: without_leave_def)
qed

end
