(* ===== verification/Usage.thy ===== *)
theory Usage
  imports Decoding
begin

text \<open>
  Token accounting (core/usage.py): usage records and their sum, and the ledger of a session,
  keyed by model call, with its totals. The lock makes each method one atomic step.
\<close>

section \<open>Usage of a call\<close>

record token_usage =
  tu_input :: int
  tu_output :: int
  tu_cache_read :: "int option"
  tu_cache_write :: "int option"
  tu_reasoning :: "int option"
  tu_requests :: "int option"

definition opt_add :: "int option \<Rightarrow> int option \<Rightarrow> int option" where
  "opt_add a b = (case a of None \<Rightarrow> b | Some x \<Rightarrow> (case b of None \<Rightarrow> a | Some y \<Rightarrow> Some (x + y)))"

definition usage_add :: "token_usage \<Rightarrow> token_usage \<Rightarrow> token_usage" where
  "usage_add a b = \<lparr>tu_input = tu_input a + tu_input b, tu_output = tu_output a + tu_output b,
     tu_cache_read = opt_add (tu_cache_read a) (tu_cache_read b),
     tu_cache_write = opt_add (tu_cache_write a) (tu_cache_write b),
     tu_reasoning = opt_add (tu_reasoning a) (tu_reasoning b),
     tu_requests = opt_add (tu_requests a) (tu_requests b)\<rparr>"

definition zero_usage :: token_usage where
  "zero_usage = \<lparr>tu_input = 0, tu_output = 0, tu_cache_read = None, tu_cache_write = None,
     tu_reasoning = None, tu_requests = None\<rparr>"

definition opt_field :: "string \<Rightarrow> int option \<Rightarrow> args" where
  "opt_field k v = (case v of None \<Rightarrow> [] | Some n \<Rightarrow> [(k, JInt n)])"

definition usage_to_dict :: "token_usage \<Rightarrow> args" where
  "usage_to_dict u =
     [(''input_tokens'', JInt (tu_input u)), (''output_tokens'', JInt (tu_output u))] @
     opt_field ''cache_read_tokens'' (tu_cache_read u) @
     opt_field ''cache_write_tokens'' (tu_cache_write u) @
     opt_field ''reasoning_tokens'' (tu_reasoning u) @ opt_field ''requests'' (tu_requests u) @
     [(''total_tokens'', JInt (tu_input u + tu_output u))]"

section \<open>The ledger\<close>

record usage_entry =
  ue_model :: string
  ue_usage :: token_usage
  ue_source :: string
  ue_complete :: bool

record usage_ledger =
  ul_entries :: "(string, usage_entry) dict"
  ul_gap :: bool

definition empty_ledger :: usage_ledger where
  "empty_ledger = \<lparr>ul_entries = [], ul_gap = False\<rparr>"

definition record_usage ::
  "string \<Rightarrow> string option \<Rightarrow> token_usage \<Rightarrow> string \<Rightarrow> bool \<Rightarrow> usage_ledger \<Rightarrow> usage_ledger" where
  "record_usage key model usage source whole l =
     l\<lparr>ul_entries := dict_set key
       \<lparr>ue_model = (if str_truthy model then the model else ''unknown''), ue_usage = usage,
        ue_source = source, ue_complete = whole\<rparr> (ul_entries l)\<rparr>"

definition discard_source :: "string \<Rightarrow> usage_ledger \<Rightarrow> usage_ledger" where
  "discard_source source l = l\<lparr>ul_entries := filter (\<lambda>(k, e). ue_source e \<noteq> source) (ul_entries l)\<rparr>"

definition mark_incomplete :: "usage_ledger \<Rightarrow> usage_ledger" where
  "mark_incomplete l = l\<lparr>ul_gap := True\<rparr>"

fun by_model :: "usage_entry list \<Rightarrow> (string, token_usage) dict \<Rightarrow> (string, token_usage) dict" where
  "by_model [] d = d"
| "by_model (e # es) d =
     by_model es (dict_set (ue_model e)
       (usage_add (case map_of d (ue_model e) of None \<Rightarrow> zero_usage | Some u \<Rightarrow> u) (ue_usage e)) d)"

definition usage_sum :: "token_usage list \<Rightarrow> token_usage" where
  "usage_sum us = foldl usage_add zero_usage us"

definition ledger_entries :: "usage_ledger \<Rightarrow> usage_entry list" where
  "ledger_entries l = map snd (ul_entries l)"

definition ledger_total :: "usage_ledger \<Rightarrow> token_usage" where
  "ledger_total l = usage_sum (map snd (by_model (ledger_entries l) []))"

definition ledger_to_dict :: "usage_ledger \<Rightarrow> args option" where
  "ledger_to_dict l =
     (let es = ledger_entries l; models = by_model es []
      in if es = [] then None
         else Some (usage_to_dict (ledger_total l) @
           [(''complete'', JBool (\<not> ul_gap l \<and> list_all ue_complete es)),
            (''sources'', JArr (map JStr (sorted_list_of_set (ue_source ` set es)))),
            (''by_model'', JObj (map (\<lambda>(m, u). (m, JObj (usage_to_dict u))) (sort_key fst models)))]))"

section \<open>Totals\<close>

lemma opt_add_assoc: "opt_add (opt_add a b) c = opt_add a (opt_add b c)"
  and opt_add_commute: "opt_add a b = opt_add b a"
  and opt_add_None [simp]: "opt_add None a = a" "opt_add a None = a"
  by (auto simp: opt_add_def split: option.splits)

text \<open>Addition of usages is a commutative monoid, so the grouping by model does not matter.\<close>

lemma usage_add_assoc: "usage_add (usage_add a b) c = usage_add a (usage_add b c)"
  by (simp add: usage_add_def opt_add_assoc)

lemma usage_add_commute: "usage_add a b = usage_add b a"
  by (simp add: usage_add_def opt_add_commute)

lemma usage_add_left_commute: "usage_add a (usage_add b c) = usage_add b (usage_add a c)"
  by (metis usage_add_assoc usage_add_commute)

lemmas usage_add_ac = usage_add_assoc usage_add_commute usage_add_left_commute

lemma usage_add_zero [simp]: "usage_add zero_usage a = a" "usage_add a zero_usage = a"
  by (cases a; simp add: usage_add_def zero_usage_def)+

lemma foldl_usage_add: "foldl usage_add u us = usage_add u (usage_sum us)"
  unfolding usage_sum_def
proof (induction us arbitrary: u)
  case (Cons a us)
  show ?case
    using Cons.IH [of "usage_add u a"] Cons.IH [of a] by (simp add: usage_add_assoc)
qed simp

lemma usage_sum_Nil [simp]: "usage_sum [] = zero_usage"
  by (simp add: usage_sum_def)

lemma usage_sum_Cons [simp]: "usage_sum (u # us) = usage_add u (usage_sum us)"
  using foldl_usage_add [of u us] by (simp add: usage_sum_def [of "u # us"])

lemma usage_sum_dict_set:
  "usage_sum (map snd (dict_set k (usage_add (case map_of d k of None \<Rightarrow> zero_usage | Some u \<Rightarrow> u) v) d)) =
     usage_add v (usage_sum (map snd d))"
proof (induction d)
  case (Cons p d)
  obtain k' u where p: "p = (k', u)" by (cases p)
  show ?case
  proof (cases "k = k'")
    case True
    then show ?thesis by (simp add: p usage_add_ac)
  next
    case False
    with Cons.IH show ?thesis by (simp add: p usage_add_left_commute)
  qed
qed simp

lemma usage_sum_by_model:
  "usage_sum (map snd (by_model es d)) = usage_add (usage_sum (map ue_usage es)) (usage_sum (map snd d))"
  by (induction es d rule: by_model.induct)
    (simp_all add: usage_sum_dict_set usage_add_assoc usage_add_left_commute)

text \<open>The reported total is the sum over the calls, each counted once, by its last report.\<close>

lemma ledger_total_sum: "ledger_total l = usage_sum (map ue_usage (ledger_entries l))"
  by (simp add: ledger_total_def usage_sum_by_model)

lemma tu_input_sum: "tu_input (usage_sum us) = sum_list (map tu_input us)"
  and tu_output_sum: "tu_output (usage_sum us) = sum_list (map tu_output us)"
  by (induction us) (simp_all add: usage_add_def zero_usage_def)

lemma breakdown_sum: "tu_requests (usage_sum us) = None \<longleftrightarrow> (\<forall>u \<in> set us. tu_requests u = None)"
  by (induction us) (auto simp: usage_add_def zero_usage_def opt_add_def split: option.splits)

text \<open>
  A report replaces the earlier one of the same call: after it, the entries are those of the
  other calls and the new one.
\<close>

lemma record_usage_replaces:
  "map_of (ul_entries (record_usage key model usage source whole l)) =
     (map_of (ul_entries l))(key \<mapsto>
       \<lparr>ue_model = (if str_truthy model then the model else ''unknown''), ue_usage = usage,
        ue_source = source, ue_complete = whole\<rparr>)"
  by (simp add: record_usage_def)

lemma entries_ok [wf_intros]:
  "dict_ok (ul_entries l) \<Longrightarrow> dict_ok (ul_entries (record_usage k m u s c l))"
  "dict_ok (ul_entries l) \<Longrightarrow> dict_ok (ul_entries (discard_source s l))"
  by (simp_all add: record_usage_def discard_source_def distinct_map_filter)

text \<open>Reporting a call again with the same key and usage changes no total.\<close>

lemma record_usage_again:
  "record_usage k m u s c (record_usage k m u s c l) = record_usage k m u s c l"
proof -
  have "dict_set k v (dict_set k v d) = dict_set k v d" for v and d :: "(string, usage_entry) dict"
    by (induction k v d rule: dict_set.induct) auto
  then show ?thesis by (simp add: record_usage_def)
qed

end
