(* ===== verification/Adapter_State.thy ===== *)
theory Adapter_State
  imports Monitor Credentials Usage Action_Gate
begin

text \<open>
  The state of a framework adapter (adapters/base.py): its events, its context buffers and the
  evaluation context made of them, its configuration, and the sequencing of its operations. An
  operation may raise, keeping the changes made before; one that waits for ever for an approval
  is \<open>None\<close>. The base adapter reads no transcripts.
\<close>

section \<open>Events\<close>

record framework_event =
  fe_type :: string
  fe_timestamp :: string
  fe_adapter :: string
  fe_data :: args
  fe_score :: "integrity_score option"

definition event_to_dict :: "framework_event \<Rightarrow> json" where
  "event_to_dict e = JObj
     [(''event_type'', JStr (fe_type e)), (''timestamp'', JStr (fe_timestamp e)),
      (''adapter_name'', JStr (fe_adapter e)), (''data'', JObj (fe_data e)),
      (''evaluation_result'', json_opt (\<lambda>s. JObj (score_to_dict s)) (fe_score e))]"

section \<open>Buffers\<close>

text \<open>
  A buffered tool call is an object of its own, named by a number: cancelling a gate takes back
  that object, not an equal one. A tool output is a result or a failure, the latter with the
  number of calls buffered when it came.
\<close>

datatype tool_output = Output json string | Failure json string nat

fun output_to_dict :: "tool_output \<Rightarrow> json" where
  "output_to_dict (Output tool content) = JObj [(''tool'', tool), (''content'', JStr content)]"
| "output_to_dict (Failure tool err n) =
     JObj [(''tool'', tool), (''error'', JStr err), (''call_index'', JInt (int n))]"

type_synonym counts = "(string, int) dict"

record context_buffer =
  cb_inputs :: "string list"
  cb_tool_calls :: "(nat \<times> args) list"
  cb_tool_outputs :: "tool_output list"
  cb_tool_usage :: counts
  cb_actions :: counts
  cb_reasoning :: "string list"
  cb_subagents :: "json list"
  cb_topology :: "agent_topology option"
  cb_role :: "agent_role option"
  cb_peer_messages :: "json list"
  cb_shared_memory :: "json list"
  cb_broadcasts :: "json list"
  cb_peer_attestations :: "json list"
  cb_peer_scores :: "(string, rat list) dict"
  cb_starts :: "json list"
  cb_tasks :: "json list"

definition empty_buffer :: context_buffer where
  "empty_buffer = \<lparr>cb_inputs = [], cb_tool_calls = [], cb_tool_outputs = [], cb_tool_usage = [],
     cb_actions = [], cb_reasoning = [], cb_subagents = [], cb_topology = None, cb_role = None,
     cb_peer_messages = [], cb_shared_memory = [], cb_broadcasts = [], cb_peer_attestations = [],
     cb_peer_scores = [], cb_starts = [], cb_tasks = []\<rparr>"

definition count_up :: "string \<Rightarrow> counts \<Rightarrow> counts" where
  "count_up k d = dict_set k ((case map_of d k of None \<Rightarrow> 0 | Some n \<Rightarrow> n) + 1) d"

definition count_down :: "string \<Rightarrow> counts \<Rightarrow> counts" where
  "count_down k d = (let n = (case map_of d k of None \<Rightarrow> 0 | Some n \<Rightarrow> n) - 1
     in if n \<le> 0 then dict_del k d else dict_set k n d)"

definition counts_json :: "counts \<Rightarrow> json" where
  "counts_json d = JObj (map (\<lambda>(k, n). (k, JInt n)) d)"

definition tool_error_window :: int where
  "tool_error_window = 10"

fun recent_output :: "int \<Rightarrow> tool_output \<Rightarrow> bool" where
  "recent_output from (Output t c) = True"
| "recent_output from (Failure t e n) = (from < int n)"

text \<open>The entry of a tool call always has its \<open>tool\<close> and \<open>categories\<close>.\<close>

definition topology_context :: "'k lib \<Rightarrow> context_buffer \<Rightarrow> json" where
  "topology_context L b = JObj
     [(''topology'', json_opt (topology_to_dict L) (cb_topology b)),
      (''role'', json_opt (\<lambda>r. JStr (role_value r)) (cb_role b)),
      (''peer_messages'', JArr (cb_peer_messages b)), (''shared_memory'', JArr (cb_shared_memory b)),
      (''broadcast_messages'', JArr (cb_broadcasts b)),
      (''peer_attestations'', JArr (cb_peer_attestations b)),
      (''peer_score_history'',
        JObj (map (\<lambda>(p, xs). (p, JArr (map JFloat xs))) (cb_peer_scores b)))]"

definition to_evaluation_context :: "'k lib \<Rightarrow> context_buffer \<Rightarrow> args" where
  "to_evaluation_context L b =
     [(''input'', JStr (if cb_inputs b = [] then [] else last (cb_inputs b))),
      (''tool_outputs'', JArr (map output_to_dict (filter
         (recent_output (int (length (cb_tool_calls b)) - tool_error_window)) (cb_tool_outputs b)))),
      (''reasoning_chain'', JArr (map JStr (cb_reasoning b))),
      (''goals'', JArr []), (''instructions'', JArr []), (''memory_reads'', JArr []),
      (''action_distribution'', counts_json (cb_actions b)),
      (''tool_usage'', counts_json (cb_tool_usage b)),
      (''action'', if cb_tool_calls b = [] then JObj [(''type'', JStr ''respond'')]
                   else JObj (snd (last (cb_tool_calls b)))),
      (''tool_call_history'',
        JArr (map (\<lambda>c. field_or ''tool'' (JStr []) (snd c)) (cb_tool_calls b))),
      (''tool_call_categories'',
        JArr (map (\<lambda>c. field_or ''categories'' (JArr []) (snd c)) (cb_tool_calls b))),
      (''peer_messages'', JArr (cb_peer_messages b))] @
     (if cb_topology b \<noteq> None \<or> cb_peer_messages b \<noteq> [] \<or> cb_shared_memory b \<noteq> []
         \<or> cb_broadcasts b \<noteq> []
      then [(''topology_context'', topology_context L b)] else [])"

section \<open>Configuration and state\<close>

text \<open>
  \<open>ad_evaluate\<close> and \<open>ad_aevaluate\<close> are the evaluator, whose layers may read the attestation chain
  (the recovery layer does); \<open>ad_classify\<close> gives the categories of a call (\<open>tool_classifier.py\<close>);
  \<open>ad_str\<close> is \<open>str\<close> of a value that is no string; \<open>ad_baselines\<close> asks each cortical layer for its
  baseline of a role, with its sample count; \<open>ad_learn\<close> teaches them a session; \<open>ad_record_score\<close>
  feeds the recovery layers; \<open>ad_host\<close> is what the action gate takes from the host.
\<close>

record ('k, 'w) adapter =
  ad_name :: string
  ad_profile :: agent_profile
  ad_enforce :: bool
  ad_raise_on_deny :: bool
  ad_key :: "'k option"
  ad_handler :: "'w handler option"
  ad_gate :: "nat option"
  ad_session_id :: string
  ad_provenance :: "(string \<Rightarrow> args \<Rightarrow> 'w \<Rightarrow> (exn + action_provenance) \<times> 'w) option"
  ad_evaluate :: "chain \<Rightarrow> args \<Rightarrow> 'w \<Rightarrow> (exn + integrity_score) \<times> 'w"
  ad_aevaluate :: "(chain \<Rightarrow> args \<Rightarrow> 'w \<Rightarrow> (exn + integrity_score) \<times> 'w) option"
  ad_classify :: "string \<Rightarrow> args \<Rightarrow> exn + string list"
  ad_str :: "json \<Rightarrow> string"
  ad_baselines :: "json \<Rightarrow> 'w \<Rightarrow> (exn + (int \<times> args) list) \<times> 'w"
  ad_record_score :: "rat \<Rightarrow> 'w \<Rightarrow> 'w"
  ad_learn :: "counts \<Rightarrow> counts \<Rightarrow> 'w \<Rightarrow> 'w"
  ad_machine :: "'w machine"
  ad_host :: "'w \<Rightarrow> host \<times> 'w"

text \<open>
  \<open>as_sent\<close> is what was handed to the registered exporters, which cannot fail the adapter;
  \<open>as_heap\<close> holds the action gates; \<open>as_next\<close> numbers the buffered calls.
\<close>

record 'w adapter_state =
  as_buffer :: context_buffer
  as_events :: "framework_event list"
  as_chain :: chain
  as_count :: nat
  as_exporters :: "string list"
  as_sent :: "(string \<times> json list) list"
  as_credentials :: credential_registry
  as_undelivered :: "framework_event list"
  as_started :: bool
  as_ended :: bool
  as_clean :: bool
  as_pending_change :: "topology_change option"
  as_overflow :: "string list"
  as_usage :: usage_ledger
  as_heap :: heap
  as_next :: nat
  as_world :: 'w

definition buffer_cap :: nat where
  "buffer_cap = 1000"

section \<open>Operations\<close>

type_synonym ('a, 'w) op = "'w adapter_state \<Rightarrow> ((exn + 'a) \<times> 'w adapter_state) option"

definition ret :: "'a \<Rightarrow> ('a, 'w) op" where
  "ret x s = Some (Inr x, s)"

definition throw :: "exn \<Rightarrow> ('a, 'w) op" where
  "throw e s = Some (Inl e, s)"

definition andThen :: "('a, 'w) op \<Rightarrow> ('a \<Rightarrow> ('b, 'w) op) \<Rightarrow> ('b, 'w) op" where
  "andThen m f s = (case m s of
       None \<Rightarrow> None
     | Some (Inl e, s1) \<Rightarrow> Some (Inl e, s1)
     | Some (Inr x, s1) \<Rightarrow> f x s1)"

definition update :: "('w adapter_state \<Rightarrow> 'w adapter_state) \<Rightarrow> (unit, 'w) op" where
  "update f s = Some (Inr (), f s)"

definition gets :: "('w adapter_state \<Rightarrow> 'a) \<Rightarrow> ('a, 'w) op" where
  "gets f s = Some (Inr (f s), s)"

definition world_op :: "('w \<Rightarrow> 'a \<times> 'w) \<Rightarrow> ('a, 'w) op" where
  "world_op f s = (case f (as_world s) of (x, w) \<Rightarrow> Some (Inr x, s\<lparr>as_world := w\<rparr>))"

definition world_try :: "('w \<Rightarrow> (exn + 'a) \<times> 'w) \<Rightarrow> ('a, 'w) op" where
  "world_try f s = (case f (as_world s) of (x, w) \<Rightarrow> Some (x, s\<lparr>as_world := w\<rparr>))"

definition lift_sum :: "exn + 'a \<Rightarrow> ('a, 'w) op" where
  "lift_sum r s = Some (r, s)"

definition update_buffer :: "(context_buffer \<Rightarrow> context_buffer) \<Rightarrow> (unit, 'w) op" where
  "update_buffer f = update (\<lambda>s. s\<lparr>as_buffer := f (as_buffer s)\<rparr>)"

text \<open>A property of states that an operation keeps, whether it returns or raises.\<close>

definition keeps :: "('w adapter_state \<Rightarrow> bool) \<Rightarrow> ('a, 'w) op \<Rightarrow> bool" where
  "keeps P m \<longleftrightarrow> (\<forall>s r s'. P s \<longrightarrow> m s = Some (r, s') \<longrightarrow> P s')"

named_theorems keeps_intros "operations keep a property of states"

lemma keepsD: "keeps P m \<Longrightarrow> P s \<Longrightarrow> m s = Some (r, s') \<Longrightarrow> P s'"
  by (auto simp: keeps_def)

lemma keeps_ret [keeps_intros]: "keeps P (ret x)"
  and keeps_throw [keeps_intros]: "keeps P (throw e)"
  and keeps_gets [keeps_intros]: "keeps P (gets f)"
  and keeps_lift_sum [keeps_intros]: "keeps P (lift_sum r)"
  by (auto simp: keeps_def ret_def throw_def gets_def lift_sum_def)

lemma keeps_update: "(\<And>s. P s \<Longrightarrow> P (f s)) \<Longrightarrow> keeps P (update f)"
  by (auto simp: keeps_def update_def)

lemma keeps_andThen [keeps_intros]: "keeps P m \<Longrightarrow> (\<And>x. keeps P (f x)) \<Longrightarrow> keeps P (andThen m f)"
  unfolding keeps_def
proof (intro allI impI)
  fix s r s'
  assume m: "\<forall>s r s'. P s \<longrightarrow> m s = Some (r, s') \<longrightarrow> P s'"
    and f: "\<And>x. \<forall>s r s'. P s \<longrightarrow> f x s = Some (r, s') \<longrightarrow> P s'"
    and s: "P s" and run: "andThen m f s = Some (r, s')"
  from run obtain x s1 where ms: "m s = Some (x, s1)" by (auto simp: andThen_def split: option.splits)
  with m s have s1: "P s1" by blast
  show "P s'"
  proof (cases x)
    case (Inl e)
    with run ms s1 show ?thesis by (simp add: andThen_def)
  next
    case (Inr y)
    with run ms have "f y s1 = Some (r, s')" by (simp add: andThen_def)
    with f s1 show ?thesis by blast
  qed
qed

lemma keeps_if [keeps_intros]:
  "(b \<Longrightarrow> keeps P m) \<Longrightarrow> (\<not> b \<Longrightarrow> keeps P n) \<Longrightarrow> keeps P (if b then m else n)"
  by simp

lemma keeps_case_option [keeps_intros]:
  "keeps P m \<Longrightarrow> (\<And>x. keeps P (f x)) \<Longrightarrow> keeps P (case v of None \<Rightarrow> m | Some x \<Rightarrow> f x)"
  by (cases v) simp_all

lemma keeps_case_prod [keeps_intros]:
  "(\<And>a b. keeps P (f a b)) \<Longrightarrow> keeps P (case p of (a, b) \<Rightarrow> f a b)"
  by (cases p) simp

lemma keeps_world:
  "(\<And>s w. P s \<Longrightarrow> P (s\<lparr>as_world := w\<rparr>)) \<Longrightarrow> keeps P (world_op f)"
  "(\<And>s w. P s \<Longrightarrow> P (s\<lparr>as_world := w\<rparr>)) \<Longrightarrow> keeps P (world_try g)"
  by (auto simp: keeps_def world_op_def world_try_def split: prod.splits)

end
