(* ===== verification/Adapter.thy ===== *)
theory Adapter
  imports Adapter_State Tool_Names
begin

text \<open>
  The framework adapter (adapters/base.py): emission of events, evaluation and attestation, the
  recording of decisions, the buffering of tool calls, enforcement, the event handlers, and the
  gates that wait on asynchronous layers.
\<close>

definition thenDo :: "('a, 'w) op \<Rightarrow> ('b, 'w) op \<Rightarrow> ('b, 'w) op" where
  "thenDo m n = andThen m (\<lambda>_. n)"

lemma keeps_thenDo [keeps_intros]: "keeps P m \<Longrightarrow> keeps P n \<Longrightarrow> keeps P (thenDo m n)"
  unfolding thenDo_def by (rule keeps_andThen)

section \<open>Events\<close>

definition notify :: "string \<Rightarrow> json list \<Rightarrow> ('w adapter_state \<Rightarrow> 'w adapter_state)" where
  "notify call xs s = (if as_exporters s = [] then s else s\<lparr>as_sent := as_sent s @ [(call, xs)]\<rparr>)"

definition register_exporter :: "string \<Rightarrow> 'w adapter_state \<Rightarrow> 'w adapter_state" where
  "register_exporter x s =
     (if x \<in> set (as_exporters s) then s else s\<lparr>as_exporters := as_exporters s @ [x]\<rparr>)"

definition replay_undelivered :: "('k, 'w) adapter \<Rightarrow> 'w adapter_state \<Rightarrow> 'w adapter_state" where
  "replay_undelivered A s =
     fold (\<lambda>e. notify ''on_event'' [JStr (ad_session_id A), event_to_dict e]) (as_undelivered s)
       (s\<lparr>as_undelivered := []\<rparr>)"

definition maybe_start_session :: "('k, 'w) adapter \<Rightarrow> 'w adapter_state \<Rightarrow> 'w adapter_state" where
  "maybe_start_session A s =
     (if as_started s \<or> as_exporters s = [] then s\<lparr>as_started := True\<rparr>
      else replay_undelivered A (notify ''on_session_start''
        [JStr (ad_session_id A), JStr (ad_name A), JObj (profile_to_dict (ad_profile A))]
        (s\<lparr>as_started := True\<rparr>)))"

definition clock_text :: "('k, 'w) adapter \<Rightarrow> (string, 'w) op" where
  "clock_text A = world_op (tm_now (mc_timer (ad_machine A)))"

definition emit_event ::
  "('k, 'w) adapter \<Rightarrow> string \<Rightarrow> args \<Rightarrow> integrity_score option \<Rightarrow> (framework_event, 'w) op" where
  "emit_event A type data score =
     andThen (clock_text A) (\<lambda>now.
       let e = \<lparr>fe_type = type, fe_timestamp = now, fe_adapter = ad_name A, fe_data = data,
                fe_score = score\<rparr>
       in thenDo (update (\<lambda>s. s\<lparr>as_events := as_events s @ [e]\<rparr>))
         (thenDo (update (\<lambda>s. if as_exporters s = [] then s
              else notify ''on_event'' [JStr (ad_session_id A), event_to_dict e] (maybe_start_session A s)))
           (ret e)))"

section \<open>Evaluation and attestation\<close>

definition add_baseline :: "int \<times> args \<Rightarrow> args \<Rightarrow> args" where
  "add_baseline b ctx =
     (if fst b \<noteq> 0 \<and> ''behavioral_baseline'' \<notin> fst ` set ctx
      then ctx @ [(''behavioral_baseline'', JObj (snd b))] else ctx)"

definition evaluation_context :: "'k lib \<Rightarrow> ('k, 'w) adapter \<Rightarrow> (args, 'w) op" where
  "evaluation_context L A =
     andThen (gets (\<lambda>s. to_evaluation_context L (as_buffer s))) (\<lambda>ctx.
     andThen (lift_sum (get_or (or_json (field_or ''topology_context'' JNull ctx) (JObj [])) ''role'' JNull)) (\<lambda>role.
     andThen (world_try (ad_baselines A role)) (\<lambda>bs. ret (fold add_baseline bs ctx))))"

definition bad_action :: "integrity_score \<Rightarrow> bool" where
  "bad_action score = (score_action score \<in> {''block'', ''escalate''})"

definition score_inputs ::
  "'k lib \<Rightarrow> ('k, 'w) adapter \<Rightarrow> integrity_score \<Rightarrow> topology_change option \<Rightarrow> 'w adapter_state
     \<Rightarrow> attestation_inputs" where
  "score_inputs L A score change s =
     \<lparr>ai_profile_id = ap_agent_id (ad_profile A), ai_score = score,
      ai_previous = expected_previous L (as_chain s),
      ai_decisions = Some (recent_decisions (as_chain s)), ai_topology = cb_topology (as_buffer s),
      ai_change = change, ai_credentials = Some (registry_refs (as_credentials s))\<rparr>"

definition append_record :: "'k lib \<Rightarrow> chained \<Rightarrow> (unit, 'w) op" where
  "append_record L r s = (case chain_append L (as_chain s) r of
     Inl e \<Rightarrow> Some (Inl e, s) | Inr c \<Rightarrow> Some (Inr (), s\<lparr>as_chain := c\<rparr>))"

definition record_evaluation ::
  "'k lib \<Rightarrow> ('k, 'w) adapter \<Rightarrow> integrity_score \<Rightarrow> (integrity_score, 'w) op" where
  "record_evaluation L A score =
     thenDo (update (\<lambda>s. s\<lparr>as_count := as_count s + 1,
         as_world := ad_record_score A (is_composite score) (as_world s),
         as_clean := (as_clean s \<and> \<not> bad_action score)\<rparr>))
     (andThen (gets as_pending_change) (\<lambda>change.
      thenDo (update (\<lambda>s. s\<lparr>as_pending_change := None\<rparr>))
     (andThen (world_op (mc_uuid (ad_machine A))) (\<lambda>uuid.
      andThen (clock_text A) (\<lambda>now.
      andThen (gets (score_inputs L A score change)) (\<lambda>inputs.
      andThen (lift_sum (build_attestation_record L uuid now inputs (ad_key A))) (\<lambda>r.
      thenDo (append_record L r) (ret score))))))))"

definition run_evaluation :: "'k lib \<Rightarrow> ('k, 'w) adapter \<Rightarrow> (integrity_score, 'w) op" where
  "run_evaluation L A =
     andThen (evaluation_context L A) (\<lambda>ctx.
     andThen (gets as_chain) (\<lambda>c.
     andThen (world_try (ad_evaluate A c ctx)) (record_evaluation L A)))"

section \<open>Decisions\<close>

definition raw_args :: "args \<Rightarrow> (string \<times> raw) list" where
  "raw_args d = map (\<lambda>(k, v). (k, raw_of v)) d"

text \<open>Fails open: a failure emits \<open>capture_failure\<close> with the exception's class.\<close>

definition record_decision ::
  "'k lib \<Rightarrow> ('k, 'w) adapter \<Rightarrow> string \<Rightarrow> args \<Rightarrow> string list option \<Rightarrow> decision_input list option
     \<Rightarrow> (chained option, 'w) op" where
  "record_decision L A point action steps inputs =
     andThen (world_op (mc_uuid (ad_machine A))) (\<lambda>uuid.
     andThen (clock_text A) (\<lambda>now.
     andThen (gets as_chain) (\<lambda>c.
       case bindS (build_decision_record L uuid now (ap_agent_id (ad_profile A)) point (raw_args action)
                steps None inputs None (expected_previous L c) (ad_key A))
              (\<lambda>r. bindS (chain_append L c r) (\<lambda>c'. Inr (r, c'))) of
         Inl e \<Rightarrow>
           thenDo (emit_event A ''capture_failure''
             [(''decision_point'', JStr point), (''exception_class'', JStr (exn_class e))] None) (ret None)
       | Inr (r, c') \<Rightarrow> thenDo (update (\<lambda>s. s\<lparr>as_chain := c'\<rparr>)) (ret (Some r)))))"

definition text_digest :: "'k lib \<Rightarrow> string \<Rightarrow> string" where
  "text_digest L s = l_sha256 L (utf8 s)"

fun output_input :: "'k lib \<Rightarrow> (json \<Rightarrow> string) \<Rightarrow> tool_output \<Rightarrow> decision_input" where
  "output_input L str (Output tool content) =
     \<lparr>di_channel = ''tool_output'', di_hash = text_digest L content,
      di_summary = str tool @ '': '' @ take 80 content\<rparr>"
| "output_input L str (Failure tool err n) =
     \<lparr>di_channel = ''tool_output'', di_hash = text_digest L err,
      di_summary = str tool @ '': '' @ take 80 err\<rparr>"

definition collect_decision_inputs ::
  "'k lib \<Rightarrow> (json \<Rightarrow> string) \<Rightarrow> context_buffer \<Rightarrow> decision_input list" where
  "collect_decision_inputs L str b =
     (if cb_inputs b = [] then []
      else [\<lparr>di_channel = ''user_prompt'', di_hash = text_digest L (last (cb_inputs b)),
             di_summary = take 120 (last (cb_inputs b))\<rparr>]) @
     (if cb_tool_outputs b = [] then [] else [output_input L str (last (cb_tool_outputs b))])"

section \<open>Buffering\<close>

text \<open>\<open>str(value)\<close>, which leaves a string as it is.\<close>

definition as_str :: "('k, 'w) adapter \<Rightarrow> json \<Rightarrow> string" where
  "as_str A v = (case v of JStr s \<Rightarrow> s | _ \<Rightarrow> ad_str A v)"

definition append_capped ::
  "('k, 'w) adapter \<Rightarrow> string \<Rightarrow> (context_buffer \<Rightarrow> 'a list)
     \<Rightarrow> ('a list \<Rightarrow> context_buffer \<Rightarrow> context_buffer) \<Rightarrow> 'a \<Rightarrow> (bool, 'w) op" where
  "append_capped A channel get put x =
     andThen (gets (\<lambda>s. buffer_cap \<le> length (get (as_buffer s)))) (\<lambda>full.
       if full then
         andThen (gets (\<lambda>s. channel \<in> set (as_overflow s))) (\<lambda>signaled.
           if signaled then ret False
           else thenDo (update (\<lambda>s. s\<lparr>as_overflow := channel # as_overflow s\<rparr>))
             (thenDo (emit_event A (channel @ ''_overflow'')
                [(''channel'', JStr channel), (''limit'', JInt (int buffer_cap))] None) (ret False)))
       else thenDo (update_buffer (\<lambda>b. put (get b @ [x]) b)) (ret True))"

definition arguments_of :: "('k, 'w) adapter \<Rightarrow> json \<Rightarrow> args" where
  "arguments_of A v = (case v of JNull \<Rightarrow> [] | JObj d \<Rightarrow> d | _ \<Rightarrow> [(''input'', JStr (as_str A v))])"

text \<open>A buffered tool call waiting for its score; \<open>pc_entry\<close> names its entry in the buffer.\<close>

record pending_call =
  pc_data :: args
  pc_name :: string
  pc_input :: args
  pc_inputs :: "decision_input list"
  pc_entry :: "nat option"

definition call_entry :: "string \<Rightarrow> args \<Rightarrow> string list \<Rightarrow> args" where
  "call_entry name input cats =
     [(''tool'', JStr name), (''type'', JStr ''tool_call''), (''arguments'', JObj input),
      (''categories'', JArr (map JStr (sort cats)))]"

text \<open>The names of tools are strings; another value is refused here.\<close>

fun name_text :: "json \<Rightarrow> exn + string" where
  "name_text (JStr s) = Inr s"
| "name_text _ = Inl (TypeError ''tool name must be a string'')"

definition buffer_tool_call :: "'k lib \<Rightarrow> ('k, 'w) adapter \<Rightarrow> args \<Rightarrow> (pending_call, 'w) op" where
  "buffer_tool_call L A data =
     andThen (lift_sum (name_text (field_or ''tool_name'' (JStr []) data))) (\<lambda>name.
       let input = arguments_of A (field_or ''tool_input'' JNull data) in
       andThen (lift_sum (ad_classify A name input)) (\<lambda>cats.
       andThen (gets as_next) (\<lambda>n.
       thenDo (update (\<lambda>s. s\<lparr>as_next := as_next s + 1\<rparr>))
      (andThen (append_capped A ''tool_calls'' cb_tool_calls (\<lambda>xs b. b\<lparr>cb_tool_calls := xs\<rparr>)
         (n, call_entry name input cats)) (\<lambda>buffered.
       thenDo (update_buffer (\<lambda>b. b\<lparr>cb_tool_usage := count_up name (cb_tool_usage b),
                 cb_actions := count_up ''tool_call'' (cb_actions b)\<rparr>))
      (andThen (gets (\<lambda>s. collect_decision_inputs L (as_str A) (as_buffer s))) (\<lambda>inputs.
         ret \<lparr>pc_data = dict_set ''tool_input'' (JObj input) data, pc_name = name, pc_input = input,
              pc_inputs = inputs, pc_entry = (if buffered then Some n else None)\<rparr>)))))))"

definition unbuffer_tool_call :: "pending_call \<Rightarrow> (unit, 'w) op" where
  "unbuffer_tool_call call = update_buffer (\<lambda>b.
     b\<lparr>cb_tool_calls := (case pc_entry call of None \<Rightarrow> cb_tool_calls b
          | Some n \<Rightarrow> filter (\<lambda>c. fst c \<noteq> n) (cb_tool_calls b)),
       cb_tool_usage := count_down (pc_name call) (cb_tool_usage b),
       cb_actions := count_down ''tool_call'' (cb_actions b)\<rparr>)"

section \<open>Enforcement\<close>

definition denial_message :: "string \<Rightarrow> string" where
  "denial_message c = ''agentegrity.denied:'' @ c @
     '': Agentegrity denied this tool call, so it did not run.''"

definition deny_payload :: "string \<Rightarrow> args" where
  "deny_payload c = [(''hookSpecificOutput'', JObj
     [(''hookEventName'', JStr ''PreToolUse''), (''permissionDecision'', JStr ''deny''),
      (''permissionDecisionReason'', JStr (denial_message c))])]"

definition denial_reason :: "(json \<Rightarrow> string) \<Rightarrow> args \<Rightarrow> exn + string option" where
  "denial_reason str decision =
     (let out = field_or ''hookSpecificOutput'' (JObj []) decision in
      bindS (get_or out ''permissionDecision'' JNull) (\<lambda>p.
        if p \<noteq> JStr ''deny'' then Inr None
        else bindS (get_or out ''permissionDecisionReason'' JNull) (\<lambda>r.
          Inr (Some (str (or_json r (JStr ''Agentegrity denied this tool call'')))))))"

definition ask_approval ::
  "('k, 'w) adapter \<Rightarrow> 'w handler \<Rightarrow> integrity_score \<Rightarrow> args \<Rightarrow> (approval_decision, 'w) op" where
  "ask_approval A h score candidate s =
     map_option (\<lambda>(d, w). (Inr d, s\<lparr>as_world := w\<rparr>))
       (resolve_approval (mc_time (ad_machine A)) h (ad_profile A) score (Some candidate) (as_world s))"

definition enforcement_decision ::
  "'k lib \<Rightarrow> ('k, 'w) adapter \<Rightarrow> integrity_score \<Rightarrow> args \<Rightarrow> (args, 'w) op" where
  "enforcement_decision L A score candidate =
     (if \<not> ad_enforce A then ret []
      else if score_action score = ''block'' then ret (deny_payload ''block'')
      else if score_action score = ''escalate'' then
        (case ad_handler A of
           None \<Rightarrow> ret (deny_payload ''escalate'')
         | Some h \<Rightarrow>
             andThen (ask_approval A h score candidate) (\<lambda>d.
             thenDo (record_decision L A ''approval'' candidate (Some (provenance_steps d)) None)
               (if ad_approved d then ret [] else ret (deny_payload ''escalate''))))
      else ret [])"

definition gate_request ::
  "('k, 'w) adapter \<Rightarrow> pending_call \<Rightarrow> action_provenance option \<Rightarrow> request" where
  "gate_request A call prov =
     \<lparr>rq_agent_id = ap_agent_id (ad_profile A), rq_run_id = ad_session_id A,
      rq_tool_name = pc_name call, rq_arguments = pc_input call, rq_action_id = None, rq_now = None,
      rq_provenance = prov\<rparr>"

definition gate_check :: "request \<Rightarrow> nat \<Rightarrow> host \<Rightarrow> (authorization_verdict, 'w) op" where
  "gate_check rq i hs s = (case check (as_heap s) i rq hs of
     Inl e \<Rightarrow> Some (Inl e, s) | Inr (v, h) \<Rightarrow> Some (Inr v, s\<lparr>as_heap := h\<rparr>))"

text \<open>The verdict of the action gate, when the adapter has one.\<close>

definition gate_authority ::
  "('k, 'w) adapter \<Rightarrow> pending_call \<Rightarrow> (authorization_verdict option, 'w) op" where
  "gate_authority A call =
     (case ad_gate A of
        None \<Rightarrow> ret None
      | Some i \<Rightarrow>
          andThen (case ad_provenance A of
              None \<Rightarrow> ret None
            | Some p \<Rightarrow> andThen (world_try (p (pc_name call) (pc_input call))) (\<lambda>x. ret (Some x))) (\<lambda>prov.
          andThen (world_op (ad_host A)) (\<lambda>hs.
          andThen (gate_check (gate_request A call prov) i hs) (\<lambda>v.
          thenDo (update (\<lambda>s. s\<lparr>as_clean := (as_clean s \<and> v_allowed v)\<rparr>)) (ret (Some v))))))"

definition with_authority :: "authorization_verdict option \<Rightarrow> args \<Rightarrow> args" where
  "with_authority v d = (case v of None \<Rightarrow> d
     | Some x \<Rightarrow> dict_set ''action_authority'' (verdict_to_dict x) d)"

definition decide_tool_call ::
  "'k lib \<Rightarrow> ('k, 'w) adapter \<Rightarrow> pending_call \<Rightarrow> integrity_score \<Rightarrow> (args, 'w) op" where
  "decide_tool_call L A call score =
     andThen (gate_authority A call) (\<lambda>authority.
       let candidate = with_authority authority
             [(''type'', JStr ''tool_call''), (''tool_name'', JStr (pc_name call)),
              (''arguments'', JObj (pc_input call))]
       in thenDo (record_decision L A ''pre_tool_use'' candidate None (Some (pc_inputs call)))
         (thenDo (emit_event A ''pre_tool_use'' (with_authority authority (pc_data call)) (Some score))
           (if authority \<noteq> None \<and> \<not> v_allowed (the authority) then ret (deny_payload ''action_authority'')
            else enforcement_decision L A score candidate)))"

end
