(* ===== verification/Adapter_Events.thy ===== *)
theory Adapter_Events
  imports Adapter
begin

text \<open>
  The event handlers of the framework adapter (adapters/base.py), their dispatch and its failure
  mode, the gates that wait on asynchronous layers, the declaration of topology and credentials,
  the end of a session and its summary.
\<close>

section \<open>Handlers\<close>

definition get_text :: "string \<Rightarrow> args \<Rightarrow> json" where
  "get_text k d = field_or k (JStr []) d"

definition handle_pre_tool_use :: "'k lib \<Rightarrow> ('k, 'w) adapter \<Rightarrow> args \<Rightarrow> (args, 'w) op" where
  "handle_pre_tool_use L A data =
     andThen (buffer_tool_call L A data) (\<lambda>call.
     andThen (run_evaluation L A) (decide_tool_call L A call))"

definition evaluate_and_emit :: "'k lib \<Rightarrow> ('k, 'w) adapter \<Rightarrow> string \<Rightarrow> args \<Rightarrow> (args, 'w) op" where
  "evaluate_and_emit L A type data =
     andThen (run_evaluation L A) (\<lambda>score. thenDo (emit_event A type data (Some score)) (ret []))"

definition handle_post_tool_use :: "'k lib \<Rightarrow> ('k, 'w) adapter \<Rightarrow> args \<Rightarrow> (args, 'w) op" where
  "handle_post_tool_use L A data =
     (let response = get_text ''tool_response'' data;
          content = (case response of JStr s \<Rightarrow> s | _ \<Rightarrow> dumps '', '' '': '' (l_float L) response)
      in thenDo (append_capped A ''tool_outputs'' cb_tool_outputs (\<lambda>xs b. b\<lparr>cb_tool_outputs := xs\<rparr>)
           (Output (get_text ''tool_name'' data) content))
         (evaluate_and_emit L A ''post_tool_use'' data))"

definition handle_post_tool_use_failure :: "'k lib \<Rightarrow> ('k, 'w) adapter \<Rightarrow> args \<Rightarrow> (args, 'w) op" where
  "handle_post_tool_use_failure L A data =
     andThen (gets (\<lambda>s. length (cb_tool_calls (as_buffer s)))) (\<lambda>n.
     thenDo (append_capped A ''tool_outputs'' cb_tool_outputs (\<lambda>xs b. b\<lparr>cb_tool_outputs := xs\<rparr>)
       (Failure (get_text ''tool_name'' data) (as_str A (get_text ''error'' data)) n))
     (thenDo (emit_event A ''post_tool_use_failure'' data None) (ret [])))"

definition handle_user_prompt_submit :: "'k lib \<Rightarrow> ('k, 'w) adapter \<Rightarrow> args \<Rightarrow> (args, 'w) op" where
  "handle_user_prompt_submit L A data =
     thenDo (case field_or ''prompt'' (get_text ''user_message'' data) data of
          JStr p \<Rightarrow> append_capped A ''inputs'' cb_inputs (\<lambda>xs b. b\<lparr>cb_inputs := xs\<rparr>) p
        | _ \<Rightarrow> ret False)
     (thenDo (update_buffer (\<lambda>b. b\<lparr>cb_actions := count_up ''user_prompt'' (cb_actions b)\<rparr>))
       (evaluate_and_emit L A ''user_prompt_submit'' data))"

definition with_usage :: "usage_ledger \<Rightarrow> args \<Rightarrow> args" where
  "with_usage l data = (case ledger_to_dict l of None \<Rightarrow> data
     | Some u \<Rightarrow> dict_set ''usage'' (JObj u) data)"

definition handle_stop :: "'k lib \<Rightarrow> ('k, 'w) adapter \<Rightarrow> args \<Rightarrow> (args, 'w) op" where
  "handle_stop L A data =
     andThen (run_evaluation L A) (\<lambda>score.
       let output = as_str A (or_json (field_or ''output'' JNull data)
             (or_json (field_or ''response'' JNull data)
               (or_json (field_or ''content'' JNull data) (JStr []))))
       in andThen (gets (\<lambda>s. collect_decision_inputs L (as_str A) (as_buffer s))) (\<lambda>inputs.
          thenDo (record_decision L A ''stop''
            [(''type'', JStr ''final_output''), (''content_hash'', JStr (text_digest L output)),
             (''summary'', JStr (take 120 output))] None (Some inputs))
         (andThen (gets (\<lambda>s. with_usage (as_usage s) data)) (\<lambda>d.
          thenDo (emit_event A ''stop'' d (Some score)) (ret [])))))"

text \<open>An object is no member of a set.\<close>

definition hashable :: "json \<Rightarrow> bool" where
  "hashable v = (case v of JArr _ \<Rightarrow> False | JObj _ \<Rightarrow> False | _ \<Rightarrow> True)"

definition require_hashable :: "json \<Rightarrow> (unit, 'w) op" where
  "require_hashable v = (if hashable v then ret () else throw (TypeError ''unhashable type''))"

definition handle_subagent_start :: "'k lib \<Rightarrow> ('k, 'w) adapter \<Rightarrow> args \<Rightarrow> (args, 'w) op" where
  "handle_subagent_start L A data =
     (let aid = get_text ''agent_id'' data in
      andThen (clock_text A) (\<lambda>now.
      thenDo (append_capped A ''subagents'' cb_subagents (\<lambda>xs b. b\<lparr>cb_subagents := xs\<rparr>)
        (JObj [(''agent_id'', aid), (''started'', JStr now)]))
     (thenDo (if truthy aid
          then thenDo (require_hashable aid)
            (update_buffer (\<lambda>b. b\<lparr>cb_starts := List.insert aid (cb_starts b)\<rparr>))
          else ret ())
     (andThen (gets (\<lambda>s. collect_decision_inputs L (as_str A) (as_buffer s))) (\<lambda>inputs.
      thenDo (record_decision L A ''subagent_start''
        [(''type'', JStr ''subagent_dispatch_observed''), (''agent_id'', aid),
         (''boundary_category'', JStr ''lifecycle_attestation'')] None (Some inputs))
     (thenDo (emit_event A ''subagent_start'' data None) (ret [])))))))"

definition handle_subagent_stop :: "'k lib \<Rightarrow> ('k, 'w) adapter \<Rightarrow> args \<Rightarrow> (args, 'w) op" where
  "handle_subagent_stop L A data =
     (let aid = get_text ''agent_id'' data in
      thenDo (if truthy aid then require_hashable aid else ret ())
     (andThen (gets (\<lambda>s. truthy aid \<and> aid \<notin> set (cb_starts (as_buffer s)))) (\<lambda>orphan.
      thenDo (if orphan
          then thenDo (emit_event A ''subagent_orphan''
            [(''agent_id'', aid), (''reason'', JStr ''stop_without_start'')] None) (ret ())
          else ret ())
     (andThen (clock_text A) (\<lambda>now.
      thenDo (append_capped A ''subagents'' cb_subagents (\<lambda>xs b. b\<lparr>cb_subagents := xs\<rparr>)
        (JObj [(''agent_id'', aid), (''stopped'', JStr now),
               (''transcript_path'', get_text ''agent_transcript_path'' data)]))
     (thenDo (require_hashable aid)
     (thenDo (update_buffer (\<lambda>b. b\<lparr>cb_starts := removeAll aid (cb_starts b)\<rparr>))
     (thenDo (emit_event A ''subagent_stop'' data None) (ret [])))))))))"

definition handle_pre_compact :: "'k lib \<Rightarrow> ('k, 'w) adapter \<Rightarrow> args \<Rightarrow> (args, 'w) op" where
  "handle_pre_compact L A data =
     andThen (gets as_buffer) (\<lambda>b.
     thenDo (emit_event A ''pre_compact''
       [(''reasoning_chain_length'', JInt (int (length (cb_reasoning b)))),
        (''archived_chain'', JArr (map JStr (cb_reasoning b))),
        (''archived_tool_outputs'', JArr (map output_to_dict (cb_tool_outputs b)))] None)
    (thenDo (update_buffer (\<lambda>b. b\<lparr>cb_reasoning := [], cb_tool_outputs := []\<rparr>))
    (thenDo (update (\<lambda>s. s\<lparr>as_overflow := filter (\<lambda>c. c \<notin> {''reasoning_chain'', ''tool_outputs''}) (as_overflow s)\<rparr>))
      (ret []))))"

definition handle_peer_message :: "'k lib \<Rightarrow> ('k, 'w) adapter \<Rightarrow> args \<Rightarrow> (args, 'w) op" where
  "handle_peer_message L A data =
     andThen (clock_text A) (\<lambda>now.
     thenDo (append_capped A ''peer_message'' cb_peer_messages (\<lambda>xs b. b\<lparr>cb_peer_messages := xs\<rparr>)
       (JObj [(''sender_agent_id'', get_text ''sender_agent_id'' data),
              (''content'', get_text ''content'' data),
              (''channel'', field_or ''channel'' (JStr ''peer_messages'') data),
              (''timestamp'', JStr now)]))
    (thenDo (emit_event A ''peer_message'' data None) (ret [])))"

definition handle_shared_memory_write :: "'k lib \<Rightarrow> ('k, 'w) adapter \<Rightarrow> args \<Rightarrow> (args, 'w) op" where
  "handle_shared_memory_write L A data =
     andThen (clock_text A) (\<lambda>now.
     thenDo (append_capped A ''shared_memory_write'' cb_shared_memory (\<lambda>xs b. b\<lparr>cb_shared_memory := xs\<rparr>)
       (JObj [(''writer_agent_id'', get_text ''writer_agent_id'' data), (''key'', get_text ''key'' data),
              (''content'', get_text ''content'' data),
              (''content_hash'', get_text ''content_hash'' data),
              (''summary'', get_text ''summary'' data), (''timestamp'', JStr now)]))
    (thenDo (emit_event A ''shared_memory_write'' data None) (ret [])))"

definition handle_broadcast :: "'k lib \<Rightarrow> ('k, 'w) adapter \<Rightarrow> args \<Rightarrow> (args, 'w) op" where
  "handle_broadcast L A data =
     andThen (clock_text A) (\<lambda>now.
     andThen (append_capped A ''broadcast'' cb_broadcasts (\<lambda>xs b. b\<lparr>cb_broadcasts := xs\<rparr>)
       (JObj [(''sender_agent_id'', get_text ''sender_agent_id'' data),
              (''channel'', field_or ''channel'' (JStr ''broadcast_channels'') data),
              (''content'', get_text ''content'' data), (''timestamp'', JStr now)])) (\<lambda>ok.
       if ok then thenDo (emit_event A ''broadcast'' data None) (ret []) else ret []))"

definition handle_task_started :: "'k lib \<Rightarrow> ('k, 'w) adapter \<Rightarrow> args \<Rightarrow> (args, 'w) op" where
  "handle_task_started L A data =
     andThen (clock_text A) (\<lambda>now.
     thenDo (append_capped A ''task_started'' cb_tasks (\<lambda>xs b. b\<lparr>cb_tasks := xs\<rparr>)
       (JObj [(''task_id'', get_text ''task_id'' data), (''description'', get_text ''description'' data),
              (''agent_id'', get_text ''agent_id'' data), (''started'', JStr now)]))
    (thenDo (emit_event A ''task_started'' data None) (ret [])))"

definition handle_credential_declared :: "'k lib \<Rightarrow> ('k, 'w) adapter \<Rightarrow> args \<Rightarrow> (args, 'w) op" where
  "handle_credential_declared L A data =
     andThen (emit_event A ''credential_declared'' data None) (\<lambda>e.
     thenDo (update (\<lambda>s. if as_exporters s = [] then s\<lparr>as_undelivered := as_undelivered s @ [e]\<rparr> else s))
       (ret []))"

section \<open>Dispatch\<close>

definition handler_of ::
  "'k lib \<Rightarrow> ('k, 'w) adapter \<Rightarrow> string \<Rightarrow> (args \<Rightarrow> (args, 'w) op) option" where
  "handler_of L A type = map_of
     [(''pre_tool_use'', handle_pre_tool_use L A), (''post_tool_use'', handle_post_tool_use L A),
      (''post_tool_use_failure'', handle_post_tool_use_failure L A),
      (''user_prompt_submit'', handle_user_prompt_submit L A), (''stop'', handle_stop L A),
      (''subagent_start'', handle_subagent_start L A), (''subagent_stop'', handle_subagent_stop L A),
      (''pre_compact'', handle_pre_compact L A),
      (''topology_declared'', evaluate_and_emit L A ''topology_declared''),
      (''topology_change'', evaluate_and_emit L A ''topology_change''),
      (''peer_message'', handle_peer_message L A),
      (''shared_memory_write'', handle_shared_memory_write L A), (''broadcast'', handle_broadcast L A),
      (''task_started'', handle_task_started L A),
      (''credential_declared'', handle_credential_declared L A)] type"

definition evaluation_failed :: "('k, 'w) adapter \<Rightarrow> string \<Rightarrow> (args, 'w) op" where
  "evaluation_failed A type =
     (if type = ''pre_tool_use''
      then thenDo (update (\<lambda>s. s\<lparr>as_clean := False\<rparr>))
        (if ad_enforce A then ret (deny_payload ''error'') else ret [])
      else ret [])"

definition catching :: "('k, 'w) adapter \<Rightarrow> string \<Rightarrow> (args, 'w) op \<Rightarrow> (args, 'w) op" where
  "catching A type m s = (case m s of
       None \<Rightarrow> None
     | Some (Inl e, s1) \<Rightarrow> evaluation_failed A type s1
     | Some (Inr x, s1) \<Rightarrow> Some (Inr x, s1))"

text \<open>
  The two halves of a gate with asynchronous layers, each under the lock; between them the score
  is computed on the context of the first half.
\<close>

definition open_gate :: "'k lib \<Rightarrow> ('k, 'w) adapter \<Rightarrow> args \<Rightarrow> (pending_call \<times> args, 'w) op" where
  "open_gate L A data =
     andThen (buffer_tool_call L A data) (\<lambda>call.
     andThen (evaluation_context L A) (\<lambda>ctx. ret (call, ctx)))"

definition close_gate :: "'k lib \<Rightarrow> ('k, 'w) adapter \<Rightarrow> pending_call \<Rightarrow> integrity_score \<Rightarrow> (args, 'w) op" where
  "close_gate L A call score = andThen (record_evaluation L A score) (decide_tool_call L A call)"

definition gate_sync ::
  "'k lib \<Rightarrow> ('k, 'w) adapter \<Rightarrow> (chain \<Rightarrow> args \<Rightarrow> 'w \<Rightarrow> (exn + integrity_score) \<times> 'w) \<Rightarrow> args \<Rightarrow> (args, 'w) op" where
  "gate_sync L A aeval data = catching A ''pre_tool_use''
     (andThen (open_gate L A data) (\<lambda>(call, ctx).
      andThen (gets as_chain) (\<lambda>c.
      andThen (world_try (aeval c ctx)) (close_gate L A call))))"

definition evaluate_sync :: "'k lib \<Rightarrow> ('k, 'w) adapter \<Rightarrow> string \<Rightarrow> args \<Rightarrow> (args, 'w) op" where
  "evaluate_sync L A type data =
     (case (if type = ''pre_tool_use'' then ad_aevaluate A else None) of
        Some aeval \<Rightarrow> gate_sync L A aeval data
      | None \<Rightarrow> catching A type (case handler_of L A type of None \<Rightarrow> ret [] | Some h \<Rightarrow> h data))"

definition tool_call_denial ::
  "'k lib \<Rightarrow> ('k, 'w) adapter \<Rightarrow> string \<Rightarrow> json \<Rightarrow> (string option, 'w) op" where
  "tool_call_denial L A name input =
     andThen (evaluate_sync L A ''pre_tool_use'' [(''tool_name'', JStr name), (''tool_input'', input)])
       (\<lambda>decision. lift_sum (denial_reason (as_str A) decision))"

definition violation_error :: "string \<Rightarrow> exn" where
  "violation_error reason = OtherError ''IntegrityViolationError'' reason"

definition enforce_tool_call :: "'k lib \<Rightarrow> ('k, 'w) adapter \<Rightarrow> string \<Rightarrow> args \<Rightarrow> (unit, 'w) op" where
  "enforce_tool_call L A name input =
     andThen (tool_call_denial L A name (JObj input)) (\<lambda>reason.
       case reason of None \<Rightarrow> ret () | Some r \<Rightarrow> throw (violation_error r))"

definition continue_or_raise :: "('k, 'w) adapter \<Rightarrow> string \<Rightarrow> exn + string" where
  "continue_or_raise A reason = (if ad_raise_on_deny A then Inl (violation_error reason) else Inr reason)"

text \<open>\<open>_dispatch\<close>: the result and any exception are discarded.\<close>

definition dispatch :: "'k lib \<Rightarrow> ('k, 'w) adapter \<Rightarrow> string \<Rightarrow> args \<Rightarrow> (unit, 'w) op" where
  "dispatch L A type data s = (case evaluate_sync L A type data s of
     None \<Rightarrow> None | Some (r, s1) \<Rightarrow> Some (Inr (), s1))"

section \<open>Topology, credentials and usage\<close>

definition set_topology ::
  "'k lib \<Rightarrow> ('k, 'w) adapter \<Rightarrow> agent_topology \<Rightarrow> agent_role option \<Rightarrow> (unit, 'w) op" where
  "set_topology L A t role =
     andThen (gets (\<lambda>s. cb_topology (as_buffer s))) (\<lambda>previous.
     thenDo (update_buffer (\<lambda>b. b\<lparr>cb_topology := Some t, cb_role := role\<rparr>))
       (case previous of
          None \<Rightarrow> dispatch L A ''topology_declared'' [(''topology'', topology_to_dict L t)]
        | Some p \<Rightarrow>
            if topology_hash L p = topology_hash L t then ret ()
            else let change = between L p t in
              thenDo (update (\<lambda>s. s\<lparr>as_pending_change := Some change\<rparr>))
                (dispatch L A ''topology_change''
                  [(''change'', change_to_dict change), (''topology'', topology_to_dict L t)])))"

definition ref_to_dict :: "credential_ref \<Rightarrow> json" where
  "ref_to_dict c = JObj [(''provider'', JStr (cr_provider c)), (''label'', JStr (cr_label c)),
     (''fingerprint'', JStr (cr_fingerprint c))]"

fun dispatch_all :: "'k lib \<Rightarrow> ('k, 'w) adapter \<Rightarrow> string \<Rightarrow> args list \<Rightarrow> (unit, 'w) op" where
  "dispatch_all L A type [] = ret ()"
| "dispatch_all L A type (d # ds) = thenDo (dispatch L A type d) (dispatch_all L A type ds)"

definition publish_new_credentials ::
  "'k lib \<Rightarrow> ('k, 'w) adapter \<Rightarrow> credential_ref list \<Rightarrow> (unit, 'w) op" where
  "publish_new_credentials L A known =
     andThen (gets (\<lambda>s. filter (\<lambda>c. c \<notin> set known) (registry_refs (as_credentials s)))) (\<lambda>new.
       dispatch_all L A ''credential_declared'' (map (\<lambda>c. [(''credential'', ref_to_dict c)]) new))"

definition adapter_declare_credential ::
  "'k lib \<Rightarrow> ('k, 'w) adapter \<Rightarrow> (string \<Rightarrow> string \<Rightarrow> string) \<Rightarrow> environment \<Rightarrow> string \<Rightarrow> string
     \<Rightarrow> string option \<Rightarrow> (credential_ref option, 'w) op" where
  "adapter_declare_credential L A hmac env provider secret label =
     andThen (gets (\<lambda>s. registry_refs (as_credentials s))) (\<lambda>known.
     andThen (gets (\<lambda>s. declare_credential hmac env provider secret label None (as_credentials s))) (\<lambda>(ref, r).
     thenDo (update (\<lambda>s. s\<lparr>as_credentials := r\<rparr>))
       (thenDo (publish_new_credentials L A known) (ret ref))))"

definition adapter_record_usage ::
  "('k, 'w) adapter \<Rightarrow> string \<Rightarrow> string option \<Rightarrow> token_usage \<Rightarrow> string \<Rightarrow> bool
     \<Rightarrow> 'w adapter_state \<Rightarrow> 'w adapter_state" where
  "adapter_record_usage A key model usage source whole s =
     s\<lparr>as_usage := record_usage key (if str_truthy model then model else ap_model_id (ad_profile A))
         usage source whole (as_usage s)\<rparr>"

section \<open>The end of a session\<close>

definition kind_count :: "string \<Rightarrow> chain \<Rightarrow> nat" where
  "kind_count k c = length (filter (\<lambda>r. record_kind r = k) c)"

text \<open>An exporter is described by its class name here; \<open>describe()\<close> is optional.\<close>

definition get_summary ::
  "'k lib \<Rightarrow> ('k, 'w) adapter \<Rightarrow> string set option \<Rightarrow> 'w adapter_state \<Rightarrow> exn + args" where
  "get_summary L A trusted s =
     bindS (signature_status L (as_chain s) trusted) (\<lambda>status.
       Inr ([(''adapter'', JStr (ad_name A)), (''agent_id'', JStr (ap_agent_id (ad_profile A))),
         (''evaluations'', JInt (int (as_count s))), (''events'', JInt (int (length (as_events s)))),
         (''attestation_records'', JInt (int (kind_count ''attestation'' (as_chain s)))),
         (''decision_records'', JInt (int (kind_count ''decision'' (as_chain s)))),
         (''chain_records'', JInt (int (length (as_chain s)))),
         (''chain_hash_linked'',
           if as_chain s = [] then JNull else JBool (verify_chain L (as_chain s))),
         (''chain_signatures'', JStr status), (''enforce_mode'', JBool (ad_enforce A)),
         (''exporters'', JArr (map (\<lambda>x. JObj [(''type'', JStr x)]) (as_exporters s))),
         (''credentials'', JArr (map ref_to_dict (registry_refs (as_credentials s))))] @
         (case ledger_to_dict (as_usage s) of None \<Rightarrow> [] | Some u \<Rightarrow> [(''usage'', JObj u)])))"

definition empty_summary :: "string \<Rightarrow> args" where
  "empty_summary name =
     [(''adapter'', JStr name), (''agent_id'', JNull), (''evaluations'', JInt 0), (''events'', JInt 0),
      (''attestation_records'', JInt 0), (''chain_hash_linked'', JNull),
      (''chain_signatures'', JStr ''none''), (''enforce_mode'', JBool False), (''exporters'', JArr [])]"

definition close_session :: "'k lib \<Rightarrow> ('k, 'w) adapter \<Rightarrow> (unit, 'w) op" where
  "close_session L A =
     andThen (gets as_ended) (\<lambda>ended.
       if ended then ret ()
       else thenDo (update (\<lambda>s. s\<lparr>as_ended := True\<rparr>))
         (thenDo (update (\<lambda>s. if as_clean s
              then s\<lparr>as_world := ad_learn A (cb_actions (as_buffer s)) (cb_tool_usage (as_buffer s)) (as_world s)\<rparr>
              else s))
         (andThen (gets as_exporters) (\<lambda>xs.
            if xs = [] then ret ()
            else andThen (\<lambda>s. Some (get_summary L A None s, s)) (\<lambda>d.
              update (notify ''on_session_end'' [JStr (ad_session_id A), JObj d]))))))"

section \<open>A new adapter\<close>

definition nonblank_id :: "string option \<Rightarrow> bool" where
  "nonblank_id s = (case s of None \<Rightarrow> True | Some x \<Rightarrow> nonblank x)"

text \<open>
  The guards of \<open>__init__\<close> and the session id it chooses; \<open>can_raise\<close> is the adapter's
  \<open>_can_raise_on_deny\<close>, \<open>mandate_run\<close> the run of the action gate's mandate, if any.
\<close>

definition init_session ::
  "string \<Rightarrow> bool \<Rightarrow> bool \<Rightarrow> string option option \<Rightarrow> string option \<Rightarrow> bool \<Rightarrow> string \<Rightarrow> exn + string" where
  "init_session on_deny can_raise enforce gate_run session has_provenance uuid =
     (let mandate_run = (case gate_run of None \<Rightarrow> None | Some r \<Rightarrow> r) in
      case first_error
        [(on_deny \<notin> {''continue'', ''raise''}, ValueError ''on_deny must be continue or raise''),
         (on_deny = ''raise'' \<and> \<not> can_raise, ValueError ''on_deny=raise is not supported''),
         (gate_run \<noteq> None \<and> \<not> enforce, ValueError ''action_security requires enforce=True''),
         (\<not> nonblank_id session, ValueError ''session_id must be a nonempty string''),
         (session \<noteq> None \<and> mandate_run \<noteq> None \<and> session \<noteq> mandate_run,
          ValueError ''session_id does not match the action-security mandate run_id''),
         (has_provenance \<and> gate_run = None, ValueError ''provenance_provider requires action_security'')]
      of Some e \<Rightarrow> Inl e
       | None \<Rightarrow> Inr (if str_truthy session then the session
                      else if str_truthy mandate_run then the mandate_run else uuid))"

definition initial_state :: "chain option \<Rightarrow> heap \<Rightarrow> 'w \<Rightarrow> 'w adapter_state" where
  "initial_state c h w =
     \<lparr>as_buffer = empty_buffer, as_events = [], as_chain = (case c of None \<Rightarrow> [] | Some x \<Rightarrow> x),
      as_count = 0, as_exporters = [], as_sent = [], as_credentials = empty_registry,
      as_undelivered = [], as_started = False, as_ended = False, as_clean = True,
      as_pending_change = None, as_overflow = [], as_usage = empty_ledger, as_heap = h, as_next = 0,
      as_world = w\<rparr>"

end
