(* ===== verification/Adapter_Properties.thy ===== *)
theory Adapter_Properties
  imports Adapter_Events
begin

text \<open>
  What the framework adapter guarantees: over every interleaving of events and gates its chain
  verifies and its buffers stay bounded, and under enforcement a tool call goes ahead only with
  leave of the evaluator, of the approver and of the action gate.
\<close>

section \<open>The invariant\<close>

definition buffers_capped :: "context_buffer \<Rightarrow> bool" where
  "buffers_capped b \<longleftrightarrow> length (cb_inputs b) \<le> buffer_cap \<and> length (cb_tool_calls b) \<le> buffer_cap \<and>
     length (cb_tool_outputs b) \<le> buffer_cap \<and> length (cb_subagents b) \<le> buffer_cap \<and>
     length (cb_peer_messages b) \<le> buffer_cap \<and> length (cb_shared_memory b) \<le> buffer_cap \<and>
     length (cb_broadcasts b) \<le> buffer_cap \<and> length (cb_tasks b) \<le> buffer_cap"

definition calls_numbered :: "'w adapter_state \<Rightarrow> bool" where
  "calls_numbered s \<longleftrightarrow> distinct (map fst (cb_tool_calls (as_buffer s))) \<and>
     (\<forall>c \<in> set (cb_tool_calls (as_buffer s)). fst c < as_next s)"

definition adapter_inv :: "'k lib \<Rightarrow> chain \<Rightarrow> 'w adapter_state \<Rightarrow> bool" where
  "adapter_inv L c0 s \<longleftrightarrow> verify_chain L (as_chain s) \<and> (\<exists>d. as_chain s = c0 @ d) \<and>
     buffers_capped (as_buffer s) \<and> calls_numbered s"

text \<open>Whatever changes none of the chain, the buffers and the numbering keeps the invariant.\<close>

lemma adapter_inv_cong:
  "as_chain s' = as_chain s \<Longrightarrow> as_buffer s' = as_buffer s \<Longrightarrow> as_next s' = as_next s \<Longrightarrow>
     adapter_inv L c0 s \<Longrightarrow> adapter_inv L c0 s'"
  by (simp add: adapter_inv_def calls_numbered_def)

lemma adapter_inv_append:
  assumes "adapter_inv L c0 s" and "chain_append L (as_chain s) r = Inr c"
  shows "adapter_inv L c0 (s\<lparr>as_chain := c\<rparr>)"
proof -
  have "verify_chain L c" using assms by (auto simp: adapter_inv_def intro: chain_append_verified)
  moreover obtain d where "as_chain s = c0 @ d" using assms by (auto simp: adapter_inv_def)
  then have "\<exists>d. c = c0 @ d" using assms(2) by (auto elim: chain_append_cases)
  ultimately show ?thesis using assms(1) by (simp add: adapter_inv_def calls_numbered_def)
qed

lemma keeps_update_cong:
  assumes "\<And>s. as_chain (f s) = as_chain s" "\<And>s. as_buffer (f s) = as_buffer s" "\<And>s. as_next (f s) = as_next s"
  shows "keeps (adapter_inv L c0) (update f)"
  by (rule keeps_update) (rule adapter_inv_cong [OF assms])

lemma keeps_inv_world [keeps_intros]:
  "keeps (adapter_inv L c0) (world_op f)" "keeps (adapter_inv L c0) (world_try g)"
  by (rule keeps_world; simp add: adapter_inv_def calls_numbered_def)+

lemma notify_same [simp]:
  "as_chain (notify c xs s) = as_chain s" "as_buffer (notify c xs s) = as_buffer s"
  "as_next (notify c xs s) = as_next s"
  by (simp_all add: notify_def)

lemma replay_same [simp]:
  "as_chain (replay_undelivered A s) = as_chain s" "as_buffer (replay_undelivered A s) = as_buffer s"
  "as_next (replay_undelivered A s) = as_next s"
proof -
  have *: "as_chain (fold f es q) = as_chain q \<and> as_buffer (fold f es q) = as_buffer q \<and>
      as_next (fold f es q) = as_next q"
    if "\<And>e q. as_chain (f e q) = as_chain q" "\<And>e q. as_buffer (f e q) = as_buffer q"
      "\<And>e q. as_next (f e q) = as_next q"
    for f :: "framework_event \<Rightarrow> 'a adapter_state \<Rightarrow> 'a adapter_state" and es and q
    using that by (induction es arbitrary: q) simp_all
  note replay = * [of "\<lambda>e. notify ''on_event'' [JStr (ad_session_id A), event_to_dict e]"
      "as_undelivered s" "s\<lparr>as_undelivered := []\<rparr>"]
  show "as_chain (replay_undelivered A s) = as_chain s" "as_buffer (replay_undelivered A s) = as_buffer s"
    "as_next (replay_undelivered A s) = as_next s"
    using replay by (simp_all add: replay_undelivered_def)
qed

lemma start_same [simp]:
  "as_chain (maybe_start_session A s) = as_chain s" "as_buffer (maybe_start_session A s) = as_buffer s"
  "as_next (maybe_start_session A s) = as_next s"
  by (simp_all add: maybe_start_session_def)

lemma keeps_clock [keeps_intros]: "keeps (adapter_inv L c0) (clock_text A)"
  unfolding clock_text_def by (rule keeps_inv_world)

lemma keeps_emit [keeps_intros]: "keeps (adapter_inv L c0) (emit_event A type data score)"
  unfolding emit_event_def Let_def by (intro keeps_intros keeps_update_cong) simp_all

lemma keeps_append_record [keeps_intros]: "keeps (adapter_inv L c0) (append_record L r)"
  by (auto simp: keeps_def append_record_def adapter_inv_append split: sum.splits)

lemma keeps_record_evaluation [keeps_intros]: "keeps (adapter_inv L c0) (record_evaluation L A score)"
  unfolding record_evaluation_def by (intro keeps_intros keeps_update_cong) simp_all

lemma keeps_evaluation_context [keeps_intros]: "keeps (adapter_inv L c0) (evaluation_context L A)"
  unfolding evaluation_context_def by (intro keeps_intros)

lemma keeps_run_evaluation [keeps_intros]: "keeps (adapter_inv L c0) (run_evaluation L A)"
  unfolding run_evaluation_def by (intro keeps_intros)

lemma keeps_record_decision [keeps_intros]: "keeps (adapter_inv L c0) (record_decision L A p a st inputs)"
proof -
  have *: "adapter_inv L c0 s'"
    if s: "adapter_inv L c0 s" and run: "(case bindS (build_decision_record L uuid now aid p (raw_args a)
                st None inputs None (expected_previous L (as_chain s)) key)
              (\<lambda>r. bindS (chain_append L (as_chain s) r) (\<lambda>c'. Inr (r, c'))) of
         Inl e \<Rightarrow> thenDo (emit_event A ''capture_failure''
             [(''decision_point'', JStr p), (''exception_class'', JStr (exn_class e))] None) (ret None)
       | Inr (r, c') \<Rightarrow> thenDo (update (\<lambda>s. s\<lparr>as_chain := c'\<rparr>)) (ret (Some r))) s = Some (res, s')"
    for s s' res uuid now aid key
  proof (cases "bindS (build_decision_record L uuid now aid p (raw_args a)
                st None inputs None (expected_previous L (as_chain s)) key)
              (\<lambda>r. bindS (chain_append L (as_chain s) r) (\<lambda>c'. Inr (r, c')))")
    case (Inl e)
    have "keeps (adapter_inv L c0) (thenDo (emit_event A ''capture_failure''
             [(''decision_point'', JStr p), (''exception_class'', JStr (exn_class e))] None) (ret None))"
      by (intro keeps_intros)
    from keepsD [OF this s] run Inl show ?thesis by simp
  next
    case (Inr rc)
    obtain r c' where rc: "rc = (r, c')" by (cases rc)
    with Inr have "chain_append L (as_chain s) r = Inr c'" by (auto simp: exn_simps)
    from adapter_inv_append [OF s this] run Inr rc show ?thesis
      by (simp add: thenDo_def andThen_def update_def ret_def)
  qed
  show ?thesis
    unfolding keeps_def
  proof (intro allI impI)
    fix s r s'
    assume s: "adapter_inv L c0 s" and run: "record_decision L A p a st inputs s = Some (r, s')"
    obtain uuid w1 where u: "mc_uuid (ad_machine A) (as_world s) = (uuid, w1)"
      by (cases "mc_uuid (ad_machine A) (as_world s)")
    obtain now w2 where t: "tm_now (mc_timer (ad_machine A)) w1 = (now, w2)"
      by (cases "tm_now (mc_timer (ad_machine A)) w1")
    let ?s = "s\<lparr>as_world := w2\<rparr>"
    have inv: "adapter_inv L c0 ?s" using s by (simp add: adapter_inv_def calls_numbered_def)
    show "adapter_inv L c0 s'"
      by (rule * [OF inv, of uuid now "ap_agent_id (ad_profile A)" "ad_key A" r])
        (use run u t in \<open>simp add: record_decision_def andThen_def world_op_def clock_text_def gets_def\<close>)
  qed
qed

text \<open>The outcome of an emission and of an append: neither raises.\<close>

lemma emit_event_returns:
  obtains e s' where "emit_event A type data score s = Some (Inr e, s')" "as_chain s' = as_chain s"
    "as_buffer s' = as_buffer s" "as_next s' = as_next s"
proof -
  obtain now w where t: "tm_now (mc_timer (ad_machine A)) (as_world s) = (now, w)"
    by (cases "tm_now (mc_timer (ad_machine A)) (as_world s)")
  have "\<exists>e s'. emit_event A type data score s = Some (Inr e, s') \<and> as_chain s' = as_chain s \<and>
      as_buffer s' = as_buffer s \<and> as_next s' = as_next s"
    by (simp add: emit_event_def clock_text_def world_op_def andThen_def thenDo_def update_def ret_def
        Let_def t)
  with that show thesis by blast
qed

lemma append_capped_returns:
  assumes "append_capped A channel get put x s = Some (r, s')"
  shows "r = Inr True \<and> length (get (as_buffer s)) < buffer_cap \<and>
       s' = s\<lparr>as_buffer := put (get (as_buffer s) @ [x]) (as_buffer s)\<rparr> \<or>
     r = Inr False \<and> buffer_cap \<le> length (get (as_buffer s)) \<and> as_chain s' = as_chain s \<and>
       as_buffer s' = as_buffer s \<and> as_next s' = as_next s"
proof (cases "buffer_cap \<le> length (get (as_buffer s))")
  case True
  show ?thesis
  proof (cases "channel \<in> set (as_overflow s)")
    case False
    obtain e q where "emit_event A (channel @ ''_overflow'')
        [(''channel'', JStr channel), (''limit'', JInt (int buffer_cap))] None
        (s\<lparr>as_overflow := channel # as_overflow s\<rparr>) = Some (Inr e, q)"
      "as_chain q = as_chain s" "as_buffer q = as_buffer s" "as_next q = as_next s"
      by (rule emit_event_returns [where s = "s\<lparr>as_overflow := channel # as_overflow s\<rparr>" and A = A
          and type = "channel @ ''_overflow''" and score = None
          and data = "[(''channel'', JStr channel), (''limit'', JInt (int buffer_cap))]"]) simp
    then show ?thesis using assms True False
      by (simp add: append_capped_def andThen_def thenDo_def gets_def update_def ret_def)
  qed (use assms True in \<open>simp add: append_capped_def andThen_def gets_def ret_def\<close>)
qed (use assms in \<open>simp add: append_capped_def andThen_def thenDo_def gets_def update_def
    update_buffer_def ret_def\<close>)

lemma keeps_append_capped:
  assumes "\<And>b xs. buffers_capped b \<Longrightarrow> length xs \<le> buffer_cap \<Longrightarrow> buffers_capped (put xs b)"
    and "\<And>b xs. cb_tool_calls (put xs b) = cb_tool_calls b"
  shows "keeps (adapter_inv L c0) (append_capped A channel get put x)"
  unfolding keeps_def
proof (intro allI impI)
  fix s r s'
  assume s: "adapter_inv L c0 s" and run: "append_capped A channel get put x s = Some (r, s')"
  from append_capped_returns [OF run] show "adapter_inv L c0 s'"
  proof (elim disjE conjE)
    assume "length (get (as_buffer s)) < buffer_cap"
      and s': "s' = s\<lparr>as_buffer := put (get (as_buffer s) @ [x]) (as_buffer s)\<rparr>"
    then have "buffers_capped (put (get (as_buffer s) @ [x]) (as_buffer s))"
      using s by (intro assms(1)) (simp_all add: adapter_inv_def)
    with s s' assms(2) show ?thesis by (simp add: adapter_inv_def calls_numbered_def)
  qed (use s in \<open>simp add: adapter_inv_def calls_numbered_def\<close>)
qed

lemma keeps_append_channels [keeps_intros]:
  "keeps (adapter_inv L c0) (append_capped A ch cb_inputs (\<lambda>xs b. b\<lparr>cb_inputs := xs\<rparr>) x1)"
  "keeps (adapter_inv L c0) (append_capped A ch cb_tool_outputs (\<lambda>xs b. b\<lparr>cb_tool_outputs := xs\<rparr>) x2)"
  "keeps (adapter_inv L c0) (append_capped A ch cb_subagents (\<lambda>xs b. b\<lparr>cb_subagents := xs\<rparr>) x3)"
  "keeps (adapter_inv L c0) (append_capped A ch cb_peer_messages (\<lambda>xs b. b\<lparr>cb_peer_messages := xs\<rparr>) x3)"
  "keeps (adapter_inv L c0) (append_capped A ch cb_shared_memory (\<lambda>xs b. b\<lparr>cb_shared_memory := xs\<rparr>) x3)"
  "keeps (adapter_inv L c0) (append_capped A ch cb_broadcasts (\<lambda>xs b. b\<lparr>cb_broadcasts := xs\<rparr>) x3)"
  "keeps (adapter_inv L c0) (append_capped A ch cb_tasks (\<lambda>xs b. b\<lparr>cb_tasks := xs\<rparr>) x3)"
  by (rule keeps_append_capped; simp add: buffers_capped_def)+

lemma keeps_update_buffer:
  assumes "\<And>b. buffers_capped b \<Longrightarrow> buffers_capped (f b)"
    and "\<And>b. \<exists>P. cb_tool_calls (f b) = filter P (cb_tool_calls b)"
  shows "keeps (adapter_inv L c0) (update_buffer f)"
  unfolding update_buffer_def
proof (rule keeps_update)
  fix s :: "_ adapter_state"
  assume s: "adapter_inv L c0 s"
  obtain P where "cb_tool_calls (f (as_buffer s)) = filter P (cb_tool_calls (as_buffer s))"
    using assms(2) by blast
  with s assms(1) show "adapter_inv L c0 (s\<lparr>as_buffer := f (as_buffer s)\<rparr>)"
    by (auto simp: adapter_inv_def calls_numbered_def intro: distinct_map_filter)
qed

lemma keeps_update_counters [keeps_intros]:
  assumes "\<And>b. buffers_capped b \<Longrightarrow> buffers_capped (f b)" "\<And>b. cb_tool_calls (f b) = cb_tool_calls b"
  shows "keeps (adapter_inv L c0) (update_buffer f)"
  using assms by (intro keeps_update_buffer exI [of _ "\<lambda>_. True"]) simp_all

section \<open>Operations keep the invariant\<close>

text \<open>A call is buffered under a number of its own.\<close>

lemma calls_fresh:
  assumes "adapter_inv L c0 s"
  shows "append_capped A ch cb_tool_calls (\<lambda>xs b. b\<lparr>cb_tool_calls := xs\<rparr>) (as_next s, e)
      (s\<lparr>as_next := as_next s + 1\<rparr>) = Some (r, s') \<Longrightarrow> adapter_inv L c0 s'"
proof (drule append_capped_returns, elim disjE conjE)
  assume "s' = s\<lparr>as_next := as_next s + 1\<rparr>
      \<lparr>as_buffer := as_buffer (s\<lparr>as_next := as_next s + 1\<rparr>)
        \<lparr>cb_tool_calls := cb_tool_calls (as_buffer (s\<lparr>as_next := as_next s + 1\<rparr>)) @ [(as_next s, e)]\<rparr>\<rparr>"
    and "length (cb_tool_calls (as_buffer (s\<lparr>as_next := as_next s + 1\<rparr>))) < buffer_cap"
  with assms show ?thesis
    by (auto simp: adapter_inv_def calls_numbered_def buffers_capped_def dest: bspec)
qed (use assms in \<open>auto simp: adapter_inv_def calls_numbered_def dest: bspec\<close>)

lemma keeps_number_call:
  assumes "\<And>n r. keeps (adapter_inv L c0) (f n r)"
  shows "keeps (adapter_inv L c0) (andThen (gets as_next) (\<lambda>n.
       thenDo (update (\<lambda>s. s\<lparr>as_next := as_next s + 1\<rparr>))
      (andThen (append_capped A ch cb_tool_calls (\<lambda>xs b. b\<lparr>cb_tool_calls := xs\<rparr>) (n, e)) (f n))))"
  unfolding keeps_def
proof (intro allI impI)
  fix s r s'
  assume s: "adapter_inv L c0 s"
    and run: "andThen (gets as_next) (\<lambda>n. thenDo (update (\<lambda>s. s\<lparr>as_next := as_next s + 1\<rparr>))
      (andThen (append_capped A ch cb_tool_calls (\<lambda>xs b. b\<lparr>cb_tool_calls := xs\<rparr>) (n, e)) (f n))) s = Some (r, s')"
  let ?append = "append_capped A ch cb_tool_calls (\<lambda>xs b. b\<lparr>cb_tool_calls := xs\<rparr>) (as_next s, e)"
  from run have run: "andThen ?append (f (as_next s)) (s\<lparr>as_next := as_next s + 1\<rparr>) = Some (r, s')"
    by (simp add: andThen_def gets_def thenDo_def update_def)
  then obtain x q where a: "?append (s\<lparr>as_next := as_next s + 1\<rparr>) = Some (x, q)"
    by (auto simp: andThen_def split: option.splits)
  note q = calls_fresh [OF s a]
  show "adapter_inv L c0 s'"
    using run a q keepsD [OF assms q] by (cases x) (auto simp: andThen_def)
qed

lemma keeps_buffer_tool_call [keeps_intros]: "keeps (adapter_inv L c0) (buffer_tool_call K A data)"
  unfolding buffer_tool_call_def Let_def
  by (intro keeps_andThen keeps_number_call keeps_lift_sum keeps_thenDo keeps_gets keeps_ret
      keeps_update_counters) (simp_all add: buffers_capped_def)

lemma keeps_unbuffer [keeps_intros]: "keeps (adapter_inv L c0) (unbuffer_tool_call call)"
  unfolding unbuffer_tool_call_def
proof (rule keeps_update_buffer)
  fix b :: context_buffer
  let ?f = "\<lambda>b. b\<lparr>cb_tool_calls := (case pc_entry call of None \<Rightarrow> cb_tool_calls b
          | Some n \<Rightarrow> filter (\<lambda>c. fst c \<noteq> n) (cb_tool_calls b)),
       cb_tool_usage := count_down (pc_name call) (cb_tool_usage b),
       cb_actions := count_down ''tool_call'' (cb_actions b)\<rparr>"
  show "\<exists>P. cb_tool_calls (?f b) = filter P (cb_tool_calls b)"
    by (rule exI [of _ "\<lambda>c. Some (fst c) \<noteq> pc_entry call"]) (cases "pc_entry call"; auto)
  show "buffers_capped b \<Longrightarrow> buffers_capped (?f b)"
    by (auto simp: buffers_capped_def split: option.splits intro: le_trans [OF length_filter_le])
qed

lemma keeps_ask_approval [keeps_intros]: "keeps (adapter_inv L c0) (ask_approval A h score candidate)"
  by (auto simp: keeps_def ask_approval_def intro: adapter_inv_cong [rotated 3])

lemma keeps_gate_check [keeps_intros]: "keeps (adapter_inv L c0) (gate_check rq i hs)"
  by (auto simp: keeps_def gate_check_def split: sum.splits intro: adapter_inv_cong [rotated 3])

lemma keeps_enforcement [keeps_intros]: "keeps (adapter_inv L c0) (enforcement_decision L A score candidate)"
  unfolding enforcement_decision_def by (intro keeps_intros)

lemma keeps_gate_authority [keeps_intros]: "keeps (adapter_inv L c0) (gate_authority A call)"
  unfolding gate_authority_def by (intro keeps_intros keeps_update_cong) simp_all

lemma keeps_decide [keeps_intros]: "keeps (adapter_inv L c0) (decide_tool_call L A call score)"
  unfolding decide_tool_call_def Let_def by (intro keeps_intros)

lemma keeps_handlers [keeps_intros]:
  "keeps (adapter_inv L c0) (handle_pre_tool_use L A data)"
  "keeps (adapter_inv L c0) (evaluate_and_emit L A type data)"
  "keeps (adapter_inv L c0) (handle_post_tool_use_failure L A data)"
  "keeps (adapter_inv L c0) (handle_stop L A data)"
  "keeps (adapter_inv L c0) (handle_peer_message L A data)"
  "keeps (adapter_inv L c0) (handle_shared_memory_write L A data)"
  "keeps (adapter_inv L c0) (handle_broadcast L A data)"
  "keeps (adapter_inv L c0) (handle_task_started L A data)"
  unfolding handle_pre_tool_use_def evaluate_and_emit_def handle_post_tool_use_failure_def handle_stop_def
    handle_peer_message_def handle_shared_memory_write_def handle_broadcast_def handle_task_started_def
    Let_def
  by (intro keeps_intros)+

lemma keeps_require_hashable [keeps_intros]: "keeps P (require_hashable v)"
  unfolding require_hashable_def by (intro keeps_intros)

lemma keeps_updating_handlers [keeps_intros]:
  "keeps (adapter_inv L c0) (handle_post_tool_use L A data)"
  "keeps (adapter_inv L c0) (handle_subagent_start L A data)"
  "keeps (adapter_inv L c0) (handle_subagent_stop L A data)"
  "keeps (adapter_inv L c0) (handle_pre_compact L A data)"
  "keeps (adapter_inv L c0) (handle_credential_declared L A data)"
  unfolding handle_post_tool_use_def handle_subagent_start_def handle_subagent_stop_def
    handle_pre_compact_def handle_credential_declared_def Let_def
  by (intro keeps_intros keeps_update_cong; simp add: buffers_capped_def)+

lemma keeps_prompt [keeps_intros]: "keeps (adapter_inv L c0) (handle_user_prompt_submit L A data)"
proof -
  have "keeps (adapter_inv L c0) (case v of JStr p \<Rightarrow> append_capped A ch cb_inputs (\<lambda>xs b. b\<lparr>cb_inputs := xs\<rparr>) p
      | _ \<Rightarrow> ret False)" for v ch
    by (cases v) (simp_all add: keeps_intros)
  then show ?thesis
    unfolding handle_user_prompt_submit_def
    by (intro keeps_intros) (simp_all add: buffers_capped_def)
qed

lemma keeps_handler_of: "handler_of L A type = Some h \<Longrightarrow> keeps (adapter_inv L c0) (h data)"
  by (auto simp: handler_of_def keeps_intros split: if_splits)

lemma keeps_catching [keeps_intros]:
  assumes "keeps (adapter_inv L c0) m"
  shows "keeps (adapter_inv L c0) (catching A type m)"
proof -
  have f: "keeps (adapter_inv L c0) (evaluation_failed A type)"
    unfolding evaluation_failed_def by (intro keeps_intros keeps_update_cong) simp_all
  show ?thesis
    unfolding keeps_def
  proof (intro allI impI)
    fix s r s'
    assume s: "adapter_inv L c0 s" and run: "catching A type m s = Some (r, s')"
    then obtain x q where m: "m s = Some (x, q)" by (auto simp: catching_def split: option.splits)
    note q = keepsD [OF assms s m]
    show "adapter_inv L c0 s'"
      using run m q keepsD [OF f q] by (cases x) (auto simp: catching_def)
  qed
qed

lemma keeps_gates [keeps_intros]:
  "keeps (adapter_inv L c0) (open_gate L A data)" "keeps (adapter_inv L c0) (close_gate L A call score)"
  unfolding open_gate_def close_gate_def by (intro keeps_intros)+

lemma keeps_evaluate_sync [keeps_intros]: "keeps (adapter_inv L c0) (evaluate_sync L A type data)"
proof -
  have h: "keeps (adapter_inv L c0) (catching A type (case handler_of L A type of None \<Rightarrow> ret [] | Some h \<Rightarrow> h data))"
    by (cases "handler_of L A type") (auto intro: keeps_intros keeps_handler_of)
  have g: "keeps (adapter_inv L c0) (gate_sync L A aeval data)" for aeval
    unfolding gate_sync_def by (intro keeps_intros)
  show ?thesis
    unfolding evaluate_sync_def
    by (rule keeps_case_option [OF h g])
qed

lemma keeps_dispatch [keeps_intros]: "keeps (adapter_inv L c0) (dispatch L A type data)"
  using keeps_evaluate_sync [of L c0 A type data]
  by (fastforce simp: keeps_def dispatch_def split: option.splits)

lemma keeps_set_topology [keeps_intros]: "keeps (adapter_inv L c0) (set_topology L A t role)"
  unfolding set_topology_def Let_def
  by (intro keeps_intros keeps_update_cong) (simp_all add: buffers_capped_def)

lemma keeps_dispatch_all [keeps_intros]: "keeps (adapter_inv L c0) (dispatch_all L A type ds)"
  by (induction ds) (auto intro: keeps_intros)

lemma keeps_declare [keeps_intros]:
  "keeps (adapter_inv L c0) (adapter_declare_credential L A hmac env provider secret label)"
  unfolding adapter_declare_credential_def publish_new_credentials_def
  by (intro keeps_intros keeps_update_cong) simp_all

lemma keeps_close_session [keeps_intros]: "keeps (adapter_inv L c0) (close_session L A)"
proof -
  have "keeps (adapter_inv L c0) (\<lambda>s. Some (get_summary L A None s, s))" by (simp add: keeps_def)
  then show ?thesis
    unfolding close_session_def by (intro keeps_intros keeps_update_cong) simp_all
qed

section \<open>Interleavings\<close>

text \<open>
  A state of the adapter with the gates that wait for their score. Each step is one critical section
  under the adapter's lock, or a change of the world outside; a waiting gate may be closed with any
  score, fail, or be cancelled, in any order.
\<close>

inductive adapter_step ::
  "'k lib \<Rightarrow> ('k, 'w) adapter \<Rightarrow> (string \<Rightarrow> string \<Rightarrow> string) \<Rightarrow> environment
     \<Rightarrow> 'w adapter_state \<times> (pending_call \<times> args) list
     \<Rightarrow> 'w adapter_state \<times> (pending_call \<times> args) list \<Rightarrow> bool"
  for L :: "'k lib" and A :: "('k, 'w) adapter" and hmac env where
  event: "evaluate_sync L A type data s = Some (r, s') \<Longrightarrow> adapter_step L A hmac env (s, ps) (s', ps)"
| gate: "open_gate L A data s = Some (Inr p, s') \<Longrightarrow> adapter_step L A hmac env (s, ps) (s', p # ps)"
| no_gate: "open_gate L A data s = Some (Inl e, s') \<Longrightarrow>
     evaluation_failed A ''pre_tool_use'' s' = Some (r, s'') \<Longrightarrow> adapter_step L A hmac env (s, ps) (s'', ps)"
| score: "p \<in> set ps \<Longrightarrow>
     catching A ''pre_tool_use'' (close_gate L A (fst p) score) s = Some (r, s') \<Longrightarrow>
     adapter_step L A hmac env (s, ps) (s', remove1 p ps)"
| failure: "p \<in> set ps \<Longrightarrow> evaluation_failed A ''pre_tool_use'' s = Some (r, s') \<Longrightarrow>
     adapter_step L A hmac env (s, ps) (s', remove1 p ps)"
| cancel: "p \<in> set ps \<Longrightarrow> unbuffer_tool_call (fst p) s = Some (r, s') \<Longrightarrow>
     adapter_step L A hmac env (s, ps) (s', remove1 p ps)"
| topology: "set_topology L A t role s = Some (r, s') \<Longrightarrow> adapter_step L A hmac env (s, ps) (s', ps)"
| credential: "adapter_declare_credential L A hmac env provider secret label s = Some (r, s') \<Longrightarrow>
     adapter_step L A hmac env (s, ps) (s', ps)"
| usage: "adapter_step L A hmac env (s, ps) (adapter_record_usage A key model usage source whole s, ps)"
| exporter: "adapter_step L A hmac env (s, ps) (register_exporter x s, ps)"
| world: "adapter_step L A hmac env (s, ps) (s\<lparr>as_world := w\<rparr>, ps)"
| close: "close_session L A s = Some (r, s') \<Longrightarrow> adapter_step L A hmac env (s, ps) (s', ps)"

inductive_cases adapter_stepE: "adapter_step L A hmac env x y"

lemma keeps_failed: "keeps (adapter_inv L c0) (evaluation_failed A type)"
  unfolding evaluation_failed_def by (intro keeps_intros keeps_update_cong) simp_all

lemma adapter_step_inv:
  "adapter_step L A hmac env x y \<Longrightarrow> adapter_inv L c0 (fst x) \<Longrightarrow> adapter_inv L c0 (fst y)"
  by (induction rule: adapter_step.induct; simp only: fst_conv;
    (rule keepsD [OF keeps_evaluate_sync], assumption, assumption
    | rule keepsD [OF keeps_gates(1)], assumption, assumption
    | rule keepsD [OF keeps_failed], rule keepsD [OF keeps_gates(1)], assumption, assumption, assumption
    | rule keepsD [OF keeps_catching [OF keeps_gates(2)]], assumption, assumption
    | rule keepsD [OF keeps_failed], assumption, assumption
    | rule keepsD [OF keeps_unbuffer], assumption, assumption
    | rule keepsD [OF keeps_set_topology], assumption, assumption
    | rule keepsD [OF keeps_declare], assumption, assumption
    | rule keepsD [OF keeps_close_session], assumption, assumption
    | simp add: adapter_inv_def calls_numbered_def adapter_record_usage_def register_exporter_def))

text \<open>
  C10: whatever events, gates, cancellations, declarations and endings an adapter goes through, in
  whatever order its critical sections run, its attestation chain keeps verifying and only grows
  beyond the chain it was given, each of its buffers holds at most a thousand entries, and no two
  buffered tool calls are the same object, so that a cancelled gate takes back its own call and no
  other.
\<close>

theorem adapter_invariant:
  assumes "verify_chain L c0"
    and "(adapter_step L A hmac env)\<^sup>*\<^sup>* (initial_state (Some c0) h w, []) (s, ps)"
  shows "verify_chain L (as_chain s) \<and> (\<exists>d. as_chain s = c0 @ d) \<and> buffers_capped (as_buffer s) \<and>
     distinct (map fst (cb_tool_calls (as_buffer s)))"
proof -
  have "adapter_inv L c0 (initial_state (Some c0) h w)"
    using assms(1) by (simp add: adapter_inv_def initial_state_def empty_buffer_def buffers_capped_def
        calls_numbered_def)
  with assms(2) have "adapter_inv L c0 (fst (s, ps))"
    by (induction rule: rtranclp_induct) (auto dest: adapter_step_inv)
  then show ?thesis by (simp add: adapter_inv_def calls_numbered_def)
qed

end
