(* ===== verification/Adapter_Leave.thy ===== *)
theory Adapter_Leave
  imports Adapter_Properties Gate_Authority
begin

text \<open>
  What an adapter answers: under enforcement a tool call goes ahead only with leave of the
  evaluator, the approver and the action gate; nothing else it does can stop the agent.
\<close>

section \<open>What operations give and that they return\<close>

definition gives :: "('a, 'w) op \<Rightarrow> ('a \<Rightarrow> bool) \<Rightarrow> bool" where
  "gives m Q \<longleftrightarrow> (\<forall>s x s'. m s = Some (Inr x, s') \<longrightarrow> Q x)"

definition returns :: "('a, 'w) op \<Rightarrow> bool" where
  "returns m \<longleftrightarrow> (\<forall>s. m s \<noteq> None)"

named_theorems returns_intros "operations that return"

lemma givesD: "gives m Q \<Longrightarrow> m s = Some (Inr x, s') \<Longrightarrow> Q x"
  unfolding gives_def by blast

lemma gives_any: "gives m (\<lambda>_. True)"
  by (simp add: gives_def)

lemma gives_ret: "Q x \<Longrightarrow> gives (ret x) Q"
  and gives_throw: "gives (throw e) Q"
  and gives_lift_sum: "(\<And>x. r = Inr x \<Longrightarrow> Q x) \<Longrightarrow> gives (lift_sum r) Q"
  and gives_weaken: "gives m P \<Longrightarrow> (\<And>x. P x \<Longrightarrow> Q x) \<Longrightarrow> gives m Q"
  by (auto simp: gives_def ret_def throw_def lift_sum_def)

lemma gives_andThen: "gives m P \<Longrightarrow> (\<And>x. P x \<Longrightarrow> gives (f x) Q) \<Longrightarrow> gives (andThen m f) Q"
  unfolding gives_def andThen_def by (auto split: option.splits sum.splits) blast

lemmas gives_bind = gives_andThen [OF gives_any]

lemma gives_thenDo: "gives n Q \<Longrightarrow> gives (thenDo m n) Q"
  unfolding thenDo_def by (rule gives_bind)

lemma gives_if: "(b \<Longrightarrow> gives m Q) \<Longrightarrow> (\<not> b \<Longrightarrow> gives n Q) \<Longrightarrow> gives (if b then m else n) Q"
  by simp

lemmas gives_intros = gives_ret gives_throw gives_thenDo gives_if gives_bind

lemma returns_basic [returns_intros]:
  "returns (ret x)" "returns (throw e)" "returns (gets f)" "returns (update g)" "returns (lift_sum r)"
  "returns (world_op u)" "returns (world_try v)" "returns (update_buffer b)" "returns (append_record L c)"
  by (auto simp: returns_def ret_def throw_def gets_def update_def lift_sum_def world_op_def
      world_try_def update_buffer_def append_record_def split: prod.splits sum.splits)

lemma returns_andThen [returns_intros]: "returns m \<Longrightarrow> (\<And>x. returns (f x)) \<Longrightarrow> returns (andThen m f)"
  by (fastforce simp: returns_def andThen_def split: option.splits sum.splits)

lemma returns_thenDo [returns_intros]: "returns m \<Longrightarrow> returns n \<Longrightarrow> returns (thenDo m n)"
  unfolding thenDo_def by (rule returns_andThen)

lemma returns_branches [returns_intros]:
  "returns m \<Longrightarrow> returns n \<Longrightarrow> returns (if b then m else n)"
  "returns m \<Longrightarrow> (\<And>x. returns (f x)) \<Longrightarrow> returns (case v of None \<Rightarrow> m | Some x \<Rightarrow> f x)"
  "(\<And>y z. returns (g y z)) \<Longrightarrow> returns (case p of (y, z) \<Rightarrow> g y z)"
  by (simp_all split: option.splits prod.splits)

section \<open>Tool calls\<close>

definition denials :: "string set" where
  "denials = {''block'', ''escalate'', ''action_authority'', ''error''}"

text \<open>
  What leave for a tool call is, said over the states the call itself goes through. The score is the
  one the adapter's evaluator returned for the context of the call, in the chain and the world found
  there, and it was recorded.
\<close>

definition scorer :: "('k, 'w) adapter \<Rightarrow> chain \<Rightarrow> args \<Rightarrow> 'w \<Rightarrow> (exn + integrity_score) \<times> 'w" where
  "scorer A = (case ad_aevaluate A of None \<Rightarrow> ad_evaluate A | Some f \<Rightarrow> f)"

definition scored ::
  "'k lib \<Rightarrow> ('k, 'w) adapter \<Rightarrow> 'w adapter_state \<Rightarrow> integrity_score \<Rightarrow> 'w adapter_state \<Rightarrow> bool" where
  "scored L A s score s' \<longleftrightarrow> (\<exists>ctx s1 w. evaluation_context L A s = Some (Inr ctx, s1) \<and>
     scorer A (as_chain s1) ctx (as_world s1) = (Inr score, w) \<and>
     record_evaluation L A score (s1\<lparr>as_world := w\<rparr>) = Some (Inr score, s'))"

text \<open>
  The action gate, where there is one, has the authority for the call: for this tool and these
  arguments, the agent of the profile, the run of the session, and the provenance the host's provider
  gave for them, at the host's time and under its fresh identifier, in the store the call found. \<open>v\<close>
  is the verdict and \<open>s'\<close> the state after it.
\<close>

definition provided ::
  "('k, 'w) adapter \<Rightarrow> string \<Rightarrow> args \<Rightarrow> 'w \<Rightarrow> action_provenance option \<Rightarrow> 'w \<Rightarrow> bool" where
  "provided A name input w prov w' \<longleftrightarrow> (case ad_provenance A of
     None \<Rightarrow> prov = None \<and> w' = w | Some p \<Rightarrow> \<exists>y. p name input w = (Inr y, w') \<and> prov = Some y)"

definition gate_allows ::
  "('k, 'w) adapter \<Rightarrow> string \<Rightarrow> args \<Rightarrow> 'w adapter_state \<Rightarrow> authorization_verdict option \<Rightarrow> 'w adapter_state
     \<Rightarrow> bool" where
  "gate_allows A name input s v s' \<longleftrightarrow> (case ad_gate A of
     None \<Rightarrow> v = None \<and> s' = s
   | Some i \<Rightarrow> \<exists>prov w hs w' rq x h.
       provided A name input (as_world s) prov w \<and> ad_host A w = (hs, w') \<and>
       rq = \<lparr>rq_agent_id = ap_agent_id (ad_profile A), rq_run_id = ad_session_id A, rq_tool_name = name,
         rq_arguments = input, rq_action_id = None, rq_now = None, rq_provenance = prov\<rparr> \<and>
       check (as_heap s) i rq hs = Inr (x, h) \<and>
       authorised (as_heap s) i rq (Aware (utc hs)) (fresh hs) \<and>
       v = Some x \<and> s' = s\<lparr>as_world := w', as_heap := h\<rparr>)"

definition call_action :: "authorization_verdict option \<Rightarrow> string \<Rightarrow> args \<Rightarrow> args" where
  "call_action v name input = with_authority v
     [(''type'', JStr ''tool_call''), (''tool_name'', JStr name), (''arguments'', JObj input)]"

text \<open>The approver, asked about this score and action in the world of \<open>s\<close>, approves.\<close>

definition human_approves :: "('k, 'w) adapter \<Rightarrow> integrity_score \<Rightarrow> args \<Rightarrow> 'w adapter_state \<Rightarrow> bool" where
  "human_approves A score action s \<longleftrightarrow> (\<exists>h reply. ad_handler A = Some h \<and>
     fst (h (ad_profile A) score (Some action) (as_world s)) = Returned reply \<and> Approval.grants reply)"

text \<open>
  Leave to decide a buffered and scored call: the gate has the authority, the score does not block,
  and if it escalates, the approver approves once the call is on the record and on the event log.
\<close>

definition cleared ::
  "'k lib \<Rightarrow> ('k, 'w) adapter \<Rightarrow> pending_call \<Rightarrow> integrity_score \<Rightarrow> 'w adapter_state \<Rightarrow> bool" where
  "cleared L A call score s \<longleftrightarrow> (\<exists>v s1 x s2 y s3. gate_allows A (pc_name call) (pc_input call) s v s1 \<and>
     record_decision L A ''pre_tool_use'' (call_action v (pc_name call) (pc_input call)) None
       (Some (pc_inputs call)) s1 = Some (Inr x, s2) \<and>
     emit_event A ''pre_tool_use'' (with_authority v (pc_data call)) (Some score) s2 = Some (Inr y, s3) \<and>
     score_action score \<noteq> ''block'' \<and>
     (score_action score = ''escalate'' \<longrightarrow>
        human_approves A score (call_action v (pc_name call) (pc_input call)) s3))"

definition leave :: "'k lib \<Rightarrow> ('k, 'w) adapter \<Rightarrow> string \<Rightarrow> args \<Rightarrow> 'w adapter_state \<Rightarrow> bool" where
  "leave L A name input s \<longleftrightarrow> (\<exists>call s1 score s2.
     buffer_tool_call L A [(''tool_name'', JStr name), (''tool_input'', JObj input)] s = Some (Inr call, s1) \<and>
     pc_name call = name \<and> pc_input call = input \<and>
     scored L A s1 score s2 \<and> cleared L A call score s2)"

text \<open>Sequencing.\<close>

lemma andThen_Inr:
  "andThen m f s = Some (Inr y, s') \<longleftrightarrow> (\<exists>x s1. m s = Some (Inr x, s1) \<and> f x s1 = Some (Inr y, s'))"
  by (auto simp: andThen_def split: option.splits sum.splits)

lemma andThen_after: "m s = Some (Inr x, s1) \<Longrightarrow> andThen m f s = f x s1"
  by (simp add: andThen_def)

lemma andThen_assoc: "andThen (andThen m f) g = andThen m (\<lambda>x. andThen (f x) g)"
  by (rule ext) (simp add: andThen_def split: option.split sum.split)

lemma andThen_ret: "andThen (ret x) f = f x"
  by (rule ext) (simp add: andThen_def ret_def)

lemma record_evaluation_gives: "gives (record_evaluation L A score) (\<lambda>x. x = score)"
  unfolding record_evaluation_def by (intro gives_bind gives_thenDo gives_ret) simp

text \<open>With and without asynchronous layers, a tool call is scored and decided in the same steps.\<close>

definition score_call :: "'k lib \<Rightarrow> ('k, 'w) adapter \<Rightarrow> (integrity_score, 'w) op" where
  "score_call L A = andThen (evaluation_context L A) (\<lambda>ctx. andThen (gets as_chain) (\<lambda>c.
     andThen (world_try (scorer A c ctx)) (record_evaluation L A)))"

lemma tool_call_steps:
  "evaluate_sync L A ''pre_tool_use'' data = catching A ''pre_tool_use''
     (andThen (buffer_tool_call L A data) (\<lambda>call. andThen (score_call L A) (decide_tool_call L A call)))"
proof (cases "ad_aevaluate A")
  case None
  have "handler_of L A ''pre_tool_use'' = Some (handle_pre_tool_use L A)" by (simp add: handler_of_def)
  with None show ?thesis
    by (simp add: evaluate_sync_def handle_pre_tool_use_def run_evaluation_def score_call_def scorer_def)
next
  case (Some f)
  then show ?thesis
    by (simp add: evaluate_sync_def gate_sync_def open_gate_def close_gate_def [abs_def] andThen_assoc andThen_ret
        score_call_def scorer_def)
qed

lemma gets_after: "gets f s = Some (Inr x, s') \<longleftrightarrow> x = f s \<and> s' = s"
  by (auto simp: gets_def)

lemma world_try_after: "world_try f s = Some (Inr x, s') \<longleftrightarrow> (\<exists>w. f (as_world s) = (Inr x, w) \<and> s' = s\<lparr>as_world := w\<rparr>)"
  by (auto simp: world_try_def split: prod.splits)

lemma world_op_after: "world_op f s = Some (Inr x, s') \<longleftrightarrow> (\<exists>w. f (as_world s) = (x, w) \<and> s' = s\<lparr>as_world := w\<rparr>)"
  by (auto simp: world_op_def split: prod.splits)

lemma score_call_scored: "score_call L A s = Some (Inr score, s') \<longleftrightarrow> scored L A s score s'"
proof
  assume "score_call L A s = Some (Inr score, s')"
  then obtain ctx s1 x w where e: "evaluation_context L A s = Some (Inr ctx, s1)"
      "scorer A (as_chain s1) ctx (as_world s1) = (Inr x, w)"
      "record_evaluation L A x (s1\<lparr>as_world := w\<rparr>) = Some (Inr score, s')"
    unfolding score_call_def andThen_Inr gets_after world_try_after by blast
  with givesD [OF record_evaluation_gives e(3)] show "scored L A s score s'"
    unfolding scored_def by blast
next
  assume "scored L A s score s'"
  then show "score_call L A s = Some (Inr score, s')"
    unfolding scored_def score_call_def andThen_Inr gets_after world_try_after by blast
qed

text \<open>What the gate answers.\<close>

lemma gate_check_after: "gate_check rq i hs s = Some (Inr v, s') \<longleftrightarrow>
    (\<exists>h. check (as_heap s) i rq hs = Inr (v, h) \<and> s' = s\<lparr>as_heap := h\<rparr>)"
  by (auto simp: gate_check_def split: sum.splits)

lemma checked_authority:
  assumes "check h i rq hs = Inr (v, h')" and "rq_now rq = None" and "rq_action_id rq = None"
  shows "v_allowed v \<longleftrightarrow> authorised h i rq (Aware (utc hs)) (fresh hs)"
proof -
  have "resolve_now (rq_now rq) (utc hs) = Aware (utc hs)" "request_id rq hs = fresh hs"
    using assms(2,3) by (simp_all add: resolve_now_def request_id_def str_set_def)
  with assms(1) show ?thesis by (simp add: exn_simps)
qed

lemma provided_after:
  "(case ad_provenance A of None \<Rightarrow> ret None
      | Some p \<Rightarrow> andThen (world_try (p name input)) (\<lambda>x. ret (Some x))) s = Some (Inr prov, s')
    \<longleftrightarrow> (\<exists>w. provided A name input (as_world s) prov w \<and> s' = s\<lparr>as_world := w\<rparr>)"
  by (cases "ad_provenance A") (auto simp: provided_def ret_def andThen_Inr world_try_after)

lemma gate_authority_allows:
  "gate_authority A call s = Some (Inr v, s') \<and> (v \<noteq> None \<longrightarrow> v_allowed (the v)) \<longleftrightarrow>
     gate_allows A (pc_name call) (pc_input call) s v s'"
proof (cases "ad_gate A")
  case None
  then show ?thesis by (auto simp: gate_authority_def gate_allows_def ret_def)
next
  case (Some i)
  note steps = gate_authority_def Some option.case andThen_Inr provided_after world_op_after gate_check_after
    thenDo_def update_def ret_def
  show ?thesis
  proof
    assume l: "gate_authority A call s = Some (Inr v, s') \<and> (v \<noteq> None \<longrightarrow> v_allowed (the v))"
    then obtain prov w hs w' x h where g: "provided A (pc_name call) (pc_input call) (as_world s) prov w"
        "ad_host A w = (hs, w')" "check (as_heap s) i (gate_request A call prov) hs = Inr (x, h)"
        "v = Some x" "s' = s\<lparr>as_world := w', as_heap := h, as_clean := (as_clean s \<and> v_allowed x)\<rparr>"
      unfolding steps by auto
    have "authorised (as_heap s) i (gate_request A call prov) (Aware (utc hs)) (fresh hs)"
      using checked_authority [OF g(3)] l g(4) by (simp add: gate_request_def)
    moreover have "s' = s\<lparr>as_world := w', as_heap := h\<rparr>" using l g(4,5) by simp
    ultimately show "gate_allows A (pc_name call) (pc_input call) s v s'"
      unfolding gate_allows_def Some option.case
      using g(1-4) unfolding gate_request_def by blast
  next
    assume "gate_allows A (pc_name call) (pc_input call) s v s'"
    then obtain prov w hs w' x h where g: "provided A (pc_name call) (pc_input call) (as_world s) prov w"
        "ad_host A w = (hs, w')" "check (as_heap s) i (gate_request A call prov) hs = Inr (x, h)"
        "authorised (as_heap s) i (gate_request A call prov) (Aware (utc hs)) (fresh hs)"
        "v = Some x" "s' = s\<lparr>as_world := w', as_heap := h\<rparr>"
      unfolding gate_allows_def Some option.case gate_request_def by blast
    have v: "v_allowed x" using checked_authority [OF g(3)] g(4) by (simp add: gate_request_def)
    have 1: "(case ad_provenance A of None \<Rightarrow> ret None
        | Some p \<Rightarrow> andThen (world_try (p (pc_name call) (pc_input call))) (\<lambda>x. ret (Some x))) s
        = Some (Inr prov, s\<lparr>as_world := w\<rparr>)"
      using provided_after g(1) by blast
    have 2: "world_op (ad_host A) (s\<lparr>as_world := w\<rparr>) = Some (Inr hs, s\<lparr>as_world := w'\<rparr>)"
      by (simp add: world_op_def g(2))
    have 3: "gate_check (gate_request A call prov) i hs (s\<lparr>as_world := w'\<rparr>)
        = Some (Inr x, s\<lparr>as_world := w', as_heap := h\<rparr>)"
      by (simp add: gate_check_def g(3))
    have "gate_authority A call s = Some (Inr v, s')"
      unfolding gate_authority_def Some option.case
      by (simp only: andThen_def 1 2 3 option.case prod.case sum.case)
        (simp add: thenDo_def andThen_def update_def ret_def v g(5,6))
    with v g(5) show "gate_authority A call s = Some (Inr v, s') \<and> (v \<noteq> None \<longrightarrow> v_allowed (the v))" by simp
  qed
qed

text \<open>Recording and emitting do not raise.\<close>

definition never_raises :: "('a, 'w) op \<Rightarrow> bool" where
  "never_raises m \<longleftrightarrow> (\<forall>s e s'. m s \<noteq> Some (Inl e, s'))"

lemma never_raises_andThen: "never_raises m \<Longrightarrow> (\<And>x. never_raises (f x)) \<Longrightarrow> never_raises (andThen m f)"
  by (fastforce simp: never_raises_def andThen_def split: option.splits sum.splits)

lemma never_raises_basic:
  "never_raises (ret x)" "never_raises (gets f)" "never_raises (update g)" "never_raises (world_op u)"
  by (auto simp: never_raises_def ret_def gets_def update_def world_op_def split: prod.splits)

lemma never_raises_thenDo: "never_raises m \<Longrightarrow> never_raises n \<Longrightarrow> never_raises (thenDo m n)"
  unfolding thenDo_def by (rule never_raises_andThen)

lemma emit_event_never_raises: "never_raises (emit_event A type data score)"
  unfolding emit_event_def clock_text_def Let_def
  by (intro never_raises_andThen never_raises_thenDo never_raises_basic)

lemma never_raises_case_sum:
  "(\<And>e. never_raises (f e)) \<Longrightarrow> (\<And>x. never_raises (g x)) \<Longrightarrow> never_raises (case v of Inl e \<Rightarrow> f e | Inr x \<Rightarrow> g x)"
  "(\<And>y z. never_raises (k y z)) \<Longrightarrow> never_raises (case p of (y, z) \<Rightarrow> k y z)"
  by (cases v, simp_all) (cases p, simp)

lemma record_decision_never_raises: "never_raises (record_decision L A p a st inputs)"
  unfolding record_decision_def clock_text_def
  by (intro never_raises_andThen never_raises_thenDo never_raises_basic never_raises_case_sum emit_event_never_raises)


text \<open>A denial is always for one of the causes.\<close>

lemma ask_approval_after:
  "ad_handler A = Some h \<Longrightarrow> ask_approval A h score candidate s = Some (x, s') \<Longrightarrow>
     \<exists>d. x = Inr d \<and> (ad_approved d \<longleftrightarrow> human_approves A score candidate s)"
  unfolding ask_approval_def human_approves_def
  by (auto dest!: resolve_approval_approved)

lemma enforcement_answers:
  assumes "ad_enforce A" and "enforcement_decision L A score candidate s = Some (r, s')"
  shows "r = Inr (if score_action score = ''block'' then deny_payload ''block''
     else if score_action score = ''escalate'' \<and> \<not> human_approves A score candidate s then deny_payload ''escalate''
     else [])"
proof (cases "score_action score = ''escalate''")
  case False
  with assms show ?thesis by (auto simp: enforcement_decision_def ret_def)
next
  case True
  then have b: "score_action score \<noteq> ''block''" by simp
  show ?thesis
  proof (cases "ad_handler A")
    case None
    with assms True b show ?thesis by (auto simp: enforcement_decision_def ret_def human_approves_def)
  next
    case (Some h)
    have run: "andThen (ask_approval A h score candidate) (\<lambda>d.
         thenDo (record_decision L A ''approval'' candidate (Some (provenance_steps d)) None)
           (if ad_approved d then ret [] else ret (deny_payload ''escalate''))) s = Some (r, s')"
      using assms(2) by (simp add: enforcement_decision_def assms(1) True Some)
    then obtain x s1 where x: "ask_approval A h score candidate s = Some (x, s1)"
      by (auto simp: andThen_def split: option.splits)
    from ask_approval_after [OF Some x] obtain d where d: "x = Inr d"
      "ad_approved d \<longleftrightarrow> human_approves A score candidate s" by blast
    have k: "thenDo (record_decision L A ''approval'' candidate (Some (provenance_steps d)) None)
         (if ad_approved d then ret [] else ret (deny_payload ''escalate'')) s1 = Some (r, s')"
      using run x d(1) by (simp add: andThen_def)
    have "r = Inr (if ad_approved d then [] else deny_payload ''escalate'')"
      using k record_decision_never_raises [of L A "''approval''" candidate "Some (provenance_steps d)" None]
      unfolding never_raises_def thenDo_def andThen_def
      by (auto simp: ret_def split: option.splits sum.splits)
    with d(2) True b show ?thesis by simp
  qed
qed

lemma decide_answers:
  assumes "ad_enforce A" and "decide_tool_call L A call score s = Some (r, s')"
  shows "if cleared L A call score s then r = Inr []
     else (\<exists>e. r = Inl e) \<or> (\<exists>c \<in> denials. r = Inr (deny_payload c))"
proof -
  let ?act = "\<lambda>v. call_action v (pc_name call) (pc_input call)"
  define rest where "rest v = thenDo (record_decision L A ''pre_tool_use'' (?act v) None (Some (pc_inputs call)))
         (thenDo (emit_event A ''pre_tool_use'' (with_authority v (pc_data call)) (Some score))
           (if v \<noteq> None \<and> \<not> v_allowed (the v) then ret (deny_payload ''action_authority'')
            else enforcement_decision L A score (?act v)))" for v
  have dec: "decide_tool_call L A call score = andThen (gate_authority A call) rest"
    unfolding decide_tool_call_def rest_def call_action_def Let_def ..
  from assms(2) obtain x s1 where x: "gate_authority A call s = Some (x, s1)"
    unfolding dec by (auto simp: andThen_def split: option.splits)
  show ?thesis
  proof (cases x)
    case (Inl e)
    have "\<not> cleared L A call score s"
      using x Inl unfolding cleared_def gate_authority_allows [symmetric] by auto
    moreover have "r = Inl e" using assms(2) x Inl unfolding dec by (simp add: andThen_def)
    ultimately show ?thesis by simp
  next
    case (Inr v)
    have run: "rest v s1 = Some (r, s')"
      using assms(2) x Inr unfolding dec by (simp add: andThen_def)
    then obtain y s2 z s3 where y: "record_decision L A ''pre_tool_use'' (?act v) None (Some (pc_inputs call)) s1 = Some (Inr y, s2)"
      and z: "emit_event A ''pre_tool_use'' (with_authority v (pc_data call)) (Some score) s2 = Some (Inr z, s3)"
      using record_decision_never_raises [of L A "''pre_tool_use''" "?act v" None "Some (pc_inputs call)"]
        emit_event_never_raises [of A "''pre_tool_use''" "with_authority v (pc_data call)" "Some score"]
      unfolding rest_def never_raises_def thenDo_def
      by (auto simp: andThen_def split: option.splits sum.splits)
    have last: "(if v \<noteq> None \<and> \<not> v_allowed (the v) then ret (deny_payload ''action_authority'')
            else enforcement_decision L A score (?act v)) s3 = Some (r, s')"
      using run unfolding rest_def thenDo_def by (simp add: andThen_def y z)
    have c: "cleared L A call score s \<longleftrightarrow> (v \<noteq> None \<longrightarrow> v_allowed (the v)) \<and> score_action score \<noteq> ''block'' \<and>
        (score_action score = ''escalate'' \<longrightarrow> human_approves A score (?act v) s3)"
      unfolding cleared_def gate_authority_allows [symmetric] using x Inr y z by auto
    show ?thesis
    proof (cases "v \<noteq> None \<and> \<not> v_allowed (the v)")
      case True
      then have "\<not> cleared L A call score s" unfolding c by blast
      moreover have "r = Inr (deny_payload ''action_authority'')" using last True by (simp add: ret_def)
      ultimately show ?thesis by (simp add: denials_def)
    next
      case False
      have "enforcement_decision L A score (?act v) s3 = Some (r, s')" using last unfolding if_not_P [OF False] .
      from enforcement_answers [OF assms(1) this] False show ?thesis
        unfolding c denials_def by (auto split: if_splits)
    qed
  qed
qed

lemma buffer_gives:
  "gives (buffer_tool_call K A [(''tool_name'', JStr name), (''tool_input'', JObj input)])
     (\<lambda>call. pc_name call = name \<and> pc_input call = input)"
proof -
  have n: "name_text (field_or ''tool_name'' (JStr []) [(''tool_name'', JStr name), (''tool_input'', JObj input)])
      = Inr name"
    by (simp add: field_or_def)
  have i: "arguments_of A (field_or ''tool_input'' JNull [(''tool_name'', JStr name), (''tool_input'', JObj input)])
      = input"
    by (simp add: field_or_def arguments_of_def)
  show ?thesis
    unfolding buffer_tool_call_def n i Let_def
  proof (rule gives_andThen [where P = "\<lambda>x. x = name"])
    show "gives (lift_sum (Inr name)) (\<lambda>x. x = name)" by (rule gives_lift_sum) simp
  qed (intro gives_bind gives_thenDo gives_ret, simp)
qed

lemma evaluation_failed_answers:
  "evaluation_failed A type s = Some (r, s') \<Longrightarrow>
     r = Inr (if type = ''pre_tool_use'' \<and> ad_enforce A then deny_payload ''error'' else [])"
  by (auto simp: evaluation_failed_def thenDo_def andThen_def update_def ret_def split: if_splits)

lemma catching_never_raises: "catching A type m s = Some (r, s') \<Longrightarrow> \<exists>d. r = Inr d"
  by (auto simp: catching_def split: option.splits sum.splits dest!: evaluation_failed_answers)

lemma tool_call_answers:
  assumes "ad_enforce A"
    and "evaluate_sync L A ''pre_tool_use'' [(''tool_name'', JStr name), (''tool_input'', JObj input)] s = Some (Inr d, s')"
  shows "if leave L A name input s then d = [] else \<exists>c \<in> denials. d = deny_payload c"
proof -
  let ?data = "[(''tool_name'', JStr name), (''tool_input'', JObj input)]"
  let ?rest = "\<lambda>call. andThen (score_call L A) (decide_tool_call L A call)"
  have error: "\<exists>c \<in> denials. d = deny_payload c" if "andThen (buffer_tool_call L A ?data) ?rest s = Some (Inl e, q)" for e q
    using assms that unfolding tool_call_steps
    by (intro bexI [of _ "''error''"]) (auto simp: catching_def denials_def dest: evaluation_failed_answers)
  obtain y q where y: "andThen (buffer_tool_call L A ?data) ?rest s = Some (y, q)"
    using assms(2) unfolding tool_call_steps by (auto simp: catching_def split: option.splits)
  have d: "d = z" if "y = Inr z" for z
    using assms(2) y that unfolding tool_call_steps by (simp add: catching_def)
  show ?thesis
  proof (cases "\<exists>call s1 score s2. buffer_tool_call L A ?data s = Some (Inr call, s1) \<and> scored L A s1 score s2")
    case False
    then have "\<not> leave L A name input s" unfolding leave_def by blast
    moreover have "y \<noteq> Inr z" for z
    proof
      assume "y = Inr z"
      with y have "andThen (buffer_tool_call L A ?data) ?rest s = Some (Inr z, q)" by (simp only:)
      then obtain call s1 where "buffer_tool_call L A ?data s = Some (Inr call, s1)"
        and "andThen (score_call L A) (decide_tool_call L A call) s1 = Some (Inr z, q)"
        unfolding andThen_Inr [of "buffer_tool_call L A ?data"] by blast
      with False show False unfolding andThen_Inr score_call_scored by blast
    qed
    ultimately show ?thesis using error y by (cases y) auto
  next
    case True
    then obtain call s1 score s2 where b: "buffer_tool_call L A ?data s = Some (Inr call, s1)"
      and sc: "score_call L A s1 = Some (Inr score, s2)"
      unfolding score_call_scored by blast
    have call: "pc_name call = name" "pc_input call = input" using givesD [OF buffer_gives b] by simp_all
    have leave: "leave L A name input s \<longleftrightarrow> cleared L A call score s2"
      unfolding leave_def score_call_scored [symmetric] using b sc call by auto
    have "decide_tool_call L A call score s2 = Some (y, q)"
      using y b sc by (simp add: andThen_def)
    from decide_answers [OF assms(1) this] have "if cleared L A call score s2 then y = Inr []
        else (\<exists>e. y = Inl e) \<or> (\<exists>c \<in> denials. y = Inr (deny_payload c))" .
    then show ?thesis unfolding leave using error y d by (cases y) (auto split: if_splits)
  qed
qed

lemma evaluate_sync_never_raises: "evaluate_sync L A type data s = Some (r, s') \<Longrightarrow> \<exists>d. r = Inr d"
  by (auto simp: evaluate_sync_def gate_sync_def split: option.splits if_splits dest!: catching_never_raises)

lemma denial_reason_payload:
  "denial_reason (as_str A) (deny_payload c) = Inr (Some (denial_message c))"
  by (simp add: denial_reason_def deny_payload_def field_or_def or_json_def as_str_def exn_simps
      denial_message_def)

lemma denial_reason_none: "denial_reason (as_str A) [] = Inr None"
  by (simp add: denial_reason_def field_or_def exn_simps)

text \<open>
  C5: under enforcement a tool call runs exactly with leave. From whatever state, checking the call
  (when it returns: the approver may never answer) goes through if and only if, in the course of this
  very check, the call was buffered and classified, the adapter's evaluator returned a score for its
  context and the score was recorded, the action gate, if the adapter has one, has the authority for
  this tool with these arguments by this agent in this session, the score does not say \<open>block\<close>, and if
  it says \<open>escalate\<close> then the approval handler, asked about this score and this action, approved.
  Otherwise the check raises an integrity violation that names one of the four causes; so no exception
  of an evaluator, classifier, provenance provider, gate or handler lets the call through.
\<close>

theorem tool_call_runs_only_with_leave:
  assumes "ad_enforce A"
    and "enforce_tool_call L A name input s = Some (r, s')"
  shows "if leave L A name input s then r = Inr ()
     else \<exists>c \<in> denials. r = Inl (violation_error (denial_message c))"
proof -
  let ?eval = "evaluate_sync L A ''pre_tool_use'' [(''tool_name'', JStr name), (''tool_input'', JObj input)]"
  from assms(2) obtain x q where e: "?eval s = Some (x, q)"
    by (auto simp: enforce_tool_call_def tool_call_denial_def andThen_def split: option.splits)
  then obtain d where d: "x = Inr d" using evaluate_sync_never_raises by blast
  have r: "r = (case denial_reason (as_str A) d of Inl e \<Rightarrow> Inl e | Inr None \<Rightarrow> Inr ()
      | Inr (Some m) \<Rightarrow> Inl (violation_error m))"
    using assms(2) e d by (auto simp: enforce_tool_call_def tool_call_denial_def andThen_def lift_sum_def
        ret_def throw_def split: sum.splits option.splits)
  from tool_call_answers [OF assms(1) e [unfolded d]] show ?thesis
    unfolding r by (auto simp: denial_reason_payload denial_reason_none split: if_splits)
qed

section \<open>Every event is answered\<close>

definition answers :: "('k, 'w) adapter \<Rightarrow> bool" where
  "answers A \<longleftrightarrow> (\<forall>h score candidate w. ad_handler A = Some h \<longrightarrow>
     fst (h (ad_profile A) score (Some candidate) w) \<noteq> Unanswered)"

lemma returns_emit [returns_intros]: "returns (emit_event A type data score)"
  unfolding emit_event_def clock_text_def Let_def by (intro returns_intros)

lemma returns_evaluation [returns_intros]:
  "returns (evaluation_context L A)" "returns (record_evaluation L A score)" "returns (run_evaluation L A)"
  unfolding evaluation_context_def record_evaluation_def run_evaluation_def clock_text_def
  by (intro returns_intros)+

lemma returns_case_sum [returns_intros]:
  "(\<And>e. returns (f e)) \<Longrightarrow> (\<And>x. returns (g x)) \<Longrightarrow> returns (case v of Inl e \<Rightarrow> f e | Inr x \<Rightarrow> g x)"
  by (cases v) simp_all

lemma returns_record_decision [returns_intros]: "returns (record_decision L A p a st inputs)"
  unfolding record_decision_def clock_text_def by (intro returns_intros)

lemma returns_append [returns_intros]: "returns (append_capped A ch get put x)"
  unfolding append_capped_def by (intro returns_intros)

lemma returns_buffer [returns_intros]: "returns (buffer_tool_call K A data)"
  unfolding buffer_tool_call_def Let_def by (intro returns_intros)

lemma returns_gate_authority [returns_intros]: "returns (gate_authority A call)"
proof -
  have "returns (gate_check rq i hs)" for rq i hs
    by (auto simp: returns_def gate_check_def split: sum.splits)
  then show ?thesis unfolding gate_authority_def by (intro returns_intros)
qed

lemma returns_enforcement:
  assumes "answers A" shows "returns (enforcement_decision L A score candidate)"
proof -
  have "returns (ask_approval A h score candidate)" if "ad_handler A = Some h" for h
    unfolding returns_def ask_approval_def
  proof
    fix s :: "_ adapter_state"
    have "fst (h (ad_profile A) score (Some candidate) (as_world s)) \<noteq> Unanswered"
      using assms that by (simp add: answers_def)
    then show "map_option (\<lambda>(d, w). (Inr d, s\<lparr>as_world := w\<rparr>))
        (resolve_approval (mc_time (ad_machine A)) h (ad_profile A) score (Some candidate) (as_world s)) \<noteq> None"
      by (auto simp: resolve_approval_def split: prod.splits outcome.splits reply.splits)
  qed
  then show ?thesis
    unfolding enforcement_decision_def
    by (cases "ad_handler A") (auto intro!: returns_intros)
qed

lemma returns_decide:
  assumes "answers A" shows "returns (decide_tool_call L A call score)"
  unfolding decide_tool_call_def Let_def by (intro returns_intros returns_enforcement [OF assms])

lemma returns_catching: "returns m \<Longrightarrow> returns (catching A type m)"
  by (auto simp: returns_def catching_def evaluation_failed_def thenDo_def andThen_def update_def ret_def
      split: option.splits sum.splits)

text \<open>The handlers return, and only that of \<open>pre_tool_use\<close> answers with anything.\<close>

lemmas handler_defs = handle_post_tool_use_def handle_post_tool_use_failure_def handle_user_prompt_submit_def
    handle_stop_def handle_subagent_start_def handle_subagent_stop_def handle_pre_compact_def
    handle_peer_message_def handle_shared_memory_write_def handle_broadcast_def handle_task_started_def
    handle_credential_declared_def evaluate_and_emit_def require_hashable_def clock_text_def Let_def

lemma handlers_return:
  assumes "answers A" and "handler_of L A type = Some h"
  shows "returns (h data)"
proof -
  have j: "returns (case v of JStr p \<Rightarrow> f p | _ \<Rightarrow> ret False)" if "\<And>p. returns (f p)" for v f
    by (cases v) (simp_all add: that returns_intros)
  have pre: "returns (handle_pre_tool_use L A data)"
    unfolding handle_pre_tool_use_def by (intro returns_intros returns_decide [OF assms(1)])
  have rest: "returns (handle_post_tool_use L A data)" "returns (handle_post_tool_use_failure L A data)"
    "returns (handle_user_prompt_submit L A data)" "returns (handle_stop L A data)"
    "returns (handle_subagent_start L A data)" "returns (handle_subagent_stop L A data)"
    "returns (handle_pre_compact L A data)" "returns (evaluate_and_emit L A t data)"
    "returns (handle_peer_message L A data)" "returns (handle_shared_memory_write L A data)"
    "returns (handle_broadcast L A data)" "returns (handle_task_started L A data)"
    "returns (handle_credential_declared L A data)" for t
    unfolding handler_defs by (intro returns_intros j)+
  from assms(2) pre rest show ?thesis by (auto simp: handler_of_def split: if_splits)
qed

lemma handlers_quiet:
  assumes "type \<noteq> ''pre_tool_use''" and "handler_of L A type = Some h"
  shows "gives (h data) (\<lambda>d. d = [])"
proof -
  have none: "gives (handle_post_tool_use L A data) (\<lambda>d. d = [])"
    "gives (handle_post_tool_use_failure L A data) (\<lambda>d. d = [])"
    "gives (handle_user_prompt_submit L A data) (\<lambda>d. d = [])" "gives (handle_stop L A data) (\<lambda>d. d = [])"
    "gives (handle_subagent_start L A data) (\<lambda>d. d = [])" "gives (handle_subagent_stop L A data) (\<lambda>d. d = [])"
    "gives (handle_pre_compact L A data) (\<lambda>d. d = [])" "gives (evaluate_and_emit L A t data) (\<lambda>d. d = [])"
    "gives (handle_peer_message L A data) (\<lambda>d. d = [])" "gives (handle_shared_memory_write L A data) (\<lambda>d. d = [])"
    "gives (handle_broadcast L A data) (\<lambda>d. d = [])" "gives (handle_task_started L A data) (\<lambda>d. d = [])"
    "gives (handle_credential_declared L A data) (\<lambda>d. d = [])" for t
    unfolding handler_defs by (intro gives_intros refl)+
  from assms none show ?thesis by (auto simp: handler_of_def split: if_splits)
qed

lemma enforcement_kinds:
  "gives (enforcement_decision L A score candidate)
     (\<lambda>d. d = [] \<or> ad_enforce A \<and> (d = deny_payload ''block'' \<or> d = deny_payload ''escalate''))"
  by (cases "ad_handler A") (auto simp: enforcement_decision_def intro!: gives_ret gives_bind gives_thenDo)

lemma gate_authority_some: "gives (gate_authority A call) (\<lambda>v. v \<noteq> None \<longrightarrow> ad_gate A \<noteq> None)"
  by (cases "ad_gate A") (simp_all add: gate_authority_def gives_ret gives_any)

lemma decide_kinds:
  assumes "ad_enforce A \<or> ad_gate A = None"
  shows "gives (decide_tool_call L A call score) (\<lambda>d. d = [] \<or> ad_enforce A \<and> (\<exists>c \<in> denials. d = deny_payload c))"
  unfolding decide_tool_call_def Let_def
proof (rule gives_andThen [OF gate_authority_some], intro gives_thenDo gives_if, goal_cases)
  case (1 v)
  with assms show ?case by (intro gives_ret) (auto simp: denials_def)
next
  case (2 v)
  show ?case by (rule gives_weaken [OF enforcement_kinds]) (auto simp: denials_def)
qed

lemma catching_kinds:
  assumes "gives m (\<lambda>d. d = [] \<or> type = ''pre_tool_use'' \<and> ad_enforce A \<and> (\<exists>c \<in> denials. d = deny_payload c))"
  shows "gives (catching A type m)
     (\<lambda>d. d = [] \<or> type = ''pre_tool_use'' \<and> ad_enforce A \<and> (\<exists>c \<in> denials. d = deny_payload c))"
  unfolding gives_def
proof (intro allI impI)
  fix s d s'
  assume run: "catching A type m s = Some (Inr d, s')"
  then obtain x q where m: "m s = Some (x, q)" by (auto simp: catching_def split: option.splits)
  show "d = [] \<or> type = ''pre_tool_use'' \<and> ad_enforce A \<and> (\<exists>c \<in> denials. d = deny_payload c)"
  proof (cases x)
    case (Inl e)
    with run m have "d = (if type = ''pre_tool_use'' \<and> ad_enforce A then deny_payload ''error'' else [])"
      by (auto simp: catching_def dest!: evaluation_failed_answers)
    then show ?thesis by (auto simp: denials_def)
  next
    case (Inr y)
    with run m givesD [OF assms] show ?thesis by (simp add: catching_def)
  qed
qed

lemma evaluate_sync_kinds:
  assumes "ad_enforce A \<or> ad_gate A = None"
  shows "gives (evaluate_sync L A type data)
     (\<lambda>d. d = [] \<or> type = ''pre_tool_use'' \<and> ad_enforce A \<and> (\<exists>c \<in> denials. d = deny_payload c))"
proof (cases "type = ''pre_tool_use''")
  case True
  have "gives (andThen (buffer_tool_call L A data) (\<lambda>call. andThen (score_call L A) (decide_tool_call L A call)))
      (\<lambda>d. d = [] \<or> type = ''pre_tool_use'' \<and> ad_enforce A \<and> (\<exists>c \<in> denials. d = deny_payload c))"
    by (rule gives_bind, rule gives_bind, rule gives_weaken [OF decide_kinds [OF assms]]) (simp add: True)
  from catching_kinds [OF this] show ?thesis unfolding True tool_call_steps .
next
  case False
  have "gives (case handler_of L A type of None \<Rightarrow> ret [] | Some h \<Rightarrow> h data) (\<lambda>d. d = [])"
    by (cases "handler_of L A type") (auto intro: gives_ret handlers_quiet [OF False])
  from catching_kinds [OF gives_weaken [OF this], of type A] False show ?thesis
    by (simp add: evaluate_sync_def)
qed

lemma evaluate_sync_returns:
  assumes "answers A"
  shows "returns (evaluate_sync L A type data)"
proof -
  have open_close: "returns (open_gate L A data)" "returns (close_gate L A call score)" for call score
    unfolding open_gate_def close_gate_def by (intro returns_intros returns_decide [OF assms(1)])+
  have g: "returns (gate_sync L A f data)" for f
    unfolding gate_sync_def by (intro returns_catching returns_intros open_close)
  have h: "returns (catching A type (case handler_of L A type of None \<Rightarrow> ret [] | Some h \<Rightarrow> h data))"
    by (rule returns_catching)
      (auto intro: returns_intros handlers_return [OF assms(1)] split: option.splits)
  show ?thesis unfolding evaluate_sync_def by (intro returns_intros g h)
qed

text \<open>
  C21: every event is answered. When the approval handler, if the adapter has one, answers, then the
  adapter answers every event of every name in every state: whatever its evaluator, classifier,
  provenance provider, action gate, clocks and chain do, no exception reaches the agent. (An adapter with an action gate enforces: \<open>__init__\<close> refuses it
  otherwise.) The answer is the empty decision, which lets the agent go on, except that under enforcement a tool call may
  be denied, for one of the four causes.
\<close>

theorem every_event_answered:
  assumes "answers A" and "ad_enforce A \<or> ad_gate A = None"
  shows "\<exists>d s'. evaluate_sync L A type data s = Some (Inr d, s') \<and>
     (d = [] \<or> type = ''pre_tool_use'' \<and> ad_enforce A \<and> (\<exists>c \<in> denials. d = deny_payload c))"
proof -
  obtain r s' where run: "evaluate_sync L A type data s = Some (r, s')"
    using evaluate_sync_returns [OF assms(1)] unfolding returns_def by fastforce
  then obtain d where d: "r = Inr d" using evaluate_sync_never_raises by blast
  have "gives (evaluate_sync L A type data) (\<lambda>d. d = [] \<or> type = ''pre_tool_use'' \<and> ad_enforce A \<and>
      (\<exists>c \<in> denials. d = deny_payload c))"
    by (rule evaluate_sync_kinds [OF assms(2)])
  from givesD [OF this run [unfolded d]] run d show ?thesis by blast
qed

section \<open>A full buffer\<close>

text \<open>
  Once a thousand tool calls are buffered, a new one changes neither the buffered calls nor, so, the
  action its own evaluation is given: every later call is judged as the thousandth.
\<close>

lemma full_buffer_freezes_calls:
  assumes "buffer_cap \<le> length (cb_tool_calls (as_buffer s))"
    and "buffer_tool_call K A data s = Some (Inr call, s')"
  shows "cb_tool_calls (as_buffer s') = cb_tool_calls (as_buffer s)"
proof -
  have a: "\<exists>q. append_capped A ch cb_tool_calls (\<lambda>xs b. b\<lparr>cb_tool_calls := xs\<rparr>) e (s\<lparr>as_next := n\<rparr>)
      = Some (Inr False, q) \<and> as_buffer q = as_buffer s" for ch e n
  proof -
    have "returns (append_capped A ch cb_tool_calls (\<lambda>xs b. b\<lparr>cb_tool_calls := xs\<rparr>) e)"
      by (rule returns_append)
    then obtain r q where run: "append_capped A ch cb_tool_calls (\<lambda>xs b. b\<lparr>cb_tool_calls := xs\<rparr>) e
        (s\<lparr>as_next := n\<rparr>) = Some (r, q)"
      unfolding returns_def by fastforce
    from append_capped_returns [OF run] assms(1) run show ?thesis by auto
  qed
  obtain name cats where n: "name_text (field_or ''tool_name'' (JStr []) data) = Inr name"
    "ad_classify A name (arguments_of A (field_or ''tool_input'' JNull data)) = Inr cats"
    using assms(2) by (auto simp: buffer_tool_call_def andThen_def lift_sum_def Let_def
        split: sum.splits option.splits)
  obtain q where q: "append_capped A ''tool_calls'' cb_tool_calls (\<lambda>xs b. b\<lparr>cb_tool_calls := xs\<rparr>)
      (as_next s, call_entry name (arguments_of A (field_or ''tool_input'' JNull data)) cats)
      (s\<lparr>as_next := Suc (as_next s)\<rparr>) = Some (Inr False, q)" "as_buffer q = as_buffer s"
    using a by blast
  show ?thesis
    using assms(2) n q by (auto simp: buffer_tool_call_def andThen_def thenDo_def lift_sum_def gets_def
        update_def update_buffer_def ret_def Let_def)
qed

lemma full_buffer_freezes_action:
  assumes "buffer_cap \<le> length (cb_tool_calls (as_buffer s))"
    and "buffer_tool_call K A data s = Some (Inr call, s')"
  shows "field_or ''action'' JNull (to_evaluation_context L (as_buffer s'))
    = field_or ''action'' JNull (to_evaluation_context L (as_buffer s))"
  by (simp add: to_evaluation_context_def field_or_def full_buffer_freezes_calls [OF assms])

section \<open>A failing evaluator\<close>

definition failing_adapter :: "(string, unit) adapter" where
  "failing_adapter = \<lparr>ad_name = ''test'', ad_profile = default_profile ''a'' ''t'' ''agent'',
     ad_enforce = True, ad_raise_on_deny = False, ad_key = None, ad_handler = None, ad_gate = None,
     ad_session_id = ''s'', ad_provenance = None,
     ad_evaluate = \<lambda>c ctx w. (Inl (ValueError ''no model''), w), ad_aevaluate = None,
     ad_classify = \<lambda>n a. Inr [], ad_str = \<lambda>v. [], ad_baselines = \<lambda>r w. (Inr [], w),
     ad_record_score = \<lambda>x w. w, ad_learn = \<lambda>x y w. w, ad_machine = sample_machine,
     ad_host = \<lambda>w. (\<lparr>utc = 5, fresh = ''f''\<rparr>, w)\<rparr>"

lemma failing_answers: "answers failing_adapter" "ad_enforce failing_adapter"
  by (simp_all add: answers_def failing_adapter_def)

text \<open>The same adapter with an evaluator that passes: its call runs.\<close>

definition passing_adapter :: "(string, unit) adapter" where
  "passing_adapter = failing_adapter\<lparr>ad_evaluate := \<lambda>c ctx w.
     (Inr (sample_score\<lparr>is_layer_results := [sample_result ''a'' 1 ''pass'']\<rparr>), w)\<rparr>"

lemma passing_runs:
  "map_option fst (enforce_tool_call sample_lib passing_adapter ''t'' [] (initial_state None [] ())) = Some (Inr ())"
  by code_simp

lemma tool_call_runs_only_with_leave_witness:
  "(\<exists>c \<in> denials. \<exists>s'. enforce_tool_call sample_lib failing_adapter ''t'' [] (initial_state None [] ())
     = Some (Inl (violation_error (denial_message c)), s'))
   \<and> leave sample_lib passing_adapter ''t'' [] (initial_state None [] ())"
proof -
  have "returns (enforce_tool_call sample_lib failing_adapter ''t'' [])"
    unfolding enforce_tool_call_def tool_call_denial_def
    by (intro returns_intros evaluate_sync_returns failing_answers)
  then obtain r s' where e: "enforce_tool_call sample_lib failing_adapter ''t'' []
      (initial_state None [] ()) = Some (r, s')"
    unfolding returns_def by fastforce
  have "\<not> leave sample_lib failing_adapter ''t'' [] (initial_state None [] ())"
    by (simp add: leave_def scored_def scorer_def failing_adapter_def)
  with tool_call_runs_only_with_leave [OF failing_answers(2) e] e
  have "\<exists>c \<in> denials. \<exists>s'. enforce_tool_call sample_lib failing_adapter ''t'' [] (initial_state None [] ())
     = Some (Inl (violation_error (denial_message c)), s')" by auto
  moreover obtain q where q: "enforce_tool_call sample_lib passing_adapter ''t'' [] (initial_state None [] ())
      = Some (Inr (), q)"
    using passing_runs by auto
  have "ad_enforce passing_adapter" by (simp add: passing_adapter_def failing_adapter_def)
  from tool_call_runs_only_with_leave [OF this q]
  have "leave sample_lib passing_adapter ''t'' [] (initial_state None [] ())" by (auto split: if_splits)
  ultimately show ?thesis by blast
qed

lemma every_event_answered_witness:
  "\<exists>d s'. evaluate_sync sample_lib failing_adapter ''stop'' [] (initial_state None [] ())
     = Some (Inr d, s') \<and> d = []"
  using every_event_answered [OF failing_answers(1) disjI1 [OF failing_answers(2)],
      of sample_lib "''stop''" "[]" "initial_state None [] ()"] by auto

lemma adapter_invariant_witness:
  "\<exists>s. (adapter_step sample_lib failing_adapter (\<lambda>k m. m) [])\<^sup>*\<^sup>* (initial_state (Some []) [] (), []) (s, [])
     \<and> s \<noteq> initial_state (Some []) [] () \<and> verify_chain sample_lib (as_chain s) \<and> buffers_capped (as_buffer s)"
proof -
  let ?init = "initial_state (Some []) [] ()"
  have step: "adapter_step sample_lib failing_adapter (\<lambda>k m. m) [] (?init, []) (register_exporter ''x'' ?init, [])"
    by (rule adapter_step.exporter)
  have run: "(adapter_step sample_lib failing_adapter (\<lambda>k m. m) [])\<^sup>*\<^sup>* (?init, [])
      (register_exporter ''x'' ?init, [])"
    by (rule r_into_rtranclp [of "adapter_step sample_lib failing_adapter (\<lambda>k m. m) []"]) (rule step)
  have "verify_chain sample_lib []" by (simp add: verify_chain_linked)
  from adapter_invariant [OF this run] run show ?thesis
    by (intro exI [of _ "register_exporter ''x'' ?init"])
      (simp add: register_exporter_def initial_state_def)
qed

end
