(* ===== verification/Pipeline.thy ===== *)
theory Pipeline
  imports Adversarial_Properties Cortical_Properties Recovery_Properties Governance_Properties Adapter_Leave
begin

text \<open>
  The default pipeline (\<open>layers/__init__.py\<close>): the four layers of the development put together under
  one evaluator, as the client and the adapters use them, on a state that holds what each layer keeps.
  The composite score of the pipeline stays in its bounds, and a tool call that the classifier finds
  dangerous is denied by an enforcing adapter.
\<close>

section \<open>The state of the pipeline\<close>

text \<open>
  What the layers take from outside: \<open>str\<close> and \<open>repr\<close>, the parser of ISO texts, the clock, whose n-th
  reading is \<open>pe_now n\<close>, and the ISO text of an instant.
\<close>

record pipeline_env =
  pe_str :: "json \<Rightarrow> string"
  pe_repr :: "json \<Rightarrow> string"
  pe_parse :: "string \<Rightarrow> datetime option"
  pe_now :: "nat \<Rightarrow> int"
  pe_text :: "int \<Rightarrow> string"

record layers_state =
  pl_governance :: "unit governance"
  pl_cortical :: cortical
  pl_baselines :: baseline_heap
  pl_recovery :: recovery
  pl_chains :: chain_heap
  pl_readings :: nat

definition read_clock :: "pipeline_env \<Rightarrow> layers_state \<Rightarrow> int \<times> layers_state" where
  "read_clock E w = (pe_now E (pl_readings w), w\<lparr>pl_readings := pl_readings w + 1\<rparr>)"

text \<open>A value of another type than the records hold counts as the \<open>TypeError\<close> its use would raise.\<close>

definition as_raised :: "decode_error + 'a \<Rightarrow> exn + 'a" where
  "as_raised r = (case r of Inl (Fails e) \<Rightarrow> Inl e | Inl (Ill_typed m) \<Rightarrow> Inl (TypeError m) | Inr x \<Rightarrow> Inr x)"

section \<open>The layers\<close>

definition adversarial_layer :: "pipeline_env \<Rightarrow> adversarial \<Rightarrow> (layers_state, agent_profile) layer" where
  "adversarial_layer E a = \<lparr>ly_name = ''adversarial'',
     ly_evaluate = (\<lambda>p ctx w. (adversarial_evaluate (pe_str E) (pe_repr E) a p ctx, w)), ly_aevaluate = None\<rparr>"

definition cortical_layer :: "pipeline_env \<Rightarrow> (layers_state, agent_profile) layer" where
  "cortical_layer E = \<lparr>ly_name = ''cortical'',
     ly_evaluate = (\<lambda>p ctx w. case read_clock E w of (now, w1) \<Rightarrow>
       (case cortical_evaluate (pe_str E) (pe_parse E) now (None :: unit baseline_backend option) (pe_text E now)
             (ap_agent_id p) ctx (pl_cortical w1) (pl_baselines w1) () of
          (r, c, h) \<Rightarrow> (as_raised r, w1\<lparr>pl_cortical := c, pl_baselines := h\<rparr>))),
     ly_aevaluate = None\<rparr>"

definition governance_layer :: "'k lib \<Rightarrow> pipeline_env \<Rightarrow> (layers_state, agent_profile) layer" where
  "governance_layer L E = \<lparr>ly_name = ''governance'',
     ly_evaluate = (\<lambda>p ctx w. case read_clock E w of (now, w1) \<Rightarrow>
       (case governance_evaluate L (pe_text E now) p ctx (pl_governance w1) () of
          (r, g, u) \<Rightarrow> (r, w1\<lparr>pl_governance := g\<rparr>))),
     ly_aevaluate = None\<rparr>"

definition recovery_layer :: "'k lib \<Rightarrow> pipeline_env \<Rightarrow> (layers_state, agent_profile) layer" where
  "recovery_layer L E = \<lparr>ly_name = ''recovery'',
     ly_evaluate = (\<lambda>p ctx w. case read_clock E w of (now, w1) \<Rightarrow>
       (recovery_evaluate L (pe_parse E) now (None :: unit backend option) () (pl_chains w1) (pl_recovery w1) p ctx, w1)),
     ly_aevaluate = None\<rparr>"

text \<open>\<open>default_layers(prefer_llm=False)\<close>: the layers, and the state their constructors leave.\<close>

definition default_layers :: "'k lib \<Rightarrow> pipeline_env \<Rightarrow> rat \<Rightarrow> (layers_state, agent_profile) layer list" where
  "default_layers L E coherence_threshold =
     [adversarial_layer E (make_adversarial coherence_threshold [] True None [] True None True), cortical_layer E,
      governance_layer L E, recovery_layer L E]"

definition default_pipeline :: "rat \<Rightarrow> string \<Rightarrow> bool \<Rightarrow> layers_state" where
  "default_pipeline drift_tolerance policy_set sandboxed =
     \<lparr>pl_governance = make_governance policy_set None True None None sandboxed None None (of_int default_financial_threshold),
      pl_cortical = make_cortical drift_tolerance (80 / 100) (75 / 100) None 20 Jensen_Shannon False,
      pl_baselines = [], pl_recovery = make_recovery 10 (15 / 100) None None, pl_chains = [], pl_readings = 0\<rparr>"

definition default_evaluator :: "'k lib \<Rightarrow> pipeline_env \<Rightarrow> rat \<Rightarrow> property_weights \<Rightarrow> (layers_state, agent_profile) evaluator" where
  "default_evaluator L E coherence_threshold weights =
     \<lparr>ev_layers = default_layers L E coherence_threshold, ev_weights = weights, ev_fail_fast = False\<rparr>"

text \<open>An adapter binds the recovery layer to its own chain, which every evaluation reads as it is then.\<close>

definition adapter_evaluation :: "layers_state timer \<Rightarrow> (layers_state, agent_profile) evaluator \<Rightarrow> agent_profile \<Rightarrow> chain
    \<Rightarrow> args \<Rightarrow> layers_state \<Rightarrow> (exn + integrity_score) \<times> layers_state" where
  "adapter_evaluation tm ev p c ctx w =
     evaluate tm ev p ctx (w\<lparr>pl_chains := [c], pl_recovery := bind_chain 0 (pl_recovery w)\<rparr>)"

text \<open>An evaluator with asynchronous layers scores tool calls by its asynchronous loop.\<close>

definition adapter_aevaluation :: "layers_state timer \<Rightarrow> (layers_state, agent_profile) evaluator \<Rightarrow> agent_profile
    \<Rightarrow> (chain \<Rightarrow> args \<Rightarrow> layers_state \<Rightarrow> (exn + integrity_score) \<times> layers_state) option" where
  "adapter_aevaluation tm ev p =
     (if has_async_layers ev
      then Some (\<lambda>c ctx w. aevaluate tm ev p ctx (w\<lparr>pl_chains := [c], pl_recovery := bind_chain 0 (pl_recovery w)\<rparr>))
      else None)"

section \<open>The score of the pipeline\<close>

text \<open>What every evaluation keeps of the state.\<close>

definition pipeline_ok :: "layers_state \<Rightarrow> bool" where
  "pipeline_ok w = (list_all (\<lambda>r. 0 \<le> pr_severity r) (gl_rules (pl_governance w)) \<and> metric_ok (cx_metric (pl_cortical w))
     \<and> 0 \<le> rl_threshold (pl_recovery w))"

text \<open>A timer reads the clock and changes nothing else.\<close>

definition timer_ok :: "layers_state timer \<Rightarrow> bool" where
  "timer_ok tm = (\<forall>w. pipeline_ok w \<longrightarrow> pipeline_ok (snd (tm_perf tm w)) \<and> pipeline_ok (snd (tm_now tm w)))"

definition layer_safe :: "(layers_state, agent_profile) layer \<Rightarrow> bool" where
  "layer_safe l = (\<forall>p ctx w r w'. pipeline_ok w \<longrightarrow> ly_evaluate l p ctx w = (r, w') \<longrightarrow>
     pipeline_ok w' \<and> (\<forall>res. r = Inr res \<longrightarrow> result_ok res))"

lemma detail_number: "unit_score x \<Longrightarrow> \<exists>y. number (JFloat x) = Inr y \<and> unit_score y"
  by simp

lemma adversarial_layer_safe: "layer_safe (adversarial_layer E a)"
proof -
  have "result_ok res" if r: "adversarial_evaluate str repr a p ctx = Inr res" for str repr p ctx res
  proof -
    obtain ts where res: "res = adversarial_result a p ts"
      using r by (auto simp: adversarial_evaluate_def exn_simps)
    have u: "unit_score (compute_coherence ts)" by (simp add: unit_score_def compute_coherence_def)
    show ?thesis unfolding res
      by (simp add: result_ok_def adversarial_result_def Let_def u detail_scores_ok_def)
  qed
  then show ?thesis by (simp add: layer_safe_def adversarial_layer_def)
qed


lemma read_clock_ok: "pipeline_ok w \<Longrightarrow> read_clock E w = (now, w') \<Longrightarrow> pipeline_ok w'"
  by (auto simp: read_clock_def pipeline_ok_def)

lemma cortical_keeps_metric:
  assumes "cortical_evaluate str parse now be created agent ctx c h s = (r, c', h')"
  shows "cx_metric c' = cx_metric c"
proof -
  have l: "cx_metric c1 = cx_metric c0" if "load_baseline be created agent role c0 h s = (x, c1, h1)" for role c0 x c1 h1
    by (subst load_baseline_settings [OF that, THEN conjunct1]) simp
  show ?thesis
    using assms by (auto simp: cortical_evaluate_def split: sum.splits prod.splits dest!: l)
qed

lemma cortical_result_ok:
  assumes "metric_ok (cx_metric c)" and "cortical_evaluate str parse now be created agent ctx c h s = (Inr res, c', h')"
  shows "result_ok res"
proof -
  obtain c1 h1 b ra ma da where a: "validate_reasoning str ctx = Inr ra" "check_memory ctx = Inr ma"
      "detect_drift parse now c1 h1 ctx = Inr da" "res = cortical_result c1 b ra ma da" "c1 = c'"
    using assms(2) by (auto simp: cortical_evaluate_def liftE_def exn_simps bindS_Inr split: sum.splits prod.splits)
  have "metric_ok (cx_metric c1)" using cortical_keeps_metric [OF assms(2)] assms(1) a(5) by simp
  note unit = composite_unit [OF reasoning_unit [OF a(1)] memory_unit [OF a(2)] drift_unit [OF this a(3)]]
  show ?thesis unfolding a(4)
    by (simp add: result_ok_def cortical_result_def Let_def detail_scores_ok_def unit_score_def unit)
qed

lemma as_raised_Inr: "as_raised r = Inr x \<longleftrightarrow> r = Inr x"
  by (auto simp: as_raised_def split: sum.splits decode_error.splits)

lemma cortical_layer_safe: "layer_safe (cortical_layer E)"
  unfolding layer_safe_def cortical_layer_def layer.simps
proof (intro allI impI)
  fix p ctx w r w'
  assume ok: "pipeline_ok w"
    and run: "(case read_clock E w of (now, w1) \<Rightarrow>
       (case cortical_evaluate (pe_str E) (pe_parse E) now (None :: unit baseline_backend option) (pe_text E now)
             (ap_agent_id p) ctx (pl_cortical w1) (pl_baselines w1) () of
          (r, c, h) \<Rightarrow> (as_raised r, w1\<lparr>pl_cortical := c, pl_baselines := h\<rparr>))) = (r, w')"
  obtain now w1 where t: "read_clock E w = (now, w1)" by (cases "read_clock E w")
  with ok have ok1: "pipeline_ok w1" by (rule read_clock_ok)
  obtain x c h where e: "cortical_evaluate (pe_str E) (pe_parse E) now (None :: unit baseline_backend option) (pe_text E now)
      (ap_agent_id p) ctx (pl_cortical w1) (pl_baselines w1) () = (x, c, h)" using prod_cases3 by blast
  from run t e have r: "r = as_raised x" "w' = w1\<lparr>pl_cortical := c, pl_baselines := h\<rparr>" by auto
  have m: "metric_ok (cx_metric (pl_cortical w1))" using ok1 by (simp add: pipeline_ok_def)
  have "pipeline_ok w'" using ok1 cortical_keeps_metric [OF e] r(2) by (simp add: pipeline_ok_def)
  moreover have "result_ok res" if "r = Inr res" for res
    using cortical_result_ok [OF m, of "pe_str E" "pe_parse E" now None "pe_text E now" "ap_agent_id p" ctx] e that
    unfolding r(1) as_raised_Inr by simp
  ultimately show "pipeline_ok w' \<and> (\<forall>res. r = Inr res \<longrightarrow> result_ok res)" by blast
qed

lemma governance_keeps_rules:
  "governance_evaluate L now p ctx g w = (r, g', w') \<Longrightarrow> gl_rules g' = gl_rules g"
  by (erule governance_evaluate_cases) (simp_all add: write_audit_def)

lemma governance_result_ok:
  assumes "list_all (\<lambda>r. 0 \<le> pr_severity r) (gl_rules g)" and "governance_evaluate L now p ctx g w = (Inr res, g', w')"
  shows "result_ok res"
  using assms(2)
proof (cases rule: governance_evaluate_cases)
  case decided
  then have res: "res = governance_result g (evaluations_in g p ctx)" by simp
  show ?thesis unfolding res
    by (simp add: result_ok_def governance_result_def Let_def detail_scores_ok_def unit_score_def
        governance_score_bounds [OF assms(1)])
qed simp

lemma governance_layer_safe: "layer_safe (governance_layer L E)"
  unfolding layer_safe_def governance_layer_def layer.simps
proof (intro allI impI)
  fix p ctx w r w'
  assume ok: "pipeline_ok w"
    and run: "(case read_clock E w of (now, w1) \<Rightarrow>
       (case governance_evaluate L (pe_text E now) p ctx (pl_governance w1) () of
          (r, g, u) \<Rightarrow> (r, w1\<lparr>pl_governance := g\<rparr>))) = (r, w')"
  obtain now w1 where t: "read_clock E w = (now, w1)" by (cases "read_clock E w")
  with ok have ok1: "pipeline_ok w1" by (rule read_clock_ok)
  obtain g u where e: "governance_evaluate L (pe_text E now) p ctx (pl_governance w1) () = (r, g, u)"
    and w': "w' = w1\<lparr>pl_governance := g\<rparr>"
    using run t by (auto split: prod.splits)
  have s: "list_all (\<lambda>r. 0 \<le> pr_severity r) (gl_rules (pl_governance w1))" using ok1 by (simp add: pipeline_ok_def)
  have "pipeline_ok w'" using ok1 governance_keeps_rules [OF e] w' by (simp add: pipeline_ok_def)
  moreover have "result_ok res" if "r = Inr res" for res
    using governance_result_ok [OF s, of L "pe_text E now" p ctx "()"] e that by simp
  ultimately show "pipeline_ok w' \<and> (\<forall>res. r = Inr res \<longrightarrow> result_ok res)" by blast
qed

lemma recovery_layer_safe: "layer_safe (recovery_layer L E)"
  unfolding layer_safe_def recovery_layer_def layer.simps
proof (intro allI impI)
  fix p ctx w r w'
  assume ok: "pipeline_ok w"
    and run: "(case read_clock E w of (now, w1) \<Rightarrow>
       (recovery_evaluate L (pe_parse E) now (None :: unit backend option) () (pl_chains w1) (pl_recovery w1) p ctx, w1)) = (r, w')"
  obtain now where t: "read_clock E w = (now, w')" and
      e: "recovery_evaluate L (pe_parse E) now (None :: unit backend option) () (pl_chains w') (pl_recovery w') p ctx = r"
    using run by (cases "read_clock E w") auto
  have ok1: "pipeline_ok w'" using read_clock_ok [OF ok t] .
  then have thr: "0 \<le> rl_threshold (pl_recovery w')" by (simp add: pipeline_ok_def)
  have "result_ok res" if "r = Inr res" for res
  proof -
    note b = recovery_score_bounded [OF e [unfolded that] thr]
    from e that obtain a where a: "res = \<lparr>lr_name = ''recovery'', lr_score = ra_score a, lr_passed = (1 / 2 \<le> ra_score a),
            lr_action = recovery_action a, lr_details = assessment_to_dict a, lr_latency = 0\<rparr>"
      by (auto simp: recovery_evaluate_def exn_simps)
    show ?thesis using b unfolding a
      by (simp add: result_ok_def unit_score_def detail_scores_ok_def assessment_to_dict_def)
  qed
  with ok1 show "pipeline_ok w' \<and> (\<forall>res. r = Inr res \<longrightarrow> result_ok res)" by blast
qed

lemma default_layers_safe: "\<forall>l \<in> set (default_layers L E threshold). layer_safe l"
  by (simp add: default_layers_def adversarial_layer_safe cortical_layer_safe governance_layer_safe recovery_layer_safe)

lemma timed_layer_safe:
  assumes "timer_ok tm" and "layer_safe l" and "pipeline_ok w"
    and "timed_layer tm (call_sync l) p ctx w = (r, w')"
  shows "pipeline_ok w' \<and> (\<forall>res. r = Inr res \<longrightarrow> result_ok res)"
proof -
  obtain t0 w1 where t0: "tm_perf tm w = (t0, w1)" by (cases "tm_perf tm w")
  obtain x w2 where x: "ly_evaluate l p ctx w1 = (x, w2)" by (cases "ly_evaluate l p ctx w1")
  obtain t1 w3 where t1: "tm_perf tm w2 = (t1, w3)" by (cases "tm_perf tm w2")
  have ok1: "pipeline_ok w1" using assms(1,3) t0 by (metis timer_ok_def snd_conv)
  have ok2: "pipeline_ok w2" "\<And>res. x = Inr res \<Longrightarrow> result_ok res"
    using assms(2) ok1 x unfolding layer_safe_def by blast+
  have ok3: "pipeline_ok w3" using assms(1) ok2(1) t1 by (metis timer_ok_def snd_conv)
  show ?thesis
  proof (cases x)
    case (Inl e)
    with assms(4) t0 x ok2 show ?thesis by (auto simp: timed_layer_def call_sync_def)
  next
    case (Inr res)
    with ok2(2) have "result_ok (res\<lparr>lr_latency := (t1 - t0) * 1000\<rparr>)" by (simp add: result_ok_def)
    with Inr assms(4) t0 x t1 ok3 show ?thesis by (auto simp: timed_layer_def call_sync_def)
  qed
qed

lemma run_layers_safe:
  assumes "timer_ok tm" and "\<forall>l \<in> set ls. layer_safe l" and "pipeline_ok w"
    and "run_layers tm fast call_sync ls p ctx w = (r, w')"
  shows "pipeline_ok w' \<and> (\<forall>rs. r = Inr rs \<longrightarrow> list_all result_ok rs)"
  using assms(2-4)
proof (induction ls arbitrary: w r w')
  case (Cons l ls)
  obtain x w1 where x: "timed_layer tm (call_sync l) p ctx w = (x, w1)" by (cases "timed_layer tm (call_sync l) p ctx w")
  have 1: "pipeline_ok w1" "\<And>res. x = Inr res \<Longrightarrow> result_ok res"
    using timed_layer_safe [OF assms(1) _ Cons.prems(2) x] Cons.prems(1) by auto
  obtain y w2 where y: "run_layers tm fast call_sync ls p ctx w1 = (y, w2)"
    by (cases "run_layers tm fast call_sync ls p ctx w1")
  have 2: "pipeline_ok w2" "\<And>rs. y = Inr rs \<Longrightarrow> list_all result_ok rs"
    using Cons.IH [OF _ 1(1) y] Cons.prems(1) by auto
  show ?case
    using Cons.prems(3) x y 1 2 by (auto split: sum.splits if_splits)
qed auto

lemma score_results_keeps:
  assumes "timer_ok tm" and "pipeline_ok w" and "score_results tm weights n v start rs w = (Inr score, w')"
  shows "pipeline_ok w'"
proof -
  obtain t w1 where t: "tm_perf tm w = (t, w1)" by (cases "tm_perf tm w")
  obtain d w2 where d: "tm_now tm w1 = (d, w2)" by (cases "tm_now tm w1")
  have "pipeline_ok w1" "pipeline_ok w2" using assms(1,2) t d by (metis timer_ok_def snd_conv)+
  with assms(3) t d show ?thesis by (auto simp: score_results_def split: sum.splits)
qed

text \<open>
  C27: an evaluation of the default pipeline that returns has scores in their bounds: whatever the
  profile, the context (with any values in it), the texts, the chain and the thresholds, its property
  scores and its confidence lie between 0 and 1; its composite lies between 0 and 1 when the weights sum
  to exactly 1, as the default ones do, and between 0 and 1.001 for every sum the constructor of the
  weights tolerates; and the state it leaves keeps what the next evaluation needs for the same.
\<close>

theorem default_score_bounded:
  assumes "timer_ok tm" and "pipeline_ok w" and "weights_ok weights"
    and "evaluate tm (default_evaluator L E threshold weights) p ctx w = (Inr score, w')"
  shows "scores_ok (is_properties score) \<and> unit_score (is_confidence score)
     \<and> 0 \<le> is_composite score \<and> is_composite score \<le> 1001 / 1000
     \<and> (total_weight weights = 1 \<longrightarrow> is_composite score \<le> 1) \<and> pipeline_ok w'"
proof -
  let ?ls = "default_layers L E threshold"
  obtain t w1 where t: "tm_perf tm w = (t, w1)" by (cases "tm_perf tm w")
  have ok1: "pipeline_ok w1" using assms(1,2) t by (metis timer_ok_def snd_conv)
  obtain x w2 where x: "run_layers tm False call_sync ?ls p ctx w1 = (x, w2)"
    by (cases "run_layers tm False call_sync ?ls p ctx w1")
  note safe = run_layers_safe [OF assms(1) default_layers_safe ok1 x]
  from assms(4) t x obtain rs where rs: "x = Inr rs"
      "score_results tm weights (length ?ls) ''1.0.0'' t rs w2 = (Inr score, w')"
    by (cases x) (auto simp: evaluate_def evaluate_with_def default_evaluator_def)
  have "list_all result_ok rs" using safe rs(1) by blast
  from score_bounded [OF this assms(3), of tm "length ?ls" "''1.0.0''" t w2] rs(2)
  have "scores_ok (is_properties score) \<and> unit_score (is_confidence score)
      \<and> 0 \<le> is_composite score \<and> is_composite score \<le> 1001 / 1000
      \<and> (total_weight weights = 1 \<longrightarrow> is_composite score \<le> 1)" by auto
  with score_results_keeps [OF assms(1) _ rs(2)] safe show ?thesis by blast
qed


lemma default_pipeline_ok: "pipeline_ok (default_pipeline drift policy sandboxed)"
proof -
  have "list_all (\<lambda>r. 0 \<le> pr_severity r) (default_policies policy)"
    by (simp add: default_policies_def enterprise_rules_def strict_rules_def policy_rule_of_def)
  then show ?thesis
    by (simp add: pipeline_ok_def default_pipeline_def make_governance_def make_cortical_def make_recovery_def metric_ok_def)
qed

definition sample_surroundings :: pipeline_env where
  "sample_surroundings = \<lparr>pe_str = (\<lambda>j. []), pe_repr = (\<lambda>j. []), pe_parse = (\<lambda>t. Some (Aware 0)), pe_now = (\<lambda>n. int n), pe_text = (\<lambda>i. [])\<rparr>"

definition pipeline_timer :: "layers_state timer" where
  "pipeline_timer = \<lparr>tm_perf = (\<lambda>w. (0, w)), tm_now = (\<lambda>w. ([], w))\<rparr>"


text \<open>With nothing in the context every layer returns, in every state.\<close>

definition returns_on :: "args \<Rightarrow> (layers_state, agent_profile) layer \<Rightarrow> bool" where
  "returns_on ctx l = (\<forall>p w. \<exists>res w'. ly_evaluate l p ctx w = (Inr res, w'))"

lemma adversarial_returns_on: "returns_on [] (adversarial_layer E (make_adversarial t [] b None [] True None True))"
  by (simp add: returns_on_def adversarial_layer_def adversarial_evaluate_def empty_context_safe)

lemma cortical_returns_on: "returns_on [] (cortical_layer sample_surroundings)"
proof -
  have r: "role_in [] = Inr None" by (simp add: role_in_def field_or_def or_json_def liftE_def)
  have v: "\<exists>ra. validate_reasoning str [] = Inr ra" and m: "\<exists>ma. check_memory [] = Inr ma" for str
    by (simp_all add: validate_reasoning_def check_memory_def field_or_def Let_def)
  have a: "\<exists>x. age_hours (\<lambda>t. Some (Aware 0)) now s = Inr x" for now s
    unfolding age_hours_def option.case datetime.case by blast
  then have "age_hours (\<lambda>t. Some (Aware 0)) now s \<noteq> Inl e" for now s e by (metis sum.distinct(1))
  then have d: "\<exists>da. detect_drift (\<lambda>t. Some (Aware 0)) now c h [] = Inr da" for now c h
    by (auto simp: detect_drift_def drift_dimension_def field_or_def Let_def bindS_def split: option.splits sum.splits)
  have l: "\<exists>b c' h'. load_baseline (None :: unit baseline_backend option) text agent role c h () = (Inr b, c', h')" for "text" agent role c h
    by (auto simp: load_baseline_def split: option.splits)
  have "\<exists>res c' h'. cortical_evaluate str (\<lambda>t. Some (Aware 0)) now (None :: unit baseline_backend option) text agent [] c h ()
      = (Inr res, c', h')" for str now "text" agent c h
  proof -
    obtain b c' h' where 1: "load_baseline (None :: unit baseline_backend option) text agent None (c\<lparr>cx_last_role := None\<rparr>) h () = (Inr b, c', h')"
      using l by blast
    obtain ra ma da where 2: "validate_reasoning str [] = Inr ra" "check_memory [] = Inr ma"
      "detect_drift (\<lambda>t. Some (Aware 0)) now c' h' [] = Inr da" using v m d by metis
    show ?thesis by (simp add: cortical_evaluate_def r 1 2 liftE_def)
  qed
  note e = this
  have "\<exists>res w'. ly_evaluate (cortical_layer sample_surroundings) p [] w = (Inr res, w')" for p w
  proof -
    obtain now w1 where t: "read_clock sample_surroundings w = (now, w1)" by (cases "read_clock sample_surroundings w")
    obtain res c' h' where x: "cortical_evaluate (\<lambda>j. []) (\<lambda>t. Some (Aware 0)) now (None :: unit baseline_backend option) []
        (ap_agent_id p) [] (pl_cortical w1) (pl_baselines w1) () = (Inr res, c', h')"
      using e [of "\<lambda>j. []" now "[]" "ap_agent_id p" "pl_cortical w1" "pl_baselines w1"] by blast
    show ?thesis using x by (simp add: cortical_layer_def t as_raised_def) (simp add: sample_surroundings_def x as_raised_def)
  qed
  then show ?thesis by (simp add: returns_on_def)
qed


lemma governance_returns_on:
  assumes "gl_callback (pl_governance w) = None"
  shows "\<exists>res w'. ly_evaluate (governance_layer L E) p ctx w = (Inr res, w') \<and> gl_callback (pl_governance w') = None"
proof -
  obtain now w1 where t: "read_clock E w = (now, w1)" by (cases "read_clock E w")
  then have c: "gl_callback (pl_governance w1) = None" using assms by (auto simp: read_clock_def)
  obtain r g u where e: "governance_evaluate L (pe_text E now) p ctx (pl_governance w1) () = (r, g, u)"
    using prod_cases3 by blast
  then have "\<exists>res. r = Inr res \<and> gl_callback g = None"
    by (cases rule: governance_evaluate_cases) (simp_all add: c write_audit_def)
  with t e show ?thesis by (auto simp: governance_layer_def)
qed

lemma recovery_returns_on: "returns_on [] (recovery_layer L E)"
proof -
  have "\<exists>a. assess_recovery L parse now be store heap r p [] = Inr a" for parse now and be :: "unit backend option" and store heap r p
    by (simp add: assess_recovery_def check_baseline_def check_cascade_def or_empty_def field_or_def case_prod_beta)
  then have "\<exists>res. recovery_evaluate L parse now be store heap r p [] = Inr res" for parse now and be :: "unit backend option" and store heap r p
    by (auto simp: recovery_evaluate_def exn_simps bindS_def split: sum.splits)
  then show ?thesis by (auto simp: returns_on_def recovery_layer_def split: prod.splits)
qed

lemma pipeline_timer_ok: "timer_ok pipeline_timer"
  by (simp add: timer_ok_def pipeline_timer_def)

lemma default_evaluation_returns:
  assumes "pipeline_ok w" and "weights_ok weights" and "gl_callback (pl_governance w) = None"
  shows "\<exists>score w'. evaluate pipeline_timer (default_evaluator L sample_surroundings t weights) p [] w = (Inr score, w')"
proof -
  let ?a = "adversarial_layer sample_surroundings (make_adversarial t [] True None [] True None True)"
  have timed: "\<exists>res'. timed_layer pipeline_timer (call_sync l) p [] v = (Inr res', v')"
    if "ly_evaluate l p [] v = (Inr res, v')" for l v res v'
    using that by (simp add: timed_layer_def pipeline_timer_def call_sync_def)
  obtain r1 w1 where 1: "ly_evaluate ?a p [] w = (Inr r1, w1)"
    using adversarial_returns_on [of sample_surroundings t True] unfolding returns_on_def by blast
  obtain r2 w2 where 2: "ly_evaluate (cortical_layer sample_surroundings) p [] w1 = (Inr r2, w2)"
    using cortical_returns_on unfolding returns_on_def by blast
  have c: "gl_callback (pl_governance w2) = None"
    using 1 2 assms(3) by (auto simp: adversarial_layer_def cortical_layer_def read_clock_def split: prod.splits)
  obtain r3 w3 where 3: "ly_evaluate (governance_layer L sample_surroundings) p [] w2 = (Inr r3, w3)"
    using governance_returns_on [OF c] by blast
  obtain r4 w4 where 4: "ly_evaluate (recovery_layer L sample_surroundings) p [] w3 = (Inr r4, w4)"
    using recovery_returns_on [of L sample_surroundings] unfolding returns_on_def by blast
  obtain rs where rs: "run_layers pipeline_timer False call_sync (default_layers L sample_surroundings t) p [] w = (Inr rs, w4)"
    using timed [OF 1] timed [OF 2] timed [OF 3] timed [OF 4] by (auto simp: default_layers_def)
  have "list_all result_ok rs"
    using run_layers_safe [OF pipeline_timer_ok default_layers_safe assms(1) rs] by blast
  from score_bounded [OF this assms(2), of pipeline_timer 4 "''1.0.0''" 0 w4] obtain s w' where
    "score_results pipeline_timer weights 4 ''1.0.0'' 0 rs w4 = (Inr s, w')" by blast
  moreover have "tm_perf pipeline_timer v = (0, v)" for v by (simp add: pipeline_timer_def)
  moreover have "length (default_layers L sample_surroundings t) = 4" by (simp add: default_layers_def)
  ultimately show ?thesis
    unfolding evaluate_def evaluate_with_def default_evaluator_def evaluator.simps by (simp only: rs prod.case sum.case) blast
qed

theorem default_score_bounded_witness:
  "\<exists>score w'. evaluate pipeline_timer (default_evaluator sample_lib sample_surroundings (70 / 100) default_weights)
       (default_profile ''u'' ''t'' ''n'') [] (default_pipeline (15 / 100) ''enterprise-default'' False) = (Inr score, w')
     \<and> is_composite score \<le> 1 \<and> pipeline_ok w'"
proof -
  let ?w = "default_pipeline (15 / 100) ''enterprise-default'' False"
  have "gl_callback (pl_governance ?w) = None" by (simp add: default_pipeline_def make_governance_def)
  from default_evaluation_returns [OF default_pipeline_ok default_weights_ok this, of sample_lib "70 / 100" "default_profile ''u'' ''t'' ''n''"]
  obtain score w' where e: "evaluate pipeline_timer (default_evaluator sample_lib sample_surroundings (70 / 100) default_weights)
       (default_profile ''u'' ''t'' ''n'') [] ?w = (Inr score, w')" by blast
  have "total_weight default_weights = 1" by (simp add: total_weight_def default_weights_def)
  with default_score_bounded [OF pipeline_timer_ok default_pipeline_ok default_weights_ok e] e show ?thesis by blast
qed

end
