(* ===== verification/Pipeline_Leave.thy ===== *)
theory Pipeline_Leave
  imports Pipeline Shell_Quoting
begin

text \<open>
  From the arguments of a tool call to its denial: the classifier tags the call, the adapter buffers
  it with its tags, the adversarial layer reads the tags from the context of the evaluation and
  blocks, the score of the evaluator says so, and the adapter denies the call.
\<close>

section \<open>A dangerous call blocks\<close>

definition dangerous :: "category \<Rightarrow> bool" where
  "dangerous c = (c = REMOTE_CODE_EXEC \<or> c = LOG_TAMPER)"

lemma dangerous_arguments:
  assumes "map_of ctx ''action'' = Some (JObj act)" and "map_of act ''categories'' = Some (names cats)"
    and "dangerous c" and "category_value c \<in> set cats" and "detect_arguments str ctx = Inr ts"
  shows "\<exists>t \<in> set ts. 90 / 100 \<le> ta_severity t"
proof -
  have act: "or_json (field_or ''action'' JNull ctx) (JObj []) = JObj act"
    using assms(1,2) by (auto simp: field_or_def or_json_def)
  have cats: "or_json (names cats) (JArr []) = names cats" by (simp add: or_json_def)
  obtain tool where tool: "get_or (JObj act) ''tool'' (JStr []) = Inr tool" by simp
  have c: "get_or (JObj act) ''categories'' JNull = Inr (names cats)" using assms(2) by (simp add: field_or_def)
  from assms(5) have ts: "\<exists>tss. traverse (argument_threat str tool (names cats)) argument_threats = Inr tss \<and> ts = concat tss"
    unfolding detect_arguments_def Let_def act c tool bindS_simps cats by (simp add: exn_simps) blast
  then obtain tss where tss: "list_all2 (\<lambda>x y. argument_threat str tool (names cats) x = Inr y) argument_threats tss" "ts = concat tss"
    by (auto simp: traverse_Inr)
  obtain i where i: "i < length argument_threats" "fst (argument_threats ! i) = c" "90 / 100 \<le> fst (snd (snd (argument_threats ! i)))"
    using assms(3) by (auto simp: dangerous_def argument_threats_def intro: that [of 0] that [of 1])
  obtain ty sev conf desc where e: "argument_threats ! i = (c, ty, sev, conf, desc)" "90 / 100 \<le> sev"
    using i(2,3) by (cases "argument_threats ! i") auto
  have "argument_threat str tool (names cats) (argument_threats ! i) = Inr (tss ! i)" "i < length tss"
    using list_all2_nthD [OF tss(1) i(1)] list_all2_lengthD [OF tss(1)] i(1) by simp_all
  then have "\<exists>t \<in> set (tss ! i). ta_severity t = sev"
    unfolding e(1) argument_threat_def prod.case in_json_names bindS_simps using assms(4)
    by (auto simp: eq_commute [of "_ # _" "tss ! i"])
  with tss(2) e(2) \<open>i < length tss\<close> show ?thesis by (metis UN_I nth_mem set_concat)
qed

lemma adversarial_blocks:
  assumes "av_block a" and "av_arguments a" and "map_of ctx ''action'' = Some (JObj act)"
    and "map_of act ''categories'' = Some (names cats)" and "dangerous c" and "category_value c \<in> set cats"
    and "adversarial_evaluate str repr a p ctx = Inr res"
  shows "lr_action res = ''block''"
proof -
  obtain ts where ts: "all_threats str repr a p ctx = Inr ts" "res = adversarial_result a p ts"
    using assms(7) by (auto simp: adversarial_evaluate_def exn_simps)
  then obtain xs ys us where us: "detect_arguments str ctx = Inr us" "ts = xs @ ys @ us @ custom_threats a p ctx"
    using assms(2) by (auto simp: all_threats_def exn_simps)
  from dangerous_arguments [OF assms(3-6) us(1)] us(2) have "90 / 100 \<le> max_severity ts"
    by (subst max_severity_ge) auto
  then show ?thesis using assms(1) by (simp add: ts(2) adversarial_result_def adversarial_verdict_def Let_def)
qed

lemma run_layers_block:
  assumes "l \<in> set ls" and "\<And>w r w'. call l p ctx w = (Inr r, w') \<Longrightarrow> lr_action r = ''block''"
  shows "run_layers tm fast call ls p ctx w = (Inr rs, w') \<Longrightarrow> ''block'' \<in> lr_action ` set rs"
  using assms(1)
proof (induction ls arbitrary: w rs w')
  case (Cons k ls)
  obtain x w1 where x: "timed_layer tm (call k) p ctx w = (x, w1)" by (cases "timed_layer tm (call k) p ctx w")
  with Cons.prems(1) obtain r where r: "x = Inr r" by (cases x) auto
  show ?case
  proof (cases "lr_action r = ''block''")
    case True
    then show ?thesis using Cons.prems(1) x r by (auto split: if_splits sum.splits prod.splits)
  next
    case False
    have "k \<noteq> l"
    proof
      assume "k = l"
      then obtain w0 r0 w2 where "call l p ctx w0 = (Inr r0, w2)" "lr_action r = lr_action r0"
        using x r by (auto simp: timed_layer_def split: prod.splits sum.splits)
      with assms(2) False show False by metis
    qed
    then have "l \<in> set ls" using Cons.prems(2) by simp
    moreover obtain qs w2 where "run_layers tm fast call ls p ctx w1 = (Inr qs, w2)" "rs = r # qs"
      using Cons.prems(1) x r False by (auto split: sum.splits prod.splits)
    ultimately show ?thesis using Cons.IH by auto
  qed
qed simp

lemma evaluate_blocks:
  assumes "l \<in> set (ev_layers ev)" and "\<And>w r w'. call l p ctx w = (Inr r, w') \<Longrightarrow> lr_action r = ''block''"
    and "evaluate_with tm call n v ev p ctx w = (Inr score, w')"
  shows "score_action score = ''block''"
proof -
  obtain t w1 where t: "tm_perf tm w = (t, w1)" by (cases "tm_perf tm w")
  obtain x w2 where x: "run_layers tm (ev_fail_fast ev) call (ev_layers ev) p ctx w1 = (x, w2)"
    by (cases "run_layers tm (ev_fail_fast ev) call (ev_layers ev) p ctx w1")
  with assms(3) t obtain rs where rs: "x = Inr rs"
      "score_results tm (ev_weights ev) n v t rs w2 = (Inr score, w')"
    by (cases x) (auto simp: evaluate_with_def)
  have "''block'' \<in> lr_action ` set rs"
    by (rule run_layers_block [OF assms(1) _ x [unfolded rs(1)]]) (rule assms(2))
  moreover have "is_layer_results score = rs" using rs(2) by (auto simp: score_results_def split: sum.splits prod.splits)
  ultimately show ?thesis using action_most_severe [of score] by simp
qed


section \<open>The adapter\<close>

text \<open>An operation that starts in a state with \<open>P\<close> and returns gives a value and a state with \<open>Q\<close>.\<close>

definition leads :: "('w adapter_state \<Rightarrow> bool) \<Rightarrow> ('a, 'w) op \<Rightarrow> ('a \<Rightarrow> 'w adapter_state \<Rightarrow> bool) \<Rightarrow> bool" where
  "leads P m Q = (\<forall>s x s'. P s \<longrightarrow> m s = Some (Inr x, s') \<longrightarrow> Q x s')"

lemma leadsD: "leads P m Q \<Longrightarrow> P s \<Longrightarrow> m s = Some (Inr x, s') \<Longrightarrow> Q x s'"
  by (auto simp: leads_def)

lemma leads_andThen: "leads P m R \<Longrightarrow> (\<And>x. leads (R x) (f x) Q) \<Longrightarrow> leads P (andThen m f) Q"
  unfolding leads_def andThen_def by (auto split: option.splits sum.splits)

definition with_call :: "nat \<Rightarrow> args \<Rightarrow> 'w adapter_state \<Rightarrow> bool" where
  "with_call n entry s = (cb_tool_calls (as_buffer s) \<noteq> [] \<and> last (cb_tool_calls (as_buffer s)) = (n, entry))"

lemma buffer_leads:
  assumes "ad_classify A name input = Inr cats"
    and d: "field_or ''tool_name'' (JStr []) data = JStr name" "field_or ''tool_input'' JNull data = JObj input"
  shows "leads (\<lambda>s. length (cb_tool_calls (as_buffer s)) < buffer_cap)
    (buffer_tool_call L A data) (\<lambda>call s. \<exists>n. with_call n (call_entry name input cats) s)"
  unfolding leads_def
proof (intro allI impI)
  fix s call s'
  assume room: "length (cb_tool_calls (as_buffer s)) < buffer_cap"
    and run: "buffer_tool_call L A data s = Some (Inr call, s')"
  let ?e = "(as_next s, call_entry name input cats)"
  let ?s1 = "s\<lparr>as_next := Suc (as_next s)\<rparr>"
  have f: "field_or ''tool_name'' (JStr []) data = JStr name" "arguments_of A (field_or ''tool_input'' JNull data) = input"
    by (simp_all add: d arguments_of_def)
  have a: "append_capped A ''tool_calls'' cb_tool_calls (\<lambda>xs b. b\<lparr>cb_tool_calls := xs\<rparr>) ?e ?s1
      = Some (Inr True, ?s1\<lparr>as_buffer := (as_buffer s)\<lparr>cb_tool_calls := cb_tool_calls (as_buffer s) @ [?e]\<rparr>\<rparr>)"
    using room by (simp add: append_capped_def andThen_def gets_def thenDo_def update_buffer_def update_def ret_def)
  from run have "with_call (as_next s) (call_entry name input cats) s'"
    unfolding buffer_tool_call_def f name_text.simps Let_def assms(1)
    by (auto simp: andThen_def lift_sum_def gets_def thenDo_def update_def update_buffer_def ret_def a with_call_def assms(1))
  then show "\<exists>n. with_call n (call_entry name input cats) s'" ..
qed

lemma baselines_keep_action:
  "map_of ctx ''action'' = Some j \<Longrightarrow> map_of (fold add_baseline bs ctx) ''action'' = Some j"
proof (induction bs arbitrary: ctx)
  case (Cons b bs)
  have "map_of (add_baseline b ctx) ''action'' = Some j" using Cons.prems by (simp add: add_baseline_def map_add_def)
  with Cons.IH show ?case by simp
qed simp

lemma context_leads:
  "leads (with_call n entry) (evaluation_context L A) (\<lambda>ctx s. map_of ctx ''action'' = Some (JObj entry))"
  unfolding leads_def
proof (intro allI impI)
  fix s ctx s'
  assume c: "with_call n entry s" and run: "evaluation_context L A s = Some (Inr ctx, s')"
  have "map_of (to_evaluation_context L (as_buffer s)) ''action'' = Some (JObj entry)"
    using c by (simp add: to_evaluation_context_def with_call_def)
  moreover from run obtain bs where "ctx = fold add_baseline bs (to_evaluation_context L (as_buffer s))"
    by (auto simp: evaluation_context_def andThen_def gets_def lift_sum_def world_try_def ret_def split: sum.splits prod.splits)
  ultimately show "map_of ctx ''action'' = Some (JObj entry)" using baselines_keep_action by blast
qed

lemma leads_pure: "(K \<Longrightarrow> gives m Q) \<Longrightarrow> leads (\<lambda>s. K) m (\<lambda>x s. Q x)"
  by (auto simp: leads_def gives_def)

lemma score_call_leads:
  assumes "\<And>c ctx w score w'. map_of ctx ''action'' = Some (JObj entry) \<Longrightarrow> scorer A c ctx w = (Inr score, w')
      \<Longrightarrow> score_action score = ''block''"
  shows "leads (with_call n entry) (score_call L A) (\<lambda>score s. score_action score = ''block'')"
  unfolding score_call_def
proof (rule leads_andThen [OF context_leads], rule leads_pure, rule gives_bind)
  fix ctx c
  assume ctx: "map_of ctx ''action'' = Some (JObj entry)"
  have "gives (world_try (scorer A c ctx)) (\<lambda>score. score_action score = ''block'')"
    unfolding gives_def world_try_def using assms [OF ctx] by (auto split: prod.splits)
  then show "gives (andThen (world_try (scorer A c ctx)) (record_evaluation L A)) (\<lambda>score. score_action score = ''block'')"
    by (rule gives_andThen) (rule gives_weaken [OF record_evaluation_gives], simp)
qed

lemma decide_blocks:
  assumes "ad_enforce A" and "score_action score = ''block''"
  shows "gives (decide_tool_call L A call score) (\<lambda>d. \<exists>c \<in> {''block'', ''action_authority'', ''error''}. d = deny_payload c)"
  unfolding decide_tool_call_def Let_def enforcement_decision_def
  by (rule gives_bind, rule gives_thenDo, rule gives_thenDo, rule gives_if) (simp_all add: assms gives_ret)

lemma tool_call_leads:
  assumes "ad_enforce A" and "ad_classify A name input = Inr cats"
    and "\<And>c ctx w score w'. map_of ctx ''action'' = Some (JObj (call_entry name input cats)) \<Longrightarrow>
        scorer A c ctx w = (Inr score, w') \<Longrightarrow> score_action score = ''block''"
  shows "leads (\<lambda>s. length (cb_tool_calls (as_buffer s)) < buffer_cap)
     (andThen (buffer_tool_call L A [(''tool_name'', JStr name), (''tool_input'', JObj input)])
        (\<lambda>call. andThen (score_call L A) (decide_tool_call L A call)))
     (\<lambda>d s. \<exists>c \<in> {''block'', ''action_authority'', ''error''}. d = deny_payload c)"
proof (rule leads_andThen [OF buffer_leads [OF assms(2)]])
  show "field_or ''tool_name'' (JStr []) [(''tool_name'', JStr name), (''tool_input'', JObj input)] = JStr name"
    "field_or ''tool_input'' JNull [(''tool_name'', JStr name), (''tool_input'', JObj input)] = JObj input"
    by (simp_all add: field_or_def)
next
  fix call
  have "leads (with_call n (call_entry name input cats)) (andThen (score_call L A) (decide_tool_call L A call))
      (\<lambda>d s. \<exists>c \<in> {''block'', ''action_authority'', ''error''}. d = deny_payload c)" for n
    by (rule leads_andThen [OF score_call_leads]) (rule assms(3), assumption+, rule leads_pure, rule decide_blocks [OF assms(1)])
  then show "leads (\<lambda>s. \<exists>n. with_call n (call_entry name input cats) s) (andThen (score_call L A) (decide_tool_call L A call))
      (\<lambda>d s. \<exists>c \<in> {''block'', ''action_authority'', ''error''}. d = deny_payload c)"
    unfolding leads_def by blast
qed

text \<open>The score of an evaluation whose context ends with a dangerous call.\<close>

lemma dangerous_score:
  assumes "set cats = category_value ` classify_tool_call str name input"
    and "ad_evaluate A = adapter_evaluation tm ev (ad_profile A)" and "ad_aevaluate A = adapter_aevaluation tm ev (ad_profile A)"
    and "adversarial_layer E a \<in> set (ev_layers ev)" and "av_block a" and "av_arguments a"
    and "c \<in> classify_tool_call str name input" and "dangerous c"
    and "map_of ctx ''action'' = Some (JObj (call_entry name input cats))" and "scorer A ch ctx w = (Inr score, w')"
  shows "score_action score = ''block''"
proof -
  let ?w = "w\<lparr>pl_chains := [ch], pl_recovery := bind_chain 0 (pl_recovery w)\<rparr>"
  have "scorer A ch ctx w = (if has_async_layers ev then aevaluate tm ev (ad_profile A) ctx ?w
      else evaluate tm ev (ad_profile A) ctx ?w)"
    unfolding scorer_def assms(2,3) by (simp add: adapter_evaluation_def adapter_aevaluation_def)
  then obtain call n v where run: "evaluate_with tm call n v ev (ad_profile A) ctx ?w = (Inr score, w')"
    and call: "call (adversarial_layer E a) = ly_evaluate (adversarial_layer E a)"
    using assms(10) that [of call_async] that [of call_sync]
    by (auto simp: aevaluate_def evaluate_def call_sync_def call_async_def adversarial_layer_def split: if_splits)
  show ?thesis
  proof (rule evaluate_blocks [OF assms(4) _ run])
    fix u res u'
    assume "call (adversarial_layer E a) (ad_profile A) ctx u = (Inr res, u')"
    then have "adversarial_evaluate (pe_str E) (pe_repr E) a (ad_profile A) ctx = Inr res"
      unfolding call by (simp add: adversarial_layer_def)
    moreover have "map_of (call_entry name input cats) ''categories'' = Some (names (sort cats))" by (simp add: call_entry_def)
    moreover have "category_value c \<in> set (sort cats)" using assms(1,7) by simp
    ultimately show "lr_action res = ''block''" using adversarial_blocks [OF assms(5,6,9) _ assms(8)] by blast
  qed
qed

text \<open>
  C4: a dangerous call is denied, from end to end. Take an enforcing adapter whose classifier is the
  library's and whose evaluator holds the adversarial layer, built to block and to look at arguments,
  among any other layers, synchronous or asynchronous, in any order, with or without fail-fast. A call
  that the classifier finds to run fetched or decoded code, or to tamper with logs, does not run as
  long as fewer than a thousand calls are buffered: whatever the agent did before, checking it raises
  an integrity violation that names the block, the action gate or an error, also when a layer, the
  gate or the chain raises. With a full buffer the call is judged by an earlier one.
\<close>

theorem dangerous_call_denied:
  assumes "ad_enforce A"
    and "ad_classify A name input = Inr cats" and "set cats = category_value ` classify_tool_call str name input"
    and "ad_evaluate A = adapter_evaluation tm ev (ad_profile A)" and "ad_aevaluate A = adapter_aevaluation tm ev (ad_profile A)"
    and "adversarial_layer E a \<in> set (ev_layers ev)" and "av_block a" and "av_arguments a"
    and "c \<in> classify_tool_call str name input" and "dangerous c"
    and "length (cb_tool_calls (as_buffer s)) < buffer_cap"
    and "enforce_tool_call L A name input s = Some (r, s')"
  shows "\<exists>d \<in> {''block'', ''action_authority'', ''error''}. r = Inl (violation_error (denial_message d))"
proof -
  let ?data = "[(''tool_name'', JStr name), (''tool_input'', JObj input)]"
  let ?call = "andThen (buffer_tool_call L A ?data) (\<lambda>call. andThen (score_call L A) (decide_tool_call L A call))"
  obtain x q where e: "evaluate_sync L A ''pre_tool_use'' ?data s = Some (x, q)"
    using assms(12) by (auto simp: enforce_tool_call_def tool_call_denial_def andThen_def split: option.splits)
  then obtain d where d: "x = Inr d" using evaluate_sync_never_raises by blast
  have run: "catching A ''pre_tool_use'' ?call s = Some (Inr d, q)" using e unfolding tool_call_steps d .
  have "\<exists>c \<in> {''block'', ''action_authority'', ''error''}. d = deny_payload c"
  proof -
    obtain y q' where y: "?call s = Some (y, q')" using run by (auto simp: catching_def split: option.splits)
    show ?thesis
    proof (cases y)
      case (Inl e)
      with run y assms(1) have "d = deny_payload ''error''"
        by (auto simp: catching_def dest: evaluation_failed_answers)
      then show ?thesis by simp
    next
      case (Inr d')
      with run y have "d' = d" by (simp add: catching_def)
      have "leads (\<lambda>s. length (cb_tool_calls (as_buffer s)) < buffer_cap) ?call
          (\<lambda>d s. \<exists>c \<in> {''block'', ''action_authority'', ''error''}. d = deny_payload c)"
        by (rule tool_call_leads [OF assms(1,2)]) (rule dangerous_score [OF assms(3-10)])
      from leadsD [OF this assms(11)] y Inr \<open>d' = d\<close> show ?thesis by blast
    qed
  qed
  then obtain k where k: "k \<in> {''block'', ''action_authority'', ''error''}" "d = deny_payload k" by blast
  have "r = Inl (violation_error (denial_message k))"
    using assms(12) e d k(2) by (simp add: enforce_tool_call_def tool_call_denial_def andThen_def lift_sum_def throw_def
        denial_reason_payload)
  with k(1) show ?thesis by blast
qed


text \<open>The default pipeline in an adapter, and the call \<open>unset HISTFILE\<close>.\<close>

lemma finite_categories: "finite (S :: category set)"
proof (rule finite_subset)
  show "S \<subseteq> {READS_SENSITIVE, SENDS_EXTERNAL, REMOTE_CODE_EXEC, LOG_TAMPER, OBFUSCATED_COMMAND, RUNS_INLINE_CODE}"
    using category.exhaust by blast
qed simp

definition tags_of_call :: "string \<Rightarrow> args \<Rightarrow> string list" where
  "tags_of_call name input = sorted_list_of_set (category_value ` classify_tool_call (\<lambda>j. []) name input)"

definition shell_adapter :: "(string, layers_state) adapter" where
  "shell_adapter = \<lparr>ad_name = ''test'', ad_profile = default_profile ''a'' ''t'' ''agent'',
     ad_enforce = True, ad_raise_on_deny = False, ad_key = None, ad_handler = None, ad_gate = None,
     ad_session_id = ''s'', ad_provenance = None,
     ad_evaluate = adapter_evaluation pipeline_timer (default_evaluator sample_lib sample_surroundings (70 / 100) default_weights)
       (default_profile ''a'' ''t'' ''agent''), ad_aevaluate = None,
     ad_classify = \<lambda>n i. Inr (tags_of_call n i), ad_str = \<lambda>v. [], ad_baselines = \<lambda>r w. (Inr [], w),
     ad_record_score = \<lambda>x w. w\<lparr>pl_recovery := record_score x (pl_recovery w)\<rparr>, ad_learn = \<lambda>x y w. w,
     ad_machine = \<lparr>mc_timer = pipeline_timer, mc_time = \<lambda>w. (0, w), mc_uuid = \<lambda>w. (''u'', w)\<rparr>,
     ad_host = \<lambda>w. (\<lparr>utc = 5, fresh = ''f''\<rparr>, w)\<rparr>"

lemma unset_history: "LOG_TAMPER \<in> classify_tool_call str ''Bash'' [(''command'', JStr ''unset HISTFILE'')]"
proof -
  have "LOG_TAMPER \<in> own_categories ''unset HISTFILE''" by code_simp
  then have "LOG_TAMPER \<in> classify_shell ''unset HISTFILE''" by (subst classify_shell.simps) simp
  moreover have "\<not> contains patch_marker ''unset HISTFILE''" by code_simp
  moreover have "command_under str [(''command'', JStr ''unset HISTFILE'')] ''command'' = Some ''unset HISTFILE''"
    by (simp add: command_under_def field_or_def nonblank_def is_space_def)
  ultimately show ?thesis unfolding classify_tool_call_def command_keys_def some_list_def by simp
qed

theorem dangerous_call_denied_witness:
  "\<exists>d s'. enforce_tool_call sample_lib shell_adapter ''Bash'' [(''command'', JStr ''unset HISTFILE'')]
       (initial_state None [] (default_pipeline (15 / 100) ''enterprise-default'' False))
     = Some (Inl (violation_error (denial_message d)), s') \<and> d \<in> {''block'', ''action_authority'', ''error''}"
proof -
  let ?s = "initial_state None [] (default_pipeline (15 / 100) ''enterprise-default'' False)"
  let ?input = "[(''command'', JStr ''unset HISTFILE'')]"
  let ?a = "make_adversarial (70 / 100) [] True None [] True None True"
  have a: "answers shell_adapter" by (simp add: answers_def shell_adapter_def)
  have "returns (enforce_tool_call sample_lib shell_adapter ''Bash'' ?input)"
    unfolding enforce_tool_call_def tool_call_denial_def by (intro returns_intros evaluate_sync_returns a)
  then obtain r s' where run: "enforce_tool_call sample_lib shell_adapter ''Bash'' ?input ?s = Some (r, s')"
    unfolding returns_def by fastforce
  have A: "ad_enforce shell_adapter"
    "ad_classify shell_adapter ''Bash'' ?input = Inr (tags_of_call ''Bash'' ?input)"
    "ad_evaluate shell_adapter = adapter_evaluation pipeline_timer
       (default_evaluator sample_lib sample_surroundings (70 / 100) default_weights) (ad_profile shell_adapter)"
    by (simp_all add: shell_adapter_def)
  have async: "ad_aevaluate shell_adapter = adapter_aevaluation pipeline_timer
       (default_evaluator sample_lib sample_surroundings (70 / 100) default_weights) (ad_profile shell_adapter)"
    by (simp add: shell_adapter_def adapter_aevaluation_def has_async_layers_def default_evaluator_def default_layers_def
        adversarial_layer_def cortical_layer_def governance_layer_def recovery_layer_def)
  have tags: "set (tags_of_call ''Bash'' ?input) = category_value ` classify_tool_call (\<lambda>j. []) ''Bash'' ?input"
    by (simp add: tags_of_call_def finite_categories del: category_value.simps)
  have layer: "adversarial_layer sample_surroundings ?a \<in> set (ev_layers (default_evaluator sample_lib sample_surroundings (70 / 100) default_weights))"
    by (simp add: default_evaluator_def default_layers_def)
  have settings: "av_block ?a" "av_arguments ?a" by (simp_all add: make_adversarial_def)
  have room: "length (cb_tool_calls (as_buffer ?s)) < buffer_cap"
    by (simp add: initial_state_def empty_buffer_def buffer_cap_def)
  have danger: "dangerous LOG_TAMPER" by (simp add: dangerous_def)
  from dangerous_call_denied [OF A(1,2) tags A(3) async layer settings unset_history danger room run] run
  show ?thesis by blast
qed

end
