(* ===== verification/Hook_Session.thy ===== *)
theory Hook_Session
  imports Pipeline_Leave
begin

text \<open>
  Command hooks of a coding-agent host (\<open>hooks/protocol.py\<close>, \<open>hooks/session.py\<close>): payloads become
  events of the host's adapter, the score of a tool call and a scan of what the call writes become an
  answer the host can enforce, and the chain is written to its file. \<open>str\<close> of a value that is no
  string and \<open>f"{x:.2f}"\<close> are arguments. The token usage read from transcripts and the flush of the
  exporters are left out: the adapters have no transcript reader here.
\<close>

section \<open>The protocol\<close>

datatype coding_host = Claude_Code | Codex

definition hook_events :: "(string \<times> string) list" where
  "hook_events =
     [(''PreToolUse'', ''pre_tool_use''), (''PostToolUse'', ''post_tool_use''),
      (''PostToolUseFailure'', ''post_tool_use_failure''), (''UserPromptSubmit'', ''user_prompt_submit''),
      (''Stop'', ''stop''), (''SubagentStart'', ''subagent_start''), (''SubagentStop'', ''subagent_stop''),
      (''PreCompact'', ''pre_compact''), (''SessionEnd'', ''session_end'')]"

definition parse_payload :: "(string \<Rightarrow> exn + json) \<Rightarrow> string \<Rightarrow> args option" where
  "parse_payload to_json raw = (case to_json raw of
       Inr (JObj d) \<Rightarrow> (case field_or ''session_id'' JNull d of JStr s \<Rightarrow> if s = [] then None else Some d | _ \<Rightarrow> None)
     | _ \<Rightarrow> None)"

text \<open>\<open>isinstance(x, int)\<close>, which holds of a boolean; and the text of such a value.\<close>

fun exit_status :: "json \<Rightarrow> (int \<times> string) option" where
  "exit_status (JInt i) = Some (i, int_text i)"
| "exit_status (JBool b) = Some (if b then (1, ''True'') else (0, ''False''))"
| "exit_status _ = None"

definition codex_failure :: "(json \<Rightarrow> string) \<Rightarrow> json \<Rightarrow> string option" where
  "codex_failure str response = (case response of
       JObj d \<Rightarrow> (case exit_status (field_or ''exit_code'' JNull d) of
           None \<Rightarrow> None
         | Some (n, shown_code) \<Rightarrow>
             if n = 0 then None
             else let out = plain_text str (or_json (field_or ''output'' JNull d) (or_json (field_or ''stderr'' JNull d) (JStr [])))
               in Some (rev (dropWhile (\<lambda>c. c = CHR '':'' \<or> c = CHR '' '')
                    (rev (''exit '' @ shown_code @ '': '' @ drop (length out - 500) out)))))
     | _ \<Rightarrow> None)"

definition is_tool_event :: "string \<Rightarrow> bool" where
  "is_tool_event kind = (kind = ''pre_tool_use'' \<or> kind = ''post_tool_use'' \<or> kind = ''post_tool_use_failure'')"

definition normalize :: "(json \<Rightarrow> string) \<Rightarrow> coding_host \<Rightarrow> args \<Rightarrow> (string \<times> args) option" where
  "normalize str h msg = (case map_of hook_events (plain_text str (field_or ''hook_event_name'' (JStr []) msg)) of
       None \<Rightarrow> None
     | Some kind \<Rightarrow>
         let has_name = (case field_or ''tool_name'' JNull msg of JStr s \<Rightarrow> s \<noteq> [] | _ \<Rightarrow> False);
             has_input = (case field_or ''tool_input'' JNull msg of JObj d \<Rightarrow> True | _ \<Rightarrow> False);
             d = (if is_tool_event kind \<and> \<not> has_input then dict_set ''tool_input'' (JObj []) msg else msg)
         in if is_tool_event kind \<and> \<not> has_name then None
            else (case (if h = Codex \<and> kind = ''post_tool_use'' then codex_failure str (field_or ''tool_response'' JNull d) else None) of
                    Some err \<Rightarrow> Some (''post_tool_use_failure'', dict_set ''error'' (JStr err) d)
                  | None \<Rightarrow> Some (kind, d)))"

definition verdict_for :: "coding_host \<Rightarrow> string \<Rightarrow> string" where
  "verdict_for h action = (if action = ''block'' then ''deny''
     else if action = ''escalate'' then (case h of Claude_Code \<Rightarrow> ''ask'' | Codex \<Rightarrow> ''deny'') else ''allow'')"

definition render_decision :: "string \<Rightarrow> string \<Rightarrow> json option" where
  "render_decision verdict reason = (if verdict = ''allow'' then None
     else Some (JObj [(''hookSpecificOutput'', JObj [(''hookEventName'', JStr ''PreToolUse''),
       (''permissionDecision'', JStr verdict), (''permissionDecisionReason'', JStr reason)])]))"

section \<open>What a call writes\<close>

text \<open>\<open>str.splitlines\<close>.\<close>

definition is_line_break :: "char \<Rightarrow> bool" where
  "is_line_break c = (code c \<in> {10, 11, 12, 13, 28, 29, 30, 133})"

function split_lines :: "string \<Rightarrow> string list" where
  "split_lines s = (if s = [] then []
     else case dropWhile (\<lambda>c. \<not> is_line_break c) s of
         [] \<Rightarrow> [s]
       | c # r \<Rightarrow> takeWhile (\<lambda>c. \<not> is_line_break c) s
           # split_lines (if code c = 13 \<and> r \<noteq> [] \<and> code (hd r) = 10 then tl r else r))"
  by auto

termination
proof (relation "measure length")
  fix s c r
  assume "dropWhile (\<lambda>c. \<not> is_line_break c) s = c # r"
  then have "length (c # r) \<le> length s" using length_dropWhile_le [of "\<lambda>c. \<not> is_line_break c" s] by simp
  moreover have "length (if code c = 13 \<and> r \<noteq> [] \<and> code (hd r) = 10 then tl r else r) \<le> length r" by simp
  ultimately have "length (if code c = 13 \<and> r \<noteq> [] \<and> code (hd r) = 10 then tl r else r) < length s"
    unfolding list.size by linarith
  then show "((if code c = 13 \<and> r \<noteq> [] \<and> code (hd r) = 10 then tl r else r), s) \<in> measure length"
    unfolding in_measure .
qed simp

definition added_lines :: "string \<Rightarrow> string list" where
  "added_lines text = map (drop 1) (filter (\<lambda>l. prefix ''+'' l \<and> \<not> prefix ''+++'' l) (split_lines text))"

definition written_fields :: "string list" where
  "written_fields = [''content'', ''new_string'', ''new_source'']"

definition text_at :: "string \<Rightarrow> args \<Rightarrow> string list" where
  "text_at k d = (case field_or k JNull d of JStr s \<Rightarrow> [s] | _ \<Rightarrow> [])"

definition written_text :: "(json \<Rightarrow> string) \<Rightarrow> args \<Rightarrow> exn + string" where
  "written_text str arguments =
     bindS (listed (field_or ''edits'' JNull arguments)) (\<lambda>edits.
       let fields = concat (map (\<lambda>k. text_at k arguments) written_fields);
           edited = concat (map (\<lambda>e. case e of JObj d \<Rightarrow> text_at ''new_string'' d | _ \<Rightarrow> []) edits);
           command = (case field_or ''command'' JNull arguments of
               JArr cs \<Rightarrow> Some (join [newline] (map (plain_text str) cs)) | JStr s \<Rightarrow> Some s | _ \<Rightarrow> None);
           patched = (case command of Some c \<Rightarrow> if contains patch_marker c then added_lines c else [] | None \<Rightarrow> [])
       in Inr (join [newline] (fields @ edited @ patched)))"

section \<open>The action of a call\<close>

fun item_of :: "string \<Rightarrow> json \<Rightarrow> exn + json" where
  "item_of k (JObj d) = (case map_of d k of None \<Rightarrow> Inl (KeyError k) | Some v \<Rightarrow> Inr v)"
| "item_of k _ = Inl (TypeError ''object is not subscriptable'')"

definition numeric :: "json \<Rightarrow> exn + rat" where
  "numeric j = (case number_value j of None \<Rightarrow> Inl (TypeError ''not a number'') | Some r \<Rightarrow> Inr r)"

definition strong :: "json \<Rightarrow> exn + bool" where
  "strong threat = bindS (bindS (item_of ''severity'' threat) numeric) (\<lambda>s.
     if s < 70 / 100 then Inr False
     else bindS (bindS (item_of ''confidence'' threat) numeric) (\<lambda>c. Inr (60 / 100 \<le> c)))"

text \<open>\<open>any(_strong(t) for t in threats)\<close>.\<close>

fun any_strong :: "json list \<Rightarrow> exn + bool" where
  "any_strong [] = Inr False"
| "any_strong (t # ts) = bindS (strong t) (\<lambda>b. if b then Inr True else any_strong ts)"

definition max_action :: "string \<Rightarrow> string \<Rightarrow> string" where
  "max_action current candidate = (if severity current < severity candidate then candidate else current)"

text \<open>The action so far and the reasons so far, after a threat, an evaluation of a rule, a layer.\<close>

type_synonym assessed = "string \<times> string list"

definition assess_threat :: "(json \<Rightarrow> string) \<Rightarrow> (rat \<Rightarrow> string) \<Rightarrow> assessed \<Rightarrow> json \<Rightarrow> exn + assessed" where
  "assess_threat str fmt = (\<lambda>(action, reasons) threat.
     bindS (item_of ''threat_type'' threat) (\<lambda>type.
     bindS (bindS (item_of ''severity'' threat) numeric) (\<lambda>s.
     bindS (get_or threat ''channel'' JNull) (\<lambda>channel.
     bindS (if channel = JStr ''tool_arguments'' then strong threat else Inr False) (\<lambda>b.
       Inr (if b then max_action action ''escalate'' else action, reasons @ [plain_text str type @ '' ('' @ fmt s @ '')'']))))))"

definition assess_rule :: "(json \<Rightarrow> string) \<Rightarrow> assessed \<Rightarrow> json \<Rightarrow> exn + assessed" where
  "assess_rule str = (\<lambda>(action, reasons) e.
     bindS (get_or e ''triggered'' JNull) (\<lambda>t.
       if \<not> truthy t then Inr (action, reasons)
       else bindS (item_of ''rule_id'' e) (\<lambda>rule. bindS (item_of ''decision'' e) (\<lambda>decision.
         Inr (action, reasons @ [plain_text str rule @ '' ('' @ plain_text str decision @ '')''])))))"

fun fold_exn :: "('a \<Rightarrow> 'b \<Rightarrow> exn + 'a) \<Rightarrow> 'a \<Rightarrow> 'b list \<Rightarrow> exn + 'a" where
  "fold_exn f a [] = Inr a"
| "fold_exn f a (x # xs) = bindS (f a x) (\<lambda>b. fold_exn f b xs)"

definition assess_layer :: "(json \<Rightarrow> string) \<Rightarrow> (rat \<Rightarrow> string) \<Rightarrow> assessed \<Rightarrow> layer_result \<Rightarrow> exn + assessed" where
  "assess_layer str fmt a layer =
     bindS (iter_json (field_or ''threats'' (JArr []) (lr_details layer))) (\<lambda>ts.
     bindS (fold_exn (assess_threat str fmt) a ts) (\<lambda>b.
     bindS (iter_json (field_or ''evaluations'' (JArr []) (lr_details layer))) (\<lambda>es.
       fold_exn (assess_rule str) b es)))"

text \<open>The layer that scans written content, without the patterns that look for structure.\<close>

definition structure_cues :: "string list" where
  "structure_cues = [''embedded_polite_directive'', ''embedded_field_imperative'', ''spliced_capitalized_imperative'']"

definition written_layer :: adversarial where
  "written_layer = make_adversarial (70 / 100) [] True
     (Some (filter (\<lambda>d. dt_name d \<notin> set structure_cues) default_detector_patterns)) [] False None False"

definition assess_written :: "(json \<Rightarrow> string) \<Rightarrow> (json \<Rightarrow> string) \<Rightarrow> agent_profile \<Rightarrow> string \<Rightarrow> assessed \<Rightarrow> exn + assessed" where
  "assess_written str repr p text = (\<lambda>(action, reasons).
     if text = [] then Inr (action, reasons)
     else bindS (adversarial_evaluate str repr written_layer p [(''input'', JStr text)]) (\<lambda>r.
          bindS (iter_json (field_or ''threats'' (JArr []) (lr_details r))) (\<lambda>ts.
          bindS (traverse (item_of ''threat_type'') ts) (\<lambda>types.
          bindS (if lr_action r = ''block'' then Inr False else any_strong ts) (\<lambda>b.
            Inr (if lr_action r = ''block'' then max_action action ''block''
                 else if b then max_action action ''escalate'' else action,
                 reasons @ map (\<lambda>t. ''written content: '' @ plain_text str t) types))))))"

definition hook_assess :: "(json \<Rightarrow> string) \<Rightarrow> (json \<Rightarrow> string) \<Rightarrow> (rat \<Rightarrow> string) \<Rightarrow> agent_profile \<Rightarrow> integrity_score \<Rightarrow> args
    \<Rightarrow> exn + assessed" where
  "hook_assess str repr fmt p score arguments =
     bindS (fold_exn (assess_layer str fmt) (score_action score, []) (is_layer_results score)) (\<lambda>a.
     bindS (written_text str arguments) (\<lambda>written.
     bindS (assess_written str repr p written a) (\<lambda>(action, reasons).
       Inr (action, first_occurrences reasons))))"

section \<open>The session\<close>

text \<open>
  The chain file, and the file a corrupt one is moved to. A file that is no JSON list of records is
  \<open>Unreadable\<close>.
\<close>

datatype chain_file = Missing | Unreadable | Records "json list"

record ('k, 'w) hook_session =
  hk_host :: coding_host
  hk_adapter :: "('k, 'w) adapter"
  hk_mode :: string
  hk_state :: "'w adapter_state"
  hk_ended :: bool
  hk_persisted :: nat
  hk_file :: chain_file
  hk_corrupt :: chain_file

text \<open>\<open>_load_chain\<close>: the chain, and the two files after it.\<close>

definition load_chain_file :: "'k lib \<Rightarrow> chain_file \<Rightarrow> chain_file \<Rightarrow> chain option \<times> chain_file \<times> chain_file" where
  "load_chain_file L f corrupt = (case f of
       Missing \<Rightarrow> (None, f, corrupt)
     | Unreadable \<Rightarrow> (None, Missing, f)
     | Records js \<Rightarrow> (case from_dict_list L js of Inl e \<Rightarrow> (None, Missing, f) | Inr c \<Rightarrow> (Some c, f, corrupt)))"

definition open_session :: "'k lib \<Rightarrow> coding_host \<Rightarrow> ('k, 'w) adapter \<Rightarrow> string \<Rightarrow> chain_file \<Rightarrow> chain_file \<Rightarrow> 'w
    \<Rightarrow> ('k, 'w) hook_session" where
  "open_session L h A mode f corrupt w = (case load_chain_file L f corrupt of (c, f', corrupt') \<Rightarrow>
     let s = initial_state c [] w in
     \<lparr>hk_host = h, hk_adapter = A, hk_mode = mode, hk_state = s, hk_ended = False,
      hk_persisted = length (as_chain s), hk_file = f', hk_corrupt = corrupt'\<rparr>)"

definition persist :: "'k lib \<Rightarrow> ('k, 'w) hook_session \<Rightarrow> ('k, 'w) hook_session" where
  "persist L hs = (let c = as_chain (hk_state hs) in
     if length c = hk_persisted hs then hs
     else hs\<lparr>hk_file := Records (to_records_dict L c), hk_persisted := length c\<rparr>)"

text \<open>\<open>_latest_score\<close>: the score of the last event that has one; \<open>next\<close> raises when none has.\<close>

definition latest_score :: "framework_event list \<Rightarrow> exn + integrity_score" where
  "latest_score events = (case find (\<lambda>e. fe_score e \<noteq> None) (rev events) of
       None \<Rightarrow> Inl (OtherError ''StopIteration'' []) | Some e \<Rightarrow> Inr (the (fe_score e)))"

text \<open>An operation of the adapter, run by the session.\<close>

definition on_adapter :: "('a, 'w) op \<Rightarrow> ('k, 'w) hook_session \<Rightarrow> ((exn + 'a) \<times> ('k, 'w) hook_session) option" where
  "on_adapter m hs = map_option (\<lambda>(r, s). (r, hs\<lparr>hk_state := s\<rparr>)) (m (hk_state hs))"

definition close_hook :: "'k lib \<Rightarrow> ('k, 'w) hook_session \<Rightarrow> ((exn + unit) \<times> ('k, 'w) hook_session) option" where
  "close_hook L hs = (if hk_ended hs then Some (Inr (), hs)
     else case on_adapter (close_session L (hk_adapter hs)) (hs\<lparr>hk_ended := True\<rparr>) of
         None \<Rightarrow> None
       | Some (Inl e, hs') \<Rightarrow> Some (Inl e, hs')
       | Some (Inr u, hs') \<Rightarrow> Some (Inr u, persist L hs'))"

definition answer_call :: "'k lib \<Rightarrow> (json \<Rightarrow> string) \<Rightarrow> (json \<Rightarrow> string) \<Rightarrow> (rat \<Rightarrow> string) \<Rightarrow> json \<Rightarrow> args
    \<Rightarrow> ('k, 'w) hook_session \<Rightarrow> ((exn + json option) \<times> ('k, 'w) hook_session) option" where
  "answer_call L str repr fmt tool arguments hs =
     (case bindS (latest_score (as_events (hk_state hs))) (\<lambda>score.
             hook_assess str repr fmt (ad_profile (hk_adapter hs)) score arguments) of
        Inl e \<Rightarrow> Some (Inl e, hs)
      | Inr (action, reasons) \<Rightarrow>
          let verdict = verdict_for (hk_host hs) action in
          (case on_adapter (if verdict = ''allow'' then ret None
                 else record_decision L (hk_adapter hs) ''hook_verdict'' [(''tool'', tool), (''arguments'', JObj arguments)]
                   (Some ((''verdict:'' @ verdict) # (''mode:'' @ hk_mode hs) # reasons)) None) hs of
             None \<Rightarrow> None
           | Some (Inl e, hs') \<Rightarrow> Some (Inl e, hs')
           | Some (Inr _, hs') \<Rightarrow> Some (Inr (if hk_mode hs = ''alert'' then None
               else if verdict = ''deny'' then render_decision verdict (denial_message action)
               else render_decision verdict (''agentegrity: '' @ join ''; '' reasons)), persist L hs')))"

definition hook_handle :: "'k lib \<Rightarrow> (json \<Rightarrow> string) \<Rightarrow> (json \<Rightarrow> string) \<Rightarrow> (rat \<Rightarrow> string) \<Rightarrow> args
    \<Rightarrow> ('k, 'w) hook_session \<Rightarrow> ((exn + json option) \<times> ('k, 'w) hook_session) option" where
  "hook_handle L str repr fmt msg hs = (case normalize str (hk_host hs) msg of
       None \<Rightarrow> Some (Inr None, hs)
     | Some (kind, data) \<Rightarrow>
         if hk_ended hs then Some (Inr None, hs)
         else if kind = ''session_end''
           then map_option (\<lambda>(r, hs'). (case r of Inl e \<Rightarrow> Inl e | Inr u \<Rightarrow> Inr None, hs')) (close_hook L hs)
         else (case on_adapter (evaluate_sync L (hk_adapter hs) kind data) hs of
             None \<Rightarrow> None
           | Some (Inl e, hs') \<Rightarrow> Some (Inl e, hs')
           | Some (Inr d, hs') \<Rightarrow>
               if kind \<noteq> ''pre_tool_use'' then Some (Inr None, persist L hs')
               else answer_call L str repr fmt (field_or ''tool_name'' JNull data)
                 (as_dict (field_or ''tool_input'' JNull data)) hs'))"

end
