(* ===== verification/Hook_Properties.thy ===== *)
theory Hook_Properties
  imports Hook_Session
begin

text \<open>
  What a session of command hooks guarantees: a dangerous call is denied on either host, its answers are
  ones the host enforces, and the chain file holds the chain whenever a payload has been answered.
\<close>

section \<open>The score of a call\<close>

lemma latest_score_snoc:
  "latest_score (es @ [e]) = (case fe_score e of Some x \<Rightarrow> Inr x | None \<Rightarrow> latest_score es)"
  by (simp add: latest_score_def split: option.splits)

lemma events_notify [simp]: "as_events (notify c xs s) = as_events s"
  by (simp add: notify_def)

lemma events_start [simp]: "as_events (maybe_start_session A s) = as_events s"
proof -
  have f: "as_events (fold (\<lambda>e. notify c (g e)) es s) = as_events s" for c g es and s :: "'a adapter_state"
    by (induction es arbitrary: s) simp_all
  show ?thesis by (simp add: maybe_start_session_def replay_undelivered_def Let_def f)
qed

lemma leads_any: "leads P m (\<lambda>x s. True)"
  by (simp add: leads_def)

lemma leads_weaken: "leads P m Q \<Longrightarrow> (\<And>x s. Q x s \<Longrightarrow> R x s) \<Longrightarrow> leads P m R"
  unfolding leads_def by blast

lemma emit_leads: "leads P (emit_event A type data (Some score)) (\<lambda>e s. latest_score (as_events s) = Inr score)"
  unfolding leads_def emit_event_def
  by (auto simp: andThen_def thenDo_def clock_text_def world_op_def update_def ret_def latest_score_snoc Let_def split: prod.splits if_splits)

lemma decide_leads:
  assumes "\<not> ad_enforce A" and "ad_gate A = None"
  shows "leads P (decide_tool_call L A call score) (\<lambda>d s. latest_score (as_events s) = Inr score)"
proof -
  have d: "decide_tool_call L A call score = andThen (record_decision L A ''pre_tool_use'' [(''type'', JStr ''tool_call''),
      (''tool_name'', JStr (pc_name call)), (''arguments'', JObj (pc_input call))] None (Some (pc_inputs call)))
      (\<lambda>r. andThen (emit_event A ''pre_tool_use'' (pc_data call) (Some score)) (\<lambda>e. ret []))"
    by (simp add: decide_tool_call_def gate_authority_def assms andThen_ret with_authority_def thenDo_def enforcement_decision_def)
  show ?thesis unfolding d
    by (rule leads_andThen [OF leads_any], rule leads_andThen [OF emit_leads]) (simp add: leads_def ret_def)
qed

text \<open>Without enforcement and without a gate, a scored call is decided and its event carries the score.\<close>

lemma decide_emits:
  assumes "\<not> ad_enforce A" and "ad_gate A = None"
  shows "\<exists>d s'. decide_tool_call L A call score s = Some (Inr d, s') \<and> latest_score (as_events s') = Inr score"
proof -
  have d: "decide_tool_call L A call score = andThen (record_decision L A ''pre_tool_use'' [(''type'', JStr ''tool_call''),
      (''tool_name'', JStr (pc_name call)), (''arguments'', JObj (pc_input call))] None (Some (pc_inputs call)))
      (\<lambda>r. andThen (emit_event A ''pre_tool_use'' (pc_data call) (Some score)) (\<lambda>e. ret []))"
    by (simp add: decide_tool_call_def gate_authority_def assms andThen_ret with_authority_def thenDo_def enforcement_decision_def)
  have "returns (decide_tool_call L A call score)" unfolding d by (intro returns_intros)
  then obtain r s' where run: "decide_tool_call L A call score s = Some (r, s')" unfolding returns_def by fastforce
  have "never_raises (decide_tool_call L A call score)" unfolding d
    by (intro never_raises_andThen record_decision_never_raises emit_event_never_raises never_raises_basic)
  with run obtain x where r: "r = Inr x" unfolding never_raises_def by (cases r) auto
  from leadsD [OF decide_leads [OF assms, of "\<lambda>_. True" L call score] TrueI run [unfolded r]] run r show ?thesis by blast
qed

section \<open>A block stays a block\<close>

lemma severity_bound: "severity a \<le> 3"
  by (simp add: severity_def)

lemma max_action_block [simp]: "max_action ''block'' a = ''block''"
  using severity_bound [of a] by (simp add: max_action_def severity_def [of "''block''"])

lemma fold_block:
  assumes "\<And>a x b. fst a = ''block'' \<Longrightarrow> f a x = Inr b \<Longrightarrow> fst b = ''block''"
  shows "fst a = ''block'' \<Longrightarrow> fold_exn f a xs = Inr b \<Longrightarrow> fst b = ''block''"
  by (induction xs arbitrary: a) (auto simp: bindS_Inr dest: assms)

lemma assess_threat_block: "fst a = ''block'' \<Longrightarrow> assess_threat str fmt a x = Inr b \<Longrightarrow> fst b = ''block''"
  by (cases a) (auto simp: assess_threat_def bindS_Inr split: if_splits)

lemma assess_rule_block: "fst a = ''block'' \<Longrightarrow> assess_rule str a x = Inr b \<Longrightarrow> fst b = ''block''"
  by (cases a) (auto simp: assess_rule_def bindS_Inr split: if_splits)

lemma assess_layer_block:
  assumes "fst a = ''block''" and "assess_layer str fmt a x = Inr b"
  shows "fst b = ''block''"
proof -
  from assms(2) obtain ts es m where t: "fold_exn (assess_threat str fmt) a ts = Inr m" and e: "fold_exn (assess_rule str) m es = Inr b"
    unfolding assess_layer_def bindS_Inr by blast
  have "fst m = ''block''" by (rule fold_block [OF assess_threat_block assms(1) t])
  show ?thesis by (rule fold_block [OF assess_rule_block \<open>fst m = ''block''\<close> e])
qed

lemma hook_assess_block:
  assumes "score_action score = ''block''" and "hook_assess str repr fmt p score arguments = Inr (action, reasons)"
  shows "action = ''block''"
proof -
  from assms(2) obtain a written where a: "fold_exn (assess_layer str fmt) (score_action score, []) (is_layer_results score) = Inr a"
    and w: "\<exists>rs. assess_written str repr p written a = Inr (action, rs)"
    unfolding hook_assess_def bindS_Inr by (auto split: prod.splits)
  have start: "fst (score_action score, [] :: string list) = ''block''" unfolding fst_conv by (rule assms(1))
  have "fst a = ''block''" by (rule fold_block [OF assess_layer_block start a])
  with w show ?thesis by (cases a) (auto simp: assess_written_def bindS_Inr split: if_splits)
qed


text \<open>An answer is given from the latest score, after the verdict is recorded, when there is one.\<close>

lemma answered:
  assumes "answer_call L str repr fmt tool arguments hs = Some (Inr out, hs')"
  obtains score action reasons r hs1 where
    "latest_score (as_events (hk_state hs)) = Inr score"
    "hook_assess str repr fmt (ad_profile (hk_adapter hs)) score arguments = Inr (action, reasons)"
    "on_adapter (if verdict_for (hk_host hs) action = ''allow'' then ret None
       else record_decision L (hk_adapter hs) ''hook_verdict'' [(''tool'', tool), (''arguments'', JObj arguments)]
         (Some ((''verdict:'' @ verdict_for (hk_host hs) action) # (''mode:'' @ hk_mode hs) # reasons)) None) hs = Some (Inr r, hs1)"
    "hs' = persist L hs1"
    "out = (if hk_mode hs = ''alert'' then None
       else if verdict_for (hk_host hs) action = ''deny'' then render_decision (verdict_for (hk_host hs) action) (denial_message action)
       else render_decision (verdict_for (hk_host hs) action) (''agentegrity: '' @ join ''; '' reasons))"
proof -
  define X where "X = bindS (latest_score (as_events (hk_state hs))) (\<lambda>score.
      hook_assess str repr fmt (ad_profile (hk_adapter hs)) score arguments)"
  from assms obtain action reasons where x: "X = Inr (action, reasons)"
    unfolding answer_call_def X_def [symmetric] by (cases X) auto
  define m where "m = (if verdict_for (hk_host hs) action = ''allow'' then ret None
       else record_decision L (hk_adapter hs) ''hook_verdict'' [(''tool'', tool), (''arguments'', JObj arguments)]
         (Some ((''verdict:'' @ verdict_for (hk_host hs) action) # (''mode:'' @ hk_mode hs) # reasons)) None)"
  define o1 where "o1 = (if hk_mode hs = ''alert'' then None
       else if verdict_for (hk_host hs) action = ''deny'' then render_decision (verdict_for (hk_host hs) action) (denial_message action)
       else render_decision (verdict_for (hk_host hs) action) (''agentegrity: '' @ join ''; '' reasons))"
  have a: "(case on_adapter m hs of None \<Rightarrow> None | Some (Inl e, hs') \<Rightarrow> Some (Inl e, hs')
      | Some (Inr _, hs') \<Rightarrow> Some (Inr o1, persist L hs')) = Some (Inr out, hs')"
    using assms unfolding answer_call_def X_def [symmetric] x sum.case prod.case Let_def m_def [symmetric] o1_def [symmetric] .
  then obtain r hs1 where r: "on_adapter m hs = Some (Inr r, hs1)" "hs' = persist L hs1" "out = o1"
    by (auto split: option.splits sum.splits)
  from x obtain score where "latest_score (as_events (hk_state hs)) = Inr score"
    "hook_assess str repr fmt (ad_profile (hk_adapter hs)) score arguments = Inr (action, reasons)"
    unfolding X_def bindS_Inr by blast
  with r show ?thesis unfolding m_def o1_def by (rule that [rotated 2])
qed

text \<open>A score that says block, read back, is answered with a denial.\<close>

lemma block_denied:
  assumes "answer_call L str repr fmt tool arguments hs = Some (Inr out, hs')" and "latest_score (as_events (hk_state hs)) = Inr score"
    and "score_action score = ''block''" and "hk_mode hs \<noteq> ''alert''"
  shows "out = render_decision ''deny'' (denial_message ''block'')"
  using assms(1)
proof (rule answered)
  fix score' action reasons r hs1
  assume l: "latest_score (as_events (hk_state hs)) = Inr score'"
    and a: "hook_assess str repr fmt (ad_profile (hk_adapter hs)) score' arguments = Inr (action, reasons)"
    and out: "out = (if hk_mode hs = ''alert'' then None
       else if verdict_for (hk_host hs) action = ''deny'' then render_decision (verdict_for (hk_host hs) action) (denial_message action)
       else render_decision (verdict_for (hk_host hs) action) (''agentegrity: '' @ join ''; '' reasons))"
  have "score_action score' = ''block''" using l assms(2,3) by simp
  then have block: "action = ''block''" using a by (rule hook_assess_block)
  have v: "verdict_for (hk_host hs) action = ''deny''" by (simp only: verdict_for_def block if_True refl)
  show ?thesis unfolding out if_not_P [OF assms(4)] if_P [OF v] unfolding block v [unfolded block] ..
qed

section \<open>A dangerous call\<close>

text \<open>
  C36: a dangerous call is denied on either host. Take a session in \<open>enforce\<close> mode (any mode but
  \<open>alert\<close>) that has not ended, whose adapter, as the session builds it, neither enforces nor has an
  action gate, and scores with an evaluator that holds the adversarial layer. A payload announces a call
  that the classifier finds to run fetched or decoded code, or to tamper with logs. If fewer than a
  thousand calls are buffered and the call is buffered and scored without an exception, the answer to
  the host is a denial that says it was blocked. (A call whose evaluation raises is answered from the
  score of an earlier event, and one that finds a full buffer is judged by an earlier call.)
\<close>

theorem hook_denies_dangerous:
  assumes "hk_mode hs \<noteq> ''alert''" and "\<not> hk_ended hs" and "A = hk_adapter hs"
    and "\<not> ad_enforce A" and "ad_gate A = None"
    and "normalize str (hk_host hs) msg = Some (''pre_tool_use'', data)"
    and "field_or ''tool_name'' (JStr []) data = JStr name" and "field_or ''tool_input'' JNull data = JObj input"
    and "ad_classify A name input = Inr cats" and "set cats = category_value ` classify_tool_call str name input"
    and "ad_evaluate A = adapter_evaluation tm ev (ad_profile A)" and "ad_aevaluate A = adapter_aevaluation tm ev (ad_profile A)"
    and "adversarial_layer E a \<in> set (ev_layers ev)" and "av_block a" and "av_arguments a"
    and "c \<in> classify_tool_call str name input" and "dangerous c"
    and "length (cb_tool_calls (as_buffer (hk_state hs))) < buffer_cap"
    and "buffer_tool_call L A data (hk_state hs) = Some (Inr call, s1)" and "scored L A s1 score s2"
    and "hook_handle L str repr fmt msg hs = Some (Inr out, hs')"
  shows "out = render_decision ''deny'' (denial_message ''block'')"
proof -
  obtain n where n: "with_call n (call_entry name input cats) s1"
    using leadsD [OF buffer_leads [OF assms(9,7,8)] assms(18,19)] by blast
  have sc: "score_call L A s1 = Some (Inr score, s2)" using assms(20) unfolding score_call_scored .
  have "leads (with_call n (call_entry name input cats)) (score_call L A) (\<lambda>score s. score_action score = ''block'')"
    by (rule score_call_leads) (rule dangerous_score [OF assms(10-17)])
  from leadsD [OF this n sc] have block: "score_action score = ''block''" .
  obtain d s3 where d: "decide_tool_call L A call score s2 = Some (Inr d, s3)" "latest_score (as_events s3) = Inr score"
    using decide_emits [OF assms(4,5)] by blast
  have e: "evaluate_sync L A ''pre_tool_use'' data (hk_state hs) = Some (Inr d, s3)"
    unfolding tool_call_steps by (simp add: catching_def andThen_def assms(19) sc d(1))
  let ?hs1 = "hs\<lparr>hk_state := s3\<rparr>"
  have run: "answer_call L str repr fmt (field_or ''tool_name'' JNull data) input ?hs1 = Some (Inr out, hs')"
    using assms(2,6,8,21) e unfolding hook_handle_def assms(3) by (simp add: on_adapter_def)
  show ?thesis by (rule block_denied [OF run _ block]) (use d(2) assms(1) in simp_all)
qed

section \<open>Answers\<close>

text \<open>
  C37: the hosts enforce every answer. A payload is answered only before a tool call, in a session that
  has not ended and is not in \<open>alert\<close> mode; the answer is a decision of the event \<open>PreToolUse\<close>, which
  is a denial on Codex, and a denial or a question to the user on Claude Code.
\<close>

theorem hook_answers_enforced:
  assumes "hook_handle L str repr fmt msg hs = Some (Inr (Some out), hs')"
  shows "hk_mode hs \<noteq> ''alert'' \<and> \<not> hk_ended hs \<and> (\<exists>data. normalize str (hk_host hs) msg = Some (''pre_tool_use'', data))
     \<and> (\<exists>verdict \<in> (case hk_host hs of Claude_Code \<Rightarrow> {''deny'', ''ask''} | Codex \<Rightarrow> {''deny''}).
          \<exists>reason. Some out = render_decision verdict reason)"
proof -
  from assms obtain kind data where n: "normalize str (hk_host hs) msg = Some (kind, data)" "\<not> hk_ended hs"
    unfolding hook_handle_def by (auto split: option.splits if_splits)
  have k: "kind \<noteq> ''session_end''"
  proof
    assume "kind = ''session_end''"
    with assms n obtain x where "close_hook L hs = Some x" "(case fst x of Inl e \<Rightarrow> Inl e | Inr u \<Rightarrow> Inr None) = Inr (Some out)"
      unfolding hook_handle_def by auto
    then show False by (cases "fst x") simp_all
  qed
  then obtain d s1 where e: "on_adapter (evaluate_sync L (hk_adapter hs) kind data) hs = Some (Inr d, s1)"
    using assms n unfolding hook_handle_def by (auto split: option.splits sum.splits)
  with assms n k have p: "kind = ''pre_tool_use''" unfolding hook_handle_def by (auto split: if_splits)
  have run: "answer_call L str repr fmt (field_or ''tool_name'' JNull data) (as_dict (field_or ''tool_input'' JNull data)) s1 = Some (Inr (Some out), hs')"
    using assms n e p unfolding hook_handle_def by simp
  have s1: "hk_host s1 = hk_host hs" "hk_mode s1 = hk_mode hs" using e by (auto simp: on_adapter_def)
  obtain action reasons where out: "Some out = (if hk_mode s1 = ''alert'' then None
       else if verdict_for (hk_host s1) action = ''deny'' then render_decision (verdict_for (hk_host s1) action) (denial_message action)
       else render_decision (verdict_for (hk_host s1) action) (''agentegrity: '' @ join ''; '' reasons))"
    using run by (rule answered)
  have mode: "hk_mode hs \<noteq> ''alert''" using out unfolding s1 by auto
  have shown: "render_decision v r = Some out \<Longrightarrow> v \<noteq> ''allow''" for v r by (auto simp: render_decision_def)
  obtain reason where r: "Some out = render_decision (verdict_for (hk_host hs) action) reason"
    using out mode unfolding s1 by (cases "verdict_for (hk_host hs) action = ''deny''") auto
  then have "verdict_for (hk_host hs) action \<noteq> ''allow''" using shown by metis
  then have "verdict_for (hk_host hs) action \<in> (case hk_host hs of Claude_Code \<Rightarrow> {''deny'', ''ask''} | Codex \<Rightarrow> {''deny''})"
    unfolding verdict_for_def by (cases "hk_host hs") (simp_all split: if_splits)
  with r mode n p show ?thesis by blast
qed

section \<open>The chain file\<close>

text \<open>A run of a session over payloads, each of which it answers without an exception.\<close>

fun serve :: "'k lib \<Rightarrow> (json \<Rightarrow> string) \<Rightarrow> (json \<Rightarrow> string) \<Rightarrow> (rat \<Rightarrow> string) \<Rightarrow> args list \<Rightarrow> ('k, 'w) hook_session
    \<Rightarrow> (json option list \<times> ('k, 'w) hook_session) option" where
  "serve L str repr fmt [] hs = Some ([], hs)"
| "serve L str repr fmt (m # ms) hs = (case hook_handle L str repr fmt m hs of
       Some (Inr out, hs1) \<Rightarrow> map_option (\<lambda>(outs, hs2). (out # outs, hs2)) (serve L str repr fmt ms hs1)
     | _ \<Rightarrow> None)"

text \<open>The file holds the chain; \<open>f0\<close> is what it held when the session began with the chain \<open>c0\<close>.\<close>

definition durable :: "'k lib \<Rightarrow> chain \<Rightarrow> chain_file \<Rightarrow> ('k, 'w) hook_session \<Rightarrow> bool" where
  "durable L c0 f0 hs = (adapter_inv L c0 (hk_state hs) \<and> hk_persisted hs = length (as_chain (hk_state hs))
     \<and> hk_file hs = (if as_chain (hk_state hs) = c0 then f0 else Records (to_records_dict L (as_chain (hk_state hs)))))"

text \<open>What an operation of the adapter leaves for the session to write.\<close>

definition growing :: "'k lib \<Rightarrow> chain \<Rightarrow> chain_file \<Rightarrow> ('k, 'w) hook_session \<Rightarrow> bool" where
  "growing L c0 f0 hs = (\<exists>c. adapter_inv L c0 (hk_state hs) \<and> adapter_inv L c (hk_state hs) \<and> hk_persisted hs = length c
     \<and> (\<exists>d. c = c0 @ d) \<and> hk_file hs = (if c = c0 then f0 else Records (to_records_dict L c)))"

lemma durable_growing: "durable L c0 f0 hs \<Longrightarrow> growing L c0 f0 hs"
  unfolding durable_def growing_def by (rule exI [of _ "as_chain (hk_state hs)"]) (auto simp: adapter_inv_def)

lemma growing_persist: "growing L c0 f0 hs \<Longrightarrow> durable L c0 f0 (persist L hs)"
proof -
  assume "growing L c0 f0 hs"
  then obtain c d x where c: "adapter_inv L c0 (hk_state hs)" "as_chain (hk_state hs) = c @ x" "hk_persisted hs = length c"
      "c = c0 @ d" "hk_file hs = (if c = c0 then f0 else Records (to_records_dict L c))"
    unfolding growing_def adapter_inv_def by auto
  show ?thesis
  proof (cases "x = []")
    case True
    with c have "as_chain (hk_state hs) = c" by simp
    then show ?thesis using c by (simp add: persist_def durable_def)
  next
    case False
    with c(4) have "c @ x \<noteq> c0" by simp
    with c False show ?thesis by (simp add: persist_def durable_def)
  qed
qed

lemma growing_adapter:
  assumes "growing L c0 f0 hs" and "on_adapter m hs = Some (r, hs')" and "\<And>c. keeps (adapter_inv L c) m"
  shows "growing L c0 f0 hs'"
proof -
  from assms(2) obtain s where s: "m (hk_state hs) = Some (r, s)" "hs' = hs\<lparr>hk_state := s\<rparr>" by (auto simp: on_adapter_def)
  from assms(1) obtain c where c: "adapter_inv L c0 (hk_state hs)" "adapter_inv L c (hk_state hs)" "hk_persisted hs = length c"
      "\<exists>d. c = c0 @ d" "hk_file hs = (if c = c0 then f0 else Records (to_records_dict L c))"
    unfolding growing_def by blast
  have "adapter_inv L c0 s" "adapter_inv L c s" using keepsD [OF assms(3) _ s(1)] c(1,2) by blast+
  with c(3-5) show ?thesis unfolding growing_def s(2) by (intro exI [of _ c]) simp
qed

lemma growing_ended [simp]: "growing L c0 f0 (hs\<lparr>hk_ended := b\<rparr>) = growing L c0 f0 hs"
  by (simp add: growing_def)

lemma close_durable:
  assumes "growing L c0 f0 hs" and "\<not> hk_ended hs" and "close_hook L hs = Some (Inr u, hs')"
  shows "durable L c0 f0 hs'"
proof -
  from assms(3) obtain v hs1 where c: "on_adapter (close_session L (hk_adapter hs)) (hs\<lparr>hk_ended := True\<rparr>) = Some (Inr v, hs1)"
      "hs' = persist L hs1"
    unfolding close_hook_def if_not_P [OF assms(2)] by (auto split: option.splits sum.splits)
  have "growing L c0 f0 (hs\<lparr>hk_ended := True\<rparr>)" using assms(1) by simp
  from growing_adapter [OF this c(1) keeps_close_session] show ?thesis unfolding c(2) by (rule growing_persist)
qed

lemma answer_durable:
  assumes "growing L c0 f0 hs" and "answer_call L str repr fmt tool arguments hs = Some (Inr out, hs')"
  shows "durable L c0 f0 hs'"
  using assms(2)
proof (rule answered)
  fix score action reasons r hs1
  let ?m = "if verdict_for (hk_host hs) action = ''allow'' then ret None
       else record_decision L (hk_adapter hs) ''hook_verdict'' [(''tool'', tool), (''arguments'', JObj arguments)]
         (Some ((''verdict:'' @ verdict_for (hk_host hs) action) # (''mode:'' @ hk_mode hs) # reasons)) None"
  assume run: "on_adapter ?m hs = Some (Inr r, hs1)" and hs': "hs' = persist L hs1"
  have "keeps (adapter_inv L c) ?m" for c by (intro keeps_intros)
  from growing_adapter [OF assms(1) run this] show "durable L c0 f0 hs'" unfolding hs' by (rule growing_persist)
qed

lemma handle_durable:
  assumes "durable L c0 f0 hs" and "hook_handle L str repr fmt msg hs = Some (Inr out, hs')"
  shows "durable L c0 f0 hs'"
proof (cases "normalize str (hk_host hs) msg")
  case None
  with assms show ?thesis by (simp add: hook_handle_def)
next
  case (Some kd)
  obtain kind data where n: "normalize str (hk_host hs) msg = Some (kind, data)" using Some by (cases kd) simp
  note g = durable_growing [OF assms(1)]
  consider "hk_ended hs" | "\<not> hk_ended hs" "kind = ''session_end''" | "\<not> hk_ended hs" "kind \<noteq> ''session_end''" by blast
  then show ?thesis
  proof cases
    case 1
    with assms n show ?thesis by (simp add: hook_handle_def)
  next
    case 2
    with assms(2) n obtain x where x: "close_hook L hs = Some x" "(case fst x of Inl e \<Rightarrow> Inl e | Inr u \<Rightarrow> Inr None) = Inr out" "snd x = hs'"
      unfolding hook_handle_def by auto
    then obtain u where "close_hook L hs = Some (Inr u, hs')" by (cases x; cases "fst x") auto
    with g 2(1) show ?thesis by (rule close_durable)
  next
    case 3
    with assms(2) n obtain d hs1 where e: "on_adapter (evaluate_sync L (hk_adapter hs) kind data) hs = Some (Inr d, hs1)"
      by (auto simp: hook_handle_def split: option.splits sum.splits)
    have g1: "growing L c0 f0 hs1" by (rule growing_adapter [OF g e keeps_evaluate_sync])
    show ?thesis
    proof (cases "kind = ''pre_tool_use''")
      case True
      with assms(2) n 3 e have "answer_call L str repr fmt (field_or ''tool_name'' JNull data) (as_dict (field_or ''tool_input'' JNull data)) hs1
          = Some (Inr out, hs')" by (simp add: hook_handle_def)
      with g1 show ?thesis by (rule answer_durable)
    next
      case False
      with assms(2) n 3 e have "hs' = persist L hs1" by (simp add: hook_handle_def)
      with g1 show ?thesis by (simp add: growing_persist)
    qed
  qed
qed

lemma serve_durable: "durable L c0 f0 hs \<Longrightarrow> serve L str repr fmt ms hs = Some (outs, hs') \<Longrightarrow> durable L c0 f0 hs'"
proof (induction ms arbitrary: hs outs)
  case (Cons m ms)
  then obtain out hs1 outs' where "hook_handle L str repr fmt m hs = Some (Inr out, hs1)" "serve L str repr fmt ms hs1 = Some (outs', hs')"
    by (auto split: option.splits sum.splits)
  with Cons handle_durable show ?case by blast
qed simp

text \<open>A session starts with the chain its file holds.\<close>

lemma open_durable:
  assumes "load_chain_file L f corrupt = (c, f', corrupt')" and "verify_chain L (case c of None \<Rightarrow> [] | Some x \<Rightarrow> x)"
  shows "durable L (case c of None \<Rightarrow> [] | Some x \<Rightarrow> x) f' (open_session L h A mode f corrupt w)"
  using assms by (auto simp: durable_def open_session_def Let_def adapter_inv_def initial_state_def buffers_capped_def
      calls_numbered_def empty_buffer_def split: option.splits)

text \<open>What the file holds is read back, by the next session, as the same chain.\<close>

lemma written_chain_reloads:
  "list_all (record_ok L) c \<Longrightarrow> load_chain_file L (Records (to_records_dict L c)) x = (Some (map normalised c), Records (to_records_dict L c), x)"
proof -
  assume "list_all (record_ok L) c"
  then have "from_dict_list L (to_records_dict L c) = Inr (map normalised c)"
    by (induction c) (simp_all add: from_dict_list_def to_records_dict_def record_roundtrip)
  then show ?thesis by (simp add: load_chain_file_def)
qed

text \<open>
  C38: the evidence of a session is on disk. Open a session on a chain file whose chain verifies (or on
  no file, or on a file that is not readable, which is moved aside), and let it serve any payloads:
  after the last of them, the chain verifies and extends the chain that was loaded, and the file holds
  exactly that chain, or what it held at the start when no record was added. So a daemon that is
  killed between two payloads loses no record.
\<close>

theorem hook_chain_durable:
  assumes "load_chain_file L f corrupt = (c, f', corrupt')" and "c0 = (case c of None \<Rightarrow> [] | Some x \<Rightarrow> x)"
    and "verify_chain L c0" and "serve L str repr fmt ms (open_session L h A mode f corrupt w) = Some (outs, hs)"
  shows "verify_chain L (as_chain (hk_state hs)) \<and> (\<exists>d. as_chain (hk_state hs) = c0 @ d)
     \<and> hk_file hs = (if as_chain (hk_state hs) = c0 then f' else Records (to_records_dict L (as_chain (hk_state hs))))"
proof -
  have "durable L c0 f' hs"
    using serve_durable [OF open_durable [OF assms(1)] assms(4)] assms(2,3) by simp
  then show ?thesis unfolding durable_def adapter_inv_def by blast
qed

section \<open>An evaluation that raises\<close>

text \<open>
  When the evaluation of a call raises and the adapter does not enforce, no event with a score is
  emitted, so the answer rests on the score of an earlier event.
\<close>

lemma latest_of_keeps: "\<lbrakk>\<And>s. as_events (f s) = as_events s\<rbrakk> \<Longrightarrow> keeps (\<lambda>s. latest_score (as_events s) = x) (update f)"
  by (rule keeps_update) simp

lemma emit_keeps_latest: "keeps (\<lambda>s. latest_score (as_events s) = x) (emit_event A type data None)"
  unfolding keeps_def emit_event_def
  by (auto simp: andThen_def thenDo_def clock_text_def world_op_def update_def ret_def latest_score_snoc Let_def split: prod.splits if_splits)

lemma buffer_keeps_latest: "keeps (\<lambda>s. latest_score (as_events s) = x) (buffer_tool_call L A data)"
  unfolding buffer_tool_call_def append_capped_def update_buffer_def Let_def
  by (intro keeps_intros latest_of_keeps emit_keeps_latest) simp_all

lemma evaluation_raises:
  assumes "\<And>c ctx w. \<exists>e w'. ad_evaluate A c ctx w = (Inl e, w')"
  shows "\<exists>e s2. run_evaluation L A s1 = Some (Inl e, s2) \<and> as_events s2 = as_events s1"
proof -
  have "\<exists>x s2. evaluation_context L A s1 = Some (x, s2) \<and> as_events s2 = as_events s1"
    by (auto simp: evaluation_context_def andThen_def gets_def lift_sum_def world_try_def ret_def split: sum.splits prod.splits)
  then obtain x s2 where x: "evaluation_context L A s1 = Some (x, s2)" "as_events s2 = as_events s1" by blast
  show ?thesis
  proof (cases x)
    case (Inl e)
    with x show ?thesis by (simp add: run_evaluation_def andThen_def)
  next
    case (Inr ctx)
    obtain e w' where "ad_evaluate A (as_chain s2) ctx (as_world s2) = (Inl e, w')" using assms(1) by blast
    with x Inr show ?thesis by (simp add: run_evaluation_def andThen_def gets_def world_try_def)
  qed
qed

lemma stale_score:
  assumes "\<And>c ctx w. \<exists>e w'. ad_evaluate A c ctx w = (Inl e, w')" and "ad_aevaluate A = None"
    and "evaluate_sync L A ''pre_tool_use'' data s = Some (r, s')"
  shows "latest_score (as_events s') = latest_score (as_events s)"
proof -
  let ?P = "\<lambda>s'. latest_score (as_events s') = latest_score (as_events s)"
  note raises = evaluation_raises [OF assms(1)]
  have "keeps ?P (handle_pre_tool_use L A data)"
    unfolding handle_pre_tool_use_def
  proof (rule keeps_andThen [OF buffer_keeps_latest])
    fix call
    show "keeps ?P (andThen (run_evaluation L A) (decide_tool_call L A call))"
      unfolding keeps_def
    proof (intro allI impI)
      fix s1 y s2
      assume p: "?P s1" and run: "andThen (run_evaluation L A) (decide_tool_call L A call) s1 = Some (y, s2)"
      obtain e s3 where "run_evaluation L A s1 = Some (Inl e, s3)" "as_events s3 = as_events s1" using raises by blast
      with run p show "?P s2" by (auto simp: andThen_def)
    qed
  qed
  note k = this
  have h: "?P s2" if "handle_pre_tool_use L A data s = Some (y, s2)" for y s2 by (rule keepsD [OF k _ that]) simp
  have "keeps ?P (evaluation_failed A ''pre_tool_use'')"
    unfolding evaluation_failed_def thenDo_def by (intro keeps_intros latest_of_keeps) simp_all
  then have f: "?P s2 \<Longrightarrow> evaluation_failed A ''pre_tool_use'' s2 = Some (y, s3) \<Longrightarrow> ?P s3" for s2 y s3 by (rule keepsD)
  have "handler_of L A ''pre_tool_use'' = Some (handle_pre_tool_use L A)" by (simp add: handler_of_def)
  with assms(3) have run: "catching A ''pre_tool_use'' (handle_pre_tool_use L A data) s = Some (r, s')"
    by (simp add: evaluate_sync_def assms(2))
  then obtain y s2 where y: "handle_pre_tool_use L A data s = Some (y, s2)" by (auto simp: catching_def split: option.splits)
  show ?thesis
  proof (cases y)
    case (Inl e)
    with run y have "evaluation_failed A ''pre_tool_use'' s2 = Some (r, s')" by (simp add: catching_def)
    with h [OF y] show ?thesis by (rule f)
  next
    case (Inr d)
    with run y have "s' = s2" by (simp add: catching_def)
    with h [OF y] show ?thesis by simp
  qed
qed

section \<open>A session\<close>

text \<open>An operation that returns, from the states of \<open>P\<close>, a value and a state of \<open>Q\<close>.\<close>

definition succeeds :: "('w adapter_state \<Rightarrow> bool) \<Rightarrow> ('a, 'w) op \<Rightarrow> ('a \<Rightarrow> 'w adapter_state \<Rightarrow> bool) \<Rightarrow> bool" where
  "succeeds P m Q = (\<forall>s. P s \<longrightarrow> (\<exists>x s'. m s = Some (Inr x, s') \<and> Q x s'))"

lemma succeeds_andThen:
  assumes "succeeds P m Q" and "\<And>x. succeeds (Q x) (f x) R"
  shows "succeeds P (andThen m f) R"
  unfolding succeeds_def andThen_def
proof (intro allI impI)
  fix s
  assume "P s"
  with assms(1) obtain x s1 where 1: "m s = Some (Inr x, s1)" "Q x s1" unfolding succeeds_def by blast
  with assms(2) show "\<exists>y s'. (case m s of None \<Rightarrow> None | Some (Inl e, s1) \<Rightarrow> Some (Inl e, s1) | Some (Inr x, s1) \<Rightarrow> f x s1) = Some (Inr y, s') \<and> R y s'"
    unfolding succeeds_def by simp
qed

lemma succeeds_any: "succeeds (\<lambda>s. True) m Q \<Longrightarrow> succeeds P m Q"
  unfolding succeeds_def by blast

lemma record_decision_succeeds: "succeeds (\<lambda>s. True) (record_decision L A point action steps inputs) (\<lambda>x s. True)"
  unfolding succeeds_def record_decision_def emit_event_def
  by (auto simp: andThen_def thenDo_def world_op_def clock_text_def gets_def update_def ret_def Let_def split: prod.splits sum.splits)

lemma emit_succeeds: "succeeds (\<lambda>s. True) (emit_event A type data (Some score)) (\<lambda>e s. latest_score (as_events s) = Inr score)"
  unfolding succeeds_def emit_event_def
  by (auto simp: andThen_def thenDo_def clock_text_def world_op_def update_def ret_def latest_score_snoc Let_def split: prod.splits)

lemma record_evaluation_succeeds:
  assumes "ad_key A = None"
  shows "succeeds (\<lambda>s. True) (record_evaluation L A score) (\<lambda>x s. x = score)"
  unfolding succeeds_def record_evaluation_def build_attestation_record_def assms append_record_def chain_append_def score_inputs_def
  by (auto simp: andThen_def thenDo_def clock_text_def world_op_def update_def ret_def gets_def lift_sum_def Let_def split: prod.splits)

text \<open>An adapter that looks at arguments only, and the call \<open>unset HISTFILE\<close>.\<close>

definition quiet_layer :: adversarial where
  "quiet_layer = make_adversarial (70 / 100) [] True (Some []) [] False None True"

definition quiet_evaluator :: "(layers_state, agent_profile) evaluator" where
  "quiet_evaluator = \<lparr>ev_layers = [adversarial_layer sample_surroundings quiet_layer], ev_weights = default_weights, ev_fail_fast = False\<rparr>"

definition quiet_adapter :: "(string, layers_state) adapter" where
  "quiet_adapter = shell_adapter\<lparr>ad_enforce := False,
     ad_evaluate := adapter_evaluation pipeline_timer quiet_evaluator (default_profile ''a'' ''t'' ''agent''),
     ad_classify := \<lambda>n i. Inr [''log_tamper'']\<rparr>"

definition unset_call :: args where
  "unset_call = [(''command'', JStr ''unset HISTFILE'')]"

definition unset_payload :: args where
  "unset_payload = [(''session_id'', JStr ''s''), (''hook_event_name'', JStr ''PreToolUse''), (''tool_name'', JStr ''Bash''),
     (''tool_input'', JObj unset_call)]"

definition tamper_threat :: threat where
  "tamper_threat = \<lparr>ta_channel = ''tool_arguments'', ta_type = ''evidence_tampering'', ta_severity = 90 / 100, ta_confidence = 80 / 100,
     ta_description = ''Tool call destroys, truncates or disables logs or shell history'', ta_indicators = [''Bash: log_tamper'']\<rparr>"

definition unset_context :: args where
  "unset_context = to_evaluation_context sample_lib (empty_buffer\<lparr>cb_tool_calls := [(0, call_entry ''Bash'' unset_call [''log_tamper''])],
     cb_tool_usage := [(''Bash'', 1)], cb_actions := [(''tool_call'', 1)]\<rparr>)"

lemma unset_threats: "all_threats (\<lambda>j. []) (\<lambda>j. []) quiet_layer p unset_context = Inr [tamper_threat]"
proof -
  have 1: "detect_channel_threats (\<lambda>j. []) (\<lambda>j. []) [] unset_context = Inr []" by code_simp
  have 2: "detect_arguments (\<lambda>j. []) unset_context = Inr [tamper_threat]" by code_simp
  show ?thesis unfolding all_threats_def quiet_layer_def make_adversarial_def by (simp add: 1 2 custom_threats_def)
qed

lemma unset_buffered:
  "succeeds (\<lambda>s. as_buffer s = empty_buffer \<and> as_next s = 0) (buffer_tool_call sample_lib quiet_adapter unset_payload)
     (\<lambda>call s. to_evaluation_context sample_lib (as_buffer s) = unset_context)"
proof -
  have "field_or ''tool_name'' (JStr []) unset_payload = JStr ''Bash''" "field_or ''tool_input'' JNull unset_payload = JObj unset_call"
    by (simp_all add: unset_payload_def field_or_def)
  then show ?thesis
    unfolding succeeds_def buffer_tool_call_def
    by (simp add: andThen_def lift_sum_def gets_def thenDo_def update_def update_buffer_def ret_def append_capped_def quiet_adapter_def
        arguments_of_def empty_buffer_def buffer_cap_def count_up_def unset_context_def Let_def)
qed

lemma unset_score:
  "\<exists>score w'. ad_evaluate quiet_adapter ch unset_context w = (Inr score, w')
     \<and> is_layer_results score = [(adversarial_result quiet_layer (ad_profile quiet_adapter) [tamper_threat])\<lparr>lr_latency := 0\<rparr>]"
proof -
  let ?p = "ad_profile quiet_adapter"
  let ?r = "(adversarial_result quiet_layer ?p [tamper_threat])\<lparr>lr_latency := 0\<rparr>"
  have run: "run_layers pipeline_timer False call_sync (ev_layers quiet_evaluator) ?p unset_context w = (Inr [?r], w)" for w
    by (simp add: quiet_evaluator_def timed_layer_def call_sync_def adversarial_layer_def pipeline_timer_def sample_surroundings_def
        adversarial_evaluate_def unset_threats)
  have u: "unit_score (compute_coherence ts)" for ts by (simp add: unit_score_def compute_coherence_def)
  have ok: "list_all result_ok [?r]"
    by (simp add: result_ok_def adversarial_result_def Let_def u detail_scores_ok_def)
  let ?w = "w\<lparr>pl_chains := [ch], pl_recovery := bind_chain 0 (pl_recovery w)\<rparr>"
  have a: "ad_evaluate quiet_adapter ch unset_context w = evaluate pipeline_timer quiet_evaluator ?p unset_context ?w"
    by (simp add: quiet_adapter_def shell_adapter_def adapter_evaluation_def)
  obtain s w' where "score_results pipeline_timer default_weights 1 ''1.0.0'' 0 [?r] ?w = (Inr s, w')" "is_layer_results s = [?r]"
    using score_bounded [OF ok default_weights_ok, of pipeline_timer 1 "''1.0.0''" 0 ?w] by blast
  moreover have "evaluate pipeline_timer quiet_evaluator ?p unset_context ?w = score_results pipeline_timer default_weights 1 ''1.0.0'' 0 [?r] ?w"
    using run [of ?w] by (simp add: evaluate_def evaluate_with_def pipeline_timer_def quiet_evaluator_def)
  ultimately show ?thesis unfolding a by metis
qed

lemma unset_evaluation:
  "succeeds (\<lambda>s. to_evaluation_context sample_lib (as_buffer s) = unset_context) (run_evaluation sample_lib quiet_adapter)
     (\<lambda>score s. is_layer_results score = [(adversarial_result quiet_layer (ad_profile quiet_adapter) [tamper_threat])\<lparr>lr_latency := 0\<rparr>])"
proof -
  let ?p = "ad_profile quiet_adapter"
  let ?r = "(adversarial_result quiet_layer ?p [tamper_threat])\<lparr>lr_latency := 0\<rparr>"
  have c: "succeeds (\<lambda>s. to_evaluation_context sample_lib (as_buffer s) = unset_context) (evaluation_context sample_lib quiet_adapter)
      (\<lambda>ctx s. ctx = unset_context)"
  proof -
    have "get_or (or_json (field_or ''topology_context'' JNull unset_context) (JObj [])) ''role'' JNull = Inr JNull" by code_simp
    then show ?thesis
      unfolding succeeds_def evaluation_context_def
      by (simp add: andThen_def gets_def lift_sum_def world_try_def ret_def quiet_adapter_def shell_adapter_def)
  qed
  note e = unset_score
  have k: "ad_key quiet_adapter = None" by (simp add: quiet_adapter_def shell_adapter_def)
  have w: "succeeds (\<lambda>s. True) (world_try (ad_evaluate quiet_adapter ch unset_context)) (\<lambda>score s. is_layer_results score = [?r])" for ch
    unfolding succeeds_def world_try_def
  proof (intro allI impI)
    fix s :: "layers_state adapter_state"
    obtain score w' where "ad_evaluate quiet_adapter ch unset_context (as_world s) = (Inr score, w')" "is_layer_results score = [?r]"
      using e [of ch "as_world s"] by blast
    then show "\<exists>x s'. (case ad_evaluate quiet_adapter ch unset_context (as_world s) of (x, w) \<Rightarrow> Some (x, s\<lparr>as_world := w\<rparr>)) = Some (Inr x, s')
        \<and> is_layer_results x = [?r]" by simp
  qed
  have r: "succeeds (\<lambda>s. is_layer_results score = [?r]) (record_evaluation sample_lib quiet_adapter score) (\<lambda>x s. is_layer_results x = [?r])" for score
    using record_evaluation_succeeds [OF k, of sample_lib score] unfolding succeeds_def by metis
  have g: "succeeds (\<lambda>s. ctx = unset_context) (gets as_chain) (\<lambda>ch s. ctx = unset_context)" for ctx
    by (simp add: succeeds_def gets_def)
  have "succeeds (\<lambda>s. ctx = unset_context) (world_try (ad_evaluate quiet_adapter ch ctx)) (\<lambda>score s. is_layer_results score = [?r])" for ch ctx
    using w unfolding succeeds_def by metis
  from succeeds_andThen [OF c succeeds_andThen [OF g succeeds_andThen [OF this r]]] show ?thesis
    unfolding run_evaluation_def .
qed


lemma unset_handled:
  "succeeds (\<lambda>s. as_buffer s = empty_buffer \<and> as_next s = 0) (handle_pre_tool_use sample_lib quiet_adapter unset_payload)
     (\<lambda>d s. \<exists>score. latest_score (as_events s) = Inr score
        \<and> is_layer_results score = [(adversarial_result quiet_layer (ad_profile quiet_adapter) [tamper_threat])\<lparr>lr_latency := 0\<rparr>])"
proof -
  let ?r = "(adversarial_result quiet_layer (ad_profile quiet_adapter) [tamper_threat])\<lparr>lr_latency := 0\<rparr>"
  have d: "succeeds (\<lambda>s. is_layer_results score = [?r]) (decide_tool_call sample_lib quiet_adapter call score)
      (\<lambda>d s. \<exists>score. latest_score (as_events s) = Inr score \<and> is_layer_results score = [?r])" for call score
  proof (cases "is_layer_results score = [?r]")
    case score: True
    have eq: "decide_tool_call sample_lib quiet_adapter call score
        = andThen (record_decision sample_lib quiet_adapter ''pre_tool_use'' [(''type'', JStr ''tool_call''),
            (''tool_name'', JStr (pc_name call)), (''arguments'', JObj (pc_input call))] None (Some (pc_inputs call)))
          (\<lambda>r. andThen (emit_event quiet_adapter ''pre_tool_use'' (pc_data call) (Some score)) (\<lambda>e. ret []))"
      by (simp add: decide_tool_call_def gate_authority_def andThen_ret with_authority_def thenDo_def enforcement_decision_def
          quiet_adapter_def shell_adapter_def)
    have "succeeds (\<lambda>s. latest_score (as_events s) = Inr score) (ret [])
        (\<lambda>d s. \<exists>score. latest_score (as_events s) = Inr score \<and> is_layer_results score = [?r])"
      using score by (auto simp: succeeds_def ret_def)
    from succeeds_andThen [OF succeeds_any [OF record_decision_succeeds] succeeds_andThen [OF emit_succeeds this]]
    show "succeeds (\<lambda>s'. is_layer_results score = [?r]) (decide_tool_call sample_lib quiet_adapter call score)
        (\<lambda>d s. \<exists>score. latest_score (as_events s) = Inr score \<and> is_layer_results score = [?r])"
      unfolding eq .
  qed (simp add: succeeds_def)
  show ?thesis unfolding handle_pre_tool_use_def
    by (rule succeeds_andThen [OF unset_buffered succeeds_andThen [OF unset_evaluation d]])
qed

lemma unset_assessed:
  assumes "is_layer_results score = [(adversarial_result quiet_layer p [tamper_threat])\<lparr>lr_latency := 0\<rparr>]"
  shows "\<exists>x. hook_assess (\<lambda>j. []) (\<lambda>j. []) (\<lambda>r. []) q score unset_call = Inr x"
proof -
  have t: "field_or ''threats'' (JArr []) (lr_details (adversarial_result quiet_layer p [tamper_threat])) = JArr [threat_to_dict tamper_threat]"
    "field_or ''evaluations'' (JArr []) (lr_details (adversarial_result quiet_layer p [tamper_threat])) = JArr []"
    by (simp_all add: adversarial_result_def Let_def field_or_def)
  have w: "written_text (\<lambda>j. []) unset_call = Inr []" by code_simp
  obtain b rs where b: "assess_threat (\<lambda>j. []) (\<lambda>r. []) (score_action score, []) (threat_to_dict tamper_threat) = Inr (b, rs)"
    by (simp add: assess_threat_def threat_to_dict_def tamper_threat_def numeric_def strong_def field_or_def)
  show ?thesis
    by (simp add: hook_assess_def assms assess_layer_def t assess_written_def w b exn_simps)
qed

definition unset_session :: "(string, layers_state) hook_session" where
  "unset_session = open_session sample_lib Claude_Code quiet_adapter ''enforce'' Missing Missing
     (default_pipeline (15 / 100) ''enterprise-default'' False)"

abbreviation serves_unset :: "json option \<Rightarrow> (string, layers_state) hook_session \<Rightarrow> bool" where
  "serves_unset out hs \<equiv> hook_handle sample_lib (\<lambda>j. []) (\<lambda>j. []) (\<lambda>r. []) unset_payload unset_session = Some (Inr out, hs)"

lemma unset_normal: "normalize (\<lambda>j. []) Claude_Code unset_payload = Some (''pre_tool_use'', unset_payload)"
  by code_simp

lemma unset_fields: "field_or ''tool_name'' (JStr []) unset_payload = JStr ''Bash''" "field_or ''tool_input'' JNull unset_payload = JObj unset_call"
  by (simp_all add: unset_payload_def field_or_def)

lemma unset_parts: "hk_host unset_session = Claude_Code" "hk_adapter unset_session = quiet_adapter" "hk_mode unset_session = ''enforce''"
  "\<not> hk_ended unset_session" "as_buffer (hk_state unset_session) = empty_buffer" "as_next (hk_state unset_session) = 0"
  by (simp_all add: unset_session_def open_session_def load_chain_file_def initial_state_def Let_def)

lemma unset_answered:
  obtains d s1 out hs where "handle_pre_tool_use sample_lib quiet_adapter unset_payload (hk_state unset_session) = Some (Inr d, s1)"
    "serves_unset out hs" "out = render_decision ''deny'' (denial_message ''block'')"
proof -
  let ?r = "(adversarial_result quiet_layer (ad_profile quiet_adapter) [tamper_threat])\<lparr>lr_latency := 0\<rparr>"
  obtain d s1 score where h: "handle_pre_tool_use sample_lib quiet_adapter unset_payload (hk_state unset_session) = Some (Inr d, s1)"
    and l: "latest_score (as_events s1) = Inr score" and r: "is_layer_results score = [?r]"
    using unset_handled unset_parts(5,6) unfolding succeeds_def by blast
  let ?hs = "unset_session\<lparr>hk_state := s1\<rparr>"
  have h': "handler_of sample_lib quiet_adapter ''pre_tool_use'' = Some (handle_pre_tool_use sample_lib quiet_adapter)" by (simp add: handler_of_def)
  have "ad_aevaluate quiet_adapter = None" by (simp add: quiet_adapter_def shell_adapter_def)
  then have "evaluate_sync sample_lib quiet_adapter ''pre_tool_use'' unset_payload (hk_state unset_session) = Some (Inr d, s1)"
    by (simp add: evaluate_sync_def h' catching_def h)
  then have run: "hook_handle sample_lib (\<lambda>j. []) (\<lambda>j. []) (\<lambda>r. []) unset_payload unset_session
      = answer_call sample_lib (\<lambda>j. []) (\<lambda>j. []) (\<lambda>r. []) (field_or ''tool_name'' JNull unset_payload) unset_call ?hs"
    unfolding hook_handle_def unset_parts unset_normal by (simp add: on_adapter_def unset_parts unset_fields)
  obtain action reasons where a: "hook_assess (\<lambda>j. []) (\<lambda>j. []) (\<lambda>r. []) (ad_profile quiet_adapter) score unset_call = Inr (action, reasons)"
    using unset_assessed [OF r] by (metis surj_pair)
  have k: "\<exists>x hs'. on_adapter (if b then ret None else record_decision sample_lib A p c st i) hs = Some (Inr x, hs')"
    for b A p c st i and hs :: "(string, layers_state) hook_session"
    using record_decision_succeeds [of sample_lib A p c st i] unfolding succeeds_def by (cases b) (auto simp: on_adapter_def ret_def)
  obtain out hs' where ans: "answer_call sample_lib (\<lambda>j. []) (\<lambda>j. []) (\<lambda>r. []) (field_or ''tool_name'' JNull unset_payload) unset_call ?hs = Some (Inr out, hs')"
  proof -
    let ?m = "if verdict_for (hk_host ?hs) action = ''allow'' then ret None
       else record_decision sample_lib (hk_adapter ?hs) ''hook_verdict'' [(''tool'', field_or ''tool_name'' JNull unset_payload), (''arguments'', JObj unset_call)]
         (Some ((''verdict:'' @ verdict_for (hk_host ?hs) action) # (''mode:'' @ hk_mode ?hs) # reasons)) None"
    obtain x hs1 where "on_adapter ?m ?hs = Some (Inr x, hs1)" using k by blast
    moreover have "bindS (latest_score (as_events (hk_state ?hs))) (\<lambda>score. hook_assess (\<lambda>j. []) (\<lambda>j. []) (\<lambda>r. [])
        (ad_profile (hk_adapter ?hs)) score unset_call) = Inr (action, reasons)"
      using l a by (simp add: exn_simps unset_parts)
    ultimately show ?thesis
      using that unfolding answer_call_def by (simp only: sum.case prod.case option.case Let_def)
  qed
  have "score_action score = ''block''"
    unfolding score_action_def r by (simp add: overall_action_def adversarial_result_def adversarial_verdict_def quiet_layer_def
        make_adversarial_def tamper_threat_def max_severity_def Let_def)
  moreover have "latest_score (as_events (hk_state ?hs)) = Inr score" "hk_mode ?hs \<noteq> ''alert''" using l by (simp_all add: unset_parts)
  ultimately have "out = render_decision ''deny'' (denial_message ''block'')" using block_denied [OF ans] by blast
  moreover have "serves_unset out hs'" using run ans by simp
  ultimately show ?thesis using h that by blast
qed

theorem hook_denies_dangerous_witness:
  "\<exists>hs. serves_unset (render_decision ''deny'' (denial_message ''block'')) hs"
proof (rule unset_answered)
  fix d s1 out hs
  assume h: "handle_pre_tool_use sample_lib quiet_adapter unset_payload (hk_state unset_session) = Some (Inr d, s1)" and run: "serves_unset out hs"
  have A: "\<not> ad_enforce quiet_adapter" "ad_gate quiet_adapter = None"
    "ad_classify quiet_adapter ''Bash'' unset_call = Inr [''log_tamper'']"
    "ad_evaluate quiet_adapter = adapter_evaluation pipeline_timer quiet_evaluator (ad_profile quiet_adapter)"
    "ad_aevaluate quiet_adapter = None"
    by (simp_all add: quiet_adapter_def shell_adapter_def)
  have async: "ad_aevaluate quiet_adapter = adapter_aevaluation pipeline_timer quiet_evaluator (ad_profile quiet_adapter)"
    unfolding A(5) by (simp add: adapter_aevaluation_def has_async_layers_def quiet_evaluator_def adversarial_layer_def)
  have "run_evaluation sample_lib quiet_adapter = score_call sample_lib quiet_adapter"
    by (simp add: run_evaluation_def score_call_def scorer_def A(5))
  with h obtain call s0 score s2 where call: "buffer_tool_call sample_lib quiet_adapter unset_payload (hk_state unset_session) = Some (Inr call, s0)"
    and score: "scored sample_lib quiet_adapter s0 score s2"
    unfolding handle_pre_tool_use_def andThen_Inr score_call_scored [symmetric] by (metis (no_types))
  have c: "classify_tool_call (\<lambda>j. []) ''Bash'' unset_call = {LOG_TAMPER}" by code_simp
  have tags: "set [''log_tamper''] = category_value ` classify_tool_call (\<lambda>j. []) ''Bash'' unset_call" unfolding c by simp
  have layer: "adversarial_layer sample_surroundings quiet_layer \<in> set (ev_layers quiet_evaluator)" by (simp add: quiet_evaluator_def)
  have settings: "av_block quiet_layer" "av_arguments quiet_layer" by (simp_all add: quiet_layer_def make_adversarial_def)
  have danger: "LOG_TAMPER \<in> classify_tool_call (\<lambda>j. []) ''Bash'' unset_call" "dangerous LOG_TAMPER" by (simp_all add: c dangerous_def)
  have room: "length (cb_tool_calls (as_buffer (hk_state unset_session))) < buffer_cap"
    unfolding unset_parts by (simp add: empty_buffer_def buffer_cap_def)
  have mode: "hk_mode unset_session \<noteq> ''alert''" unfolding unset_parts by simp
  have n: "normalize (\<lambda>j. []) (hk_host unset_session) unset_payload = Some (''pre_tool_use'', unset_payload)" unfolding unset_parts by (rule unset_normal)
  have "out = render_decision ''deny'' (denial_message ''block'')"
    by (rule hook_denies_dangerous [OF mode unset_parts(4) unset_parts(2) [symmetric] A(1,2) n unset_fields A(3) tags A(4) async layer settings
          danger room call score run])
  with run show ?thesis by blast
qed

theorem hook_answers_enforced_witness:
  "\<exists>out hs verdict reason. serves_unset (Some out) hs \<and> verdict \<in> {''deny'', ''ask''} \<and> Some out = render_decision verdict reason"
proof (rule unset_answered)
  fix d s1 out hs
  assume run: "serves_unset out hs" and out: "out = render_decision ''deny'' (denial_message ''block'')"
  then obtain x where x: "out = Some x" by (simp add: render_decision_def)
  from hook_answers_enforced [OF run [unfolded x]] run show ?thesis unfolding unset_parts coding_host.case x by blast
qed

theorem hook_chain_durable_witness:
  "\<exists>outs hs. serve sample_lib (\<lambda>j. []) (\<lambda>j. []) (\<lambda>r. []) [unset_payload] unset_session = Some (outs, hs) \<and> verify_chain sample_lib (as_chain (hk_state hs))
     \<and> hk_file hs = (if as_chain (hk_state hs) = [] then Missing else Records (to_records_dict sample_lib (as_chain (hk_state hs))))"
proof (rule unset_answered)
  fix d s1 out hs
  assume run: "serves_unset out hs"
  then have s: "serve sample_lib (\<lambda>j. []) (\<lambda>j. []) (\<lambda>r. []) [unset_payload] unset_session = Some ([out], hs)" by simp
  have l: "load_chain_file sample_lib Missing Missing = (None, Missing, Missing)" by (simp add: load_chain_file_def)
  have v: "verify_chain sample_lib []" by (simp add: verify_chain_linked linked_def)
  from hook_chain_durable [OF l _ v s [unfolded unset_session_def]] s show ?thesis by simp
qed

end
