(* ===== verification/Spec2Isabelle.thy ===== *)
theory Spec2Isabelle
  imports Gateway Keys Observer_Properties Model_Scan_Properties Model_Cortical Hook_Properties
begin

text \<open>
  Agentegrity: a Python library that watches an autonomous agent, scores its integrity, keeps a
  signed chain of what it saw, and gates the tool calls the agent makes. All sources are under
  \<open>src/src/agentegrity\<close>.

  \<^bold>\<open>The program and its theories.\<close> A framework adapter (\<open>adapters/base.py\<close>) receives the events of
  an agent. It classifies a tool call (\<open>core/tool_classifier.py\<close>), buffers it, asks the evaluator
  (\<open>core/evaluator.py\<close>) for a score of its layers, appends an attestation record to the chain
  (\<open>core/attestation.py\<close>, \<open>core/decision.py\<close>), lets the action gate (\<open>core/action_security.py\<close>) and
  a human approver (\<open>core/approval.py\<close>) decide, and answers. The governance and recovery layers
  (\<open>layers/governance.py\<close>, \<open>layers/recovery.py\<close>) judge from the profile, the context and the
  checkpoints (\<open>layers/checkpoint.py\<close>). The gateway and the MCP boundary (\<open>sdk/gateway.py\<close>,
  \<open>sdk/mcp_boundary.py\<close>) run tools under an action gate. The theories are, in that order:

  \<^item> \<open>Prelude\<close>: exceptions, ordered dictionaries, JSON values, rounding, and the rule collections
    \<open>exn_simps\<close>, \<open>dict_simps\<close>, \<open>wf_intros\<close>. \<open>Decoding\<close>: the parameters \<open>lib\<close> and reading records
    back. \<open>Json_Text\<close>: the canonical JSON text and its unambiguity.
  \<^item> \<open>Trust_Boundaries\<close>, \<open>Action_Gate\<close>, \<open>Gate_Authority\<close>, \<open>Effect_Receipts\<close>, \<open>Receipt_Invariants\<close>,
    \<open>Gate_Properties\<close>: mandates, delegation, verdicts, executions and effect receipts. Gates live in
    a heap, as a child refers to its parent; the interface of boundary policies is a locale.
  \<^item> \<open>Gateway\<close>: the trusted gateway and the MCP tool boundary over that gate.
  \<^item> \<open>Topology\<close>, \<open>Records\<close>, \<open>Attestation_Chain\<close>, \<open>Chain_Properties\<close>: topology snapshots, the records,
    the chain and its verifications.
  \<^item> \<open>Evaluator\<close>: weights, layers run in order or at once, composite score and confidence.
  \<^item> \<open>Profile\<close>, \<open>Tool_Names\<close>, \<open>Governance\<close>, \<open>Governance_Properties\<close>: policy rules over names, globs,
    amounts and categories, decisions and the audit log.
  \<^item> \<open>Approval\<close>, \<open>Monitor\<close>: human approval; the monitor that guards a function.
  \<^item> \<open>Checkpoints\<close>, \<open>Checkpoint_Stores\<close>, \<open>Recovery\<close>, \<open>Recovery_Properties\<close>: snapshots, the locale
    \<open>checkpoint_store\<close> with the memory, file and SQLite backends as its instances, restores.
  \<^item> \<open>Keys\<close>, \<open>Credentials\<close>, \<open>Usage\<close>: key providers (a locale with two instances), credential
    fingerprints, token usage.
  \<^item> \<open>Adapter_State\<close>, \<open>Adapter\<close>, \<open>Adapter_Events\<close>, \<open>Adapter_Properties\<close>, \<open>Adapter_Leave\<close>: the
    adapter, its handlers and the interleavings of its critical sections.
  \<^item> \<open>Shell_Lexer\<close>, \<open>Tool_Classifier\<close>, \<open>Shell_Quoting\<close>: the classifier of tool calls.
  \<^item> \<open>Timestamps\<close>, \<open>Agent_Events\<close>, \<open>Event_Properties\<close>, \<open>Host_Observer\<close>, \<open>Observer_Properties\<close>:
    instants and their ISO text, the event contract (\<open>core/events.py\<close>), the host observer that emits
    such events within a budget (\<open>adapters/host.py\<close>) and the automaton of a run's life it implements.
  \<^item> \<open>Baselines\<close>, \<open>Baseline_Stores\<close>, \<open>Cortical\<close>, \<open>Cortical_Properties\<close>: behavioural baselines, the
    locales \<open>baseline_store\<close> and \<open>detached_store\<close> with the memory, file and SQLite stores as their
    instances, and the cortical layer (\<open>layers/cortical.py\<close>) that measures drift from a baseline.
  \<^item> \<open>Regular_Patterns\<close>, \<open>Detector_Patterns\<close>, \<open>Adversarial\<close>, \<open>Adversarial_Properties\<close>: the regular
    expressions of the detectors with their backtracking search, the default taxonomy, and the
    adversarial layer (\<open>layers/adversarial.py\<close>) that scans the channels of a context.
  \<^item> \<open>Pipeline\<close>, \<open>Pipeline_Leave\<close>: the four layers under one evaluator, as
    \<open>layers/__init__.py\<close> and the adapters put them together, and what follows from end to end.
  \<^item> \<open>Model_Scan\<close>, \<open>Model_Scan_Properties\<close>, \<open>Model_Cortical\<close>: the layers that ask a language model
    for a second opinion (\<open>layers/adversarial_llm.py\<close>, \<open>layers/adversarial_slm.py\<close>,
    \<open>layers/cortical_llm.py\<close>). The concurrent calls are steps of \<open>classify_step\<close>; what a model may
    answer is the locale \<open>classifier\<close>, whose instance is the parser of the replies.
  \<^item> \<open>Hook_Session\<close>, \<open>Hook_Properties\<close>: the session of command hooks of a coding agent
    (\<open>hooks/protocol.py\<close>, \<open>hooks/session.py\<close>) around an adapter, and its chain file.

  \<^bold>\<open>How state and operations correspond.\<close> A class is a record of its attributes, a method a function
  of that record that returns the new one; a raise is \<open>Inl\<close> of an \<open>exn\<close>, kept apart from the value
  \<open>Inr\<close>; an object shared by reference (gates, chains) is an index into a store. The operations of
  the adapter are of type \<open>op\<close>: they may raise after changing the state, and are \<open>None\<close> only where
  the code waits for ever, for an approval that is never given. Sections the code holds a lock for
  are single steps of \<open>adapter_step\<close>. What lies outside the code is an argument: SHA-256, Ed25519 and
  HMAC, the text of a float, \<open>uuid4\<close>, clocks, \<open>str\<close> of a value that is no string, callbacks, and
  the layers as seen from the evaluator. They are fields of \<open>lib\<close>, \<open>machine\<close> and the records of the
  components; the sample instances in the theories show that the hypotheses on them can hold.

  \<^bold>\<open>What the lemmas show.\<close> For the gate: verdicts are the attenuated authority of the whole chain of
  delegations, revocation is final, an action executes at most once and only when authorised,
  receipts follow the evidence, and an MCP call runs the authorised arguments and no others. For the
  chain: appends keep it verified, its last hash determines
  it, verifications equal their specifications, it survives serialisation. For the policy: the
  decision is the strongest rule that fires, a gated tool never passes, the audit log only grows.
  For recovery: no restore loses evidence, a save is atomic, every backend loads what was last
  saved. For the adapter: the chain verifies after every interleaving, every event is answered,
  under enforcement a call runs exactly with leave, which \<open>leave\<close> of \<open>Adapter_Leave\<close> says over the
  states its own check goes through. For the classifier: quoting is undone by its tokenizer, a quoted
  pipeline is classified by its words (none a newline or an operator), and its recursion ends. For events: what
  the constructors build is well formed, survives its dictionary form, and the observer never emits
  past its budget nor out of the order of a run's life. For the cortical layer: drift lies between 0
  and 1, a load returns what was last saved for the agent and role (but for two keys that share a
  file, and for an object in memory that is changed after it was saved), and the verdict is exactly that of the thresholds. For the
  adversarial layer: the search finds the leftmost match and misses none, a phrase is found in any case
  and surroundings, the sequence detector reports exactly its pairs, the verdict is exact. For the
  pipeline: its score stays between 0 and 1 (a composite may reach 1.001, as far as the sum of the
  weights may), and a call the classifier finds dangerous is denied by an enforcing adapter whose buffer
  of calls has room, through classifier, buffer, layer, evaluator and decision. For the layers with a
  model: whatever the model replies and however its calls interleave, it can only make a verdict
  stricter, every text is asked about once, the calls and the cache stay within their bounds. For the
  hook session: a dangerous call that was buffered and scored is denied on either host, every answer is one the host enforces, and
  the chain file holds the chain after every payload.

  \<^bold>\<open>Bounds.\<close> No definition takes fuel. Recursions that are not structural carry a measure: the depth
  of delegations (\<open>ancestry\<close>), the length of the rest of a text (lexers), and \<open>weight\<close>, the length
  of a command with three for a newline, for the classifier; a repetition of a pattern ends because
  an iteration past the minimum consumes a character. Integers are unbounded as in Python;
  a float is an exact rational (no rounding to 53 bits), a real where the code takes logarithms, a
  character a code point below 256.

  \<^bold>\<open>Not modelled, and why.\<close> The similarity detector (\<open>layers/embedding_similarity.py\<close>) compares
  vectors of a library that is not in the repository; the exporters, the hook daemon, telemetry and
  the command line are input and output; the framework adapters other than the base class translate
  the callbacks of libraries that are not in the repository. The manifest lists each with its reason.
\<close>

end
